(* ===== verification/Prelude.thy ===== *)
theory Prelude
  imports Complex_Main "HOL-Library.Word" "HOL-Library.AList"
begin

unbundle bit_operations_syntax

text \<open>
  What every component theory shares: the names of the model's basic types, the pieces of the
  JavaScript standard library that the sources use, and the generic facts about them.

  A JavaScript \<^verbatim>\<open>number\<close> is an \<open>int\<close> where the code only counts, a \<open>rat\<close> where it divides, and
  a \<open>32 word\<close> where it is forced to 32 bits (\<^verbatim>\<open>>>> 0\<close>, \<^verbatim>\<open>Math.imul\<close>). \<^verbatim>\<open>null\<close> and \<^verbatim>\<open>undefined\<close> are
  \<open>None\<close>. A \<^verbatim>\<open>Uint8Array\<close> is a list of bytes. A \<^verbatim>\<open>Map\<close> is an association list, which keeps the
  insertion order: \<^verbatim>\<open>set\<close> is \<open>AList.update\<close>, which changes an entry in place or appends it.
\<close>

type_synonym u8 = "8 word"
type_synonym u32 = "32 word"
type_synonym bytes = "u8 list"

named_theorems js_defs "definitions of the standard-library pieces, for unfolding"
named_theorems inv_intros "preservation of the components' invariants"

subsection \<open>Rounding and clamping\<close>

definition js_round :: "rat \<Rightarrow> int" where
  "js_round x = \<lfloor>x + 1/2\<rfloor>"

definition js_clamp :: "'a::linorder \<Rightarrow> 'a \<Rightarrow> 'a \<Rightarrow> 'a" where
  "js_clamp lo hi x = max lo (min hi x)"

lemma js_clamp_bounds [simp]:
  "lo \<le> hi \<Longrightarrow> lo \<le> js_clamp lo hi x" "lo \<le> hi \<Longrightarrow> js_clamp lo hi x \<le> hi"
  by (auto simp: js_clamp_def)

lemma js_clamp_id [simp]: "lo \<le> x \<Longrightarrow> x \<le> hi \<Longrightarrow> js_clamp lo hi x = x"
  by (simp add: js_clamp_def)

lemma js_round_of_int [simp]: "js_round (of_int n) = n"
proof -
  have "\<lfloor>of_int n + (1/2 :: rat)\<rfloor> = n"
    by (rule floor_unique) auto
  then show ?thesis by (simp add: js_round_def)
qed

lemma js_round_mono: "x \<le> y \<Longrightarrow> js_round x \<le> js_round y"
  by (simp add: js_round_def floor_mono)

subsection \<open>Arrays\<close>

text \<open>\<open>xs[i]\<close>: \<^verbatim>\<open>undefined\<close> outside the array, at a negative index too.\<close>

definition js_index :: "'a list \<Rightarrow> int \<Rightarrow> 'a option" where
  "js_index xs i = (if 0 \<le> i \<and> i < int (length xs) then Some (xs ! nat i) else None)"

lemma js_index_Some_iff:
  "js_index xs i = Some x \<longleftrightarrow> 0 \<le> i \<and> i < int (length xs) \<and> xs ! nat i = x"
  by (auto simp: js_index_def)

lemma js_index_append_old:
  "js_index xs i = Some x \<Longrightarrow> js_index (xs @ ys) i = Some x"
  by (auto simp: js_index_Some_iff nth_append)

lemma js_index_map: "js_index xs i = Some x \<Longrightarrow> js_index (map f xs) i = Some (f x)"
  by (auto simp: js_index_Some_iff)

lemma js_index_append_new [simp]:
  "js_index (xs @ [x]) (int (length xs)) = Some x"
  by (simp add: js_index_Some_iff)

text \<open>
  \<^verbatim>\<open>push\<close> followed by \<^verbatim>\<open>if (length > limit) shift()\<close>, and \<^verbatim>\<open>slice(-n)\<close>: the two ways the sources
  keep a log bounded.
\<close>

definition push_shift :: "nat \<Rightarrow> 'a list \<Rightarrow> 'a \<Rightarrow> 'a list" where
  "push_shift limit xs x = (let ys = xs @ [x] in if limit < length ys then tl ys else ys)"

definition slice_last :: "nat \<Rightarrow> 'a list \<Rightarrow> 'a list" where
  "slice_last n xs = drop (length xs - n) xs"

lemma length_push_shift_le:
  "length xs \<le> limit \<Longrightarrow> length (push_shift limit xs x) \<le> limit"
  by (auto simp: push_shift_def Let_def)

lemma length_slice_last [simp]: "length (slice_last n xs) = min n (length xs)"
  by (simp add: slice_last_def)

lemma slice_last_id [simp]: "length xs \<le> n \<Longrightarrow> slice_last n xs = xs"
  by (simp add: slice_last_def)

lemma set_push_shift: "set (push_shift limit xs x) \<subseteq> insert x (set xs)"
  by (cases xs) (auto simp: push_shift_def Let_def)

lemma last_push_shift [simp]: "0 < limit \<Longrightarrow> last (push_shift limit xs x) = x"
  by (cases xs) (auto simp: push_shift_def Let_def)

lemma push_shift_nonempty [simp]: "0 < limit \<Longrightarrow> push_shift limit xs x \<noteq> []"
  by (cases xs) (auto simp: push_shift_def Let_def)

text \<open>\<^verbatim>\<open>xs.join(sep)\<close>.\<close>

fun js_join :: "string \<Rightarrow> string list \<Rightarrow> string" where
  "js_join sep [] = []"
| "js_join sep [x] = x"
| "js_join sep (x # y # zs) = x @ sep @ js_join sep (y # zs)"

subsection \<open>Numbers in text\<close>

fun show_nat :: "nat \<Rightarrow> string" where
  "show_nat n = (if n < 10 then [''0123456789'' ! n]
                 else show_nat (n div 10) @ [''0123456789'' ! (n mod 10)])"

declare show_nat.simps [simp del]

definition show_int :: "int \<Rightarrow> string" where
  "show_int i = (if i < 0 then ''-'' @ show_nat (nat (- i)) else show_nat (nat i))"

lemma show_nat_nonempty [simp]: "show_nat n \<noteq> []"
  by (subst show_nat.simps) simp

lemma show_int_nonempty [simp]: "show_int i \<noteq> []"
  by (simp add: show_int_def)

subsection \<open>The map operations of an association list\<close>

lemma map_of_update_same [simp]: "map_of (AList.update k v al) k = Some v"
  by (simp add: update_conv')

lemma map_of_update_other [simp]: "j \<noteq> k \<Longrightarrow> map_of (AList.update k v al) j = map_of al j"
  by (simp add: update_conv')

lemma map_of_update_iff:
  "map_of (AList.update k v al) j = (if j = k then Some v else map_of al j)"
  by (simp add: update_conv')

lemma dom_map_of_update [simp]:
  "dom (map_of (AList.update k v al)) = insert k (dom (map_of al))"
  by (simp add: update_conv')

subsection \<open>Exclusive or\<close>

lemma xor_xor_cancel_right [simp]: "(a XOR b) XOR b = (a :: 'a::len word)"
  by (simp add: xor.assoc)

lemma map2_xor_cancel:
  "length key \<le> length pad \<Longrightarrow> map2 (XOR) (map2 (XOR) key pad) pad = (key :: 'a::len word list)"
  by (induction key pad rule: list_induct2') simp_all

end
