(* ===== verification/Etsi004.thy ===== *)
theory Etsi004
  imports Prelude
begin

text \<open>
  The simulated ETSI GS QKD 004 V2.1.1 key manager pair, \<^verbatim>\<open>Km004\<close> of
  \<^verbatim>\<open>lib/sim/protocolLab/etsi004.ts\<close>: its data, one definition per method, its invariant, the trace of a
  run and the abstract stream it implements.

  The environment's callbacks (\<^verbatim>\<open>routeUp\<close>, \<^verbatim>\<open>capacity\<close>, \<^verbatim>\<open>now\<close>, \<^verbatim>\<open>newKsid\<close>) are read at most once in a
  call, so a call takes their answers as the record \<open>km_env\<close>. Methods that change the object
  return the new object; copying a \<^verbatim>\<open>Uint8Array\<close> with \<^verbatim>\<open>slice()\<close>, as the code does on the way in and on
  the way out, is what makes the byte lists of the model values.
\<close>

section \<open>Status codes and quality of service\<close>

datatype status_id =
    SUCCESSFUL | PEER_NOT_CONNECTED | INSUFFICIENT_KEY | PEER_APP_NOT_CONNECTED
  | NO_QKD_CONNECTION | KSID_IN_USE | TIMEOUT | QOS_NOT_MET | METADATA_TOO_SMALL

fun statusCode :: "status_id \<Rightarrow> int" where
  "statusCode SUCCESSFUL = 0"
| "statusCode PEER_NOT_CONNECTED = 1"
| "statusCode INSUFFICIENT_KEY = 2"
| "statusCode PEER_APP_NOT_CONNECTED = 3"
| "statusCode NO_QKD_CONNECTION = 4"
| "statusCode KSID_IN_USE = 5"
| "statusCode TIMEOUT = 6"
| "statusCode QOS_NOT_MET = 7"
| "statusCode METADATA_TOO_SMALL = 8"

definition status_ids :: "status_id list" where
  "status_ids = [SUCCESSFUL, PEER_NOT_CONNECTED, INSUFFICIENT_KEY, PEER_APP_NOT_CONNECTED,
     NO_QKD_CONNECTION, KSID_IN_USE, TIMEOUT, QOS_NOT_MET, METADATA_TOO_SMALL]"

text \<open>\<open>None\<close> is the \<^verbatim>\<open>throw\<close> for a code that is not in V2.1.1.\<close>

definition statusById :: "int \<Rightarrow> status_id option" where
  "statusById code = List.find (\<lambda>s. statusCode s = code) status_ids"

lemma statusById_statusCode [simp]: "statusById (statusCode s) = Some s"
  by (cases s) (simp_all add: statusById_def status_ids_def)

lemma statusCode_inj [simp]: "statusCode s = statusCode t \<longleftrightarrow> s = t"
  by (cases s; cases t) simp_all

definition INDEX_ORIGIN :: int where
  "INDEX_ORIGIN = 0"

definition unknown_ksid_http :: int where
  "unknown_ksid_http = 404"

definition preferred_mimetype :: string where
  "preferred_mimetype = ''application/json''"

datatype side = A | B

fun other :: "side \<Rightarrow> side" where
  "other A = B"
| "other B = A"

lemma other_other [simp]: "other (other d) = d"
  by (cases d) simp_all

lemma other_neq [simp]: "other d \<noteq> d" "d \<noteq> other d"
  by (cases d; simp)+

lemma side_cases2: "e = d \<or> e = other d"
  by (cases d; cases e) simp_all

record qos =
  Key_chunk_size :: "int option"
  Max_bps :: "int option"
  Min_bps :: "int option"
  Jitter :: "int option"
  Priority :: "int option"
  Timeout :: "int option"
  TTL :: "int option"
  Metadata_mimetype :: "string option"

definition EMPTY_QOS :: qos where
  "EMPTY_QOS = \<lparr>Key_chunk_size = None, Max_bps = None, Min_bps = None, Jitter = None,
     Priority = None, Timeout = None, TTL = None, Metadata_mimetype = None\<rparr>"

section \<open>Streams, environment and results\<close>

datatype stream_state = PENDING_PEER | ESTABLISHED | CLOSING | CLOSED

record chunk =
  data :: bytes
  availableAt :: rat
  chunk_hops :: int

record stream =
  st_ksid :: string
  source :: string
  destination :: string
  st_qos :: qos
  opened_by :: "side \<Rightarrow> bool"
  closed_by :: "side \<Rightarrow> bool"
  st_state :: stream_state
  chunks :: "chunk list"
  delivered_to :: "side \<Rightarrow> int list"

type_synonym km = "(string \<times> stream) list"

datatype transition =
    T1 | T2 | T3 | T5 | T6 | T7 | T8 | T9 | T10 | T11 | T12 | T13 | T15 | T16 | T17 | T20 | T21

record metadata =
  Metadata_size :: int
  Metadata_buffer :: "string option"

record call_result =
  res_status :: "int option"
  http :: "int option"
  via :: transition
  Key_stream_ID :: "string option"
  QoS :: "qos option"
  index :: "int option"
  Key_buffer :: "bytes option"
  Metadata :: "metadata option"
  detail :: "string option"
  rateBasis :: "string option"

definition res :: "transition \<Rightarrow> call_result" where
  "res t = \<lparr>res_status = None, http = None, via = t, Key_stream_ID = None, QoS = None,
     index = None, Key_buffer = None, Metadata = None, detail = None, rateBasis = None\<rparr>"

definition status_res :: "status_id \<Rightarrow> transition \<Rightarrow> call_result" where
  "status_res s t = (res t)\<lparr>res_status := Some (statusCode s)\<rparr>"

lemmas res_defs = res_def status_res_def

record km_env =
  keyChunkBytes :: int
  routeUp :: bool
  cap_bps :: "rat option"
  cap_basis :: string
  now_ms :: rat
  newKsid :: string

definition sameApps :: "string \<Rightarrow> string \<Rightarrow> string \<Rightarrow> string \<Rightarrow> bool" where
  "sameApps a_src a_dst b_src b_dst \<longleftrightarrow>
     (a_src = b_src \<and> a_dst = b_dst) \<or> (a_src = b_dst \<and> a_dst = b_src)"

definition km_list :: "km \<Rightarrow> (string \<times> stream_state \<times> nat \<times> nat \<times> nat) list" where
  "km_list km = map (\<lambda>(k, s). (st_ksid s, st_state s, length (chunks s),
     length (delivered_to s A), length (delivered_to s B))) km"

definition chunkBytes :: "string \<Rightarrow> km \<Rightarrow> int option" where
  "chunkBytes k km = (case map_of km k of None \<Rightarrow> None | Some s \<Rightarrow> Key_chunk_size (st_qos s))"

definition isEstablished :: "string option \<Rightarrow> km \<Rightarrow> bool" where
  "isEstablished ko km = (case ko of None \<Rightarrow> False | Some k \<Rightarrow>
     (case map_of km k of None \<Rightarrow> False | Some s \<Rightarrow> st_state s = ESTABLISHED))"

section \<open>OPEN_CONNECT\<close>

text \<open>
  The counter-proposal and the first reason it differs from what was asked. \<open>None\<close> and 0 are falsy
  for the chunk size, \<open>None\<close> and the empty string for the media type.
\<close>

definition counter_chunk_size :: "int \<Rightarrow> int option \<Rightarrow> int" where
  "counter_chunk_size k asked = (case asked of None \<Rightarrow> k
     | Some a \<Rightarrow> if 0 < a
                 then if a mod k \<noteq> 0 then max k (js_round (of_int a / of_int k) * k) else a
                 else k)"

definition chunk_size_unmet :: "int \<Rightarrow> int option \<Rightarrow> bool" where
  "chunk_size_unmet k asked = (case asked of None \<Rightarrow> False | Some a \<Rightarrow> 0 < a \<and> a mod k \<noteq> 0)"

definition min_bps_unmet :: "rat option \<Rightarrow> int option \<Rightarrow> bool" where
  "min_bps_unmet cap m = (case (m, cap) of
     (Some m, Some c) \<Rightarrow> 0 < m \<and> c < of_int m | _ \<Rightarrow> False)"

definition mimetype_unmet :: "string option \<Rightarrow> bool" where
  "mimetype_unmet mt = (case mt of None \<Rightarrow> False
     | Some t \<Rightarrow> t \<noteq> [] \<and> t \<noteq> preferred_mimetype)"

definition counter_qos :: "km_env \<Rightarrow> qos \<Rightarrow> qos" where
  "counter_qos env q =
     (let q1 = q\<lparr>Key_chunk_size := Some (counter_chunk_size (keyChunkBytes env) (Key_chunk_size q))\<rparr>;
          q2 = (if min_bps_unmet (cap_bps env) (Min_bps q)
                then q1\<lparr>Min_bps := map_option floor (cap_bps env)\<rparr> else q1)
      in if mimetype_unmet (Metadata_mimetype q)
         then q2\<lparr>Metadata_mimetype := Some preferred_mimetype\<rparr> else q2)"

definition qos_unmet :: "km_env \<Rightarrow> qos \<Rightarrow> string option" where
  "qos_unmet env q =
     (if chunk_size_unmet (keyChunkBytes env) (Key_chunk_size q)
      then Some (''Key_chunk_size must be a multiple of '' @ show_int (keyChunkBytes env)
                 @ '' bytes (one relayed key)'')
      else if min_bps_unmet (cap_bps env) (Min_bps q)
      then Some (''Min_bps above the route's bottleneck rate ('' @ cap_basis env @ '')'')
      else if mimetype_unmet (Metadata_mimetype q)
      then Some ''only application/json metadata is supported''
      else None)"

definition new_stream :: "side \<Rightarrow> string \<Rightarrow> string \<Rightarrow> qos \<Rightarrow> string \<Rightarrow> stream" where
  "new_stream d src dst q k = \<lparr>st_ksid = k, source = src, destination = dst, st_qos = q,
     opened_by = (\<lambda>e. e = d), closed_by = (\<lambda>_. False), st_state = PENDING_PEER,
     chunks = [], delivered_to = (\<lambda>_. [])\<rparr>"

definition open_existing :: "side \<Rightarrow> string \<Rightarrow> string \<Rightarrow> string \<Rightarrow> km \<Rightarrow> call_result \<times> km" where
  "open_existing d src dst k km = (case map_of km k of
     None \<Rightarrow> ((res T6)\<lparr>Key_stream_ID := Some k, detail := Some ''not simulated: predefined Key_stream_IDs (clause 6.2.4) block until the peer opens; only the null-KSID sequence of clause 6.2.2 is modelled here''\<rparr>, km)
   | Some s \<Rightarrow>
       if \<not> sameApps (source s) (destination s) src dst
       then ((status_res KSID_IN_USE T7)\<lparr>Key_stream_ID := Some k,
               detail := Some ''Key_stream_ID belongs to another application pair''\<rparr>, km)
       else if st_state s = CLOSED
       then ((status_res KSID_IN_USE T9)\<lparr>Key_stream_ID := Some k,
               detail := Some ''a closed Key_stream_ID is not reused''\<rparr>, km)
       else if opened_by s d
       then ((status_res KSID_IN_USE T8)\<lparr>Key_stream_ID := Some k,
               detail := Some ''this side already opened the stream''\<rparr>, km)
       else ((status_res SUCCESSFUL T5)\<lparr>Key_stream_ID := Some k, QoS := Some (st_qos s)\<rparr>,
             AList.update k (s\<lparr>opened_by := (opened_by s)(d := True), st_state := ESTABLISHED\<rparr>) km))"

definition open_null :: "km_env \<Rightarrow> side \<Rightarrow> string \<Rightarrow> string \<Rightarrow> qos \<Rightarrow> km \<Rightarrow> call_result \<times> km" where
  "open_null env d src dst q km =
     (if \<not> routeUp env
      then ((status_res NO_QKD_CONNECTION T3)\<lparr>
              detail := Some ''no route of working QKD links between the two KMs''\<rparr>, km)
      else (case qos_unmet env q of
        Some why \<Rightarrow> ((status_res QOS_NOT_MET T2)\<lparr>QoS := Some (counter_qos env q),
                       detail := Some why, rateBasis := Some (cap_basis env)\<rparr>, km)
      | None \<Rightarrow> ((status_res PEER_NOT_CONNECTED T1)\<lparr>Key_stream_ID := Some (newKsid env),
                    QoS := Some (counter_qos env q)\<rparr>,
                 AList.update (newKsid env)
                   (new_stream d src dst (counter_qos env q) (newKsid env)) km)))"

definition openConnect ::
  "km_env \<Rightarrow> side \<Rightarrow> string \<Rightarrow> string \<Rightarrow> qos \<Rightarrow> string option \<Rightarrow> km \<Rightarrow> call_result \<times> km" where
  "openConnect env d src dst q ko km = (case ko of
     Some k \<Rightarrow> open_existing d src dst k km
   | None \<Rightarrow> open_null env d src dst q km)"

section \<open>Supply, GET_KEY and CLOSE\<close>

definition km_supply :: "km_env \<Rightarrow> string \<Rightarrow> bytes \<Rightarrow> int \<Rightarrow> km \<Rightarrow> int option \<times> km" where
  "km_supply env k d h km = (case map_of km k of
     None \<Rightarrow> (None, km)
   | Some s \<Rightarrow>
       if st_state s \<noteq> ESTABLISHED then (None, km)
       else let s' = s\<lparr>chunks := chunks s @ [\<lparr>data = d, availableAt = now_ms env, chunk_hops = h\<rparr>]\<rparr>
            in (Some (INDEX_ORIGIN + int (length (chunks s')) - 1), AList.update k s' km))"

definition undelivered :: "string \<Rightarrow> side \<Rightarrow> km \<Rightarrow> int" where
  "undelivered k d km = (case map_of km k of
     None \<Rightarrow> 0
   | Some s \<Rightarrow> int (length (chunks s)) - int (length (delivered_to s d)))"

function nextFor_loop :: "int list \<Rightarrow> int \<Rightarrow> int" where
  "nextFor_loop got i = (if i \<in> set got then nextFor_loop got (i + 1) else i)"
  by pat_completeness auto
termination
proof (relation "measure (\<lambda>(got, i). card (set got \<inter> {i..}))", goal_cases)
  case (2 got i)
  then have "set got \<inter> {i + 1..} = (set got \<inter> {i..}) - {i}"
    by auto
  moreover from 2 have "card (set got \<inter> {i..} - {i}) < card (set got \<inter> {i..})"
    by (intro card_Diff1_less) auto
  ultimately show ?case by simp
qed simp

declare nextFor_loop.simps [simp del]

definition nextFor :: "stream \<Rightarrow> side \<Rightarrow> int" where
  "nextFor s d = nextFor_loop (delivered_to s d) INDEX_ORIGIN"

text \<open>\<^verbatim>\<open>JSON.stringify({ age, hops })\<close>; its UTF-8 length is its length, since it is ASCII.\<close>

definition chunk_meta :: "km_env \<Rightarrow> chunk \<Rightarrow> string" where
  "chunk_meta env c = ''{\"age\":'' @ show_int (max 0 (js_round (now_ms env - availableAt c)))
     @ '',\"hops\":'' @ show_int (chunk_hops c) @ ''}''"

definition getKey :: "km_env \<Rightarrow> side \<Rightarrow> string \<Rightarrow> int option \<Rightarrow> int \<Rightarrow> km \<Rightarrow> call_result \<times> km" where
  "getKey env d k io metadataSize km = (case map_of km k of
     None \<Rightarrow> ((res T20)\<lparr>http := Some unknown_ksid_http,
                detail := Some ''unknown or closed Key_stream_ID''\<rparr>, km)
   | Some s \<Rightarrow>
       if st_state s = CLOSED
       then ((res T20)\<lparr>http := Some unknown_ksid_http,
               detail := Some ''unknown or closed Key_stream_ID''\<rparr>, km)
       else if st_state s = PENDING_PEER
       then (status_res PEER_APP_NOT_CONNECTED T10, km)
       else if \<not> routeUp env
       then ((status_res NO_QKD_CONNECTION T15)\<lparr>
               detail := Some ''the route between the two KMs has no working link''\<rparr>, km)
       else let want = (case io of Some i \<Rightarrow> i | None \<Rightarrow> nextFor s d);
                slot = want - INDEX_ORIGIN
            in if want \<in> set (delivered_to s d)
               then ((status_res INSUFFICIENT_KEY T21)\<lparr>index := Some want,
                       detail := Some ''that index was already delivered to this side and erased''\<rparr>, km)
               else (case js_index (chunks s) slot of
                 None \<Rightarrow> ((status_res INSUFFICIENT_KEY T13)\<lparr>index := Some want,
                            detail := Some ''no chunk relayed for this index yet''\<rparr>, km)
               | Some c \<Rightarrow>
                   let meta = chunk_meta env c; needed = int (length meta)
                   in if 0 < metadataSize \<and> metadataSize < needed
                      then ((status_res METADATA_TOO_SMALL T12)\<lparr>index := Some want,
                              Metadata := Some \<lparr>Metadata_size = needed, Metadata_buffer = None\<rparr>\<rparr>, km)
                      else ((status_res SUCCESSFUL T11)\<lparr>index := Some want, Key_buffer := Some (data c),
                              Metadata := (if 0 < metadataSize
                                then Some \<lparr>Metadata_size = needed, Metadata_buffer = Some meta\<rparr>
                                else None)\<rparr>,
                            AList.update k (s\<lparr>delivered_to :=
                              (delivered_to s)(d := delivered_to s d @ [want])\<rparr>) km)))"

definition km_close :: "side \<Rightarrow> string \<Rightarrow> km \<Rightarrow> call_result \<times> km" where
  "km_close d k km = (case map_of km k of
     None \<Rightarrow> ((res T20)\<lparr>http := Some unknown_ksid_http, detail := Some ''unknown Key_stream_ID''\<rparr>, km)
   | Some s \<Rightarrow>
       if st_state s = CLOSED
       then ((status_res SUCCESSFUL T20)\<lparr>detail := Some ''already closed''\<rparr>, km)
       else let s1 = s\<lparr>closed_by := (closed_by s)(d := True)\<rparr>
            in if closed_by s1 (other d)
               then (status_res SUCCESSFUL T17,
                     AList.update k (s1\<lparr>st_state := CLOSED, chunks := []\<rparr>) km)
               else (status_res SUCCESSFUL T16, AList.update k (s1\<lparr>st_state := CLOSING\<rparr>) km))"

definition km_clear :: "km \<Rightarrow> km" where
  "km_clear km = []"

section \<open>The invariant\<close>

definition stream_wf :: "stream \<Rightarrow> bool" where
  "stream_wf s \<longleftrightarrow>
     (opened_by s A \<or> opened_by s B)
   \<and> (st_state s = CLOSED \<longleftrightarrow> closed_by s A \<and> closed_by s B)
   \<and> (st_state s = CLOSED \<longrightarrow> chunks s = [])
   \<and> (st_state s = PENDING_PEER \<longrightarrow>
        \<not> (opened_by s A \<and> opened_by s B) \<and> \<not> closed_by s A \<and> \<not> closed_by s B \<and> chunks s = [])
   \<and> (st_state s = ESTABLISHED \<longrightarrow> opened_by s A \<and> opened_by s B)
   \<and> (\<forall>d. distinct (delivered_to s d))
   \<and> (\<forall>d. st_state s \<noteq> CLOSED \<longrightarrow> set (delivered_to s d) \<subseteq> {0..<int (length (chunks s))})"

definition km_wf :: "km \<Rightarrow> bool" where
  "km_wf km \<longleftrightarrow> distinct (map fst km)
     \<and> (\<forall>k s. map_of km k = Some s \<longrightarrow> st_ksid s = k \<and> stream_wf s)"

lemma km_wf_empty [inv_intros]: "km_wf []"
  by (simp add: km_wf_def)

lemma km_wf_lookup: "km_wf km \<Longrightarrow> map_of km k = Some s \<Longrightarrow> stream_wf s \<and> st_ksid s = k"
  by (simp add: km_wf_def)

lemma km_wf_update [inv_intros]:
  "km_wf km \<Longrightarrow> stream_wf s \<Longrightarrow> st_ksid s = k \<Longrightarrow> km_wf (AList.update k s km)"
  by (simp add: km_wf_def map_of_update_iff distinct_update)

lemma new_stream_wf [inv_intros]: "stream_wf (new_stream d src dst q k)"
  by (cases d) (simp_all add: stream_wf_def new_stream_def)

lemma new_stream_sel [simp]:
  "st_ksid (new_stream d src dst q k) = k" "st_state (new_stream d src dst q k) = PENDING_PEER"
  "chunks (new_stream d src dst q k) = []" "delivered_to (new_stream d src dst q k) e = []"
  by (simp_all add: new_stream_def)

lemma open_stream_wf [inv_intros]:
  assumes "stream_wf s" "st_state s \<noteq> CLOSED" "\<not> opened_by s d"
  shows "stream_wf (s\<lparr>opened_by := (opened_by s)(d := True), st_state := ESTABLISHED\<rparr>)"
  using assms by (cases d) (auto simp: stream_wf_def)

lemma supply_stream_wf [inv_intros]:
  assumes "stream_wf s" "st_state s = ESTABLISHED"
  shows "stream_wf (s\<lparr>chunks := chunks s @ [c]\<rparr>)"
  using assms by (fastforce simp: stream_wf_def)

lemma read_stream_wf [inv_intros]:
  assumes "stream_wf s" "i \<notin> set (delivered_to s d)" "0 \<le> i" "i < int (length (chunks s))"
  shows "stream_wf (s\<lparr>delivered_to := (delivered_to s)(d := delivered_to s d @ [i])\<rparr>)"
  using assms by (auto simp: stream_wf_def)

lemma closing_stream_wf [inv_intros]:
  assumes "stream_wf s" "\<not> closed_by s (other d)"
  shows "stream_wf (s\<lparr>closed_by := (closed_by s)(d := True), st_state := CLOSING\<rparr>)"
  using assms by (cases d) (auto simp: stream_wf_def)

lemma closed_stream_wf [inv_intros]:
  assumes "stream_wf s" "closed_by s (other d)"
  shows "stream_wf (s\<lparr>closed_by := (closed_by s)(d := True), st_state := CLOSED, chunks := []\<rparr>)"
  using assms by (cases d) (auto simp: stream_wf_def)

section \<open>Runs of the key manager\<close>

datatype km_op =
    OpenConnect side string string qos "string option"
  | Supply string bytes int
  | GetKey side string "int option" int
  | Close side string

datatype km_out = Result call_result | Index "int option"

fun km_exec :: "km_env \<Rightarrow> km_op \<Rightarrow> km \<Rightarrow> km_out \<times> km" where
  "km_exec env (OpenConnect d src dst q ko) km = apfst Result (openConnect env d src dst q ko km)"
| "km_exec env (Supply k dat h) km = apfst Index (km_supply env k dat h km)"
| "km_exec env (GetKey d k io m) km = apfst Result (getKey env d k io m km)"
| "km_exec env (Close d k) km = apfst Result (km_close d k km)"

text \<open>\<^verbatim>\<open>crypto.randomUUID()\<close> does not repeat an identifier: what a run assumes of the environment.\<close>

fun fresh_id :: "km_env \<Rightarrow> km_op \<Rightarrow> km \<Rightarrow> bool" where
  "fresh_id env (OpenConnect d src dst q None) km \<longleftrightarrow> map_of km (newKsid env) = None"
| "fresh_id env op km \<longleftrightarrow> True"

inductive km_run :: "(km_op \<times> km_out) list \<Rightarrow> km \<Rightarrow> bool" where
  km_run_init: "km_run [] []"
| km_run_step: "km_run tr km \<Longrightarrow> fresh_id env op km \<Longrightarrow> km_exec env op km = (out, km') \<Longrightarrow>
     km_run (tr @ [(op, out)]) km'"

inductive_cases km_run_nilE: "km_run [] km"

text \<open>
  What one operation does to the object: nothing, or one of five changes to one stream. The proofs
  below go by these five cases instead of by the branches of the definitions.
\<close>

inductive km_change :: "km_env \<Rightarrow> km_op \<Rightarrow> km_out \<Rightarrow> km \<Rightarrow> km \<Rightarrow> bool" for env where
  ch_new: "via r = T1 \<Longrightarrow> km_change env (OpenConnect d src dst q None) (Result r) km
     (AList.update (newKsid env) (new_stream d src dst q' (newKsid env)) km)"
| ch_open: "via r = T5 \<Longrightarrow> map_of km k = Some s \<Longrightarrow> st_state s \<noteq> CLOSED \<Longrightarrow> \<not> opened_by s d \<Longrightarrow>
     km_change env (OpenConnect d src dst q (Some k)) (Result r) km
     (AList.update k (s\<lparr>opened_by := (opened_by s)(d := True), st_state := ESTABLISHED\<rparr>) km)"
| ch_supply: "map_of km k = Some s \<Longrightarrow> st_state s = ESTABLISHED \<Longrightarrow> data c = dat \<Longrightarrow>
     km_change env (Supply k dat h) (Index (Some i)) km
     (AList.update k (s\<lparr>chunks := chunks s @ [c]\<rparr>) km)"
| ch_read: "via r = T11 \<Longrightarrow> map_of km k = Some s \<Longrightarrow> st_state s \<noteq> CLOSED \<Longrightarrow>
     i \<notin> set (delivered_to s d) \<Longrightarrow> js_index (chunks s) i = Some c \<Longrightarrow>
     index r = Some i \<Longrightarrow> Key_buffer r = Some (data c) \<Longrightarrow>
     km_change env (GetKey d k io m) (Result r) km
     (AList.update k (s\<lparr>delivered_to := (delivered_to s)(d := delivered_to s d @ [i])\<rparr>) km)"
| ch_closing: "via r = T16 \<Longrightarrow> map_of km k = Some s \<Longrightarrow> st_state s \<noteq> CLOSED \<Longrightarrow>
     \<not> closed_by s (other d) \<Longrightarrow> km_change env (Close d k) (Result r) km
     (AList.update k (s\<lparr>closed_by := (closed_by s)(d := True), st_state := CLOSING\<rparr>) km)"
| ch_closed: "via r = T17 \<Longrightarrow> map_of km k = Some s \<Longrightarrow> st_state s \<noteq> CLOSED \<Longrightarrow>
     closed_by s (other d) \<Longrightarrow> km_change env (Close d k) (Result r) km
     (AList.update k (s\<lparr>closed_by := (closed_by s)(d := True), st_state := CLOSED, chunks := []\<rparr>) km)"
| ch_none: "(\<And>r. out = Result r \<Longrightarrow> Key_buffer r = None) \<Longrightarrow>
     (\<And>i. out = Index i \<Longrightarrow> i = None) \<Longrightarrow> km_change env op out km km"

lemma openConnect_change:
  "openConnect env d src dst q ko km = (r, km') \<Longrightarrow>
   km_change env (OpenConnect d src dst q ko) (Result r) km km'"
  by (cases ko)
     (auto simp: openConnect_def open_null_def open_existing_def res_defs
        split: if_splits option.splits intro: km_change.intros intro!: ch_none)

lemma supply_change:
  "km_supply env k dat h km = (i, km') \<Longrightarrow> km_change env (Supply k dat h) (Index i) km km'"
  by (auto simp: km_supply_def Let_def split: if_splits option.splits
        intro: km_change.intros intro!: ch_none ch_supply)

lemma getKey_change:
  "getKey env d k io m km = (r, km') \<Longrightarrow> km_change env (GetKey d k io m) (Result r) km km'"
  by (auto simp: getKey_def Let_def res_defs INDEX_ORIGIN_def split: if_splits option.splits
        intro: ch_none intro!: ch_read)

lemma close_change:
  "km_close d k km = (r, km') \<Longrightarrow> km_change env (Close d k) (Result r) km km'"
  by (auto simp: km_close_def Let_def res_defs split: if_splits option.splits
        intro: ch_none intro!: ch_closing ch_closed)

lemma km_exec_change: "km_exec env op km = (out, km') \<Longrightarrow> km_change env op out km km'"
  by (cases op)
     (auto simp: apfst_def map_prod_def split: prod.splits
        intro: openConnect_change supply_change getKey_change close_change)

lemma km_change_wf [inv_intros]: "km_change env op out km km' \<Longrightarrow> km_wf km \<Longrightarrow> km_wf km'"
  by (induction rule: km_change.induct)
     (auto intro!: inv_intros simp: js_index_Some_iff dest: km_wf_lookup)

lemma km_run_wf: "km_run tr km \<Longrightarrow> km_wf km"
  by (induction rule: km_run.induct) (auto intro: inv_intros km_exec_change)

section \<open>The abstract stream: a log written once and read once by each side\<close>

text \<open>
  \<open>supplied k tr\<close> is the keys a trace put into stream \<open>k\<close>, in order; \<open>reads d k tr\<close> is what side \<open>d\<close>
  was given, as pairs of an index and a key. The abstract stream promises that a read at index \<open>i\<close>
  returns the \<open>i\<close>-th key supplied, and no index twice to one side.
\<close>

fun supplied1 :: "string \<Rightarrow> km_op \<times> km_out \<Rightarrow> bytes list" where
  "supplied1 k (Supply k' dat h, Index (Some i)) = (if k' = k then [dat] else [])"
| "supplied1 k e = []"

definition supplied :: "string \<Rightarrow> (km_op \<times> km_out) list \<Rightarrow> bytes list" where
  "supplied k tr = concat (map (supplied1 k) tr)"

fun read1 :: "side \<Rightarrow> string \<Rightarrow> km_op \<times> km_out \<Rightarrow> (int \<times> bytes) list" where
  "read1 d k (GetKey d' k' io m, Result r) =
     (if d' = d \<and> k' = k
      then (case (index r, Key_buffer r) of (Some i, Some b) \<Rightarrow> [(i, b)] | _ \<Rightarrow> []) else [])"
| "read1 d k e = []"

definition reads :: "side \<Rightarrow> string \<Rightarrow> (km_op \<times> km_out) list \<Rightarrow> (int \<times> bytes) list" where
  "reads d k tr = concat (map (read1 d k) tr)"

lemma supplied_append [simp]: "supplied k (tr @ [e]) = supplied k tr @ supplied1 k e"
  by (simp add: supplied_def)

lemma reads_append [simp]: "reads d k (tr @ [e]) = reads d k tr @ read1 d k e"
  by (simp add: reads_def)

lemma supplied_Nil [simp]: "supplied k [] = []" and reads_Nil [simp]: "reads d k [] = []"
  by (simp_all add: supplied_def reads_def)

definition stream_abs :: "string \<Rightarrow> (km_op \<times> km_out) list \<Rightarrow> stream \<Rightarrow> bool" where
  "stream_abs k tr s \<longleftrightarrow> (\<forall>d. map fst (reads d k tr) = delivered_to s d)
     \<and> (st_state s \<noteq> CLOSED \<longrightarrow> map data (chunks s) = supplied k tr)"

definition log_faithful :: "string \<Rightarrow> (km_op \<times> km_out) list \<Rightarrow> bool" where
  "log_faithful k tr \<longleftrightarrow> (\<forall>d. \<forall>(i, b) \<in> set (reads d k tr). js_index (supplied k tr) i = Some b)"

definition trace_abs :: "(km_op \<times> km_out) list \<Rightarrow> km \<Rightarrow> bool" where
  "trace_abs tr km \<longleftrightarrow> (\<forall>k. log_faithful k tr \<and>
     (case map_of km k of None \<Rightarrow> supplied k tr = [] \<and> (\<forall>d. reads d k tr = [])
      | Some s \<Rightarrow> stream_abs k tr s))"

lemma trace_abs_lookup: "trace_abs tr km \<Longrightarrow> map_of km k = Some s \<Longrightarrow> stream_abs k tr s"
  by (auto simp: trace_abs_def dest: spec [where x = k])

lemma trace_abs_log: "trace_abs tr km \<Longrightarrow> log_faithful k tr"
  by (simp add: trace_abs_def)

lemma trace_abs_absent:
  "trace_abs tr km \<Longrightarrow> map_of km k = None \<Longrightarrow> supplied k tr = [] \<and> reads d k tr = []"
  by (auto simp: trace_abs_def dest: spec [where x = k])

lemmas trace_absD = trace_abs_lookup trace_abs_log

lemma log_faithful_frame:
  "log_faithful k tr \<Longrightarrow> (\<And>d. read1 d k e = []) \<Longrightarrow> log_faithful k (tr @ [e])"
  by (fastforce simp: log_faithful_def intro: js_index_append_old)

text \<open>A change of stream \<open>k\<close> keeps the abstraction of the others, and needs a proof for \<open>k\<close> only.\<close>

lemma trace_abs_update:
  assumes "trace_abs tr km"
    and frame: "\<And>j. j \<noteq> k \<Longrightarrow> supplied1 j e = [] \<and> (\<forall>d. read1 d j e = [])"
    and here: "stream_abs k (tr @ [e]) s" "log_faithful k (tr @ [e])"
  shows "trace_abs (tr @ [e]) (AList.update k s km)"
  unfolding trace_abs_def
proof (intro allI)
  fix j
  show "log_faithful j (tr @ [e]) \<and> (case map_of (AList.update k s km) j of
      None \<Rightarrow> supplied j (tr @ [e]) = [] \<and> (\<forall>d. reads d j (tr @ [e]) = [])
    | Some s \<Rightarrow> stream_abs j (tr @ [e]) s)"
  proof (cases "j = k")
    case True
    with here show ?thesis by simp
  next
    case False
    with assms(1) frame [OF False] show ?thesis
      by (auto simp: trace_abs_def stream_abs_def split: option.splits
          intro: log_faithful_frame dest!: spec [where x = j])
  qed
qed

lemma trace_abs_skip:
  assumes "trace_abs tr km" "\<And>k. supplied1 k e = [] \<and> (\<forall>d. read1 d k e = [])"
  shows "trace_abs (tr @ [e]) km"
proof -
  from assms(2) have same: "supplied k (tr @ [e]) = supplied k tr" "reads d k (tr @ [e]) = reads d k tr"
    for k d by simp_all
  show ?thesis
    using assms(1) unfolding trace_abs_def stream_abs_def log_faithful_def same .
qed

lemma km_change_abs:
  assumes "km_change env op out km km'" "trace_abs tr km" "fresh_id env op km"
  shows "trace_abs (tr @ [(op, out)]) km'"
  using assms
proof (induction rule: km_change.induct)
  case (ch_new r d src dst q km q')
  then have "supplied (newKsid env) tr = [] \<and> (\<forall>d. reads d (newKsid env) tr = [])"
    by (auto dest: trace_abs_absent)
  with ch_new show ?case
    by (intro trace_abs_update) (simp_all add: stream_abs_def log_faithful_def)
next
  case (ch_open r km k s d src dst q)
  then have "stream_abs k tr s" "log_faithful k tr"
    by (blast dest: trace_absD)+
  with ch_open show ?case
    by (intro trace_abs_update) (simp_all add: stream_abs_def log_faithful_frame)
next
  case (ch_supply km k s c dat h i)
  then have "stream_abs k tr s" "log_faithful k tr"
    by (blast dest: trace_absD)+
  with ch_supply show ?case
    by (intro trace_abs_update) (simp_all add: stream_abs_def log_faithful_frame)
next
  case (ch_read r km k s i d c io m)
  then have abs: "stream_abs k tr s" "log_faithful k tr"
    by (blast dest: trace_absD)+
  with ch_read(3) have "map data (chunks s) = supplied k tr"
    by (simp add: stream_abs_def)
  with js_index_map [OF ch_read(5), of data] have at_i: "js_index (supplied k tr) i = Some (data c)"
    by simp
  show ?case
  proof (intro trace_abs_update)
    show "trace_abs tr km" by fact
    have read: "read1 e k (GetKey d k io m, Result r) = (if d = e then [(i, data c)] else [])" for e
      using ch_read(6,7) by simp
    show "log_faithful k (tr @ [(GetKey d k io m, Result r)])"
      using abs(2) at_i unfolding log_faithful_def reads_append supplied_append read by auto
  qed (use abs(1) ch_read in \<open>simp_all add: stream_abs_def\<close>)
next
  case (ch_closing r km k s d)
  then have "stream_abs k tr s" "log_faithful k tr"
    by (blast dest: trace_absD)+
  with ch_closing show ?case
    by (intro trace_abs_update) (simp_all add: stream_abs_def log_faithful_frame)
next
  case (ch_closed r km k s d)
  then have "stream_abs k tr s" "log_faithful k tr"
    by (blast dest: trace_absD)+
  with ch_closed show ?case
    by (intro trace_abs_update) (simp_all add: stream_abs_def log_faithful_frame)
next
  case (ch_none out op km)
  have "supplied1 k (op, out) = [] \<and> (\<forall>d. read1 d k (op, out) = [])" for k
    using ch_none(1,2)
    by (cases op; cases out) (auto split: option.splits)
  with ch_none(3) show ?case by (intro trace_abs_skip)
qed

lemma km_run_abs: "km_run tr km \<Longrightarrow> trace_abs tr km"
proof (induction rule: km_run.induct)
  case km_run_init
  show ?case by (simp add: trace_abs_def log_faithful_def)
next
  case (km_run_step tr km env op out km')
  then show ?case by (blast intro: km_change_abs km_exec_change)
qed

section \<open>Simulating a list of calls\<close>

text \<open>The run of a list of calls, each with its environment: what the witnesses evaluate.\<close>

fun km_sim :: "(km_env \<times> km_op) list \<Rightarrow> (km_op \<times> km_out) list \<times> km \<Rightarrow> (km_op \<times> km_out) list \<times> km" where
  "km_sim [] st = st"
| "km_sim ((env, op) # es) (tr, km) =
     (case km_exec env op km of (out, km') \<Rightarrow> km_sim es (tr @ [(op, out)], km'))"

fun km_sim_fresh :: "(km_env \<times> km_op) list \<Rightarrow> km \<Rightarrow> bool" where
  "km_sim_fresh [] km \<longleftrightarrow> True"
| "km_sim_fresh ((env, op) # es) km \<longleftrightarrow>
     fresh_id env op km \<and> km_sim_fresh es (snd (km_exec env op km))"

lemma km_sim_run:
  "km_run tr km \<Longrightarrow> km_sim_fresh es km \<Longrightarrow> km_sim es (tr, km) = (tr', km') \<Longrightarrow> km_run tr' km'"
  by (induction es "(tr, km)" arbitrary: tr km rule: km_sim.induct)
     (auto split: prod.splits intro: km_run_step)

lemmas km_sim_run0 = km_sim_run [OF km_run_init]

lemma km_sim_wf: "km_sim_fresh es [] \<Longrightarrow> km_wf (snd (km_sim es ([], [])))"
  using km_sim_run0 [of es "fst (km_sim es ([], []))" "snd (km_sim es ([], []))"]
  by (simp add: km_run_wf)

text \<open>One association between two applications, one key relayed into it, and a read on each side.\<close>

definition demo_env :: km_env where
  "demo_env = \<lparr>keyChunkBytes = 32, routeUp = True, cap_bps = Some 1000, cap_basis = ''test'',
     now_ms = 40, newKsid = ''id-1''\<rparr>"

definition demo_ops :: "(km_env \<times> km_op) list" where
  "demo_ops = map (Pair demo_env)
     [OpenConnect A ''s'' ''d'' EMPTY_QOS None, OpenConnect B ''d'' ''s'' EMPTY_QOS (Some ''id-1''),
      Supply ''id-1'' [7, 9] 2, GetKey A ''id-1'' None 0, GetKey B ''id-1'' (Some 0) 0]"

lemma demo_ops_run: "km_run (fst (km_sim demo_ops ([], []))) (snd (km_sim demo_ops ([], [])))"
  by (rule km_sim_run0 [of demo_ops]) (code_simp, simp)

section \<open>Properties\<close>

text \<open>
  C1. In every run of the key manager the keys each application is given are exactly the keys the
  relay supplied, at the index they were supplied under, and no application is given an index
  twice. The two ends of a stream therefore hold identical keys: the object implements the abstract
  stream, a log written by \<^verbatim>\<open>supply\<close> and read at most once per entry by each side.
\<close>
theorem key_log_refinement:
  assumes "km_run tr km"
  shows "distinct (map fst (reads d k tr)) \<and>
    (\<forall>(i, b) \<in> set (reads d k tr). js_index (supplied k tr) i = Some b)"
proof
  note abs = km_run_abs [OF assms]
  show "distinct (map fst (reads d k tr))"
  proof (cases "map_of km k")
    case None
    with trace_abs_absent [OF abs None, of d] show ?thesis by simp
  next
    case (Some s)
    with abs have "map fst (reads d k tr) = delivered_to s d"
      by (auto dest: trace_abs_lookup simp: stream_abs_def)
    with km_wf_lookup [OF km_run_wf [OF assms] Some] show ?thesis
      by (simp add: stream_wf_def)
  qed
  show "\<forall>(i, b) \<in> set (reads d k tr). js_index (supplied k tr) i = Some b"
    using trace_abs_log [OF abs] by (simp add: log_faithful_def)
qed

theorem key_log_refinement_witness:
  "let tr = fst (km_sim demo_ops ([], [])) in
     reads A ''id-1'' tr = [(0, [7, 9])] \<and> reads B ''id-1'' tr = [(0, [7, 9])] \<and>
     distinct (map fst (reads B ''id-1'' tr))"
proof -
  have "reads A ''id-1'' (fst (km_sim demo_ops ([], []))) = [(0, [7, 9])]"
    "reads B ''id-1'' (fst (km_sim demo_ops ([], []))) = [(0, [7, 9])]"
    by code_simp+
  with key_log_refinement [OF demo_ops_run, of B "''id-1''"] show ?thesis by (simp add: Let_def)
qed

text \<open>
  C2. The invariant of the object in every reachable state: Key_stream_IDs are unique; a stream is
  CLOSED exactly when both sides closed it, and then holds no key; while it waits for the peer it
  has one open side and no key; once ESTABLISHED both sides opened it; and the indices delivered to
  a side are distinct and lie within the chunks relayed.
\<close>
theorem km_invariant: "km_run tr km \<Longrightarrow> km_wf km"
  by (rule km_run_wf)

theorem km_invariant_witness:
  "length (snd (km_sim demo_ops ([], []))) = 1 \<and> km_wf (snd (km_sim demo_ops ([], [])))"
proof -
  have "length (snd (km_sim demo_ops ([], []))) = 1" by code_simp
  with km_invariant [OF demo_ops_run] show ?thesis by simp
qed

text \<open>
  C3. A closed stream is final: no later call changes it, delivers a key from it or adds one to it,
  and opening its Key_stream_ID again is refused with KSID_IN_USE.
\<close>
theorem closed_is_final:
  assumes "map_of km k = Some s" "st_state s = CLOSED" "fresh_id env op km"
    and "km_exec env op km = (out, km')"
  shows "map_of km' k = Some s \<and> read1 d k (op, out) = [] \<and> supplied1 k (op, out) = [] \<and>
    res_status (fst (openConnect env d src dst q (Some k) km')) = Some (statusCode KSID_IN_USE)"
proof -
  have "map_of km' k = Some s \<and> read1 d k (op, out) = [] \<and> supplied1 k (op, out) = []"
    using km_exec_change [OF assms(4)] assms(1-3)
  proof (induction rule: km_change.induct)
    case (ch_none out op km)
    then show ?case by (cases op; cases out) (auto split: option.splits)
  qed (auto simp: map_of_update_iff)
  with assms(2) show ?thesis
    by (simp add: openConnect_def open_existing_def res_defs)
qed

definition closing_ops :: "(km_env \<times> km_op) list" where
  "closing_ops = demo_ops @ map (Pair demo_env) [Close A ''id-1'', Close B ''id-1'']"

theorem closed_is_final_witness:
  "\<exists>s. map_of (snd (km_sim closing_ops ([], []))) ''id-1'' = Some s \<and> st_state s = CLOSED \<and>
     map_of (snd (km_exec demo_env (Close A ''id-1'') (snd (km_sim closing_ops ([], []))))) ''id-1'' = Some s"
proof -
  let ?km = "snd (km_sim closing_ops ([], []))" and ?op = "Close A ''id-1''"
  have st: "map_option st_state (map_of ?km ''id-1'') = Some CLOSED" by code_simp
  then obtain s where s: "map_of ?km ''id-1'' = Some s" "st_state s = CLOSED" by auto
  obtain out km' where e: "km_exec demo_env ?op ?km = (out, km')" by fastforce
  from closed_is_final [OF s _ e] have "map_of km' ''id-1'' = Some s" by simp
  with s e show ?thesis by auto
qed

lemma counter_chunk_size_ok: "0 < k \<Longrightarrow> \<not> chunk_size_unmet k (Some (counter_chunk_size k a))"
  by (auto simp: chunk_size_unmet_def counter_chunk_size_def max_def split: option.splits)

lemma floor_not_above [simp]: "\<not> (x :: rat) < of_int \<lfloor>x\<rfloor>"
  by (simp add: not_less)

lemma counter_qos_met: "0 < keyChunkBytes env \<Longrightarrow> qos_unmet env (counter_qos env q) = None"
  using counter_chunk_size_ok [of "keyChunkBytes env" "Key_chunk_size q"]
  by (auto simp: qos_unmet_def counter_qos_def Let_def min_bps_unmet_def mimetype_unmet_def
      preferred_mimetype_def split: option.splits)

text \<open>
  The QoS a key manager counter-proposes is one it accepts: after OPEN_CONNECT answers
  QOS_NOT_MET, asking again with the returned QoS creates the association.
\<close>

theorem counter_proposal_accepted:
  assumes "0 < keyChunkBytes env" "routeUp env" "QoS (fst (openConnect env d src dst q None km)) = Some q'"
  shows "via (fst (openConnect env d src dst q' None km)) = T1"
proof -
  from assms(2,3) have "q' = counter_qos env q"
    by (auto simp: openConnect_def open_null_def res_defs split: option.splits)
  with counter_qos_met [OF assms(1), of q] assms(2) show ?thesis
    by (simp add: openConnect_def open_null_def res_defs)
qed

theorem counter_proposal_accepted_witness:
  "let q = EMPTY_QOS\<lparr>Key_chunk_size := Some 33, Min_bps := Some 2000\<rparr>;
       r = fst (openConnect demo_env A ''s'' ''d'' q None []);
       q' = q\<lparr>Key_chunk_size := Some 32, Min_bps := Some 1000\<rparr>
   in via r = T2 \<and> QoS r = Some q' \<and> via (fst (openConnect demo_env A ''s'' ''d'' q' None [])) = T1"
proof -
  let ?q = "EMPTY_QOS\<lparr>Key_chunk_size := Some 33, Min_bps := Some 2000\<rparr>"
  let ?q' = "?q\<lparr>Key_chunk_size := Some 32, Min_bps := Some 1000\<rparr>"
  have "via (fst (openConnect demo_env A ''s'' ''d'' ?q None [])) = T2" by code_simp
  moreover have q': "QoS (fst (openConnect demo_env A ''s'' ''d'' ?q None [])) = Some ?q'" by code_simp
  moreover have "via (fst (openConnect demo_env A ''s'' ''d'' ?q' None [])) = T1"
    by (rule counter_proposal_accepted [OF _ _ q']) (simp_all add: demo_env_def)
  ultimately show ?thesis by (simp only: Let_def)
qed

text \<open>The index the key manager chooses is the least one the side has not been given.\<close>

lemma nextFor_loop_least:
  "i \<le> nextFor_loop got i \<and> nextFor_loop got i \<notin> set got \<and>
   (\<forall>j. i \<le> j \<and> j < nextFor_loop got i \<longrightarrow> j \<in> set got)"
proof (induction got i rule: nextFor_loop.induct)
  case (1 got i)
  show ?case
  proof (cases "i \<in> set got")
    case True
    with "1.IH" have "nextFor_loop got i = nextFor_loop got (i + 1)"
      by (simp add: nextFor_loop.simps [of got i])
    with "1.IH" True show ?thesis by (metis add1_zle_eq dual_order.strict_trans2 le_less zle_add1_eq_le)
  next
    case False
    then show ?thesis by (auto simp: nextFor_loop.simps [of got i])
  qed
qed

lemma nextFor_in_range:
  assumes "stream_wf s" "st_state s \<noteq> CLOSED"
  shows "nextFor s d < int (length (chunks s)) \<longleftrightarrow> length (delivered_to s d) < length (chunks s)"
proof -
  let ?got = "delivered_to s d" and ?n = "int (length (chunks s))"
  have sub: "set ?got \<subseteq> {0..<?n}" and dist: "distinct ?got"
    using assms by (simp_all add: stream_wf_def)
  have least: "0 \<le> nextFor s d" "nextFor s d \<notin> set ?got" "{0..<nextFor s d} \<subseteq> set ?got"
    using nextFor_loop_least [of 0 ?got] by (auto simp: nextFor_def INDEX_ORIGIN_def)
  have card: "card (set ?got) = length ?got" using dist by (rule distinct_card)
  show ?thesis
  proof
    assume "nextFor s d < ?n"
    with sub least have "set ?got \<subset> {0..<?n}" by (auto simp: psubset_eq)
    then have "card (set ?got) < card {0..<?n}" by (intro psubset_card_mono) simp_all
    with card show "length ?got < length (chunks s)" by simp
  next
    assume less: "length ?got < length (chunks s)"
    have "card {0..<nextFor s d} \<le> card (set ?got)" using least(3) by (intro card_mono) simp_all
    with less card show "nextFor s d < ?n" by simp
  qed
qed

lemma nextFor_least_nat:
  obtains i where "nextFor s d = int i" "int i \<notin> set (delivered_to s d)" "\<forall>j < i. int j \<in> set (delivered_to s d)"
proof -
  note l = nextFor_loop_least [of 0 "delivered_to s d", folded INDEX_ORIGIN_def]
  have "nextFor s d = int (nat (nextFor s d))" using l by (simp add: nextFor_def INDEX_ORIGIN_def)
  then show ?thesis using l that [of "nat (nextFor s d)"] by (auto simp: nextFor_def INDEX_ORIGIN_def)
qed



lemma chunk_meta_nonempty [simp]: "chunk_meta env c \<noteq> []"
  by (simp add: chunk_meta_def)

lemma getKey_T12:
  assumes "getKey env d k io m km = (r, km')" "via r = T12"
  shows "\<exists>s c i. map_of km k = Some s \<and> st_state s \<noteq> CLOSED \<and> st_state s \<noteq> PENDING_PEER \<and> routeUp env \<and>
    i \<notin> set (delivered_to s d) \<and> js_index (chunks s) i = Some c \<and> index r = Some i \<and>
    m < int (length (chunk_meta env c)) \<and>
    Metadata r = Some \<lparr>Metadata_size = int (length (chunk_meta env c)), Metadata_buffer = None\<rparr> \<and> km' = km"
  using assms
  by (auto simp: getKey_def Let_def res_defs INDEX_ORIGIN_def split: if_splits option.splits)

text \<open>
  A metadata buffer that is too small costs nothing: the call changes no state, names the index
  it holds back and the size it needs, and the retry at that index with that size succeeds and
  returns metadata of exactly that size.
\<close>
theorem metadata_retry:
  assumes "getKey env d k io m km = (r, km')" "via r = T12" "Metadata r = Some md"
  shows "km' = km \<and> m < Metadata_size md \<and>
    (let r' = fst (getKey env d k (index r) (Metadata_size md) km')
     in via r' = T11 \<and> index r' = index r \<and> map_option Metadata_size (Metadata r') = Some (Metadata_size md))"
proof -
  from getKey_T12 [OF assms(1,2)] obtain s c i where
    facts: "map_of km k = Some s" "st_state s \<noteq> CLOSED" "st_state s \<noteq> PENDING_PEER" "routeUp env"
      "i \<notin> set (delivered_to s d)" "js_index (chunks s) i = Some c" "index r = Some i"
      "m < int (length (chunk_meta env c))"
      "Metadata r = Some \<lparr>Metadata_size = int (length (chunk_meta env c)), Metadata_buffer = None\<rparr>"
      "km' = km" by blast
  with assms(3) show ?thesis
    by (auto simp: getKey_def Let_def res_defs INDEX_ORIGIN_def)
qed

theorem metadata_retry_witness:
  "let km = snd (km_sim (take 3 demo_ops) ([], [])); r = fst (getKey demo_env A ''id-1'' None 4 km)
   in via r = T12 \<and> map_option Metadata_size (Metadata r) = Some 18 \<and>
      via (fst (getKey demo_env A ''id-1'' (Some 0) 18 km)) = T11"
proof -
  let ?km = "snd (km_sim (take 3 demo_ops) ([], []))"
  obtain r km' where e: "getKey demo_env A ''id-1'' None 4 ?km = (r, km')" by fastforce
  have "via (fst (getKey demo_env A ''id-1'' None 4 ?km)) = T12 \<and>
      index (fst (getKey demo_env A ''id-1'' None 4 ?km)) = Some 0 \<and>
      map_option Metadata_size (Metadata (fst (getKey demo_env A ''id-1'' None 4 ?km))) = Some 18"
    by code_simp
  with e have r: "via r = T12" "index r = Some 0" "map_option Metadata_size (Metadata r) = Some 18"
    by simp_all
  then obtain md where md: "Metadata r = Some md" "Metadata_size md = 18" by auto
  from metadata_retry [OF e r(1) md(1)] r(2) md(2)
  have "via (fst (getKey demo_env A ''id-1'' (Some 0) 18 ?km)) = T11" by (auto simp: Let_def)
  with e r show ?thesis by (simp add: Let_def)
qed

section \<open>The state machine of one stream\<close>

definition state_of :: "km \<Rightarrow> string \<Rightarrow> stream_state option" where
  "state_of km k = map_option st_state (map_of km k)"

text \<open>
  The steps a stream can take, with the transition of the shared specification file
  (\<^verbatim>\<open>etsi004SpecV211.json\<close>) each reports. Two of them the file does not have: \<open>reopened\<close>, where the
  second side opens after the first has already closed, and \<open>closed_unopened\<close>, where the first side
  closes while no peer has opened.
\<close>

inductive stream_step :: "transition \<Rightarrow> stream_state option \<Rightarrow> stream_state option \<Rightarrow> bool" where
  created: "stream_step T1 None (Some PENDING_PEER)"
| opened: "stream_step T5 (Some PENDING_PEER) (Some ESTABLISHED)"
| reopened: "stream_step T5 (Some CLOSING) (Some ESTABLISHED)"
| closed_one: "stream_step T16 (Some ESTABLISHED) (Some CLOSING)"
| closed_unopened: "stream_step T16 (Some PENDING_PEER) (Some CLOSING)"
| closed_both: "stream_step T17 (Some CLOSING) (Some CLOSED)"
| closed_reopened: "stream_step T17 (Some ESTABLISHED) (Some CLOSED)"

inductive_simps stream_step_from_closed [simp]: "stream_step t (Some CLOSED) st"

lemma state_of_update: "state_of (AList.update k s km) j = (if j = k then Some (st_state s) else state_of km j)"
  by (simp add: state_of_def map_of_update_iff)

lemma state_of_simps:
  "map_of km k = Some s \<Longrightarrow> state_of km k = Some (st_state s)"
  "map_of km k = None \<Longrightarrow> state_of km k = None"
  by (simp_all add: state_of_def)

lemma km_change_step:
  assumes "km_change env op out km km'" "km_wf km" "fresh_id env op km" "state_of km' k \<noteq> state_of km k"
  shows "\<exists>r. out = Result r \<and> stream_step (via r) (state_of km k) (state_of km' k)"
  using assms
proof (induction rule: km_change.induct)
  case (ch_new r d src dst q km q')
  then show ?case by (auto simp: state_of_update state_of_simps split: if_splits intro: stream_step.intros)
next
  case (ch_open r km k' s d src dst q)
  then show ?case
    by (cases "st_state s") (auto simp: state_of_update state_of_simps split: if_splits intro: stream_step.intros)
next
  case (ch_closing r km k' s d)
  then show ?case
    by (cases "st_state s") (auto simp: state_of_update state_of_simps split: if_splits intro: stream_step.intros)
next
  case (ch_closed r km k' s d)
  then have "stream_wf s" by (auto dest: km_wf_lookup)
  with ch_closed show ?case
    by (cases "st_state s"; cases d)
       (auto simp: state_of_update state_of_simps stream_wf_def split: if_splits intro: stream_step.intros)
qed (auto simp: state_of_update state_of_simps split: if_splits)

text \<open>
  A call changes the state of a stream only by a step of the stream's state machine, and the
  transition it reports to the caller is the one of that step.
\<close>
theorem calls_follow_state_machine:
  assumes "km_run tr km" "fresh_id env op km" "km_exec env op km = (out, km')"
    and "state_of km' k \<noteq> state_of km k"
  shows "\<exists>r. out = Result r \<and> stream_step (via r) (state_of km k) (state_of km' k)"
  using km_change_step [OF km_exec_change [OF assms(3)] km_run_wf [OF assms(1)] assms(2,4)] .

theorem calls_follow_state_machine_witness:
  "let km = snd (km_sim demo_ops ([], [])); r = fst (km_close A ''id-1'' km);
       km' = snd (km_close A ''id-1'' km)
   in state_of km' ''id-1'' = Some CLOSING \<and>
      stream_step (via r) (state_of km ''id-1'') (state_of km' ''id-1'')"
proof -
  let ?km = "snd (km_sim demo_ops ([], []))" and ?op = "Close A ''id-1''"
  obtain r km' where c: "km_close A ''id-1'' ?km = (r, km')" by fastforce
  have st: "state_of ?km ''id-1'' = Some ESTABLISHED"
    "state_of (snd (km_close A ''id-1'' ?km)) ''id-1'' = Some CLOSING" by code_simp+
  have e: "km_exec demo_env ?op ?km = (Result r, km')" using c by simp
  have "\<exists>r'. Result r = Result r' \<and> stream_step (via r') (state_of ?km ''id-1'') (state_of km' ''id-1'')"
    by (rule calls_follow_state_machine [OF demo_ops_run _ e]) (use st c in simp_all)
  with st c show ?thesis by (simp add: Let_def)
qed

text \<open>
  The reopened step is reachable: A opens, A closes, and B's OPEN_CONNECT still succeeds and makes
  the stream ESTABLISHED although A has closed it. The specification file takes T5 from
  PENDING_PEER only.
\<close>

lemma reopen_after_close:
  "let km = snd (km_sim (map (Pair demo_env)
         [OpenConnect A ''s'' ''d'' EMPTY_QOS None, Close A ''id-1'']) ([], []));
       km' = snd (openConnect demo_env B ''d'' ''s'' EMPTY_QOS (Some ''id-1'') km)
   in state_of km ''id-1'' = Some CLOSING \<and> state_of km' ''id-1'' = Some ESTABLISHED \<and>
      map_option (\<lambda>s. closed_by s A) (map_of km' ''id-1'') = Some True"
  by code_simp

end
