(* ===== verification/Ordering.thy ===== *)
theory Ordering
  imports Prelude "HOL-Library.Multiset"
begin

text \<open>
  \<^verbatim>\<open>Array.prototype.sort\<close> with a comparator, and \<^verbatim>\<open>String.prototype.localeCompare\<close>.

  A comparator returns a number whose sign orders its two arguments. ECMAScript specifies the result
  of \<^verbatim>\<open>sort\<close> only for a consistent comparator, and then as the stable sorted permutation: this is the
  locale \<open>consistent_cmp\<close>. Each comparator the sources use is shown to be one, and what the routing
  component proves of its rankings are the locale's lemmas at those comparators.
\<close>

type_synonym 'a cmp = "'a \<Rightarrow> 'a \<Rightarrow> rat"

fun cmp_insert :: "'a cmp \<Rightarrow> 'a \<Rightarrow> 'a list \<Rightarrow> 'a list" where
  "cmp_insert c x [] = [x]"
| "cmp_insert c x (y # ys) = (if c x y \<le> 0 then x # y # ys else y # cmp_insert c x ys)"

definition js_sort :: "'a cmp \<Rightarrow> 'a list \<Rightarrow> 'a list" where
  "js_sort c xs = foldr (cmp_insert c) xs []"

lemma js_sort_simps [simp]:
  "js_sort c [] = []" "js_sort c (x # xs) = cmp_insert c x (js_sort c xs)"
  by (simp_all add: js_sort_def)

lemma mset_cmp_insert [simp]: "mset (cmp_insert c x xs) = add_mset x (mset xs)"
  by (induction xs) auto

lemma mset_js_sort [simp]: "mset (js_sort c xs) = mset xs"
  by (induction xs) simp_all

lemma set_cmp_insert [simp]: "set (cmp_insert c x xs) = insert x (set xs)"
  by (induction xs) auto

lemma set_js_sort [simp]: "set (js_sort c xs) = set xs"
  by (induction xs) simp_all

lemma length_cmp_insert [simp]: "length (cmp_insert c x xs) = Suc (length xs)"
  by (induction xs) simp_all

lemma length_js_sort [simp]: "length (js_sort c xs) = length xs"
  by (induction xs) simp_all

lemma js_sort_Nil_iff [simp]: "js_sort c xs = [] \<longleftrightarrow> xs = []"
  by (metis length_0_conv length_js_sort)

section \<open>Consistent comparators\<close>

locale consistent_cmp =
  fixes cmp :: "'a cmp"
  assumes swap: "cmp x y \<le> 0 \<longleftrightarrow> 0 \<le> cmp y x"
    and trans: "cmp x y \<le> 0 \<Longrightarrow> cmp y z \<le> 0 \<Longrightarrow> cmp x z \<le> 0"
begin

lemma refl [simp]: "cmp x x = 0"
  using swap [of x x] by linarith

lemma total: "cmp x y \<le> 0 \<or> cmp y x \<le> 0"
  using swap [of x y] by linarith

lemma less_swap: "cmp x y < 0 \<longleftrightarrow> 0 < cmp y x"
  using swap [of y x] by linarith

lemma eq_swap: "cmp x y = 0 \<longleftrightarrow> cmp y x = 0"
  using swap [of x y] swap [of y x] by linarith

lemma less_trans: "cmp x y < 0 \<Longrightarrow> cmp y z \<le> 0 \<Longrightarrow> cmp x z < 0"
proof (rule ccontr)
  assume less: "cmp x y < 0" "cmp y z \<le> 0" "\<not> cmp x z < 0"
  then have "cmp z x \<le> 0" using swap [of z x] by linarith
  with less(2) have "cmp y x \<le> 0" by (rule trans)
  with less(1) less_swap [of x y] show False by linarith
qed

lemma less_trans2: "cmp x y \<le> 0 \<Longrightarrow> cmp y z < 0 \<Longrightarrow> cmp x z < 0"
proof (rule ccontr)
  assume less: "cmp x y \<le> 0" "cmp y z < 0" "\<not> cmp x z < 0"
  then have "cmp z x \<le> 0" using swap [of z x] by linarith
  then have "cmp z y \<le> 0" using less(1) by (rule trans)
  with less(2) less_swap [of y z] show False by linarith
qed

lemma eq_cong: "cmp x y = 0 \<Longrightarrow> cmp x z = 0 \<longleftrightarrow> cmp y z = 0"
  using eq_swap trans swap by (smt (verit) dual_order.antisym order_refl)

lemma cmp_insert_sorted:
  "sorted_wrt (\<lambda>x y. cmp x y \<le> 0) xs \<Longrightarrow> sorted_wrt (\<lambda>x y. cmp x y \<le> 0) (cmp_insert cmp x xs)"
proof (induction xs)
  case Nil
  then show ?case by simp
next
  case (Cons y ys)
  then show ?case using total [of x y] by (auto intro: trans)
qed

lemma js_sort_sorted: "sorted_wrt (\<lambda>x y. cmp x y \<le> 0) (js_sort cmp xs)"
  by (induction xs) (simp_all add: cmp_insert_sorted)

lemma cmp_insert_filter:
  "filter (\<lambda>y. cmp z y = 0) (cmp_insert cmp x xs) =
   (if cmp z x = 0 then x # filter (\<lambda>y. cmp z y = 0) xs else filter (\<lambda>y. cmp z y = 0) xs)"
proof (induction xs)
  case Nil
  then show ?case by simp
next
  case (Cons y ys)
  have "cmp z x = 0 \<Longrightarrow> cmp z y = 0 \<Longrightarrow> cmp x y \<le> 0"
    using eq_swap [of z x] trans [of x z y] by simp
  with Cons show ?case by auto
qed

text \<open>Stability: elements the comparator does not separate keep their order.\<close>

lemma js_sort_stable: "filter (\<lambda>y. cmp z y = 0) (js_sort cmp xs) = filter (\<lambda>y. cmp z y = 0) xs"
  by (induction xs) (simp_all add: cmp_insert_filter)

lemma js_sort_hd: "y \<in> set xs \<Longrightarrow> cmp (hd (js_sort cmp xs)) y \<le> 0"
proof -
  assume "y \<in> set xs"
  then have "y \<in> set (js_sort cmp xs)" by simp
  with js_sort_sorted [of xs] show ?thesis by (cases "js_sort cmp xs") auto
qed

end

section \<open>Combining comparators\<close>

text \<open>\<^verbatim>\<open>c1(x, y) || c2(x, y)\<close>, and comparing by a key.\<close>

definition cmp_or :: "'a cmp \<Rightarrow> 'a cmp \<Rightarrow> 'a cmp" where
  "cmp_or c1 c2 x y = (if c1 x y \<noteq> 0 then c1 x y else c2 x y)"

definition cmp_on :: "('b \<Rightarrow> 'a) \<Rightarrow> 'a cmp \<Rightarrow> 'b cmp" where
  "cmp_on f c x y = c (f x) (f y)"

lemma consistent_cmp_on [intro]: "consistent_cmp c \<Longrightarrow> consistent_cmp (cmp_on f c)"
  unfolding consistent_cmp_def cmp_on_def by blast

lemma cmp_or_le_iff: "cmp_or c1 c2 x y \<le> 0 \<longleftrightarrow> c1 x y < 0 \<or> c1 x y = 0 \<and> c2 x y \<le> 0"
  by (auto simp: cmp_or_def)

lemma consistent_cmp_or [intro]:
  assumes "consistent_cmp c1" "consistent_cmp c2"
  shows "consistent_cmp (cmp_or c1 c2)"
proof
  fix x y z
  note c1 = consistent_cmp.less_swap [OF assms(1)] consistent_cmp.eq_swap [OF assms(1)]
  show "cmp_or c1 c2 x y \<le> 0 \<longleftrightarrow> 0 \<le> cmp_or c1 c2 y x"
    using c1(1) [of x y] c1(2) [of x y] consistent_cmp.swap [OF assms(2), of x y]
    by (auto simp: cmp_or_def)
  assume "cmp_or c1 c2 x y \<le> 0" "cmp_or c1 c2 y z \<le> 0"
  then show "cmp_or c1 c2 x z \<le> 0"
    unfolding cmp_or_le_iff
    using consistent_cmp.less_trans [OF assms(1), of x y z]
      consistent_cmp.less_trans2 [OF assms(1), of x y z]
      consistent_cmp.eq_cong [OF assms(1), of x y z]
      consistent_cmp.trans [OF assms(2), of x y z]
    by fastforce
qed

text \<open>\<^verbatim>\<open>a - b\<close> on numbers.\<close>

definition num_cmp :: "rat cmp" where
  "num_cmp x y = x - y"

interpretation num: consistent_cmp num_cmp
  by unfold_locales (auto simp: num_cmp_def)

section \<open>localeCompare\<close>

text \<open>
  The identifiers the sources compare are printable ASCII. On those the root collation that
  \<^verbatim>\<open>localeCompare\<close> uses compares the characters' primary weights first, letters without their case, in
  the order of \<open>collation_order\<close>, and case only where the primary weights agree, lower case first.
\<close>

definition collation_order :: string where
  "collation_order = '' _-,;:!?.'' @ [CHR 0x27, CHR 0x22] @ ''()[]{}@*/'' @ [CHR 0x5C]
     @ ''&#%`^+<=>|~$0123456789abcdefghijklmnopqrstuvwxyz''"

definition upper_letters :: string where
  "upper_letters = ''ABCDEFGHIJKLMNOPQRSTUVWXYZ''"

definition lower_case :: "char \<Rightarrow> char" where
  "lower_case c = (if c \<in> set upper_letters then char_of (of_char c + 32 :: nat) else c)"

definition primary_weight :: "char \<Rightarrow> nat" where
  "primary_weight c = length (takeWhile (\<lambda>d. d \<noteq> lower_case c) collation_order)"

definition tertiary_weight :: "char \<Rightarrow> nat" where
  "tertiary_weight c = (if c \<in> set upper_letters then 1 else 0)"

fun weights_cmp :: "nat list cmp" where
  "weights_cmp [] [] = 0"
| "weights_cmp [] (y # ys) = -1"
| "weights_cmp (x # xs) [] = 1"
| "weights_cmp (x # xs) (y # ys) = (if x < y then -1 else if y < x then 1 else weights_cmp xs ys)"

interpretation weights: consistent_cmp weights_cmp
proof
  fix x y z :: "nat list"
  show "weights_cmp x y \<le> 0 \<longleftrightarrow> 0 \<le> weights_cmp y x"
    by (induction x y rule: weights_cmp.induct) auto
  show "weights_cmp x y \<le> 0 \<Longrightarrow> weights_cmp y z \<le> 0 \<Longrightarrow> weights_cmp x z \<le> 0"
  proof (induction x z arbitrary: y rule: weights_cmp.induct)
    case (4 x xs z zs)
    then show ?case by (cases y) (auto split: if_splits)
  next
    case (3 x xs)
    then show ?case by (cases y) (auto split: if_splits)
  qed simp_all
qed

definition localeCompare :: "string cmp" where
  "localeCompare = cmp_or (cmp_on (map primary_weight) weights_cmp)
     (cmp_on (map tertiary_weight) weights_cmp)"

interpretation collation: consistent_cmp localeCompare
  unfolding localeCompare_def by (intro consistent_cmp_or consistent_cmp_on weights.consistent_cmp_axioms)

lemma localeCompare_examples:
  "localeCompare ''ERD-BRT'' ''ERD-FOR'' = -1" "localeCompare ''a'' ''B'' = -1"
  "localeCompare ''A'' ''a'' = 1" "localeCompare ''A-B'' ''AA'' = -1"
  by code_simp+

end
