(* ===== verification/Routing.thy ===== *)
theory Routing
  imports Ordering
begin

text \<open>
  Route selection on a published topology: \<^verbatim>\<open>lib/sim/protocolLab/routing.ts\<close>. The enumeration of simple
  paths is the depth-first walk of the code with its accumulator and its bound of 64 paths; a
  reference enumeration without either gives the set of simple paths, and the walk is shown to
  return its first 64. The ranking is \<^verbatim>\<open>sort\<close> with a comparator built as in the code.
\<close>

record glink =
  gl_id :: string
  gl_a :: string
  gl_b :: string

record route_graph =
  g_nodes :: "string list"
  g_links :: "glink list"

record link_view =
  up :: bool
  usable :: bool
  view_why :: "string option"
  availableBits :: "rat option"
  rateBps :: "rat option"

record route_choice =
  route_nodes :: "string list"
  linkIds :: "string list"
  hops :: nat
  relays :: nat
  bottleneckBits :: "rat option"
  bottleneckBps :: "rat option"

type_synonym path = "string list \<times> string list"
type_synonym adjacency = "(string \<times> (string \<times> string) list) list"

definition MAX_SIMPLE_PATHS :: nat where
  "MAX_SIMPLE_PATHS = 64"

section \<open>Adjacency\<close>

text \<open>\<^verbatim>\<open>adj.get(n)?.push(e)\<close>: nothing happens when \<open>n\<close> is not a node.\<close>

definition adj_push :: "string \<Rightarrow> string \<times> string \<Rightarrow> adjacency \<Rightarrow> adjacency" where
  "adj_push n e adj = (case map_of adj n of None \<Rightarrow> adj | Some es \<Rightarrow> AList.update n (es @ [e]) adj)"

definition adj_get :: "adjacency \<Rightarrow> string \<Rightarrow> (string \<times> string) list" where
  "adj_get adj n = (case map_of adj n of None \<Rightarrow> [] | Some es \<Rightarrow> es)"

definition link_skipped :: "string list \<Rightarrow> string list \<Rightarrow> glink \<Rightarrow> bool" where
  "link_skipped dn dl l \<longleftrightarrow> gl_id l \<in> set dl \<or> gl_a l \<in> set dn \<or> gl_b l \<in> set dn"

definition add_link :: "string list \<Rightarrow> string list \<Rightarrow> glink \<Rightarrow> adjacency \<Rightarrow> adjacency" where
  "add_link dn dl l adj =
     (if link_skipped dn dl l then adj
      else adj_push (gl_b l) (gl_a l, gl_id l) (adj_push (gl_a l) (gl_b l, gl_id l) adj))"

definition build_adj :: "route_graph \<Rightarrow> string list \<Rightarrow> string list \<Rightarrow> adjacency" where
  "build_adj g dn dl =
     fold (add_link dn dl) (g_links g) (fold (\<lambda>n. AList.update n []) (g_nodes g) [])"

definition adj_targets :: "adjacency \<Rightarrow> string set" where
  "adj_targets adj = (\<Union>(n, es) \<in> set adj. fst ` set es)"

lemma finite_adj_targets [simp]: "finite (adj_targets adj)"
  by (auto simp: adj_targets_def)

lemma adj_get_targets: "fst ` set (adj_get adj n) \<subseteq> adj_targets adj"
proof (cases "map_of adj n")
  case (Some es)
  then have "(n, es) \<in> set adj" by (rule map_of_SomeD)
  with Some show ?thesis by (auto simp: adj_get_def adj_targets_def intro!: bexI [of _ "(n, es)"])
qed (simp add: adj_get_def)

section \<open>Simple paths\<close>

text \<open>
  \<^verbatim>\<open>walk\<close> and the loop over its edges. \<open>nodes\<close> and \<open>ids\<close> are the arrays the code pushes to before the
  recursive call and pops after it; \<open>out\<close> is the accumulator.
\<close>

function (sequential)
  walk :: "adjacency \<Rightarrow> string \<Rightarrow> string \<Rightarrow> string list \<Rightarrow> string list \<Rightarrow> path list \<Rightarrow> path list"
  and walk_edges :: "adjacency \<Rightarrow> string \<Rightarrow> (string \<times> string) list \<Rightarrow> string list \<Rightarrow> string list
    \<Rightarrow> path list \<Rightarrow> path list" where
  "walk adj dst here nodes ids out =
     (if MAX_SIMPLE_PATHS \<le> length out then out
      else if here = dst then out @ [(nodes, ids)]
      else walk_edges adj dst (adj_get adj here) nodes ids out)"
| "walk_edges adj dst [] nodes ids out = out"
| "walk_edges adj dst ((to, lid) # es) nodes ids out =
     walk_edges adj dst es nodes ids
       (if to \<in> set nodes then out else walk adj dst to (nodes @ [to]) (ids @ [lid]) out)"
  by pat_completeness auto

text \<open>The reference enumeration: the same order, no bound, no accumulator.\<close>

function (sequential)
  paths_from :: "adjacency \<Rightarrow> string \<Rightarrow> string \<Rightarrow> string list \<Rightarrow> string list \<Rightarrow> path list"
  and paths_edges :: "adjacency \<Rightarrow> string \<Rightarrow> (string \<times> string) list \<Rightarrow> string list \<Rightarrow> string list
    \<Rightarrow> path list" where
  "paths_from adj dst here nodes ids =
     (if here = dst then [(nodes, ids)] else paths_edges adj dst (adj_get adj here) nodes ids)"
| "paths_edges adj dst [] nodes ids = []"
| "paths_edges adj dst ((to, lid) # es) nodes ids =
     (if to \<in> set nodes then [] else paths_from adj dst to (nodes @ [to]) (ids @ [lid]))
     @ paths_edges adj dst es nodes ids"
  by pat_completeness auto

lemma targets_shrink:
  "to \<notin> set nodes \<Longrightarrow>
   card (adj_targets adj - insert to (set nodes)) < card (insert to (adj_targets adj \<union> T) - set nodes)"
  if "finite T"
  using that by (intro psubset_card_mono) auto

lemma targets_le:
  "finite T \<Longrightarrow> card (adj_targets adj \<union> T - N) \<le> card (insert to (adj_targets adj \<union> T) - N)"
  by (intro card_mono) auto

termination walk
proof (relation "measures
    [case_sum (\<lambda>(adj, dst, here, nodes, ids, out). card (adj_targets adj - set nodes))
       (\<lambda>(adj, dst, es, nodes, ids, out). card (adj_targets adj \<union> fst ` set es - set nodes)),
     case_sum (\<lambda>(adj, dst, here, nodes, ids, out). Suc (length (adj_get adj here)))
       (\<lambda>(adj, dst, es, nodes, ids, out). length es)]", goal_cases)
  case (2 adj dst here nodes ids out)
  then show ?case by (simp add: Un_absorb2 [OF adj_get_targets])
next
  case (3 adj dst to lid es nodes ids out)
  then show ?case using targets_shrink [of "fst ` set es" to nodes adj] by (simp add: insert_commute)
next
  case (4 adj dst to lid es nodes ids out)
  then show ?case using targets_le [of "fst ` set es" adj "set nodes" to] by (auto simp: le_less)
qed simp

termination paths_from
proof (relation "measures
    [case_sum (\<lambda>(adj, dst, here, nodes, ids). card (adj_targets adj - set nodes))
       (\<lambda>(adj, dst, es, nodes, ids). card (adj_targets adj \<union> fst ` set es - set nodes)),
     case_sum (\<lambda>(adj, dst, here, nodes, ids). Suc (length (adj_get adj here)))
       (\<lambda>(adj, dst, es, nodes, ids). length es)]", goal_cases)
  case (2 adj dst here nodes ids)
  then show ?case by (simp add: Un_absorb2 [OF adj_get_targets])
next
  case (3 adj dst to lid es nodes ids)
  then show ?case using targets_shrink [of "fst ` set es" to nodes adj] by (simp add: insert_commute)
next
  case (4 adj dst to lid es nodes ids)
  then show ?case using targets_le [of "fst ` set es" adj "set nodes" to] by (auto simp: le_less)
qed simp

declare walk.simps [simp del] walk_edges.simps [simp del] paths_from.simps [simp del]
  paths_edges.simps [simp del]

definition simplePaths :: "route_graph \<Rightarrow> string \<Rightarrow> string \<Rightarrow> string list \<Rightarrow> string list \<Rightarrow> path list" where
  "simplePaths g src dst dn dl =
     (if src \<in> set dn \<or> dst \<in> set dn \<or> src = dst then []
      else walk (build_adj g dn dl) dst src [src] [] [])"

lemma take_take_append: "take n (take n xs @ ys) = take n (xs @ ys)"
  by (simp add: min_def)

text \<open>The walk is the reference enumeration, cut at the bound.\<close>

lemma walk_take:
  "length out \<le> MAX_SIMPLE_PATHS \<Longrightarrow>
     walk adj dst here nodes ids out = take MAX_SIMPLE_PATHS (out @ paths_from adj dst here nodes ids)"
  "length out \<le> MAX_SIMPLE_PATHS \<Longrightarrow>
     walk_edges adj dst es nodes ids out = take MAX_SIMPLE_PATHS (out @ paths_edges adj dst es nodes ids)"
proof (induction adj dst here nodes ids out and adj dst es nodes ids out rule: walk_walk_edges.induct)
  case (1 adj dst here nodes ids out)
  then show ?case
    by (auto simp: walk.simps [of adj dst here] paths_from.simps [of adj dst here])
next
  case (2 adj dst nodes ids out)
  then show ?case by (simp add: walk_edges.simps paths_edges.simps)
next
  case (3 adj dst to lid es nodes ids out)
  let ?P = "paths_from adj dst to (nodes @ [to]) (ids @ [lid])" and ?Q = "paths_edges adj dst es nodes ids"
  show ?case
  proof (cases "to \<in> set nodes")
    case True
    with 3 show ?thesis by (simp add: walk_edges.simps(2) paths_edges.simps(2))
  next
    case False
    with 3 have w: "walk adj dst to (nodes @ [to]) (ids @ [lid]) out = take MAX_SIMPLE_PATHS (out @ ?P)"
      by simp
    have "walk_edges adj dst es nodes ids (take MAX_SIMPLE_PATHS (out @ ?P))
        = take MAX_SIMPLE_PATHS (take MAX_SIMPLE_PATHS (out @ ?P) @ ?Q)"
      using "3.IH"(2) False w by (simp del: take_append)
    also have "\<dots> = take MAX_SIMPLE_PATHS (out @ ?P @ ?Q)"
      by (simp only: take_take_append append.assoc)
    finally show ?thesis
      using False w by (simp add: walk_edges.simps(2) paths_edges.simps(2) del: take_append)
  qed
qed

section \<open>What a simple path is\<close>

text \<open>\<open>follows E nodes ids\<close>: consecutive nodes are joined by the link at the same position.\<close>

fun follows :: "(string \<Rightarrow> string \<Rightarrow> string \<Rightarrow> bool) \<Rightarrow> string list \<Rightarrow> string list \<Rightarrow> bool" where
  "follows E [n] [] \<longleftrightarrow> True"
| "follows E (n # m # ns) (i # is) \<longleftrightarrow> E n i m \<and> follows E (m # ns) is"
| "follows E ns is \<longleftrightarrow> False"

definition joins :: "route_graph \<Rightarrow> string list \<Rightarrow> string list \<Rightarrow> string \<Rightarrow> string \<Rightarrow> string \<Rightarrow> bool" where
  "joins g dn dl n i m \<longleftrightarrow> n \<in> set (g_nodes g) \<and> (\<exists>l \<in> set (g_links g). \<not> link_skipped dn dl l \<and> gl_id l = i
     \<and> (gl_a l = n \<and> gl_b l = m \<or> gl_b l = n \<and> gl_a l = m))"

definition simple_path :: "route_graph \<Rightarrow> string list \<Rightarrow> string list \<Rightarrow> string \<Rightarrow> string \<Rightarrow> path \<Rightarrow> bool" where
  "simple_path g dn dl src dst p \<longleftrightarrow> follows (joins g dn dl) (fst p) (snd p)
     \<and> hd (fst p) = src \<and> last (fst p) = dst \<and> distinct (fst p)"

lemma follows_length: "follows E ns is \<Longrightarrow> length ns = Suc (length is)"
  by (induction E ns "is" rule: follows.induct) auto

lemma follows_single [simp]: "follows E [n] is \<longleftrightarrow> is = []"
  by (cases "is") auto

lemma follows_Cons: "follows E (n # m # ns) is \<longleftrightarrow> (\<exists>i js. is = i # js \<and> E n i m \<and> follows E (m # ns) js)"
  by (cases "is") auto

text \<open>The adjacency lists hold exactly the joined pairs.\<close>

lemma dom_adj_push [simp]: "dom (map_of (adj_push n e adj)) = dom (map_of adj)"
  by (auto simp: adj_push_def map_of_update_iff dom_def split: option.splits if_splits)

lemma adj_get_push:
  "x \<in> set (adj_get (adj_push n e adj) m) \<longleftrightarrow>
     x \<in> set (adj_get adj m) \<or> m = n \<and> n \<in> dom (map_of adj) \<and> x = e"
  by (auto simp: adj_get_def adj_push_def map_of_update_iff dom_def split: option.splits)

lemma dom_add_link [simp]: "dom (map_of (add_link dn dl l adj)) = dom (map_of adj)"
  by (simp add: add_link_def)

lemma adj_get_add_link:
  "(to, lid) \<in> set (adj_get (add_link dn dl l adj) n) \<longleftrightarrow> (to, lid) \<in> set (adj_get adj n) \<or>
     n \<in> dom (map_of adj) \<and> \<not> link_skipped dn dl l \<and> gl_id l = lid
     \<and> (gl_a l = n \<and> gl_b l = to \<or> gl_b l = n \<and> gl_a l = to)"
proof (cases "link_skipped dn dl l")
  case True
  then show ?thesis by (simp add: add_link_def)
next
  case False
  then have e: "add_link dn dl l adj
      = adj_push (gl_b l) (gl_a l, gl_id l) (adj_push (gl_a l) (gl_b l, gl_id l) adj)"
    by (simp add: add_link_def)
  show ?thesis unfolding e adj_get_push dom_adj_push using False by blast
qed

lemma adj_get_fold_links:
  "(to, lid) \<in> set (adj_get (fold (add_link dn dl) ls adj) n) \<longleftrightarrow> (to, lid) \<in> set (adj_get adj n) \<or>
     n \<in> dom (map_of adj) \<and> (\<exists>l \<in> set ls. \<not> link_skipped dn dl l \<and> gl_id l = lid
     \<and> (gl_a l = n \<and> gl_b l = to \<or> gl_b l = n \<and> gl_a l = to))"
  by (induction ls arbitrary: adj) (auto simp: adj_get_add_link)

lemma fold_nodes_empty:
  "(\<forall>n. adj_get adj n = []) \<Longrightarrow>
   (\<forall>n. adj_get (fold (\<lambda>n. AList.update n []) ns adj) n = []) \<and>
   dom (map_of (fold (\<lambda>n. AList.update n []) ns adj)) = set ns \<union> dom (map_of adj)"
  by (induction ns arbitrary: adj) (auto simp: adj_get_def map_of_update_iff)

lemma build_adj_joins: "(m, i) \<in> set (adj_get (build_adj g dn dl) n) \<longleftrightarrow> joins g dn dl n i m"
proof -
  have "adj_get [] k = []" for k by (simp add: adj_get_def)
  with fold_nodes_empty [of "[]" "g_nodes g"] show ?thesis
    by (simp add: build_adj_def adj_get_fold_links joins_def)
qed

section \<open>The reference enumeration is the set of simple paths\<close>

abbreviation adj_joins :: "adjacency \<Rightarrow> string \<Rightarrow> string \<Rightarrow> string \<Rightarrow> bool" where
  "adj_joins adj \<equiv> \<lambda>n i m. (m, i) \<in> set (adj_get adj n)"

definition tail_from :: "adjacency \<Rightarrow> string \<Rightarrow> string \<Rightarrow> string list \<Rightarrow> string list \<Rightarrow> string list \<Rightarrow> bool" where
  "tail_from adj dst here nodes ns is \<longleftrightarrow> follows (adj_joins adj) (here # ns) is \<and> last (here # ns) = dst
     \<and> distinct ns \<and> set ns \<inter> set nodes = {} \<and> dst \<notin> set (butlast (here # ns))"

lemma tail_from_Nil [simp]: "tail_from adj dst here nodes [] is \<longleftrightarrow> is = [] \<and> here = dst"
  by (auto simp: tail_from_def)

lemma tail_from_Cons:
  "tail_from adj dst here nodes (m # ns) is \<longleftrightarrow> here \<noteq> dst \<and> m \<notin> set nodes \<and>
     (\<exists>i js. is = i # js \<and> (m, i) \<in> set (adj_get adj here) \<and> tail_from adj dst m (nodes @ [m]) ns js)"
  by (auto simp: tail_from_def follows_Cons)

lemma paths_from_iff:
  "(p \<in> set (paths_from adj dst here nodes ids)) =
     (\<exists>ns is. p = (nodes @ ns, ids @ is) \<and> tail_from adj dst here nodes ns is)"
  "(p \<in> set (paths_edges adj dst es nodes ids)) =
     (\<exists>to lid ns is. (to, lid) \<in> set es \<and> to \<notin> set nodes \<and> p = (nodes @ to # ns, ids @ lid # is)
        \<and> tail_from adj dst to (nodes @ [to]) ns is)"
proof (induction adj dst here nodes ids and adj dst es nodes ids rule: paths_from_paths_edges.induct)
  case (1 adj dst here nodes ids)
  show ?case
  proof (cases "here = dst")
    case True
    have "tail_from adj dst dst nodes ns is \<longleftrightarrow> ns = [] \<and> is = []" for ns "is"
      by (cases ns) (auto simp: tail_from_Cons)
    with True show ?thesis by (simp add: paths_from.simps)
  next
    case False
    have "(\<exists>ns is. p = (nodes @ ns, ids @ is) \<and> tail_from adj dst here nodes ns is) \<longleftrightarrow>
      (\<exists>m ns is. p = (nodes @ m # ns, ids @ is) \<and> tail_from adj dst here nodes (m # ns) is)"
      using False by (metis list.exhaust tail_from_Nil)
    with 1 False show ?thesis
      by (auto simp: paths_from.simps [of adj dst here] tail_from_Cons)
  qed
next
  case (2 adj dst nodes ids)
  then show ?case by (simp add: paths_edges.simps)
next
  case (3 adj dst to lid es nodes ids)
  then show ?case by (auto simp: paths_edges.simps(2))
qed

definition all_paths :: "route_graph \<Rightarrow> string \<Rightarrow> string \<Rightarrow> string list \<Rightarrow> string list \<Rightarrow> path list" where
  "all_paths g src dst dn dl = paths_from (build_adj g dn dl) dst src [src] []"

lemma all_paths_iff:
  "p \<in> set (all_paths g src dst dn dl) \<longleftrightarrow> simple_path g dn dl src dst p"
proof -
  have E: "adj_joins (build_adj g dn dl) = joins g dn dl"
    by (intro ext) (rule build_adj_joins)
  have last: "dst \<notin> set (butlast (src # ns))" if "last (src # ns) = dst" "distinct (src # ns)" for ns
    using that append_butlast_last_id [of "src # ns"] distinct_append [of "butlast (src # ns)" "[dst]"] by auto
  have "tail_from (build_adj g dn dl) dst src [src] ns is \<longleftrightarrow> simple_path g dn dl src dst (src # ns, is)" for ns "is"
  proof -
    have "distinct ns \<and> set ns \<inter> set [src] = {} \<longleftrightarrow> distinct (src # ns)" by auto
    with last [of ns] show ?thesis
      unfolding tail_from_def simple_path_def E by (simp only: fst_conv snd_conv list.sel) blast
  qed
  moreover have "simple_path g dn dl src dst p \<Longrightarrow> \<exists>ns. fst p = src # ns"
    by (cases "fst p") (auto simp: simple_path_def)
  ultimately show ?thesis
    by (cases p) (auto simp: all_paths_def paths_from_iff)
qed

lemma simplePaths_take:
  "src \<notin> set dn \<Longrightarrow> dst \<notin> set dn \<Longrightarrow> src \<noteq> dst \<Longrightarrow>
   simplePaths g src dst dn dl = take MAX_SIMPLE_PATHS (all_paths g src dst dn dl)"
  by (simp add: simplePaths_def all_paths_def walk_take)

section \<open>Describing and ranking routes\<close>

definition minOrNull :: "rat option list \<Rightarrow> rat option" where
  "minOrNull xs =
     (let known = map the (filter (\<lambda>x. x \<noteq> None) xs)
      in if length known = length xs \<and> 0 < length known then Some (fold min (tl known) (hd known)) else None)"

definition describeRoute :: "path \<Rightarrow> (string \<Rightarrow> link_view) \<Rightarrow> route_choice" where
  "describeRoute p view =
     (let views = map view (snd p)
      in \<lparr>route_nodes = fst p, linkIds = snd p, hops = length (snd p), relays = length (snd p) - 1,
          bottleneckBits = minOrNull (map availableBits views),
          bottleneckBps = minOrNull (map rateBps views)\<rparr>)"

fun desc :: "rat option cmp" where
  "desc None None = 0"
| "desc None (Some b) = 1"
| "desc (Some a) None = -1"
| "desc (Some a) (Some b) = b - a"

definition rank_cmp :: "route_choice cmp" where
  "rank_cmp = cmp_or (cmp_on (rat_of_nat \<circ> hops) num_cmp)
     (cmp_or (cmp_on bottleneckBits desc)
     (cmp_or (cmp_on bottleneckBps desc)
             (cmp_on (js_join '','' \<circ> linkIds) localeCompare)))"

definition rankRoutes :: "route_choice list \<Rightarrow> route_choice list" where
  "rankRoutes routes = js_sort rank_cmp routes"

definition routeKey :: "string list \<Rightarrow> string" where
  "routeKey ns = js_join ''-'' ns"

record selection =
  chosen :: "route_choice option"
  ranked :: "route_choice list"
  rejected :: "(route_choice \<times> string) list"
  none_why :: "string option"

definition rejected_cmp :: "(route_choice \<times> string) cmp" where
  "rejected_cmp = cmp_or (cmp_on (rat_of_nat \<circ> hops \<circ> fst) num_cmp)
     (cmp_on (routeKey \<circ> route_nodes \<circ> fst) localeCompare)"

definition downLinks :: "route_graph \<Rightarrow> (string \<Rightarrow> link_view) \<Rightarrow> string list" where
  "downLinks g view = map gl_id (filter (\<lambda>l. \<not> up (view (gl_id l))) (g_links g))"

definition blocked_hop :: "(string \<Rightarrow> link_view) \<Rightarrow> path \<Rightarrow> string option" where
  "blocked_hop view p = List.find (\<lambda>i. \<not> usable (view i)) (snd p)"

definition rejection :: "(string \<Rightarrow> link_view) \<Rightarrow> path \<Rightarrow> (route_choice \<times> string) option" where
  "rejection view p = (case blocked_hop view p of
     None \<Rightarrow> None
   | Some i \<Rightarrow> Some (describeRoute p view,
       i @ '': '' @ (case view_why (view i) of None \<Rightarrow> ''unusable'' | Some w \<Rightarrow> w)))"

definition selectRoute ::
  "route_graph \<Rightarrow> string \<Rightarrow> string \<Rightarrow> (string \<Rightarrow> link_view) \<Rightarrow> string list \<Rightarrow> string list option \<Rightarrow> selection" where
  "selectRoute g src dst view downNodes preferred =
     (if src \<in> set downNodes \<or> dst \<in> set downNodes
      then \<lparr>chosen = None, ranked = [], rejected = [],
            none_why = Some (''endpoint '' @ (if src \<in> set downNodes then src else dst) @ '' is down'')\<rparr>
      else let paths = simplePaths g src dst downNodes (downLinks g view)
      in if paths = [] then \<lparr>chosen = None, ranked = [], rejected = [],
            none_why = Some ''no path of working links''\<rparr>
      else let
        usables = map (\<lambda>p. describeRoute p view) (filter (\<lambda>p. rejection view p = None) paths);
        rejecteds = List.map_filter (rejection view) paths;
        rk = rankRoutes usables;
        pref = (case preferred of None \<Rightarrow> None
                | Some ns \<Rightarrow> List.find (\<lambda>r. routeKey (route_nodes r) = routeKey ns) rk);
        ch = (case pref of Some r \<Rightarrow> Some r | None \<Rightarrow> if rk = [] then None else Some (hd rk))
      in \<lparr>chosen = ch, ranked = rk, rejected = js_sort rejected_cmp rejecteds,
          none_why = (if ch = None then Some ''every path has a hop that cannot carry the request''
                      else None)\<rparr>)"

interpretation desc_order: consistent_cmp desc
proof
  fix x y z :: "rat option"
  show "desc x y \<le> 0 \<longleftrightarrow> 0 \<le> desc y x"
    by (cases x; cases y) auto
  show "desc x y \<le> 0 \<Longrightarrow> desc y z \<le> 0 \<Longrightarrow> desc x z \<le> 0"
    by (cases x; cases y; cases z) auto
qed

interpretation rank: consistent_cmp rank_cmp
  unfolding rank_cmp_def
  by (intro consistent_cmp_or consistent_cmp_on num.consistent_cmp_axioms
      desc_order.consistent_cmp_axioms collation.consistent_cmp_axioms)

interpretation rejection_order: consistent_cmp rejected_cmp
  unfolding rejected_cmp_def
  by (intro consistent_cmp_or consistent_cmp_on num.consistent_cmp_axioms
      collation.consistent_cmp_axioms)

section \<open>What a selection is\<close>

lemma fold_min_le: "x \<in> insert a (set xs) \<Longrightarrow> fold min xs (a :: rat) \<le> x"
proof (induction xs arbitrary: a x)
  case (Cons b xs)
  have le: "fold min xs (min b a) \<le> min b a" by (rule Cons.IH) simp
  from Cons.prems consider "x = a" | "x = b" | "x \<in> set xs" by auto
  then show ?case using le by cases (auto simp: Cons.IH min_le_iff_disj)
qed simp

lemma fold_min_in: "fold min xs (a :: rat) \<in> insert a (set xs)"
proof (induction xs arbitrary: a)
  case (Cons b xs)
  then show ?case using Cons.IH [of "min b a"] by (auto simp: min_def)
qed simp

lemma known_all: "length (map the (filter (\<lambda>x. x \<noteq> None) xs)) = length xs \<longleftrightarrow> None \<notin> set xs"
proof (cases "None \<in> set xs")
  case True
  then show ?thesis using length_filter_less [of None xs "\<lambda>x. x \<noteq> None"] by simp
next
  case False
  then have "filter (\<lambda>x. x \<noteq> None) xs = xs" by (intro filter_True) metis
  then show ?thesis using False by simp
qed

lemma set_known: "set (map the (filter (\<lambda>x. x \<noteq> None) xs)) = {a. Some a \<in> set xs}"
  by force

text \<open>The bottleneck is known only when every hop reports, and is then the least of them.\<close>

lemma minOrNull_Some_iff:
  "minOrNull xs = Some b \<longleftrightarrow> xs \<noteq> [] \<and> None \<notin> set xs \<and> Some b \<in> set xs \<and> (\<forall>a. Some a \<in> set xs \<longrightarrow> b \<le> a)"
proof (cases "None \<in> set xs \<or> xs = []")
  case True
  then show ?thesis using known_all [of xs] by (auto simp: minOrNull_def Let_def)
next
  case False
  define known where "known = map the (filter (\<lambda>x. x \<noteq> None) xs)"
  from False have l: "length known = length xs" "known \<noteq> []"
    using known_all [of xs] unfolding known_def by (blast, metis length_0_conv)
  then obtain a as where k: "known = a # as" by (cases known) auto
  have s: "insert a (set as) = {c. Some c \<in> set xs}"
    using set_known [of xs] k unfolding known_def by (metis list.simps(15))
  have m: "minOrNull xs = Some (fold min as a)"
    using l k unfolding minOrNull_def Let_def known_def [symmetric] by auto
  have i: "Some (fold min as a) \<in> set xs" using fold_min_in [of as a] s by blast
  have le: "fold min as a \<le> c" if "Some c \<in> set xs" for c using fold_min_le [of c a as] s that by blast
  show ?thesis
    unfolding m using False i le by (metis antisym option.inject)
qed

lemma minOrNull_case:
  "case minOrNull xs of
     None \<Rightarrow> xs = [] \<or> None \<in> set xs
   | Some b \<Rightarrow> Some b \<in> set xs \<and> None \<notin> set xs \<and> (\<forall>a. Some a \<in> set xs \<longrightarrow> b \<le> a)"
proof (cases "minOrNull xs")
  case None
  have "length (filter (\<lambda>x. x \<noteq> None) xs) = length xs" if "None \<notin> set xs"
    using known_all [of xs] that by simp
  with None show ?thesis by (auto simp: minOrNull_def Let_def split: if_splits)
next
  case (Some b)
  with minOrNull_Some_iff [of xs b] show ?thesis by simp
qed

lemma bottleneck_case:
  assumes "is \<noteq> []"
  shows "case minOrNull (map (f \<circ> view) is) of
     None \<Rightarrow> \<exists>i \<in> set is. f (view i) = None
   | Some b \<Rightarrow> (\<exists>i \<in> set is. f (view i) = Some b) \<and> (\<forall>i \<in> set is. \<exists>a \<ge> b. f (view i) = Some a)"
proof (cases "minOrNull (map (f \<circ> view) is)")
  case None
  with minOrNull_case [of "map (f \<circ> view) is"] assms have "None \<in> set (map (f \<circ> view) is)" by simp
  then show ?thesis unfolding None by force
next
  case (Some b)
  with minOrNull_case [of "map (f \<circ> view) is"]
  have b: "Some b \<in> set (map (f \<circ> view) is)" "None \<notin> set (map (f \<circ> view) is)"
    "\<And>a. Some a \<in> set (map (f \<circ> view) is) \<Longrightarrow> b \<le> a" by auto
  have "\<exists>a \<ge> b. f (view i) = Some a" if "i \<in> set is" for i
  proof -
    from that have m: "f (view i) \<in> set (map (f \<circ> view) is)" by auto
    with b(2) obtain a where a: "f (view i) = Some a" by (metis option.exhaust)
    with m b(3) show ?thesis by auto
  qed
  moreover have "\<exists>i \<in> set is. f (view i) = Some b" using b(1) by force
  ultimately show ?thesis unfolding Some by simp
qed

lemma describeRoute_simps [simp]:
  "route_nodes (describeRoute p view) = fst p" "linkIds (describeRoute p view) = snd p"
  "hops (describeRoute p view) = length (snd p)" "relays (describeRoute p view) = length (snd p) - 1"
  "bottleneckBits (describeRoute p view) = minOrNull (map (availableBits \<circ> view) (snd p))"
  "bottleneckBps (describeRoute p view) = minOrNull (map (rateBps \<circ> view) (snd p))"
  by (simp_all add: describeRoute_def Let_def)

lemma rejection_None_iff: "rejection view p = None \<longleftrightarrow> (\<forall>i \<in> set (snd p). usable (view i))"
  using find_None_iff [of "\<lambda>i. \<not> usable (view i)" "snd p"]
  by (cases "blocked_hop view p") (auto simp: rejection_def blocked_hop_def)

lemma selection_ranked:
  assumes "src \<notin> set dn" "dst \<notin> set dn" "src \<noteq> dst"
  shows "ranked (selectRoute g src dst view dn pref) =
    rankRoutes (map (\<lambda>p. describeRoute p view) (filter (\<lambda>p. \<forall>i \<in> set (snd p). usable (view i))
      (take MAX_SIMPLE_PATHS (all_paths g src dst dn (downLinks g view)))))"
proof -
  have "simplePaths g src dst dn (downLinks g view) = take MAX_SIMPLE_PATHS (all_paths g src dst dn (downLinks g view))"
    using assms by (rule simplePaths_take)
  then show ?thesis
    using assms unfolding selectRoute_def
    by (simp add: Let_def rejection_None_iff rankRoutes_def split: if_splits)
qed

lemma selection_chosen:
  "chosen (selectRoute g src dst view dn pref) =
    (case (case pref of None \<Rightarrow> None
           | Some ns \<Rightarrow> List.find (\<lambda>r. routeKey (route_nodes r) = routeKey ns) (ranked (selectRoute g src dst view dn pref))) of
       Some r \<Rightarrow> Some r
     | None \<Rightarrow> if ranked (selectRoute g src dst view dn pref) = [] then None
               else Some (hd (ranked (selectRoute g src dst view dn pref))))"
  unfolding selectRoute_def by (simp add: Let_def split: option.splits)

lemma chosen_in_ranked:
  "chosen (selectRoute g src dst view dn pref) = Some r \<Longrightarrow> r \<in> set (ranked (selectRoute g src dst view dn pref))"
  by (subst (asm) selection_chosen) (auto split: option.splits if_splits simp: find_Some_iff)

lemma chosen_None: "chosen (selectRoute g src dst view dn pref) = None \<longleftrightarrow> ranked (selectRoute g src dst view dn pref) = []"
  by (subst selection_chosen) (auto split: option.splits)

text \<open>Dead links never enter the graph: a link id of a path always names an up link.\<close>

lemma joins_up: "joins g dn (downLinks g view) n i m \<Longrightarrow> up (view i)"
  by (auto simp: joins_def link_skipped_def downLinks_def)

lemma joins_nodes: "joins g dn dl n i m \<Longrightarrow> n \<notin> set dn \<and> m \<notin> set dn"
  by (auto simp: joins_def link_skipped_def)

lemma follows_all: "follows E ns is \<Longrightarrow> i \<in> set is \<Longrightarrow> \<exists>n m. E n i m"
  by (induction E ns "is" rule: follows.induct) auto

lemma follows_nodes: "follows E ns is \<Longrightarrow> n \<in> set ns \<Longrightarrow> is \<noteq> [] \<Longrightarrow> \<exists>i m. E n i m \<or> E m i n"
proof (induction E ns "is" rule: follows.induct)
  case (2 E n' m ns i "is")
  then show ?case by (cases "is"; cases ns) auto
qed auto

lemma ranked_members:
  assumes "r \<in> set (ranked (selectRoute g src dst view dn pref))"
  obtains p where "r = describeRoute p view" "simple_path g dn (downLinks g view) src dst p"
    "\<forall>i \<in> set (snd p). usable (view i)" "src \<notin> set dn" "dst \<notin> set dn" "src \<noteq> dst"
proof -
  have e: "src \<notin> set dn" "dst \<notin> set dn" "src \<noteq> dst"
    using assms by (auto simp: selectRoute_def simplePaths_def split: if_splits)
  with assms that show ?thesis
    by (auto simp: selection_ranked rankRoutes_def dest!: in_set_takeD) (metis all_paths_iff prod.sel)
qed

lemma mset_split_rejections:
  "mset (map (\<lambda>p. describeRoute p view) (filter (\<lambda>p. rejection view p = None) ps))
   + mset (map fst (List.map_filter (rejection view) ps)) = mset (map (\<lambda>p. describeRoute p view) ps)"
proof (induction ps)
  case (Cons p ps)
  have "fst r = describeRoute p view" if "rejection view p = Some r" for r
    using that by (auto simp: rejection_def split: option.splits)
  with Cons show ?case by (auto simp: List.map_filter_simps split: option.splits)
qed (simp add: List.map_filter_simps)

lemma find_SomeD: "List.find P xs = Some x \<Longrightarrow> P x \<and> x \<in> set xs"
  by (induction xs) (auto split: if_splits)

section \<open>Properties\<close>

text \<open>C5. The depth-first search of \<^verbatim>\<open>simplePaths\<close> returns the first 64 paths of the unbounded
  enumeration, and that enumeration holds exactly the simple paths of the graph without the down
  nodes and links; so below the bound the search finds every simple path, and no result is ever
  anything else.\<close>

theorem simplePaths_enumeration:
  assumes "src \<notin> set dn" "dst \<notin> set dn" "src \<noteq> dst"
  shows "\<exists>every. simplePaths g src dst dn dl = take MAX_SIMPLE_PATHS every
     \<and> set every = {p. simple_path g dn dl src dst p}
     \<and> (length (simplePaths g src dst dn dl) < MAX_SIMPLE_PATHS \<longrightarrow> simplePaths g src dst dn dl = every)"
proof (intro exI conjI impI)
  show t: "simplePaths g src dst dn dl = take MAX_SIMPLE_PATHS (all_paths g src dst dn dl)"
    using assms by (rule simplePaths_take)
  show "set (all_paths g src dst dn dl) = {p. simple_path g dn dl src dst p}"
    using all_paths_iff by blast
  assume "length (simplePaths g src dst dn dl) < MAX_SIMPLE_PATHS"
  then show "simplePaths g src dst dn dl = all_paths g src dst dn dl"
    unfolding t by simp
qed

definition demo_graph :: route_graph where
  "demo_graph = \<lparr>g_nodes = [''SIE'', ''ERD'', ''FOR'', ''BRT''],
     g_links = [\<lparr>gl_id = ''SIE-ERD'', gl_a = ''SIE'', gl_b = ''ERD''\<rparr>,
                \<lparr>gl_id = ''ERD-BRT'', gl_a = ''ERD'', gl_b = ''BRT''\<rparr>,
                \<lparr>gl_id = ''ERD-FOR'', gl_a = ''ERD'', gl_b = ''FOR''\<rparr>,
                \<lparr>gl_id = ''FOR-BRT'', gl_a = ''FOR'', gl_b = ''BRT''\<rparr>]\<rparr>"

definition demo_view :: "string \<Rightarrow> link_view" where
  "demo_view i = \<lparr>up = True, usable = i \<noteq> ''ERD-BRT'',
     view_why = (if i = ''ERD-BRT'' then Some ''below threshold'' else None),
     availableBits = Some (if i = ''FOR-BRT'' then 512 else 4096), rateBps = None\<rparr>"

definition demo_cut :: "string \<Rightarrow> link_view" where
  "demo_cut i = demo_view (if i = ''SIE-ERD'' then ''ERD-BRT'' else i)"

lemma simplePaths_enumeration_witness:
  "set (simplePaths demo_graph ''SIE'' ''BRT'' [] []) = {p. simple_path demo_graph [] [] ''SIE'' ''BRT'' p}"
proof -
  have "length (simplePaths demo_graph ''SIE'' ''BRT'' [] []) < MAX_SIMPLE_PATHS" by code_simp
  then show ?thesis
    using simplePaths_enumeration [of "''SIE''" "[]" "''BRT''" demo_graph "[]"] by auto
qed

text \<open>C6. A chosen route is sound: it is a simple path between the endpoints over links that are
  up and can carry the request and nodes that are not down; it relays through one node fewer than
  it has hops; and its bottleneck is the least amount any of its hops has available, or unknown when
  some hop does not report.\<close>

theorem selectRoute_sound:
  assumes "chosen (selectRoute g src dst view dn pref) = Some r"
  shows "simple_path g dn (downLinks g view) src dst (route_nodes r, linkIds r)
    \<and> (\<forall>i \<in> set (linkIds r). up (view i) \<and> usable (view i))
    \<and> set (route_nodes r) \<inter> set dn = {}
    \<and> hops r = length (linkIds r) \<and> 0 < hops r \<and> relays r = length (route_nodes r) - 2
    \<and> (case bottleneckBits r of
         None \<Rightarrow> \<exists>i \<in> set (linkIds r). availableBits (view i) = None
       | Some b \<Rightarrow> (\<exists>i \<in> set (linkIds r). availableBits (view i) = Some b)
           \<and> (\<forall>i \<in> set (linkIds r). \<exists>a \<ge> b. availableBits (view i) = Some a))"
proof -
  from chosen_in_ranked [OF assms] obtain p where r: "r = describeRoute p view"
    and p: "simple_path g dn (downLinks g view) src dst p" "\<forall>i \<in> set (snd p). usable (view i)"
    and e: "src \<noteq> dst"
    by (rule ranked_members)
  from p(1) have f: "follows (joins g dn (downLinks g view)) (fst p) (snd p)" by (simp add: simple_path_def)
  have ne: "snd p \<noteq> []"
    using p(1) e f by (cases "fst p") (auto simp: simple_path_def dest: follows_length)
  have u: "\<forall>i \<in> set (snd p). up (view i)" using follows_all [OF f] joins_up by blast
  have n: "set (fst p) \<inter> set dn = {}" using follows_nodes [OF f _ ne] joins_nodes by blast
  show ?thesis
    using p u n ne follows_length [OF f] bottleneck_case [OF ne, of availableBits view]
    unfolding r describeRoute_simps by simp
qed

lemma selectRoute_sound_witness:
  "set (route_nodes (the (chosen (selectRoute demo_graph ''SIE'' ''BRT'' demo_view [] None)))) \<inter> set [] = {}
   \<and> linkIds (the (chosen (selectRoute demo_graph ''SIE'' ''BRT'' demo_view [] None))) = [''SIE-ERD'', ''ERD-FOR'', ''FOR-BRT'']
   \<and> usable (demo_view ''FOR-BRT'')"
proof -
  let ?r = "\<lparr>route_nodes = [''SIE'', ''ERD'', ''FOR'', ''BRT''], linkIds = [''SIE-ERD'', ''ERD-FOR'', ''FOR-BRT''],
    hops = 3, relays = 2, bottleneckBits = Some 512, bottleneckBps = None\<rparr>"
  have c: "chosen (selectRoute demo_graph ''SIE'' ''BRT'' demo_view [] None) = Some ?r" by code_simp
  show ?thesis using selectRoute_sound [OF c] unfolding c by simp
qed

text \<open>C7. Without a preferred route, and as long as the enumeration stayed below its bound of 64 paths,
  the chosen route has the fewest hops of all usable simple paths; and no usable simple path of its
  length is wider: where the least amount available on the route's hops is known to be \<open>b\<close>, any
  such path has a hop with at most \<open>b\<close> available or with an unknown amount, and where it is unknown,
  so it is on any such path.\<close>

theorem selectRoute_best:
  assumes "chosen (selectRoute g src dst view dn None) = Some r"
    and "length (simplePaths g src dst dn (downLinks g view)) < MAX_SIMPLE_PATHS"
    and "simple_path g dn (downLinks g view) src dst q" "\<forall>i \<in> set (snd q). usable (view i)"
  shows "hops r \<le> length (snd q)
    \<and> (hops r = length (snd q) \<longrightarrow> (case bottleneckBits r of
         Some b \<Rightarrow> \<exists>i \<in> set (snd q). case availableBits (view i) of Some a \<Rightarrow> a \<le> b | None \<Rightarrow> True
       | None \<Rightarrow> \<exists>i \<in> set (snd q). availableBits (view i) = None))"
proof -
  let ?S = "selectRoute g src dst view dn None"
  have e: "src \<notin> set dn" "dst \<notin> set dn" "src \<noteq> dst"
    using ranked_members [OF chosen_in_ranked [OF assms(1)]] by blast+
  have all: "simplePaths g src dst dn (downLinks g view) = all_paths g src dst dn (downLinks g view)"
    using assms(2) unfolding simplePaths_take [OF e] by simp
  define us where "us = map (\<lambda>p. describeRoute p view) (filter (\<lambda>p. \<forall>i \<in> set (snd p). usable (view i))
    (simplePaths g src dst dn (downLinks g view)))"
  have rk: "ranked ?S = js_sort rank_cmp us"
    unfolding selection_ranked [OF e] us_def simplePaths_take [OF e] by (simp add: rankRoutes_def)
  have "describeRoute q view \<in> set us"
    using assms(3,4) unfolding us_def all by (auto simp: all_paths_iff)
  from rank.js_sort_hd [OF this] have "rank_cmp r (describeRoute q view) \<le> 0"
    using assms(1) unfolding selection_chosen rk by (auto split: if_splits)
  then have le: "hops r \<le> length (snd q)"
      "hops r = length (snd q) \<Longrightarrow> desc (bottleneckBits r) (minOrNull (map (availableBits \<circ> view) (snd q))) \<le> 0"
    by (auto simp: rank_cmp_def cmp_or_le_iff cmp_on_def num_cmp_def comp_def)
  have "snd q \<noteq> []"
    using assms(3) e follows_length [of "joins g dn (downLinks g view)" "fst q" "snd q"]
    by (cases "fst q") (auto simp: simple_path_def)
  note bc = bottleneck_case [OF this, of availableBits view]
  show ?thesis
  proof (intro conjI impI)
    assume "hops r = length (snd q)"
    from le(2) [OF this] bc show "case bottleneckBits r of
         Some b \<Rightarrow> \<exists>i \<in> set (snd q). case availableBits (view i) of Some a \<Rightarrow> a \<le> b | None \<Rightarrow> True
       | None \<Rightarrow> \<exists>i \<in> set (snd q). availableBits (view i) = None"
      by (cases "bottleneckBits r"; cases "minOrNull (map (availableBits \<circ> view) (snd q))") (auto split: option.splits intro: bexI [rotated])
  qed (rule le(1))
qed

text \<open>Two ways around a square, of which the second holds more.\<close>

definition square :: route_graph where
  "square = \<lparr>g_nodes = [''A'', ''B'', ''C'', ''D''],
     g_links = [\<lparr>gl_id = ''AB'', gl_a = ''A'', gl_b = ''B''\<rparr>, \<lparr>gl_id = ''BD'', gl_a = ''B'', gl_b = ''D''\<rparr>,
                \<lparr>gl_id = ''AC'', gl_a = ''A'', gl_b = ''C''\<rparr>, \<lparr>gl_id = ''CD'', gl_a = ''C'', gl_b = ''D''\<rparr>]\<rparr>"

definition square_view :: "string \<Rightarrow> link_view" where
  "square_view i = \<lparr>up = True, usable = True, view_why = None,
     availableBits = Some (if i = ''BD'' then 256 else 1024), rateBps = None\<rparr>"


lemma selectRoute_best_witness:
  "chosen (selectRoute square ''A'' ''D'' square_view [] None) = Some \<lparr>route_nodes = [''A'', ''C'', ''D''], linkIds = [''AC'', ''CD''],
     hops = 2, relays = 1, bottleneckBits = Some 1024, bottleneckBps = None\<rparr>
   \<and> (\<exists>i \<in> {''AB'', ''BD''}. case availableBits (square_view i) of Some a \<Rightarrow> a \<le> 1024 | None \<Rightarrow> True)"
proof -
  let ?r = "\<lparr>route_nodes = [''A'', ''C'', ''D''], linkIds = [''AC'', ''CD''],
    hops = 2, relays = 1, bottleneckBits = Some 1024, bottleneckBps = None\<rparr>"
  have c: "chosen (selectRoute square ''A'' ''D'' square_view [] None) = Some ?r" by code_simp
  have l: "length (simplePaths square ''A'' ''D'' [] (downLinks square square_view)) < MAX_SIMPLE_PATHS"
    by code_simp
  have q: "simple_path square [] (downLinks square square_view) ''A'' ''D'' ([''A'', ''B'', ''D''], [''AB'', ''BD''])" by code_simp
  have u: "\<forall>i \<in> set (snd ([''A'', ''B'', ''D''], [''AB'', ''BD''])). usable (square_view i)" by (simp add: square_view_def)
  show ?thesis using selectRoute_best [OF c l q u] unfolding c by simp
qed

text \<open>Selection is complete and says why: below the enumeration bound it chooses nothing exactly
  when no usable simple path exists, it gives a reason exactly then, and every enumerated path is
  reported once, as ranked or as rejected.\<close>

theorem selectRoute_complete:
  assumes "src \<notin> set dn" "dst \<notin> set dn" "src \<noteq> dst"
    and "length (simplePaths g src dst dn (downLinks g view)) < MAX_SIMPLE_PATHS"
  shows "(chosen (selectRoute g src dst view dn pref) = None
      \<longleftrightarrow> \<not> (\<exists>p. simple_path g dn (downLinks g view) src dst p \<and> (\<forall>i \<in> set (snd p). usable (view i))))
    \<and> (none_why (selectRoute g src dst view dn pref) \<noteq> None \<longleftrightarrow> chosen (selectRoute g src dst view dn pref) = None)
    \<and> mset (ranked (selectRoute g src dst view dn pref)) + mset (map fst (rejected (selectRoute g src dst view dn pref)))
      = mset (map (\<lambda>p. describeRoute p view) (simplePaths g src dst dn (downLinks g view)))"
proof (intro conjI)
  have all: "simplePaths g src dst dn (downLinks g view) = all_paths g src dst dn (downLinks g view)"
    using assms(4) unfolding simplePaths_take [OF assms(1-3)] by simp
  have "ranked (selectRoute g src dst view dn pref) = [] \<longleftrightarrow>
      \<not> (\<exists>p \<in> set (all_paths g src dst dn (downLinks g view)). \<forall>i \<in> set (snd p). usable (view i))"
    unfolding selection_ranked [OF assms(1-3)] simplePaths_take [OF assms(1-3), symmetric] all
    by (auto simp: rankRoutes_def filter_empty_conv)
  then show "chosen (selectRoute g src dst view dn pref) = None
      \<longleftrightarrow> \<not> (\<exists>p. simple_path g dn (downLinks g view) src dst p \<and> (\<forall>i \<in> set (snd p). usable (view i)))"
    unfolding chosen_None Bex_def all_paths_iff by blast
  show "none_why (selectRoute g src dst view dn pref) \<noteq> None \<longleftrightarrow> chosen (selectRoute g src dst view dn pref) = None"
    by (simp add: selectRoute_def Let_def)
  show "mset (ranked (selectRoute g src dst view dn pref)) + mset (map fst (rejected (selectRoute g src dst view dn pref)))
      = mset (map (\<lambda>p. describeRoute p view) (simplePaths g src dst dn (downLinks g view)))"
    using assms(1,2) mset_split_rejections [of view "simplePaths g src dst dn (downLinks g view)"]
    by (auto simp: selectRoute_def Let_def rankRoutes_def)
qed

lemma selectRoute_complete_witness:
  "none_why (selectRoute demo_graph ''SIE'' ''BRT'' demo_cut [] None)
     = Some ''every path has a hop that cannot carry the request''
   \<and> \<not> (\<exists>p. simple_path demo_graph [] [] ''SIE'' ''BRT'' p
        \<and> (\<forall>i \<in> set (snd p). usable (demo_cut i)))"
proof -
  have w: "none_why (selectRoute demo_graph ''SIE'' ''BRT'' demo_cut [] None)
      = Some ''every path has a hop that cannot carry the request''"
    and l: "length (simplePaths demo_graph ''SIE'' ''BRT'' [] (downLinks demo_graph demo_cut)) < MAX_SIMPLE_PATHS"
    and d: "downLinks demo_graph demo_cut = []"
    by code_simp+
  note c = selectRoute_complete [of "''SIE''" "[]" "''BRT''" demo_graph demo_cut None, unfolded d, simplified,
      OF l [unfolded d]]
  from c w have "chosen (selectRoute demo_graph ''SIE'' ''BRT'' demo_cut [] None) = None" by simp
  with c w show ?thesis by simp
qed

text \<open>A preferred route that can carry the request is honoured: if some usable enumerated path
  visits the preferred nodes, the chosen route has the preferred route's key.\<close>

theorem selectRoute_preferred:
  assumes "p \<in> set (simplePaths g src dst dn (downLinks g view))" "\<forall>i \<in> set (snd p). usable (view i)"
  shows "\<exists>r. chosen (selectRoute g src dst view dn (Some (fst p))) = Some r
    \<and> routeKey (route_nodes r) = routeKey (fst p)"
proof -
  have e: "src \<notin> set dn" "dst \<notin> set dn" "src \<noteq> dst"
    using assms(1) by (auto simp: simplePaths_def split: if_splits)
  let ?S = "selectRoute g src dst view dn (Some (fst p))"
  have "describeRoute p view \<in> set (ranked ?S)"
    using assms unfolding selection_ranked [OF e] simplePaths_take [OF e, symmetric]
    by (auto simp: rankRoutes_def)
  then have "List.find (\<lambda>r. routeKey (route_nodes r) = routeKey (fst p)) (ranked ?S) \<noteq> None"
    unfolding find_None_iff by force
  then obtain r where "List.find (\<lambda>r. routeKey (route_nodes r) = routeKey (fst p)) (ranked ?S) = Some r"
    by blast
  then show ?thesis unfolding selection_chosen [of g src dst view dn "Some (fst p)"]
    by (auto dest: find_SomeD)
qed

lemma selectRoute_preferred_witness:
  "map_option route_nodes (chosen (selectRoute demo_graph ''SIE'' ''BRT'' (\<lambda>i. demo_view ''x'') []
     (Some [''SIE'', ''ERD'', ''FOR'', ''BRT'']))) = Some [''SIE'', ''ERD'', ''FOR'', ''BRT'']
   \<and> (\<exists>r. chosen (selectRoute demo_graph ''SIE'' ''BRT'' (\<lambda>i. demo_view ''x'') []
     (Some [''SIE'', ''ERD'', ''FOR'', ''BRT''])) = Some r \<and> routeKey (route_nodes r) = ''SIE-ERD-FOR-BRT'')"
proof
  let ?p = "([''SIE'', ''ERD'', ''FOR'', ''BRT''], [''SIE-ERD'', ''ERD-FOR'', ''FOR-BRT''])"
  have p: "?p \<in> set (simplePaths demo_graph ''SIE'' ''BRT'' [] (downLinks demo_graph (\<lambda>i. demo_view ''x'')))"
    by code_simp
  show "\<exists>r. chosen (selectRoute demo_graph ''SIE'' ''BRT'' (\<lambda>i. demo_view ''x'') []
     (Some [''SIE'', ''ERD'', ''FOR'', ''BRT''])) = Some r \<and> routeKey (route_nodes r) = ''SIE-ERD-FOR-BRT''"
    using selectRoute_preferred [OF p] by (simp add: demo_view_def routeKey_def)
qed code_simp

end
