(* ===== verification/Key_Stream.thy ===== *)
theory Key_Stream
  imports Etsi004
begin

text \<open>
  The interface between the relay of the Protocol Lab (\<^verbatim>\<open>protocolLabSim.ts\<close>) and the key manager pair
  (\<^verbatim>\<open>protocolLab/etsi004.ts\<close>): the relay supplies keys to a stream that both applications read in step,
  A at the next index and B at the index A was given. The locale states what the relay relies on; its
  lemmas say what a loop of such reads yields; the key manager pair interprets it.
\<close>

text \<open>The loop of paired reads: it stops at the first read that gives nothing.\<close>

fun paired_reads ::
  "(side \<Rightarrow> int option \<Rightarrow> 's \<Rightarrow> (int \<times> bytes) option \<times> 's) \<Rightarrow> nat \<Rightarrow> 's \<Rightarrow> (int \<times> bytes) list \<times> (int \<times> bytes) list \<times> 's" where
  "paired_reads rd 0 s = ([], [], s)"
| "paired_reads rd (Suc n) s = (case rd A None s of
     (None, s1) \<Rightarrow> ([], [], s1)
   | (Some (i, a), s1) \<Rightarrow> (case rd B (Some i) s1 of
       (None, s2) \<Rightarrow> ([(i, a)], [], s2)
     | (Some (j, b), s2) \<Rightarrow> (let (xs, ys, s3) = paired_reads rd n s2 in ((i, a) # xs, (j, b) # ys, s3))))"

locale paired_stream =
  fixes synced :: "'s \<Rightarrow> bool"
    and pending :: "'s \<Rightarrow> nat"
    and give :: "bytes \<Rightarrow> 's \<Rightarrow> 's"
    and rd :: "side \<Rightarrow> int option \<Rightarrow> 's \<Rightarrow> (int \<times> bytes) option \<times> 's"
  assumes give_synced: "synced s \<Longrightarrow> synced (give b s)"
    and give_pending: "synced s \<Longrightarrow> pending (give b s) = Suc (pending s)"
    and read_empty: "synced s \<Longrightarrow> pending s = 0 \<Longrightarrow> rd A None s = (None, s)"
    and read_pair: "synced s \<Longrightarrow> pending s = Suc m \<Longrightarrow>
      \<exists>i b s1 s2. rd A None s = (Some (i, b), s1) \<and> rd B (Some i) s1 = (Some (i, b), s2) \<and> synced s2 \<and> pending s2 = m"
begin

lemma paired_reads_spec:
  assumes "synced s"
  shows "\<exists>xs s'. paired_reads rd n s = (xs, xs, s') \<and> length xs = min n (pending s)
    \<and> synced s' \<and> pending s' = pending s - length xs"
  using assms
proof (induction n arbitrary: s)
  case (Suc n)
  show ?case
  proof (cases "pending s")
    case 0
    with Suc.prems read_empty show ?thesis by simp
  next
    case (Suc m)
    with read_pair [OF Suc.prems] obtain i b s1 s2 where
      r: "rd A None s = (Some (i, b), s1)" "rd B (Some i) s1 = (Some (i, b), s2)" "synced s2" "pending s2 = m"
      by blast
    from Suc.IH [OF r(3)] r(4) obtain xs s' where
      "paired_reads rd n s2 = (xs, xs, s')" "length xs = min n m" "synced s'" "pending s' = m - length xs" by auto
    with r Suc show ?thesis by simp
  qed
qed simp

fun give_all :: "bytes list \<Rightarrow> 's \<Rightarrow> 's" where
  "give_all [] s = s"
| "give_all (b # bs) s = give_all bs (give b s)"

lemma give_all_spec: "synced s \<Longrightarrow> synced (give_all bs s) \<and> pending (give_all bs s) = pending s + length bs"
  by (induction bs arbitrary: s) (simp_all add: give_synced give_pending)

text \<open>Every key supplied to a drained stream can be read on both ends.\<close>

lemma supplied_then_read:
  assumes "synced s" "pending s = 0" "n = length bs"
  shows "\<exists>xs s'. paired_reads rd n (give_all bs s) = (xs, xs, s') \<and> length xs = length bs \<and> pending s' = 0"
  using paired_reads_spec [of "give_all bs s" n] give_all_spec [OF assms(1), of bs] assms(2,3) by auto

end

section \<open>The key manager pair as such a stream\<close>

definition stream_synced :: "string \<Rightarrow> stream \<Rightarrow> bool" where
  "stream_synced k st \<longleftrightarrow> stream_wf st \<and> st_ksid st = k \<and> st_state st = ESTABLISHED
     \<and> delivered_to st A = delivered_to st B"

definition km_synced :: "string \<Rightarrow> km \<Rightarrow> bool" where
  "km_synced k km \<longleftrightarrow> (\<exists>st. map_of km k = Some st \<and> stream_synced k st)"

definition km_ready :: "km_env \<Rightarrow> string \<Rightarrow> km \<Rightarrow> bool" where
  "km_ready env k km \<longleftrightarrow> routeUp env \<and> km_synced k km"

definition km_pending :: "string \<Rightarrow> km \<Rightarrow> nat" where
  "km_pending k km = nat (undelivered k A km)"

definition km_give :: "km_env \<Rightarrow> string \<Rightarrow> int \<Rightarrow> bytes \<Rightarrow> km \<Rightarrow> km" where
  "km_give env k h b km = snd (km_supply env k b h km)"

definition km_read :: "km_env \<Rightarrow> string \<Rightarrow> side \<Rightarrow> int option \<Rightarrow> km \<Rightarrow> (int \<times> bytes) option \<times> km" where
  "km_read env k d io km = (let (r, km') = getKey env d k io 0 km in
     (if res_status r = Some (statusCode SUCCESSFUL)
      then (case (index r, Key_buffer r) of (Some i, Some b) \<Rightarrow> Some (i, b) | _ \<Rightarrow> None) else None, km'))"

lemma stream_synced_pending:
  assumes "stream_synced k st"
  shows "length (delivered_to st d) \<le> length (chunks st)"
proof -
  have "set (delivered_to st d) \<subseteq> {0..<int (length (chunks st))}" "distinct (delivered_to st d)"
    using assms by (simp_all add: stream_synced_def stream_wf_def)
  then show ?thesis
    using card_mono [of "{0..<int (length (chunks st))}" "set (delivered_to st d)"] distinct_card by fastforce
qed

lemma km_synced_pending: "km_synced k km \<Longrightarrow> int (km_pending k km) = undelivered k A km"
  using stream_synced_pending by (auto simp: km_synced_def km_pending_def undelivered_def)

lemma km_supply_synced:
  assumes "km_synced k km"
  shows "km_synced k (snd (km_supply env k b h km)) \<and> undelivered k A (snd (km_supply env k b h km)) = undelivered k A km + 1"
proof -
  from assms obtain st where st: "map_of km k = Some st" "stream_synced k st" by (auto simp: km_synced_def)
  then have "stream_synced k (st\<lparr>chunks := chunks st @ [\<lparr>data = b, availableAt = now_ms env, chunk_hops = h\<rparr>]\<rparr>)"
    using supply_stream_wf [of st] by (simp add: stream_synced_def)
  with st show ?thesis
    by (simp add: km_synced_def km_supply_def undelivered_def stream_synced_def Let_def)
qed

lemma getKey_none_pending:
  assumes "km_ready env k km" "undelivered k A km = 0"
  shows "\<exists>r. getKey env A k None 0 km = (r, km) \<and> via r = T13 \<and> res_status r = Some (statusCode INSUFFICIENT_KEY)"
proof -
  from assms obtain st where st: "map_of km k = Some st" "stream_synced k st" "routeUp env"
    by (auto simp: km_ready_def km_synced_def)
  have "\<not> nextFor st A < int (length (chunks st))"
    using nextFor_in_range [of st A] st assms(2) by (auto simp: stream_synced_def undelivered_def)
  moreover have "nextFor st A \<notin> set (delivered_to st A)"
    using nextFor_loop_least [of 0 "delivered_to st A"] by (simp add: nextFor_def INDEX_ORIGIN_def)
  ultimately show ?thesis
    using st by (simp add: getKey_def stream_synced_def js_index_def INDEX_ORIGIN_def res_defs Let_def)
qed

lemma getKey_pair:
  assumes "km_ready env k km" "0 < undelivered k A km"
  shows "\<exists>a b km1 km2 i dat. getKey env A k None 0 km = (a, km1) \<and> getKey env B k (Some i) 0 km1 = (b, km2)
    \<and> via a = T11 \<and> via b = T11 \<and> index a = Some i \<and> index b = Some i \<and> 0 \<le> i
    \<and> Key_buffer a = Some dat \<and> Key_buffer b = Some dat
    \<and> res_status a = Some (statusCode SUCCESSFUL) \<and> res_status b = Some (statusCode SUCCESSFUL)
    \<and> km_ready env k km2 \<and> undelivered k A km2 = undelivered k A km - 1 \<and> chunkBytes k km2 = chunkBytes k km
    \<and> map fst km2 = map fst km"
proof -
  from assms obtain st where st: "map_of km k = Some st" "stream_synced k st" "routeUp env"
    by (auto simp: km_ready_def km_synced_def)
  define i where "i = nextFor st A"
  have wf: "stream_wf st" and es: "st_state st = ESTABLISHED" and eq: "delivered_to st A = delivered_to st B"
    using st(2) by (simp_all add: stream_synced_def)
  have i: "i < int (length (chunks st))" "0 \<le> i" "i \<notin> set (delivered_to st A)"
    using nextFor_in_range [of st A] wf es assms(2) st(1) nextFor_loop_least [of 0 "delivered_to st A"]
    by (auto simp: undelivered_def i_def nextFor_def INDEX_ORIGIN_def)
  then obtain c where c: "js_index (chunks st) i = Some c" by (auto simp: js_index_def)
  define st1 where "st1 = st\<lparr>delivered_to := (delivered_to st)(A := delivered_to st A @ [i])\<rparr>"
  define st2 where "st2 = st1\<lparr>delivered_to := (delivered_to st1)(B := delivered_to st1 B @ [i])\<rparr>"
  let ?km1 = "AList.update k st1 km" and ?km2 = "AList.update k st2 (AList.update k st1 km)"
  have a: "getKey env A k None 0 km = ((status_res SUCCESSFUL T11)\<lparr>index := Some i, Key_buffer := Some (data c)\<rparr>, ?km1)"
    using st c i es by (simp add: getKey_def res_defs INDEX_ORIGIN_def Let_def st1_def flip: i_def)
  have b: "getKey env B k (Some i) 0 ?km1 = ((status_res SUCCESSFUL T11)\<lparr>index := Some i, Key_buffer := Some (data c)\<rparr>, ?km2)"
    using st c i es eq by (simp add: getKey_def res_defs INDEX_ORIGIN_def Let_def st1_def st2_def)
  have "stream_wf st1" unfolding st1_def using wf i es by (intro read_stream_wf) simp_all
  moreover have "delivered_to st1 B = delivered_to st A" using eq by (simp add: st1_def)
  moreover have "chunks st1 = chunks st" "st_state st1 = ESTABLISHED" using es by (simp_all add: st1_def)
  ultimately have "stream_wf st2" unfolding st2_def using i by (intro read_stream_wf) simp_all
  then have "stream_synced k st2"
    using es eq st(2) by (simp add: stream_synced_def st2_def st1_def)
  then have r: "km_ready env k ?km2" using st(3) by (simp add: km_ready_def km_synced_def)
  have keys: "map fst ?km2 = map fst km"
    using st(1) by (simp add: update_keys) (metis map_of_SomeD image_eqI fst_conv)
  show ?thesis
    using a b r keys i(2) st(1) by (auto simp: res_defs undelivered_def chunkBytes_def st1_def st2_def)
qed

interpretation lab_stream: paired_stream "km_ready env k" "km_pending k" "km_give env k h" "km_read env k" for env k h
proof
  fix km b
  assume r: "km_ready env k km"
  then show "km_ready env k (km_give env k h b km)"
    using km_supply_synced by (simp add: km_ready_def km_give_def)
  from r show "km_pending k (km_give env k h b km) = Suc (km_pending k km)"
    using km_supply_synced [of k km env b h] km_synced_pending [of k km]
    by (simp add: km_ready_def km_give_def km_pending_def split: if_splits)
next
  fix km
  assume r: "km_ready env k km" and z: "km_pending k km = 0"
  then have "undelivered k A km = 0" using km_synced_pending [of k km] by (simp add: km_ready_def)
  with getKey_none_pending [OF r] show "km_read env k A None km = (None, km)"
    by (auto simp: km_read_def)
next
  fix km m
  assume r: "km_ready env k km" and m: "km_pending k km = Suc m"
  then have u: "undelivered k A km = int (Suc m)" using km_synced_pending [of k km] by (simp add: km_ready_def)
  from getKey_pair [OF r] u obtain a b km1 km2 i dat where
    g: "getKey env A k None 0 km = (a, km1)" "getKey env B k (Some i) 0 km1 = (b, km2)"
      "index a = Some i" "index b = Some i" "Key_buffer a = Some dat" "Key_buffer b = Some dat"
      "res_status a = Some (statusCode SUCCESSFUL)" "res_status b = Some (statusCode SUCCESSFUL)"
      "km_ready env k km2" "undelivered k A km2 = undelivered k A km - 1" by auto
  then have "km_read env k A None km = (Some (i, dat), km1)" "km_read env k B (Some i) km1 = (Some (i, dat), km2)"
    "km_pending k km2 = m"
    using u by (simp_all add: km_read_def km_pending_def)
  with g(9) show "\<exists>i b s1 s2. km_read env k A None km = (Some (i, b), s1) \<and> km_read env k B (Some i) s1 = (Some (i, b), s2)
      \<and> km_ready env k s2 \<and> km_pending k s2 = m" by blast
qed

end
