(* ===== verification/Networks.thy ===== *)
theory Networks
  imports Routing
begin

text \<open>
  The published networks of the Protocol Lab: \<^verbatim>\<open>lib/sim/protocolLab/publishedNetworks.ts\<close>. A number
  is kept as the source prints it, with its unit, and \<open>quantityValue\<close> reads it. The five presets and
  the three cited scenarios are the tables of the file, row for row. Bibliography is not carried: the
  \<^verbatim>\<open>ref\<close> and \<^verbatim>\<open>provenance\<close> of a number, the citations, licences and notes of a preset.
\<close>

section \<open>Quantities\<close>

datatype qunit = U_km | U_m | U_dB | U_bit_s | U_bps | U_kbit_s | U_kbps | U_Mbit_s | U_Mbps
  | U_percent | U_MiB | U_keys | U_keys_s | U_s | U_min | U_days

record quantity =
  printed :: string
  q_unit :: qunit
  qualifier :: "string option"
  q_sd :: "string option"

definition qty :: "string \<Rightarrow> qunit \<Rightarrow> quantity" where
  "qty p u = \<lparr>printed = p, q_unit = u, qualifier = None, q_sd = None\<rparr>"

definition MIB_BITS :: rat where
  "MIB_BITS = 1048576 * 8"

fun to_base :: "qunit \<Rightarrow> rat" where
  "to_base U_km = 1"
| "to_base U_m = 1 / 1000"
| "to_base U_dB = 1"
| "to_base U_bit_s = 1"
| "to_base U_bps = 1"
| "to_base U_kbit_s = 1000"
| "to_base U_kbps = 1000"
| "to_base U_Mbit_s = 1000000"
| "to_base U_Mbps = 1000000"
| "to_base U_percent = 1 / 100"
| "to_base U_MiB = MIB_BITS"
| "to_base U_keys = 1"
| "to_base U_keys_s = 1"
| "to_base U_s = 1"
| "to_base U_min = 60"
| "to_base U_days = 86400"

text \<open>
  A plain decimal, \<^verbatim>\<open>/^-?\d+(?:\.(\d+))?$/\<close>: its sign, its integer digits and its decimals. \<^verbatim>\<open>Number\<close>
  also reads exponents, blanks and other radices; no quantity of the file is printed that way, and the
  model takes such a text for one that is not a number.
\<close>

definition is_digit :: "char \<Rightarrow> bool" where
  "is_digit c \<longleftrightarrow> c \<in> set ''0123456789''"

definition plain_decimal :: "string \<Rightarrow> (bool \<times> string \<times> string) option" where
  "plain_decimal s =
     (let neg = (take 1 s = ''-''); t = (if neg then drop 1 s else s);
          ds = takeWhile is_digit t; rest = dropWhile is_digit t
      in if ds = [] then None
         else if rest = [] then Some (neg, ds, [])
         else if hd rest = CHR 0x2E \<and> tl rest \<noteq> [] \<and> list_all is_digit (tl rest) then Some (neg, ds, tl rest)
         else None)"

definition digits_value :: "string \<Rightarrow> nat" where
  "digits_value s = foldl (\<lambda>n c. 10 * n + (of_char c - 48)) 0 s"

definition js_Number :: "string \<Rightarrow> rat option" where
  "js_Number s = (case plain_decimal s of None \<Rightarrow> None
     | Some (neg, ds, fs) \<Rightarrow> Some ((if neg then -1 else 1)
         * (of_nat (digits_value ds) + of_nat (digits_value fs) / 10 ^ length fs)))"

text \<open>\<open>None\<close> is the \<^verbatim>\<open>throw\<close>.\<close>

definition quantityValue :: "quantity \<Rightarrow> rat option" where
  "quantityValue q = map_option (\<lambda>n. n * to_base (q_unit q)) (js_Number (printed q))"

definition quantityHalfStep :: "quantity \<Rightarrow> rat option" where
  "quantityHalfStep q = map_option (\<lambda>(neg, ds, fs). 1/2 * (1 / 10 ^ length fs) * to_base (q_unit q))
     (plain_decimal (printed q))"

section \<open>Presets\<close>

datatype protocol = P_decoy_bb84 | P_sarg04 | P_bb84_or_sarg04 | P_cow | P_dps | P_bbm92
  | P_entanglement | P_cv_qkd | P_multiple_systems | P_none

definition MODEL_ELIGIBLE :: "protocol list" where
  "MODEL_ELIGIBLE = [P_decoy_bb84]"

datatype link_kind = Qkd | Non_qkd_keystore
datatype medium = Fibre | Free_space
datatype free_play = FP_keys | FP_route_only

record preset_node =
  n_id :: string
  n_label :: string
  n_x :: int
  n_y :: int
  n_alias :: "string list"

definition pnode :: "string \<Rightarrow> string \<Rightarrow> int \<Rightarrow> int \<Rightarrow> string list \<Rightarrow> preset_node" where
  "pnode i l x y al = \<lparr>n_id = i, n_label = l, n_x = x, n_y = y, n_alias = al\<rparr>"

record preset_link =
  l_id :: string
  l_a :: string
  l_b :: string
  l_kind :: link_kind
  l_system :: "string option"
  l_protocol :: protocol
  l_medium :: "medium option"
  l_length :: "quantity option"
  l_lengthAlt :: "quantity list"
  l_loss :: "quantity option"
  l_rate :: "quantity option"
  l_qber :: "quantity option"
  l_aerial :: "quantity option"
  l_buried :: "quantity option"
  l_campaign :: "quantity option"

record topology_preset =
  p_id :: string
  p_title :: string
  p_viewBox :: "int \<times> int"
  p_nodes :: "preset_node list"
  p_links :: "preset_link list"
  p_freePlay :: free_play
  p_freePlayWhy :: string
  p_defaultDemand :: "string \<times> string"

datatype fail_reason = Outage | Qber_alarm
datatype failure_target = Link_target string "fail_reason option" | Node_target string

definition madLink :: "string \<Rightarrow> string \<Rightarrow> string \<Rightarrow> string \<Rightarrow> string \<Rightarrow> preset_link" where
  "madLink i a b km db = \<lparr>l_id = i, l_a = a, l_b = b, l_kind = Qkd,
     l_system = None, l_protocol = P_multiple_systems, l_medium = Some Fibre,
     l_length = Some (qty km U_km), l_lengthAlt = [], l_loss = Some (qty db U_dB),
     l_rate = None, l_qber = None, l_aerial = None, l_buried = None, l_campaign = None\<rparr>"

definition cambridge :: topology_preset where
  "cambridge = \<lparr>p_id = ''cambridge-2019'', p_title = ''Cambridge quantum network (2019)'', p_viewBox = (520, 300),
    p_nodes = [pnode ''CAPE'' ''CAPE'' 100 150 [],
      pnode ''TREL'' ''TREL'' 420 70 [],
      pnode ''ENGI'' ''ENGI'' 390 235 []],
    p_links = [
      \<lparr>l_id = ''CAPE-TREL'', l_a = ''CAPE'', l_b = ''TREL'', l_kind = Qkd,
       l_system = Some ''Toshiba'', l_protocol = P_decoy_bb84, l_medium = Some Fibre,
       l_length = Some (qty ''10.6'' U_km), l_lengthAlt = [], l_loss = Some (qty ''3.9'' U_dB),
       l_rate = Some ((qty ''2.58'' U_Mbps)\<lparr>qualifier := Some ''average''\<rparr>),
       l_qber = None, l_aerial = None, l_buried = None, l_campaign = None\<rparr>,
      \<lparr>l_id = ''TREL-ENGI'', l_a = ''TREL'', l_b = ''ENGI'', l_kind = Qkd,
       l_system = Some ''Toshiba'', l_protocol = P_decoy_bb84, l_medium = Some Fibre,
       l_length = Some (qty ''9.8'' U_km), l_lengthAlt = [], l_loss = Some (qty ''4.2'' U_dB),
       l_rate = Some ((qty ''2.40'' U_Mbps)\<lparr>qualifier := Some ''average''\<rparr>),
       l_qber = None, l_aerial = None, l_buried = None, l_campaign = None\<rparr>,
      \<lparr>l_id = ''ENGI-CAPE'', l_a = ''ENGI'', l_b = ''CAPE'', l_kind = Qkd,
       l_system = Some ''Toshiba'', l_protocol = P_decoy_bb84, l_medium = Some Fibre,
       l_length = Some (qty ''5.0'' U_km), l_lengthAlt = [], l_loss = Some ((qty ''2.5'' U_dB)\<lparr>qualifier := Some ''~''\<rparr>),
       l_rate = Some ((qty ''2.22'' U_Mbps)\<lparr>qualifier := Some ''average''\<rparr>),
       l_qber = None, l_aerial = None, l_buried = None, l_campaign = None\<rparr>],
    p_freePlay = FP_keys, p_freePlayWhy = ''All three links have a reported average rate.'',
    p_defaultDemand = (''TREL'', ''CAPE'')\<rparr>"

definition secoqc :: topology_preset where
  "secoqc = \<lparr>p_id = ''secoqc-vienna-2008'', p_title = ''SECOQC Vienna (2008)'', p_viewBox = (640, 320),
    p_nodes = [pnode ''STP'' ''STP'' 70 250 [],
      pnode ''BRT'' ''BRT'' 230 250 [],
      pnode ''GUD'' ''GUD'' 440 250 [],
      pnode ''SIE'' ''SIE'' 230 80 [],
      pnode ''ERD'' ''ERD'' 440 80 [],
      pnode ''FOR'' ''FOR'' 580 80 [''FRM'']],
    p_links = [
      \<lparr>l_id = ''STP-BRT'', l_a = ''STP'', l_b = ''BRT'', l_kind = Qkd,
       l_system = Some ''COW'', l_protocol = P_cow, l_medium = Some Fibre,
       l_length = Some (qty ''85'' U_km), l_lengthAlt = [qty ''83'' U_km, qty ''82'' U_km], l_loss = None,
       l_rate = None,
       l_qber = None, l_aerial = None, l_buried = None, l_campaign = None\<rparr>,
      \<lparr>l_id = ''SIE-BRT'', l_a = ''SIE'', l_b = ''BRT'', l_kind = Qkd,
       l_system = Some ''Toshiba'', l_protocol = P_decoy_bb84, l_medium = Some Fibre,
       l_length = Some (qty ''32'' U_km), l_lengthAlt = [qty ''33'' U_km], l_loss = Some (qty ''7.5'' U_dB),
       l_rate = Some ((qty ''3.1'' U_kbit_s)\<lparr>qualifier := Some ''24 h average''\<rparr>),
       l_qber = Some ((qty ''2.6'' U_percent)\<lparr>qualifier := Some ''average''\<rparr>), l_aerial = None, l_buried = None, l_campaign = None\<rparr>,
      \<lparr>l_id = ''SIE-ERD'', l_a = ''SIE'', l_b = ''ERD'', l_kind = Qkd,
       l_system = Some ''Entangled photons'', l_protocol = P_entanglement, l_medium = Some Fibre,
       l_length = Some (qty ''16'' U_km), l_lengthAlt = [], l_loss = None,
       l_rate = Some (qty ''2.5'' U_kbit_s),
       l_qber = Some (qty ''3.5'' U_percent), l_aerial = None, l_buried = None, l_campaign = None\<rparr>,
      \<lparr>l_id = ''ERD-FOR'', l_a = ''ERD'', l_b = ''FOR'', l_kind = Qkd,
       l_system = Some ''Free-space'', l_protocol = P_decoy_bb84, l_medium = Some Free_space,
       l_length = Some (qty ''80'' U_m), l_lengthAlt = [], l_loss = None,
       l_rate = Some ((qty ''17'' U_kbit_s)\<lparr>qualifier := Some ''up to''\<rparr>),
       l_qber = Some (qty ''2.3'' U_percent), l_aerial = None, l_buried = None, l_campaign = None\<rparr>,
      \<lparr>l_id = ''ERD-GUD'', l_a = ''ERD'', l_b = ''GUD'', l_kind = Qkd,
       l_system = Some ''CV'', l_protocol = P_cv_qkd, l_medium = Some Fibre,
       l_length = Some (qty ''6'' U_km), l_lengthAlt = [qty ''6.2'' U_km], l_loss = Some ((qty ''2.8'' U_dB)\<lparr>qualifier := Some ''approx.''\<rparr>),
       l_rate = Some ((qty ''8'' U_kbit_s)\<lparr>qualifier := Some ''average''\<rparr>),
       l_qber = None, l_aerial = None, l_buried = None, l_campaign = None\<rparr>,
      \<lparr>l_id = ''ERD-BRT'', l_a = ''ERD'', l_b = ''BRT'', l_kind = Qkd,
       l_system = Some ''id Quantique (idQ-1)'', l_protocol = P_sarg04, l_medium = Some Fibre,
       l_length = Some (qty ''25'' U_km), l_lengthAlt = [], l_loss = Some (qty ''5.75'' U_dB),
       l_rate = Some ((qty ''1'' U_kbit_s)\<lparr>qualifier := Some ''almost equal to the SECOQC criterion of''\<rparr>),
       l_qber = None, l_aerial = None, l_buried = None, l_campaign = None\<rparr>,
      \<lparr>l_id = ''SIE-GUD'', l_a = ''SIE'', l_b = ''GUD'', l_kind = Qkd,
       l_system = Some ''id Quantique (idQ-2)'', l_protocol = P_bb84_or_sarg04, l_medium = Some Fibre,
       l_length = Some (qty ''22'' U_km), l_lengthAlt = [], l_loss = None,
       l_rate = None,
       l_qber = None, l_aerial = None, l_buried = None, l_campaign = None\<rparr>,
      \<lparr>l_id = ''BRT-GUD'', l_a = ''BRT'', l_b = ''GUD'', l_kind = Qkd,
       l_system = Some ''id Quantique (idQ-3)'', l_protocol = P_bb84_or_sarg04, l_medium = Some Fibre,
       l_length = Some (qty ''19'' U_km), l_lengthAlt = [], l_loss = None,
       l_rate = None,
       l_qber = None, l_aerial = None, l_buried = None, l_campaign = None\<rparr>],
    p_freePlay = FP_keys, p_freePlayWhy = ''Five of eight links have a reported rate; the rest generate nothing in the simulation and say so.'',
    p_defaultDemand = (''FOR'', ''BRT'')\<rparr>"

definition tokyo :: topology_preset where
  "tokyo = \<lparr>p_id = ''tokyo-2010'', p_title = ''Tokyo QKD Network (2010)'', p_viewBox = (640, 320),
    p_nodes = [pnode ''K3'' ''Koganei-3'' 70 250 [],
      pnode ''K2'' ''Koganei-2'' 230 250 [],
      pnode ''O2'' ''Otemachi-2'' 410 250 [],
      pnode ''HONGO'' ''Hongo'' 570 250 [],
      pnode ''K1'' ''Koganei-1'' 230 80 [],
      pnode ''O1'' ''Otemachi-1'' 410 80 []],
    p_links = [
      \<lparr>l_id = ''K1-O1'', l_a = ''K1'', l_b = ''O1'', l_kind = Qkd,
       l_system = Some ''NEC-NICT'', l_protocol = P_decoy_bb84, l_medium = Some Fibre,
       l_length = Some (qty ''45'' U_km), l_lengthAlt = [], l_loss = Some (qty ''14.5'' U_dB),
       l_rate = Some ((qty ''81.7'' U_kbps)\<lparr>qualifier := Some ''average, asymptotic estimate,''\<rparr>),
       l_qber = Some ((qty ''2.7'' U_percent)\<lparr>qualifier := Some ''average''\<rparr>), l_aerial = None, l_buried = None, l_campaign = None\<rparr>,
      \<lparr>l_id = ''K1-K2'', l_a = ''K1'', l_b = ''K2'', l_kind = Qkd,
       l_system = Some ''NTT-NICT'', l_protocol = P_dps, l_medium = Some Fibre,
       l_length = Some (qty ''90'' U_km), l_lengthAlt = [], l_loss = Some (qty ''27'' U_dB),
       l_rate = Some ((qty ''2.1'' U_kbps)\<lparr>qualifier := Some ''about''\<rparr>),
       l_qber = Some ((qty ''2.3'' U_percent)\<lparr>qualifier := Some ''about''\<rparr>), l_aerial = None, l_buried = None, l_campaign = None\<rparr>,
      \<lparr>l_id = ''O1-O2'', l_a = ''O1'', l_b = ''O2'', l_kind = Qkd,
       l_system = Some ''Mitsubishi'', l_protocol = P_decoy_bb84, l_medium = Some Fibre,
       l_length = Some (qty ''24'' U_km), l_lengthAlt = [], l_loss = Some (qty ''13'' U_dB),
       l_rate = Some (qty ''2'' U_kbps),
       l_qber = Some ((qty ''4.5'' U_percent)\<lparr>qualifier := Some ''about''\<rparr>), l_aerial = None, l_buried = None, l_campaign = None\<rparr>,
      \<lparr>l_id = ''K3-K2'', l_a = ''K3'', l_b = ''K2'', l_kind = Qkd,
       l_system = Some ''All Vienna'', l_protocol = P_bbm92, l_medium = Some Fibre,
       l_length = Some (qty ''1'' U_km), l_lengthAlt = [], l_loss = Some (qty ''1'' U_dB),
       l_rate = None,
       l_qber = None, l_aerial = None, l_buried = None, l_campaign = None\<rparr>,
      \<lparr>l_id = ''K2-O2'', l_a = ''K2'', l_b = ''O2'', l_kind = Qkd,
       l_system = Some ''TREL'', l_protocol = P_decoy_bb84, l_medium = Some Fibre,
       l_length = Some (qty ''45'' U_km), l_lengthAlt = [], l_loss = Some (qty ''14.5'' U_dB),
       l_rate = Some ((qty ''304'' U_kbps)\<lparr>qualifier := Some ''24 h average''\<rparr>),
       l_qber = None, l_aerial = None, l_buried = None, l_campaign = None\<rparr>,
      \<lparr>l_id = ''O2-HONGO'', l_a = ''O2'', l_b = ''HONGO'', l_kind = Qkd,
       l_system = Some ''IDQ'', l_protocol = P_sarg04, l_medium = Some Fibre,
       l_length = Some (qty ''13'' U_km), l_lengthAlt = [], l_loss = Some (qty ''11'' U_dB),
       l_rate = None,
       l_qber = Some ((qty ''2'' U_percent)\<lparr>qualifier := Some ''approximately''\<rparr>), l_aerial = None, l_buried = None, l_campaign = None\<rparr>],
    p_freePlay = FP_keys, p_freePlayWhy = ''Four of six links have a single reported rate; the other two generate nothing in the simulation and say so.'',
    p_defaultDemand = (''K1'', ''O2'')\<rparr>"

definition madqci :: topology_preset where
  "madqci = \<lparr>p_id = ''madqci-2024'', p_title = ''MadQCI, Madrid (2024)'', p_viewBox = (700, 320),
    p_nodes = [pnode ''QUIRON'' (''Quir'' @ [CHR 0xC3] @ [CHR 0xB3] @ ''n'') 60 140 [],
      pnode ''QUIJOTE'' ''Quijote'' 190 140 [],
      pnode ''QUINTIN'' (''Quint'' @ [CHR 0xC3] @ [CHR 0xAD] @ ''n'') 190 270 [],
      pnode ''QUEVEDO'' ''Quevedo'' 340 140 [],
      pnode ''QUIJANO'' ''Quijano'' 340 270 [],
      pnode ''QUINTO'' ''Quinto'' 490 270 [],
      pnode ''NORTE'' ''Norte'' 490 140 [],
      pnode ''CONCEPCION'' (''Concepci'' @ [CHR 0xC3] @ [CHR 0xB3] @ ''n'') 630 70 [],
      pnode ''DISTRITO'' ''Distrito'' 630 210 []],
    p_links = [
      madLink ''QUIRON-QUIJOTE'' ''QUIRON'' ''QUIJOTE'' ''24.5'' ''8.72'',
      madLink ''QUIJOTE-QUINTIN'' ''QUIJOTE'' ''QUINTIN'' ''24.1'' ''7.47'',
      (madLink ''QUIJOTE-QUEVEDO'' ''QUIJOTE'' ''QUEVEDO'' ''7.8'' ''1.40'')\<lparr>l_lengthAlt := [qty ''7.4'' U_km]\<rparr>,
      madLink ''QUEVEDO-NORTE'' ''QUEVEDO'' ''NORTE'' ''3.9'' ''3'',
      madLink ''NORTE-CONCEPCION'' ''NORTE'' ''CONCEPCION'' ''8.1'' ''2.9'',
      (madLink ''NORTE-DISTRITO'' ''NORTE'' ''DISTRITO'' ''15'' ''8.3'')\<lparr>l_lengthAlt := [qty ''15.0'' U_km]\<rparr>,
      madLink ''CONCEPCION-DISTRITO'' ''CONCEPCION'' ''DISTRITO'' ''15.3'' ''14.3'',
      madLink ''QUEVEDO-QUIJANO'' ''QUEVEDO'' ''QUIJANO'' ''33.1'' ''11.8'',
      madLink ''QUIJANO-QUINTO'' ''QUIJANO'' ''QUINTO'' ''1.9'' ''2.0''],
    p_freePlay = FP_route_only, p_freePlayWhy = (''Table 1'' @ [CHR 0x27] @ ''s rates belong to individual systems, some per direction and from different periods, so this release binds no rate to a span. Routes are chosen by which spans are up; nothing is counted.''),
    p_defaultDemand = (''QUIRON'', ''DISTRITO'')\<rparr>"

definition thuringia :: topology_preset where
  "thuringia = \<lparr>p_id = ''thuringia-2026'', p_title = ''Thuringia medical-data chain (2026)'', p_viewBox = (640, 260),
    p_nodes = [pnode ''SND'' ''SND'' 70 130 [],
      pnode ''ERF'' ''ERF'' 240 130 [],
      pnode ''IOF'' ''IOF'' 410 130 [],
      pnode ''UKJ'' ''UKJ'' 570 130 []],
    p_links = [
      \<lparr>l_id = ''SND-ERF'', l_a = ''SND'', l_b = ''ERF'', l_kind = Qkd,
       l_system = Some ''Entangled photons (BBM92)'', l_protocol = P_bbm92, l_medium = Some Fibre,
       l_length = Some (qty ''70'' U_km), l_lengthAlt = [], l_loss = Some ((qty ''17'' U_dB)\<lparr>qualifier := Some ''>''\<rparr>),
       l_rate = Some ((qty ''12.7'' U_bps)\<lparr>qualifier := Some ''average'', q_sd := Some ''10.3''\<rparr>),
       l_qber = Some ((qty ''13.3'' U_percent)\<lparr>qualifier := Some ''average'', q_sd := Some ''9.6''\<rparr>), l_aerial = Some (qty ''51'' U_km), l_buried = Some (qty ''19'' U_km), l_campaign = Some (qty ''22'' U_days)\<rparr>,
      \<lparr>l_id = ''ERF-IOF'', l_a = ''ERF'', l_b = ''IOF'', l_kind = Qkd,
       l_system = Some ''Entangled photons (BBM92)'', l_protocol = P_bbm92, l_medium = Some Fibre,
       l_length = Some (qty ''69'' U_km), l_lengthAlt = [(qty ''75'' U_km)\<lparr>qualifier := Some ''approximately''\<rparr>], l_loss = Some ((qty ''21'' U_dB)\<lparr>qualifier := Some ''>''\<rparr>),
       l_rate = Some ((qty ''22.2'' U_bps)\<lparr>q_sd := Some ''4.7''\<rparr>),
       l_qber = Some ((qty ''6.1'' U_percent)\<lparr>qualifier := Some ''average'', q_sd := Some ''0.8''\<rparr>), l_aerial = Some (qty ''4'' U_km), l_buried = Some ((qty ''65'' U_km)\<lparr>qualifier := Some ''approximately''\<rparr>), l_campaign = Some (qty ''2'' U_days)\<rparr>,
      \<lparr>l_id = ''IOF-UKJ'', l_a = ''IOF'', l_b = ''UKJ'', l_kind = Non_qkd_keystore,
       l_system = None, l_protocol = P_none, l_medium = None,
       l_length = None, l_lengthAlt = [], l_loss = None,
       l_rate = None,
       l_qber = None, l_aerial = None, l_buried = None, l_campaign = None\<rparr>],
    p_freePlay = FP_keys, p_freePlayWhy = ''Both QKD links have a reported rate; the keystore hop is never routed.'',
    p_defaultDemand = (''SND'', ''IOF'')\<rparr>"

definition PRESETS :: "topology_preset list" where
  "PRESETS = [cambridge, secoqc, tokyo, madqci, thuringia]"

definition DEFAULT_PRESET_ID :: string where
  "DEFAULT_PRESET_ID = ''cambridge-2019''"

definition presetById :: "string \<Rightarrow> topology_preset option" where
  "presetById i = List.find (\<lambda>p. p_id p = i) PRESETS"

section \<open>Scenarios\<close>

record scenario_event =
  ev_id :: string
  ev_label :: string
  ev_fail :: bool
  ev_target :: failure_target

datatype generation = Gen_equals_demand quantity | Gen_none | Gen_unquantified

datatype scenario_kind =
    Stores quantity "(string \<times> quantity) list" "(string \<times> generation) list"
  | Service_buffer quantity quantity quantity string
  | Route_only

record scenario =
  s_id :: string
  s_presetId :: string
  s_title :: string
  s_summary :: string
  s_tick_seconds :: rat
  s_from :: string
  s_to :: string
  s_rate :: quantity
  s_preferredRoute :: "string list option"
  s_notInRun :: "string list"
  s_events :: "scenario_event list"
  s_published_routes :: "string list list"
  s_published_note :: string
  s_limits :: "string list"
  s_kind :: scenario_kind

definition secoqcReroute :: scenario where
  "secoqcReroute = \<lparr>s_id = ''secoqc-reroute-2008'', s_presetId = ''secoqc-vienna-2008'',
    s_title = ''SECOQC re-routing under key exhaustion'',
    s_summary = ''An application draws about 1 KiB/s between FOR and BRT while most devices are off; routes fail over as link stores reach their minimum.'',
    s_tick_seconds = 60, s_from = ''FOR'', s_to = ''BRT'', s_rate = (qty ''8192'' U_bit_s)\<lparr>qualifier := Some ''approximately''\<rparr>,
    s_preferredRoute = None, s_notInRun = [''SIE-GUD'', ''STP-BRT''],
    s_events = [],
    s_published_routes = [[''FOR'', ''ERD'', ''BRT''], [''FOR'', ''ERD'', ''SIE'', ''BRT''], [''FOR'', ''ERD'', ''GUD'', ''BRT'']],
    s_published_note = ''Route 1 for about an hour, route 2 until minute 144, route 3 until minute 175, then no route.'',
    s_limits = [''ERD-SIE, SIE-BRT and ERD-BRT generated key during the run, but the source gives no rate, so the replay generates none there: its route lifetimes are lower bounds. Route 2 lasts about 68 minutes in the replay against about 84 in the source for that reason.'',
      (''The source'' @ [CHR 0x27] @ ''s two brief recoveries of route 1 (fresh key reaching ERD-BRT) and GUD-BRT'' @ [CHR 0x27] @ ''s single key at minute 159 are not replayed.''),
      (''The routing rule -- fewest hops first, then the widest bottleneck -- is this project'' @ [CHR 0x27] @ ''s inference: the source does not state its metric, and pure widest-bottleneck routing would pick route 2 first.'')],
    s_kind = Stores (qty ''2'' U_MiB)
      [(''ERD-FOR'', (qty ''12'' U_MiB)\<lparr>qualifier := Some ''approximately''\<rparr>),
       (''ERD-BRT'', (qty ''5.5'' U_MiB)\<lparr>qualifier := Some ''approximately''\<rparr>),
       (''SIE-ERD'', (qty ''6.6'' U_MiB)\<lparr>qualifier := Some ''approximately''\<rparr>),
       (''SIE-BRT'', (qty ''6'' U_MiB)\<lparr>qualifier := Some ''approximately''\<rparr>),
       (''ERD-GUD'', (qty ''3.8'' U_MiB)\<lparr>qualifier := Some ''approximately''\<rparr>),
       (''BRT-GUD'', (qty ''4.9'' U_MiB)\<lparr>qualifier := Some ''approximately''\<rparr>)]
      [(''ERD-FOR'', Gen_equals_demand (qty ''45'' U_min)),
       (''SIE-ERD'', Gen_unquantified),
       (''SIE-BRT'', Gen_unquantified),
       (''ERD-BRT'', Gen_unquantified),
       (''ERD-GUD'', Gen_none),
       (''BRT-GUD'', Gen_none)]\<rparr>"

definition tokyoReroute :: scenario where
  "tokyoReroute = \<lparr>s_id = ''tokyo-reroute-2010'', s_presetId = ''tokyo-2010'',
    s_title = ''Tokyo secure TV conference: attack and switch-over'',
    s_summary = ''A 128 kbps OTP video link from Koganei-1 to Otemachi-2 uses the route via Koganei-2; an attack on the 90 km link moves it to the route via Otemachi-1.'',
    s_tick_seconds = 1, s_from = ''K1'', s_to = ''O2'', s_rate = qty ''128'' U_kbps,
    s_preferredRoute = Some [''K1'', ''K2'', ''O2''], s_notInRun = [],
    s_events = [\<lparr>ev_id = ''attack-k1-k2'', ev_label = ''Attack the 90 km link (QBER alarm)'', ev_fail = True, ev_target = Link_target ''K1-K2'' (Some Qber_alarm)\<rparr>,
      \<lparr>ev_id = ''clear-k1-k2'', ev_label = ''Clear the alarm'', ev_fail = False, ev_target = Link_target ''K1-K2'' (None)\<rparr>],
    s_published_routes = [[''K1'', ''K2'', ''O2''], [''K1'', ''O1'', ''O2'']],
    s_published_note = ''The KMS detected the attack within seconds, stopped the link and switched to the secondary route before stored key ran out.'',
    s_limits = [(''The source does not state how much key the nodes held, and the 128 kbps demand is far above either route'' @ [CHR 0x27] @ ''s reported rate (about 2.1 and 2 kbps), which the source reconciles with stored key. So this replay checks only which links are up: rate sufficiency is not evaluated.'')],
    s_kind = Route_only\<rparr>"

definition cambridgeReroute :: scenario where
  "cambridgeReroute = \<lparr>s_id = ''cambridge-otp-reroute-2019'', s_presetId = ''cambridge-2019'',
    s_title = ''Cambridge global-key refill and link outage'',
    s_summary = ''A 100G encryptor pair between TREL and CAPE consumes global keys; the key store is refilled over one-time-pad tunnels, and a CAPE-TREL outage moves the refills round the ring.'',
    s_tick_seconds = 10, s_from = ''TREL'', s_to = ''CAPE'', s_rate = qty ''0.5'' U_keys_s,
    s_preferredRoute = None, s_notInRun = [],
    s_events = [\<lparr>ev_id = ''outage-cape-trel'', ev_label = ''CAPE-TREL outage'', ev_fail = True, ev_target = Link_target ''CAPE-TREL'' (Some Outage)\<rparr>,
      \<lparr>ev_id = ''restore-cape-trel'', ev_label = ''Restore CAPE-TREL'', ev_fail = False, ev_target = Link_target ''CAPE-TREL'' (None)\<rparr>],
    s_published_routes = [[''TREL'', ''CAPE''], [''TREL'', ''ENGI'', ''CAPE''], [''TREL'', ''CAPE'']],
    s_published_note = ''Refills run over CAPE-TREL; during the outage they run via ENGI; on restore they return to CAPE-TREL. Key requests kept succeeding throughout.'',
    s_limits = [''Link stores are not stated, so a link is usable while it is up and its reported average rate covers the refill within one tick.'',
      (''The size of a global key in bits is not stated as such; where bits are shown, the key size is this project'' @ [CHR 0x27] @ ''s config (protocol.out_bits_per_key), labelled as such.'')],
    s_kind = Service_buffer (qty ''1000'' U_keys) (qty ''800'' U_keys) (qty ''1000'' U_keys)
      (''The caption says the store is refilled when depleted TO 800 keys; the main text says when the keys consumed reach a threshold of 800. The caption'' @ [CHR 0x27] @ ''s reading is used; under the other the store would refill at 200.'')\<rparr>"

definition SCENARIOS :: "scenario list" where
  "SCENARIOS = [cambridgeReroute, secoqcReroute, tokyoReroute]"

definition scenariosFor :: "string \<Rightarrow> scenario list" where
  "scenariosFor pid = filter (\<lambda>s. s_presetId s = pid) SCENARIOS"

definition scenarioById :: "string \<Rightarrow> scenario option" where
  "scenarioById i = List.find (\<lambda>s. s_id s = i) SCENARIOS"

section \<open>The tables are well formed\<close>

text \<open>What the simulator takes from a quantity: it parses, and it is not negative.\<close>

definition quantity_ok :: "quantity \<Rightarrow> bool" where
  "quantity_ok q = (case quantityValue q of None \<Rightarrow> False | Some v \<Rightarrow> 0 \<le> v)"

definition quantity_plain :: "quantity \<Rightarrow> bool" where
  "quantity_plain q = (case plain_decimal (printed q) of None \<Rightarrow> False | Some (neg, ds, fs) \<Rightarrow> \<not> neg)"

lemma quantity_plain_ok: "quantity_plain q \<Longrightarrow> quantity_ok q"
proof -
  assume a: "quantity_plain q"
  have "0 \<le> to_base u" for u by (cases u) (simp_all add: MIB_BITS_def)
  with a show ?thesis
    by (auto simp: quantity_plain_def quantity_ok_def quantityValue_def js_Number_def split: option.splits prod.splits)
qed

lemma quantity_ok_code [code]:
  "quantity_ok q = (if quantity_plain q then True else case quantityValue q of None \<Rightarrow> False | Some v \<Rightarrow> 0 \<le> v)"
  using quantity_plain_ok by (auto simp: quantity_ok_def)

definition link_quantities :: "preset_link \<Rightarrow> quantity list" where
  "link_quantities l = l_lengthAlt l @ concat (map (\<lambda>q. case q of None \<Rightarrow> [] | Some v \<Rightarrow> [v])
     [l_length l, l_loss l, l_rate l, l_qber l, l_aerial l, l_buried l, l_campaign l])"

definition node_ids :: "topology_preset \<Rightarrow> string list" where
  "node_ids p = map n_id (p_nodes p)"

definition preset_graph :: "topology_preset \<Rightarrow> route_graph" where
  "preset_graph p = \<lparr>g_nodes = node_ids p,
     g_links = map (\<lambda>l. \<lparr>gl_id = l_id l, gl_a = l_a l, gl_b = l_b l\<rparr>) (filter (\<lambda>l. l_kind l = Qkd) (p_links p))\<rparr>"

definition few_paths :: "topology_preset \<Rightarrow> string \<Rightarrow> string \<Rightarrow> bool" where
  "few_paths p s d \<longleftrightarrow> length (simplePaths (preset_graph p) s d [] []) < MAX_SIMPLE_PATHS"

definition preset_wf :: "topology_preset \<Rightarrow> bool" where
  "preset_wf p \<longleftrightarrow> distinct (node_ids p) \<and> distinct (map l_id (p_links p))
     \<and> list_all (\<lambda>l. l_a l \<in> set (node_ids p) \<and> l_b l \<in> set (node_ids p) \<and> l_a l \<noteq> l_b l
          \<and> list_all quantity_ok (link_quantities l)) (p_links p)
     \<and> fst (p_defaultDemand p) \<in> set (node_ids p) \<and> snd (p_defaultDemand p) \<in> set (node_ids p)
     \<and> few_paths p (fst (p_defaultDemand p)) (snd (p_defaultDemand p))
     \<and> fst (p_defaultDemand p) \<noteq> snd (p_defaultDemand p)"

definition generation_ok :: "generation \<Rightarrow> bool" where
  "generation_ok g = (case g of Gen_equals_demand q \<Rightarrow> quantity_ok q | _ \<Rightarrow> True)"

definition kind_ok :: "topology_preset \<Rightarrow> scenario_kind \<Rightarrow> bool" where
  "kind_ok p k = (case k of
     Stores th st gen \<Rightarrow> quantity_ok th \<and> list_all (quantity_ok \<circ> snd) st \<and> list_all (generation_ok \<circ> snd) gen
       \<and> list_all (\<lambda>(i, _). i \<in> set (map l_id (p_links p))) st \<and> list_all (\<lambda>(i, _). i \<in> set (map fst st)) gen
   | Service_buffer c ra rt _ \<Rightarrow> quantity_ok c \<and> quantity_ok ra \<and> quantity_ok rt
   | Route_only \<Rightarrow> True)"

definition route_exists :: "topology_preset \<Rightarrow> string list \<Rightarrow> bool" where
  "route_exists p ns = list_ex (\<lambda>r. fst r = ns) (simplePaths (preset_graph p) (hd ns) (last ns) [] [])"

definition scenario_wf :: "scenario \<Rightarrow> bool" where
  "scenario_wf s = (case presetById (s_presetId s) of None \<Rightarrow> False | Some p \<Rightarrow>
     s_from s \<in> set (node_ids p) \<and> s_to s \<in> set (node_ids p) \<and> s_from s \<noteq> s_to s
     \<and> few_paths p (s_from s) (s_to s) \<and> quantity_ok (s_rate s) \<and> kind_ok p (s_kind s)
     \<and> list_all (\<lambda>i. i \<in> set (map l_id (p_links p))) (s_notInRun s)
     \<and> list_all (route_exists p) (s_published_routes s)
     \<and> list_all (\<lambda>r. hd r = s_from s \<and> last r = s_to s) (s_published_routes s))"

lemma published_tables_wf: "list_all preset_wf PRESETS \<and> list_all scenario_wf SCENARIOS"
proof -
  have "list_all preset_wf PRESETS"
    by code_simp
  moreover have "list_all scenario_wf SCENARIOS"
    by code_simp
  ultimately show ?thesis ..
qed

end
