(* ===== verification/Crypto.thy ===== *)
theory Crypto
  imports Prelude
begin

text \<open>
  \<^verbatim>\<open>lib/sim/crypto.ts\<close>. The platform's \<^verbatim>\<open>crypto.getRandomValues\<close> and the functions of
  \<^verbatim>\<open>@noble/hashes\<close> and \<^verbatim>\<open>@noble/ciphers\<close> are not in the repository: they are arguments of the model.
  The random source is a tape, read by draw number and length; the library is a record of functions,
  with \<open>None\<close> where it throws. What the sources rely on is stated by \<open>tape_ok\<close> and \<open>noble_ok\<close>: lengths,
  and the refusal of a key or nonce of another length.

  Strings are lists of 8-bit characters, their UTF-8 encoding, so \<^verbatim>\<open>TextEncoder.encode\<close> is a
  conversion of each character.
\<close>

type_synonym tape = "nat \<Rightarrow> nat \<Rightarrow> bytes"

record noble =
  hkdf_sha3_256 :: "bytes \<Rightarrow> bytes \<Rightarrow> bytes \<Rightarrow> nat \<Rightarrow> bytes"
  chacha20poly1305_encrypt :: "bytes \<Rightarrow> bytes \<Rightarrow> bytes \<Rightarrow> bytes \<Rightarrow> bytes option"

definition tape_ok :: "tape \<Rightarrow> bool" where
  "tape_ok tp \<longleftrightarrow> (\<forall>i n. length (tp i n) = n)"

definition noble_ok :: "noble \<Rightarrow> bool" where
  "noble_ok lib \<longleftrightarrow> (\<forall>ikm salt info. \<forall>n \<le> 255 * 32. length (hkdf_sha3_256 lib ikm salt info n) = n)
     \<and> (\<forall>key nonce aad pt. if length key = 32 \<and> length nonce = 12
          then \<exists>ct. chacha20poly1305_encrypt lib key nonce aad pt = Some ct \<and> length ct = length pt + 16
          else chacha20poly1305_encrypt lib key nonce aad pt = None)"

lemma tape_ok_length [simp]: "tape_ok tp \<Longrightarrow> length (tp i n) = n"
  by (simp add: tape_ok_def)

definition encodeUtf8 :: "string \<Rightarrow> bytes" where
  "encodeUtf8 s = map of_char s"

lemma length_encodeUtf8 [simp]: "length (encodeUtf8 s) = length s"
  by (simp add: encodeUtf8_def)

text \<open>The \<open>i\<close>-th draw of the run, and the number of the next.\<close>

definition randomBytes :: "tape \<Rightarrow> nat \<Rightarrow> nat \<Rightarrow> bytes \<times> nat" where
  "randomBytes tp n i = (tp i n, Suc i)"

definition hex_digit :: "nat \<Rightarrow> char" where
  "hex_digit n = ''0123456789abcdef'' ! n"

text \<open>\<^verbatim>\<open>x.toString(16).padStart(2, "0")\<close> of a byte is its two hexadecimal digits.\<close>

definition toHex :: "bytes \<Rightarrow> string" where
  "toHex b = concat (map (\<lambda>x. [hex_digit (unat x div 16), hex_digit (unat x mod 16)]) b)"

lemma length_toHex [simp]: "length (toHex b) = 2 * length b"
  by (induction b) (simp_all add: toHex_def)

lemma hex_digit_inj: "m < 16 \<Longrightarrow> n < 16 \<Longrightarrow> hex_digit m = hex_digit n \<Longrightarrow> m = n"
proof -
  have "distinct ''0123456789abcdef''" by code_simp
  then show "m < 16 \<Longrightarrow> n < 16 \<Longrightarrow> hex_digit m = hex_digit n \<Longrightarrow> m = n"
    unfolding hex_digit_def by (subst (asm) nth_eq_iff_index_eq) simp_all
qed

lemma toHex_inj [simp]: "toHex a = toHex b \<longleftrightarrow> a = b"
proof (induction a arbitrary: b)
  case Nil
  then show ?case by (cases b) (simp_all add: toHex_def)
next
  case (Cons x a)
  show ?case
  proof (cases b)
    case Nil
    then show ?thesis by (simp add: toHex_def)
  next
    case (Cons y c)
    have lt: "unat x < 256" "unat y < 256" using unsigned_less [of x] unsigned_less [of y] by simp_all
    have "x = y" if "hex_digit (unat x div 16) = hex_digit (unat y div 16)"
      "hex_digit (unat x mod 16) = hex_digit (unat y mod 16)"
    proof -
      from lt have d: "unat x div 16 < 16" "unat y div 16 < 16" by simp_all
      from hex_digit_inj [OF d that(1)] hex_digit_inj [OF _ _ that(2)]
      have "unat x = unat y" by (metis mod_less_divisor mult_div_mod_eq zero_less_numeral)
      then show ?thesis by (simp only: word_unat_eq_iff)
    qed
    with Cons.IH [of c] Cons show ?thesis by (auto simp: toHex_def)
  qed
qed

definition deriveHkdfSha3 :: "noble \<Rightarrow> bytes \<Rightarrow> bytes \<Rightarrow> string \<Rightarrow> bytes" where
  "deriveHkdfSha3 lib qkdKey pqcKey mode =
     hkdf_sha3_256 lib (qkdKey @ pqcKey) (encodeUtf8 ''pqcqkd-e2e'') (encodeUtf8 (''mode-'' @ mode)) 32"

lemma length_deriveHkdfSha3 [simp]: "noble_ok lib \<Longrightarrow> length (deriveHkdfSha3 lib q p m) = 32"
  by (simp add: deriveHkdfSha3_def noble_ok_def)

definition chachaSeal :: "noble \<Rightarrow> tape \<Rightarrow> bytes \<Rightarrow> bytes \<Rightarrow> nat \<Rightarrow> (bytes \<times> bytes) option \<times> nat" where
  "chachaSeal lib tp key plaintext i =
     (let (nonce, i) = randomBytes tp 12 i
      in (map_option (\<lambda>ct. (ct, nonce)) (chacha20poly1305_encrypt lib key nonce (encodeUtf8 ''alice->bob'') plaintext), i))"

definition chachaEncrypt :: "noble \<Rightarrow> tape \<Rightarrow> bytes \<Rightarrow> bytes \<Rightarrow> nat \<Rightarrow> (nat \<times> nat) option \<times> nat" where
  "chachaEncrypt lib tp key plaintext i =
     apfst (map_option (\<lambda>(ct, nonce). (length ct, length nonce))) (chachaSeal lib tp key plaintext i)"

lemma noble_ok_wrong: "noble_ok lib \<Longrightarrow> length key \<noteq> 32 \<Longrightarrow> chacha20poly1305_encrypt lib key n aad pt = None"
  unfolding noble_ok_def by metis

lemma chachaSeal_32:
  assumes "noble_ok lib" "tape_ok tp" "length key = 32"
  shows "\<exists>ct. chachaSeal lib tp key pt i = (Some (ct, tp i 12), Suc i) \<and> length ct = length pt + 16"
proof -
  have "\<exists>ct. chacha20poly1305_encrypt lib key (tp i 12) (encodeUtf8 ''alice->bob'') pt = Some ct \<and> length ct = length pt + 16"
    using assms unfolding noble_ok_def by (metis tape_ok_length)
  then show ?thesis by (auto simp: chachaSeal_def randomBytes_def)
qed

lemma chachaSeal_wrong_key:
  "noble_ok lib \<Longrightarrow> length key \<noteq> 32 \<Longrightarrow> chachaSeal lib tp key pt i = (None, Suc i)"
  by (simp add: chachaSeal_def randomBytes_def noble_ok_wrong)

lemma chachaEncrypt_32:
  "noble_ok lib \<Longrightarrow> tape_ok tp \<Longrightarrow> length key = 32 \<Longrightarrow>
   chachaEncrypt lib tp key pt i = (Some (length pt + 16, 12), Suc i)"
  using chachaSeal_32 [of lib tp key pt i] by (auto simp: chachaEncrypt_def)

lemma chachaEncrypt_wrong_key:
  "noble_ok lib \<Longrightarrow> length key \<noteq> 32 \<Longrightarrow> chachaEncrypt lib tp key pt i = (None, Suc i)"
  by (simp add: chachaEncrypt_def chachaSeal_wrong_key)

text \<open>A library and a tape for evaluation: what they do beyond the lengths does not matter.\<close>

definition demo_noble :: noble where
  "demo_noble = \<lparr>hkdf_sha3_256 = (\<lambda>ikm salt info n. take n (map (\<lambda>b. b + 1) ikm @ replicate n 0)),
     chacha20poly1305_encrypt = (\<lambda>key nonce aad pt.
       if length key = 32 \<and> length nonce = 12 then Some (map2 (XOR) pt (key @ replicate (length pt) 0) @ replicate 16 1)
       else None)\<rparr>"

definition demo_tape :: tape where
  "demo_tape i n = replicate n (word_of_nat i)"

lemma demo_tape_ok [simp]: "tape_ok demo_tape"
  by (simp add: tape_ok_def demo_tape_def)

lemma demo_noble_ok [simp]: "noble_ok demo_noble"
  by (auto simp: noble_ok_def demo_noble_def)

end
