(* ===== verification/Seeds.thy ===== *)
theory Seeds
  imports Prelude "HOL-Library.Log_Nat"
begin

text \<open>
  \<^verbatim>\<open>lib/sim/runSeed.ts\<close>: the seed of a run from the page's query, and the seed of each of its rounds.
  \<^verbatim>\<open>URLSearchParams\<close> is the platform's, so a query is given by the value of its \<^verbatim>\<open>seed\<close> parameter. A
  \<^verbatim>\<open>number\<close> that the code lets grow past \<open>2 ^ 53\<close> is rounded to its 53 leading bits as a double is, and
  \<^verbatim>\<open>>>> 0\<close> is the residue modulo \<open>2 ^ 32\<close>.
\<close>

section \<open>Integers as doubles\<close>

text \<open>Round half to even at the 53rd leading bit. At \<open>2 ^ 1024\<close> the result is \<^verbatim>\<open>Infinity\<close>.\<close>

definition double_of_nat :: "nat \<Rightarrow> nat" where
  "double_of_nat n =
     (if n < 2 ^ 53 then n
      else let s = 2 ^ (floorlog 2 n - 53); q = n div s; r = n mod s
           in (if 2 * r < s \<or> 2 * r = s \<and> even q then q else q + 1) * s)"

lemma double_of_nat_id [simp]: "n < 2 ^ 53 \<Longrightarrow> double_of_nat n = n"
  by (simp add: double_of_nat_def)

definition to_uint32 :: "nat \<Rightarrow> u32" where
  "to_uint32 n = of_nat n"

section \<open>The seed of a run\<close>

definition js_whitespace :: string where
  "js_whitespace = [CHR 0x20, CHR 0x09, CHR 0x0A, CHR 0x0B, CHR 0x0C, CHR 0x0D]"

definition js_trim :: "string \<Rightarrow> string" where
  "js_trim s = rev (dropWhile (\<lambda>c. c \<in> set js_whitespace) (rev (dropWhile (\<lambda>c. c \<in> set js_whitespace) s)))"

definition digit_value :: "char \<Rightarrow> nat option" where
  "digit_value c =
     (let k = of_char c :: nat in
      if 48 \<le> k \<and> k \<le> 57 then Some (k - 48)
      else if 97 \<le> k \<and> k \<le> 102 then Some (k - 87)
      else if 65 \<le> k \<and> k \<le> 70 then Some (k - 55) else None)"

definition all_digits :: "nat \<Rightarrow> string \<Rightarrow> bool" where
  "all_digits base s \<longleftrightarrow> s \<noteq> [] \<and> (\<forall>c \<in> set s. case digit_value c of None \<Rightarrow> False | Some d \<Rightarrow> d < base)"

definition parseInt :: "nat \<Rightarrow> string \<Rightarrow> nat" where
  "parseInt base s = foldl (\<lambda>n c. n * base + the (digit_value c)) 0 s"

definition seedFromLocation :: "string option \<Rightarrow> u32 option" where
  "seedFromLocation raw = (case raw of None \<Rightarrow> None
   | Some r \<Rightarrow> (let t = js_trim r in
      if t = [] then None
      else let n = (if take 2 t \<in> {''0x'', ''0X''} \<and> all_digits 16 (drop 2 t) then Some (parseInt 16 (drop 2 t))
                    else if all_digits 10 t then Some (parseInt 10 t) else None)
      in case n of None \<Rightarrow> None
         | Some v \<Rightarrow> if double_of_nat v < 2 ^ 1024 then Some (to_uint32 (double_of_nat v)) else None))"

section \<open>The seed of a round\<close>

record run_seeds =
  seed_base :: "u32 option"
  seed_round :: nat

definition new_seeds :: "u32 option \<Rightarrow> run_seeds" where
  "new_seeds b = \<lparr>seed_base = b, seed_round = 0\<rparr>"

definition seeds_pinned :: "run_seeds \<Rightarrow> bool" where
  "seeds_pinned s \<longleftrightarrow> seed_base s \<noteq> None"

definition seeds_reset :: "run_seeds \<Rightarrow> run_seeds" where
  "seeds_reset s = s\<lparr>seed_round := 0\<rparr>"

definition xor_shift_mul :: "nat \<Rightarrow> u32 \<Rightarrow> u32 \<Rightarrow> u32" where
  "xor_shift_mul k m x = (x XOR drop_bit k x) * m"

definition splitmix32 :: "u32 \<Rightarrow> u32" where
  "splitmix32 x0 =
     (let x1 = xor_shift_mul 16 0x21f0aaad x0; x2 = xor_shift_mul 15 0x735a2d97 x1
      in x2 XOR drop_bit 15 x2)"

text \<open>\<open>rnd\<close> is the value of \<^verbatim>\<open>Math.random()\<close>, read only when the run is not pinned.\<close>

definition seeds_next :: "rat \<Rightarrow> run_seeds \<Rightarrow> u32 \<times> run_seeds" where
  "seeds_next rnd s =
     ((case seed_base s of
         None \<Rightarrow> to_uint32 (nat \<lfloor>rnd * 0xffffffff\<rfloor>)
       | Some b \<Rightarrow> splitmix32 (to_uint32 (double_of_nat (unat b + double_of_nat (seed_round s * 0x9e3779b9))))),
      s\<lparr>seed_round := Suc (seed_round s)\<rparr>)"

section \<open>Distinct rounds have distinct seeds\<close>

lemma drop_bit_fixpoint: "0 < k \<Longrightarrow> drop_bit k z = z \<Longrightarrow> z = (0 :: u32)"
proof (rule ccontr)
  assume k: "0 < k" "drop_bit k z = z" "z \<noteq> 0"
  have "unat z div 2 ^ k = unat (drop_bit k z)" by (simp add: unat_drop_bit_eq flip: drop_bit_eq_div)
  with k(2) have "unat z div 2 ^ k = unat z" by simp
  moreover have "1 < (2 :: nat) ^ k" using k(1) by (intro one_less_power) simp_all
  then have "unat z div 2 ^ k < unat z" using k(3) by (intro div_less_dividend) (simp_all add: unat_gt_0)
  ultimately show False by simp
qed

lemma xor_left_cancel: "a XOR (a XOR b) = (b :: u32)"
  by (simp flip: xor.assoc)

lemma xor_shift_inj: "0 < k \<Longrightarrow> x XOR drop_bit k x = y XOR drop_bit k y \<Longrightarrow> x = (y :: u32)"
proof -
  assume k: "0 < k" and e: "x XOR drop_bit k x = y XOR drop_bit k y"
  define dx where "dx = drop_bit k x"
  define dy where "dy = drop_bit k y"
  have x: "x = (y XOR dy) XOR dx" using e xor_xor_cancel_right [of x dx] unfolding dx_def dy_def by simp
  have "x XOR y = (y XOR (dy XOR dx)) XOR y" by (subst x) (simp add: xor.assoc)
  also have "\<dots> = y XOR (y XOR (dx XOR dy))" by (simp only: xor.commute)
  also have "\<dots> = dx XOR dy" by (rule xor_left_cancel)
  finally have e2: "x XOR y = dx XOR dy" .
  have "drop_bit k (x XOR y) = dx XOR dy" by (simp only: drop_bit_xor dx_def dy_def)
  with e2 have "drop_bit k (x XOR y) = x XOR y" by simp
  with k have z: "x XOR y = 0" by (rule drop_bit_fixpoint)
  have "x = (x XOR y) XOR y" by (rule xor_xor_cancel_right [symmetric])
  with z show "x = y" by simp
qed

lemma mult_inj: "c * m = 1 \<Longrightarrow> x * c = y * c \<Longrightarrow> x = (y :: u32)"
proof -
  assume cm: "c * m = 1" and e: "x * c = y * c"
  have "x = (x * c) * m" by (simp only: mult.assoc cm mult_1_right)
  also have "\<dots> = y" unfolding e by (simp only: mult.assoc cm mult_1_right)
  finally show "x = y" .
qed

lemma xor_shift_mul_inj: "0 < k \<Longrightarrow> m * n = 1 \<Longrightarrow> xor_shift_mul k m x = xor_shift_mul k m y \<Longrightarrow> x = y"
  unfolding xor_shift_mul_def by (metis mult_inj xor_shift_inj)

lemma splitmix32_inj: "splitmix32 x = splitmix32 y \<Longrightarrow> x = y"
  unfolding splitmix32_def Let_def
  by (drule xor_shift_inj [rotated], simp)
     (drule xor_shift_mul_inj [where n = 2534613543, rotated 2], simp, simp,
      drule xor_shift_mul_inj [where n = 859588901, rotated 2], simp_all)

lemma round_word_inj:
  assumes "i < 2 ^ 21" "j < 2 ^ 21" "(b :: u32) + of_nat i * 0x9e3779b9 = b + of_nat j * 0x9e3779b9"
  shows "i = j"
proof -
  from assms(3) have "of_nat i * (0x9e3779b9 :: u32) = of_nat j * 0x9e3779b9" by simp
  then have "(of_nat i :: u32) = of_nat j" by (rule mult_inj [rotated, where m = 340573321]) simp
  then have "unat (of_nat i :: u32) = unat (of_nat j :: u32)" by simp
  with assms(1,2) show ?thesis by (simp add: unat_of_nat)
qed

lemma seeds_next_word:
  assumes "seed_base s = Some b" "seed_round s < 2 ^ 21"
  shows "fst (seeds_next rnd s) = splitmix32 (b + of_nat (seed_round s) * 0x9e3779b9)"
proof -
  have b: "unat b < 2 ^ 32" using unsigned_less [of b] by simp
  have "seed_round s * 0x9e3779b9 \<le> 2 ^ 21 * 0x9e3779b9" using assms(2) by (intro mult_le_mono1) simp
  with b have "unat b + seed_round s * 0x9e3779b9 < 2 ^ 53" by simp
  then have "double_of_nat (unat b + double_of_nat (seed_round s * 0x9e3779b9)) = unat b + seed_round s * 0x9e3779b9"
    using double_of_nat_id by auto
  then show ?thesis using assms(1) by (simp add: seeds_next_def to_uint32_def)
qed

text \<open>
  C8. A pinned run is reproducible and its rounds differ: the seed of a round depends only on the base
  seed and the round's index, and any two of the first two million rounds have different seeds.
\<close>

theorem pinned_seeds_distinct:
  assumes "seed_base s = Some b" "seed_base t = Some b" "seed_round s < 2 ^ 21" "seed_round t < 2 ^ 21"
  shows "fst (seeds_next r1 s) = fst (seeds_next r2 t) \<longleftrightarrow> seed_round s = seed_round t"
  unfolding seeds_next_word [OF assms(1,3)] seeds_next_word [OF assms(2,4)]
  using round_word_inj [OF assms(3,4), of b] splitmix32_inj by metis

definition demo_seeds :: "nat \<Rightarrow> run_seeds" where
  "demo_seeds i = \<lparr>seed_base = Some 42, seed_round = i\<rparr>"

lemma pinned_seeds_distinct_witness:
  "fst (seeds_next 0 (demo_seeds 0)) \<noteq> fst (seeds_next 0 (demo_seeds 7))
   \<and> seedFromLocation (Some '' 0x2A '') = Some 42 \<and> seedFromLocation (Some ''4.2'') = None"
proof -
  have "seed_base (demo_seeds i) = Some 42" "seed_round (demo_seeds i) = i" for i
    by (simp_all add: demo_seeds_def)
  then have "fst (seeds_next 0 (demo_seeds 0)) \<noteq> fst (seeds_next 0 (demo_seeds 7))"
    using pinned_seeds_distinct [of "demo_seeds 0" 42 "demo_seeds 7" 0 0] by simp
  moreover have "seedFromLocation (Some '' 0x2A '') = Some 42 \<and> seedFromLocation (Some ''4.2'') = None"
    by (simp add: seedFromLocation_def js_trim_def js_whitespace_def all_digits_def digit_value_def parseInt_def
        to_uint32_def)
  ultimately show ?thesis by simp
qed

end
