(* ===== verification/Pacing.thy ===== *)
theory Pacing
  imports Prelude
begin

text \<open>
  The pace of the client-side simulators' loops: \<^verbatim>\<open>lib/sim/pacing.ts\<close>. A loop fires every
  \<^verbatim>\<open>LOOP_TICK_MS\<close> and advances once a phase has dwelt its nominal time. Times are milliseconds.
\<close>

definition LOOP_TICK_MS :: int where
  "LOOP_TICK_MS = 100"

definition dwellMs :: "int \<Rightarrow> int" where
  "dwellMs ticks = ticks * LOOP_TICK_MS"

definition dwellDone :: "rat \<Rightarrow> int \<Rightarrow> bool" where
  "dwellDone elapsedMs nominalMs \<longleftrightarrow> of_int nominalMs - of_int LOOP_TICK_MS / 2 \<le> elapsedMs"

text \<open>
  A dwell of \<open>n\<close> ticks ends on exactly the \<open>n\<close>-th tick of the loop, whatever the jitter of the timer
  below half a tick: the nominal dwell is the dwell a foreground run has.
\<close>

theorem dwell_ends_on_its_tick:
  assumes "\<bar>jitter\<bar> < of_int LOOP_TICK_MS / 2"
  shows "dwellDone (of_int (dwellMs k) + jitter) (dwellMs n) \<longleftrightarrow> n \<le> k"
proof
  assume d: "dwellDone (of_int (dwellMs k) + jitter) (dwellMs n)"
  show "n \<le> k"
  proof (rule ccontr)
    assume "\<not> n \<le> k"
    then have "dwellMs k + LOOP_TICK_MS \<le> dwellMs n" by (simp add: dwellMs_def LOOP_TICK_MS_def)
    then have "of_int (dwellMs k) + of_int LOOP_TICK_MS \<le> (of_int (dwellMs n) :: rat)"
      by (metis of_int_add of_int_le_iff)
    with d assms show False by (simp add: dwellDone_def LOOP_TICK_MS_def)
  qed
next
  assume "n \<le> k"
  then have "of_int (dwellMs n) \<le> (of_int (dwellMs k) :: rat)"
    by (simp add: dwellMs_def LOOP_TICK_MS_def)
  with assms show "dwellDone (of_int (dwellMs k) + jitter) (dwellMs n)"
    by (simp add: dwellDone_def LOOP_TICK_MS_def)
qed

lemma dwell_ends_on_its_tick_witness:
  "dwellDone (of_int (dwellMs 3) + (-40)) (dwellMs 3) \<and> \<not> dwellDone (of_int (dwellMs 2) + 40) (dwellMs 3)"
  using dwell_ends_on_its_tick [of "-40" 3 3] dwell_ends_on_its_tick [of 40 2 3]
  by (simp add: LOOP_TICK_MS_def)

end
