(* ===== verification/Sim_Controls.thy ===== *)
theory Sim_Controls
  imports Prelude
begin

text \<open>
  The interface the pages rely on in every simulator of the front end (\<^verbatim>\<open>lib/sim/protocolLabSim.ts\<close>,
  \<^verbatim>\<open>lib/sim/e2eSim.ts\<close>, \<^verbatim>\<open>lib/sim/paperSim.ts\<close>): a status, a loop timer, and the buttons run, pause,
  resume and step. Each simulator's theory interprets it on its own model.
\<close>

datatype sim_status = Idle | Running | Paused | Stepped

datatype button = B_start | B_pause | B_resume | B_step

text \<open>The status after a sequence of buttons, read off the buttons alone.\<close>

fun shown :: "button list \<Rightarrow> bool \<Rightarrow> bool" where
  "shown [] r = r"
| "shown (B_start # bs) r = shown bs True"
| "shown (B_resume # bs) r = shown bs True"
| "shown (B_pause # bs) r = shown bs False"
| "shown (B_step # bs) r = shown bs r"

locale sim_controls =
  fixes wf :: "'s \<Rightarrow> bool"
    and status :: "'s \<Rightarrow> sim_status"
    and timer :: "'s \<Rightarrow> bool"
    and start :: "'s \<Rightarrow> 's"
    and pause :: "'s \<Rightarrow> 's"
    and resume :: "'s \<Rightarrow> 's"
    and step :: "'s \<Rightarrow> 's"
  assumes wf_buttons: "wf s \<Longrightarrow> wf (start s) \<and> wf (pause s) \<and> wf (resume s) \<and> wf (step s)"
    and start_runs: "wf s \<Longrightarrow> status (start s) = Running \<and> timer (start s)"
    and resume_runs: "wf s \<Longrightarrow> status (resume s) = Running \<and> timer (resume s)"
    and pause_stops: "wf s \<Longrightarrow> status (pause s) = Paused \<and> \<not> timer (pause s)"
    and step_refused: "status s = Running \<Longrightarrow> step s = s"
    and step_manual: "wf s \<Longrightarrow> status s \<noteq> Running \<Longrightarrow> status (step s) \<in> {Paused, Stepped} \<and> \<not> timer (step s)"
    and loop_running: "wf s \<Longrightarrow> timer s \<Longrightarrow> status s = Running"
begin

fun press :: "button \<Rightarrow> 's \<Rightarrow> 's" where
  "press B_start s = start s"
| "press B_pause s = pause s"
| "press B_resume s = resume s"
| "press B_step s = step s"

definition presses :: "button list \<Rightarrow> 's \<Rightarrow> 's" where
  "presses bs s = foldl (\<lambda>s b. press b s) s bs"

lemma press_wf: "wf s \<Longrightarrow> wf (press b s)"
  using wf_buttons by (cases b) auto

text \<open>What the badge and the loop agree on.\<close>

definition agrees :: "'s \<Rightarrow> bool" where
  "agrees s \<longleftrightarrow> (timer s \<longleftrightarrow> status s = Running)"

lemma press_agrees: "wf s \<Longrightarrow> agrees s \<Longrightarrow> agrees (press b s)"
  using start_runs [of s] resume_runs [of s] pause_stops [of s] step_refused [of s] step_manual [of s]
  by (cases b; cases "status s = Running") (auto simp: agrees_def)

lemma presses_agree: "wf s \<Longrightarrow> agrees s \<Longrightarrow> wf (presses bs s) \<and> agrees (presses bs s)"
  by (induction bs arbitrary: s) (simp_all add: presses_def press_wf press_agrees)

lemma presses_running: "wf s \<Longrightarrow> status (presses bs s) = Running \<longleftrightarrow> shown bs (status s = Running)"
proof (induction bs arbitrary: s)
  case (Cons b bs)
  have "status (press b s) = Running \<longleftrightarrow> shown [b] (status s = Running)"
    using start_runs resume_runs pause_stops step_refused [of s] step_manual [OF Cons.prems] Cons.prems
    by (cases b; cases "status s = Running") auto
  with Cons.IH [OF press_wf [OF Cons.prems, of b]] show ?case
    by (cases b) (simp_all add: presses_def)
qed (simp add: presses_def)

end

end
