(* ===== verification/Lab_State.thy ===== *)
theory Lab_State
  imports Networks Etsi004 Crypto Seeds Pacing Sim_Controls
begin

text \<open>
  The Protocol Lab simulator, \<^verbatim>\<open>lib/sim/protocolLabSim.ts\<close>, first part: its state, one field per
  member of the class, and the operations a tick is made of (logging, the view of a link, route choice,
  the relay of one key, the opening of the stream).

  A template literal is the list of its pieces, a \<open>Val\<close> piece standing for JavaScript's rendering of a
  number. The platform's sources of randomness are the record \<open>platform\<close>, read in order by the counters
  \<open>lab_draws\<close> and \<open>lab_ksids\<close> of the state. \<^verbatim>\<open>emit\<close> publishes a snapshot and changes nothing.
\<close>

section \<open>State\<close>

datatype part = Txt string | Val rat
type_synonym tmpl = "part list"

definition KEY_BITS :: rat where "KEY_BITS = 256"
definition KEY_BYTES :: nat where "KEY_BYTES = 32"
definition LOW_WM :: int where "LOW_WM = 8"
definition MAX_KEYS :: int where "MAX_KEYS = 64"
definition KEY_BITS_SOURCE :: string where
  "KEY_BITS_SOURCE = ''protocol.out_bits_per_key (this project'' @ [CHR 0x27] @ ''s config)''"

lemmas lab_consts = KEY_BITS_def KEY_BYTES_def LOW_WM_def MAX_KEYS_def

definition NOMINAL_TICK_DWELL_MS :: int where "NOMINAL_TICK_DWELL_MS = dwellMs 3"
definition TICK_PACES :: "(string \<times> string \<times> int) list" where
  "TICK_PACES = [(''slow'', ''Slow (2.4 s per tick)'', dwellMs 24), (''normal'', ''Normal (1.2 s per tick)'', dwellMs 12),
     (''fast'', ''Fast (0.3 s per tick)'', NOMINAL_TICK_DWELL_MS)]"
definition DEFAULT_PACE_MS :: int where "DEFAULT_PACE_MS = dwellMs 12"
definition FREE_PLAY_TICK_S :: rat where "FREE_PLAY_TICK_S = 1"
definition HISTORY_LIMIT :: nat where "HISTORY_LIMIT = 500"
definition MESSAGE_LIMIT :: nat where "MESSAGE_LIMIT = 60"
definition PREFIX_HEX :: nat where "PREFIX_HEX = 16"
definition size_unit :: string where "size_unit = ''bits''"
definition http_poolEmpty :: int where "http_poolEmpty = 503"

lemmas lab_limits = HISTORY_LIMIT_def MESSAGE_LIMIT_def PREFIX_HEX_def

datatype accounting = Acc_keys | Acc_stores | Acc_service_buffer | Acc_route_only

definition countsRequests :: "accounting \<Rightarrow> bool" where
  "countsRequests a \<longleftrightarrow> a = Acc_keys \<or> a = Acc_service_buffer"

datatype down_reason = D_outage | D_qber_alarm | D_node_down

record link_state =
  ls_id :: string
  ls_a :: string
  ls_b :: string
  ls_kind :: link_kind
  down :: bool
  downReason :: "down_reason option"
  notInRun :: bool
  genBps :: "rat option"
  genNote :: "tmpl option"
  storedKeys :: "int option"
  fillToKeys :: "int option"
  maxKeys :: "int option"
  storedBits :: "rat option"
  thresholdBits :: "rat option"

datatype lane = Lane014 | Lane004

record tmessage =
  tm_t :: rat
  tm_lane :: lane
  tm_text :: tmpl
  tm_status :: "int option"
  tm_http :: "int option"
  tm_transition :: "transition option"

datatype tick_step_id = S_generate | S_stream | S_route | S_relay | S_deliver
datatype step_outcome = O_ok | O_wait | O_fail | O_idle

record tick_step =
  step_id :: tick_step_id
  outcome :: step_outcome
  step_detail :: tmpl

record trace_relay =
  tr_nodes :: "string list"
  tr_linkIds :: "string list"
  tr_amount :: tmpl

record tick_trace =
  tt_tick :: nat
  tt_t :: rat
  tt_steps :: "tick_step list"
  tt_relay :: "trace_relay option"

fun TICK_PIPELINE :: "accounting \<Rightarrow> (tick_step_id \<times> string) list" where
  "TICK_PIPELINE Acc_keys = [(S_generate, ''Generate keys''), (S_stream, ''ETSI 004 stream''), (S_route, ''Select route''),
     (S_relay, ''Relay, one pad per hop''), (S_deliver, ''GET_KEY on both ends'')]"
| "TICK_PIPELINE Acc_stores = [(S_generate, ''Generate, as cited''), (S_route, ''Select route above threshold''),
     (S_relay, ''Draw from each hop'' @ [CHR 0x27] @ ''s store''), (S_deliver, ''Deliver'')]"
| "TICK_PIPELINE Acc_service_buffer = [(S_deliver, ''Serve from the key store''), (S_route, ''Select route''), (S_relay, ''Refill by relay'')]"
| "TICK_PIPELINE Acc_route_only = [(S_route, ''Select route'')]"

abbreviation tick_ids :: "accounting \<Rightarrow> tick_step_id list" where
  "tick_ids a \<equiv> map fst (TICK_PIPELINE a)"

record tick_rec =
  r_tick :: nat
  r_sim_time_s :: rat
  r_started_at :: int
  r_ui_dwell_ms :: "int option"
  r_nominal_dwell_ms :: int
  r_route :: string
  r_relays :: "nat option"
  r_delivered_bits :: rat
  r_unmet_bits :: rat
  r_event :: string
  r_buffers :: "(string \<times> rat option) list"

datatype reroute_reason = R_start | R_threshold | R_link_down | R_node_down | R_qber_alarm | R_recovered | R_no_route

record reroute =
  rr_t :: rat
  rr_from :: "string list option"
  rr_to :: "string list option"
  rr_reason :: reroute_reason

record service_state =
  sv_stored :: rat
  sv_capacity :: rat
  sv_refillAt :: rat
  sv_refillTo :: rat
  sv_refills :: nat
  sv_failedRefills :: nat
  sv_readingNote :: string

record relay_record =
  re_hops :: nat
  re_key_prefix :: string
  re_pad_prefixes :: "string list"
  re_equal :: bool

record lab =
  lab_status :: sim_status
  lab_timer :: bool
  lab_lastAdvance :: rat
  lab_lastTickStart :: "int option"
  lab_preset :: topology_preset
  lab_scenario :: "scenario option"
  lab_accounting :: accounting
  lab_tickS :: rat
  lab_tickN :: nat
  lab_links :: "link_state list"
  lab_downNodes :: "string list"
  lab_credit :: "(string \<times> rat) list"
  lab_from :: string
  lab_to :: string
  lab_keysPerS :: "rat option"
  lab_demandCredit :: rat
  lab_route :: "route_choice option"
  lab_routeNone :: "string option"
  lab_alternatives :: "route_choice list"
  lab_rejected :: "(route_choice \<times> string) list"
  lab_reroutes :: "reroute list"
  lab_delivered :: rat
  lab_unmet :: rat
  lab_ok :: rat
  lab_failed :: rat
  lab_service :: "service_state option"
  lab_km :: km
  lab_ksid :: "string option"
  lab_lastStatus :: "int option"
  lab_messages :: "tmessage list"
  lab_lastRelay :: "relay_record option"
  lab_history :: "tick_rec list"
  lab_pendingEvent :: "string list"
  lab_paceMs :: int
  lab_lastTick :: "tick_trace option"
  lab_traceSteps :: "tick_step list"
  lab_traceRelay :: "trace_relay option"
  lab_seeds :: run_seeds
  lab_draws :: nat
  lab_ksids :: nat

record platform =
  pf_random :: tape
  pf_ksid :: "nat \<Rightarrow> string"

definition reasonFor :: "link_state \<Rightarrow> reroute_reason" where
  "reasonFor l = (case downReason l of
     Some D_qber_alarm \<Rightarrow> R_qber_alarm | Some D_node_down \<Rightarrow> R_node_down | _ \<Rightarrow> R_link_down)"

fun down_text :: "down_reason \<Rightarrow> string" where
  "down_text D_outage = ''outage''"
| "down_text D_qber_alarm = ''qber-alarm''"
| "down_text D_node_down = ''node-down''"

definition sim_time :: "lab \<Rightarrow> rat" where
  "sim_time s = of_nat (lab_tickN s) * lab_tickS s"

section \<open>Timeline and trace\<close>

definition push_message :: "tmessage \<Rightarrow> lab \<Rightarrow> lab" where
  "push_message m s = s\<lparr>lab_messages := push_shift MESSAGE_LIMIT (lab_messages s) m\<rparr>"

definition lab_log :: "lane \<Rightarrow> tmpl \<Rightarrow> int option \<Rightarrow> transition option \<Rightarrow> lab \<Rightarrow> lab" where
  "lab_log la tx st tr s = push_message
     \<lparr>tm_t = sim_time s, tm_lane = la, tm_text = tx, tm_status = st, tm_http = None, tm_transition = tr\<rparr> s"

definition log004 :: "string \<Rightarrow> call_result \<Rightarrow> lab \<Rightarrow> lab" where
  "log004 call r s = push_message
     \<lparr>tm_t = sim_time s, tm_lane = Lane004,
      tm_text = [Txt call, Txt '': ''] @ (case http r of
          Some h \<Rightarrow> [Txt ''HTTP '', Val (of_int h)]
        | None \<Rightarrow> [Txt ''status '', case res_status r of None \<Rightarrow> Txt ''null'' | Some c \<Rightarrow> Val (of_int c)])
        @ (case detail r of None \<Rightarrow> [] | Some d \<Rightarrow> [Txt '' ('', Txt d, Txt '')'']),
      tm_status = res_status r, tm_http = http r, tm_transition = Some (via r)\<rparr> s"

definition traceStep :: "tick_step_id \<Rightarrow> step_outcome \<Rightarrow> tmpl \<Rightarrow> lab \<Rightarrow> lab" where
  "traceStep i oc d s = s\<lparr>lab_traceSteps := lab_traceSteps s @ [\<lparr>step_id = i, outcome = oc, step_detail = d\<rparr>]\<rparr>"

definition traceRoute :: "lab \<Rightarrow> lab" where
  "traceRoute s = (case lab_route s of
     Some r \<Rightarrow> traceStep S_route O_ok [Txt (js_join '' > '' (route_nodes r))] s
   | None \<Rightarrow> traceStep S_route O_fail [Txt (case lab_routeNone s of None \<Rightarrow> ''no route'' | Some w \<Rightarrow> w)] s)"

definition traceRelayOver :: "tmpl \<Rightarrow> lab \<Rightarrow> lab" where
  "traceRelayOver amount s = (case lab_route s of None \<Rightarrow> s
     | Some r \<Rightarrow> s\<lparr>lab_traceRelay := Some \<lparr>tr_nodes = route_nodes r, tr_linkIds = linkIds r, tr_amount = amount\<rparr>\<rparr>)"

section \<open>Routing\<close>

definition find_link :: "link_state list \<Rightarrow> string \<Rightarrow> link_state option" where
  "find_link ls i = List.find (\<lambda>l. ls_id l = i) ls"

definition lab_graph :: "lab \<Rightarrow> route_graph" where
  "lab_graph s = \<lparr>g_nodes = map n_id (p_nodes (lab_preset s)),
     g_links = map (\<lambda>l. \<lparr>gl_id = ls_id l, gl_a = ls_a l, gl_b = ls_b l\<rparr>)
       (filter (\<lambda>l. ls_kind l = Qkd \<and> \<not> notInRun l) (lab_links s))\<rparr>"

definition no_view :: "string \<Rightarrow> rat option \<Rightarrow> rat option \<Rightarrow> link_view" where
  "no_view why bits bps = \<lparr>up = True, usable = False, view_why = Some why, availableBits = bits, rateBps = bps\<rparr>"

definition ok_view :: "rat option \<Rightarrow> rat option \<Rightarrow> link_view" where
  "ok_view bits bps = \<lparr>up = True, usable = True, view_why = None, availableBits = bits, rateBps = bps\<rparr>"

definition view_of :: "accounting \<Rightarrow> rat \<Rightarrow> rat \<Rightarrow> link_state \<Rightarrow> link_view" where
  "view_of acc tickS needBits l =
     (if down l then \<lparr>up = False, usable = False,
        view_why = Some (case downReason l of None \<Rightarrow> ''down'' | Some r \<Rightarrow> down_text r),
        availableBits = None, rateBps = genBps l\<rparr>
      else case acc of
        Acc_route_only \<Rightarrow> ok_view None (genBps l)
      | Acc_stores \<Rightarrow> (case (storedBits l, thresholdBits l) of
            (Some sb, Some th) \<Rightarrow> if needBits \<le> sb - th then ok_view (Some (sb - th)) (genBps l)
               else no_view ''store at its minimum threshold'' (Some (sb - th)) (genBps l)
          | _ \<Rightarrow> no_view ''no store in the cited run'' None (genBps l))
      | Acc_service_buffer \<Rightarrow> (case genBps l of
            None \<Rightarrow> no_view ''no reported rate'' None None
          | Some g \<Rightarrow> if needBits \<le> g * tickS then ok_view None (genBps l)
               else no_view ''reported rate cannot cover the refill in one tick'' None (genBps l))
      | Acc_keys \<Rightarrow> (let keys = (case storedKeys l of None \<Rightarrow> 0 | Some k \<Rightarrow> k) in
          if genBps l = None \<and> keys = 0 then no_view ''no reported rate'' (Some 0) None
          else ok_view (Some (of_int keys * KEY_BITS)) (genBps l)))"

text \<open>The ids a view is asked about are those of \<open>lab_graph\<close>, so the link is always found.\<close>

definition lab_view :: "lab \<Rightarrow> rat \<Rightarrow> string \<Rightarrow> link_view" where
  "lab_view s needBits i = (case find_link (lab_links s) i of
     None \<Rightarrow> \<lparr>up = False, usable = False, view_why = None, availableBits = None, rateBps = None\<rparr>
   | Some l \<Rightarrow> view_of (lab_accounting s) (lab_tickS s) needBits l)"

definition lab_preferred :: "lab \<Rightarrow> string list option" where
  "lab_preferred s = (case lab_scenario s of None \<Rightarrow> None | Some sc \<Rightarrow> s_preferredRoute sc)"

definition is_preferred :: "string list option \<Rightarrow> route_choice \<Rightarrow> bool" where
  "is_preferred pref r = (case pref of None \<Rightarrow> False | Some ns \<Rightarrow> routeKey (route_nodes r) = routeKey ns)"

definition route_key_of :: "route_choice option \<Rightarrow> string option" where
  "route_key_of r = map_option (routeKey \<circ> route_nodes) r"

definition sticky :: "route_choice option \<Rightarrow> string list option \<Rightarrow> selection \<Rightarrow> route_choice option" where
  "sticky prev pref sel = (case (prev, chosen sel) of
     (Some p, Some c) \<Rightarrow> (case List.find (\<lambda>r. routeKey (route_nodes r) = routeKey (route_nodes p)) (ranked sel) of
         Some still \<Rightarrow> if hops still \<le> hops c \<and> \<not> is_preferred pref c then Some still else Some c
       | None \<Rightarrow> Some c)
   | (_, c) \<Rightarrow> c)"

definition reroute_reason_of :: "link_state list \<Rightarrow> string list option \<Rightarrow> route_choice option \<Rightarrow> route_choice option \<Rightarrow> reroute_reason" where
  "reroute_reason_of ls pref prev nxt = (case (nxt, prev) of
     (None, _) \<Rightarrow> R_no_route
   | (Some n, None) \<Rightarrow> R_recovered
   | (Some n, Some p) \<Rightarrow> (case List.find down (List.map_filter (find_link ls) (linkIds p)) of
         Some broken \<Rightarrow> reasonFor broken
       | None \<Rightarrow> if hops n < hops p \<or> is_preferred pref n then R_recovered else R_threshold))"

definition note_reroute :: "route_choice option \<Rightarrow> lab \<Rightarrow> lab" where
  "note_reroute prev s =
     (let nxt = lab_route s; was = route_key_of prev; now = route_key_of nxt in
      if lab_reroutes s = [] \<and> now \<noteq> None
      then s\<lparr>lab_reroutes := [\<lparr>rr_t = sim_time s, rr_from = None, rr_to = map_option route_nodes nxt, rr_reason = R_start\<rparr>]\<rparr>
      else if was = now then s
      else s\<lparr>lab_reroutes := push_shift HISTORY_LIMIT (lab_reroutes s)
        \<lparr>rr_t = sim_time s, rr_from = map_option route_nodes prev, rr_to = map_option route_nodes nxt,
         rr_reason = reroute_reason_of (lab_links s) (lab_preferred s) prev nxt\<rparr>\<rparr>)"

definition lab_select :: "rat \<Rightarrow> lab \<Rightarrow> selection" where
  "lab_select needBits s =
     selectRoute (lab_graph s) (lab_from s) (lab_to s) (lab_view s needBits) (lab_downNodes s) (lab_preferred s)"

definition chooseRoute :: "rat \<Rightarrow> lab \<Rightarrow> lab" where
  "chooseRoute needBits s =
     (let prev = lab_route s; sel = lab_select needBits s
      in note_reroute prev (s\<lparr>lab_route := sticky prev (lab_preferred s) sel, lab_routeNone := none_why sel,
           lab_alternatives := ranked sel, lab_rejected := rejected sel\<rparr>))"

section \<open>The relay of one key\<close>

text \<open>Node \<open>i\<close> sends the key under pad \<open>i\<close>; node \<open>i + 1\<close> removes it and uses the next hop's.\<close>

definition hop_carry :: "bytes \<Rightarrow> bytes \<Rightarrow> bytes" where
  "hop_carry carried pad = map2 (XOR) (map2 (XOR) carried pad) pad"

definition relaySample :: "platform \<Rightarrow> lab \<Rightarrow> bytes \<times> lab" where
  "relaySample p s =
     (let h = (case lab_route s of None \<Rightarrow> 0 | Some r \<Rightarrow> hops r);
          key = pf_random p (lab_draws s) KEY_BYTES;
          pads = map (\<lambda>i. pf_random p (Suc (lab_draws s) + i) KEY_BYTES) [0..<h];
          carried = foldl hop_carry key pads
      in (key, s\<lparr>lab_draws := Suc (lab_draws s) + h,
           lab_lastRelay := Some \<lparr>re_hops = h, re_key_prefix = take PREFIX_HEX (toHex key),
             re_pad_prefixes = map (\<lambda>pd. take PREFIX_HEX (toHex pd)) pads,
             re_equal = list_all (\<lambda>i. js_index key (int i) = Some (carried ! i)) [0..<length carried]\<rparr>\<rparr>))"

section \<open>The stream\<close>

definition lab_km_env :: "platform \<Rightarrow> lab \<Rightarrow> km_env" where
  "lab_km_env p s = \<lparr>keyChunkBytes = int KEY_BYTES, routeUp = lab_route s \<noteq> None,
     cap_bps = (case lab_route s of None \<Rightarrow> None | Some r \<Rightarrow> bottleneckBps r),
     cap_basis = ''reported rates, bottleneck of the current route'',
     now_ms = sim_time s * 1000, newKsid = pf_ksid p (lab_ksids s)\<rparr>"

definition app_uri :: "string \<Rightarrow> string" where
  "app_uri n = ''qkd://'' @ n @ ''/app''"

definition openStream :: "platform \<Rightarrow> lab \<Rightarrow> lab" where
  "openStream p s =
     (if lab_from s = lab_to s then s
      else let src = app_uri (lab_from s); dst = app_uri (lab_to s);
        (a, km1) = openConnect (lab_km_env p s) A src dst EMPTY_QOS None (lab_km s);
        s1 = log004 ''OPEN_CONNECT (A, Key_stream_ID null)'' a
          (s\<lparr>lab_km := km1, lab_ksids := (if via a = T1 then Suc (lab_ksids s) else lab_ksids s)\<rparr>)
      in if res_status a \<noteq> Some (statusCode PEER_NOT_CONNECTED) then s1
         else case Key_stream_ID a of None \<Rightarrow> s1
         | Some k \<Rightarrow> if k = [] then s1
            else let (b, km2) = openConnect (lab_km_env p s1) B dst src EMPTY_QOS (Some k) (lab_km s1)
            in log004 ''OPEN_CONNECT (B, same Key_stream_ID)'' b (s1\<lparr>lab_ksid := Some k, lab_km := km2\<rparr>))"

definition clearKeyMaterial :: "lab \<Rightarrow> lab" where
  "clearKeyMaterial s = s\<lparr>lab_lastRelay := None, lab_km := km_clear (lab_km s)\<rparr>"

section \<open>What each operation leaves alone\<close>

lemma push_message_frame [simp]:
  "lab_status (push_message m s) = lab_status s" "lab_timer (push_message m s) = lab_timer s"
  "lab_lastAdvance (push_message m s) = lab_lastAdvance s"
  "lab_lastTickStart (push_message m s) = lab_lastTickStart s"
  "lab_preset (push_message m s) = lab_preset s" "lab_scenario (push_message m s) = lab_scenario s"
  "lab_accounting (push_message m s) = lab_accounting s" "lab_tickS (push_message m s) = lab_tickS s"
  "lab_tickN (push_message m s) = lab_tickN s" "lab_links (push_message m s) = lab_links s"
  "lab_downNodes (push_message m s) = lab_downNodes s" "lab_credit (push_message m s) = lab_credit s"
  "lab_from (push_message m s) = lab_from s" "lab_to (push_message m s) = lab_to s"
  "lab_keysPerS (push_message m s) = lab_keysPerS s"
  "lab_demandCredit (push_message m s) = lab_demandCredit s" "lab_route (push_message m s) = lab_route s"
  "lab_routeNone (push_message m s) = lab_routeNone s"
  "lab_alternatives (push_message m s) = lab_alternatives s"
  "lab_rejected (push_message m s) = lab_rejected s" "lab_reroutes (push_message m s) = lab_reroutes s"
  "lab_delivered (push_message m s) = lab_delivered s" "lab_unmet (push_message m s) = lab_unmet s"
  "lab_ok (push_message m s) = lab_ok s" "lab_failed (push_message m s) = lab_failed s"
  "lab_service (push_message m s) = lab_service s" "lab_km (push_message m s) = lab_km s"
  "lab_ksid (push_message m s) = lab_ksid s" "lab_lastStatus (push_message m s) = lab_lastStatus s"
  "lab_lastRelay (push_message m s) = lab_lastRelay s" "lab_history (push_message m s) = lab_history s"
  "lab_pendingEvent (push_message m s) = lab_pendingEvent s" "lab_paceMs (push_message m s) = lab_paceMs s"
  "lab_lastTick (push_message m s) = lab_lastTick s" "lab_traceSteps (push_message m s) = lab_traceSteps s"
  "lab_traceRelay (push_message m s) = lab_traceRelay s" "lab_seeds (push_message m s) = lab_seeds s"
  "lab_draws (push_message m s) = lab_draws s" "lab_ksids (push_message m s) = lab_ksids s"
  by (simp_all add: push_message_def)

lemma lab_log_frame [simp]:
  "lab_status (lab_log la tx st tr s) = lab_status s" "lab_timer (lab_log la tx st tr s) = lab_timer s"
  "lab_lastAdvance (lab_log la tx st tr s) = lab_lastAdvance s"
  "lab_lastTickStart (lab_log la tx st tr s) = lab_lastTickStart s"
  "lab_preset (lab_log la tx st tr s) = lab_preset s"
  "lab_scenario (lab_log la tx st tr s) = lab_scenario s"
  "lab_accounting (lab_log la tx st tr s) = lab_accounting s"
  "lab_tickS (lab_log la tx st tr s) = lab_tickS s" "lab_tickN (lab_log la tx st tr s) = lab_tickN s"
  "lab_links (lab_log la tx st tr s) = lab_links s"
  "lab_downNodes (lab_log la tx st tr s) = lab_downNodes s"
  "lab_credit (lab_log la tx st tr s) = lab_credit s" "lab_from (lab_log la tx st tr s) = lab_from s"
  "lab_to (lab_log la tx st tr s) = lab_to s" "lab_keysPerS (lab_log la tx st tr s) = lab_keysPerS s"
  "lab_demandCredit (lab_log la tx st tr s) = lab_demandCredit s"
  "lab_route (lab_log la tx st tr s) = lab_route s"
  "lab_routeNone (lab_log la tx st tr s) = lab_routeNone s"
  "lab_alternatives (lab_log la tx st tr s) = lab_alternatives s"
  "lab_rejected (lab_log la tx st tr s) = lab_rejected s"
  "lab_reroutes (lab_log la tx st tr s) = lab_reroutes s"
  "lab_delivered (lab_log la tx st tr s) = lab_delivered s"
  "lab_unmet (lab_log la tx st tr s) = lab_unmet s" "lab_ok (lab_log la tx st tr s) = lab_ok s"
  "lab_failed (lab_log la tx st tr s) = lab_failed s" "lab_service (lab_log la tx st tr s) = lab_service s"
  "lab_km (lab_log la tx st tr s) = lab_km s" "lab_ksid (lab_log la tx st tr s) = lab_ksid s"
  "lab_lastStatus (lab_log la tx st tr s) = lab_lastStatus s"
  "lab_lastRelay (lab_log la tx st tr s) = lab_lastRelay s"
  "lab_history (lab_log la tx st tr s) = lab_history s"
  "lab_pendingEvent (lab_log la tx st tr s) = lab_pendingEvent s"
  "lab_paceMs (lab_log la tx st tr s) = lab_paceMs s"
  "lab_lastTick (lab_log la tx st tr s) = lab_lastTick s"
  "lab_traceSteps (lab_log la tx st tr s) = lab_traceSteps s"
  "lab_traceRelay (lab_log la tx st tr s) = lab_traceRelay s"
  "lab_seeds (lab_log la tx st tr s) = lab_seeds s" "lab_draws (lab_log la tx st tr s) = lab_draws s"
  "lab_ksids (lab_log la tx st tr s) = lab_ksids s"
  by (simp_all add: lab_log_def)

lemma log004_frame [simp]:
  "lab_status (log004 c r s) = lab_status s" "lab_timer (log004 c r s) = lab_timer s"
  "lab_lastAdvance (log004 c r s) = lab_lastAdvance s"
  "lab_lastTickStart (log004 c r s) = lab_lastTickStart s" "lab_preset (log004 c r s) = lab_preset s"
  "lab_scenario (log004 c r s) = lab_scenario s" "lab_accounting (log004 c r s) = lab_accounting s"
  "lab_tickS (log004 c r s) = lab_tickS s" "lab_tickN (log004 c r s) = lab_tickN s"
  "lab_links (log004 c r s) = lab_links s" "lab_downNodes (log004 c r s) = lab_downNodes s"
  "lab_credit (log004 c r s) = lab_credit s" "lab_from (log004 c r s) = lab_from s"
  "lab_to (log004 c r s) = lab_to s" "lab_keysPerS (log004 c r s) = lab_keysPerS s"
  "lab_demandCredit (log004 c r s) = lab_demandCredit s" "lab_route (log004 c r s) = lab_route s"
  "lab_routeNone (log004 c r s) = lab_routeNone s" "lab_alternatives (log004 c r s) = lab_alternatives s"
  "lab_rejected (log004 c r s) = lab_rejected s" "lab_reroutes (log004 c r s) = lab_reroutes s"
  "lab_delivered (log004 c r s) = lab_delivered s" "lab_unmet (log004 c r s) = lab_unmet s"
  "lab_ok (log004 c r s) = lab_ok s" "lab_failed (log004 c r s) = lab_failed s"
  "lab_service (log004 c r s) = lab_service s" "lab_km (log004 c r s) = lab_km s"
  "lab_ksid (log004 c r s) = lab_ksid s" "lab_lastStatus (log004 c r s) = lab_lastStatus s"
  "lab_lastRelay (log004 c r s) = lab_lastRelay s" "lab_history (log004 c r s) = lab_history s"
  "lab_pendingEvent (log004 c r s) = lab_pendingEvent s" "lab_paceMs (log004 c r s) = lab_paceMs s"
  "lab_lastTick (log004 c r s) = lab_lastTick s" "lab_traceSteps (log004 c r s) = lab_traceSteps s"
  "lab_traceRelay (log004 c r s) = lab_traceRelay s" "lab_seeds (log004 c r s) = lab_seeds s"
  "lab_draws (log004 c r s) = lab_draws s" "lab_ksids (log004 c r s) = lab_ksids s"
  by (simp_all add: log004_def)

lemma traceStep_frame [simp]:
  "lab_status (traceStep i oc d s) = lab_status s" "lab_timer (traceStep i oc d s) = lab_timer s"
  "lab_lastAdvance (traceStep i oc d s) = lab_lastAdvance s"
  "lab_lastTickStart (traceStep i oc d s) = lab_lastTickStart s"
  "lab_preset (traceStep i oc d s) = lab_preset s" "lab_scenario (traceStep i oc d s) = lab_scenario s"
  "lab_accounting (traceStep i oc d s) = lab_accounting s" "lab_tickS (traceStep i oc d s) = lab_tickS s"
  "lab_tickN (traceStep i oc d s) = lab_tickN s" "lab_links (traceStep i oc d s) = lab_links s"
  "lab_downNodes (traceStep i oc d s) = lab_downNodes s" "lab_credit (traceStep i oc d s) = lab_credit s"
  "lab_from (traceStep i oc d s) = lab_from s" "lab_to (traceStep i oc d s) = lab_to s"
  "lab_keysPerS (traceStep i oc d s) = lab_keysPerS s"
  "lab_demandCredit (traceStep i oc d s) = lab_demandCredit s"
  "lab_route (traceStep i oc d s) = lab_route s" "lab_routeNone (traceStep i oc d s) = lab_routeNone s"
  "lab_alternatives (traceStep i oc d s) = lab_alternatives s"
  "lab_rejected (traceStep i oc d s) = lab_rejected s" "lab_reroutes (traceStep i oc d s) = lab_reroutes s"
  "lab_delivered (traceStep i oc d s) = lab_delivered s" "lab_unmet (traceStep i oc d s) = lab_unmet s"
  "lab_ok (traceStep i oc d s) = lab_ok s" "lab_failed (traceStep i oc d s) = lab_failed s"
  "lab_service (traceStep i oc d s) = lab_service s" "lab_km (traceStep i oc d s) = lab_km s"
  "lab_ksid (traceStep i oc d s) = lab_ksid s" "lab_lastStatus (traceStep i oc d s) = lab_lastStatus s"
  "lab_messages (traceStep i oc d s) = lab_messages s"
  "lab_lastRelay (traceStep i oc d s) = lab_lastRelay s" "lab_history (traceStep i oc d s) = lab_history s"
  "lab_pendingEvent (traceStep i oc d s) = lab_pendingEvent s"
  "lab_paceMs (traceStep i oc d s) = lab_paceMs s" "lab_lastTick (traceStep i oc d s) = lab_lastTick s"
  "lab_traceRelay (traceStep i oc d s) = lab_traceRelay s" "lab_seeds (traceStep i oc d s) = lab_seeds s"
  "lab_draws (traceStep i oc d s) = lab_draws s" "lab_ksids (traceStep i oc d s) = lab_ksids s"
  by (simp_all add: traceStep_def)

lemma traceRoute_frame [simp]:
  "lab_status (traceRoute s) = lab_status s" "lab_timer (traceRoute s) = lab_timer s"
  "lab_lastAdvance (traceRoute s) = lab_lastAdvance s"
  "lab_lastTickStart (traceRoute s) = lab_lastTickStart s" "lab_preset (traceRoute s) = lab_preset s"
  "lab_scenario (traceRoute s) = lab_scenario s" "lab_accounting (traceRoute s) = lab_accounting s"
  "lab_tickS (traceRoute s) = lab_tickS s" "lab_tickN (traceRoute s) = lab_tickN s"
  "lab_links (traceRoute s) = lab_links s" "lab_downNodes (traceRoute s) = lab_downNodes s"
  "lab_credit (traceRoute s) = lab_credit s" "lab_from (traceRoute s) = lab_from s"
  "lab_to (traceRoute s) = lab_to s" "lab_keysPerS (traceRoute s) = lab_keysPerS s"
  "lab_demandCredit (traceRoute s) = lab_demandCredit s" "lab_route (traceRoute s) = lab_route s"
  "lab_routeNone (traceRoute s) = lab_routeNone s" "lab_alternatives (traceRoute s) = lab_alternatives s"
  "lab_rejected (traceRoute s) = lab_rejected s" "lab_reroutes (traceRoute s) = lab_reroutes s"
  "lab_delivered (traceRoute s) = lab_delivered s" "lab_unmet (traceRoute s) = lab_unmet s"
  "lab_ok (traceRoute s) = lab_ok s" "lab_failed (traceRoute s) = lab_failed s"
  "lab_service (traceRoute s) = lab_service s" "lab_km (traceRoute s) = lab_km s"
  "lab_ksid (traceRoute s) = lab_ksid s" "lab_lastStatus (traceRoute s) = lab_lastStatus s"
  "lab_messages (traceRoute s) = lab_messages s" "lab_lastRelay (traceRoute s) = lab_lastRelay s"
  "lab_history (traceRoute s) = lab_history s" "lab_pendingEvent (traceRoute s) = lab_pendingEvent s"
  "lab_paceMs (traceRoute s) = lab_paceMs s" "lab_lastTick (traceRoute s) = lab_lastTick s"
  "lab_traceRelay (traceRoute s) = lab_traceRelay s" "lab_seeds (traceRoute s) = lab_seeds s"
  "lab_draws (traceRoute s) = lab_draws s" "lab_ksids (traceRoute s) = lab_ksids s"
  by (simp_all add: traceRoute_def split: option.splits)

lemma traceRelayOver_frame [simp]:
  "lab_status (traceRelayOver a s) = lab_status s" "lab_timer (traceRelayOver a s) = lab_timer s"
  "lab_lastAdvance (traceRelayOver a s) = lab_lastAdvance s"
  "lab_lastTickStart (traceRelayOver a s) = lab_lastTickStart s"
  "lab_preset (traceRelayOver a s) = lab_preset s" "lab_scenario (traceRelayOver a s) = lab_scenario s"
  "lab_accounting (traceRelayOver a s) = lab_accounting s" "lab_tickS (traceRelayOver a s) = lab_tickS s"
  "lab_tickN (traceRelayOver a s) = lab_tickN s" "lab_links (traceRelayOver a s) = lab_links s"
  "lab_downNodes (traceRelayOver a s) = lab_downNodes s" "lab_credit (traceRelayOver a s) = lab_credit s"
  "lab_from (traceRelayOver a s) = lab_from s" "lab_to (traceRelayOver a s) = lab_to s"
  "lab_keysPerS (traceRelayOver a s) = lab_keysPerS s"
  "lab_demandCredit (traceRelayOver a s) = lab_demandCredit s"
  "lab_route (traceRelayOver a s) = lab_route s" "lab_routeNone (traceRelayOver a s) = lab_routeNone s"
  "lab_alternatives (traceRelayOver a s) = lab_alternatives s"
  "lab_rejected (traceRelayOver a s) = lab_rejected s" "lab_reroutes (traceRelayOver a s) = lab_reroutes s"
  "lab_delivered (traceRelayOver a s) = lab_delivered s" "lab_unmet (traceRelayOver a s) = lab_unmet s"
  "lab_ok (traceRelayOver a s) = lab_ok s" "lab_failed (traceRelayOver a s) = lab_failed s"
  "lab_service (traceRelayOver a s) = lab_service s" "lab_km (traceRelayOver a s) = lab_km s"
  "lab_ksid (traceRelayOver a s) = lab_ksid s" "lab_lastStatus (traceRelayOver a s) = lab_lastStatus s"
  "lab_messages (traceRelayOver a s) = lab_messages s"
  "lab_lastRelay (traceRelayOver a s) = lab_lastRelay s" "lab_history (traceRelayOver a s) = lab_history s"
  "lab_pendingEvent (traceRelayOver a s) = lab_pendingEvent s"
  "lab_paceMs (traceRelayOver a s) = lab_paceMs s" "lab_lastTick (traceRelayOver a s) = lab_lastTick s"
  "lab_traceSteps (traceRelayOver a s) = lab_traceSteps s" "lab_seeds (traceRelayOver a s) = lab_seeds s"
  "lab_draws (traceRelayOver a s) = lab_draws s" "lab_ksids (traceRelayOver a s) = lab_ksids s"
  by (simp_all add: traceRelayOver_def split: option.splits)

lemma note_reroute_frame [simp]:
  "lab_status (note_reroute prev s) = lab_status s" "lab_timer (note_reroute prev s) = lab_timer s"
  "lab_lastAdvance (note_reroute prev s) = lab_lastAdvance s"
  "lab_lastTickStart (note_reroute prev s) = lab_lastTickStart s"
  "lab_preset (note_reroute prev s) = lab_preset s" "lab_scenario (note_reroute prev s) = lab_scenario s"
  "lab_accounting (note_reroute prev s) = lab_accounting s" "lab_tickS (note_reroute prev s) = lab_tickS s"
  "lab_tickN (note_reroute prev s) = lab_tickN s" "lab_links (note_reroute prev s) = lab_links s"
  "lab_downNodes (note_reroute prev s) = lab_downNodes s" "lab_credit (note_reroute prev s) = lab_credit s"
  "lab_from (note_reroute prev s) = lab_from s" "lab_to (note_reroute prev s) = lab_to s"
  "lab_keysPerS (note_reroute prev s) = lab_keysPerS s"
  "lab_demandCredit (note_reroute prev s) = lab_demandCredit s"
  "lab_route (note_reroute prev s) = lab_route s" "lab_routeNone (note_reroute prev s) = lab_routeNone s"
  "lab_alternatives (note_reroute prev s) = lab_alternatives s"
  "lab_rejected (note_reroute prev s) = lab_rejected s"
  "lab_delivered (note_reroute prev s) = lab_delivered s" "lab_unmet (note_reroute prev s) = lab_unmet s"
  "lab_ok (note_reroute prev s) = lab_ok s" "lab_failed (note_reroute prev s) = lab_failed s"
  "lab_service (note_reroute prev s) = lab_service s" "lab_km (note_reroute prev s) = lab_km s"
  "lab_ksid (note_reroute prev s) = lab_ksid s" "lab_lastStatus (note_reroute prev s) = lab_lastStatus s"
  "lab_messages (note_reroute prev s) = lab_messages s"
  "lab_lastRelay (note_reroute prev s) = lab_lastRelay s"
  "lab_history (note_reroute prev s) = lab_history s"
  "lab_pendingEvent (note_reroute prev s) = lab_pendingEvent s"
  "lab_paceMs (note_reroute prev s) = lab_paceMs s" "lab_lastTick (note_reroute prev s) = lab_lastTick s"
  "lab_traceSteps (note_reroute prev s) = lab_traceSteps s"
  "lab_traceRelay (note_reroute prev s) = lab_traceRelay s" "lab_seeds (note_reroute prev s) = lab_seeds s"
  "lab_draws (note_reroute prev s) = lab_draws s" "lab_ksids (note_reroute prev s) = lab_ksids s"
  by (simp_all add: note_reroute_def Let_def)

lemma chooseRoute_frame [simp]:
  "lab_status (chooseRoute n s) = lab_status s" "lab_timer (chooseRoute n s) = lab_timer s"
  "lab_lastAdvance (chooseRoute n s) = lab_lastAdvance s"
  "lab_lastTickStart (chooseRoute n s) = lab_lastTickStart s" "lab_preset (chooseRoute n s) = lab_preset s"
  "lab_scenario (chooseRoute n s) = lab_scenario s" "lab_accounting (chooseRoute n s) = lab_accounting s"
  "lab_tickS (chooseRoute n s) = lab_tickS s" "lab_tickN (chooseRoute n s) = lab_tickN s"
  "lab_links (chooseRoute n s) = lab_links s" "lab_downNodes (chooseRoute n s) = lab_downNodes s"
  "lab_credit (chooseRoute n s) = lab_credit s" "lab_from (chooseRoute n s) = lab_from s"
  "lab_to (chooseRoute n s) = lab_to s" "lab_keysPerS (chooseRoute n s) = lab_keysPerS s"
  "lab_demandCredit (chooseRoute n s) = lab_demandCredit s"
  "lab_delivered (chooseRoute n s) = lab_delivered s" "lab_unmet (chooseRoute n s) = lab_unmet s"
  "lab_ok (chooseRoute n s) = lab_ok s" "lab_failed (chooseRoute n s) = lab_failed s"
  "lab_service (chooseRoute n s) = lab_service s" "lab_km (chooseRoute n s) = lab_km s"
  "lab_ksid (chooseRoute n s) = lab_ksid s" "lab_lastStatus (chooseRoute n s) = lab_lastStatus s"
  "lab_messages (chooseRoute n s) = lab_messages s" "lab_lastRelay (chooseRoute n s) = lab_lastRelay s"
  "lab_history (chooseRoute n s) = lab_history s" "lab_pendingEvent (chooseRoute n s) = lab_pendingEvent s"
  "lab_paceMs (chooseRoute n s) = lab_paceMs s" "lab_lastTick (chooseRoute n s) = lab_lastTick s"
  "lab_traceSteps (chooseRoute n s) = lab_traceSteps s"
  "lab_traceRelay (chooseRoute n s) = lab_traceRelay s" "lab_seeds (chooseRoute n s) = lab_seeds s"
  "lab_draws (chooseRoute n s) = lab_draws s" "lab_ksids (chooseRoute n s) = lab_ksids s"
  by (simp_all add: chooseRoute_def Let_def)

lemma relaySample_frame [simp]:
  "lab_status (snd (relaySample p s)) = lab_status s" "lab_timer (snd (relaySample p s)) = lab_timer s"
  "lab_lastAdvance (snd (relaySample p s)) = lab_lastAdvance s"
  "lab_lastTickStart (snd (relaySample p s)) = lab_lastTickStart s"
  "lab_preset (snd (relaySample p s)) = lab_preset s"
  "lab_scenario (snd (relaySample p s)) = lab_scenario s"
  "lab_accounting (snd (relaySample p s)) = lab_accounting s"
  "lab_tickS (snd (relaySample p s)) = lab_tickS s" "lab_tickN (snd (relaySample p s)) = lab_tickN s"
  "lab_links (snd (relaySample p s)) = lab_links s"
  "lab_downNodes (snd (relaySample p s)) = lab_downNodes s"
  "lab_credit (snd (relaySample p s)) = lab_credit s" "lab_from (snd (relaySample p s)) = lab_from s"
  "lab_to (snd (relaySample p s)) = lab_to s" "lab_keysPerS (snd (relaySample p s)) = lab_keysPerS s"
  "lab_demandCredit (snd (relaySample p s)) = lab_demandCredit s"
  "lab_route (snd (relaySample p s)) = lab_route s"
  "lab_routeNone (snd (relaySample p s)) = lab_routeNone s"
  "lab_alternatives (snd (relaySample p s)) = lab_alternatives s"
  "lab_rejected (snd (relaySample p s)) = lab_rejected s"
  "lab_reroutes (snd (relaySample p s)) = lab_reroutes s"
  "lab_delivered (snd (relaySample p s)) = lab_delivered s"
  "lab_unmet (snd (relaySample p s)) = lab_unmet s" "lab_ok (snd (relaySample p s)) = lab_ok s"
  "lab_failed (snd (relaySample p s)) = lab_failed s" "lab_service (snd (relaySample p s)) = lab_service s"
  "lab_km (snd (relaySample p s)) = lab_km s" "lab_ksid (snd (relaySample p s)) = lab_ksid s"
  "lab_lastStatus (snd (relaySample p s)) = lab_lastStatus s"
  "lab_messages (snd (relaySample p s)) = lab_messages s"
  "lab_history (snd (relaySample p s)) = lab_history s"
  "lab_pendingEvent (snd (relaySample p s)) = lab_pendingEvent s"
  "lab_paceMs (snd (relaySample p s)) = lab_paceMs s"
  "lab_lastTick (snd (relaySample p s)) = lab_lastTick s"
  "lab_traceSteps (snd (relaySample p s)) = lab_traceSteps s"
  "lab_traceRelay (snd (relaySample p s)) = lab_traceRelay s"
  "lab_seeds (snd (relaySample p s)) = lab_seeds s" "lab_ksids (snd (relaySample p s)) = lab_ksids s"
  by (simp_all add: relaySample_def Let_def)

lemma openStream_frame [simp]:
  "lab_status (openStream p s) = lab_status s" "lab_timer (openStream p s) = lab_timer s"
  "lab_lastAdvance (openStream p s) = lab_lastAdvance s"
  "lab_lastTickStart (openStream p s) = lab_lastTickStart s" "lab_preset (openStream p s) = lab_preset s"
  "lab_scenario (openStream p s) = lab_scenario s" "lab_accounting (openStream p s) = lab_accounting s"
  "lab_tickS (openStream p s) = lab_tickS s" "lab_tickN (openStream p s) = lab_tickN s"
  "lab_links (openStream p s) = lab_links s" "lab_downNodes (openStream p s) = lab_downNodes s"
  "lab_credit (openStream p s) = lab_credit s" "lab_from (openStream p s) = lab_from s"
  "lab_to (openStream p s) = lab_to s" "lab_keysPerS (openStream p s) = lab_keysPerS s"
  "lab_demandCredit (openStream p s) = lab_demandCredit s" "lab_route (openStream p s) = lab_route s"
  "lab_routeNone (openStream p s) = lab_routeNone s"
  "lab_alternatives (openStream p s) = lab_alternatives s" "lab_rejected (openStream p s) = lab_rejected s"
  "lab_reroutes (openStream p s) = lab_reroutes s" "lab_delivered (openStream p s) = lab_delivered s"
  "lab_unmet (openStream p s) = lab_unmet s" "lab_ok (openStream p s) = lab_ok s"
  "lab_failed (openStream p s) = lab_failed s" "lab_service (openStream p s) = lab_service s"
  "lab_lastStatus (openStream p s) = lab_lastStatus s" "lab_lastRelay (openStream p s) = lab_lastRelay s"
  "lab_history (openStream p s) = lab_history s" "lab_pendingEvent (openStream p s) = lab_pendingEvent s"
  "lab_paceMs (openStream p s) = lab_paceMs s" "lab_lastTick (openStream p s) = lab_lastTick s"
  "lab_traceSteps (openStream p s) = lab_traceSteps s" "lab_traceRelay (openStream p s) = lab_traceRelay s"
  "lab_seeds (openStream p s) = lab_seeds s" "lab_draws (openStream p s) = lab_draws s"
  by (simp_all add: openStream_def Let_def split: prod.splits option.splits)

end
