(* ===== verification/Lab_Tick.thy ===== *)
theory Lab_Tick
  imports Lab_State
begin

text \<open>
  The Protocol Lab simulator, second part: what one tick does, in each of the four accountings
  (\<^verbatim>\<open>advance\<close> of \<^verbatim>\<open>lib/sim/protocolLabSim.ts\<close> and the methods it calls).

  The loop of \<^verbatim>\<open>refillStream\<close> is run with fuel \<open>LOW_WM\<close>: each round leaves one more undelivered chunk, and
  the loop stops at \<open>LOW_WM\<close> of them; \<open>refill_loop_exit\<close> shows it has stopped by then. A quantity that does
  not parse would throw; by \<open>published_tables_wf\<close> every published one parses, and \<open>qval\<close> reads it.
\<close>

definition qval :: "quantity \<Rightarrow> rat" where
  "qval q = (case quantityValue q of None \<Rightarrow> 0 | Some v \<Rightarrow> v)"

fun update_first :: "string \<Rightarrow> (link_state \<Rightarrow> link_state) \<Rightarrow> link_state list \<Rightarrow> link_state list" where
  "update_first i f [] = []"
| "update_first i f (l # ls) = (if ls_id l = i then f l # ls else l # update_first i f ls)"

section \<open>Generation\<close>

definition credit_of :: "(string \<times> rat) list \<Rightarrow> string \<Rightarrow> rat" where
  "credit_of cr i = (case map_of cr i of None \<Rightarrow> 0 | Some c \<Rightarrow> c)"

definition keys_made :: "rat \<Rightarrow> int \<Rightarrow> int" where
  "keys_made c stored = min (min \<lfloor>c\<rfloor> (LOW_WM - stored)) (MAX_KEYS - stored)"

definition gen_link :: "rat \<Rightarrow> (string \<times> rat) list \<Rightarrow> link_state \<Rightarrow> (string \<times> rat) list \<times> link_state \<times> int" where
  "gen_link tickS cr l = (case (genBps l, storedKeys l) of
     (Some g, Some stored) \<Rightarrow>
       if ls_kind l \<noteq> Qkd \<or> down l then (cr, l, 0)
       else if LOW_WM \<le> stored then (AList.update (ls_id l) 0 cr, l, 0)
       else let c = credit_of cr (ls_id l) + g * tickS / KEY_BITS; made = keys_made c stored;
                stored' = stored + made
            in (AList.update (ls_id l) (if LOW_WM \<le> stored' then 0 else c - of_int made) cr,
                l\<lparr>storedKeys := Some stored'\<rparr>, made)
   | _ \<Rightarrow> (cr, l, 0))"

fun gen_links :: "rat \<Rightarrow> (string \<times> rat) list \<Rightarrow> link_state list \<Rightarrow> (string \<times> rat) list \<times> link_state list \<times> int \<times> int" where
  "gen_links tickS cr [] = (cr, [], 0, 0)"
| "gen_links tickS cr (l # ls) =
     (let (cr1, l1, made) = gen_link tickS cr l; (cr2, ls2, keys, n) = gen_links tickS cr1 ls
      in (cr2, l1 # ls2, if 0 < made then made + keys else keys, if 0 < made then 1 + n else n))"

definition generateKeys :: "lab \<Rightarrow> int \<times> int \<times> lab" where
  "generateKeys s = (let (cr, ls, keys, n) = gen_links (lab_tickS s) (lab_credit s) (lab_links s)
     in (keys, n, s\<lparr>lab_credit := cr, lab_links := ls\<rparr>))"

section \<open>Relay into the stream\<close>

definition stored_keys :: "link_state \<Rightarrow> int" where
  "stored_keys l = (case storedKeys l of None \<Rightarrow> 0 | Some k \<Rightarrow> k)"

definition stored_bits :: "link_state \<Rightarrow> rat" where
  "stored_bits l = (case storedBits l of None \<Rightarrow> 0 | Some b \<Rightarrow> b)"

definition spend_key :: "link_state \<Rightarrow> link_state" where
  "spend_key l = l\<lparr>storedKeys := Some (stored_keys l - 1)\<rparr>"

definition spend_bits :: "rat \<Rightarrow> link_state \<Rightarrow> link_state" where
  "spend_bits need l = l\<lparr>storedBits := Some (stored_bits l - need)\<rparr>"

definition spend_on :: "(link_state \<Rightarrow> link_state) \<Rightarrow> string list \<Rightarrow> link_state list \<Rightarrow> link_state list" where
  "spend_on f ids ls = fold (\<lambda>i. update_first i f) ids ls"

definition bits_or_0 :: "rat option \<Rightarrow> rat" where
  "bits_or_0 b = (case b of None \<Rightarrow> 0 | Some v \<Rightarrow> v)"

definition waiting_text :: "link_state list \<Rightarrow> route_choice \<Rightarrow> tmpl" where
  "waiting_text ls r = [Txt ''waiting for key on '',
     Txt (case List.find (\<lambda>i. case find_link ls i of None \<Rightarrow> False | Some l \<Rightarrow> stored_keys l < 1) (linkIds r) of
            None \<Rightarrow> ''undefined'' | Some i \<Rightarrow> i)]"

definition relay_one :: "platform \<Rightarrow> string \<Rightarrow> route_choice \<Rightarrow> lab \<Rightarrow> lab" where
  "relay_one p k r s =
     (let s1 = s\<lparr>lab_links := spend_on spend_key (linkIds r) (lab_links s)\<rparr>;
          (key, s2) = relaySample p s1
      in s2\<lparr>lab_km := snd (km_supply (lab_km_env p s2) k key (int (relays r)) (lab_km s2))\<rparr>)"

fun refill_loop :: "nat \<Rightarrow> platform \<Rightarrow> string \<Rightarrow> lab \<Rightarrow> nat \<times> tmpl option \<times> lab" where
  "refill_loop 0 p k s = (0, None, s)"
| "refill_loop (Suc f) p k s =
     (if undelivered k A (lab_km s) < LOW_WM then
        let s1 = chooseRoute KEY_BITS s in
        case lab_route s1 of None \<Rightarrow> (0, None, s1)
        | Some r \<Rightarrow>
            if bits_or_0 (bottleneckBits r) < KEY_BITS then (0, Some (waiting_text (lab_links s1) r), s1)
            else let (n, w, s2) = refill_loop f p k (relay_one p k r s1) in (Suc n, w, s2)
      else (0, None, s))"

definition log_refill :: "nat \<Rightarrow> tmpl option \<Rightarrow> lab \<Rightarrow> lab" where
  "log_refill relayed waiting s =
     (case (if 0 < relayed then lab_route s else None) of
       Some r \<Rightarrow> lab_log Lane014 [Val (of_nat relayed), Txt '' key(s) relayed over '', Txt (routeKey (route_nodes r)),
           Txt '': per hop enc_keys + dec_keys, size '', Val KEY_BITS, Txt '' '', Txt size_unit] None None s
     | None \<Rightarrow> (case waiting of
         Some w \<Rightarrow> lab_log Lane014 ([Txt ''no relay this tick: ''] @ w @ [Txt '' (enc_keys on an empty pool is HTTP '',
             Val (of_int http_poolEmpty), Txt '' on this stack)'']) None None s
       | None \<Rightarrow> (case (lab_route s, lab_routeNone s) of
           (None, Some w) \<Rightarrow> if w = [] then s else lab_log Lane014 [Txt ''no relay: '', Txt w,
               Txt '' (a KME with an empty pool answers enc_keys with HTTP '', Val (of_int http_poolEmpty), Txt '')''] None None s
         | _ \<Rightarrow> s)))"

definition refillStream :: "platform \<Rightarrow> lab \<Rightarrow> nat \<times> tmpl option \<times> lab" where
  "refillStream p s = (case lab_ksid s of
     None \<Rightarrow> (0, None, s)
   | Some k \<Rightarrow>
       if \<not> isEstablished (Some k) (lab_km s) \<or> lab_route s = None then (0, None, s)
       else let (relayed, waiting, s1) = refill_loop (nat LOW_WM) p k s
            in (relayed, waiting, log_refill relayed waiting s1))"

section \<open>Reading the stream on both ends\<close>

fun status_paraphrase :: "status_id \<Rightarrow> string" where
  "status_paraphrase SUCCESSFUL = ''The call succeeded.''"
| "status_paraphrase PEER_NOT_CONNECTED = ''The association was created, but the peer application has not connected yet.''"
| "status_paraphrase INSUFFICIENT_KEY = ''Not enough key was available to serve the request.''"
| "status_paraphrase PEER_APP_NOT_CONNECTED = ''The peer application has not connected to this stream yet.''"
| "status_paraphrase NO_QKD_CONNECTION = ''No QKD connection is available.''"
| "status_paraphrase KSID_IN_USE = ''The requested Key_stream_ID is already in use.''"
| "status_paraphrase TIMEOUT = ''The call did not complete within the QoS Timeout.''"
| "status_paraphrase QOS_NOT_MET = ''The requested QoS could not be met; the returned QoS is a counter-proposal.''"
| "status_paraphrase METADATA_TOO_SMALL = ''The metadata buffer was too small; no key was delivered and the returned Metadata_size is the size needed.''"

definition fail_text :: "call_result \<Rightarrow> string" where
  "fail_text r = (case detail r of Some d \<Rightarrow> d
   | None \<Rightarrow> (case statusById (case res_status r of None \<Rightarrow> 0 | Some c \<Rightarrow> c) of
       Some i \<Rightarrow> status_paraphrase i | None \<Rightarrow> []))"

definition index_or :: "int option \<Rightarrow> int" where
  "index_or i = (case i of None \<Rightarrow> -1 | Some v \<Rightarrow> v)"

record reads =
  rd_ok :: nat
  rd_first :: int
  rd_last :: int
  rd_fail :: "call_result option"

text \<open>The \<^verbatim>\<open>for\<close> loop over the due requests; \<open>n\<close> is the number still to make.\<close>

fun read_loop :: "km_env \<Rightarrow> string \<Rightarrow> nat \<Rightarrow> reads \<Rightarrow> km \<Rightarrow> reads \<times> km" where
  "read_loop env k 0 rd km = (rd, km)"
| "read_loop env k (Suc n) rd km =
     (let (a, km1) = getKey env A k None 0 km in
      if res_status a \<noteq> Some (statusCode SUCCESSFUL) then (rd\<lparr>rd_fail := Some a\<rparr>, km1)
      else let (b, km2) = getKey env B k (index a) 0 km1 in
      if res_status b \<noteq> Some (statusCode SUCCESSFUL) then (rd\<lparr>rd_fail := Some b\<rparr>, km2)
      else read_loop env k n (rd\<lparr>rd_ok := Suc (rd_ok rd),
             rd_first := (if rd_first rd < 0 then index_or (index a) else rd_first rd),
             rd_last := index_or (index a)\<rparr>) km2)"

record consumed =
  cs_delivered :: rat
  cs_unmet :: rat
  cs_requested :: nat
  cs_served :: nat
  cs_why :: "string option"

definition log_reads :: "reads \<Rightarrow> nat \<Rightarrow> rat \<Rightarrow> lab \<Rightarrow> lab" where
  "log_reads rd n bits s =
     (let s1 = (if 0 < rd_ok rd
        then lab_log Lane004 [Txt ''GET_KEY x'', Val (of_nat (rd_ok rd)), Txt '' on both sides, index '', Val (of_int (rd_first rd)),
               Txt ''..'', Val (of_int (rd_last rd)), Txt '', Key_chunk_size '', Val (bits / 8), Txt '' bytes, metadata hops '',
               Val (case lab_route s of None \<Rightarrow> 0 | Some r \<Rightarrow> of_nat (relays r))]
             (Some (statusCode SUCCESSFUL)) (Some T11) (s\<lparr>lab_lastStatus := Some (statusCode SUCCESSFUL)\<rparr>)
        else s)
      in case rd_fail rd of None \<Rightarrow> s1
         | Some f \<Rightarrow> lab_log Lane004 [Txt ''GET_KEY x'', Val (of_nat (n - rd_ok rd)), Txt '' failed: '', Txt (fail_text f)]
             (res_status f) (Some (via f)) (s1\<lparr>lab_lastStatus := res_status f\<rparr>))"

definition consumeStream :: "platform \<Rightarrow> lab \<Rightarrow> consumed \<times> lab" where
  "consumeStream p s0 =
     (let credit = lab_demandCredit s0 + (case lab_keysPerS s0 of None \<Rightarrow> 0 | Some v \<Rightarrow> v) * lab_tickS s0;
          n = nat \<lfloor>credit\<rfloor>;
          s = s0\<lparr>lab_demandCredit := credit - of_int \<lfloor>credit\<rfloor>\<rparr>
      in if n = 0 then (\<lparr>cs_delivered = 0, cs_unmet = 0, cs_requested = 0, cs_served = 0, cs_why = None\<rparr>, s)
         else case lab_ksid s of
           None \<Rightarrow> (\<lparr>cs_delivered = 0, cs_unmet = of_nat n * KEY_BITS, cs_requested = n, cs_served = 0, cs_why = Some ''no stream''\<rparr>,
             lab_log Lane004 [Txt ''GET_KEY x'', Val (of_nat n), Txt '': no stream (OPEN_CONNECT has not succeeded)'']
               (Some (statusCode NO_QKD_CONNECTION)) None
               (s\<lparr>lab_failed := lab_failed s + of_nat n, lab_lastStatus := Some (statusCode NO_QKD_CONNECTION)\<rparr>))
         | Some k \<Rightarrow>
             let (rd, km') = read_loop (lab_km_env p s) k n \<lparr>rd_ok = 0, rd_first = -1, rd_last = -1, rd_fail = None\<rparr> (lab_km s);
                 s1 = s\<lparr>lab_km := km', lab_ok := lab_ok s + of_nat (rd_ok rd), lab_failed := lab_failed s + of_nat (n - rd_ok rd)\<rparr>;
                 bits = of_int (case chunkBytes k km' of None \<Rightarrow> int KEY_BYTES | Some c \<Rightarrow> c) * 8
             in (\<lparr>cs_delivered = of_nat (rd_ok rd) * bits, cs_unmet = of_nat (n - rd_ok rd) * bits, cs_requested = n,
                  cs_served = rd_ok rd, cs_why = map_option fail_text (rd_fail rd)\<rparr>,
                 log_reads rd n bits s1))"

section \<open>The tick\<close>

text \<open>Each accounting's part of \<^verbatim>\<open>advance\<close> returns the bits delivered and unmet in this tick.\<close>

definition is_established :: "lab \<Rightarrow> bool" where
  "is_established s \<longleftrightarrow> lab_ksid s \<noteq> None \<and> isEstablished (lab_ksid s) (lab_km s)"

definition trace_generate :: "int \<Rightarrow> int \<Rightarrow> lab \<Rightarrow> lab" where
  "trace_generate keys n s =
     (if 0 < keys then traceStep S_generate O_ok
        [Txt ''+'', Val (of_int keys), Txt '' key(s) on '', Val (of_int n), Txt '' link(s)''] s
      else traceStep S_generate O_idle [Txt ''no whole key this tick''] s)"

definition trace_stream :: "lab \<Rightarrow> lab" where
  "trace_stream s =
     (if is_established s then traceStep S_stream O_ok [Txt ''ESTABLISHED''] s
      else traceStep S_stream O_fail [Txt (if lab_from s = lab_to s then ''source and destination are one node''
                                           else ''OPEN_CONNECT refused'')] s)"

definition trace_relay_keys :: "bool \<Rightarrow> nat \<Rightarrow> tmpl option \<Rightarrow> lab \<Rightarrow> lab" where
  "trace_relay_keys established relayed waiting s =
     (case (if 0 < relayed then lab_route s else None) of
       Some r \<Rightarrow> traceRelayOver [Val (of_nat relayed), Txt '' key(s)'']
         (traceStep S_relay O_ok [Val (of_nat relayed), Txt '' key(s) over '', Val (of_nat (hops r)), Txt '' hop(s)''] s)
     | None \<Rightarrow> (case waiting of
         Some w \<Rightarrow> traceStep S_relay O_wait w s
       | None \<Rightarrow>
           if lab_route s = None \<or> \<not> established
           then traceStep S_relay O_fail [Txt (if lab_route s = None then ''no route'' else ''no stream to relay into'')] s
           else traceStep S_relay O_idle [Txt ''the stream holds enough keys''] s))"

definition why_text :: "string option \<Rightarrow> string \<Rightarrow> string" where
  "why_text w d = (case w of None \<Rightarrow> d | Some x \<Rightarrow> x)"

definition trace_deliver_keys :: "consumed \<Rightarrow> lab \<Rightarrow> lab" where
  "trace_deliver_keys r s =
     (if cs_requested r = 0 then traceStep S_deliver O_idle [Txt ''no request due this tick''] s
      else if cs_served r = cs_requested r then traceStep S_deliver O_ok [Val (of_nat (cs_served r)), Txt '' key(s) delivered''] s
      else if 0 < cs_served r then traceStep S_deliver O_wait [Val (of_nat (cs_served r)), Txt '' of '',
             Val (of_nat (cs_requested r)), Txt '': '', Txt (why_text (cs_why r) ''null'')] s
      else traceStep S_deliver O_fail [Txt (why_text (cs_why r) ''refused'')] s)"

definition generate_stage :: "lab \<Rightarrow> lab" where
  "generate_stage s = (let (keys, n, s1) = generateKeys s in trace_generate keys n s1)"

definition stream_stage :: "platform \<Rightarrow> lab \<Rightarrow> lab" where
  "stream_stage p s = trace_stream (if is_established s then s else openStream p s)"

definition relay_stage :: "platform \<Rightarrow> lab \<Rightarrow> lab" where
  "relay_stage p s =
     (let established = is_established s; s1 = traceRoute (chooseRoute KEY_BITS s);
          (relayed, waiting, s2) = refillStream p s1
      in trace_relay_keys established relayed waiting s2)"

definition advance_keys :: "platform \<Rightarrow> lab \<Rightarrow> rat \<times> rat \<times> lab" where
  "advance_keys p s =
     (let (r, s1) = consumeStream p (relay_stage p (stream_stage p (generate_stage s)))
      in (cs_delivered r, cs_unmet r, trace_deliver_keys r s1))"

definition grows_now :: "(string \<times> generation) list \<Rightarrow> rat \<Rightarrow> link_state \<Rightarrow> bool" where
  "grows_now gen t l = (case map_of gen (ls_id l) of
     Some (Gen_equals_demand until_q) \<Rightarrow> t \<le> qval until_q \<and> storedBits l \<noteq> None | _ \<Rightarrow> False)"

definition grow_stores :: "rat \<Rightarrow> (string \<times> generation) list \<Rightarrow> lab \<Rightarrow> lab" where
  "grow_stores need gen s = s\<lparr>lab_links := map (\<lambda>l. if grows_now gen (sim_time s) l
     then l\<lparr>storedBits := Some (stored_bits l + need)\<rparr> else l) (lab_links s)\<rparr>"

definition trace_growing :: "string list \<Rightarrow> lab \<Rightarrow> lab" where
  "trace_growing growing s =
     (if growing \<noteq> [] then traceStep S_generate O_ok [Txt (js_join '', '' growing), Txt '', as fast as the demand''] s
      else traceStep S_generate O_idle [Txt ''no store generating now''] s)"

definition stores_select :: "rat \<Rightarrow> (string \<times> generation) list \<Rightarrow> lab \<Rightarrow> lab" where
  "stores_select need gen s =
     traceRoute (chooseRoute need (trace_growing (map ls_id (filter (grows_now gen (sim_time s)) (lab_links s)))
       (grow_stores need gen s)))"

definition stores_deliver :: "platform \<Rightarrow> rat \<Rightarrow> route_choice \<Rightarrow> lab \<Rightarrow> lab" where
  "stores_deliver p need r s =
     (let s1 = snd (relaySample p (s\<lparr>lab_links := spend_on (spend_bits need) (linkIds r) (lab_links s)\<rparr>));
          s2 = lab_log Lane014 [Txt ''per hop over '', Txt (routeKey (route_nodes r)), Txt '': enc_keys/dec_keys for '',
                 Val need, Txt '' bits ('', Txt size_unit, Txt '')''] None None s1;
          s3 = traceStep S_relay O_ok [Val need, Txt '' bits from each of '', Val (of_nat (hops r)), Txt '' store(s)''] s2
      in traceStep S_deliver O_ok [Val need, Txt '' bits delivered''] (traceRelayOver [Val need, Txt '' bits''] s3))"

definition stores_refuse :: "rat \<Rightarrow> lab \<Rightarrow> lab" where
  "stores_refuse need s =
     traceStep S_deliver O_fail [Val need, Txt '' bits unmet'']
       (traceStep S_relay O_fail [Txt ''no route of stores above threshold'']
         (lab_log Lane004 [Txt ''GET_KEY: no route of stores above threshold''] (Some (statusCode NO_QKD_CONNECTION)) None s))"

definition advance_stores :: "platform \<Rightarrow> rat \<Rightarrow> (string \<times> generation) list \<Rightarrow> lab \<Rightarrow> rat \<times> rat \<times> lab" where
  "advance_stores p rate gen s =
     (let need = rate * lab_tickS s; s1 = stores_select need gen s
      in case lab_route s1 of
           Some r \<Rightarrow> (need, 0, stores_deliver p need r s1)
         | None \<Rightarrow> (0, need, stores_refuse need s1))"

definition trace_served :: "rat \<Rightarrow> rat \<Rightarrow> lab \<Rightarrow> lab" where
  "trace_served whole served s =
     traceStep S_deliver (if whole = 0 then O_idle else if served = whole then O_ok else if 0 < served then O_wait else O_fail)
       (if whole = 0 then [Txt ''no key due this tick'']
        else [Val served, Txt '' of '', Val whole, Txt '' key(s) served'']) s"

definition service_refilled :: "platform \<Rightarrow> service_state \<Rightarrow> rat \<Rightarrow> route_choice \<Rightarrow> lab \<Rightarrow> lab" where
  "service_refilled p svc keys r s =
     (let s1 = snd (relaySample p (s\<lparr>lab_service := Some (svc\<lparr>sv_stored := sv_refillTo svc, sv_refills := Suc (sv_refills svc)\<rparr>)\<rparr>));
          s2 = lab_log Lane014 [Txt ''refill '', Val keys, Txt '' keys over '', Txt (routeKey (route_nodes r)),
                 Txt '' (one-time-pad tunnels; '', Val (keys * KEY_BITS), Txt '' bits at '', Val KEY_BITS,
                 Txt '' bits per key from '', Txt KEY_BITS_SOURCE, Txt '')''] None None s1
      in traceRelayOver [Val keys, Txt '' key(s)''] (traceStep S_relay O_ok [Txt ''refilled '', Val keys, Txt '' key(s)''] s2))"

definition service_refill_failed :: "service_state \<Rightarrow> rat \<Rightarrow> lab \<Rightarrow> lab" where
  "service_refill_failed svc keys s =
     (let s1 = s\<lparr>lab_service := Some (svc\<lparr>sv_failedRefills := Suc (sv_failedRefills svc)\<rparr>)\<rparr>;
          s2 = lab_log Lane014 [Txt ''refill of '', Val keys, Txt '' keys failed: '',
                 Txt (case lab_routeNone s1 of None \<Rightarrow> ''no route'' | Some w \<Rightarrow> w)] None None s1
      in traceStep S_relay O_fail [Txt ''refill of '', Val keys, Txt '' key(s) failed''] s2)"

definition refill_service :: "platform \<Rightarrow> service_state \<Rightarrow> lab \<Rightarrow> lab" where
  "refill_service p svc s =
     (if sv_stored svc \<le> sv_refillAt svc then
        let keys = sv_refillTo svc - sv_stored svc; s1 = traceRoute (chooseRoute (keys * KEY_BITS) s)
        in case lab_route s1 of Some r \<Rightarrow> service_refilled p svc keys r s1 | None \<Rightarrow> service_refill_failed svc keys s1
      else traceStep S_relay O_idle [Txt ''the store is above '', Val (sv_refillAt svc), Txt '' keys'']
        (traceRoute (chooseRoute 0 s)))"

definition serve_due :: "rat \<Rightarrow> service_state \<Rightarrow> rat \<times> service_state" where
  "serve_due whole svc = (let served = min whole (sv_stored svc) in (served, svc\<lparr>sv_stored := sv_stored svc - served\<rparr>))"

definition advance_service :: "platform \<Rightarrow> rat \<Rightarrow> service_state \<Rightarrow> lab \<Rightarrow> rat \<times> rat \<times> lab" where
  "advance_service p rate svc s =
     (let credit = lab_demandCredit s + rate * lab_tickS s; whole = of_int \<lfloor>credit\<rfloor>;
          (served, svc1) = serve_due whole svc;
          s1 = s\<lparr>lab_demandCredit := credit - whole, lab_service := Some svc1,
                 lab_ok := lab_ok s + served, lab_failed := lab_failed s + (whole - served)\<rparr>
      in (served * KEY_BITS, (whole - served) * KEY_BITS, refill_service p svc1 (trace_served whole served s1)))"

definition advance_mode :: "platform \<Rightarrow> lab \<Rightarrow> rat \<times> rat \<times> lab" where
  "advance_mode p s = (case (lab_accounting s, lab_scenario s, lab_service s) of
     (Acc_keys, _, _) \<Rightarrow> advance_keys p s
   | (Acc_stores, Some sc, _) \<Rightarrow>
       advance_stores p (qval (s_rate sc)) (case s_kind sc of Stores th st gen \<Rightarrow> gen | _ \<Rightarrow> []) s
   | (Acc_service_buffer, Some sc, Some svc) \<Rightarrow> advance_service p (qval (s_rate sc)) svc s
   | _ \<Rightarrow> (0, 0, traceRoute (chooseRoute KEY_BITS s)))"

definition tick_buffers :: "lab \<Rightarrow> (string \<times> rat option) list" where
  "tick_buffers s = map (\<lambda>l. (ls_id l, case lab_accounting s of
     Acc_stores \<Rightarrow> storedBits l | Acc_keys \<Rightarrow> map_option of_int (storedKeys l) | _ \<Rightarrow> None)) (lab_links s)"

text \<open>\<open>now\<close> is \<^verbatim>\<open>Date.now()\<close>, read once.\<close>

definition begin_tick :: "int \<Rightarrow> lab \<Rightarrow> lab" where
  "begin_tick now s = s\<lparr>lab_lastTickStart := Some now, lab_tickN := Suc (lab_tickN s),
     lab_pendingEvent := [], lab_traceSteps := [], lab_traceRelay := None\<rparr>"

definition finish_tick :: "int \<Rightarrow> int option \<Rightarrow> string list \<Rightarrow> rat \<Rightarrow> rat \<Rightarrow> lab \<Rightarrow> lab" where
  "finish_tick now dwell events deliveredNow unmetNow s =
     (let rec = \<lparr>r_tick = lab_tickN s, r_sim_time_s = sim_time s, r_started_at = now, r_ui_dwell_ms = dwell,
            r_nominal_dwell_ms = lab_paceMs s,
            r_route = (case lab_route s of None \<Rightarrow> [] | Some r \<Rightarrow> routeKey (route_nodes r)),
            r_relays = map_option relays (lab_route s), r_delivered_bits = deliveredNow, r_unmet_bits = unmetNow,
            r_event = js_join ''; '' events, r_buffers = tick_buffers s\<rparr>;
          s1 = s\<lparr>lab_delivered := lab_delivered s + deliveredNow, lab_unmet := lab_unmet s + unmetNow,
                 lab_history := push_shift HISTORY_LIMIT (lab_history s) rec,
                 lab_lastTick := Some \<lparr>tt_tick = lab_tickN s, tt_t = sim_time s, tt_steps = lab_traceSteps s, tt_relay = lab_traceRelay s\<rparr>\<rparr>
      in if lab_accounting s = Acc_stores \<and> lab_route s = None \<and> lab_status s = Running
         then s1\<lparr>lab_status := Paused, lab_timer := False\<rparr> else s1)"

definition advance :: "platform \<Rightarrow> int \<Rightarrow> lab \<Rightarrow> lab" where
  "advance p now s =
     (let dwell = map_option (\<lambda>t. now - t) (lab_lastTickStart s); events = lab_pendingEvent s;
          (d, u, s1) = advance_mode p (begin_tick now s)
      in finish_tick now dwell events d u s1)"

section \<open>What each part leaves alone\<close>

lemma generateKeys_frame [simp]:
  "lab_status (snd (snd (generateKeys s))) = lab_status s"
  "lab_timer (snd (snd (generateKeys s))) = lab_timer s"
  "lab_lastAdvance (snd (snd (generateKeys s))) = lab_lastAdvance s"
  "lab_lastTickStart (snd (snd (generateKeys s))) = lab_lastTickStart s"
  "lab_preset (snd (snd (generateKeys s))) = lab_preset s"
  "lab_scenario (snd (snd (generateKeys s))) = lab_scenario s"
  "lab_accounting (snd (snd (generateKeys s))) = lab_accounting s"
  "lab_tickS (snd (snd (generateKeys s))) = lab_tickS s"
  "lab_tickN (snd (snd (generateKeys s))) = lab_tickN s"
  "lab_downNodes (snd (snd (generateKeys s))) = lab_downNodes s"
  "lab_from (snd (snd (generateKeys s))) = lab_from s" "lab_to (snd (snd (generateKeys s))) = lab_to s"
  "lab_keysPerS (snd (snd (generateKeys s))) = lab_keysPerS s"
  "lab_demandCredit (snd (snd (generateKeys s))) = lab_demandCredit s"
  "lab_route (snd (snd (generateKeys s))) = lab_route s"
  "lab_routeNone (snd (snd (generateKeys s))) = lab_routeNone s"
  "lab_alternatives (snd (snd (generateKeys s))) = lab_alternatives s"
  "lab_rejected (snd (snd (generateKeys s))) = lab_rejected s"
  "lab_reroutes (snd (snd (generateKeys s))) = lab_reroutes s"
  "lab_delivered (snd (snd (generateKeys s))) = lab_delivered s"
  "lab_unmet (snd (snd (generateKeys s))) = lab_unmet s" "lab_ok (snd (snd (generateKeys s))) = lab_ok s"
  "lab_failed (snd (snd (generateKeys s))) = lab_failed s"
  "lab_service (snd (snd (generateKeys s))) = lab_service s"
  "lab_km (snd (snd (generateKeys s))) = lab_km s" "lab_ksid (snd (snd (generateKeys s))) = lab_ksid s"
  "lab_lastStatus (snd (snd (generateKeys s))) = lab_lastStatus s"
  "lab_messages (snd (snd (generateKeys s))) = lab_messages s"
  "lab_lastRelay (snd (snd (generateKeys s))) = lab_lastRelay s"
  "lab_history (snd (snd (generateKeys s))) = lab_history s"
  "lab_pendingEvent (snd (snd (generateKeys s))) = lab_pendingEvent s"
  "lab_paceMs (snd (snd (generateKeys s))) = lab_paceMs s"
  "lab_lastTick (snd (snd (generateKeys s))) = lab_lastTick s"
  "lab_traceSteps (snd (snd (generateKeys s))) = lab_traceSteps s"
  "lab_traceRelay (snd (snd (generateKeys s))) = lab_traceRelay s"
  "lab_seeds (snd (snd (generateKeys s))) = lab_seeds s"
  "lab_draws (snd (snd (generateKeys s))) = lab_draws s"
  "lab_ksids (snd (snd (generateKeys s))) = lab_ksids s"
  by (simp_all add: generateKeys_def split: prod.splits)

lemma relay_one_frame [simp]:
  "lab_status (relay_one p k r s) = lab_status s" "lab_timer (relay_one p k r s) = lab_timer s"
  "lab_lastAdvance (relay_one p k r s) = lab_lastAdvance s"
  "lab_lastTickStart (relay_one p k r s) = lab_lastTickStart s"
  "lab_preset (relay_one p k r s) = lab_preset s" "lab_scenario (relay_one p k r s) = lab_scenario s"
  "lab_accounting (relay_one p k r s) = lab_accounting s" "lab_tickS (relay_one p k r s) = lab_tickS s"
  "lab_tickN (relay_one p k r s) = lab_tickN s" "lab_downNodes (relay_one p k r s) = lab_downNodes s"
  "lab_credit (relay_one p k r s) = lab_credit s" "lab_from (relay_one p k r s) = lab_from s"
  "lab_to (relay_one p k r s) = lab_to s" "lab_keysPerS (relay_one p k r s) = lab_keysPerS s"
  "lab_demandCredit (relay_one p k r s) = lab_demandCredit s" "lab_route (relay_one p k r s) = lab_route s"
  "lab_routeNone (relay_one p k r s) = lab_routeNone s"
  "lab_alternatives (relay_one p k r s) = lab_alternatives s"
  "lab_rejected (relay_one p k r s) = lab_rejected s" "lab_reroutes (relay_one p k r s) = lab_reroutes s"
  "lab_delivered (relay_one p k r s) = lab_delivered s" "lab_unmet (relay_one p k r s) = lab_unmet s"
  "lab_ok (relay_one p k r s) = lab_ok s" "lab_failed (relay_one p k r s) = lab_failed s"
  "lab_service (relay_one p k r s) = lab_service s" "lab_ksid (relay_one p k r s) = lab_ksid s"
  "lab_lastStatus (relay_one p k r s) = lab_lastStatus s"
  "lab_messages (relay_one p k r s) = lab_messages s" "lab_history (relay_one p k r s) = lab_history s"
  "lab_pendingEvent (relay_one p k r s) = lab_pendingEvent s"
  "lab_paceMs (relay_one p k r s) = lab_paceMs s" "lab_lastTick (relay_one p k r s) = lab_lastTick s"
  "lab_traceSteps (relay_one p k r s) = lab_traceSteps s"
  "lab_traceRelay (relay_one p k r s) = lab_traceRelay s" "lab_seeds (relay_one p k r s) = lab_seeds s"
  "lab_ksids (relay_one p k r s) = lab_ksids s"
  by (simp_all add: relay_one_def Let_def case_prod_unfold)

lemma log_refill_frame [simp]:
  "lab_status (log_refill n w s) = lab_status s" "lab_timer (log_refill n w s) = lab_timer s"
  "lab_lastAdvance (log_refill n w s) = lab_lastAdvance s"
  "lab_lastTickStart (log_refill n w s) = lab_lastTickStart s"
  "lab_preset (log_refill n w s) = lab_preset s" "lab_scenario (log_refill n w s) = lab_scenario s"
  "lab_accounting (log_refill n w s) = lab_accounting s" "lab_tickS (log_refill n w s) = lab_tickS s"
  "lab_tickN (log_refill n w s) = lab_tickN s" "lab_links (log_refill n w s) = lab_links s"
  "lab_downNodes (log_refill n w s) = lab_downNodes s" "lab_credit (log_refill n w s) = lab_credit s"
  "lab_from (log_refill n w s) = lab_from s" "lab_to (log_refill n w s) = lab_to s"
  "lab_keysPerS (log_refill n w s) = lab_keysPerS s"
  "lab_demandCredit (log_refill n w s) = lab_demandCredit s" "lab_route (log_refill n w s) = lab_route s"
  "lab_routeNone (log_refill n w s) = lab_routeNone s"
  "lab_alternatives (log_refill n w s) = lab_alternatives s"
  "lab_rejected (log_refill n w s) = lab_rejected s" "lab_reroutes (log_refill n w s) = lab_reroutes s"
  "lab_delivered (log_refill n w s) = lab_delivered s" "lab_unmet (log_refill n w s) = lab_unmet s"
  "lab_ok (log_refill n w s) = lab_ok s" "lab_failed (log_refill n w s) = lab_failed s"
  "lab_service (log_refill n w s) = lab_service s" "lab_km (log_refill n w s) = lab_km s"
  "lab_ksid (log_refill n w s) = lab_ksid s" "lab_lastStatus (log_refill n w s) = lab_lastStatus s"
  "lab_lastRelay (log_refill n w s) = lab_lastRelay s" "lab_history (log_refill n w s) = lab_history s"
  "lab_pendingEvent (log_refill n w s) = lab_pendingEvent s" "lab_paceMs (log_refill n w s) = lab_paceMs s"
  "lab_lastTick (log_refill n w s) = lab_lastTick s" "lab_traceSteps (log_refill n w s) = lab_traceSteps s"
  "lab_traceRelay (log_refill n w s) = lab_traceRelay s" "lab_seeds (log_refill n w s) = lab_seeds s"
  "lab_draws (log_refill n w s) = lab_draws s" "lab_ksids (log_refill n w s) = lab_ksids s"
  by (simp_all add: log_refill_def split: option.splits)

lemma log_reads_frame [simp]:
  "lab_status (log_reads rd n b s) = lab_status s" "lab_timer (log_reads rd n b s) = lab_timer s"
  "lab_lastAdvance (log_reads rd n b s) = lab_lastAdvance s"
  "lab_lastTickStart (log_reads rd n b s) = lab_lastTickStart s"
  "lab_preset (log_reads rd n b s) = lab_preset s" "lab_scenario (log_reads rd n b s) = lab_scenario s"
  "lab_accounting (log_reads rd n b s) = lab_accounting s" "lab_tickS (log_reads rd n b s) = lab_tickS s"
  "lab_tickN (log_reads rd n b s) = lab_tickN s" "lab_links (log_reads rd n b s) = lab_links s"
  "lab_downNodes (log_reads rd n b s) = lab_downNodes s" "lab_credit (log_reads rd n b s) = lab_credit s"
  "lab_from (log_reads rd n b s) = lab_from s" "lab_to (log_reads rd n b s) = lab_to s"
  "lab_keysPerS (log_reads rd n b s) = lab_keysPerS s"
  "lab_demandCredit (log_reads rd n b s) = lab_demandCredit s"
  "lab_route (log_reads rd n b s) = lab_route s" "lab_routeNone (log_reads rd n b s) = lab_routeNone s"
  "lab_alternatives (log_reads rd n b s) = lab_alternatives s"
  "lab_rejected (log_reads rd n b s) = lab_rejected s" "lab_reroutes (log_reads rd n b s) = lab_reroutes s"
  "lab_delivered (log_reads rd n b s) = lab_delivered s" "lab_unmet (log_reads rd n b s) = lab_unmet s"
  "lab_ok (log_reads rd n b s) = lab_ok s" "lab_failed (log_reads rd n b s) = lab_failed s"
  "lab_service (log_reads rd n b s) = lab_service s" "lab_km (log_reads rd n b s) = lab_km s"
  "lab_ksid (log_reads rd n b s) = lab_ksid s" "lab_lastRelay (log_reads rd n b s) = lab_lastRelay s"
  "lab_history (log_reads rd n b s) = lab_history s"
  "lab_pendingEvent (log_reads rd n b s) = lab_pendingEvent s"
  "lab_paceMs (log_reads rd n b s) = lab_paceMs s" "lab_lastTick (log_reads rd n b s) = lab_lastTick s"
  "lab_traceSteps (log_reads rd n b s) = lab_traceSteps s"
  "lab_traceRelay (log_reads rd n b s) = lab_traceRelay s" "lab_seeds (log_reads rd n b s) = lab_seeds s"
  "lab_draws (log_reads rd n b s) = lab_draws s" "lab_ksids (log_reads rd n b s) = lab_ksids s"
  by (simp_all add: log_reads_def Let_def split: option.splits)

lemma consumeStream_frame [simp]:
  "lab_status (snd (consumeStream p s)) = lab_status s" "lab_timer (snd (consumeStream p s)) = lab_timer s"
  "lab_lastAdvance (snd (consumeStream p s)) = lab_lastAdvance s"
  "lab_lastTickStart (snd (consumeStream p s)) = lab_lastTickStart s"
  "lab_preset (snd (consumeStream p s)) = lab_preset s"
  "lab_scenario (snd (consumeStream p s)) = lab_scenario s"
  "lab_accounting (snd (consumeStream p s)) = lab_accounting s"
  "lab_tickS (snd (consumeStream p s)) = lab_tickS s" "lab_tickN (snd (consumeStream p s)) = lab_tickN s"
  "lab_links (snd (consumeStream p s)) = lab_links s"
  "lab_downNodes (snd (consumeStream p s)) = lab_downNodes s"
  "lab_credit (snd (consumeStream p s)) = lab_credit s" "lab_from (snd (consumeStream p s)) = lab_from s"
  "lab_to (snd (consumeStream p s)) = lab_to s" "lab_keysPerS (snd (consumeStream p s)) = lab_keysPerS s"
  "lab_route (snd (consumeStream p s)) = lab_route s"
  "lab_routeNone (snd (consumeStream p s)) = lab_routeNone s"
  "lab_alternatives (snd (consumeStream p s)) = lab_alternatives s"
  "lab_rejected (snd (consumeStream p s)) = lab_rejected s"
  "lab_reroutes (snd (consumeStream p s)) = lab_reroutes s"
  "lab_delivered (snd (consumeStream p s)) = lab_delivered s"
  "lab_unmet (snd (consumeStream p s)) = lab_unmet s"
  "lab_service (snd (consumeStream p s)) = lab_service s" "lab_ksid (snd (consumeStream p s)) = lab_ksid s"
  "lab_lastRelay (snd (consumeStream p s)) = lab_lastRelay s"
  "lab_history (snd (consumeStream p s)) = lab_history s"
  "lab_pendingEvent (snd (consumeStream p s)) = lab_pendingEvent s"
  "lab_paceMs (snd (consumeStream p s)) = lab_paceMs s"
  "lab_lastTick (snd (consumeStream p s)) = lab_lastTick s"
  "lab_traceSteps (snd (consumeStream p s)) = lab_traceSteps s"
  "lab_traceRelay (snd (consumeStream p s)) = lab_traceRelay s"
  "lab_seeds (snd (consumeStream p s)) = lab_seeds s" "lab_draws (snd (consumeStream p s)) = lab_draws s"
  "lab_ksids (snd (consumeStream p s)) = lab_ksids s"
  by (simp_all add: consumeStream_def Let_def split: prod.splits option.splits)

lemma trace_generate_frame [simp]:
  "lab_status (trace_generate k n s) = lab_status s" "lab_timer (trace_generate k n s) = lab_timer s"
  "lab_lastAdvance (trace_generate k n s) = lab_lastAdvance s"
  "lab_lastTickStart (trace_generate k n s) = lab_lastTickStart s"
  "lab_preset (trace_generate k n s) = lab_preset s" "lab_scenario (trace_generate k n s) = lab_scenario s"
  "lab_accounting (trace_generate k n s) = lab_accounting s"
  "lab_tickS (trace_generate k n s) = lab_tickS s" "lab_tickN (trace_generate k n s) = lab_tickN s"
  "lab_links (trace_generate k n s) = lab_links s" "lab_downNodes (trace_generate k n s) = lab_downNodes s"
  "lab_credit (trace_generate k n s) = lab_credit s" "lab_from (trace_generate k n s) = lab_from s"
  "lab_to (trace_generate k n s) = lab_to s" "lab_keysPerS (trace_generate k n s) = lab_keysPerS s"
  "lab_demandCredit (trace_generate k n s) = lab_demandCredit s"
  "lab_route (trace_generate k n s) = lab_route s" "lab_routeNone (trace_generate k n s) = lab_routeNone s"
  "lab_alternatives (trace_generate k n s) = lab_alternatives s"
  "lab_rejected (trace_generate k n s) = lab_rejected s"
  "lab_reroutes (trace_generate k n s) = lab_reroutes s"
  "lab_delivered (trace_generate k n s) = lab_delivered s" "lab_unmet (trace_generate k n s) = lab_unmet s"
  "lab_ok (trace_generate k n s) = lab_ok s" "lab_failed (trace_generate k n s) = lab_failed s"
  "lab_service (trace_generate k n s) = lab_service s" "lab_km (trace_generate k n s) = lab_km s"
  "lab_ksid (trace_generate k n s) = lab_ksid s" "lab_lastStatus (trace_generate k n s) = lab_lastStatus s"
  "lab_messages (trace_generate k n s) = lab_messages s"
  "lab_lastRelay (trace_generate k n s) = lab_lastRelay s"
  "lab_history (trace_generate k n s) = lab_history s"
  "lab_pendingEvent (trace_generate k n s) = lab_pendingEvent s"
  "lab_paceMs (trace_generate k n s) = lab_paceMs s" "lab_lastTick (trace_generate k n s) = lab_lastTick s"
  "lab_traceRelay (trace_generate k n s) = lab_traceRelay s"
  "lab_seeds (trace_generate k n s) = lab_seeds s" "lab_draws (trace_generate k n s) = lab_draws s"
  "lab_ksids (trace_generate k n s) = lab_ksids s"
  by (simp_all add: trace_generate_def)

lemma trace_stream_frame [simp]:
  "lab_status (trace_stream s) = lab_status s" "lab_timer (trace_stream s) = lab_timer s"
  "lab_lastAdvance (trace_stream s) = lab_lastAdvance s"
  "lab_lastTickStart (trace_stream s) = lab_lastTickStart s" "lab_preset (trace_stream s) = lab_preset s"
  "lab_scenario (trace_stream s) = lab_scenario s" "lab_accounting (trace_stream s) = lab_accounting s"
  "lab_tickS (trace_stream s) = lab_tickS s" "lab_tickN (trace_stream s) = lab_tickN s"
  "lab_links (trace_stream s) = lab_links s" "lab_downNodes (trace_stream s) = lab_downNodes s"
  "lab_credit (trace_stream s) = lab_credit s" "lab_from (trace_stream s) = lab_from s"
  "lab_to (trace_stream s) = lab_to s" "lab_keysPerS (trace_stream s) = lab_keysPerS s"
  "lab_demandCredit (trace_stream s) = lab_demandCredit s" "lab_route (trace_stream s) = lab_route s"
  "lab_routeNone (trace_stream s) = lab_routeNone s"
  "lab_alternatives (trace_stream s) = lab_alternatives s" "lab_rejected (trace_stream s) = lab_rejected s"
  "lab_reroutes (trace_stream s) = lab_reroutes s" "lab_delivered (trace_stream s) = lab_delivered s"
  "lab_unmet (trace_stream s) = lab_unmet s" "lab_ok (trace_stream s) = lab_ok s"
  "lab_failed (trace_stream s) = lab_failed s" "lab_service (trace_stream s) = lab_service s"
  "lab_km (trace_stream s) = lab_km s" "lab_ksid (trace_stream s) = lab_ksid s"
  "lab_lastStatus (trace_stream s) = lab_lastStatus s" "lab_messages (trace_stream s) = lab_messages s"
  "lab_lastRelay (trace_stream s) = lab_lastRelay s" "lab_history (trace_stream s) = lab_history s"
  "lab_pendingEvent (trace_stream s) = lab_pendingEvent s" "lab_paceMs (trace_stream s) = lab_paceMs s"
  "lab_lastTick (trace_stream s) = lab_lastTick s" "lab_traceRelay (trace_stream s) = lab_traceRelay s"
  "lab_seeds (trace_stream s) = lab_seeds s" "lab_draws (trace_stream s) = lab_draws s"
  "lab_ksids (trace_stream s) = lab_ksids s"
  by (simp_all add: trace_stream_def)

lemma trace_relay_keys_frame [simp]:
  "lab_status (trace_relay_keys e n w s) = lab_status s"
  "lab_timer (trace_relay_keys e n w s) = lab_timer s"
  "lab_lastAdvance (trace_relay_keys e n w s) = lab_lastAdvance s"
  "lab_lastTickStart (trace_relay_keys e n w s) = lab_lastTickStart s"
  "lab_preset (trace_relay_keys e n w s) = lab_preset s"
  "lab_scenario (trace_relay_keys e n w s) = lab_scenario s"
  "lab_accounting (trace_relay_keys e n w s) = lab_accounting s"
  "lab_tickS (trace_relay_keys e n w s) = lab_tickS s" "lab_tickN (trace_relay_keys e n w s) = lab_tickN s"
  "lab_links (trace_relay_keys e n w s) = lab_links s"
  "lab_downNodes (trace_relay_keys e n w s) = lab_downNodes s"
  "lab_credit (trace_relay_keys e n w s) = lab_credit s" "lab_from (trace_relay_keys e n w s) = lab_from s"
  "lab_to (trace_relay_keys e n w s) = lab_to s" "lab_keysPerS (trace_relay_keys e n w s) = lab_keysPerS s"
  "lab_demandCredit (trace_relay_keys e n w s) = lab_demandCredit s"
  "lab_route (trace_relay_keys e n w s) = lab_route s"
  "lab_routeNone (trace_relay_keys e n w s) = lab_routeNone s"
  "lab_alternatives (trace_relay_keys e n w s) = lab_alternatives s"
  "lab_rejected (trace_relay_keys e n w s) = lab_rejected s"
  "lab_reroutes (trace_relay_keys e n w s) = lab_reroutes s"
  "lab_delivered (trace_relay_keys e n w s) = lab_delivered s"
  "lab_unmet (trace_relay_keys e n w s) = lab_unmet s" "lab_ok (trace_relay_keys e n w s) = lab_ok s"
  "lab_failed (trace_relay_keys e n w s) = lab_failed s"
  "lab_service (trace_relay_keys e n w s) = lab_service s" "lab_km (trace_relay_keys e n w s) = lab_km s"
  "lab_ksid (trace_relay_keys e n w s) = lab_ksid s"
  "lab_lastStatus (trace_relay_keys e n w s) = lab_lastStatus s"
  "lab_messages (trace_relay_keys e n w s) = lab_messages s"
  "lab_lastRelay (trace_relay_keys e n w s) = lab_lastRelay s"
  "lab_history (trace_relay_keys e n w s) = lab_history s"
  "lab_pendingEvent (trace_relay_keys e n w s) = lab_pendingEvent s"
  "lab_paceMs (trace_relay_keys e n w s) = lab_paceMs s"
  "lab_lastTick (trace_relay_keys e n w s) = lab_lastTick s"
  "lab_seeds (trace_relay_keys e n w s) = lab_seeds s" "lab_draws (trace_relay_keys e n w s) = lab_draws s"
  "lab_ksids (trace_relay_keys e n w s) = lab_ksids s"
  by (simp_all add: trace_relay_keys_def split: option.splits)

lemma trace_deliver_keys_frame [simp]:
  "lab_status (trace_deliver_keys r s) = lab_status s" "lab_timer (trace_deliver_keys r s) = lab_timer s"
  "lab_lastAdvance (trace_deliver_keys r s) = lab_lastAdvance s"
  "lab_lastTickStart (trace_deliver_keys r s) = lab_lastTickStart s"
  "lab_preset (trace_deliver_keys r s) = lab_preset s"
  "lab_scenario (trace_deliver_keys r s) = lab_scenario s"
  "lab_accounting (trace_deliver_keys r s) = lab_accounting s"
  "lab_tickS (trace_deliver_keys r s) = lab_tickS s" "lab_tickN (trace_deliver_keys r s) = lab_tickN s"
  "lab_links (trace_deliver_keys r s) = lab_links s"
  "lab_downNodes (trace_deliver_keys r s) = lab_downNodes s"
  "lab_credit (trace_deliver_keys r s) = lab_credit s" "lab_from (trace_deliver_keys r s) = lab_from s"
  "lab_to (trace_deliver_keys r s) = lab_to s" "lab_keysPerS (trace_deliver_keys r s) = lab_keysPerS s"
  "lab_demandCredit (trace_deliver_keys r s) = lab_demandCredit s"
  "lab_route (trace_deliver_keys r s) = lab_route s"
  "lab_routeNone (trace_deliver_keys r s) = lab_routeNone s"
  "lab_alternatives (trace_deliver_keys r s) = lab_alternatives s"
  "lab_rejected (trace_deliver_keys r s) = lab_rejected s"
  "lab_reroutes (trace_deliver_keys r s) = lab_reroutes s"
  "lab_delivered (trace_deliver_keys r s) = lab_delivered s"
  "lab_unmet (trace_deliver_keys r s) = lab_unmet s" "lab_ok (trace_deliver_keys r s) = lab_ok s"
  "lab_failed (trace_deliver_keys r s) = lab_failed s"
  "lab_service (trace_deliver_keys r s) = lab_service s" "lab_km (trace_deliver_keys r s) = lab_km s"
  "lab_ksid (trace_deliver_keys r s) = lab_ksid s"
  "lab_lastStatus (trace_deliver_keys r s) = lab_lastStatus s"
  "lab_messages (trace_deliver_keys r s) = lab_messages s"
  "lab_lastRelay (trace_deliver_keys r s) = lab_lastRelay s"
  "lab_history (trace_deliver_keys r s) = lab_history s"
  "lab_pendingEvent (trace_deliver_keys r s) = lab_pendingEvent s"
  "lab_paceMs (trace_deliver_keys r s) = lab_paceMs s"
  "lab_lastTick (trace_deliver_keys r s) = lab_lastTick s"
  "lab_traceRelay (trace_deliver_keys r s) = lab_traceRelay s"
  "lab_seeds (trace_deliver_keys r s) = lab_seeds s" "lab_draws (trace_deliver_keys r s) = lab_draws s"
  "lab_ksids (trace_deliver_keys r s) = lab_ksids s"
  by (simp_all add: trace_deliver_keys_def)

lemma trace_served_frame [simp]:
  "lab_status (trace_served w n s) = lab_status s" "lab_timer (trace_served w n s) = lab_timer s"
  "lab_lastAdvance (trace_served w n s) = lab_lastAdvance s"
  "lab_lastTickStart (trace_served w n s) = lab_lastTickStart s"
  "lab_preset (trace_served w n s) = lab_preset s" "lab_scenario (trace_served w n s) = lab_scenario s"
  "lab_accounting (trace_served w n s) = lab_accounting s" "lab_tickS (trace_served w n s) = lab_tickS s"
  "lab_tickN (trace_served w n s) = lab_tickN s" "lab_links (trace_served w n s) = lab_links s"
  "lab_downNodes (trace_served w n s) = lab_downNodes s" "lab_credit (trace_served w n s) = lab_credit s"
  "lab_from (trace_served w n s) = lab_from s" "lab_to (trace_served w n s) = lab_to s"
  "lab_keysPerS (trace_served w n s) = lab_keysPerS s"
  "lab_demandCredit (trace_served w n s) = lab_demandCredit s"
  "lab_route (trace_served w n s) = lab_route s" "lab_routeNone (trace_served w n s) = lab_routeNone s"
  "lab_alternatives (trace_served w n s) = lab_alternatives s"
  "lab_rejected (trace_served w n s) = lab_rejected s" "lab_reroutes (trace_served w n s) = lab_reroutes s"
  "lab_delivered (trace_served w n s) = lab_delivered s" "lab_unmet (trace_served w n s) = lab_unmet s"
  "lab_ok (trace_served w n s) = lab_ok s" "lab_failed (trace_served w n s) = lab_failed s"
  "lab_service (trace_served w n s) = lab_service s" "lab_km (trace_served w n s) = lab_km s"
  "lab_ksid (trace_served w n s) = lab_ksid s" "lab_lastStatus (trace_served w n s) = lab_lastStatus s"
  "lab_messages (trace_served w n s) = lab_messages s"
  "lab_lastRelay (trace_served w n s) = lab_lastRelay s" "lab_history (trace_served w n s) = lab_history s"
  "lab_pendingEvent (trace_served w n s) = lab_pendingEvent s"
  "lab_paceMs (trace_served w n s) = lab_paceMs s" "lab_lastTick (trace_served w n s) = lab_lastTick s"
  "lab_traceRelay (trace_served w n s) = lab_traceRelay s" "lab_seeds (trace_served w n s) = lab_seeds s"
  "lab_draws (trace_served w n s) = lab_draws s" "lab_ksids (trace_served w n s) = lab_ksids s"
  by (simp_all add: trace_served_def)

end
