(* ===== verification/Lab_Control.thy ===== *)
theory Lab_Control
  imports Lab_Tick
begin

text \<open>
  The Protocol Lab simulator, third part: loading a preset or scenario, the controls of the page
  (\<^verbatim>\<open>start\<close>, \<^verbatim>\<open>pause\<close>, \<^verbatim>\<open>resume\<close>, \<^verbatim>\<open>step\<close>, \<^verbatim>\<open>reset\<close>, \<^verbatim>\<open>dispose\<close>, \<^verbatim>\<open>setPace\<close>, \<^verbatim>\<open>loadPreset\<close>, \<^verbatim>\<open>setDemand\<close>,
  the failures), the timer, the published snapshot and the CSV rows.

  \<open>None\<close> is an exception thrown to the page.
\<close>

section \<open>Loading\<close>

definition gen_note :: "preset_link \<Rightarrow> rat option \<Rightarrow> tmpl option" where
  "gen_note l g =
     (if l_kind l \<noteq> Qkd then Some [Txt ''keystore hop (pre-shared keys, not live QKD): never routed'']
      else if g = None then Some [Txt ''no single reported rate: generates nothing here''] else None)"

definition unit_text :: "qunit \<Rightarrow> string" where
  "unit_text u = (case u of U_km \<Rightarrow> ''km'' | U_m \<Rightarrow> ''m'' | U_dB \<Rightarrow> ''dB'' | U_bit_s \<Rightarrow> ''bit/s'' | U_bps \<Rightarrow> ''bps''
     | U_kbit_s \<Rightarrow> ''kbit/s'' | U_kbps \<Rightarrow> ''kbps'' | U_Mbit_s \<Rightarrow> ''Mbit/s'' | U_Mbps \<Rightarrow> ''Mbps'' | U_percent \<Rightarrow> ''%''
     | U_MiB \<Rightarrow> ''MiB'' | U_keys \<Rightarrow> ''keys'' | U_keys_s \<Rightarrow> ''keys/s'' | U_s \<Rightarrow> ''s'' | U_min \<Rightarrow> ''min'' | U_days \<Rightarrow> ''days'')"

text \<open>The note of a generating link, without the reference it ends in.\<close>

definition stores_note :: "bool \<Rightarrow> generation option \<Rightarrow> tmpl" where
  "stores_note nir g = (case g of
     None \<Rightarrow> [Txt (if nir then ''not part of the cited run'' else ''no store in the cited run'')]
   | Some (Gen_equals_demand q) \<Rightarrow> [Txt ''generates as fast as the demand for the first '', Txt (printed q), Txt '' '', Txt (unit_text (q_unit q))]
   | Some Gen_none \<Rightarrow> [Txt ''not generating (source)'']
   | Some Gen_unquantified \<Rightarrow> [Txt ''generating, rate not given by the source: replayed as zero, so its route lifetime is a lower bound''])"

definition init_link :: "accounting \<Rightarrow> scenario option \<Rightarrow> preset_link \<Rightarrow> link_state" where
  "init_link acc sc l =
     (let g = map_option qval (l_rate l);
          nir = (case sc of None \<Rightarrow> False | Some x \<Rightarrow> l_id l \<in> set (s_notInRun x));
          keyed = (acc = Acc_keys \<and> l_kind l = Qkd);
          st = \<lparr>ls_id = l_id l, ls_a = l_a l, ls_b = l_b l, ls_kind = l_kind l, down = False, downReason = None,
            notInRun = nir, genBps = g, genNote = gen_note l g,
            storedKeys = (if keyed then Some 0 else None), fillToKeys = (if keyed then Some LOW_WM else None),
            maxKeys = (if keyed then Some MAX_KEYS else None), storedBits = None, thresholdBits = None\<rparr>
      in case sc of
        Some x \<Rightarrow> (case s_kind x of
          Stores th st0 gen \<Rightarrow> st\<lparr>storedBits := map_option qval (map_of st0 (l_id l)),
            thresholdBits := map_option (\<lambda>_. qval th) (map_of st0 (l_id l)),
            genNote := Some (stores_note nir (map_of gen (l_id l)))\<rparr>
        | _ \<Rightarrow> st)
      | None \<Rightarrow> st)"

definition scenario_accounting :: "scenario \<Rightarrow> accounting" where
  "scenario_accounting sc = (case s_kind sc of Stores _ _ _ \<Rightarrow> Acc_stores
     | Service_buffer _ _ _ _ \<Rightarrow> Acc_service_buffer | Route_only \<Rightarrow> Acc_route_only)"

definition init_service :: "scenario option \<Rightarrow> service_state option" where
  "init_service sc = (case sc of None \<Rightarrow> None | Some x \<Rightarrow> (case s_kind x of
     Service_buffer c ra rt note \<Rightarrow> Some \<lparr>sv_stored = qval c, sv_capacity = qval c, sv_refillAt = qval ra,
       sv_refillTo = qval rt, sv_refills = 0, sv_failedRefills = 0, sv_readingNote = note\<rparr>
   | _ \<Rightarrow> None))"

record free_demand =
  fd_from :: string
  fd_to :: string
  fd_keysPerS :: "rat option"

text \<open>Everything \<^verbatim>\<open>load\<close> sets before the first route choice; \<open>s\<close> is the state it is called in.\<close>

definition loaded :: "topology_preset \<Rightarrow> scenario option \<Rightarrow> free_demand option \<Rightarrow> lab \<Rightarrow> lab" where
  "loaded pr sc fd s0 =
     (let s = clearKeyMaterial s0;
          acc = (case sc of Some x \<Rightarrow> scenario_accounting x
                 | None \<Rightarrow> (case p_freePlay pr of FP_keys \<Rightarrow> Acc_keys | FP_route_only \<Rightarrow> Acc_route_only))
      in s\<lparr>lab_preset := pr, lab_scenario := sc, lab_accounting := acc,
        lab_tickS := (case sc of Some x \<Rightarrow> s_tick_seconds x | None \<Rightarrow> FREE_PLAY_TICK_S), lab_tickN := 0,
        lab_from := (case sc of Some x \<Rightarrow> s_from x | None \<Rightarrow> (case fd of Some f \<Rightarrow> fd_from f | None \<Rightarrow> fst (p_defaultDemand pr))),
        lab_to := (case sc of Some x \<Rightarrow> s_to x | None \<Rightarrow> (case fd of Some f \<Rightarrow> fd_to f | None \<Rightarrow> snd (p_defaultDemand pr))),
        lab_keysPerS := (case fd of Some f \<Rightarrow> fd_keysPerS f | None \<Rightarrow> lab_keysPerS s), lab_demandCredit := 0,
        lab_downNodes := [], lab_credit := [], lab_route := None, lab_routeNone := None, lab_alternatives := [], lab_rejected := [],
        lab_reroutes := [], lab_delivered := 0, lab_unmet := 0, lab_ok := 0, lab_failed := 0,
        lab_messages := [], lab_history := [], lab_pendingEvent := [], lab_lastRelay := None,
        lab_lastTick := None, lab_traceSteps := [], lab_traceRelay := None, lab_lastStatus := None, lab_lastTickStart := None,
        lab_seeds := seeds_reset (lab_seeds s),
        lab_links := map (init_link acc sc) (p_links pr), lab_service := init_service sc, lab_km := [], lab_ksid := None\<rparr>)"

definition scenario_to_load :: "string option \<Rightarrow> string \<Rightarrow> scenario option option" where
  "scenario_to_load scenarioId presetId = (case scenarioId of
     None \<Rightarrow> Some None
   | Some i \<Rightarrow> if i = [] then Some None
       else (case scenarioById i of None \<Rightarrow> None
             | Some x \<Rightarrow> if s_presetId x \<noteq> presetId then None else Some (Some x)))"

definition after_load :: "platform \<Rightarrow> lab \<Rightarrow> lab" where
  "after_load p s = (let s1 = chooseRoute KEY_BITS s in if lab_accounting s1 = Acc_keys then openStream p s1 else s1)"

definition load :: "platform \<Rightarrow> string \<Rightarrow> string option \<Rightarrow> free_demand option \<Rightarrow> lab \<Rightarrow> lab option" where
  "load p presetId scenarioId fd s = (case presetById presetId of None \<Rightarrow> None
     | Some pr \<Rightarrow> map_option (\<lambda>sc. after_load p (loaded pr sc fd s)) (scenario_to_load scenarioId presetId))"

text \<open>The members' initial values, before the constructor's \<^verbatim>\<open>load\<close>.\<close>

definition lab_blank :: "run_seeds \<Rightarrow> int option \<Rightarrow> lab" where
  "lab_blank sd pace = \<lparr>lab_status = Idle, lab_timer = False, lab_lastAdvance = 0, lab_lastTickStart = None,
     lab_preset = cambridge, lab_scenario = None, lab_accounting = Acc_keys, lab_tickS = FREE_PLAY_TICK_S, lab_tickN = 0,
     lab_links = [], lab_downNodes = [], lab_credit = [], lab_from = [], lab_to = [], lab_keysPerS = Some 1, lab_demandCredit = 0,
     lab_route = None, lab_routeNone = None, lab_alternatives = [], lab_rejected = [], lab_reroutes = [],
     lab_delivered = 0, lab_unmet = 0, lab_ok = 0, lab_failed = 0, lab_service = None, lab_km = [], lab_ksid = None,
     lab_lastStatus = None, lab_messages = [], lab_lastRelay = None, lab_history = [], lab_pendingEvent = [],
     lab_paceMs = (case pace of None \<Rightarrow> NOMINAL_TICK_DWELL_MS | Some v \<Rightarrow> v), lab_lastTick = None, lab_traceSteps = [],
     lab_traceRelay = None, lab_seeds = sd, lab_draws = 0, lab_ksids = 0\<rparr>"

definition lab_new :: "platform \<Rightarrow> run_seeds \<Rightarrow> string option \<Rightarrow> int option \<Rightarrow> lab option" where
  "lab_new p sd presetId pace =
     load p (case presetId of None \<Rightarrow> ''cambridge-2019'' | Some i \<Rightarrow> i) None None (lab_blank sd pace)"

section \<open>Controls\<close>

text \<open>\<open>t\<close> is \<^verbatim>\<open>performance.now()\<close>, \<open>now\<close> is \<^verbatim>\<open>Date.now()\<close>.\<close>

definition ensureLoop :: "rat \<Rightarrow> lab \<Rightarrow> lab" where
  "ensureLoop t s = (if lab_timer s then s else s\<lparr>lab_timer := True, lab_lastAdvance := t\<rparr>)"

definition stopLoop :: "lab \<Rightarrow> lab" where
  "stopLoop s = s\<lparr>lab_timer := False\<rparr>"

definition lab_start :: "rat \<Rightarrow> lab \<Rightarrow> lab" where
  "lab_start t s = ensureLoop t (s\<lparr>lab_status := Running\<rparr>)"

definition lab_pause :: "lab \<Rightarrow> lab" where
  "lab_pause s = stopLoop (s\<lparr>lab_status := Paused\<rparr>)"

definition lab_resume :: "rat \<Rightarrow> lab \<Rightarrow> lab" where
  "lab_resume t s = ensureLoop t (s\<lparr>lab_status := Running\<rparr>)"

definition lab_step :: "platform \<Rightarrow> int \<Rightarrow> lab \<Rightarrow> lab" where
  "lab_step p now s =
     (if lab_status s = Running then s
      else let s1 = advance p now (s\<lparr>lab_status := Stepped\<rparr>)
           in if lab_status s = Paused then s1\<lparr>lab_status := Paused\<rparr> else s1)"

definition lab_reset :: "platform \<Rightarrow> lab \<Rightarrow> lab option" where
  "lab_reset p s = load p (p_id (lab_preset s)) (map_option s_id (lab_scenario s)) None
     ((stopLoop s)\<lparr>lab_status := Idle\<rparr>)"

definition lab_dispose :: "lab \<Rightarrow> lab" where
  "lab_dispose s = clearKeyMaterial (stopLoop s)"

definition setPace :: "int \<Rightarrow> lab \<Rightarrow> lab" where
  "setPace ms s = (if ms \<in> (snd \<circ> snd) ` set TICK_PACES then s\<lparr>lab_paceMs := ms\<rparr> else s)"

definition loadPreset :: "platform \<Rightarrow> string \<Rightarrow> string option \<Rightarrow> lab \<Rightarrow> lab option" where
  "loadPreset p presetId scenarioId s = load p presetId scenarioId None ((stopLoop s)\<lparr>lab_status := Idle\<rparr>)"

text \<open>A rate that is not finite is \<open>None\<close>; like a negative one it counts as 0.\<close>

definition setDemand :: "platform \<Rightarrow> string \<Rightarrow> string \<Rightarrow> rat option \<Rightarrow> lab \<Rightarrow> lab option" where
  "setDemand p src dst keysPerS s =
     (if lab_scenario s \<noteq> None then Some s
      else let r = (case keysPerS of Some v \<Rightarrow> if 0 \<le> v then v else 0 | None \<Rightarrow> 0);
               s1 = (stopLoop (s\<lparr>lab_from := src, lab_to := dst, lab_keysPerS := Some r\<rparr>))\<lparr>lab_status := Idle\<rparr>
           in load p (p_id (lab_preset s)) None (Some \<lparr>fd_from = src, fd_to = dst, fd_keysPerS = Some r\<rparr>) s1)"

fun to_down :: "fail_reason option \<Rightarrow> down_reason" where
  "to_down (Some Qber_alarm) = D_qber_alarm"
| "to_down (Some Outage) = D_outage"
| "to_down None = D_outage"

definition touches :: "string \<Rightarrow> link_state \<Rightarrow> bool" where
  "touches n l \<longleftrightarrow> ls_a l = n \<or> ls_b l = n"

definition set_insert :: "string \<Rightarrow> string list \<Rightarrow> string list" where
  "set_insert x xs = (if x \<in> set xs then xs else xs @ [x])"

fun injectFailure :: "failure_target \<Rightarrow> lab \<Rightarrow> lab" where
  "injectFailure (Link_target i reason) s =
     (if find_link (lab_links s) i = None then s
      else chooseRoute KEY_BITS
        (s\<lparr>lab_links := update_first i (\<lambda>l. l\<lparr>down := True, downReason := Some (to_down reason)\<rparr>) (lab_links s),
           lab_pendingEvent := lab_pendingEvent s @ [i @ '' '' @ down_text (to_down reason)]\<rparr>))"
| "injectFailure (Node_target n) s =
     chooseRoute KEY_BITS
       (s\<lparr>lab_downNodes := set_insert n (lab_downNodes s),
          lab_links := map (\<lambda>l. if touches n l then l\<lparr>down := True, downReason := Some D_node_down\<rparr> else l) (lab_links s),
          lab_pendingEvent := lab_pendingEvent s @ [''node '' @ n @ '' down'']\<rparr>)"

definition end_down :: "string list \<Rightarrow> link_state \<Rightarrow> bool" where
  "end_down dn l \<longleftrightarrow> ls_a l \<in> set dn \<or> ls_b l \<in> set dn"

fun clearFailure :: "failure_target option \<Rightarrow> lab \<Rightarrow> lab" where
  "clearFailure None s =
     chooseRoute KEY_BITS (s\<lparr>lab_links := map (\<lambda>l. l\<lparr>down := False, downReason := None\<rparr>) (lab_links s),
       lab_downNodes := [], lab_pendingEvent := lab_pendingEvent s @ [''all failures cleared'']\<rparr>)"
| "clearFailure (Some (Link_target i reason)) s =
     (if find_link (lab_links s) i = None then s
      else chooseRoute KEY_BITS
        (s\<lparr>lab_links := update_first i (\<lambda>l. l\<lparr>down := end_down (lab_downNodes s) l,
              downReason := (if end_down (lab_downNodes s) l then Some D_node_down else None)\<rparr>) (lab_links s),
           lab_pendingEvent := lab_pendingEvent s @ [i @ '' restored'']\<rparr>))"
| "clearFailure (Some (Node_target n)) s =
     (let dn = removeAll n (lab_downNodes s) in
      chooseRoute KEY_BITS
        (s\<lparr>lab_downNodes := dn,
           lab_links := map (\<lambda>l. if touches n l \<and> downReason l = Some D_node_down \<and> \<not> end_down dn l
             then l\<lparr>down := False, downReason := None\<rparr> else l) (lab_links s),
           lab_pendingEvent := lab_pendingEvent s @ [''node '' @ n @ '' restored'']\<rparr>))"

text \<open>\<open>rnd\<close> is the value of \<^verbatim>\<open>Math.random()\<close> an unpinned run reads.\<close>

definition injectRandomFailure :: "rat \<Rightarrow> lab \<Rightarrow> failure_target option \<times> lab" where
  "injectRandomFailure rnd s =
     (let candidates = filter (\<lambda>l. ls_kind l = Qkd \<and> \<not> down l \<and> \<not> notInRun l) (lab_links s);
          (seed, sd) = seeds_next rnd (lab_seeds s); s1 = s\<lparr>lab_seeds := sd\<rparr>
      in if candidates = [] then (None, s1)
         else let t = Link_target (ls_id (candidates ! (unat seed mod length candidates))) (Some Outage)
              in (Some t, injectFailure t s1))"

definition onTimer :: "platform \<Rightarrow> rat \<Rightarrow> int \<Rightarrow> lab \<Rightarrow> lab" where
  "onTimer p t now s =
     (if lab_status s \<noteq> Running then s
      else if \<not> dwellDone (t - lab_lastAdvance s) (lab_paceMs s) then s
      else advance p now (s\<lparr>lab_lastAdvance := t\<rparr>))"

section \<open>What the page is given\<close>

record stream_view =
  sw_ksid :: string
  sw_state :: stream_state
  sw_next_index :: int
  sw_undelivered :: int
  sw_delivered :: nat
  sw_key_chunk_bytes :: int
  sw_last_status :: "int option"

definition stream_snapshot :: "lab \<Rightarrow> stream_view option" where
  "stream_snapshot s = (case lab_ksid s of None \<Rightarrow> None
   | Some k \<Rightarrow> (case List.find (\<lambda>x. fst x = k) (km_list (lab_km s)) of None \<Rightarrow> None
     | Some (i, st, nchunks, dA, dB) \<Rightarrow> Some \<lparr>sw_ksid = k, sw_state = st, sw_next_index = INDEX_ORIGIN + int dA,
         sw_undelivered = int nchunks - int dA, sw_delivered = dA,
         sw_key_chunk_bytes = (case chunkBytes k (lab_km s) of None \<Rightarrow> int KEY_BYTES | Some c \<Rightarrow> c),
         sw_last_status = lab_lastStatus s\<rparr>))"

record demand_view =
  dv_from :: string
  dv_to :: string
  dv_label :: tmpl
  dv_bps :: "rat option"
  dv_keysPerS :: "rat option"

definition demand_snapshot :: "lab \<Rightarrow> demand_view" where
  "demand_snapshot s = \<lparr>dv_from = lab_from s, dv_to = lab_to s,
     dv_label = (case lab_scenario s of
         Some sc \<Rightarrow> (case qualifier (s_rate sc) of None \<Rightarrow> [] | Some q \<Rightarrow> [Txt q, Txt '' ''])
           @ [Txt (printed (s_rate sc)), Txt '' '', Txt (unit_text (q_unit (s_rate sc)))]
       | None \<Rightarrow> (case lab_keysPerS s of None \<Rightarrow> [Txt ''no key-request rate set'']
                  | Some v \<Rightarrow> [Val v, Txt '' key requests/s''])),
     dv_bps = (case lab_scenario s of Some sc \<Rightarrow> if q_unit (s_rate sc) \<noteq> U_keys_s then Some (qval (s_rate sc)) else None
               | None \<Rightarrow> None),
     dv_keysPerS = (case lab_scenario s of Some sc \<Rightarrow> if q_unit (s_rate sc) = U_keys_s then Some (qval (s_rate sc)) else None
               | None \<Rightarrow> lab_keysPerS s)\<rparr>"

text \<open>The derived members of the snapshot; the others are copies of the state's fields.\<close>

record lab_view_state =
  vs_accounting_why :: string
  vs_sim_time_s :: rat
  vs_demand :: demand_view
  vs_requests_ok :: "rat option"
  vs_requests_failed :: "rat option"
  vs_stream :: "stream_view option"
  vs_published :: "string list list option"
  vs_limits :: "string list"

definition snapshot :: "lab \<Rightarrow> lab_view_state" where
  "snapshot s = \<lparr>vs_accounting_why = (case lab_scenario s of Some sc \<Rightarrow> s_summary sc | None \<Rightarrow> p_freePlayWhy (lab_preset s)),
     vs_sim_time_s = sim_time s, vs_demand = demand_snapshot s,
     vs_requests_ok = (if countsRequests (lab_accounting s) then Some (lab_ok s) else None),
     vs_requests_failed = (if countsRequests (lab_accounting s) then Some (lab_failed s) else None),
     vs_stream = stream_snapshot s,
     vs_published = map_option s_published_routes (lab_scenario s),
     vs_limits = (case lab_scenario s of None \<Rightarrow> [] | Some sc \<Rightarrow> s_limits sc)\<rparr>"

section \<open>The CSV export\<close>

datatype csv_cell = Num rat | Str string

definition opt_num :: "rat option \<Rightarrow> csv_cell" where
  "opt_num v = (case v of None \<Rightarrow> Str [] | Some x \<Rightarrow> Num x)"

text \<open>One row per tick of the history; \<open>isoText\<close> is \<^verbatim>\<open>Date.toISOString\<close>. The buffer columns come last.\<close>

fun accounting_text :: "accounting \<Rightarrow> string" where
  "accounting_text Acc_keys = ''keys''"
| "accounting_text Acc_stores = ''stores''"
| "accounting_text Acc_service_buffer = ''service-buffer''"
| "accounting_text Acc_route_only = ''route-only''"

definition protocolLabCsvRows :: "(int \<Rightarrow> string) \<Rightarrow> lab \<Rightarrow> (string \<times> csv_cell) list list" where
  "protocolLabCsvRows isoText s = map (\<lambda>h.
     [(''tick'', Num (of_nat (r_tick h))), (''sim_time_s'', Num (r_sim_time_s h)),
      (''started_at'', Str (isoText (r_started_at h))),
      (''ui_dwell_ms'', opt_num (map_option of_int (r_ui_dwell_ms h))), (''nominal_dwell_ms'', Num (of_int (r_nominal_dwell_ms h))),
      (''preset'', Str (p_id (lab_preset s))), (''scenario'', Str (case lab_scenario s of None \<Rightarrow> [] | Some sc \<Rightarrow> s_id sc)),
      (''accounting'', Str (accounting_text (lab_accounting s))),
      (''demand'', Str (lab_from s @ ''->'' @ lab_to s)),
      (''route'', Str (r_route h)), (''relays'', opt_num (map_option of_nat (r_relays h))),
      (''delivered_bits'', Num (r_delivered_bits h)), (''unmet_bits'', Num (r_unmet_bits h)), (''event'', Str (r_event h))]
     @ map (\<lambda>(i, v). (''buf_'' @ i, opt_num v)) (r_buffers h)) (lab_history s)"

end
