(* ===== verification/Lab_Inv.thy ===== *)
theory Lab_Inv
  imports Lab_Control Key_Stream
begin

text \<open>
  What the Protocol Lab simulator keeps and guarantees: the invariant of its state, that every control
  and every tick preserves it, and what the parts of a tick do.
\<close>

section \<open>Distinct hops\<close>

text \<open>A simple path uses no link twice when links have distinct ids.\<close>

lemma follows_nth:
  "follows E ns is \<Longrightarrow> i < length is \<Longrightarrow> E (ns ! i) (is ! i) (ns ! Suc i)"
proof (induction E ns "is" arbitrary: i rule: follows.induct)
  case (2 E n m ns i' "is")
  then show ?case by (cases i) auto
qed auto

lemma joins_unique:
  assumes "distinct (map gl_id (g_links g))" "joins g dn dl n i m" "joins g dn dl n' i m'"
  shows "{n, m} = {n', m'}"
proof -
  from assms(2) obtain l where l: "l \<in> set (g_links g)" "gl_id l = i" "{n, m} = {gl_a l, gl_b l}"
    by (auto simp: joins_def)
  from assms(3) obtain l' where l': "l' \<in> set (g_links g)" "gl_id l' = i" "{n', m'} = {gl_a l', gl_b l'}"
    by (auto simp: joins_def)
  from assms(1) l l' have "l = l'" by (metis inj_onD distinct_map)
  with l l' show ?thesis by simp
qed

lemma simple_path_distinct_links:
  assumes "distinct (map gl_id (g_links g))" "simple_path g dn dl src dst p"
  shows "distinct (snd p)"
proof -
  from assms(2) have f: "follows (joins g dn dl) (fst p) (snd p)" and d: "distinct (fst p)"
    by (simp_all add: simple_path_def)
  have len: "length (fst p) = Suc (length (snd p))" using f by (rule follows_length)
  have "snd p ! i \<noteq> snd p ! j" if ij: "i < j" "j < length (snd p)" for i j
  proof
    assume e: "snd p ! i = snd p ! j"
    have i: "joins g dn dl (fst p ! i) (snd p ! i) (fst p ! Suc i)"
      using ij by (intro follows_nth [OF f]) simp
    have j: "joins g dn dl (fst p ! j) (snd p ! i) (fst p ! Suc j)"
      unfolding e using ij(2) by (rule follows_nth [OF f])
    have "{fst p ! i, fst p ! Suc i} = {fst p ! j, fst p ! Suc j}"
      by (rule joins_unique [OF assms(1) i j])
    moreover have "fst p ! i \<noteq> fst p ! j" "fst p ! i \<noteq> fst p ! Suc j"
      using d ij len by (simp_all add: nth_eq_iff_index_eq)
    ultimately show False by blast
  qed
  then show ?thesis unfolding distinct_conv_nth by (metis linorder_neqE_nat)
qed

section \<open>Finding and updating links\<close>

lemma find_link_Some: "find_link ls i = Some l \<Longrightarrow> l \<in> set ls \<and> ls_id l = i"
  by (induction ls) (auto simp: find_link_def split: if_splits)

lemma find_link_in: "distinct (map ls_id ls) \<Longrightarrow> l \<in> set ls \<Longrightarrow> find_link ls (ls_id l) = Some l"
  by (induction ls) (auto simp: find_link_def)

lemma find_link_None: "find_link ls i = None \<longleftrightarrow> i \<notin> ls_id ` set ls"
  by (induction ls) (auto simp: find_link_def)

lemma find_link_update_first:
  assumes "\<And>l. ls_id (f l) = ls_id l"
  shows "find_link (update_first i f ls) j = (if i = j then map_option f (find_link ls j) else find_link ls j)"
  by (induction ls) (auto simp: find_link_def assms)

lemma update_first_ids: "(\<And>l. ls_id (f l) = ls_id l) \<Longrightarrow> map ls_id (update_first i f ls) = map ls_id ls"
  by (induction ls) auto

lemma update_first_all:
  "(\<And>l. l \<in> set ls \<Longrightarrow> P l) \<Longrightarrow> (\<And>l. find_link ls i = Some l \<Longrightarrow> P (f l)) \<Longrightarrow> l \<in> set (update_first i f ls) \<Longrightarrow> P l"
  by (induction ls) (auto simp: find_link_def split: if_splits)

lemma spend_ids: "(\<And>l. ls_id (f l) = ls_id l) \<Longrightarrow> map ls_id (spend_on f ids ls) = map ls_id ls"
  by (induction ids arbitrary: ls) (simp_all add: spend_on_def update_first_ids)

lemma spend_key_id [simp]: "ls_id (spend_key l) = ls_id l" "ls_id (spend_bits n l) = ls_id l"
  by (simp_all add: spend_key_def spend_bits_def)

lemma find_link_spend_on:
  assumes "distinct ids" "\<And>l. ls_id (f l) = ls_id l"
  shows "find_link (spend_on f ids ls) j = (if j \<in> set ids then map_option f (find_link ls j) else find_link ls j)"
  using assms(1)
proof (induction ids arbitrary: ls)
  case (Cons i ids)
  have "find_link (spend_on f (i # ids) ls) j = find_link (spend_on f ids (update_first i f ls)) j"
    by (simp add: spend_on_def)
  with Cons show ?case by (auto simp: find_link_update_first [OF assms(2)] option.map_comp)
qed (simp add: spend_on_def)

text \<open>All links of the lab, by id.\<close>

lemma all_links_iff:
  "distinct (map ls_id ls) \<Longrightarrow> (\<forall>l \<in> set ls. P l) \<longleftrightarrow> (\<forall>i l. find_link ls i = Some l \<longrightarrow> P l)"
  using find_link_Some find_link_in by metis

lemma spend_on_all:
  assumes "distinct (map ls_id ls)" "distinct ids" "\<And>l. ls_id (f l) = ls_id l"
    and "\<And>l. l \<in> set ls \<Longrightarrow> P l" "\<And>i l. i \<in> set ids \<Longrightarrow> find_link ls i = Some l \<Longrightarrow> P (f l)"
  shows "\<forall>l \<in> set (spend_on f ids ls). P l"
proof -
  have d: "distinct (map ls_id (spend_on f ids ls))" using assms(1) spend_ids [OF assms(3)] by simp
  show ?thesis
    unfolding all_links_iff [OF d] find_link_spend_on [OF assms(2,3)]
    using assms(4,5) find_link_Some by (auto split: if_splits)
qed

text \<open>The keys held on all links together.\<close>

definition total_keys :: "link_state list \<Rightarrow> int" where
  "total_keys ls = sum_list (map stored_keys ls)"

lemma total_keys_update_first:
  "find_link ls i \<noteq> None \<Longrightarrow> total_keys (update_first i spend_key ls) = total_keys ls - 1"
  by (induction ls) (auto simp: total_keys_def find_link_def spend_key_def stored_keys_def)

lemma total_keys_spend_on:
  "(\<forall>i \<in> set ids. find_link ls i \<noteq> None) \<Longrightarrow> total_keys (spend_on spend_key ids ls) = total_keys ls - int (length ids)"
proof (induction ids arbitrary: ls)
  case (Cons i ids)
  have "find_link (update_first i spend_key ls) j \<noteq> None" if "j \<in> set ids" for j
    using Cons.prems that by (simp add: find_link_update_first)
  with Cons.IH [of "update_first i spend_key ls"] Cons.prems show ?case
    by (simp add: spend_on_def total_keys_update_first)
qed (simp add: spend_on_def)

section \<open>The route the lab chooses\<close>

definition route_ok :: "link_state list \<Rightarrow> string list \<Rightarrow> route_choice option \<Rightarrow> bool" where
  "route_ok ls dn r = (case r of None \<Rightarrow> True | Some rc \<Rightarrow>
     distinct (linkIds rc) \<and> hops rc = length (linkIds rc) \<and> set (route_nodes rc) \<inter> set dn = {}
     \<and> (\<forall>i \<in> set (linkIds rc). \<exists>l. find_link ls i = Some l \<and> \<not> down l \<and> ls_kind l = Qkd \<and> \<not> notInRun l))"

lemma chooseRoute_route: "lab_route (chooseRoute n s) = sticky (lab_route s) (lab_preferred s) (lab_select n s)"
  by (simp add: chooseRoute_def Let_def)

lemma sticky_ranked:
  assumes "sticky prev pref (selectRoute g a b v dn pf) = Some r"
  shows "r \<in> set (ranked (selectRoute g a b v dn pf))"
proof (cases "chosen (selectRoute g a b v dn pf)")
  case None
  with assms show ?thesis by (simp add: sticky_def split: option.splits)
next
  case (Some c)
  then have "c \<in> set (ranked (selectRoute g a b v dn pf))" by (rule chosen_in_ranked)
  with assms Some show ?thesis
    by (auto simp: sticky_def split: option.splits if_splits dest: find_SomeD)
qed

lemma lab_graph_links:
  "distinct (map ls_id (lab_links s)) \<Longrightarrow> distinct (map gl_id (g_links (lab_graph s)))"
  by (simp add: lab_graph_def comp_def distinct_map_filter)

lemma lab_path_links:
  assumes "simple_path (lab_graph s) dn dl a b p" "i \<in> set (snd p)" "distinct (map ls_id (lab_links s))"
  obtains l where "find_link (lab_links s) i = Some l" "ls_kind l = Qkd" "\<not> notInRun l"
proof -
  from assms(1) have f: "follows (joins (lab_graph s) dn dl) (fst p) (snd p)" by (simp add: simple_path_def)
  from follows_all [OF f assms(2)] obtain g where g: "g \<in> set (g_links (lab_graph s))" "gl_id g = i"
    by (auto simp: joins_def)
  then obtain l where "l \<in> set (lab_links s)" "ls_id l = i" "ls_kind l = Qkd" "\<not> notInRun l"
    by (auto simp: lab_graph_def)
  with find_link_in [OF assms(3)] that show ?thesis by metis
qed

lemma view_of_up: "up (view_of acc t n l) \<longleftrightarrow> \<not> down l"
  by (auto simp: view_of_def no_view_def ok_view_def Let_def split: accounting.splits option.splits)

lemma chosen_route:
  assumes d: "distinct (map ls_id (lab_links s))" and r: "lab_route (chooseRoute n s) = Some r"
  obtains p where "r = describeRoute p (lab_view s n)"
    "simple_path (lab_graph s) (lab_downNodes s) (downLinks (lab_graph s) (lab_view s n)) (lab_from s) (lab_to s) p"
    "\<forall>i \<in> set (snd p). \<exists>l. find_link (lab_links s) i = Some l \<and> \<not> down l \<and> ls_kind l = Qkd \<and> \<not> notInRun l
       \<and> usable (view_of (lab_accounting s) (lab_tickS s) n l)"
    "distinct (snd p)" "lab_from s \<noteq> lab_to s"
proof -
  from r have "r \<in> set (ranked (lab_select n s))"
    unfolding chooseRoute_route lab_select_def by (rule sticky_ranked)
  then obtain p where p: "r = describeRoute p (lab_view s n)"
      "simple_path (lab_graph s) (lab_downNodes s) (downLinks (lab_graph s) (lab_view s n)) (lab_from s) (lab_to s) p"
      "\<forall>i \<in> set (snd p). usable (lab_view s n i)" "lab_from s \<noteq> lab_to s"
    unfolding lab_select_def by (rule ranked_members)
  have "\<exists>l. find_link (lab_links s) i = Some l \<and> \<not> down l \<and> ls_kind l = Qkd \<and> \<not> notInRun l
      \<and> usable (view_of (lab_accounting s) (lab_tickS s) n l)" if i: "i \<in> set (snd p)" for i
  proof -
    obtain l where l: "find_link (lab_links s) i = Some l" "ls_kind l = Qkd" "\<not> notInRun l"
      using lab_path_links [OF p(2) i d] .
    have "usable (lab_view s n i)" using p(3) i by blast
    with l have u: "usable (view_of (lab_accounting s) (lab_tickS s) n l)" by (simp add: lab_view_def)
    then have "\<not> down l" by (auto simp: view_of_def)
    with l u show ?thesis by blast
  qed
  with that p simple_path_distinct_links [OF lab_graph_links [OF d] p(2)] show ?thesis by blast
qed

lemma chooseRoute_ok:
  assumes "distinct (map ls_id (lab_links s))"
  shows "route_ok (lab_links s) (lab_downNodes s) (lab_route (chooseRoute n s))"
proof (cases "lab_route (chooseRoute n s)")
  case (Some r)
  from chosen_route [OF assms Some] obtain p where
    p: "r = describeRoute p (lab_view s n)"
    "simple_path (lab_graph s) (lab_downNodes s) (downLinks (lab_graph s) (lab_view s n)) (lab_from s) (lab_to s) p"
    "\<forall>i \<in> set (snd p). \<exists>l. find_link (lab_links s) i = Some l \<and> \<not> down l \<and> ls_kind l = Qkd \<and> \<not> notInRun l
       \<and> usable (view_of (lab_accounting s) (lab_tickS s) n l)"
    "distinct (snd p)" and e: "lab_from s \<noteq> lab_to s" by blast
  have f: "follows (joins (lab_graph s) (lab_downNodes s) (downLinks (lab_graph s) (lab_view s n))) (fst p) (snd p)"
    using p(2) by (simp add: simple_path_def)
  have ne: "snd p \<noteq> []"
    using e p(1,2) f by (cases "fst p") (auto simp: simple_path_def dest: follows_length)
  have "set (fst p) \<inter> set (lab_downNodes s) = {}" using follows_nodes [OF f _ ne] joins_nodes by blast
  with Some p show ?thesis by (auto simp: route_ok_def)
qed (simp add: route_ok_def)

section \<open>The invariant\<close>

definition link_ok :: "link_state \<Rightarrow> bool" where
  "link_ok l \<longleftrightarrow> (\<forall>k. storedKeys l = Some k \<longrightarrow> 0 \<le> k \<and> k \<le> LOW_WM)
     \<and> (\<forall>b th. storedBits l = Some b \<longrightarrow> thresholdBits l = Some th \<longrightarrow> th \<le> b)
     \<and> (\<forall>g. genBps l = Some g \<longrightarrow> 0 \<le> g)"

definition links_ok :: "link_state list \<Rightarrow> bool" where
  "links_ok ls \<longleftrightarrow> distinct (map ls_id ls) \<and> (\<forall>l \<in> set ls. link_ok l)"

definition stream_ok :: "string option \<Rightarrow> km \<Rightarrow> bool" where
  "stream_ok ko km \<longleftrightarrow> km = [] \<or> (\<exists>k. ko = Some k \<and> map fst km = [k] \<and> km_synced k km
     \<and> undelivered k A km \<le> LOW_WM \<and> chunkBytes k km = Some (int KEY_BYTES))"

definition service_ok :: "service_state option \<Rightarrow> bool" where
  "service_ok sv = (case sv of None \<Rightarrow> True | Some x \<Rightarrow>
     0 \<le> sv_stored x \<and> sv_stored x \<le> sv_capacity x \<and> 0 \<le> sv_refillTo x \<and> sv_refillTo x \<le> sv_capacity x)"

definition logs_ok :: "tmessage list \<Rightarrow> tick_rec list \<Rightarrow> reroute list \<Rightarrow> bool" where
  "logs_ok ms hs rs \<longleftrightarrow> length ms \<le> MESSAGE_LIMIT \<and> length hs \<le> HISTORY_LIMIT \<and> length rs \<le> HISTORY_LIMIT"

definition clock_ok :: "rat \<Rightarrow> rat \<Rightarrow> rat option \<Rightarrow> bool" where
  "clock_ok credit tickS perS \<longleftrightarrow> 0 \<le> credit \<and> credit < 1 \<and> 0 \<le> tickS
     \<and> (case perS of None \<Rightarrow> True | Some v \<Rightarrow> 0 \<le> v)"

definition loop_ok :: "bool \<Rightarrow> sim_status \<Rightarrow> bool" where
  "loop_ok timer st \<longleftrightarrow> (timer \<longrightarrow> st = Running)"

definition source_ok :: "topology_preset \<Rightarrow> scenario option \<Rightarrow> accounting \<Rightarrow> service_state option \<Rightarrow> bool" where
  "source_ok pr sc acc sv \<longleftrightarrow> pr \<in> set PRESETS
     \<and> (case sc of None \<Rightarrow> acc = Acc_keys \<or> acc = Acc_route_only
        | Some x \<Rightarrow> x \<in> set SCENARIOS \<and> s_presetId x = p_id pr \<and> acc = scenario_accounting x)
     \<and> (acc = Acc_service_buffer \<longleftrightarrow> sv \<noteq> None)"

text \<open>Credit is never negative, so a link never loses keys to generation.\<close>

definition credit_ok :: "(string \<times> rat) list \<Rightarrow> bool" where
  "credit_ok cr \<longleftrightarrow> (\<forall>i. 0 \<le> credit_of cr i)"

definition lab_wf :: "lab \<Rightarrow> bool" where
  "lab_wf s \<longleftrightarrow> links_ok (lab_links s) \<and> credit_ok (lab_credit s) \<and> route_ok (lab_links s) (lab_downNodes s) (lab_route s)
     \<and> stream_ok (lab_ksid s) (lab_km s) \<and> service_ok (lab_service s)
     \<and> logs_ok (lab_messages s) (lab_history s) (lab_reroutes s)
     \<and> clock_ok (lab_demandCredit s) (lab_tickS s) (lab_keysPerS s) \<and> loop_ok (lab_timer s) (lab_status s)
     \<and> source_ok (lab_preset s) (lab_scenario s) (lab_accounting s) (lab_service s)"

lemma wf_distinct: "lab_wf s \<Longrightarrow> distinct (map ls_id (lab_links s))"
  by (simp add: lab_wf_def links_ok_def)

subsection \<open>Timeline and trace\<close>

lemma push_message_wf [inv_intros]: "lab_wf s \<Longrightarrow> lab_wf (push_message m s)"
  by (simp add: lab_wf_def) (simp add: logs_ok_def push_message_def length_push_shift_le)

lemma lab_log_wf [inv_intros]: "lab_wf s \<Longrightarrow> lab_wf (lab_log la tx st tr s)"
  by (simp add: lab_log_def push_message_wf)

lemma log004_wf [inv_intros]: "lab_wf s \<Longrightarrow> lab_wf (log004 c r s)"
  by (simp add: log004_def push_message_wf)

lemma trace_wf [inv_intros]:
  "lab_wf s \<Longrightarrow> lab_wf (traceStep i oc d s)" "lab_wf s \<Longrightarrow> lab_wf (traceRoute s)"
  "lab_wf s \<Longrightarrow> lab_wf (traceRelayOver a s)"
  by (simp_all add: lab_wf_def)

lemma note_reroute_len: "length (lab_reroutes s) \<le> HISTORY_LIMIT \<Longrightarrow> length (lab_reroutes (note_reroute prev s)) \<le> HISTORY_LIMIT"
  by (auto simp: note_reroute_def Let_def length_push_shift_le HISTORY_LIMIT_def)

lemma chooseRoute_wf [inv_intros]: "lab_wf s \<Longrightarrow> lab_wf (chooseRoute n s)"
proof -
  assume wf: "lab_wf s"
  then have "length (lab_reroutes (chooseRoute n s)) \<le> HISTORY_LIMIT"
    unfolding chooseRoute_def Let_def by (intro note_reroute_len) (simp add: lab_wf_def logs_ok_def)
  with wf chooseRoute_ok [OF wf_distinct [OF wf], of n] show ?thesis by (simp add: lab_wf_def logs_ok_def)
qed

lemma relaySample_wf [inv_intros]: "lab_wf s \<Longrightarrow> lab_wf (snd (relaySample p s))"
  by (simp add: lab_wf_def)

subsection \<open>Generation\<close>

lemma gen_link_id: "ls_id (fst (snd (gen_link t cr l))) = ls_id l"
  by (simp add: gen_link_def Let_def split: option.splits)

lemma gen_link_down:
  "down (fst (snd (gen_link t cr l))) = down l" "ls_kind (fst (snd (gen_link t cr l))) = ls_kind l"
  "notInRun (fst (snd (gen_link t cr l))) = notInRun l"
  "storedBits (fst (snd (gen_link t cr l))) = storedBits l" "thresholdBits (fst (snd (gen_link t cr l))) = thresholdBits l"
  by (simp_all add: gen_link_def Let_def split: option.splits)

lemma keys_made_bounds:
  assumes "0 \<le> c" "0 \<le> k" "k < LOW_WM"
  shows "0 \<le> keys_made c k" "k + keys_made c k \<le> LOW_WM" "of_int (keys_made c k) \<le> c"
proof -
  have "of_int \<lfloor>c\<rfloor> \<le> c" by simp
  moreover have "of_int (keys_made c k) \<le> (of_int \<lfloor>c\<rfloor> :: rat)" by (simp add: keys_made_def)
  ultimately show "of_int (keys_made c k) \<le> c" by (rule order_trans [rotated])
  show "0 \<le> keys_made c k" "k + keys_made c k \<le> LOW_WM"
    using assms by (auto simp: keys_made_def lab_consts)
qed

lemma gen_link_ok:
  assumes "link_ok l" "credit_ok cr" "0 \<le> t"
  shows "link_ok (fst (snd (gen_link t cr l))) \<and> credit_ok (fst (gen_link t cr l))
    \<and> 0 \<le> snd (snd (gen_link t cr l))
    \<and> stored_keys (fst (snd (gen_link t cr l))) = stored_keys l + snd (snd (gen_link t cr l))"
proof (cases "genBps l = None \<or> storedKeys l = None \<or> ls_kind l \<noteq> Qkd \<or> down l")
  case True
  with assms show ?thesis by (auto simp: gen_link_def split: option.splits)
next
  case False
  then obtain g k where gk: "genBps l = Some g" "storedKeys l = Some k" "ls_kind l = Qkd" "\<not> down l" by auto
  have k: "0 \<le> k" using assms(1) gk(2) by (simp add: link_ok_def)
  have upd: "credit_ok (AList.update i v cr)" if "0 \<le> v" for i v
    using assms(2) that by (auto simp: credit_ok_def credit_of_def map_of_update_iff split: if_splits)
  show ?thesis
  proof (cases "LOW_WM \<le> k")
    case True
    with gk assms(1) upd show ?thesis by (simp add: gen_link_def stored_keys_def)
  next
    case less: False
    define c where "c = credit_of cr (ls_id l) + g * t / KEY_BITS"
    have "0 \<le> c" using assms gk(1) by (simp add: c_def credit_ok_def KEY_BITS_def link_ok_def)
    note b = keys_made_bounds [OF this k, of] less
    then show ?thesis
      using gk assms(1) k less upd by (auto simp: gen_link_def Let_def link_ok_def stored_keys_def simp flip: c_def)
  qed
qed

lemma gen_links_ok:
  assumes "\<forall>l \<in> set ls. link_ok l" "credit_ok cr" "0 \<le> t"
  shows "case gen_links t cr ls of (cr', ls', keys, n) \<Rightarrow> (\<forall>l \<in> set ls'. link_ok l) \<and> credit_ok cr' \<and> 0 \<le> keys
    \<and> total_keys ls' = total_keys ls + keys"
  using assms
proof (induction ls arbitrary: cr)
  case (Cons l ls)
  obtain cr1 l1 made where g: "gen_link t cr l = (cr1, l1, made)" by (metis prod_cases3)
  with Cons.prems gen_link_ok [of l cr t]
  have l1: "link_ok l1" "credit_ok cr1" "0 \<le> made" "stored_keys l1 = stored_keys l + made"
    by simp_all
  obtain cr2 ls2 keys n where r: "gen_links t cr1 ls = (cr2, ls2, keys, n)" by (metis prod_cases4)
  from Cons.IH [of cr1] Cons.prems l1(2) r show ?case
    using g l1 by (auto simp: total_keys_def)
qed (simp add: total_keys_def)

lemma gen_links_static:
  "map (\<lambda>l. (ls_id l, down l, ls_kind l, notInRun l)) (fst (snd (gen_links t cr ls)))
   = map (\<lambda>l. (ls_id l, down l, ls_kind l, notInRun l)) ls"
  by (induction ls arbitrary: cr) (simp_all add: case_prod_unfold Let_def gen_link_id gen_link_down)

text \<open>What the route check reads of a link.\<close>

lemma find_link_static:
  assumes "map (\<lambda>l. (ls_id l, down l, ls_kind l, notInRun l)) ls' = map (\<lambda>l. (ls_id l, down l, ls_kind l, notInRun l)) ls"
  shows "(\<exists>l. find_link ls' i = Some l \<and> \<not> down l \<and> ls_kind l = Qkd \<and> \<not> notInRun l)
     \<longleftrightarrow> (\<exists>l. find_link ls i = Some l \<and> \<not> down l \<and> ls_kind l = Qkd \<and> \<not> notInRun l)"
  using assms
proof (induction ls arbitrary: ls')
  case (Cons l ls)
  then obtain m ms where m: "ls' = m # ms" by (cases ls') auto
  have c: "find_link (x # xs) i = (if ls_id x = i then Some x else find_link xs i)" for x xs
    by (simp add: find_link_def)
  from Cons.prems m have h: "ls_id m = ls_id l" "down m = down l" "ls_kind m = ls_kind l" "notInRun m = notInRun l"
    and t: "map (\<lambda>l. (ls_id l, down l, ls_kind l, notInRun l)) ms = map (\<lambda>l. (ls_id l, down l, ls_kind l, notInRun l)) ls"
    by simp_all
  show ?case unfolding m c using h Cons.IH [OF t] by simp
qed (simp add: find_link_def)

lemma route_ok_static:
  assumes "map (\<lambda>l. (ls_id l, down l, ls_kind l, notInRun l)) ls' = map (\<lambda>l. (ls_id l, down l, ls_kind l, notInRun l)) ls"
  shows "route_ok ls' dn r \<longleftrightarrow> route_ok ls dn r"
  using find_link_static [OF assms] by (simp add: route_ok_def split: option.splits)

lemma static_ids:
  "map (\<lambda>l. (ls_id l, down l, ls_kind l, notInRun l)) ls' = map (\<lambda>l. (ls_id l, down l, ls_kind l, notInRun l)) ls
   \<Longrightarrow> map ls_id ls' = map ls_id ls"
  by (drule arg_cong [where f = "map fst"]) (simp add: comp_def)

lemma generateKeys_wf [inv_intros]:
  assumes "lab_wf s"
  shows "lab_wf (snd (snd (generateKeys s)))"
proof -
  obtain cr ls keys n where g: "gen_links (lab_tickS s) (lab_credit s) (lab_links s) = (cr, ls, keys, n)"
    by (metis prod_cases4)
  have st: "map (\<lambda>l. (ls_id l, down l, ls_kind l, notInRun l)) ls = map (\<lambda>l. (ls_id l, down l, ls_kind l, notInRun l)) (lab_links s)"
    using gen_links_static [of "lab_tickS s" "lab_credit s" "lab_links s"] g by simp
  have "(\<forall>l \<in> set ls. link_ok l) \<and> credit_ok cr"
    using gen_links_ok [of "lab_links s" "lab_credit s" "lab_tickS s"] assms g
    by (simp add: lab_wf_def links_ok_def clock_ok_def)
  with assms static_ids [OF st] route_ok_static [OF st] show ?thesis
    using g by (simp add: lab_wf_def links_ok_def generateKeys_def)
qed

subsection \<open>Spending\<close>

lemma spend_static:
  assumes "\<And>l. (ls_id (f l), down (f l), ls_kind (f l), notInRun (f l)) = (ls_id l, down l, ls_kind l, notInRun l)"
  shows "map (\<lambda>l. (ls_id l, down l, ls_kind l, notInRun l)) (spend_on f ids ls) = map (\<lambda>l. (ls_id l, down l, ls_kind l, notInRun l)) ls"
proof -
  have u: "map (\<lambda>l. (ls_id l, down l, ls_kind l, notInRun l)) (update_first i f ls) = map (\<lambda>l. (ls_id l, down l, ls_kind l, notInRun l)) ls" for i ls
    by (induction ls) (use assms in auto)
  show ?thesis by (induction ids arbitrary: ls) (simp_all add: spend_on_def u)
qed

lemma spend_links_ok:
  assumes "links_ok ls" "distinct ids"
    and "\<And>l. (ls_id (f l), down (f l), ls_kind (f l), notInRun (f l)) = (ls_id l, down l, ls_kind l, notInRun l)"
    and "\<And>i l. i \<in> set ids \<Longrightarrow> find_link ls i = Some l \<Longrightarrow> link_ok l \<Longrightarrow> link_ok (f l)"
  shows "links_ok (spend_on f ids ls)"
proof -
  have d: "distinct (map ls_id ls)" and ok: "\<And>l. l \<in> set ls \<Longrightarrow> link_ok l" using assms(1) by (simp_all add: links_ok_def)
  have fid: "ls_id (f l) = ls_id l" for l using assms(3) [of l] by simp
  have "\<forall>l \<in> set (spend_on f ids ls). link_ok l"
    by (rule spend_on_all [OF d assms(2) fid ok]) (use assms(4) ok find_link_Some in blast)+
  with static_ids [OF spend_static [OF assms(3)]] d show ?thesis by (simp add: links_ok_def)
qed

text \<open>A bottleneck of at least one key means a key on every hop.\<close>

lemma bottleneck_keys:
  assumes d: "distinct (map ls_id (lab_links s))" and r: "lab_route (chooseRoute n s) = Some r"
    and acc: "lab_accounting s = Acc_keys" and b: "KEY_BITS \<le> bits_or_0 (bottleneckBits r)"
  shows "\<forall>i \<in> set (linkIds r). \<exists>l. find_link (lab_links s) i = Some l \<and> 1 \<le> stored_keys l"
proof
  fix i assume i: "i \<in> set (linkIds r)"
  from chosen_route [OF d r] obtain p where p: "r = describeRoute p (lab_view s n)"
    "\<forall>i \<in> set (snd p). \<exists>l. find_link (lab_links s) i = Some l \<and> \<not> down l \<and> ls_kind l = Qkd \<and> \<not> notInRun l
       \<and> usable (view_of (lab_accounting s) (lab_tickS s) n l)" by metis
  with i obtain l where l: "find_link (lab_links s) i = Some l" "\<not> down l" by auto
  from b obtain v where v: "bottleneckBits r = Some v" "KEY_BITS \<le> v"
    by (cases "bottleneckBits r") (simp_all add: bits_or_0_def KEY_BITS_def)
  from v(1) p(1) have "\<exists>a \<ge> v. availableBits (lab_view s n i) = Some a"
    using i bottleneck_case [of "snd p" availableBits "lab_view s n"] by (cases "snd p") (simp_all only: describeRoute_simps, auto)
  then obtain a where a: "v \<le> a" "availableBits (lab_view s n i) = Some a" by blast
  then have "a = 0 \<or> a = of_int (stored_keys l) * KEY_BITS"
    using l acc by (auto simp: lab_view_def view_of_def no_view_def ok_view_def stored_keys_def Let_def split: if_splits option.splits)
  with a(1) v(2) have "1 \<le> (of_int (stored_keys l) :: rat)" by (auto simp: KEY_BITS_def)
  with l(1) show "\<exists>l. find_link (lab_links s) i = Some l \<and> 1 \<le> stored_keys l" by auto
qed

lemma chosen_hops:
  assumes "distinct (map ls_id (lab_links s))" "lab_route (chooseRoute n s) = Some r"
  shows "1 \<le> hops r"
proof -
  from chosen_route [OF assms] obtain p where p: "r = describeRoute p (lab_view s n)"
    "simple_path (lab_graph s) (lab_downNodes s) (downLinks (lab_graph s) (lab_view s n)) (lab_from s) (lab_to s) p"
    "lab_from s \<noteq> lab_to s" by metis
  then have "snd p \<noteq> []"
    by (cases "fst p") (auto simp: simple_path_def dest: follows_length)
  with p(1) show ?thesis by (cases "snd p") simp_all
qed

lemma spend_key_ok: "link_ok l \<Longrightarrow> 1 \<le> stored_keys l \<Longrightarrow> link_ok (spend_key l)"
  by (auto simp: link_ok_def spend_key_def stored_keys_def split: option.splits)

subsection \<open>Relay into the stream\<close>

lemma relay_one_links: "lab_links (relay_one p k r s) = spend_on spend_key (linkIds r) (lab_links s)"
  by (simp add: relay_one_def Let_def case_prod_unfold)

lemma relay_one_km:
  "\<exists>env b h. lab_km (relay_one p k r s) = snd (km_supply env k b h (lab_km s))"
proof -
  have "lab_km (relay_one p k r s) = snd (km_supply
      (lab_km_env p (snd (relaySample p (s\<lparr>lab_links := spend_on spend_key (linkIds r) (lab_links s)\<rparr>)))) k
      (fst (relaySample p (s\<lparr>lab_links := spend_on spend_key (linkIds r) (lab_links s)\<rparr>))) (int (relays r)) (lab_km s))"
    by (simp add: relay_one_def Let_def case_prod_unfold)
  then show ?thesis by blast
qed

lemma km_supply_keeps:
  "map fst (snd (km_supply env k b h km)) = map fst km" "chunkBytes k' (snd (km_supply env k b h km)) = chunkBytes k' km"
proof -
  have "k \<in> fst ` set km" if "map_of km k = Some st" for st using that by (metis map_of_SomeD fst_conv image_eqI)
  then show "map fst (snd (km_supply env k b h km)) = map fst km"
    by (auto simp: km_supply_def Let_def update_keys split: option.splits)
  show "chunkBytes k' (snd (km_supply env k b h km)) = chunkBytes k' km"
    by (auto simp: km_supply_def Let_def chunkBytes_def map_of_update_iff split: option.splits)
qed

lemma relay_one_km_ok:
  assumes "km_synced k (lab_km s)"
  shows "km_synced k (lab_km (relay_one p k r s))"
    "undelivered k A (lab_km (relay_one p k r s)) = undelivered k A (lab_km s) + 1"
    "map fst (lab_km (relay_one p k r s)) = map fst (lab_km s)"
    "chunkBytes k' (lab_km (relay_one p k r s)) = chunkBytes k' (lab_km s)"
proof -
  obtain env b h where e: "lab_km (relay_one p k r s) = snd (km_supply env k b h (lab_km s))"
    using relay_one_km by blast
  show "km_synced k (lab_km (relay_one p k r s))"
    "undelivered k A (lab_km (relay_one p k r s)) = undelivered k A (lab_km s) + 1"
    "map fst (lab_km (relay_one p k r s)) = map fst (lab_km s)"
    "chunkBytes k' (lab_km (relay_one p k r s)) = chunkBytes k' (lab_km s)"
    unfolding e using km_supply_synced [OF assms, of env b h] km_supply_keeps by simp_all
qed

lemma relay_one_wf:
  assumes wf: "lab_wf s" and k: "lab_ksid s = Some k" "km_synced k (lab_km s)" "undelivered k A (lab_km s) < LOW_WM"
    and r: "distinct (linkIds r)" "\<forall>i \<in> set (linkIds r). \<exists>l. find_link (lab_links s) i = Some l \<and> 1 \<le> stored_keys l"
  shows "lab_wf (relay_one p k r s)"
proof -
  have st: "(ls_id (spend_key l), down (spend_key l), ls_kind (spend_key l), notInRun (spend_key l))
      = (ls_id l, down l, ls_kind l, notInRun l)" for l by (simp add: spend_key_def)
  have "links_ok (spend_on spend_key (linkIds r) (lab_links s))"
    by (rule spend_links_ok [OF _ r(1) st]) (use wf r(2) spend_key_ok in \<open>auto simp: lab_wf_def\<close>)
  moreover have "route_ok (spend_on spend_key (linkIds r) (lab_links s)) dn rt \<longleftrightarrow> route_ok (lab_links s) dn rt" for dn rt
    by (rule route_ok_static [OF spend_static [OF st]])
  moreover have "lab_km s \<noteq> []" using k(2) by (auto simp: km_synced_def)
  ultimately show ?thesis
    using wf k relay_one_km_ok [OF k(2), where p = p and r = r]
    by (auto simp: lab_wf_def relay_one_links stream_ok_def)
qed

text \<open>
  The refill loop ends, and says why: the stream is full, no route is left, or a hop of the route has
  no key. Each relayed key costs one key on every hop of the route it took.
\<close>

definition refill_exit :: "string \<Rightarrow> lab \<Rightarrow> tmpl option \<Rightarrow> bool" where
  "refill_exit k s w \<longleftrightarrow> LOW_WM \<le> undelivered k A (lab_km s) \<and> w = None
     \<or> lab_route s = None \<and> w = None
     \<or> w \<noteq> None \<and> (\<exists>r. lab_route s = Some r \<and> bits_or_0 (bottleneckBits r) < KEY_BITS)"

lemma refill_loop_spec:
  assumes "lab_wf s" "lab_ksid s = Some k" "km_synced k (lab_km s)" "lab_accounting s = Acc_keys"
    "LOW_WM \<le> undelivered k A (lab_km s) + int f" "refill_loop f p k s = (n, w, s')"
  shows "lab_wf s' \<and> km_synced k (lab_km s') \<and> lab_ksid s' = Some k
    \<and> undelivered k A (lab_km s') = undelivered k A (lab_km s) + int n
    \<and> refill_exit k s' w
    \<and> (\<exists>hs. length hs = n \<and> (\<forall>h \<in> set hs. 1 \<le> h) \<and> total_keys (lab_links s) = total_keys (lab_links s') + int (sum_list hs))
    \<and> lab_accounting s' = Acc_keys"
  using assms
proof (induction f arbitrary: s n w s')
  case 0
  then show ?case by (auto simp: refill_exit_def)
next
  case (Suc f)
  show ?case
  proof (cases "undelivered k A (lab_km s) < LOW_WM")
    case False
    with Suc.prems show ?thesis by (auto simp: refill_exit_def)
  next
    case less: True
    define s1 where "s1 = chooseRoute KEY_BITS s"
    have s1: "lab_wf s1" "lab_ksid s1 = Some k" "km_synced k (lab_km s1)" "lab_accounting s1 = Acc_keys"
      "lab_links s1 = lab_links s" "lab_km s1 = lab_km s"
      using Suc.prems chooseRoute_wf by (simp_all add: s1_def)
    show ?thesis
    proof (cases "lab_route s1")
      case None
      with Suc.prems less s1 show ?thesis by (auto simp: refill_exit_def simp flip: s1_def)
    next
      case (Some r)
      show ?thesis
      proof (cases "bits_or_0 (bottleneckBits r) < KEY_BITS")
        case True
        with Suc.prems less s1 Some show ?thesis by (auto simp: refill_exit_def simp flip: s1_def)
      next
        case False
        have d: "distinct (map ls_id (lab_links s))" using Suc.prems(1) by (rule wf_distinct)
        have hk: "\<forall>i \<in> set (linkIds r). \<exists>l. find_link (lab_links s) i = Some l \<and> 1 \<le> stored_keys l"
          using bottleneck_keys [OF d, of KEY_BITS r] Some False Suc.prems(4) by (simp add: s1_def)
        have ro: "distinct (linkIds r)" "hops r = length (linkIds r)"
          using s1(1) Some by (simp_all add: lab_wf_def route_ok_def)
        have h1: "1 \<le> hops r"
          using chosen_hops [OF d, of KEY_BITS r] Some by (simp add: s1_def)
        define s2 where "s2 = relay_one p k r s1"
        have s2: "lab_wf s2" using relay_one_wf [OF s1(1-3) _ ro(1)] less hk s1(5,6) by (simp add: s2_def)
        have s2k: "lab_ksid s2 = Some k" "km_synced k (lab_km s2)" "lab_accounting s2 = Acc_keys"
          "undelivered k A (lab_km s2) = undelivered k A (lab_km s) + 1"
          using s1 relay_one_km_ok [OF s1(3), where p = p and r = r] by (simp_all add: s2_def)
        have tk: "total_keys (lab_links s2) = total_keys (lab_links s) - int (hops r)"
          using total_keys_spend_on [of "linkIds r" "lab_links s"] hk s1(5) ro(2) by (force simp: s2_def relay_one_links)
        obtain n' w' s3 where l: "refill_loop f p k s2 = (n', w', s3)" by (metis prod_cases3)
        have e: "n = Suc n'" "w = w'" "s' = s3"
          using Suc.prems(6) less Some False l by (simp_all flip: s1_def s2_def)
        from Suc.IH [OF s2 s2k(1-3) _ l] s2k(4) Suc.prems(5) have IH:
          "lab_wf s3 \<and> km_synced k (lab_km s3) \<and> lab_ksid s3 = Some k
            \<and> undelivered k A (lab_km s3) = undelivered k A (lab_km s2) + int n'
            \<and> refill_exit k s3 w'
            \<and> (\<exists>hs. length hs = n' \<and> (\<forall>h \<in> set hs. 1 \<le> h) \<and> total_keys (lab_links s2) = total_keys (lab_links s3) + int (sum_list hs))
            \<and> lab_accounting s3 = Acc_keys" by simp
        then obtain hs where hs: "length hs = n'" "\<forall>h \<in> set hs. 1 \<le> h"
          "total_keys (lab_links s2) = total_keys (lab_links s3) + int (sum_list hs)" by blast
        have "length (hops r # hs) = n \<and> (\<forall>h \<in> set (hops r # hs). 1 \<le> h)
            \<and> total_keys (lab_links s) = total_keys (lab_links s3) + int (sum_list (hops r # hs))"
          using hs h1 tk e by simp
        with IH s2k(4) e show ?thesis by (intro conjI exI [of _ "hops r # hs"]) simp_all
      qed
    qed
  qed
qed

lemma stream_ok_synced:
  "stream_ok ko km \<Longrightarrow> isEstablished ko km \<Longrightarrow> \<exists>k. ko = Some k \<and> km_synced k km \<and> undelivered k A km \<le> LOW_WM"
  by (auto simp: stream_ok_def isEstablished_def split: option.splits)

lemma log_refill_wf [inv_intros]: "lab_wf s \<Longrightarrow> lab_wf (log_refill n w s)"
  by (auto simp: log_refill_def intro: lab_log_wf split: option.splits)

lemma refillStream_spec:
  assumes "lab_wf s" "lab_accounting s = Acc_keys" "refillStream p s = (n, w, s')"
  shows "lab_wf s' \<and> lab_accounting s' = Acc_keys \<and> lab_ksid s' = lab_ksid s
    \<and> (is_established s \<longrightarrow> is_established s')
    \<and> (\<exists>hs. length hs = n \<and> (\<forall>h \<in> set hs. 1 \<le> h) \<and> total_keys (lab_links s) = total_keys (lab_links s') + int (sum_list hs))"
proof (cases "lab_ksid s = None \<or> \<not> isEstablished (lab_ksid s) (lab_km s) \<or> lab_route s = None")
  case True
  with assms show ?thesis by (auto simp: refillStream_def split: option.splits)
next
  case False
  then obtain k where k: "lab_ksid s = Some k" "km_synced k (lab_km s)" "undelivered k A (lab_km s) \<le> LOW_WM"
    using stream_ok_synced [of "lab_ksid s" "lab_km s"] assms(1) by (auto simp: lab_wf_def)
  obtain n' w' s1 where l: "refill_loop (nat LOW_WM) p k s = (n', w', s1)" by (metis prod_cases3)
  have e: "n = n'" "s' = log_refill n' w' s1"
    using False k(1) l assms(3) by (auto simp: refillStream_def)
  have "0 \<le> undelivered k A (lab_km s)" using km_synced_pending [OF k(2)] by linarith
  then have "LOW_WM \<le> undelivered k A (lab_km s) + int (nat LOW_WM)" by (simp add: LOW_WM_def)
  note spec = refill_loop_spec [OF assms(1) k(1,2) assms(2) this l]
  then have "is_established s'"
    using e(2) by (auto simp: is_established_def isEstablished_def km_synced_def stream_synced_def)
  with spec e k(1) log_refill_wf show ?thesis by auto
qed

subsection \<open>Reads\<close>

lemma read_loop_sim:
  assumes "km_ready env k km" "paired_reads (km_read env k) n km = (xs, ys, km')"
  shows "\<exists>rd'. read_loop env k n rd km = (rd', km') \<and> rd_ok rd' = rd_ok rd + length xs
    \<and> rd_fail rd' = (if length xs = n then rd_fail rd else rd_fail rd')
    \<and> (length xs < n \<longrightarrow> (\<exists>r. rd_fail rd' = Some r \<and> via r = T13))
    \<and> map fst km' = map fst km \<and> chunkBytes k km' = chunkBytes k km"
  using assms
proof (induction n arbitrary: rd km xs ys km')
  case (Suc n)
  show ?case
  proof (cases "undelivered k A km = 0")
    case True
    from getKey_none_pending [OF Suc.prems(1) True] obtain r where
      g: "getKey env A k None 0 km = (r, km)" "via r = T13" "res_status r = Some (statusCode INSUFFICIENT_KEY)" by blast
    with Suc.prems(2) show ?thesis by (auto simp: km_read_def)
  next
    case False
    then have "0 < undelivered k A km"
      using km_synced_pending [of k km] Suc.prems(1) by (auto simp: km_ready_def)
    from getKey_pair [OF Suc.prems(1) this] obtain a b km1 km2 i dat where
      g: "getKey env A k None 0 km = (a, km1)" "getKey env B k (Some i) 0 km1 = (b, km2)"
        "index a = Some i" "index b = Some i" "Key_buffer a = Some dat" "Key_buffer b = Some dat"
        "res_status a = Some (statusCode SUCCESSFUL)" "res_status b = Some (statusCode SUCCESSFUL)"
        "km_ready env k km2" "chunkBytes k km2 = chunkBytes k km" "map fst km2 = map fst km" by blast
    have r: "km_read env k A None km = (Some (i, dat), km1)" "km_read env k B (Some i) km1 = (Some (i, dat), km2)"
      using g by (simp_all add: km_read_def)
    obtain us vs km3 where p: "paired_reads (km_read env k) n km2 = (us, vs, km3)" by (metis prod_cases3)
    have e: "xs = (i, dat) # us" "km' = km3" using Suc.prems(2) r p by simp_all
    have step: "read_loop env k (Suc n) rd km = read_loop env k n (rd\<lparr>rd_ok := Suc (rd_ok rd),
             rd_first := (if rd_first rd < 0 then index_or (index a) else rd_first rd), rd_last := index_or (index a)\<rparr>) km2"
      using g by simp
    from Suc.IH [OF g(9) p] show ?thesis unfolding step e using g(10,11) by fastforce
  qed
qed simp

text \<open>What the reads of one tick give: all that is pending, up to what is due, the same on both ends.\<close>

lemma read_loop_ready:
  assumes "km_ready env k km"
  shows "\<exists>rd' km' xs. read_loop env k n rd km = (rd', km') \<and> paired_reads (km_read env k) n km = (xs, xs, km')
    \<and> length xs = min n (nat (undelivered k A km)) \<and> rd_ok rd' = rd_ok rd + min n (nat (undelivered k A km))
    \<and> km_ready env k km' \<and> undelivered k A km' = undelivered k A km - int (min n (nat (undelivered k A km)))
    \<and> map fst km' = map fst km \<and> chunkBytes k km' = chunkBytes k km"
proof -
  from lab_stream.paired_reads_spec [OF assms, of n] obtain xs km' where
    p: "paired_reads (km_read env k) n km = (xs, xs, km')" "length xs = min n (km_pending k km)"
      "km_ready env k km'" "km_pending k km' = km_pending k km - length xs" by blast
  from read_loop_sim [OF assms p(1), of rd] obtain rd' where
    r: "read_loop env k n rd km = (rd', km')" "rd_ok rd' = rd_ok rd + length xs"
      "map fst km' = map fst km" "chunkBytes k km' = chunkBytes k km" by blast
  have pend: "km_pending k km = nat (undelivered k A km)" by (simp add: km_pending_def)
  have s: "int (km_pending k km) = undelivered k A km" "int (km_pending k km') = undelivered k A km'"
    using assms p(3) by (simp_all add: km_ready_def km_synced_pending)
  have "undelivered k A km' = undelivered k A km - int (length xs)"
    using s p(2,4) by linarith
  with r p show ?thesis unfolding pend by simp
qed

lemma read_loop_no_route:
  assumes "km_synced k km" "\<not> routeUp env"
  shows "\<exists>rd'. read_loop env k n rd km = (rd', km) \<and> rd_ok rd' = rd_ok rd"
proof (cases n)
  case (Suc m)
  from assms obtain st where "map_of km k = Some st" "stream_synced k st" by (auto simp: km_synced_def)
  then have "getKey env A k None 0 km = ((status_res NO_QKD_CONNECTION T15)\<lparr>
      detail := Some ''the route between the two KMs has no working link''\<rparr>, km)"
    using assms(2) by (simp add: getKey_def stream_synced_def)
  with Suc show ?thesis by (simp add: res_defs)
qed simp

lemma lastStatus_wf: "lab_wf s \<Longrightarrow> lab_wf (s\<lparr>lab_lastStatus := v\<rparr>)"
  by (simp add: lab_wf_def)

lemma log_reads_wf [inv_intros]: "lab_wf s \<Longrightarrow> lab_wf (log_reads rd n b s)"
  by (auto simp: log_reads_def Let_def intro!: lab_log_wf lastStatus_wf split: option.splits)

lemma read_loop_no_stream: "map_of km k = None \<Longrightarrow> \<exists>rd'. read_loop env k n rd km = (rd', km) \<and> rd_ok rd' = rd_ok rd"
  by (cases n) (simp_all add: getKey_def res_defs)

text \<open>The requests due in a tick.\<close>

definition due_requests :: "lab \<Rightarrow> nat" where
  "due_requests s = nat \<lfloor>lab_demandCredit s + (case lab_keysPerS s of None \<Rightarrow> 0 | Some v \<Rightarrow> v) * lab_tickS s\<rfloor>"

definition pending_keys :: "lab \<Rightarrow> nat" where
  "pending_keys s = (if lab_route s = None then 0
     else case lab_ksid s of None \<Rightarrow> 0 | Some k \<Rightarrow> nat (undelivered k A (lab_km s)))"

text \<open>The keys of the stream that the first end has not been given yet.\<close>

definition stream_keys :: "lab \<Rightarrow> int" where
  "stream_keys s = (case lab_ksid s of None \<Rightarrow> 0 | Some k \<Rightarrow> undelivered k A (lab_km s))"

lemma pending_stream_keys: "pending_keys s = (if lab_route s = None then 0 else nat (stream_keys s))"
  by (simp add: pending_keys_def stream_keys_def split: option.splits)

lemma stream_read_loop:
  assumes "stream_ok (Some k) km"
  shows "\<exists>rd' km'. read_loop env k n rd km = (rd', km') \<and> stream_ok (Some k) km'
    \<and> rd_ok rd' = rd_ok rd + (if routeUp env then min n (nat (undelivered k A km)) else 0)
    \<and> undelivered k A km' = undelivered k A km - int (if routeUp env then min n (nat (undelivered k A km)) else 0)
    \<and> (chunkBytes k km' = None \<or> chunkBytes k km' = Some (int KEY_BYTES))"
proof (cases "km = []")
  case True
  then have u: "undelivered k A km = 0" by (simp add: undelivered_def)
  from True read_loop_no_stream [of km k env n rd] obtain rd' where
    "read_loop env k n rd km = (rd', km)" "rd_ok rd' = rd_ok rd" by auto
  with assms True u show ?thesis by (auto simp: chunkBytes_def)
next
  case False
  with assms have k: "map fst km = [k]" "km_synced k km" "undelivered k A km \<le> LOW_WM" "chunkBytes k km = Some (int KEY_BYTES)"
    by (auto simp: stream_ok_def)
  show ?thesis
  proof (cases "routeUp env")
    case True
    then have "km_ready env k km" using k(2) by (simp add: km_ready_def)
    from read_loop_ready [OF this, of n rd] obtain rd' km' where
      "read_loop env k n rd km = (rd', km')" "rd_ok rd' = rd_ok rd + min n (nat (undelivered k A km))"
      "km_ready env k km'" "undelivered k A km' = undelivered k A km - int (min n (nat (undelivered k A km)))"
      "map fst km' = map fst km" "chunkBytes k km' = chunkBytes k km" by blast
    with k True show ?thesis by (auto simp: stream_ok_def km_ready_def)
  next
    case no: False
    from read_loop_no_route [OF k(2) no, of n rd] assms k no show ?thesis by auto
  qed
qed

lemma due_bounds:
  assumes "clock_ok credit tickS perS"
  shows "0 \<le> credit + (case perS of None \<Rightarrow> 0 | Some v \<Rightarrow> v) * tickS"
  using assms by (auto simp: clock_ok_def split: option.splits)

lemma frac_clock:
  assumes "clock_ok credit tickS perS"
  shows "clock_ok (x - of_int \<lfloor>x\<rfloor>) tickS perS"
  using assms of_int_floor_le [of x] floor_correct [of x] by (auto simp: clock_ok_def)

lemma consumeStream_spec:
  assumes wf: "lab_wf s" and c: "consumeStream p s = (r, s')"
  shows "lab_wf s' \<and> cs_requested r = due_requests s \<and> cs_served r = min (due_requests s) (pending_keys s)
    \<and> cs_delivered r = of_nat (cs_served r) * KEY_BITS \<and> cs_unmet r = of_nat (due_requests s - cs_served r) * KEY_BITS
    \<and> lab_ok s' = lab_ok s + of_nat (cs_served r) \<and> lab_failed s' = lab_failed s + of_nat (due_requests s - cs_served r)
    \<and> stream_keys s' = stream_keys s - int (cs_served r)"
proof -
  define x where "x = lab_demandCredit s + (case lab_keysPerS s of None \<Rightarrow> 0 | Some v \<Rightarrow> v) * lab_tickS s"
  define n where "n = nat \<lfloor>x\<rfloor>"
  define s0 where "s0 = s\<lparr>lab_demandCredit := x - of_int \<lfloor>x\<rfloor>\<rparr>"
  have n: "due_requests s = n" by (simp add: due_requests_def n_def x_def)
  have wf0: "lab_wf s0" using wf frac_clock by (auto simp: lab_wf_def s0_def)
  have cdef: "consumeStream p s = (if n = 0 then (\<lparr>cs_delivered = 0, cs_unmet = 0, cs_requested = 0, cs_served = 0, cs_why = None\<rparr>, s0)
         else case lab_ksid s0 of
           None \<Rightarrow> (\<lparr>cs_delivered = 0, cs_unmet = of_nat n * KEY_BITS, cs_requested = n, cs_served = 0, cs_why = Some ''no stream''\<rparr>,
             lab_log Lane004 [Txt ''GET_KEY x'', Val (of_nat n), Txt '': no stream (OPEN_CONNECT has not succeeded)'']
               (Some (statusCode NO_QKD_CONNECTION)) None
               (s0\<lparr>lab_failed := lab_failed s0 + of_nat n, lab_lastStatus := Some (statusCode NO_QKD_CONNECTION)\<rparr>))
         | Some k \<Rightarrow>
             let (rd, km') = read_loop (lab_km_env p s0) k n \<lparr>rd_ok = 0, rd_first = -1, rd_last = -1, rd_fail = None\<rparr> (lab_km s0);
                 s1 = s0\<lparr>lab_km := km', lab_ok := lab_ok s0 + of_nat (rd_ok rd), lab_failed := lab_failed s0 + of_nat (n - rd_ok rd)\<rparr>;
                 bits = of_int (case chunkBytes k km' of None \<Rightarrow> int KEY_BYTES | Some c \<Rightarrow> c) * 8
             in (\<lparr>cs_delivered = of_nat (rd_ok rd) * bits, cs_unmet = of_nat (n - rd_ok rd) * bits, cs_requested = n,
                  cs_served = rd_ok rd, cs_why = map_option fail_text (rd_fail rd)\<rparr>,
                 log_reads rd n bits s1))"
    unfolding consumeStream_def Let_def s0_def n_def x_def by (rule refl)
  show ?thesis
  proof (cases "n = 0")
    case True
    with c wf0 n show ?thesis by (auto simp: cdef s0_def stream_keys_def split: option.splits)
  next
    case pos: False
    show ?thesis
    proof (cases "lab_ksid s0")
      case None
      have "lab_wf (s0\<lparr>lab_failed := v, lab_lastStatus := w\<rparr>)" for v w using wf0 by (simp add: lab_wf_def)
      with c pos None n show ?thesis
        by (auto simp: cdef s0_def pending_keys_def stream_keys_def intro!: lab_log_wf)
    next
      case (Some k)
      then have "stream_ok (Some k) (lab_km s0)" using wf0 by (simp add: lab_wf_def)
      from stream_read_loop [OF this, of "lab_km_env p s0" n "\<lparr>rd_ok = 0, rd_first = -1, rd_last = -1, rd_fail = None\<rparr>"]
      obtain rd' km' where l: "read_loop (lab_km_env p s0) k n \<lparr>rd_ok = 0, rd_first = -1, rd_last = -1, rd_fail = None\<rparr> (lab_km s0) = (rd', km')"
        and so: "stream_ok (Some k) km'"
        and ok: "rd_ok rd' = (if routeUp (lab_km_env p s0) then min n (nat (undelivered k A (lab_km s0))) else 0)"
        and un: "undelivered k A km' = undelivered k A (lab_km s0) - int (rd_ok rd')"
        and cb: "chunkBytes k km' = None \<or> chunkBytes k km' = Some (int KEY_BYTES)" by auto
      have bits: "of_int (case chunkBytes k km' of None \<Rightarrow> int KEY_BYTES | Some c \<Rightarrow> c) * 8 = KEY_BITS"
        using cb by (auto simp: lab_consts)
      have okp: "rd_ok rd' = min n (pending_keys s)"
        unfolding ok using Some by (auto simp: lab_km_env_def pending_keys_def s0_def)
      define s1 where "s1 = s0\<lparr>lab_km := km', lab_ok := lab_ok s0 + of_nat (rd_ok rd'), lab_failed := lab_failed s0 + of_nat (n - rd_ok rd')\<rparr>"
      have "lab_wf s1" using wf0 so Some by (simp add: lab_wf_def s1_def)
      moreover have "consumeStream p s = (\<lparr>cs_delivered = of_nat (rd_ok rd') * KEY_BITS, cs_unmet = of_nat (n - rd_ok rd') * KEY_BITS,
          cs_requested = n, cs_served = rd_ok rd', cs_why = map_option fail_text (rd_fail rd')\<rparr>, log_reads rd' n KEY_BITS s1)"
        using pos Some l bits by (simp add: cdef Let_def s1_def)
      ultimately show ?thesis
        using c n okp log_reads_wf [of s1 rd' n KEY_BITS] Some un by (auto simp: s1_def s0_def stream_keys_def)
    qed
  qed
qed

subsection \<open>Opening the stream\<close>

lemma open_both:
  assumes "routeUp env" "src \<noteq> dst" "keyChunkBytes env = int KEY_BYTES"
    and a: "openConnect env A src dst EMPTY_QOS None [] = (a, km1)"
    and b: "openConnect env' B dst src EMPTY_QOS (Some (newKsid env)) km1 = (b, km2)"
  shows "via a = T1 \<and> Key_stream_ID a = Some (newKsid env) \<and> res_status a = Some (statusCode PEER_NOT_CONNECTED)
    \<and> stream_ok (Some (newKsid env)) km2 \<and> km2 \<noteq> []"
proof -
  have q: "qos_unmet env EMPTY_QOS = None" "Key_chunk_size (counter_qos env EMPTY_QOS) = Some (int KEY_BYTES)"
    using assms(3) by (simp_all add: qos_unmet_def chunk_size_unmet_def min_bps_unmet_def mimetype_unmet_def EMPTY_QOS_def
        counter_qos_def counter_chunk_size_def Let_def)
  let ?st = "new_stream A src dst (counter_qos env EMPTY_QOS) (newKsid env)"
  have km1: "km1 = [(newKsid env, ?st)]" and a': "via a = T1 \<and> Key_stream_ID a = Some (newKsid env) \<and> res_status a = Some (statusCode PEER_NOT_CONNECTED)"
    using a assms(1) q(1) by (auto simp: openConnect_def open_null_def res_defs)
  let ?st' = "?st\<lparr>opened_by := (opened_by ?st)(B := True), st_state := ESTABLISHED\<rparr>"
  have km2: "km2 = [(newKsid env, ?st')]"
    using b by (simp add: km1 openConnect_def open_existing_def sameApps_def new_stream_def)
  have "stream_wf ?st'" by (rule open_stream_wf [OF new_stream_wf]) (simp_all add: new_stream_def)
  then have "km_synced (newKsid env) km2" by (simp add: km2 km_synced_def stream_synced_def new_stream_def)
  then show ?thesis
    using a' q(2) by (auto simp: km2 stream_ok_def undelivered_def chunkBytes_def LOW_WM_def new_stream_def)
qed

text \<open>Identifiers are never empty.\<close>

definition platform_ok :: "platform \<Rightarrow> bool" where
  "platform_ok p \<longleftrightarrow> tape_ok (pf_random p) \<and> (\<forall>i. pf_ksid p i \<noteq> [])"

lemma open_refused:
  assumes "\<not> routeUp env"
  shows "openConnect env A src dst EMPTY_QOS None km = ((status_res NO_QKD_CONNECTION T3)\<lparr>
     detail := Some ''no route of working QKD links between the two KMs''\<rparr>, km)"
  using assms by (simp add: openConnect_def open_null_def)

lemma openStream_spec:
  assumes "platform_ok p" "lab_wf s" "lab_km s = []"
  shows "lab_wf (openStream p s) \<and> (is_established (openStream p s) \<longleftrightarrow> lab_route s \<noteq> None \<and> lab_from s \<noteq> lab_to s)"
proof (cases "lab_from s = lab_to s")
  case True
  with assms show ?thesis by (auto simp: openStream_def is_established_def isEstablished_def split: option.splits)
next
  case ends: False
  have uri: "app_uri (lab_from s) \<noteq> app_uri (lab_to s)" using ends by (simp add: app_uri_def)
  show ?thesis
  proof (cases "lab_route s")
    case None
    then have r: "\<not> routeUp (lab_km_env p s)" by (simp add: lab_km_env_def)
    have "lab_wf (s\<lparr>lab_km := []\<rparr>)" using assms(2) by (simp add: lab_wf_def stream_ok_def)
    then have "lab_wf (log004 c a (s\<lparr>lab_km := []\<rparr>))" for c a by (rule log004_wf)
    then show ?thesis
      using ends None assms(3)
      by (auto simp: openStream_def open_refused [OF r] Let_def res_defs is_established_def isEstablished_def split: option.splits)
  next
    case (Some r)
    then have ru: "routeUp (lab_km_env p s)" by (simp add: lab_km_env_def)
    have kb: "keyChunkBytes (lab_km_env p s) = int KEY_BYTES" by (simp add: lab_km_env_def)
    obtain a km1 where a: "openConnect (lab_km_env p s) A (app_uri (lab_from s)) (app_uri (lab_to s)) EMPTY_QOS None [] = (a, km1)"
      by fastforce
    let ?k = "newKsid (lab_km_env p s)"
    have k: "?k \<noteq> []" using assms(1) by (simp add: platform_ok_def lab_km_env_def)
    define s1 where "s1 = log004 ''OPEN_CONNECT (A, Key_stream_ID null)'' a
          (s\<lparr>lab_km := km1, lab_ksids := (if via a = T1 then Suc (lab_ksids s) else lab_ksids s)\<rparr>)"
    obtain b km2 where b: "openConnect (lab_km_env p s1) B (app_uri (lab_to s)) (app_uri (lab_from s)) EMPTY_QOS (Some ?k) km1 = (b, km2)"
      by fastforce
    from open_both [OF ru uri kb a b] have o: "Key_stream_ID a = Some ?k" "res_status a = Some (statusCode PEER_NOT_CONNECTED)"
      "stream_ok (Some ?k) km2" "km2 \<noteq> []" by simp_all
    have e: "openStream p s = log004 ''OPEN_CONNECT (B, same Key_stream_ID)'' b (s1\<lparr>lab_ksid := Some ?k, lab_km := km2\<rparr>)"
      using ends assms(3) a o k b by (simp add: openStream_def Let_def s1_def)
    have w: "lab_wf (s1\<lparr>lab_ksid := Some ?k, lab_km := km2\<rparr>)"
    proof -
      have "length (lab_messages s1) \<le> MESSAGE_LIMIT"
        using assms(2) by (simp add: s1_def log004_def push_message_def lab_wf_def logs_ok_def length_push_shift_le)
      then show ?thesis using assms(2) o(3) by (simp add: lab_wf_def logs_ok_def s1_def)
    qed
    have "is_established (openStream p s)"
      unfolding e using o(3,4) by (auto simp: is_established_def stream_ok_def isEstablished_def km_synced_def stream_synced_def)
    with Some ends show ?thesis unfolding e using log004_wf [OF w] by simp
  qed
qed

lemma not_established_empty: "stream_ok ko km \<Longrightarrow> \<not> (ko \<noteq> None \<and> isEstablished ko km) \<Longrightarrow> km = []"
  by (auto simp: stream_ok_def isEstablished_def km_synced_def stream_synced_def)

end
