(* ===== verification/Lab_Props.thy ===== *)
theory Lab_Props
  imports Lab_Inv
begin

text \<open>
  The ticks and controls of the Protocol Lab simulator preserve its invariant; what a tick does in each
  accounting; the properties of the simulator.
\<close>

section \<open>What the relay leaves alone\<close>

lemma refill_loop_frame [simp]:
  "lab_status (snd (snd (refill_loop f p k s))) = lab_status s"
  "lab_timer (snd (snd (refill_loop f p k s))) = lab_timer s"
  "lab_lastAdvance (snd (snd (refill_loop f p k s))) = lab_lastAdvance s"
  "lab_lastTickStart (snd (snd (refill_loop f p k s))) = lab_lastTickStart s"
  "lab_preset (snd (snd (refill_loop f p k s))) = lab_preset s"
  "lab_scenario (snd (snd (refill_loop f p k s))) = lab_scenario s"
  "lab_accounting (snd (snd (refill_loop f p k s))) = lab_accounting s"
  "lab_tickS (snd (snd (refill_loop f p k s))) = lab_tickS s"
  "lab_tickN (snd (snd (refill_loop f p k s))) = lab_tickN s"
  "lab_downNodes (snd (snd (refill_loop f p k s))) = lab_downNodes s"
  "lab_credit (snd (snd (refill_loop f p k s))) = lab_credit s"
  "lab_from (snd (snd (refill_loop f p k s))) = lab_from s"
  "lab_to (snd (snd (refill_loop f p k s))) = lab_to s"
  "lab_keysPerS (snd (snd (refill_loop f p k s))) = lab_keysPerS s"
  "lab_demandCredit (snd (snd (refill_loop f p k s))) = lab_demandCredit s"
  "lab_delivered (snd (snd (refill_loop f p k s))) = lab_delivered s"
  "lab_unmet (snd (snd (refill_loop f p k s))) = lab_unmet s"
  "lab_ok (snd (snd (refill_loop f p k s))) = lab_ok s"
  "lab_failed (snd (snd (refill_loop f p k s))) = lab_failed s"
  "lab_service (snd (snd (refill_loop f p k s))) = lab_service s"
  "lab_ksid (snd (snd (refill_loop f p k s))) = lab_ksid s"
  "lab_lastStatus (snd (snd (refill_loop f p k s))) = lab_lastStatus s"
  "lab_messages (snd (snd (refill_loop f p k s))) = lab_messages s"
  "lab_history (snd (snd (refill_loop f p k s))) = lab_history s"
  "lab_pendingEvent (snd (snd (refill_loop f p k s))) = lab_pendingEvent s"
  "lab_paceMs (snd (snd (refill_loop f p k s))) = lab_paceMs s"
  "lab_lastTick (snd (snd (refill_loop f p k s))) = lab_lastTick s"
  "lab_traceSteps (snd (snd (refill_loop f p k s))) = lab_traceSteps s"
  "lab_traceRelay (snd (snd (refill_loop f p k s))) = lab_traceRelay s"
  "lab_seeds (snd (snd (refill_loop f p k s))) = lab_seeds s"
  "lab_ksids (snd (snd (refill_loop f p k s))) = lab_ksids s"
  by (induction f arbitrary: s) (simp_all add: Let_def case_prod_unfold split: option.splits)

lemma refillStream_frame [simp]:
  "lab_status (snd (snd (refillStream p s))) = lab_status s"
  "lab_timer (snd (snd (refillStream p s))) = lab_timer s"
  "lab_lastAdvance (snd (snd (refillStream p s))) = lab_lastAdvance s"
  "lab_lastTickStart (snd (snd (refillStream p s))) = lab_lastTickStart s"
  "lab_preset (snd (snd (refillStream p s))) = lab_preset s"
  "lab_scenario (snd (snd (refillStream p s))) = lab_scenario s"
  "lab_accounting (snd (snd (refillStream p s))) = lab_accounting s"
  "lab_tickS (snd (snd (refillStream p s))) = lab_tickS s"
  "lab_tickN (snd (snd (refillStream p s))) = lab_tickN s"
  "lab_downNodes (snd (snd (refillStream p s))) = lab_downNodes s"
  "lab_credit (snd (snd (refillStream p s))) = lab_credit s"
  "lab_from (snd (snd (refillStream p s))) = lab_from s" "lab_to (snd (snd (refillStream p s))) = lab_to s"
  "lab_keysPerS (snd (snd (refillStream p s))) = lab_keysPerS s"
  "lab_demandCredit (snd (snd (refillStream p s))) = lab_demandCredit s"
  "lab_delivered (snd (snd (refillStream p s))) = lab_delivered s"
  "lab_unmet (snd (snd (refillStream p s))) = lab_unmet s"
  "lab_ok (snd (snd (refillStream p s))) = lab_ok s"
  "lab_failed (snd (snd (refillStream p s))) = lab_failed s"
  "lab_service (snd (snd (refillStream p s))) = lab_service s"
  "lab_ksid (snd (snd (refillStream p s))) = lab_ksid s"
  "lab_lastStatus (snd (snd (refillStream p s))) = lab_lastStatus s"
  "lab_history (snd (snd (refillStream p s))) = lab_history s"
  "lab_pendingEvent (snd (snd (refillStream p s))) = lab_pendingEvent s"
  "lab_paceMs (snd (snd (refillStream p s))) = lab_paceMs s"
  "lab_lastTick (snd (snd (refillStream p s))) = lab_lastTick s"
  "lab_traceSteps (snd (snd (refillStream p s))) = lab_traceSteps s"
  "lab_traceRelay (snd (snd (refillStream p s))) = lab_traceRelay s"
  "lab_seeds (snd (snd (refillStream p s))) = lab_seeds s"
  "lab_ksids (snd (snd (refillStream p s))) = lab_ksids s"
  by (simp_all add: refillStream_def Let_def case_prod_unfold split: option.splits)

section \<open>The tick in the keys accounting\<close>

lemma trace_keys_wf [inv_intros]:
  "lab_wf s \<Longrightarrow> lab_wf (trace_generate k n s)" "lab_wf s \<Longrightarrow> lab_wf (trace_stream s)"
  "lab_wf s \<Longrightarrow> lab_wf (trace_relay_keys e m w s)" "lab_wf s \<Longrightarrow> lab_wf (trace_deliver_keys r s)"
  "lab_wf s \<Longrightarrow> lab_wf (trace_served x y s)"
  by (simp_all add: lab_wf_def)

lemma trace_steps:
  "map step_id (lab_traceSteps (traceStep i oc d s)) = map step_id (lab_traceSteps s) @ [i]"
  "map step_id (lab_traceSteps (traceRoute s)) = map step_id (lab_traceSteps s) @ [S_route]"
  "map step_id (lab_traceSteps (trace_generate k n s)) = map step_id (lab_traceSteps s) @ [S_generate]"
  "map step_id (lab_traceSteps (trace_stream s)) = map step_id (lab_traceSteps s) @ [S_stream]"
  "map step_id (lab_traceSteps (trace_relay_keys e m w s)) = map step_id (lab_traceSteps s) @ [S_relay]"
  "map step_id (lab_traceSteps (trace_deliver_keys r s)) = map step_id (lab_traceSteps s) @ [S_deliver]"
  "map step_id (lab_traceSteps (trace_served x y s)) = map step_id (lab_traceSteps s) @ [S_deliver]"
  by (simp_all add: traceStep_def traceRoute_def trace_generate_def trace_stream_def trace_relay_keys_def
      trace_deliver_keys_def trace_served_def traceRelayOver_def split: option.splits)

lemma generate_stage_spec:
  assumes "lab_wf s"
  shows "lab_wf (generate_stage s) \<and> (\<exists>made \<ge> 0. total_keys (lab_links (generate_stage s)) = total_keys (lab_links s) + made)
    \<and> map step_id (lab_traceSteps (generate_stage s)) = map step_id (lab_traceSteps s) @ [S_generate]"
proof -
  obtain keys n s1 where g: "generateKeys s = (keys, n, s1)" by (metis prod_cases3)
  have s1: "s1 = snd (snd (generateKeys s))" using g by simp
  have "0 \<le> keys \<and> total_keys (lab_links s1) = total_keys (lab_links s) + keys"
    using gen_links_ok [of "lab_links s" "lab_credit s" "lab_tickS s"] assms g
    by (auto simp: generateKeys_def lab_wf_def links_ok_def clock_ok_def split: prod.splits)
  moreover have "lab_wf (generate_stage s)"
    using generateKeys_wf [OF assms] g by (auto simp: generate_stage_def intro: trace_keys_wf)
  moreover have "map step_id (lab_traceSteps s1) = map step_id (lab_traceSteps s)" unfolding s1 by simp
  ultimately show ?thesis using g by (auto simp: generate_stage_def trace_steps)
qed

lemma stream_stage_spec:
  assumes "platform_ok p" "lab_wf s"
  shows "lab_wf (stream_stage p s) \<and> map step_id (lab_traceSteps (stream_stage p s)) = map step_id (lab_traceSteps s) @ [S_stream]"
proof -
  have "lab_wf (if is_established s then s else openStream p s)"
  proof (cases "is_established s")
    case False
    then have "lab_km s = []"
      using assms(2) not_established_empty [of "lab_ksid s" "lab_km s"] by (simp add: is_established_def lab_wf_def)
    with openStream_spec [OF assms] False show ?thesis by simp
  qed (simp add: assms(2))
  then show ?thesis by (simp add: stream_stage_def trace_steps trace_keys_wf)
qed

lemma relay_stage_spec:
  assumes "lab_wf s" "lab_accounting s = Acc_keys"
  shows "lab_wf (relay_stage p s) \<and> map step_id (lab_traceSteps (relay_stage p s)) = map step_id (lab_traceSteps s) @ [S_route, S_relay]
    \<and> (\<exists>hs. (\<forall>h \<in> set hs. 1 \<le> h) \<and> total_keys (lab_links s) = total_keys (lab_links (relay_stage p s)) + int (sum_list hs))"
proof -
  let ?s1 = "traceRoute (chooseRoute KEY_BITS s)"
  have w1: "lab_wf ?s1" by (intro trace_wf chooseRoute_wf assms(1))
  obtain m w s2 where r: "refillStream p ?s1 = (m, w, s2)" by (metis prod_cases3)
  have e: "relay_stage p s = trace_relay_keys (is_established s) m w s2" by (simp add: relay_stage_def r)
  have s2: "s2 = snd (snd (refillStream p ?s1))" using r by simp
  have t: "map step_id (lab_traceSteps s2) = map step_id (lab_traceSteps s) @ [S_route]" unfolding s2 by (simp add: trace_steps)
  from refillStream_spec [OF w1 _ r] assms(2) obtain hs where "lab_wf s2" "\<forall>h \<in> set hs. 1 \<le> h"
    "total_keys (lab_links s) = total_keys (lab_links s2) + int (sum_list hs)" by auto
  with t show ?thesis unfolding e by (auto simp: trace_steps intro: trace_keys_wf)
qed

lemma stages_frame [simp]:
  "lab_ok (generate_stage s) = lab_ok s" "lab_failed (generate_stage s) = lab_failed s"
  "lab_keysPerS (generate_stage s) = lab_keysPerS s" "lab_tickS (generate_stage s) = lab_tickS s"
  "lab_demandCredit (generate_stage s) = lab_demandCredit s" "lab_accounting (generate_stage s) = lab_accounting s"
  "lab_ok (stream_stage p s) = lab_ok s" "lab_failed (stream_stage p s) = lab_failed s"
  "lab_keysPerS (stream_stage p s) = lab_keysPerS s" "lab_tickS (stream_stage p s) = lab_tickS s"
  "lab_demandCredit (stream_stage p s) = lab_demandCredit s" "lab_accounting (stream_stage p s) = lab_accounting s"
  "lab_links (stream_stage p s) = lab_links s"
  "lab_ok (relay_stage p s) = lab_ok s" "lab_failed (relay_stage p s) = lab_failed s"
  "lab_keysPerS (relay_stage p s) = lab_keysPerS s" "lab_tickS (relay_stage p s) = lab_tickS s"
  "lab_demandCredit (relay_stage p s) = lab_demandCredit s" "lab_accounting (relay_stage p s) = lab_accounting s"
proof -
  obtain keys n s1 where g: "generateKeys s = (keys, n, s1)" by (metis prod_cases3)
  have s1: "s1 = snd (snd (generateKeys s))" using g by simp
  show "lab_ok (generate_stage s) = lab_ok s" "lab_failed (generate_stage s) = lab_failed s"
    "lab_keysPerS (generate_stage s) = lab_keysPerS s" "lab_tickS (generate_stage s) = lab_tickS s"
    "lab_demandCredit (generate_stage s) = lab_demandCredit s" "lab_accounting (generate_stage s) = lab_accounting s"
    by (simp_all add: generate_stage_def g) (simp_all add: s1)
  obtain m w s2 where r: "refillStream p (traceRoute (chooseRoute KEY_BITS s)) = (m, w, s2)" by (metis prod_cases3)
  have s2: "s2 = snd (snd (refillStream p (traceRoute (chooseRoute KEY_BITS s))))" using r by simp
  show "lab_ok (relay_stage p s) = lab_ok s" "lab_failed (relay_stage p s) = lab_failed s"
    "lab_keysPerS (relay_stage p s) = lab_keysPerS s" "lab_tickS (relay_stage p s) = lab_tickS s"
    "lab_demandCredit (relay_stage p s) = lab_demandCredit s" "lab_accounting (relay_stage p s) = lab_accounting s"
    by (simp_all add: relay_stage_def r) (simp_all add: s2)
qed (simp_all add: stream_stage_def)

text \<open>
  What a tick in the keys accounting serves and refuses: the requests due, as far as the stream holds
  keys for them. What generation adds and each relayed key costs.
\<close>

lemma advance_keys_spec:
  assumes p: "platform_ok p" and wf: "lab_wf s" and acc: "lab_accounting s = Acc_keys"
    and adv: "advance_keys p s = (d, u, s')"
  shows "lab_wf s' \<and> map step_id (lab_traceSteps s') = map step_id (lab_traceSteps s) @ tick_ids Acc_keys
    \<and> (\<exists>served. served \<le> due_requests s \<and> d = of_nat served * KEY_BITS \<and> u = of_nat (due_requests s - served) * KEY_BITS
        \<and> lab_ok s' = lab_ok s + of_nat served \<and> lab_failed s' = lab_failed s + of_nat (due_requests s - served))
    \<and> (\<exists>made hs. 0 \<le> made \<and> total_keys (lab_links s') = total_keys (lab_links s) + made - int (sum_list hs) \<and> (\<forall>h \<in> set hs. 1 \<le> h))"
proof -
  let ?s1 = "generate_stage s" let ?s2 = "stream_stage p ?s1" let ?s3 = "relay_stage p ?s2"
  obtain cr s4 where c: "consumeStream p ?s3 = (cr, s4)" by fastforce
  have e: "d = cs_delivered cr" "u = cs_unmet cr" "s' = trace_deliver_keys cr s4" and s4: "s4 = snd (consumeStream p ?s3)"
    using adv c by (simp_all add: advance_keys_def)
  note g = generate_stage_spec [OF wf]
  note st = stream_stage_spec [OF p, of ?s1]
  have w2: "lab_wf ?s2" using g st by blast
  have a2: "lab_accounting ?s2 = Acc_keys" using acc by simp
  note r = relay_stage_spec [OF w2 a2, of p]
  have w3: "lab_wf ?s3" using r by blast
  note cs = consumeStream_spec [OF w3 c]
  have due: "due_requests ?s3 = due_requests s" by (simp add: due_requests_def)
  have "lab_wf s'" unfolding e using cs by (intro trace_keys_wf) simp
  moreover have "map step_id (lab_traceSteps s') = map step_id (lab_traceSteps s) @ tick_ids Acc_keys"
    using g st r by (simp add: e trace_steps s4)
  moreover have "cs_served cr \<le> due_requests s \<and> d = of_nat (cs_served cr) * KEY_BITS \<and> u = of_nat (due_requests s - cs_served cr) * KEY_BITS
        \<and> lab_ok s' = lab_ok s + of_nat (cs_served cr) \<and> lab_failed s' = lab_failed s + of_nat (due_requests s - cs_served cr)"
    using cs due by (simp add: e)
  moreover have "\<exists>made hs. 0 \<le> made \<and> total_keys (lab_links s') = total_keys (lab_links s) + made - int (sum_list hs) \<and> (\<forall>h \<in> set hs. 1 \<le> h)"
  proof -
    from g obtain made where m: "0 \<le> made" "total_keys (lab_links ?s1) = total_keys (lab_links s) + made" by blast
    from r obtain hs where h: "\<forall>h \<in> set hs. 1 \<le> h" "total_keys (lab_links ?s2) = total_keys (lab_links ?s3) + int (sum_list hs)" by blast
    have "lab_links s' = lab_links ?s3" by (simp add: e s4)
    with m h show ?thesis by (intro exI [of _ made] exI [of _ hs]) simp
  qed
  ultimately show ?thesis by blast
qed

section \<open>The other accountings\<close>

lemma spend_bits_static:
  "(ls_id (spend_bits n l), down (spend_bits n l), ls_kind (spend_bits n l), notInRun (spend_bits n l))
   = (ls_id l, down l, ls_kind l, notInRun l)"
  by (simp add: spend_bits_def)

lemma spend_bits_ok:
  "link_ok l \<Longrightarrow> storedBits l = Some b \<Longrightarrow> thresholdBits l = Some th \<Longrightarrow> need \<le> b - th \<Longrightarrow> link_ok (spend_bits need l)"
  by (simp add: link_ok_def spend_bits_def stored_bits_def)

text \<open>Every store a chosen route draws from holds the need above its threshold.\<close>

lemma stores_route:
  assumes "distinct (map ls_id (lab_links s))" "lab_accounting s = Acc_stores" "lab_route (chooseRoute need s) = Some r"
    and "i \<in> set (linkIds r)" "find_link (lab_links s) i = Some l"
  shows "\<exists>b th. storedBits l = Some b \<and> thresholdBits l = Some th \<and> need \<le> b - th"
proof -
  from chosen_route [OF assms(1,3)] obtain p where p: "r = describeRoute p (lab_view s need)"
    "\<forall>i \<in> set (snd p). \<exists>l. find_link (lab_links s) i = Some l \<and> \<not> down l \<and> ls_kind l = Qkd \<and> \<not> notInRun l
       \<and> usable (view_of (lab_accounting s) (lab_tickS s) need l)" by metis
  then have "\<not> down l" "usable (view_of Acc_stores (lab_tickS s) need l)" using assms(2,4,5) by auto
  then show ?thesis by (auto simp: view_of_def no_view_def split: option.splits if_splits)
qed

lemma grow_static:
  "map (\<lambda>l. (ls_id l, down l, ls_kind l, notInRun l))
     (map (\<lambda>l. if P l then l\<lparr>storedBits := Some (stored_bits l + need)\<rparr> else l) ls)
   = map (\<lambda>l. (ls_id l, down l, ls_kind l, notInRun l)) ls"
  by (induction ls) simp_all

lemma grow_links_ok:
  assumes "links_ok ls" "0 \<le> need"
  shows "links_ok (map (\<lambda>l. if grows_now gen t l then l\<lparr>storedBits := Some (stored_bits l + need)\<rparr> else l) ls)"
proof -
  have "link_ok (l\<lparr>storedBits := Some (stored_bits l + need)\<rparr>)" if "link_ok l" "storedBits l \<noteq> None" for l
    using that assms(2) by (auto simp: link_ok_def stored_bits_def)
  moreover have "grows_now gen t l \<Longrightarrow> storedBits l \<noteq> None" for l
    by (auto simp: grows_now_def split: option.splits generation.splits)
  ultimately have "\<forall>l \<in> set (map (\<lambda>l. if grows_now gen t l then l\<lparr>storedBits := Some (stored_bits l + need)\<rparr> else l) ls). link_ok l"
    using assms(1) by (auto simp: links_ok_def)
  then show ?thesis
    using assms(1) static_ids [OF grow_static [of "grows_now gen t" need ls]] unfolding links_ok_def by (simp only:)
qed

lemma stores_select_spec:
  assumes wf: "lab_wf s" and need: "0 \<le> need"
  shows "lab_wf (stores_select need gen s)
    \<and> map step_id (lab_traceSteps (stores_select need gen s)) = map step_id (lab_traceSteps s) @ [S_generate, S_route]"
proof -
  have w1: "lab_wf (grow_stores need gen s)"
    using wf grow_links_ok [OF _ need, of "lab_links s" gen "sim_time s"]
      route_ok_static [OF grow_static [of "grows_now gen (sim_time s)" need "lab_links s"]]
    by (simp add: lab_wf_def grow_stores_def)
  have "lab_wf (trace_growing gr (grow_stores need gen s))" for gr
    unfolding trace_growing_def by (auto intro: trace_wf w1)
  then have "lab_wf (stores_select need gen s)" unfolding stores_select_def by (intro trace_wf chooseRoute_wf)
  then show ?thesis by (simp add: stores_select_def trace_growing_def grow_stores_def trace_steps)
qed

lemma stores_select_frame:
  "lab_ok (stores_select need gen s) = lab_ok s" "lab_failed (stores_select need gen s) = lab_failed s"
  "lab_accounting (stores_select need gen s) = lab_accounting s" "lab_tickS (stores_select need gen s) = lab_tickS s"
  "lab_history (stores_select need gen s) = lab_history s" "lab_delivered (stores_select need gen s) = lab_delivered s"
  "lab_unmet (stores_select need gen s) = lab_unmet s"
  by (simp_all add: stores_select_def trace_growing_def grow_stores_def)

lemma stores_select_route:
  assumes wf: "lab_wf s" and need: "0 \<le> need" and acc: "lab_accounting s = Acc_stores"
    and r: "lab_route (stores_select need gen s) = Some r"
    and i: "i \<in> set (linkIds r)" "find_link (lab_links (stores_select need gen s)) i = Some l"
  shows "\<exists>b th. storedBits l = Some b \<and> thresholdBits l = Some th \<and> need \<le> b - th"
proof -
  let ?t = "trace_growing (map ls_id (filter (grows_now gen (sim_time s)) (lab_links s))) (grow_stores need gen s)"
  have l: "lab_links ?t = map (\<lambda>l. if grows_now gen (sim_time s) l then l\<lparr>storedBits := Some (stored_bits l + need)\<rparr> else l) (lab_links s)"
    by (simp add: trace_growing_def grow_stores_def)
  have "distinct (map ls_id (lab_links ?t))"
    unfolding l static_ids [OF grow_static] using wf by (rule wf_distinct)
  moreover have "lab_accounting ?t = Acc_stores" using acc by (simp add: trace_growing_def grow_stores_def)
  moreover have "lab_route (chooseRoute need ?t) = Some r" using r by (simp add: stores_select_def)
  moreover have "find_link (lab_links ?t) i = Some l" using i(2) by (simp add: stores_select_def)
  ultimately show ?thesis using stores_route i(1) by blast
qed

lemma stores_deliver_spec:
  assumes wf: "lab_wf s" and r: "lab_route s = Some r"
    and room: "\<And>i l. i \<in> set (linkIds r) \<Longrightarrow> find_link (lab_links s) i = Some l
      \<Longrightarrow> \<exists>b th. storedBits l = Some b \<and> thresholdBits l = Some th \<and> need \<le> b - th"
  shows "lab_wf (stores_deliver p need r s)"
    "map step_id (lab_traceSteps (stores_deliver p need r s)) = map step_id (lab_traceSteps s) @ [S_relay, S_deliver]"
    "lab_route (stores_deliver p need r s) = Some r" "lab_ok (stores_deliver p need r s) = lab_ok s"
    "lab_failed (stores_deliver p need r s) = lab_failed s"
proof -
  let ?ls = "spend_on (spend_bits need) (linkIds r) (lab_links s)"
  have "links_ok ?ls"
  proof (rule spend_links_ok [OF _ _ spend_bits_static])
    show "links_ok (lab_links s)" "distinct (linkIds r)" using wf r by (simp_all add: lab_wf_def route_ok_def)
    fix i l assume i: "i \<in> set (linkIds r)" "find_link (lab_links s) i = Some l" and ok: "link_ok l"
    from room [OF i] ok show "link_ok (spend_bits need l)" using spend_bits_ok by blast
  qed
  moreover have "route_ok ?ls dn rt \<longleftrightarrow> route_ok (lab_links s) dn rt" for dn rt
    by (rule route_ok_static [OF spend_static [OF spend_bits_static]])
  ultimately have "lab_wf (s\<lparr>lab_links := ?ls\<rparr>)" using wf by (simp add: lab_wf_def)
  then show "lab_wf (stores_deliver p need r s)"
    unfolding stores_deliver_def Let_def by (intro trace_wf lab_log_wf relaySample_wf)
  show "map step_id (lab_traceSteps (stores_deliver p need r s)) = map step_id (lab_traceSteps s) @ [S_relay, S_deliver]"
    "lab_route (stores_deliver p need r s) = Some r" "lab_ok (stores_deliver p need r s) = lab_ok s"
    "lab_failed (stores_deliver p need r s) = lab_failed s"
    using r by (simp_all add: stores_deliver_def Let_def trace_steps)
qed

lemma stores_refuse_spec:
  assumes "lab_wf s"
  shows "lab_wf (stores_refuse need s)"
    "map step_id (lab_traceSteps (stores_refuse need s)) = map step_id (lab_traceSteps s) @ [S_relay, S_deliver]"
    "lab_route (stores_refuse need s) = lab_route s" "lab_ok (stores_refuse need s) = lab_ok s"
    "lab_failed (stores_refuse need s) = lab_failed s"
  unfolding stores_refuse_def by (intro trace_wf lab_log_wf assms) (simp_all add: trace_steps)

lemma advance_stores_spec:
  assumes wf: "lab_wf s" and acc: "lab_accounting s = Acc_stores" and rate: "0 \<le> rate"
    and adv: "advance_stores p rate gen s = (d, u, s')"
  shows "lab_wf s' \<and> map step_id (lab_traceSteps s') = map step_id (lab_traceSteps s) @ tick_ids Acc_stores
    \<and> d + u = rate * lab_tickS s \<and> (if lab_route s' = None then d = 0 else u = 0)
    \<and> lab_ok s' = lab_ok s \<and> lab_failed s' = lab_failed s"
proof -
  let ?need = "rate * lab_tickS s"
  have need: "0 \<le> ?need" using wf rate by (simp add: lab_wf_def clock_ok_def)
  note sel = stores_select_spec [OF wf need, of gen]
  show ?thesis
  proof (cases "lab_route (stores_select ?need gen s)")
    case None
    then have "advance_stores p rate gen s = (0, ?need, stores_refuse ?need (stores_select ?need gen s))"
      by (simp add: advance_stores_def Let_def)
    with adv have e: "d = 0" "u = ?need" "s' = stores_refuse ?need (stores_select ?need gen s)" by auto
    show ?thesis
      unfolding e using None sel stores_refuse_spec [of "stores_select ?need gen s" ?need] by (simp add: stores_select_frame)
  next
    case (Some r)
    then have "advance_stores p rate gen s = (?need, 0, stores_deliver p ?need r (stores_select ?need gen s))"
      by (simp add: advance_stores_def Let_def)
    with adv have e: "d = ?need" "u = 0" "s' = stores_deliver p ?need r (stores_select ?need gen s)" by auto
    have room: "\<And>i l. i \<in> set (linkIds r) \<Longrightarrow> find_link (lab_links (stores_select ?need gen s)) i = Some l
      \<Longrightarrow> \<exists>b th. storedBits l = Some b \<and> thresholdBits l = Some th \<and> ?need \<le> b - th"
      by (rule stores_select_route [OF wf need acc Some])
    have w: "lab_wf (stores_select ?need gen s)" using sel by simp
    show ?thesis
      unfolding e using sel stores_deliver_spec [OF w Some room, where p = p] by (simp add: stores_select_frame)
  qed
qed

lemma serve_due_ok:
  assumes "service_ok (Some svc)" "0 \<le> whole" "serve_due whole svc = (served, svc')"
  shows "service_ok (Some svc') \<and> 0 \<le> served \<and> served \<le> whole \<and> sv_stored svc' = sv_stored svc - served
    \<and> sv_refillTo svc' = sv_refillTo svc \<and> sv_refillAt svc' = sv_refillAt svc \<and> sv_capacity svc' = sv_capacity svc"
  using assms by (auto simp: serve_due_def service_ok_def Let_def)

lemma source_ok_service: "source_ok pr sc acc (Some a) \<Longrightarrow> source_ok pr sc acc (Some b)"
  by (auto simp: source_ok_def split: option.splits)

lemma refill_service_spec:
  assumes wf: "lab_wf s" and svc: "lab_service s = Some svc"
  shows "lab_wf (refill_service p svc s)
    \<and> map step_id (lab_traceSteps (refill_service p svc s)) = map step_id (lab_traceSteps s) @ [S_route, S_relay]
    \<and> lab_ok (refill_service p svc s) = lab_ok s \<and> lab_failed (refill_service p svc s) = lab_failed s
    \<and> (\<exists>svc'. lab_service (refill_service p svc s) = Some svc'
        \<and> sv_stored svc' = (if sv_stored svc \<le> sv_refillAt svc \<and> lab_route (refill_service p svc s) \<noteq> None
             then sv_refillTo svc else sv_stored svc))"
proof (cases "sv_stored svc \<le> sv_refillAt svc")
  case False
  have "lab_wf (refill_service p svc s)"
    using False unfolding refill_service_def by (simp add: trace_wf chooseRoute_wf wf)
  with False svc show ?thesis by (simp add: refill_service_def trace_steps)
next
  case True
  let ?keys = "sv_refillTo svc - sv_stored svc"
  let ?s1 = "traceRoute (chooseRoute (?keys * KEY_BITS) s)"
  have w1: "lab_wf ?s1" by (intro trace_wf chooseRoute_wf wf)
  have sv: "service_ok (Some svc)" using wf svc by (simp add: lab_wf_def)
  have upd: "lab_wf (?s1\<lparr>lab_service := Some x\<rparr>)" if "service_ok (Some x)" for x
    using w1 that svc by (auto simp: lab_wf_def intro: source_ok_service)
  show ?thesis
  proof (cases "lab_route ?s1")
    case None
    have "lab_wf (service_refill_failed svc ?keys ?s1)"
      unfolding service_refill_failed_def Let_def using sv by (intro trace_wf lab_log_wf upd) (simp add: service_ok_def)
    moreover have e: "refill_service p svc s = service_refill_failed svc ?keys ?s1"
      using True None by (simp add: refill_service_def Let_def)
    ultimately show ?thesis unfolding e using None by (simp add: service_refill_failed_def Let_def trace_steps)
  next
    case (Some r)
    have "lab_wf (service_refilled p svc ?keys r ?s1)"
      unfolding service_refilled_def Let_def using sv by (intro trace_wf lab_log_wf relaySample_wf upd) (simp add: service_ok_def)
    moreover have e: "refill_service p svc s = service_refilled p svc ?keys r ?s1"
      using True Some by (simp add: refill_service_def Let_def)
    ultimately show ?thesis unfolding e using Some True by (simp add: service_refilled_def Let_def trace_steps)
  qed
qed

text \<open>The keys due in a tick of the service accounting.\<close>

definition due_keys :: "rat \<Rightarrow> lab \<Rightarrow> int" where
  "due_keys rate s = \<lfloor>lab_demandCredit s + rate * lab_tickS s\<rfloor>"

lemma advance_service_spec:
  assumes wf: "lab_wf s" and svc: "lab_service s = Some svc" and rate: "0 \<le> rate"
    and adv: "advance_service p rate svc s = (d, u, s')"
  shows "lab_wf s' \<and> map step_id (lab_traceSteps s') = map step_id (lab_traceSteps s) @ tick_ids Acc_service_buffer
    \<and> (\<exists>served. served = min (of_int (due_keys rate s)) (sv_stored svc) \<and> d = served * KEY_BITS
        \<and> d + u = of_int (due_keys rate s) * KEY_BITS
        \<and> lab_ok s' = lab_ok s + served \<and> lab_failed s' = lab_failed s + (of_int (due_keys rate s) - served)
        \<and> (\<exists>svc'. lab_service s' = Some svc' \<and> sv_stored svc' =
             (if sv_stored svc - served \<le> sv_refillAt svc \<and> lab_route s' \<noteq> None then sv_refillTo svc else sv_stored svc - served)))"
proof -
  define credit where "credit = lab_demandCredit s + rate * lab_tickS s"
  define whole where "whole = (of_int \<lfloor>credit\<rfloor> :: rat)"
  obtain served svc1 where sd: "serve_due whole svc = (served, svc1)" by fastforce
  define s1 where "s1 = s\<lparr>lab_demandCredit := credit - whole, lab_service := Some svc1,
                 lab_ok := lab_ok s + served, lab_failed := lab_failed s + (whole - served)\<rparr>"
  define s2 where "s2 = trace_served whole served s1"
  have c0: "0 \<le> whole" using wf rate by (simp add: lab_wf_def clock_ok_def whole_def credit_def)
  have sv: "service_ok (Some svc)" using wf svc by (simp add: lab_wf_def)
  note so = serve_due_ok [OF sv c0 sd]
  have w1: "lab_wf s1"
    using wf svc so frac_clock [of "lab_demandCredit s" "lab_tickS s" "lab_keysPerS s" credit]
    by (auto simp: lab_wf_def s1_def whole_def intro: source_ok_service)
  have w2: "lab_wf s2" unfolding s2_def by (rule trace_keys_wf [OF w1])
  have f2: "lab_service s2 = Some svc1" "lab_ok s2 = lab_ok s + served" "lab_failed s2 = lab_failed s + (whole - served)"
    "map step_id (lab_traceSteps s2) = map step_id (lab_traceSteps s) @ [S_deliver]"
    by (simp_all add: s2_def s1_def trace_steps)
  have e: "d = served * KEY_BITS" "u = (whole - served) * KEY_BITS" "s' = refill_service p svc1 s2"
    using adv unfolding advance_service_def Let_def credit_def [symmetric] whole_def [symmetric]
    by (simp_all add: sd s2_def s1_def)
  have served: "served = min whole (sv_stored svc)" using sd by (simp add: serve_due_def Let_def)
  have whole: "of_int (due_keys rate s) = whole" by (simp add: due_keys_def whole_def credit_def)
  from refill_service_spec [OF w2 f2(1), of p] obtain svc' where r: "lab_wf s'"
    "map step_id (lab_traceSteps s') = map step_id (lab_traceSteps s2) @ [S_route, S_relay]"
    "lab_ok s' = lab_ok s2" "lab_failed s' = lab_failed s2" "lab_service s' = Some svc'"
    "sv_stored svc' = (if sv_stored svc1 \<le> sv_refillAt svc1 \<and> lab_route s' \<noteq> None then sv_refillTo svc1 else sv_stored svc1)"
    unfolding e by blast
  have du: "d + u = whole * KEY_BITS" unfolding e by (simp add: algebra_simps)
  show ?thesis
    unfolding whole
  proof (intro conjI exI)
    show "lab_wf s'" by (rule r(1))
    show "map step_id (lab_traceSteps s') = map step_id (lab_traceSteps s) @ tick_ids Acc_service_buffer"
      using r(2) f2(4) by simp
    show "served = min whole (sv_stored svc)" by (rule served)
    show "d = served * KEY_BITS" by (rule e(1))
    show "d + u = whole * KEY_BITS" by (rule du)
    show "lab_ok s' = lab_ok s + served" using r(3) f2(2) by simp
    show "lab_failed s' = lab_failed s + (whole - served)" using r(4) f2(3) by simp
    show "lab_service s' = Some svc'" by (rule r(5))
    show "sv_stored svc' = (if sv_stored svc - served \<le> sv_refillAt svc \<and> lab_route s' \<noteq> None
        then sv_refillTo svc else sv_stored svc - served)"
      using r(6) so by auto
  qed
qed

section \<open>The whole tick\<close>

lemma begin_tick_wf: "lab_wf s \<Longrightarrow> lab_wf (begin_tick now s)"
  by (simp add: lab_wf_def begin_tick_def)

lemma finish_tick_wf: "lab_wf s \<Longrightarrow> lab_wf (finish_tick now dw ev d u s)"
  by (auto simp: lab_wf_def finish_tick_def Let_def logs_ok_def length_push_shift_le loop_ok_def)

lemma scenario_numbers:
  "list_all (\<lambda>sc. 0 \<le> s_tick_seconds sc \<and> 0 \<le> qval (s_rate sc) \<and> (case s_kind sc of
      Stores th st gen \<Rightarrow> list_all (\<lambda>(i, q). qval th \<le> qval q) st
    | Service_buffer c ra rt note \<Rightarrow> 0 \<le> qval rt \<and> qval rt \<le> qval c
    | Route_only \<Rightarrow> True)) SCENARIOS"
  by (simp add: SCENARIOS_def cambridgeReroute_def secoqcReroute_def tokyoReroute_def qval_def quantityValue_def
      js_Number_def plain_decimal_def is_digit_def digits_value_def qty_def MIB_BITS_def Let_def)

lemma scenario_rate: "sc \<in> set SCENARIOS \<Longrightarrow> 0 \<le> qval (s_rate sc) \<and> 0 \<le> s_tick_seconds sc"
  using scenario_numbers by (auto simp: list_all_iff)

lemma refill_service_acc [simp]: "lab_accounting (refill_service p svc s) = lab_accounting s"
  by (simp add: refill_service_def service_refilled_def service_refill_failed_def Let_def split: option.splits)

lemma advance_mode_spec:
  assumes p: "platform_ok p" and wf: "lab_wf s" and m: "advance_mode p s = (d, u, s')"
  shows "lab_wf s' \<and> map step_id (lab_traceSteps s') = map step_id (lab_traceSteps s) @ tick_ids (lab_accounting s)"
proof -
  have src: "source_ok (lab_preset s) (lab_scenario s) (lab_accounting s) (lab_service s)" using wf by (simp add: lab_wf_def)
  show ?thesis
  proof (cases "lab_accounting s")
    case Acc_keys
    with m have "advance_keys p s = (d, u, s')" by (simp add: advance_mode_def)
    with advance_keys_spec [OF p wf Acc_keys] Acc_keys show ?thesis by metis
  next
    case Acc_stores
    with src obtain sc where sc: "lab_scenario s = Some sc" "sc \<in> set SCENARIOS"
      by (auto simp: source_ok_def split: option.splits)
    from m Acc_stores sc(1) obtain gen where "advance_stores p (qval (s_rate sc)) gen s = (d, u, s')"
      by (auto simp: advance_mode_def split: scenario_kind.splits)
    with advance_stores_spec [OF wf Acc_stores] scenario_rate [OF sc(2)] Acc_stores show ?thesis by metis
  next
    case Acc_service_buffer
    with src obtain sc svc where sc: "lab_scenario s = Some sc" "sc \<in> set SCENARIOS" "lab_service s = Some svc"
      by (auto simp: source_ok_def split: option.splits)
    with m Acc_service_buffer have "advance_service p (qval (s_rate sc)) svc s = (d, u, s')" by (simp add: advance_mode_def)
    with advance_service_spec [OF wf sc(3)] scenario_rate [OF sc(2)] Acc_service_buffer show ?thesis by metis
  next
    case Acc_route_only
    with m have e: "s' = traceRoute (chooseRoute KEY_BITS s)"
      by (auto simp: advance_mode_def split: option.splits)
    have "lab_wf s'" unfolding e by (intro trace_wf chooseRoute_wf wf)
    with e Acc_route_only show ?thesis by (simp add: trace_steps)
  qed
qed

lemma advance_wf: "platform_ok p \<Longrightarrow> lab_wf s \<Longrightarrow> lab_wf (advance p now s)"
proof -
  assume p: "platform_ok p" and wf: "lab_wf s"
  obtain d u s1 where m: "advance_mode p (begin_tick now s) = (d, u, s1)" by (metis prod_cases3)
  from advance_mode_spec [OF p begin_tick_wf [OF wf] m] have "lab_wf s1" by simp
  then show ?thesis by (simp add: advance_def Let_def m finish_tick_wf)
qed

section \<open>Loading and the controls\<close>

lemma qval_nonneg: "quantity_ok q \<Longrightarrow> 0 \<le> qval q"
  by (simp add: quantity_ok_def qval_def split: option.splits)

lemma init_link_ok:
  assumes "pr \<in> set PRESETS" "l \<in> set (p_links pr)" "case sc of None \<Rightarrow> True | Some x \<Rightarrow> x \<in> set SCENARIOS"
  shows "link_ok (init_link acc sc l)"
proof -
  have "preset_wf pr" using published_tables_wf assms(1) by (simp add: list_all_iff)
  then have "list_all quantity_ok (link_quantities l)" using assms(2) by (simp add: preset_wf_def list_all_iff)
  then have "l_rate l = Some q \<Longrightarrow> quantity_ok q" for q
    by (auto simp: link_quantities_def list_all_iff)
  then have g: "map_option qval (l_rate l) = Some g \<Longrightarrow> 0 \<le> g" for g using qval_nonneg by auto
  have st: "qval th \<le> qval q" if "sc = Some x" "s_kind x = Stores th st gen" "map_of st i = Some q" for x th st gen i q
  proof -
    have "x \<in> set SCENARIOS" using assms(3) that(1) by simp
    with scenario_numbers have "case s_kind x of
        Stores th st gen \<Rightarrow> list_all (\<lambda>(i, q). qval th \<le> qval q) st
      | Service_buffer c ra rt note \<Rightarrow> 0 \<le> qval rt \<and> qval rt \<le> qval c | Route_only \<Rightarrow> True"
      unfolding list_all_iff by blast
    then have "list_all (\<lambda>(i, q). qval th \<le> qval q) st" by (simp add: that(2))
    with map_of_SomeD [OF that(3)] show ?thesis by (auto simp: list_all_iff)
  qed
  show ?thesis
    using g st unfolding link_ok_def init_link_def Let_def
    by (auto simp: LOW_WM_def split: option.splits scenario_kind.splits)
qed

lemma init_link_id [simp]: "ls_id (init_link acc sc l) = l_id l"
  by (simp add: init_link_def Let_def split: option.splits scenario_kind.splits)

lemma init_service_ok:
  "(case sc of None \<Rightarrow> True | Some x \<Rightarrow> x \<in> set SCENARIOS) \<Longrightarrow> service_ok (init_service sc)"
  using scenario_numbers by (auto simp: init_service_def service_ok_def list_all_iff split: option.splits scenario_kind.splits)

lemma loaded_wf:
  assumes pr: "pr \<in> set PRESETS" and sc: "case sc of None \<Rightarrow> True | Some x \<Rightarrow> x \<in> set SCENARIOS \<and> s_presetId x = p_id pr"
    and fd: "case fd of None \<Rightarrow> True | Some f \<Rightarrow> case fd_keysPerS f of None \<Rightarrow> True | Some v \<Rightarrow> 0 \<le> v"
    and s: "case lab_keysPerS s of None \<Rightarrow> True | Some v \<Rightarrow> 0 \<le> v" "loop_ok (lab_timer s) (lab_status s)"
  shows "lab_wf (loaded pr sc fd s)"
proof -
  have sc': "case sc of None \<Rightarrow> True | Some x \<Rightarrow> x \<in> set SCENARIOS" using sc by (simp split: option.splits)
  have "preset_wf pr" using published_tables_wf pr by (simp add: list_all_iff)
  then have d: "distinct (map l_id (p_links pr))" by (simp add: preset_wf_def)
  have links: "links_ok (map (init_link acc sc) (p_links pr))" for acc
    using d init_link_ok [OF pr _ sc'] by (auto simp: links_ok_def comp_def)
  have tick: "0 \<le> (case sc of Some x \<Rightarrow> s_tick_seconds x | None \<Rightarrow> FREE_PLAY_TICK_S)"
    using sc scenario_rate by (auto simp: FREE_PLAY_TICK_S_def split: option.splits)
  have cl: "lab_keysPerS (s\<lparr>lab_lastRelay := None, lab_km := km_clear (lab_km s)\<rparr>) = lab_keysPerS s" by simp
  have perS: "case (case fd of Some f \<Rightarrow> fd_keysPerS f | None \<Rightarrow> lab_keysPerS s) of None \<Rightarrow> True | Some v \<Rightarrow> 0 \<le> v"
    using fd s(1) by (simp split: option.splits)
  have src: "source_ok pr sc (case sc of Some x \<Rightarrow> scenario_accounting x
      | None \<Rightarrow> (case p_freePlay pr of FP_keys \<Rightarrow> Acc_keys | FP_route_only \<Rightarrow> Acc_route_only)) (init_service sc)"
    using pr sc by (auto simp: source_ok_def init_service_def scenario_accounting_def split: option.splits scenario_kind.splits free_play.splits)
  show ?thesis
    using links init_service_ok [OF sc'] tick perS src s(2)
    by (simp add: loaded_def Let_def lab_wf_def clearKeyMaterial_def route_ok_def stream_ok_def logs_ok_def clock_ok_def
        credit_ok_def credit_of_def cl cong: option.case_cong)
qed

lemma load_wf:
  assumes p: "platform_ok p" and l: "load p pid sid fd s = Some s'"
    and fd: "case fd of None \<Rightarrow> True | Some f \<Rightarrow> case fd_keysPerS f of None \<Rightarrow> True | Some v \<Rightarrow> 0 \<le> v"
    and s: "case lab_keysPerS s of None \<Rightarrow> True | Some v \<Rightarrow> 0 \<le> v" "loop_ok (lab_timer s) (lab_status s)"
  shows "lab_wf s'"
proof -
  obtain pr where e1: "presetById pid = Some pr" using l by (cases "presetById pid") (simp_all add: load_def)
  with l obtain sc where e2: "scenario_to_load sid pid = Some sc" "after_load p (loaded pr sc fd s) = s'"
    by (cases "scenario_to_load sid pid") (simp_all add: load_def)
  note e = e1 e2(1) e2(2) [symmetric]
  have pr: "pr \<in> set PRESETS" "p_id pr = pid" using find_SomeD [OF e1 [unfolded presetById_def]] by simp_all
  have sc: "case sc of None \<Rightarrow> True | Some x \<Rightarrow> x \<in> set SCENARIOS \<and> s_presetId x = p_id pr"
  proof (cases sc)
    case (Some x)
    with e(2) obtain i where i: "scenarioById i = Some x" "s_presetId x = pid"
      by (auto simp: scenario_to_load_def split: option.splits if_splits)
    from find_SomeD [OF i(1) [unfolded scenarioById_def]] i(2) pr(2) Some show ?thesis by simp
  qed simp
  have w: "lab_wf (chooseRoute KEY_BITS (loaded pr sc fd s))"
    by (intro chooseRoute_wf loaded_wf pr(1) sc fd s)
  have km: "lab_km (chooseRoute KEY_BITS (loaded pr sc fd s)) = []" by (simp add: loaded_def Let_def)
  show ?thesis
    unfolding e(3) after_load_def Let_def using w openStream_spec [OF p w km] by simp
qed

end
