(* ===== verification/Lab_Reach.thy ===== *)
theory Lab_Reach
  imports Lab_Props
begin

text \<open>
  Runs of the Protocol Lab simulator: the controls of the page as inputs, the states a run reaches,
  and what holds in every one of them.
\<close>

section \<open>Inputs\<close>

datatype lab_input =
    Do_start rat | Do_pause | Do_resume rat | Do_step int | Do_reset | Do_dispose | Do_setPace int
  | Do_loadPreset string "string option" | Do_setDemand string string "rat option"
  | Do_inject failure_target | Do_clear "failure_target option" | Do_random rat | Do_timer rat int

text \<open>The callback of a cleared interval is not called.\<close>

fun lab_do :: "platform \<Rightarrow> lab_input \<Rightarrow> lab \<Rightarrow> lab option" where
  "lab_do p (Do_start t) s = Some (lab_start t s)"
| "lab_do p Do_pause s = Some (lab_pause s)"
| "lab_do p (Do_resume t) s = Some (lab_resume t s)"
| "lab_do p (Do_step now) s = Some (lab_step p now s)"
| "lab_do p Do_reset s = lab_reset p s"
| "lab_do p Do_dispose s = Some (lab_dispose s)"
| "lab_do p (Do_setPace ms) s = Some (setPace ms s)"
| "lab_do p (Do_loadPreset pid sid) s = loadPreset p pid sid s"
| "lab_do p (Do_setDemand a b v) s = setDemand p a b v s"
| "lab_do p (Do_inject t) s = Some (injectFailure t s)"
| "lab_do p (Do_clear t) s = Some (clearFailure t s)"
| "lab_do p (Do_random rnd) s = Some (snd (injectRandomFailure rnd s))"
| "lab_do p (Do_timer t now) s = Some (if lab_timer s then onTimer p t now s else s)"

inductive lab_reach :: "platform \<Rightarrow> lab \<Rightarrow> bool" for p where
  reach_new: "lab_new p sd presetId pace = Some s \<Longrightarrow> lab_reach p s"
| reach_do: "lab_reach p s \<Longrightarrow> lab_do p i s = Some s' \<Longrightarrow> lab_reach p s'"

section \<open>What a tick leaves of the links\<close>

definition link_core :: "link_state \<Rightarrow> string \<times> string \<times> string \<times> link_kind \<times> bool \<times> down_reason option \<times> bool" where
  "link_core l = (ls_id l, ls_a l, ls_b l, ls_kind l, down l, downReason l, notInRun l)"

lemma spend_core [simp]:
  "link_core (spend_key l) = link_core l" "link_core (spend_bits n l) = link_core l"
  by (simp_all add: spend_key_def spend_bits_def link_core_def)

lemma update_core: "(\<And>l. link_core (f l) = link_core l) \<Longrightarrow> map link_core (update_first i f ls) = map link_core ls"
  by (induction ls) auto

lemma spend_on_core: "(\<And>l. link_core (f l) = link_core l) \<Longrightarrow> map link_core (spend_on f ids ls) = map link_core ls"
  by (induction ids arbitrary: ls) (simp_all add: spend_on_def update_core)

lemma gen_link_core: "link_core (fst (snd (gen_link t cr l))) = link_core l"
  by (simp add: gen_link_def Let_def link_core_def split: option.splits)

lemma gen_links_core: "map link_core (fst (snd (gen_links t cr ls))) = map link_core ls"
  by (induction ls arbitrary: cr) (simp_all add: case_prod_unfold Let_def gen_link_core)

lemma generate_core: "map link_core (lab_links (generate_stage s)) = map link_core (lab_links s)"
proof -
  obtain cr ls keys n where g: "gen_links (lab_tickS s) (lab_credit s) (lab_links s) = (cr, ls, keys, n)"
    by (metis prod_cases4)
  then have "map link_core ls = map link_core (lab_links s)"
    using gen_links_core [of "lab_tickS s" "lab_credit s" "lab_links s"] by simp
  then show ?thesis by (simp add: generate_stage_def generateKeys_def g)
qed

lemma refill_loop_core: "map link_core (lab_links (snd (snd (refill_loop f p k s)))) = map link_core (lab_links s)"
proof (induction f arbitrary: s)
  case (Suc f)
  have "map link_core (lab_links (relay_one p k r s)) = map link_core (lab_links s)" for r s
    by (simp add: relay_one_links spend_on_core)
  with Suc show ?case by (auto simp: Let_def case_prod_unfold split: option.splits)
qed simp

lemma refillStream_core: "map link_core (lab_links (snd (snd (refillStream p s)))) = map link_core (lab_links s)"
proof -
  have l: "lab_links (log_refill n w s) = lab_links s" for n w s by (simp add: log_refill_def split: option.splits)
  show ?thesis by (auto simp: refillStream_def case_prod_unfold Let_def l refill_loop_core split: option.splits)
qed

lemma stream_stage_core: "lab_links (stream_stage p s) = lab_links s"
  by (simp add: stream_stage_def)

lemma relay_stage_core: "map link_core (lab_links (relay_stage p s)) = map link_core (lab_links s)"
  by (simp add: relay_stage_def Let_def case_prod_unfold refillStream_core)

lemma advance_keys_core: "map link_core (lab_links (snd (snd (advance_keys p s)))) = map link_core (lab_links s)"
  by (simp add: advance_keys_def case_prod_unfold Let_def relay_stage_core stream_stage_core generate_core)

lemma grow_core: "map link_core (lab_links (grow_stores need gen s)) = map link_core (lab_links s)"
  by (simp add: grow_stores_def link_core_def)

lemma advance_stores_core: "map link_core (lab_links (snd (snd (advance_stores p rate gen s)))) = map link_core (lab_links s)"
proof -
  have "map link_core (lab_links (stores_select need gen s)) = map link_core (lab_links s)" for need
    using grow_core by (simp add: stores_select_def trace_growing_def)
  then show ?thesis
    by (simp add: advance_stores_def Let_def stores_deliver_def stores_refuse_def spend_on_core split: option.splits)
qed

lemma refill_service_core: "lab_links (refill_service p svc s) = lab_links s"
  by (simp add: refill_service_def service_refilled_def service_refill_failed_def Let_def split: option.splits)

lemma advance_service_core: "lab_links (snd (snd (advance_service p rate svc s))) = lab_links s"
  by (simp add: advance_service_def Let_def case_prod_unfold refill_service_core)

lemma advance_mode_core: "map link_core (lab_links (snd (snd (advance_mode p s)))) = map link_core (lab_links s)"
  by (simp add: advance_mode_def advance_keys_core advance_stores_core advance_service_core
      split: accounting.splits option.splits)

lemma finish_tick_frame [simp]:
  "lab_links (finish_tick now dw ev d u s) = lab_links s" "lab_downNodes (finish_tick now dw ev d u s) = lab_downNodes s"
  "lab_accounting (finish_tick now dw ev d u s) = lab_accounting s" "lab_ok (finish_tick now dw ev d u s) = lab_ok s"
  "lab_failed (finish_tick now dw ev d u s) = lab_failed s" "lab_preset (finish_tick now dw ev d u s) = lab_preset s"
  "lab_scenario (finish_tick now dw ev d u s) = lab_scenario s" "lab_tickN (finish_tick now dw ev d u s) = lab_tickN s"
  "lab_delivered (finish_tick now dw ev d u s) = lab_delivered s + d"
  "lab_unmet (finish_tick now dw ev d u s) = lab_unmet s + u" "lab_km (finish_tick now dw ev d u s) = lab_km s"
  "lab_ksid (finish_tick now dw ev d u s) = lab_ksid s" "lab_route (finish_tick now dw ev d u s) = lab_route s"
  "lab_service (finish_tick now dw ev d u s) = lab_service s"
  by (simp_all add: finish_tick_def Let_def)

lemma begin_tick_frame [simp]:
  "lab_links (begin_tick now s) = lab_links s" "lab_downNodes (begin_tick now s) = lab_downNodes s"
  "lab_accounting (begin_tick now s) = lab_accounting s" "lab_ok (begin_tick now s) = lab_ok s"
  "lab_failed (begin_tick now s) = lab_failed s" "lab_preset (begin_tick now s) = lab_preset s"
  "lab_scenario (begin_tick now s) = lab_scenario s" "lab_tickN (begin_tick now s) = Suc (lab_tickN s)"
  "lab_delivered (begin_tick now s) = lab_delivered s" "lab_unmet (begin_tick now s) = lab_unmet s"
  "lab_traceSteps (begin_tick now s) = []" "lab_service (begin_tick now s) = lab_service s"
  by (simp_all add: begin_tick_def)

lemma advance_core: "map link_core (lab_links (advance p now s)) = map link_core (lab_links s)"
proof -
  obtain d u s1 where m: "advance_mode p (begin_tick now s) = (d, u, s1)" by (metis prod_cases3)
  with advance_mode_core [of p "begin_tick now s"] show ?thesis by (simp add: advance_def Let_def)
qed

section \<open>Failures\<close>

text \<open>
  A link is down exactly when it has a reason, a link at a down node is down, and a link is down because
  of a node only while one of its ends is down.
\<close>

definition failure_ok :: "string list \<Rightarrow> link_state \<Rightarrow> bool" where
  "failure_ok dn l \<longleftrightarrow> (down l \<longleftrightarrow> downReason l \<noteq> None) \<and> (end_down dn l \<longrightarrow> down l)
     \<and> (downReason l = Some D_node_down \<longrightarrow> end_down dn l)"

definition failures_ok :: "lab \<Rightarrow> bool" where
  "failures_ok s \<longleftrightarrow> list_all (failure_ok (lab_downNodes s)) (lab_links s)"

lemma failure_ok_core: "failure_ok dn = (\<lambda>(i, a, b, k, d, r, n). (d \<longleftrightarrow> r \<noteq> None)
    \<and> (a \<in> set dn \<or> b \<in> set dn \<longrightarrow> d) \<and> (r = Some D_node_down \<longrightarrow> a \<in> set dn \<or> b \<in> set dn)) \<circ> link_core"
  by (rule ext) (simp add: link_core_def failure_ok_def end_down_def)

lemma failures_ok_core:
  assumes "map link_core (lab_links s') = map link_core (lab_links s)" "lab_downNodes s' = lab_downNodes s"
  shows "failures_ok s' \<longleftrightarrow> failures_ok s"
  unfolding failures_ok_def failure_ok_core list.pred_map [symmetric] assms by (rule refl)

lemma failures_ok_advance:
  "lab_downNodes (advance p now s) = lab_downNodes s \<Longrightarrow> failures_ok (advance p now s) \<longleftrightarrow> failures_ok s"
  by (rule failures_ok_core [OF advance_core])

lemma failures_ok_choose [simp]: "failures_ok (chooseRoute n s) \<longleftrightarrow> failures_ok s"
  by (simp add: failures_ok_def)

lemma end_down_simps:
  "ls_a l' = ls_a l \<Longrightarrow> ls_b l' = ls_b l \<Longrightarrow> end_down dn l' = end_down dn l"
  by (simp add: end_down_def)

lemma set_set_insert [simp]: "set (set_insert x xs) = insert x (set xs)"
  by (auto simp: set_insert_def)

lemma list_all_update_first:
  "list_all P ls \<Longrightarrow> (\<And>l. l \<in> set ls \<Longrightarrow> P l \<Longrightarrow> P (f l)) \<Longrightarrow> list_all P (update_first i f ls)"
  by (induction ls) auto

lemma to_down_not_node [simp]: "to_down r \<noteq> D_node_down"
  by (cases r rule: to_down.cases) auto

text \<open>One update of one link, or of every link, at a time.\<close>

lemma failures_ok_update_first:
  assumes "failures_ok s" "\<And>l. failure_ok (lab_downNodes s) l \<Longrightarrow> failure_ok (lab_downNodes s) (f l)"
  shows "failures_ok (s\<lparr>lab_links := update_first i f (lab_links s), lab_pendingEvent := ev\<rparr>)"
  using assms by (simp add: failures_ok_def list_all_update_first)

lemma failures_ok_map:
  assumes "failures_ok s" "\<And>l. failure_ok (lab_downNodes s) l \<Longrightarrow> failure_ok dn (f l)"
  shows "failures_ok (s\<lparr>lab_links := map f (lab_links s), lab_downNodes := dn, lab_pendingEvent := ev\<rparr>)"
    "failures_ok (s\<lparr>lab_downNodes := dn, lab_links := map f (lab_links s), lab_pendingEvent := ev\<rparr>)"
  using assms by (simp_all add: failures_ok_def list_all_iff)

lemma failures_ok_inject: "failures_ok s \<Longrightarrow> failures_ok (injectFailure t s)"
proof (cases t)
  case (Link_target i r)
  assume ok: "failures_ok s"
  have "failures_ok (s\<lparr>lab_links := update_first i (\<lambda>l. l\<lparr>down := True, downReason := Some (to_down r)\<rparr>) (lab_links s),
      lab_pendingEvent := ev\<rparr>)" for ev
    by (rule failures_ok_update_first [OF ok]) (simp add: failure_ok_def)
  then show ?thesis using ok by (simp add: Link_target)
next
  case (Node_target n)
  assume ok: "failures_ok s"
  have "failures_ok (s\<lparr>lab_downNodes := set_insert n (lab_downNodes s),
      lab_links := map (\<lambda>l. if touches n l then l\<lparr>down := True, downReason := Some D_node_down\<rparr> else l) (lab_links s),
      lab_pendingEvent := ev\<rparr>)" for ev
    by (rule failures_ok_map(2) [OF ok]) (auto simp: failure_ok_def end_down_def touches_def)
  then show ?thesis by (simp add: Node_target)
qed

lemma failures_ok_clear: "failures_ok s \<Longrightarrow> failures_ok (clearFailure t s)"
proof (cases t)
  case None
  assume ok: "failures_ok s"
  have "failures_ok (s\<lparr>lab_links := map (\<lambda>l. l\<lparr>down := False, downReason := None\<rparr>) (lab_links s), lab_downNodes := [],
      lab_pendingEvent := ev\<rparr>)" for ev
    by (rule failures_ok_map(1) [OF ok]) (simp add: failure_ok_def end_down_def)
  then show ?thesis by (simp add: None)
next
  case (Some t')
  assume ok: "failures_ok s"
  show ?thesis
  proof (cases t')
    case (Link_target i r)
    have "failures_ok (s\<lparr>lab_links := update_first i (\<lambda>l. l\<lparr>down := end_down (lab_downNodes s) l,
        downReason := (if end_down (lab_downNodes s) l then Some D_node_down else None)\<rparr>) (lab_links s), lab_pendingEvent := ev\<rparr>)" for ev
      by (rule failures_ok_update_first [OF ok]) (simp add: failure_ok_def end_down_def)
    then show ?thesis using ok by (simp add: Some Link_target)
  next
    case (Node_target n)
    have "failures_ok (s\<lparr>lab_downNodes := removeAll n (lab_downNodes s),
        lab_links := map (\<lambda>l. if touches n l \<and> downReason l = Some D_node_down \<and> \<not> end_down (removeAll n (lab_downNodes s)) l
          then l\<lparr>down := False, downReason := None\<rparr> else l) (lab_links s), lab_pendingEvent := ev\<rparr>)" for ev
      by (rule failures_ok_map(2) [OF ok]) (auto simp: failure_ok_def end_down_def touches_def)
    then show ?thesis by (simp add: Some Node_target Let_def)
  qed
qed

section \<open>What a tick leaves alone\<close>

definition lab_rest :: "lab \<Rightarrow> string list \<times> topology_preset \<times> scenario option \<times> accounting \<times> rat \<times> rat \<times> nat \<times> sim_status" where
  "lab_rest s = (lab_downNodes s, lab_preset s, lab_scenario s, lab_accounting s, lab_delivered s, lab_unmet s, lab_tickN s, lab_status s)"

lemma rest_stages:
  "lab_rest (generate_stage s) = lab_rest s" "lab_rest (stream_stage p s) = lab_rest s"
  "lab_rest (relay_stage p s) = lab_rest s" "lab_rest (trace_deliver_keys r s) = lab_rest s"
  "lab_rest (snd (consumeStream p s)) = lab_rest s"
  by (simp_all add: lab_rest_def generate_stage_def stream_stage_def relay_stage_def Let_def case_prod_unfold)

lemma rest_keys: "lab_rest (snd (snd (advance_keys p s))) = lab_rest s"
  by (simp add: advance_keys_def Let_def case_prod_unfold rest_stages)

lemma rest_stores: "lab_rest (snd (snd (advance_stores p rate gen s))) = lab_rest s"
proof -
  have s: "lab_rest (stores_select need gen s) = lab_rest s" for need s
    by (simp add: lab_rest_def stores_select_def trace_growing_def grow_stores_def)
  have d: "lab_rest (stores_deliver p need r s) = lab_rest s" "lab_rest (stores_refuse need s) = lab_rest s" for need r s
    by (simp_all add: lab_rest_def stores_deliver_def stores_refuse_def Let_def)
  show ?thesis by (simp add: advance_stores_def Let_def s d split: option.splits)
qed

lemma rest_service: "lab_rest (snd (snd (advance_service p rate svc s))) = lab_rest s"
proof -
  have r: "lab_rest (service_refilled p svc k r s) = lab_rest s" "lab_rest (service_refill_failed svc k s) = lab_rest s"
    "lab_rest (traceRoute (chooseRoute n s)) = lab_rest s" "lab_rest (traceStep i oc d s) = lab_rest s" for svc k r n i oc d s
    by (simp_all add: lab_rest_def service_refilled_def service_refill_failed_def Let_def)
  have "lab_rest (refill_service p svc s) = lab_rest s" for svc s
    by (simp add: refill_service_def Let_def r split: option.splits)
  then have "lab_rest (snd (snd (advance_service p rate svc s))) = lab_rest
      (let credit = lab_demandCredit s + rate * lab_tickS s; whole = of_int \<lfloor>credit\<rfloor>; (served, svc1) = serve_due whole svc in
       trace_served whole served (s\<lparr>lab_demandCredit := credit - whole, lab_service := Some svc1,
                 lab_ok := lab_ok s + served, lab_failed := lab_failed s + (whole - served)\<rparr>))"
    by (simp add: advance_service_def Let_def case_prod_unfold)
  also have "\<dots> = lab_rest s" by (simp add: lab_rest_def Let_def case_prod_unfold)
  finally show ?thesis .
qed

lemma rest_mode: "lab_rest (snd (snd (advance_mode p s))) = lab_rest s"
proof -
  have "lab_rest (traceRoute (chooseRoute n s)) = lab_rest s" for n by (simp add: lab_rest_def)
  then show ?thesis
    by (simp add: advance_mode_def rest_keys rest_stores rest_service split: accounting.splits option.splits)
qed

lemma advance_mode_frame:
  "lab_downNodes (snd (snd (advance_mode p s))) = lab_downNodes s"
  "lab_preset (snd (snd (advance_mode p s))) = lab_preset s"
  "lab_scenario (snd (snd (advance_mode p s))) = lab_scenario s"
  "lab_accounting (snd (snd (advance_mode p s))) = lab_accounting s"
  "lab_delivered (snd (snd (advance_mode p s))) = lab_delivered s"
  "lab_unmet (snd (snd (advance_mode p s))) = lab_unmet s"
  "lab_tickN (snd (snd (advance_mode p s))) = lab_tickN s"
  "lab_status (snd (snd (advance_mode p s))) = lab_status s"
  using rest_mode [of p s] by (simp_all add: lab_rest_def)

lemma advance_frame [simp]:
  "lab_downNodes (advance p now s) = lab_downNodes s" "lab_preset (advance p now s) = lab_preset s"
  "lab_scenario (advance p now s) = lab_scenario s" "lab_accounting (advance p now s) = lab_accounting s"
  "lab_tickN (advance p now s) = Suc (lab_tickN s)"
  by (simp_all add: advance_def Let_def case_prod_unfold advance_mode_frame)

lemma advance_status: "lab_status (advance p now s) = lab_status s \<or> lab_status (advance p now s) = Paused \<and> lab_status s = Running"
  using advance_mode_frame(8) [of p "begin_tick now s"]
  by (auto simp: advance_def finish_tick_def begin_tick_def Let_def case_prod_unfold)

section \<open>Every control keeps the invariant\<close>

lemma wf_no_timer: "lab_wf s \<Longrightarrow> lab_wf (s\<lparr>lab_status := st, lab_timer := False\<rparr>)"
  by (simp add: lab_wf_def loop_ok_def)

lemma wf_running: "lab_wf s \<Longrightarrow> lab_wf (lab_start t s)" "lab_wf s \<Longrightarrow> lab_wf (lab_resume t s)"
  by (simp_all add: lab_start_def lab_resume_def ensureLoop_def lab_wf_def loop_ok_def)

lemma wf_pause: "lab_wf s \<Longrightarrow> lab_wf (lab_pause s)"
  by (simp add: lab_pause_def stopLoop_def wf_no_timer)

lemma wf_setPace: "lab_wf s \<Longrightarrow> lab_wf (setPace ms s)"
  by (simp add: setPace_def lab_wf_def)

lemma wf_dispose: "lab_wf s \<Longrightarrow> lab_wf (lab_dispose s)"
  by (simp add: lab_dispose_def clearKeyMaterial_def stopLoop_def lab_wf_def loop_ok_def stream_ok_def km_clear_def)

text \<open>Taking one tick while the loop is off: the timer is off unless the run is running.\<close>

lemma wf_step: "platform_ok p \<Longrightarrow> lab_wf s \<Longrightarrow> lab_wf (lab_step p now s)"
proof -
  assume p: "platform_ok p" and wf: "lab_wf s"
  show ?thesis
  proof (cases "lab_status s = Running")
    case False
    then have "lab_wf (s\<lparr>lab_status := Stepped\<rparr>)" using wf by (auto simp: lab_wf_def loop_ok_def)
    from advance_wf [OF p this, of now] have w: "lab_wf (advance p now (s\<lparr>lab_status := Stepped\<rparr>))" .
    have "lab_status (advance p now (s\<lparr>lab_status := Stepped\<rparr>)) \<noteq> Running"
      using advance_status [of p now "s\<lparr>lab_status := Stepped\<rparr>"] by auto
    with w have "\<not> lab_timer (advance p now (s\<lparr>lab_status := Stepped\<rparr>))" by (auto simp: lab_wf_def loop_ok_def)
    with w False show ?thesis by (auto simp: lab_step_def Let_def lab_wf_def loop_ok_def)
  qed (simp add: lab_step_def wf)
qed

lemma wf_timer: "platform_ok p \<Longrightarrow> lab_wf s \<Longrightarrow> lab_wf (onTimer p t now s)"
proof -
  assume "platform_ok p" "lab_wf s"
  moreover from this(2) have "lab_wf (s\<lparr>lab_lastAdvance := t\<rparr>)" by (simp add: lab_wf_def)
  ultimately show ?thesis by (simp add: onTimer_def advance_wf)
qed

text \<open>A failure changes only which links are down, so only the route has to be chosen again.\<close>

lemma chooseRoute_anew:
  assumes "lab_wf (s\<lparr>lab_route := None\<rparr>)"
  shows "lab_wf (chooseRoute n s)"
proof -
  have l: "links_ok (lab_links s)" using assms by (simp add: lab_wf_def)
  then have "route_ok (lab_links s) (lab_downNodes s) (lab_route (chooseRoute n s))"
    by (intro chooseRoute_ok) (simp add: links_ok_def)
  moreover have "length (lab_reroutes (chooseRoute n s)) \<le> HISTORY_LIMIT"
    unfolding chooseRoute_def Let_def by (intro note_reroute_len) (use assms in \<open>simp add: lab_wf_def logs_ok_def\<close>)
  ultimately show ?thesis using assms l by (simp add: lab_wf_def logs_ok_def)
qed

lemma wf_failure:
  assumes "lab_wf s" "links_ok ls"
  shows "lab_wf (chooseRoute n (s\<lparr>lab_links := ls, lab_downNodes := dn, lab_pendingEvent := ev\<rparr>))"
    "lab_wf (chooseRoute n (s\<lparr>lab_downNodes := dn, lab_links := ls, lab_pendingEvent := ev\<rparr>))"
    "lab_wf (chooseRoute n (s\<lparr>lab_links := ls, lab_pendingEvent := ev\<rparr>))"
proof -
  have none: "route_ok ls' dn' None" for ls' dn' by (simp add: route_ok_def)
  show "lab_wf (chooseRoute n (s\<lparr>lab_links := ls, lab_downNodes := dn, lab_pendingEvent := ev\<rparr>))"
    "lab_wf (chooseRoute n (s\<lparr>lab_downNodes := dn, lab_links := ls, lab_pendingEvent := ev\<rparr>))"
    "lab_wf (chooseRoute n (s\<lparr>lab_links := ls, lab_pendingEvent := ev\<rparr>))"
    by (rule chooseRoute_anew, use assms none in \<open>simp add: lab_wf_def\<close>)+
qed

lemma links_ok_map: "links_ok ls \<Longrightarrow> (\<And>l. ls_id (f l) = ls_id l) \<Longrightarrow> (\<And>l. link_ok l \<Longrightarrow> link_ok (f l)) \<Longrightarrow> links_ok (map f ls)"
  by (auto simp: links_ok_def comp_def)

lemma links_ok_update_first:
  "links_ok ls \<Longrightarrow> (\<And>l. ls_id (f l) = ls_id l) \<Longrightarrow> (\<And>l. link_ok l \<Longrightarrow> link_ok (f l)) \<Longrightarrow> links_ok (update_first i f ls)"
  unfolding links_ok_def by (simp add: update_first_ids) (metis list_all_iff list_all_update_first)

lemma link_ok_down [simp]: "link_ok (l\<lparr>down := d, downReason := r\<rparr>) = link_ok l"
  by (simp add: link_ok_def)

lemma wf_links: "lab_wf s \<Longrightarrow> links_ok (lab_links s)"
  by (simp add: lab_wf_def)

lemma wf_inject: "lab_wf s \<Longrightarrow> lab_wf (injectFailure t s)"
proof (cases t)
  case (Link_target i r)
  assume wf: "lab_wf s"
  have "links_ok (update_first i (\<lambda>l. l\<lparr>down := True, downReason := Some (to_down r)\<rparr>) (lab_links s))"
    by (rule links_ok_update_first [OF wf_links [OF wf]]) simp_all
  from wf_failure(3) [OF wf this] show ?thesis using wf by (simp add: Link_target)
next
  case (Node_target n)
  assume wf: "lab_wf s"
  have "links_ok (map (\<lambda>l. if touches n l then l\<lparr>down := True, downReason := Some D_node_down\<rparr> else l) (lab_links s))"
    by (rule links_ok_map [OF wf_links [OF wf]]) simp_all
  from wf_failure(1,2) [OF wf this] show ?thesis by (simp add: Node_target)
qed

lemma wf_clear: "lab_wf s \<Longrightarrow> lab_wf (clearFailure t s)"
proof (cases t)
  case None
  assume wf: "lab_wf s"
  have "links_ok (map (\<lambda>l. l\<lparr>down := False, downReason := None\<rparr>) (lab_links s))"
    by (rule links_ok_map [OF wf_links [OF wf]]) simp_all
  from wf_failure(1,2) [OF wf this] show ?thesis by (simp add: None)
next
  case (Some t')
  assume wf: "lab_wf s"
  show ?thesis
  proof (cases t')
    case (Link_target i r)
    have "links_ok (update_first i (\<lambda>l. l\<lparr>down := end_down (lab_downNodes s) l,
        downReason := (if end_down (lab_downNodes s) l then Some D_node_down else None)\<rparr>) (lab_links s))"
      by (rule links_ok_update_first [OF wf_links [OF wf]]) simp_all
    from wf_failure(3) [OF wf this] show ?thesis using wf by (simp add: Some Link_target)
  next
    case (Node_target n)
    have "links_ok (map (\<lambda>l. if touches n l \<and> downReason l = Some D_node_down \<and> \<not> end_down (removeAll n (lab_downNodes s)) l
          then l\<lparr>down := False, downReason := None\<rparr> else l) (lab_links s))"
      by (rule links_ok_map [OF wf_links [OF wf]]) simp_all
    from wf_failure(1,2) [OF wf this] show ?thesis by (simp add: Some Node_target Let_def)
  qed
qed

lemma random_as_inject:
  "\<exists>sd. snd (injectRandomFailure rnd s) = s\<lparr>lab_seeds := sd\<rparr>
     \<or> (\<exists>t. snd (injectRandomFailure rnd s) = injectFailure t (s\<lparr>lab_seeds := sd\<rparr>))"
proof -
  obtain seed sd where n: "seeds_next rnd (lab_seeds s) = (seed, sd)" by fastforce
  show ?thesis
  proof (cases "filter (\<lambda>l. ls_kind l = Qkd \<and> \<not> down l \<and> \<not> notInRun l) (lab_links s) = []")
    case True
    then have "snd (injectRandomFailure rnd s) = s\<lparr>lab_seeds := sd\<rparr>"
      unfolding injectRandomFailure_def Let_def n prod.case by (simp only: if_True snd_conv simp_thms)
    then show ?thesis by blast
  next
    case False
    then have "\<exists>t. snd (injectRandomFailure rnd s) = injectFailure t (s\<lparr>lab_seeds := sd\<rparr>)"
      unfolding injectRandomFailure_def Let_def n prod.case by (simp only: if_False snd_conv) (rule exI, rule refl)
    then show ?thesis by blast
  qed
qed

lemma wf_random:
  assumes "lab_wf s"
  shows "lab_wf (snd (injectRandomFailure rnd s))"
proof -
  have w: "lab_wf (s\<lparr>lab_seeds := sd\<rparr>)" for sd using assms by (simp add: lab_wf_def)
  from random_as_inject [of rnd s] show ?thesis by (elim exE disjE) (simp_all only: w wf_inject)
qed

section \<open>Every reachable state\<close>

lemma find_by_key: "distinct (map f xs) \<Longrightarrow> x \<in> set xs \<Longrightarrow> List.find (\<lambda>y. f y = f x) xs = Some x"
  by (induction xs) auto

lemma catalogue_ids: "distinct (map p_id PRESETS) \<and> distinct (map s_id SCENARIOS) \<and> [] \<notin> set (map s_id SCENARIOS)"
  by code_simp

lemma preset_found: "pr \<in> set PRESETS \<Longrightarrow> presetById (p_id pr) = Some pr"
  unfolding presetById_def using catalogue_ids by (intro find_by_key) blast+

lemma scenario_found: "sc \<in> set SCENARIOS \<Longrightarrow> scenarioById (s_id sc) = Some sc \<and> s_id sc \<noteq> []"
  unfolding scenarioById_def using catalogue_ids by (intro conjI find_by_key) (blast, blast, metis image_eqI list.set_map)

lemma load_same:
  assumes "pr \<in> set PRESETS" "case sc of None \<Rightarrow> True | Some x \<Rightarrow> x \<in> set SCENARIOS \<and> s_presetId x = p_id pr"
  shows "load p (p_id pr) (map_option s_id sc) fd s = Some (after_load p (loaded pr sc fd s))"
proof -
  have "scenario_to_load (map_option s_id sc) (p_id pr) = Some sc"
    using assms(2) scenario_found by (auto simp: scenario_to_load_def split: option.splits)
  then show ?thesis by (simp add: load_def preset_found [OF assms(1)])
qed

lemma wf_source: "lab_wf s \<Longrightarrow> lab_preset s \<in> set PRESETS
    \<and> (case lab_scenario s of None \<Rightarrow> True | Some x \<Rightarrow> x \<in> set SCENARIOS \<and> s_presetId x = p_id (lab_preset s))"
  by (auto simp: lab_wf_def source_ok_def split: option.splits)

lemma wf_perS: "lab_wf s \<Longrightarrow> case lab_keysPerS s of None \<Rightarrow> True | Some v \<Rightarrow> 0 \<le> v"
  by (simp add: lab_wf_def clock_ok_def)

lemma wf_load:
  assumes "platform_ok p" "lab_wf s" "load p pid sid None (s\<lparr>lab_timer := False, lab_status := Idle\<rparr>) = Some s'"
  shows "lab_wf s'"
proof (rule load_wf [OF assms(1,3)])
  show "case lab_keysPerS (s\<lparr>lab_timer := False, lab_status := Idle\<rparr>) of None \<Rightarrow> True | Some v \<Rightarrow> 0 \<le> v"
    using wf_perS [OF assms(2)] by simp
qed (simp_all add: loop_ok_def)

lemma wf_setDemand:
  assumes p: "platform_ok p" and wf: "lab_wf s" and d: "setDemand p a b v s = Some s'"
  shows "lab_wf s'"
proof (cases "lab_scenario s")
  case None
  define r where "r = (case v of Some w \<Rightarrow> if 0 \<le> w then w else 0 | None \<Rightarrow> (0::rat))"
  have r: "0 \<le> r" by (simp add: r_def split: option.splits)
  from d None have l: "load p (p_id (lab_preset s)) None (Some \<lparr>fd_from = a, fd_to = b, fd_keysPerS = Some r\<rparr>)
      ((stopLoop (s\<lparr>lab_from := a, lab_to := b, lab_keysPerS := Some r\<rparr>))\<lparr>lab_status := Idle\<rparr>) = Some s'"
    by (simp add: setDemand_def Let_def r_def)
  show ?thesis by (rule load_wf [OF p l]) (simp_all add: r stopLoop_def loop_ok_def)
qed (use wf d in \<open>simp add: setDemand_def\<close>)

lemma reset_defined: "lab_wf s \<Longrightarrow> \<exists>s'. lab_reset p s = Some s'"
  using wf_source [of s] load_same unfolding lab_reset_def by blast

lemma setDemand_defined: "lab_wf s \<Longrightarrow> \<exists>s'. setDemand p a b v s = Some s'"
  using wf_source [of s] load_same [of "lab_preset s" None] by (auto simp: setDemand_def Let_def)

lemma lab_do_wf:
  assumes p: "platform_ok p" and wf: "lab_wf s" and d: "lab_do p i s = Some s'"
  shows "lab_wf s'"
proof (cases i)
  case Do_reset
  with d wf_load [OF p wf] show ?thesis by (simp add: lab_reset_def stopLoop_def)
next
  case (Do_loadPreset pid sid)
  with d wf_load [OF p wf] show ?thesis by (simp add: loadPreset_def stopLoop_def)
next
  case (Do_setDemand a b v)
  with d wf_setDemand [OF p wf] show ?thesis by simp
next
  case (Do_timer t now)
  with d wf wf_timer [OF p wf, of t now] show ?thesis by (simp split: if_splits)
qed (use d in \<open>auto simp: wf_running [OF wf] wf_pause [OF wf] wf_step [OF p wf] wf_dispose [OF wf] wf_setPace [OF wf]
    wf_inject [OF wf] wf_clear [OF wf] wf_random [OF wf]\<close>)

lemma blank_status [simp]:
  "lab_keysPerS (lab_blank sd pace) = Some 1" "lab_timer (lab_blank sd pace) = False" "lab_status (lab_blank sd pace) = Idle"
  by (simp_all add: lab_blank_def)

lemma lab_new_wf:
  assumes "platform_ok p" "lab_new p sd pid pace = Some s"
  shows "lab_wf s"
  by (rule load_wf [OF assms(1) assms(2) [unfolded lab_new_def]]) (simp_all add: loop_ok_def)

lemma lab_reach_wf: "lab_reach p s \<Longrightarrow> platform_ok p \<Longrightarrow> lab_wf s"
  by (induction rule: lab_reach.induct) (blast intro: lab_new_wf lab_do_wf)+

text \<open>Loading starts from no failure and no count.\<close>

definition totals_ok :: "lab \<Rightarrow> bool" where
  "totals_ok s \<longleftrightarrow> countsRequests (lab_accounting s) \<longrightarrow>
     lab_delivered s = lab_ok s * KEY_BITS \<and> lab_unmet s = lab_failed s * KEY_BITS"

lemma openStream_counts [simp]:
  "lab_ok (openStream p s) = lab_ok s" "lab_failed (openStream p s) = lab_failed s"
  "lab_links (openStream p s) = lab_links s" "lab_downNodes (openStream p s) = lab_downNodes s"
  "lab_delivered (openStream p s) = lab_delivered s" "lab_unmet (openStream p s) = lab_unmet s"
  by simp_all

lemma init_link_up [simp]: "down (init_link acc sc l) = False" "downReason (init_link acc sc l) = None"
  by (simp_all add: init_link_def Let_def split: option.splits scenario_kind.splits)

lemma loaded_fresh:
  "failures_ok (loaded pr sc fd s)" "totals_ok (loaded pr sc fd s)"
  by (auto simp: loaded_def Let_def failures_ok_def failure_ok_def end_down_def totals_ok_def list_all_iff)

lemma load_fresh: "load p pid sid fd s = Some s' \<Longrightarrow> failures_ok s' \<and> totals_ok s'"
proof -
  assume l: "load p pid sid fd s = Some s'"
  then obtain pr where e1: "presetById pid = Some pr" by (cases "presetById pid") (simp_all add: load_def)
  with l obtain sc where e2: "scenario_to_load sid pid = Some sc" "after_load p (loaded pr sc fd s) = s'"
    by (cases "scenario_to_load sid pid") (simp_all add: load_def)
  show ?thesis
    unfolding e2(2) [symmetric] using loaded_fresh [of pr sc fd s]
    by (simp add: after_load_def Let_def failures_ok_def totals_ok_def)
qed

lemma failures_ok_upd [simp]:
  "failures_ok (s\<lparr>lab_seeds := sd\<rparr>) = failures_ok s" "failures_ok (s\<lparr>lab_status := st\<rparr>) = failures_ok s"
  "failures_ok (s\<lparr>lab_lastAdvance := t\<rparr>) = failures_ok s"
  by (simp_all add: failures_ok_def)

lemma failures_ok_random: "failures_ok s \<Longrightarrow> failures_ok (snd (injectRandomFailure rnd s))"
  using random_as_inject [of rnd s] failures_ok_inject by (elim exE disjE) (simp_all only: failures_ok_upd)

lemma lab_do_failures:
  assumes ok: "failures_ok s" and d: "lab_do p i s = Some s'"
  shows "failures_ok s'"
proof -
  have frame: "failures_ok (lab_start t s)" "failures_ok (lab_pause s)" "failures_ok (lab_resume t s)"
    "failures_ok (lab_dispose s)" "failures_ok (setPace ms s)" for t ms
    using ok by (simp_all add: failures_ok_def lab_start_def lab_pause_def lab_resume_def ensureLoop_def stopLoop_def
        lab_dispose_def clearKeyMaterial_def setPace_def)
  have tick: "failures_ok (lab_step p now s)" "failures_ok (onTimer p t now s)" for now t
    using ok by (simp_all add: lab_step_def onTimer_def Let_def failures_ok_advance)
  show ?thesis
    using d ok frame tick failures_ok_inject failures_ok_clear failures_ok_random load_fresh
    by (cases i) (auto simp: lab_reset_def loadPreset_def setDemand_def Let_def split: if_splits)
qed

lemma lab_reach_failures: "lab_reach p s \<Longrightarrow> failures_ok s"
  by (induction rule: lab_reach.induct) (use load_fresh lab_do_failures in \<open>auto simp: lab_new_def\<close>)

section \<open>What a whole tick counts\<close>

lemma advance_parts:
  obtains d u s1 where "advance_mode p (begin_tick now s) = (d, u, s1)"
    "advance p now s = finish_tick now (map_option (\<lambda>t. now - t) (lab_lastTickStart s)) (lab_pendingEvent s) d u s1"
  by (rule prod_cases3 [of "advance_mode p (begin_tick now s)"]) (simp add: advance_def Let_def)

text \<open>A tick in the keys accounting, whole: the same statement as for its stages, now over \<^verbatim>\<open>advance\<close>.\<close>

lemma due_begin [simp]: "due_requests (begin_tick now s) = due_requests s"
  by (simp add: due_requests_def begin_tick_def)

lemma tick_keys:
  assumes p: "platform_ok p" and wf: "lab_wf s" and acc: "lab_accounting s = Acc_keys"
  shows "\<exists>served made hs. served \<le> due_requests s \<and> 0 \<le> made \<and> (\<forall>h \<in> set hs. 1 \<le> h)
    \<and> lab_ok (advance p now s) = lab_ok s + of_nat served
    \<and> lab_failed (advance p now s) = lab_failed s + of_nat (due_requests s - served)
    \<and> lab_delivered (advance p now s) = lab_delivered s + of_nat served * KEY_BITS
    \<and> lab_unmet (advance p now s) = lab_unmet s + of_nat (due_requests s - served) * KEY_BITS
    \<and> total_keys (lab_links (advance p now s)) = total_keys (lab_links s) + made - int (sum_list hs)"
proof -
  obtain d u s1 where m: "advance_mode p (begin_tick now s) = (d, u, s1)"
    and e: "advance p now s = finish_tick now (map_option (\<lambda>t. now - t) (lab_lastTickStart s)) (lab_pendingEvent s) d u s1"
    by (rule advance_parts)
  have "advance_keys p (begin_tick now s) = (d, u, s1)" using m acc by (simp add: advance_mode_def)
  from advance_keys_spec [OF p begin_tick_wf [OF wf] _ this] acc obtain served made hs where
    "served \<le> due_requests s" "d = of_nat served * KEY_BITS" "u = of_nat (due_requests s - served) * KEY_BITS"
    "lab_ok s1 = lab_ok s + of_nat served" "lab_failed s1 = lab_failed s + of_nat (due_requests s - served)"
    "0 \<le> made" "total_keys (lab_links s1) = total_keys (lab_links s) + made - int (sum_list hs)" "\<forall>h \<in> set hs. 1 \<le> h"
    by auto
  moreover have "lab_delivered s1 = lab_delivered s" "lab_unmet s1 = lab_unmet s"
    using advance_mode_frame(5,6) [of p "begin_tick now s"] m by simp_all
  ultimately show ?thesis unfolding e by (intro exI [of _ served] exI [of _ made] exI [of _ hs]) simp
qed

lemma tick_service:
  assumes wf: "lab_wf s" and acc: "lab_accounting s = Acc_service_buffer"
  obtains sc svc svc' served where "lab_scenario s = Some sc" "sc \<in> set SCENARIOS" "lab_service s = Some svc"
    "served = min (of_int (due_keys (qval (s_rate sc)) s)) (sv_stored svc)"
    "lab_ok (advance p now s) = lab_ok s + served"
    "lab_failed (advance p now s) = lab_failed s + (of_int (due_keys (qval (s_rate sc)) s) - served)"
    "lab_delivered (advance p now s) = lab_delivered s + served * KEY_BITS"
    "lab_unmet (advance p now s) = lab_unmet s + (of_int (due_keys (qval (s_rate sc)) s) - served) * KEY_BITS"
    "lab_service (advance p now s) = Some svc'"
    "sv_stored svc' = (if sv_stored svc - served \<le> sv_refillAt svc \<and> lab_route (advance p now s) \<noteq> None
      then sv_refillTo svc else sv_stored svc - served)"
proof -
  obtain d u s1 where m: "advance_mode p (begin_tick now s) = (d, u, s1)"
    and e: "advance p now s = finish_tick now (map_option (\<lambda>t. now - t) (lab_lastTickStart s)) (lab_pendingEvent s) d u s1"
    by (rule advance_parts)
  from wf acc obtain sc svc where sc: "lab_scenario s = Some sc" "sc \<in> set SCENARIOS" "lab_service s = Some svc"
    by (auto simp: lab_wf_def source_ok_def split: option.splits)
  have due: "due_keys r (begin_tick now s) = due_keys r s" for r by (simp add: due_keys_def begin_tick_def)
  have "advance_service p (qval (s_rate sc)) svc (begin_tick now s) = (d, u, s1)"
    using m acc sc by (simp add: advance_mode_def)
  from advance_service_spec [OF begin_tick_wf [OF wf] _ _ this] sc scenario_rate [OF sc(2)] obtain served svc' where
    r: "served = min (of_int (due_keys (qval (s_rate sc)) s)) (sv_stored svc)" "d = served * KEY_BITS"
    "d + u = of_int (due_keys (qval (s_rate sc)) s) * KEY_BITS" "lab_ok s1 = lab_ok s + served"
    "lab_failed s1 = lab_failed s + (of_int (due_keys (qval (s_rate sc)) s) - served)" "lab_service s1 = Some svc'"
    "sv_stored svc' = (if sv_stored svc - served \<le> sv_refillAt svc \<and> lab_route s1 \<noteq> None
      then sv_refillTo svc else sv_stored svc - served)"
    by (auto simp: due)
  have u: "u = (of_int (due_keys (qval (s_rate sc)) s) - served) * KEY_BITS"
    using r(2,3) by (simp add: algebra_simps)
  have du: "lab_delivered s1 = lab_delivered s" "lab_unmet s1 = lab_unmet s"
    using advance_mode_frame(5,6) [of p "begin_tick now s"] m by simp_all
  show ?thesis
    by (rule that [OF sc r(1)]) (use r u du in \<open>simp_all add: e\<close>)
qed

lemma tick_steps:
  assumes "platform_ok p" "lab_wf s"
  shows "\<exists>tt. lab_lastTick (advance p now s) = Some tt \<and> tt_tick tt = Suc (lab_tickN s)
    \<and> map step_id (tt_steps tt) = tick_ids (lab_accounting s)"
proof -
  obtain d u s1 where m: "advance_mode p (begin_tick now s) = (d, u, s1)"
    and e: "advance p now s = finish_tick now (map_option (\<lambda>t. now - t) (lab_lastTickStart s)) (lab_pendingEvent s) d u s1"
    by (rule advance_parts)
  from advance_mode_spec [OF assms(1) begin_tick_wf [OF assms(2)] m]
  have "map step_id (lab_traceSteps s1) = tick_ids (lab_accounting s)" by simp
  moreover have "lab_tickN s1 = Suc (lab_tickN s)"
    using advance_mode_frame(7) [of p "begin_tick now s"] m by simp
  ultimately show ?thesis by (simp add: e finish_tick_def Let_def)
qed

lemma tick_stores:
  assumes wf: "lab_wf s" and acc: "lab_accounting s = Acc_stores" and sc: "lab_scenario s = Some sc"
  shows "if lab_route (advance p now s) = None
      then lab_delivered (advance p now s) = lab_delivered s
        \<and> lab_unmet (advance p now s) = lab_unmet s + qval (s_rate sc) * lab_tickS s \<and> lab_status (advance p now s) \<noteq> Running
      else lab_delivered (advance p now s) = lab_delivered s + qval (s_rate sc) * lab_tickS s
        \<and> lab_unmet (advance p now s) = lab_unmet s \<and> lab_status (advance p now s) = lab_status s"
proof -
  obtain d u s1 where m: "advance_mode p (begin_tick now s) = (d, u, s1)"
    and e: "advance p now s = finish_tick now (map_option (\<lambda>t. now - t) (lab_lastTickStart s)) (lab_pendingEvent s) d u s1"
    by (rule advance_parts)
  have rate: "0 \<le> qval (s_rate sc)" using wf acc sc by (auto simp: lab_wf_def source_ok_def dest: scenario_rate)
  obtain gen where "advance_stores p (qval (s_rate sc)) gen (begin_tick now s) = (d, u, s1)"
    using m acc sc by (auto simp: advance_mode_def)
  from advance_stores_spec [OF begin_tick_wf [OF wf] _ rate this] acc
  have "d + u = qval (s_rate sc) * lab_tickS s" "if lab_route s1 = None then d = 0 else u = 0"
    by (simp_all add: begin_tick_def)
  moreover have f: "lab_delivered s1 = lab_delivered s" "lab_unmet s1 = lab_unmet s" "lab_accounting s1 = Acc_stores"
    "lab_status s1 = lab_status s"
    using advance_mode_frame(4,5,6,8) [of p "begin_tick now s"] m acc by (simp_all add: begin_tick_def)
  ultimately show ?thesis by (auto simp: e finish_tick_def Let_def)
qed

lemma totals_ok_advance:
  assumes "platform_ok p" "lab_wf s" "totals_ok s"
  shows "totals_ok (advance p now s)"
proof (cases "lab_accounting s")
  case Acc_keys
  from tick_keys [OF assms(1,2) Acc_keys, of now] obtain served due where
    "lab_ok (advance p now s) = lab_ok s + served" "lab_failed (advance p now s) = lab_failed s + due"
    "lab_delivered (advance p now s) = lab_delivered s + served * KEY_BITS"
    "lab_unmet (advance p now s) = lab_unmet s + due * KEY_BITS" by blast
  with assms(3) show ?thesis by (simp add: totals_ok_def algebra_simps)
next
  case Acc_service_buffer
  from tick_service [OF assms(2) Acc_service_buffer, of p now] obtain served missed where
    "lab_ok (advance p now s) = lab_ok s + served" "lab_failed (advance p now s) = lab_failed s + missed"
    "lab_delivered (advance p now s) = lab_delivered s + served * KEY_BITS"
    "lab_unmet (advance p now s) = lab_unmet s + missed * KEY_BITS" by metis
  with assms(3) show ?thesis by (simp add: totals_ok_def algebra_simps)
qed (simp_all add: totals_ok_def countsRequests_def)

lemma totals_ok_upd [simp]:
  "totals_ok (s\<lparr>lab_seeds := sd\<rparr>) = totals_ok s" "totals_ok (s\<lparr>lab_status := st\<rparr>) = totals_ok s"
  "totals_ok (s\<lparr>lab_lastAdvance := t\<rparr>) = totals_ok s"
  "totals_ok (s\<lparr>lab_links := ls, lab_downNodes := dn, lab_pendingEvent := ev\<rparr>) = totals_ok s"
  "totals_ok (s\<lparr>lab_downNodes := dn, lab_links := ls, lab_pendingEvent := ev\<rparr>) = totals_ok s"
  "totals_ok (s\<lparr>lab_downNodes := dn\<rparr>) = totals_ok s" "totals_ok (s\<lparr>lab_links := ls\<rparr>) = totals_ok s"
  "totals_ok (s\<lparr>lab_pendingEvent := ev\<rparr>) = totals_ok s"
  "totals_ok (s\<lparr>lab_links := ls, lab_pendingEvent := ev\<rparr>) = totals_ok s"
  "totals_ok (chooseRoute n s) = totals_ok s"
  by (simp_all add: totals_ok_def)

lemma totals_ok_failures [simp]:
  "totals_ok (injectFailure t s) = totals_ok s" "totals_ok (clearFailure u s) = totals_ok s"
proof -
  show "totals_ok (injectFailure t s) = totals_ok s" by (cases t) simp_all
  show "totals_ok (clearFailure u s) = totals_ok s"
  proof (cases u)
    case (Some v)
    then show ?thesis by (cases v) (simp_all add: Let_def)
  qed simp
qed

lemma lab_do_totals:
  assumes p: "platform_ok p" and wf: "lab_wf s" and ok: "totals_ok s" and d: "lab_do p i s = Some s'"
  shows "totals_ok s'"
proof -
  have frame: "totals_ok (lab_start t s)" "totals_ok (lab_pause s)" "totals_ok (lab_resume t s)"
    "totals_ok (lab_dispose s)" "totals_ok (setPace ms s)" for t ms
    using ok by (simp_all add: totals_ok_def lab_start_def lab_pause_def lab_resume_def ensureLoop_def stopLoop_def
        lab_dispose_def clearKeyMaterial_def setPace_def)
  have w: "lab_wf (s\<lparr>lab_status := Stepped\<rparr>)" if "lab_status s \<noteq> Running"
    using wf that by (auto simp: lab_wf_def loop_ok_def)
  have wt: "lab_wf (s\<lparr>lab_lastAdvance := t\<rparr>)" for t using wf by (simp add: lab_wf_def)
  have tick: "totals_ok (lab_step p now s)" "totals_ok (onTimer p t now s)" for now t
    using ok totals_ok_advance [OF p w] totals_ok_advance [OF p wt] by (simp_all add: lab_step_def onTimer_def Let_def)
  have rnd: "totals_ok (snd (injectRandomFailure r s))" for r
    using random_as_inject [of r s] ok by (elim exE disjE) simp_all
  show ?thesis
    using d ok frame tick rnd load_fresh
    by (cases i) (auto simp: lab_reset_def loadPreset_def setDemand_def Let_def split: if_splits)
qed

lemma lab_reach_totals: "lab_reach p s \<Longrightarrow> platform_ok p \<Longrightarrow> totals_ok s"
proof (induction rule: lab_reach.induct)
  case (reach_new sd pid pace s)
  then show ?case using load_fresh by (auto simp: lab_new_def)
next
  case (reach_do s i s')
  then show ?case using lab_do_totals lab_reach_wf by blast
qed

end
