(* ===== verification/Lab_Ledger.thy ===== *)
theory Lab_Ledger
  imports Lab_Reach
begin

text \<open>
  Where every key of a tick of the Protocol Lab goes: what generation adds to each link, what each relay takes from
  each link of the route it used, and what the stream gains and gives out. The routes are the lab's own: simple paths
  from the demand's source to its destination over links that are up.
\<close>

section \<open>Routes and their hops\<close>

definition relay_route :: "lab \<Rightarrow> route_choice \<Rightarrow> bool" where
  "relay_route s r \<longleftrightarrow>
     simple_path (lab_graph s) (lab_downNodes s) [] (lab_from s) (lab_to s) (route_nodes r, linkIds r)
     \<and> linkIds r \<noteq> [] \<and> distinct (linkIds r)
     \<and> (\<forall>i \<in> set (linkIds r). \<exists>l. find_link (lab_links s) i = Some l \<and> \<not> down l \<and> ls_kind l = Qkd \<and> \<not> notInRun l)"

text \<open>How many of the routes go over a link.\<close>

definition crossings :: "route_choice list \<Rightarrow> string \<Rightarrow> nat" where
  "crossings rs i = length (filter (\<lambda>r. i \<in> set (linkIds r)) rs)"

lemma crossings_simps [simp]:
  "crossings [] i = 0" "crossings (r # rs) i = (if i \<in> set (linkIds r) then Suc (crossings rs i) else crossings rs i)"
  by (simp_all add: crossings_def)

lemma follows_mono: "follows E ns is \<Longrightarrow> (\<And>n i m. E n i m \<Longrightarrow> F n i m) \<Longrightarrow> follows F ns is"
  by (induction E ns "is" rule: follows.induct) auto

lemma simple_path_all_links: "simple_path g dn dl a b p \<Longrightarrow> simple_path g dn [] a b p"
  by (auto simp: simple_path_def joins_def link_skipped_def elim!: follows_mono)

lemma chosen_relay_route:
  assumes "distinct (map ls_id (lab_links s))" "lab_route (chooseRoute n s) = Some r"
  shows "relay_route s r"
proof -
  from chosen_route [OF assms] obtain p where p: "r = describeRoute p (lab_view s n)"
    "simple_path (lab_graph s) (lab_downNodes s) (downLinks (lab_graph s) (lab_view s n)) (lab_from s) (lab_to s) p"
    "\<forall>i \<in> set (snd p). \<exists>l. find_link (lab_links s) i = Some l \<and> \<not> down l \<and> ls_kind l = Qkd \<and> \<not> notInRun l"
    "distinct (snd p)" by metis
  have "1 \<le> hops r" by (rule chosen_hops [OF assms])
  with p simple_path_all_links [OF p(2)] show ?thesis by (auto simp: relay_route_def)
qed

text \<open>What a route is reads only the fixed part of the links.\<close>

lemma lab_graph_core:
  "lab_graph s = \<lparr>g_nodes = map n_id (p_nodes (lab_preset s)),
     g_links = map (\<lambda>(i, a, b, _). \<lparr>gl_id = i, gl_a = a, gl_b = b\<rparr>)
       (filter (\<lambda>(_, _, _, k, _, _, x). k = Qkd \<and> \<not> x) (map link_core (lab_links s)))\<rparr>"
  by (simp add: lab_graph_def filter_map comp_def link_core_def)

lemma core_static:
  "map link_core ls' = map link_core ls
    \<Longrightarrow> map (\<lambda>l. (ls_id l, down l, ls_kind l, notInRun l)) ls' = map (\<lambda>l. (ls_id l, down l, ls_kind l, notInRun l)) ls"
  by (drule arg_cong [where f = "map (\<lambda>(i, _, _, k, d, _, x). (i, d, k, x))"]) (simp add: comp_def link_core_def)

lemma relay_route_cong:
  assumes "map link_core (lab_links t) = map link_core (lab_links s)" "lab_preset t = lab_preset s"
    "lab_downNodes t = lab_downNodes s" "lab_from t = lab_from s" "lab_to t = lab_to s"
  shows "relay_route t r \<longleftrightarrow> relay_route s r"
  using assms find_link_static [OF core_static [OF assms(1)]] by (simp add: relay_route_def lab_graph_core)

section \<open>Keys moved on the links\<close>

definition keys_moved :: "link_state list \<Rightarrow> link_state list \<Rightarrow> (string \<Rightarrow> int) \<Rightarrow> bool" where
  "keys_moved ls ls' f \<longleftrightarrow> (\<forall>i l. find_link ls i = Some l \<longrightarrow> (\<exists>l'. find_link ls' i = Some l' \<and> stored_keys l' = stored_keys l + f i))"

lemma keys_moved_refl: "keys_moved ls ls (\<lambda>i. 0)"
  by (simp add: keys_moved_def)

lemma keys_moved_trans: "keys_moved ls ls' f \<Longrightarrow> keys_moved ls' ls'' g \<Longrightarrow> keys_moved ls ls'' (\<lambda>i. f i + g i)"
  unfolding keys_moved_def by (fastforce simp: algebra_simps)

lemma keys_moved_relay:
  "distinct (linkIds r) \<Longrightarrow> keys_moved (lab_links s) (lab_links (relay_one p k r s)) (\<lambda>i. if i \<in> set (linkIds r) then - 1 else 0)"
  by (auto simp: keys_moved_def relay_one_links find_link_spend_on spend_key_def stored_keys_def)

subsection \<open>The refill loop\<close>

lemma relay_one_relay_route: "relay_route (relay_one p k r' s) r \<longleftrightarrow> relay_route s r"
  by (rule relay_route_cong) (simp_all add: relay_one_links spend_on_core)

lemma chooseRoute_relay_route: "relay_route (chooseRoute n s) r \<longleftrightarrow> relay_route s r"
  by (rule relay_route_cong) simp_all

lemma refill_loop_ledger:
  assumes "lab_wf s" "lab_ksid s = Some k" "km_synced k (lab_km s)" "lab_accounting s = Acc_keys" "refill_loop f p k s = (n, w, s')"
  shows "\<exists>rs. length rs = n \<and> (\<forall>r \<in> set rs. relay_route s r) \<and> keys_moved (lab_links s) (lab_links s') (\<lambda>i. - int (crossings rs i))"
  using assms
proof (induction f arbitrary: s n w s')
  case 0
  then show ?case by (auto simp: keys_moved_refl)
next
  case (Suc f)
  define s1 where "s1 = chooseRoute KEY_BITS s"
  have s1: "lab_wf s1" "lab_ksid s1 = Some k" "km_synced k (lab_km s1)" "lab_accounting s1 = Acc_keys"
    "lab_links s1 = lab_links s" "lab_km s1 = lab_km s"
    using Suc.prems chooseRoute_wf by (simp_all add: s1_def)
  show ?case
  proof (cases "undelivered k A (lab_km s) < LOW_WM \<and> (\<exists>r. lab_route s1 = Some r \<and> \<not> bits_or_0 (bottleneckBits r) < KEY_BITS)")
    case False
    with Suc.prems(5) have "n = 0 \<and> lab_links s' = lab_links s"
      by (auto simp: Let_def s1_def split: if_splits option.splits)
    then show ?thesis by (auto simp: keys_moved_refl)
  next
    case True
    then obtain r where r: "lab_route s1 = Some r" "\<not> bits_or_0 (bottleneckBits r) < KEY_BITS"
      and less: "undelivered k A (lab_km s) < LOW_WM" by blast
    have d: "distinct (map ls_id (lab_links s))" using Suc.prems(1) by (rule wf_distinct)
    have rr: "relay_route s r" using chosen_relay_route [OF d, of KEY_BITS r] r(1) by (simp add: s1_def)
    have hk: "\<forall>i \<in> set (linkIds r). \<exists>l. find_link (lab_links s) i = Some l \<and> 1 \<le> stored_keys l"
      using bottleneck_keys [OF d, of KEY_BITS r] r Suc.prems(4) by (simp add: s1_def)
    have dr: "distinct (linkIds r)" using rr by (simp add: relay_route_def)
    define s2 where "s2 = relay_one p k r s1"
    have s2: "lab_wf s2" "lab_ksid s2 = Some k" "km_synced k (lab_km s2)" "lab_accounting s2 = Acc_keys"
      using relay_one_wf [OF s1(1-3) _ dr] less hk s1 relay_one_km_ok [OF s1(3), where p = p and r = r] by (simp_all add: s2_def)
    obtain n' w' s3 where l: "refill_loop f p k s2 = (n', w', s3)" by (metis prod_cases3)
    have e: "n = Suc n'" "s' = s3" using Suc.prems(5) less r l by (simp_all flip: s1_def s2_def)
    from Suc.IH [OF s2 l] obtain rs where rs: "length rs = n'" "\<forall>r \<in> set rs. relay_route s2 r"
      "keys_moved (lab_links s2) (lab_links s3) (\<lambda>i. - int (crossings rs i))" by blast
    have same: "relay_route s2 q \<longleftrightarrow> relay_route s q" for q
      unfolding s2_def relay_one_relay_route s1_def chooseRoute_relay_route by (rule refl)
    have "keys_moved (lab_links s) (lab_links s2) (\<lambda>i. if i \<in> set (linkIds r) then - 1 else 0)"
      using keys_moved_relay [OF dr, of s1 p k] by (simp add: s2_def s1(5))
    from keys_moved_trans [OF this rs(3)] have "keys_moved (lab_links s) (lab_links s3) (\<lambda>i. - int (crossings (r # rs) i))"
      by (rule back_subst [where P = "keys_moved (lab_links s) (lab_links s3)"]) auto
    with rs rr same e show ?thesis by (intro exI [of _ "r # rs"]) simp
  qed
qed

subsection \<open>Generation\<close>

text \<open>
  What a link makes in one tick: the whole keys its carried credit and its rate come to, up to the low watermark; and
  nothing while it is down or already holds that many.
\<close>

definition made_on :: "lab \<Rightarrow> string \<Rightarrow> int" where
  "made_on s i = (case find_link (lab_links s) i of
     None \<Rightarrow> 0
   | Some l \<Rightarrow> (case (genBps l, storedKeys l) of
       (Some g, Some stored) \<Rightarrow>
         if ls_kind l = Qkd \<and> \<not> down l \<and> stored < LOW_WM
         then min \<lfloor>credit_of (lab_credit s) i + g * lab_tickS s / KEY_BITS\<rfloor> (LOW_WM - stored) else 0
     | _ \<Rightarrow> 0))"

lemma gen_link_other: "i \<noteq> ls_id l \<Longrightarrow> credit_of (fst (gen_link t cr l)) i = credit_of cr i"
  by (auto simp: gen_link_def Let_def credit_of_def map_of_update_iff split: option.splits)

lemma gen_link_keys:
  assumes "find_link (lab_links s) i = Some l" "credit_of cr i = credit_of (lab_credit s) i"
  shows "stored_keys (fst (snd (gen_link (lab_tickS s) cr l))) = stored_keys l + made_on s i"
proof -
  have i: "ls_id l = i" using find_link_Some [OF assms(1)] by simp
  have m: "keys_made c k = min \<lfloor>c\<rfloor> (LOW_WM - k)" for c k by (simp add: keys_made_def lab_consts)
  show ?thesis using assms i by (auto simp: gen_link_def made_on_def stored_keys_def m Let_def split: option.splits)
qed

lemma gen_links_moved:
  assumes "distinct (map ls_id ls)" "\<And>l. l \<in> set ls \<Longrightarrow> credit_of cr (ls_id l) = credit_of (lab_credit s) (ls_id l)"
    "\<And>l. l \<in> set ls \<Longrightarrow> find_link (lab_links s) (ls_id l) = Some l"
  shows "keys_moved ls (fst (snd (gen_links (lab_tickS s) cr ls))) (made_on s)"
  using assms
proof (induction ls arbitrary: cr)
  case (Cons l ls)
  obtain cr1 l1 made where g: "gen_link (lab_tickS s) cr l = (cr1, l1, made)" by (metis prod_cases3)
  obtain cr2 ls2 keys n where r: "gen_links (lab_tickS s) cr1 ls = (cr2, ls2, keys, n)" by (metis prod_cases4)
  have l1: "ls_id l1 = ls_id l" "stored_keys l1 = stored_keys l + made_on s (ls_id l)"
    using gen_link_id [of "lab_tickS s" cr l] gen_link_keys [of s "ls_id l" l cr] Cons.prems g by simp_all
  have "credit_of cr1 (ls_id m) = credit_of (lab_credit s) (ls_id m)" if "m \<in> set ls" for m
    using gen_link_other [of "ls_id m" l "lab_tickS s" cr] g Cons.prems that by (force simp: image_iff)
  with Cons.IH [of cr1] Cons.prems r have "keys_moved ls ls2 (made_on s)" by simp
  with l1 g r show ?case by (simp add: keys_moved_def find_link_def)
qed (simp add: keys_moved_def find_link_def)

lemma generate_stage_moved: "lab_wf s \<Longrightarrow> keys_moved (lab_links s) (lab_links (generate_stage s)) (made_on s)"
proof -
  assume wf: "lab_wf s"
  obtain cr ls keys n where g: "gen_links (lab_tickS s) (lab_credit s) (lab_links s) = (cr, ls, keys, n)" by (metis prod_cases4)
  then have "lab_links (generate_stage s) = ls" by (simp add: generate_stage_def generateKeys_def)
  with gen_links_moved [OF wf_distinct [OF wf], of "lab_credit s" s] find_link_in [OF wf_distinct [OF wf]] g show ?thesis by simp
qed

lemma generate_stage_keys: "stream_keys (generate_stage s) = stream_keys s"
proof -
  have "lab_km (generate_stage s) = lab_km s" "lab_ksid (generate_stage s) = lab_ksid s"
    by (simp_all add: generate_stage_def Let_def case_prod_unfold)
  then show ?thesis by (cases "lab_ksid s") (simp_all add: stream_keys_def)
qed

section \<open>The stream\<close>

text \<open>A stream just opened holds nothing.\<close>

definition no_chunks :: "km \<Rightarrow> bool" where
  "no_chunks km \<longleftrightarrow> (\<forall>(k, st) \<in> set km. chunks st = [] \<and> (\<forall>d. delivered_to st d = []))"

lemma no_chunks_update: "no_chunks km \<Longrightarrow> chunks st = [] \<Longrightarrow> (\<forall>d. delivered_to st d = []) \<Longrightarrow> no_chunks (AList.update k st km)"
  by (induction km) (auto simp: no_chunks_def)

lemma no_chunks_lookup: "no_chunks km \<Longrightarrow> map_of km k = Some st \<Longrightarrow> chunks st = [] \<and> (\<forall>d. delivered_to st d = [])"
  by (auto simp: no_chunks_def dest: map_of_SomeD)

lemma no_chunks_open: "no_chunks km \<Longrightarrow> no_chunks (snd (openConnect env d src dst q ko km))"
  by (auto simp: openConnect_def open_existing_def open_null_def new_stream_def dest: no_chunks_lookup
      intro!: no_chunks_update split: option.splits)

lemma no_chunks_undelivered: "no_chunks km \<Longrightarrow> undelivered k d km = 0"
  by (auto simp: undelivered_def dest: no_chunks_lookup split: option.splits)

lemma openStream_no_chunks: "no_chunks (lab_km s) \<Longrightarrow> no_chunks (lab_km (openStream p s))"
  by (auto simp: openStream_def Let_def case_prod_unfold intro!: no_chunks_open split: option.splits)

lemma stream_stage_keys:
  assumes "lab_wf s"
  shows "stream_keys (stream_stage p s) = stream_keys s"
proof (cases "is_established s")
  case True
  then show ?thesis by (simp add: stream_stage_def stream_keys_def split: option.splits)
next
  case False
  then have km: "lab_km s = []"
    using assms not_established_empty [of "lab_ksid s" "lab_km s"] by (simp add: is_established_def lab_wf_def)
  then have "no_chunks (lab_km (openStream p s))" by (intro openStream_no_chunks) (simp add: no_chunks_def)
  moreover have "stream_keys s = 0" using km by (simp add: stream_keys_def undelivered_def split: option.splits)
  ultimately show ?thesis using False
    by (simp add: stream_stage_def stream_keys_def no_chunks_undelivered split: option.splits)
qed

lemma relay_stage_ledger:
  assumes wf: "lab_wf s" and acc: "lab_accounting s = Acc_keys"
  shows "\<exists>rs. length rs \<le> nat LOW_WM \<and> (\<forall>r \<in> set rs. relay_route s r)
    \<and> keys_moved (lab_links s) (lab_links (relay_stage p s)) (\<lambda>i. - int (crossings rs i))
    \<and> stream_keys (relay_stage p s) = stream_keys s + int (length rs)"
proof -
  let ?s1 = "traceRoute (chooseRoute KEY_BITS s)"
  have w1: "lab_wf ?s1" by (intro trace_wf chooseRoute_wf wf)
  obtain m w s2 where r: "refillStream p ?s1 = (m, w, s2)" by (metis prod_cases3)
  have e: "lab_links (relay_stage p s) = lab_links s2" "stream_keys (relay_stage p s) = stream_keys s2"
    by (simp_all add: relay_stage_def r stream_keys_def split: option.splits)
  have same: "relay_route ?s1 q \<longleftrightarrow> relay_route s q" for q by (rule relay_route_cong) simp_all
  have keep: "stream_keys ?s1 = stream_keys s" "lab_links ?s1 = lab_links s" by (simp_all add: stream_keys_def split: option.splits)
  show ?thesis
  proof (cases "lab_ksid ?s1 = None \<or> \<not> isEstablished (lab_ksid ?s1) (lab_km ?s1) \<or> lab_route ?s1 = None")
    case True
    then have "s2 = ?s1" using r by (auto simp: refillStream_def split: option.splits)
    then show ?thesis using e keep by (intro exI [of _ "[]"]) (simp add: keys_moved_refl)
  next
    case False
    then obtain k where k: "lab_ksid ?s1 = Some k" "km_synced k (lab_km ?s1)" "undelivered k A (lab_km ?s1) \<le> LOW_WM"
      using stream_ok_synced [of "lab_ksid ?s1" "lab_km ?s1"] w1 by (auto simp: lab_wf_def)
    obtain n' w' s3 where l: "refill_loop (nat LOW_WM) p k ?s1 = (n', w', s3)" by (metis prod_cases3)
    have e2: "s2 = log_refill n' w' s3" using False k(1) l r by (auto simp: refillStream_def)
    have a1: "lab_accounting ?s1 = Acc_keys" using acc by simp
    have u0: "0 \<le> undelivered k A (lab_km ?s1)" using km_synced_pending [OF k(2)] by linarith
    then have "LOW_WM \<le> undelivered k A (lab_km ?s1) + int (nat LOW_WM)" by (simp add: LOW_WM_def)
    note sp = refill_loop_spec [OF w1 k(1,2) a1 this l]
    from refill_loop_ledger [OF w1 k(1,2) a1 l] obtain rs where rs: "length rs = n'" "\<forall>r \<in> set rs. relay_route ?s1 r"
      "keys_moved (lab_links ?s1) (lab_links s3) (\<lambda>i. - int (crossings rs i))" by blast
    have "undelivered k A (lab_km s3) \<le> LOW_WM" using sp by (auto simp: lab_wf_def stream_ok_def undelivered_def LOW_WM_def)
    then have "n' \<le> nat LOW_WM" using sp u0 by linarith
    moreover have "stream_keys s2 = stream_keys s + int n'"
      using sp k(1) keep(1) by (simp add: e2 stream_keys_def)
    moreover have "lab_links s2 = lab_links s3" by (simp add: e2)
    ultimately show ?thesis using rs e same keep(2) by (intro exI [of _ rs]) simp
  qed
qed

section \<open>A whole tick\<close>

lemma stage_demand:
  "lab_from (stream_stage p (generate_stage s)) = lab_from s" "lab_to (stream_stage p (generate_stage s)) = lab_to s"
  by (simp_all add: generate_stage_def stream_stage_def Let_def case_prod_unfold)

lemma stream_keys_finish: "stream_keys (finish_tick now dw ev d u s) = stream_keys s"
  "stream_keys (trace_deliver_keys r s) = stream_keys s"
  by (auto simp: stream_keys_def split: option.splits)

lemma made_on_begin: "made_on (begin_tick now s) = made_on s" "stream_keys (begin_tick now s) = stream_keys s"
  by (auto simp: made_on_def stream_keys_def begin_tick_def fun_eq_iff split: option.splits)

text \<open>
  A tick in the keys accounting: the routes relayed over, the keys each link gains and gives, and the requests
  served out of what the stream then holds.
\<close>

definition tick_ledger :: "lab \<Rightarrow> route_choice list \<Rightarrow> nat \<Rightarrow> lab \<Rightarrow> bool" where
  "tick_ledger s rs served s' \<longleftrightarrow>
     length rs \<le> nat LOW_WM \<and> (\<forall>r \<in> set rs. relay_route s r)
     \<and> keys_moved (lab_links s) (lab_links s') (\<lambda>i. made_on s i - int (crossings rs i))
     \<and> served = (if lab_route s' = None then 0 else min (due_requests s) (nat (stream_keys s + int (length rs))))
     \<and> stream_keys s' = stream_keys s + int (length rs) - int served"

lemma advance_keys_ledger:
  assumes p: "platform_ok p" and wf: "lab_wf s" and acc: "lab_accounting s = Acc_keys"
    and adv: "advance_keys p s = (d, u, s')"
  shows "\<exists>rs served. tick_ledger s rs served s' \<and> d = of_nat served * KEY_BITS \<and> u = of_nat (due_requests s - served) * KEY_BITS
    \<and> lab_ok s' = lab_ok s + of_nat served \<and> lab_failed s' = lab_failed s + of_nat (due_requests s - served)"
proof -
  let ?s1 = "generate_stage s" let ?s2 = "stream_stage p ?s1" let ?s3 = "relay_stage p ?s2"
  obtain cr s4 where c: "consumeStream p ?s3 = (cr, s4)" by fastforce
  have e: "d = cs_delivered cr" "u = cs_unmet cr" "s' = trace_deliver_keys cr s4" and s4: "s4 = snd (consumeStream p ?s3)"
    using adv c by (simp_all add: advance_keys_def)
  have w1: "lab_wf ?s1" using generate_stage_spec [OF wf] by blast
  then have w2: "lab_wf ?s2" using stream_stage_spec [OF p, of ?s1] by blast
  have a2: "lab_accounting ?s2 = Acc_keys" using acc by simp
  have w3: "lab_wf ?s3" using relay_stage_spec [OF w2 a2, of p] by blast
  note cs = consumeStream_spec [OF w3 c]
  have "lab_rest ?s2 = lab_rest s" by (simp add: rest_stages)
  then have same: "relay_route ?s2 q \<longleftrightarrow> relay_route s q" for q
    by (intro relay_route_cong) (simp_all add: stream_stage_core generate_core lab_rest_def stage_demand)
  have k2: "stream_keys ?s2 = stream_keys s"
    using stream_stage_keys [OF w1, of p] by (simp add: generate_stage_keys)
  from relay_stage_ledger [OF w2 a2, of p] same k2 obtain rs where rs: "length rs \<le> nat LOW_WM" "\<forall>r \<in> set rs. relay_route s r"
    "keys_moved (lab_links ?s2) (lab_links ?s3) (\<lambda>i. - int (crossings rs i))" "stream_keys ?s3 = stream_keys s + int (length rs)"
    by auto
  have links: "lab_links s' = lab_links ?s3" "stream_keys s' = stream_keys s4" "lab_route s' = lab_route ?s3"
    by (simp_all add: e s4 stream_keys_finish)
  have due: "due_requests ?s3 = due_requests s" by (simp add: due_requests_def)
  have "keys_moved (lab_links s) (lab_links s') (\<lambda>i. made_on s i + - int (crossings rs i))"
    using keys_moved_trans [OF generate_stage_moved [OF wf]] rs(3) by (simp only: links stream_stage_core)
  moreover have "cs_served cr = (if lab_route s' = None then 0 else min (due_requests s) (nat (stream_keys s + int (length rs))))"
    using cs rs(4) by (simp add: due pending_stream_keys links(3))
  ultimately have "tick_ledger s rs (cs_served cr) s'"
    using rs cs by (simp add: tick_ledger_def links(2))
  then show ?thesis using cs due e by (intro exI [of _ rs] exI [of _ "cs_served cr"]) simp
qed

lemma tick_ledger_advance:
  assumes p: "platform_ok p" and wf: "lab_wf s" and acc: "lab_accounting s = Acc_keys"
  shows "\<exists>rs served. tick_ledger s rs served (advance p now s)
    \<and> lab_ok (advance p now s) = lab_ok s + of_nat served
    \<and> lab_failed (advance p now s) = lab_failed s + of_nat (due_requests s - served)
    \<and> lab_delivered (advance p now s) = lab_delivered s + of_nat served * KEY_BITS
    \<and> lab_unmet (advance p now s) = lab_unmet s + of_nat (due_requests s - served) * KEY_BITS"
proof -
  obtain d u s1 where m: "advance_mode p (begin_tick now s) = (d, u, s1)"
    and e: "advance p now s = finish_tick now (map_option (\<lambda>t. now - t) (lab_lastTickStart s)) (lab_pendingEvent s) d u s1"
    by (rule advance_parts)
  have "advance_keys p (begin_tick now s) = (d, u, s1)" using m acc by (simp add: advance_mode_def)
  from advance_keys_ledger [OF p begin_tick_wf [OF wf] _ this] acc obtain rs served where
    l: "tick_ledger (begin_tick now s) rs served s1" "d = of_nat served * KEY_BITS" "u = of_nat (due_requests s - served) * KEY_BITS"
    "lab_ok s1 = lab_ok s + of_nat served" "lab_failed s1 = lab_failed s + of_nat (due_requests s - served)"
    by auto
  have same: "relay_route (begin_tick now s) q \<longleftrightarrow> relay_route s q" for q
    by (rule relay_route_cong) (simp_all add: begin_tick_def)
  have "tick_ledger s rs served (advance p now s)"
    using l(1) by (simp add: e tick_ledger_def made_on_begin same stream_keys_finish)
  moreover have "lab_delivered s1 = lab_delivered s" "lab_unmet s1 = lab_unmet s"
    using advance_mode_frame(5,6) [of p "begin_tick now s"] m by simp_all
  ultimately show ?thesis using l by (intro exI [of _ rs] exI [of _ served]) (simp add: e)
qed

end
