(* ===== verification/Lab_Claims.thy ===== *)
theory Lab_Claims
  imports Lab_Ledger
begin

text \<open>
  The properties of the Protocol Lab simulator: what holds in every state a run reaches, and what one
  tick does in each accounting. Their witnesses run the simulator on the published networks with a
  concrete source of randomness.
\<close>

definition demo_platform :: platform where
  "demo_platform = \<lparr>pf_random = demo_tape, pf_ksid = (\<lambda>i. ''stream-'' @ replicate i (CHR ''i''))\<rparr>"

lemma demo_platform_ok: "platform_ok demo_platform"
  by (simp add: platform_ok_def demo_platform_def tape_ok_def demo_tape_def)

text \<open>A run of the page: the default preset, one tick.\<close>

definition demo_lab :: lab where
  "demo_lab = after_load demo_platform (loaded cambridge None None (lab_blank (demo_seeds 0) None))"

lemma cambridge_listed: "cambridge \<in> set PRESETS" "p_id cambridge = ''cambridge-2019''"
  by (simp_all add: PRESETS_def) (simp add: cambridge_def)

lemma demo_new: "lab_new demo_platform (demo_seeds 0) None None = Some demo_lab"
  using load_same [OF cambridge_listed(1), of None demo_platform None "lab_blank (demo_seeds 0) None"]
  by (simp add: lab_new_def demo_lab_def cambridge_listed(2))

lemma demo_reach: "lab_reach demo_platform demo_lab"
  by (rule reach_new [OF demo_new])

lemma demo_tick_reach: "lab_reach demo_platform (lab_step demo_platform 0 demo_lab)"
  by (rule reach_do [OF demo_reach, of "Do_step 0"]) simp

lemma demo_keys: "lab_accounting demo_lab = Acc_keys" "lab_status demo_lab = Idle" "lab_tickN demo_lab = 0"
  by (simp_all add: demo_lab_def after_load_def Let_def loaded_def cambridge_def lab_blank_def clearKeyMaterial_def)

text \<open>The route it starts with, evaluated.\<close>

definition demo_links :: "link_state list" where
  "demo_links = map (init_link Acc_keys None) (p_links cambridge)"

definition select_on :: "topology_preset \<Rightarrow> link_state list \<Rightarrow> accounting \<Rightarrow> rat \<Rightarrow> rat \<Rightarrow> string \<Rightarrow> string
    \<Rightarrow> string list option \<Rightarrow> selection" where
  "select_on pr ls acc t n src dst pref = selectRoute \<lparr>g_nodes = map n_id (p_nodes pr),
       g_links = map (\<lambda>l. \<lparr>gl_id = ls_id l, gl_a = ls_a l, gl_b = ls_b l\<rparr>) (filter (\<lambda>l. ls_kind l = Qkd \<and> \<not> notInRun l) ls)\<rparr>
     src dst
     (\<lambda>i. case find_link ls i of
        None \<Rightarrow> \<lparr>up = False, usable = False, view_why = None, availableBits = None, rateBps = None\<rparr>
      | Some l \<Rightarrow> view_of acc t n l) [] pref"

lemma lab_select_on:
  "lab_downNodes s = [] \<Longrightarrow> lab_select n s = select_on (lab_preset s) (lab_links s) (lab_accounting s) (lab_tickS s) n
     (lab_from s) (lab_to s) (lab_preferred s)"
  by (simp add: lab_select_def lab_graph_def lab_view_def [abs_def] select_on_def)

lemma cambridge_facts: "p_freePlay cambridge = FP_keys" "p_defaultDemand cambridge = (''TREL'', ''CAPE'')"
  by (simp_all add: cambridge_def)

lemma demo_select:
  "lab_select KEY_BITS (loaded cambridge None None s) = select_on cambridge demo_links Acc_keys 1 256 ''TREL'' ''CAPE'' None"
  by (subst lab_select_on)
    (simp_all add: loaded_def Let_def lab_preferred_def KEY_BITS_def FREE_PLAY_TICK_S_def demo_links_def cambridge_facts)

lemma demo_chosen:
  "map_option (\<lambda>r. (route_nodes r, linkIds r)) (chosen (select_on cambridge demo_links Acc_keys 1 256 ''TREL'' ''CAPE'' None))
     = Some ([''TREL'', ''CAPE''], [''CAPE-TREL''])"
  by code_simp

lemma demo_route: "map_option (\<lambda>r. (route_nodes r, linkIds r)) (lab_route demo_lab) = Some ([''TREL'', ''CAPE''], [''CAPE-TREL''])"
proof -
  have n: "lab_route (loaded cambridge None None s) = None" for s by (simp add: loaded_def Let_def)
  have "lab_route demo_lab = chosen (lab_select KEY_BITS (loaded cambridge None None (lab_blank (demo_seeds 0) None)))"
    by (simp add: demo_lab_def after_load_def Let_def chooseRoute_route n sticky_def split: option.splits)
  then show ?thesis using demo_chosen by (simp only: demo_select)
qed

section \<open>In every reachable state\<close>

text \<open>
  C9. The state of the simulator is always sound: whatever sequence of controls, failures and timer
  callbacks is applied after construction, no link holds more keys than its fill mark or fewer than none,
  no store is below its threshold, the service buffer stays within its capacity, the stream holds at most
  eight undelivered keys and both of its ends are in step, the demand credit is a fraction of a request,
  the logs keep their limits, and the loop's timer is set only while the run is running.
\<close>

theorem lab_state_sound:
  assumes "platform_ok p" "lab_reach p s"
  shows "(\<forall>l \<in> set (lab_links s). (\<forall>k. storedKeys l = Some k \<longrightarrow> 0 \<le> k \<and> k \<le> LOW_WM)
      \<and> (\<forall>b th. storedBits l = Some b \<longrightarrow> thresholdBits l = Some th \<longrightarrow> th \<le> b))
    \<and> (\<forall>svc. lab_service s = Some svc \<longrightarrow> 0 \<le> sv_stored svc \<and> sv_stored svc \<le> sv_capacity svc)
    \<and> (\<forall>k. lab_ksid s = Some k \<longrightarrow> lab_km s \<noteq> [] \<longrightarrow> km_synced k (lab_km s) \<and> undelivered k A (lab_km s) \<le> LOW_WM)
    \<and> 0 \<le> lab_demandCredit s \<and> lab_demandCredit s < 1
    \<and> length (lab_messages s) \<le> MESSAGE_LIMIT \<and> length (lab_history s) \<le> HISTORY_LIMIT \<and> length (lab_reroutes s) \<le> HISTORY_LIMIT
    \<and> (lab_timer s \<longrightarrow> lab_status s = Running)"
proof -
  have wf: "lab_wf s" using assms lab_reach_wf by blast
  then have "\<forall>l \<in> set (lab_links s). link_ok l" "service_ok (lab_service s)" "stream_ok (lab_ksid s) (lab_km s)"
    "logs_ok (lab_messages s) (lab_history s) (lab_reroutes s)" "clock_ok (lab_demandCredit s) (lab_tickS s) (lab_keysPerS s)"
    "loop_ok (lab_timer s) (lab_status s)"
    by (simp_all add: lab_wf_def links_ok_def)
  then show ?thesis
    by (auto simp: link_ok_def service_ok_def stream_ok_def logs_ok_def clock_ok_def loop_ok_def)
qed

theorem lab_state_sound_witness:
  "0 \<le> lab_demandCredit (lab_step demo_platform 0 demo_lab) \<and> length (lab_history (lab_step demo_platform 0 demo_lab)) \<le> HISTORY_LIMIT"
  using lab_state_sound [OF demo_platform_ok demo_tick_reach] by simp

text \<open>
  The route in use never crosses a failure: in every reachable state each link of the current route is
  up, is a QKD link and is part of the run, no node of the route is down, and the route uses no link twice.
\<close>

theorem lab_route_up:
  assumes "platform_ok p" "lab_reach p s" "lab_route s = Some r" "i \<in> set (linkIds r)"
  shows "\<exists>l. find_link (lab_links s) i = Some l \<and> \<not> down l \<and> downReason l = None \<and> ls_kind l = Qkd \<and> \<not> notInRun l
    \<and> ls_a l \<notin> set (lab_downNodes s) \<and> ls_b l \<notin> set (lab_downNodes s)
    \<and> set (route_nodes r) \<inter> set (lab_downNodes s) = {} \<and> distinct (linkIds r) \<and> hops r = length (linkIds r)"
proof -
  have "route_ok (lab_links s) (lab_downNodes s) (lab_route s)"
    using lab_reach_wf [OF assms(2,1)] by (simp add: lab_wf_def)
  with assms(3,4) obtain l where l: "find_link (lab_links s) i = Some l" "\<not> down l" "ls_kind l = Qkd" "\<not> notInRun l"
    and r: "set (route_nodes r) \<inter> set (lab_downNodes s) = {}" "distinct (linkIds r)" "hops r = length (linkIds r)"
    by (auto simp: route_ok_def)
  have "failure_ok (lab_downNodes s) l"
    using lab_reach_failures [OF assms(2)] find_link_Some [OF l(1)] by (auto simp: failures_ok_def list_all_iff)
  with l r show ?thesis by (auto simp: failure_ok_def end_down_def)
qed

theorem lab_route_up_witness:
  "\<exists>l. find_link (lab_links demo_lab) ''CAPE-TREL'' = Some l \<and> \<not> down l \<and> ls_a l \<notin> set (lab_downNodes demo_lab)"
proof -
  obtain r where "lab_route demo_lab = Some r" "linkIds r = [''CAPE-TREL'']" using demo_route by auto
  with lab_route_up [OF demo_platform_ok demo_reach, of r "''CAPE-TREL''"] show ?thesis by auto
qed

text \<open>
  C13. Failures are booked consistently: in every reachable state a link is down exactly when it carries a
  reason, every link at a failed node is down, and a link is down because of a node only while one of its
  two ends is failed.
\<close>

theorem lab_failures_booked:
  assumes "lab_reach p s" "l \<in> set (lab_links s)"
  shows "(down l \<longleftrightarrow> downReason l \<noteq> None)
    \<and> (ls_a l \<in> set (lab_downNodes s) \<or> ls_b l \<in> set (lab_downNodes s) \<longrightarrow> down l)
    \<and> (downReason l = Some D_node_down \<longrightarrow> ls_a l \<in> set (lab_downNodes s) \<or> ls_b l \<in> set (lab_downNodes s))"
  using lab_reach_failures [OF assms(1)] assms(2) by (auto simp: failures_ok_def failure_ok_def end_down_def list_all_iff)

theorem lab_failures_booked_witness:
  "list_all down (filter (\<lambda>l. ls_a l = ''ENGI'') (lab_links (injectFailure (Node_target ''ENGI'') demo_lab)))"
proof -
  let ?s = "injectFailure (Node_target ''ENGI'') demo_lab"
  have r: "lab_reach demo_platform ?s"
    by (rule reach_do [OF demo_reach, of "Do_inject (Node_target ''ENGI'')"]) simp
  have n: "''ENGI'' \<in> set (lab_downNodes ?s)" by simp
  have "down l" if l: "l \<in> set (lab_links ?s)" and a: "ls_a l = ''ENGI''" for l
    by (rule mp [OF conjunct1 [OF conjunct2 [OF lab_failures_booked [OF r l]]] disjI1]) (simp only: a n)
  then show ?thesis by (simp only: list_all_iff set_filter mem_Collect_eq) blast
qed

text \<open>
  Delivered and unmet bits are the requests served and refused: wherever the page counts requests, the
  delivered bits are 256 times the requests served and the unmet bits 256 times those that failed.
\<close>

theorem lab_totals_agree:
  assumes "platform_ok p" "lab_reach p s" "countsRequests (lab_accounting s)"
  shows "lab_delivered s = lab_ok s * KEY_BITS \<and> lab_unmet s = lab_failed s * KEY_BITS"
  using lab_reach_totals [OF assms(2,1)] assms(3) by (simp add: totals_ok_def)

theorem lab_totals_agree_witness:
  "lab_delivered (lab_step demo_platform 0 demo_lab) = lab_ok (lab_step demo_platform 0 demo_lab) * KEY_BITS"
proof -
  have "countsRequests (lab_accounting (lab_step demo_platform 0 demo_lab))"
    by (simp add: lab_step_def Let_def demo_keys countsRequests_def)
  with lab_totals_agree [OF demo_platform_ok demo_tick_reach] show ?thesis by blast
qed

text \<open>
  Reset and a change of demand never throw: the preset and scenario of a reachable state are always
  listed and belong together, so loading them again succeeds.
\<close>

theorem lab_reload_never_throws:
  assumes "platform_ok p" "lab_reach p s"
  shows "lab_reset p s \<noteq> None \<and> setDemand p src dst v s \<noteq> None"
  using reset_defined setDemand_defined lab_reach_wf [OF assms(2,1)] by blast

theorem lab_reload_never_throws_witness:
  "lab_reset demo_platform (lab_step demo_platform 0 demo_lab) \<noteq> None"
  using lab_reload_never_throws [OF demo_platform_ok demo_tick_reach] by blast

section \<open>One tick\<close>

text \<open>A published scenario, loaded on the page.\<close>

definition demo_scenario :: "topology_preset \<Rightarrow> scenario \<Rightarrow> lab" where
  "demo_scenario pr sc = after_load demo_platform (loaded pr (Some sc) None ((stopLoop demo_lab)\<lparr>lab_status := Idle\<rparr>))"

lemma demo_scenario_reach:
  assumes "pr \<in> set PRESETS" "sc \<in> set SCENARIOS" "s_presetId sc = p_id pr"
  shows "lab_reach demo_platform (demo_scenario pr sc)"
proof (rule reach_do [OF demo_reach])
  show "lab_do demo_platform (Do_loadPreset (p_id pr) (Some (s_id sc))) demo_lab = Some (demo_scenario pr sc)"
    using load_same [of pr "Some sc"] assms by (simp add: loadPreset_def demo_scenario_def)
qed

lemma secoqc_listed: "secoqc \<in> set PRESETS" "secoqcReroute \<in> set SCENARIOS" "s_presetId secoqcReroute = p_id secoqc"
  by (simp_all add: PRESETS_def SCENARIOS_def) (simp add: secoqc_def secoqcReroute_def)

lemma cambridge_scenario_listed: "cambridgeReroute \<in> set SCENARIOS" "s_presetId cambridgeReroute = p_id cambridge"
  by (simp_all add: SCENARIOS_def) (simp add: cambridge_def cambridgeReroute_def)

lemma demo_scenario_fields:
  "lab_accounting (demo_scenario pr sc) = scenario_accounting sc" "lab_scenario (demo_scenario pr sc) = Some sc"
  "lab_status (demo_scenario pr sc) = Idle"
  by (simp_all add: demo_scenario_def after_load_def Let_def loaded_def clearKeyMaterial_def)

text \<open>
  C10. A tick of free play accounts for every key, link by link. There are at most eight relays, each over a
  simple path from the demand's source to its destination that uses only live QKD links; every link's store
  changes by the whole keys it made in the tick (what its credit and its rate come to, up to the low watermark;
  nothing on a link that is down) less one key for each relay that crosses it; and the stream gains one key per
  relay. Without a route no request is served; with one, exactly as many of the requests due are served as the
  stream then holds keys, each takes one key out of it and counts as 256 delivered bits, and every other request
  fails and counts as 256 unmet bits.
\<close>

theorem lab_tick_keys:
  assumes "platform_ok p" "lab_reach p s" "lab_accounting s = Acc_keys" "s' = advance p now s"
  shows "\<exists>rs served. length rs \<le> nat LOW_WM \<and> (\<forall>r \<in> set rs. relay_route s r)
    \<and> (\<forall>i l. find_link (lab_links s) i = Some l \<longrightarrow>
        (\<exists>l'. find_link (lab_links s') i = Some l' \<and> stored_keys l' = stored_keys l + (made_on s i - int (crossings rs i))))
    \<and> served = (if lab_route s' = None then 0 else min (due_requests s) (nat (stream_keys s + int (length rs))))
    \<and> stream_keys s' = stream_keys s + int (length rs) - int served
    \<and> lab_ok s' = lab_ok s + of_nat served
    \<and> lab_failed s' = lab_failed s + of_nat (due_requests s - served)
    \<and> lab_delivered s' = lab_delivered s + of_nat served * KEY_BITS
    \<and> lab_unmet s' = lab_unmet s + of_nat (due_requests s - served) * KEY_BITS"
  using tick_ledger_advance [OF assms(1) lab_reach_wf [OF assms(2,1)] assms(3), of now]
  unfolding assms(4) tick_ledger_def keys_moved_def by blast

theorem lab_tick_keys_witness:
  "\<exists>rs served. (\<forall>r \<in> set rs. relay_route demo_lab r)
    \<and> stream_keys (advance demo_platform 0 demo_lab) = stream_keys demo_lab + int (length rs) - int served
    \<and> lab_ok (advance demo_platform 0 demo_lab) = lab_ok demo_lab + of_nat served"
  using lab_tick_keys [OF demo_platform_ok demo_reach demo_keys(1) refl, of 0] by blast

text \<open>
  C11. The refill loop always ends within eight relays, and for one of its three reasons: the stream holds
  eight undelivered keys, no route is left, or some hop of the chosen route has less than one key. Every
  relayed key raises the undelivered keys by one, and is carried over a simple path of live QKD links from source
  to destination: each link's store falls by exactly the number of relayed keys whose path crosses it, one key on
  every hop and none anywhere else. The stream stays in step on both ends.
\<close>

theorem refill_loop_ends:
  assumes "platform_ok p" "lab_reach p s" "lab_accounting s = Acc_keys" "lab_ksid s = Some k" "lab_km s \<noteq> []"
    and "refill_loop (nat LOW_WM) p k s = (n, w, s')"
  shows "refill_exit k s' w \<and> n \<le> nat LOW_WM \<and> km_synced k (lab_km s')
    \<and> undelivered k A (lab_km s') = undelivered k A (lab_km s) + int n
    \<and> (\<exists>rs. length rs = n \<and> (\<forall>r \<in> set rs. relay_route s r)
        \<and> (\<forall>i l. find_link (lab_links s) i = Some l \<longrightarrow>
            (\<exists>l'. find_link (lab_links s') i = Some l' \<and> stored_keys l' = stored_keys l - int (crossings rs i))))"
proof -
  have wf: "lab_wf s" using lab_reach_wf [OF assms(2,1)] .
  then have k: "km_synced k (lab_km s)" using assms(4,5) by (auto simp: lab_wf_def stream_ok_def)
  have u: "0 \<le> undelivered k A (lab_km s)" using km_synced_pending [OF k] by linarith
  then have "LOW_WM \<le> undelivered k A (lab_km s) + int (nat LOW_WM)" by (simp add: LOW_WM_def)
  from refill_loop_spec [OF wf assms(4) k assms(3) this assms(6)]
  have sp: "lab_wf s'" "km_synced k (lab_km s')" "lab_ksid s' = Some k"
    "undelivered k A (lab_km s') = undelivered k A (lab_km s) + int n" "refill_exit k s' w"
    by simp_all
  then have "undelivered k A (lab_km s') \<le> LOW_WM" by (auto simp: lab_wf_def stream_ok_def undelivered_def LOW_WM_def)
  then have "n \<le> nat LOW_WM" using sp(4) u by linarith
  with sp refill_loop_ledger [OF wf assms(4) k assms(3,6)] show ?thesis by (simp add: keys_moved_def)
qed

lemma demo_stream: "\<exists>k. lab_ksid demo_lab = Some k \<and> lab_km demo_lab \<noteq> []"
proof -
  let ?s = "chooseRoute KEY_BITS (loaded cambridge None None (lab_blank (demo_seeds 0) None))"
  have e: "demo_lab = openStream demo_platform ?s"
    by (simp add: demo_lab_def after_load_def Let_def) (simp add: loaded_def Let_def cambridge_facts)
  have w: "lab_wf ?s"
    by (intro chooseRoute_wf loaded_wf cambridge_listed(1)) (simp_all add: loop_ok_def)
  have "lab_km ?s = []" by (simp add: loaded_def Let_def)
  note o = openStream_spec [OF demo_platform_ok w this]
  have "lab_route ?s \<noteq> None" using demo_route unfolding e by auto
  moreover have "lab_from ?s \<noteq> lab_to ?s" by (simp add: loaded_def Let_def cambridge_facts)
  ultimately have "is_established demo_lab" using o unfolding e by blast
  then show ?thesis by (auto simp: is_established_def isEstablished_def)
qed

theorem refill_loop_ends_witness:
  "\<exists>k n w s'. refill_loop (nat LOW_WM) demo_platform k demo_lab = (n, w, s') \<and> refill_exit k s' w \<and> n \<le> nat LOW_WM"
proof -
  obtain k where k: "lab_ksid demo_lab = Some k" "lab_km demo_lab \<noteq> []" using demo_stream by blast
  obtain n w s' where r: "refill_loop (nat LOW_WM) demo_platform k demo_lab = (n, w, s')" by (metis prod_cases3)
  with refill_loop_ends [OF demo_platform_ok demo_reach demo_keys(1) k r] show ?thesis by blast
qed

text \<open>
  Consuming the stream: of the requests due, exactly as many are served as the stream holds undelivered
  keys (none without a route), each served request is booked as 256 bits, and every other one as failed.
\<close>

theorem consume_serves_pending:
  assumes "platform_ok p" "lab_reach p s" "consumeStream p s = (r, s')"
  shows "cs_requested r = due_requests s \<and> cs_served r = min (due_requests s) (pending_keys s)
    \<and> cs_delivered r = of_nat (cs_served r) * KEY_BITS \<and> cs_unmet r = of_nat (due_requests s - cs_served r) * KEY_BITS
    \<and> lab_ok s' = lab_ok s + of_nat (cs_served r) \<and> lab_failed s' = lab_failed s + of_nat (due_requests s - cs_served r)"
  using consumeStream_spec [OF lab_reach_wf [OF assms(2,1)] assms(3)] by blast

theorem consume_serves_pending_witness:
  "cs_served (fst (consumeStream demo_platform demo_lab)) = min (due_requests demo_lab) (pending_keys demo_lab)"
proof -
  obtain r s' where "consumeStream demo_platform demo_lab = (r, s')" by fastforce
  with consume_serves_pending [OF demo_platform_ok demo_reach this] show ?thesis by simp
qed

lemma hop_carry_length: "length (hop_carry c pd) = min (length c) (length pd)"
  by (simp add: hop_carry_def)

lemma carry_all:
  "(\<And>pd. pd \<in> set pads \<Longrightarrow> length pd = length key) \<Longrightarrow> foldl hop_carry key pads = key"
proof (induction pads)
  case (Cons pd pads)
  have "hop_carry key pd = key" using Cons.prems [of pd] by (simp add: hop_carry_def map2_xor_cancel)
  with Cons show ?case by simp
qed simp

text \<open>
  C12. The hop-by-hop relay delivers the key it was given: over any route, encrypting with each hop's pad and
  decrypting at the next node gives back the 32 random bytes, so the relay record always says equal, with one
  pad per hop, and the prefixes shown are those of the bytes used.
\<close>

theorem relay_recovers_key:
  assumes "platform_ok p"
  shows "\<exists>pads. relaySample p s = (pf_random p (lab_draws s) KEY_BYTES, s\<lparr>lab_draws := Suc (lab_draws s) + length pads,
      lab_lastRelay := Some \<lparr>re_hops = length pads, re_key_prefix = take PREFIX_HEX (toHex (pf_random p (lab_draws s) KEY_BYTES)),
        re_pad_prefixes = map (\<lambda>pd. take PREFIX_HEX (toHex pd)) pads, re_equal = True\<rparr>\<rparr>)
    \<and> length pads = (case lab_route s of None \<Rightarrow> 0 | Some r \<Rightarrow> hops r)
    \<and> foldl hop_carry (pf_random p (lab_draws s) KEY_BYTES) pads = pf_random p (lab_draws s) KEY_BYTES"
proof -
  define h where "h = (case lab_route s of None \<Rightarrow> 0 | Some r \<Rightarrow> hops r)"
  define key where "key = pf_random p (lab_draws s) KEY_BYTES"
  define pads where "pads = map (\<lambda>i. pf_random p (Suc (lab_draws s) + i) KEY_BYTES) [0..<h]"
  have t: "tape_ok (pf_random p)" using assms by (simp add: platform_ok_def)
  have c: "foldl hop_carry key pads = key"
    by (rule carry_all) (auto simp: pads_def key_def t)
  have eq: "list_all (\<lambda>i. js_index key (int i) = Some (key ! i)) [0..<length key]"
    by (auto simp: list_all_iff js_index_def)
  have len: "length pads = h" by (simp add: pads_def)
  have "relaySample p s = (key, s\<lparr>lab_draws := Suc (lab_draws s) + h,
           lab_lastRelay := Some \<lparr>re_hops = h, re_key_prefix = take PREFIX_HEX (toHex key),
             re_pad_prefixes = map (\<lambda>pd. take PREFIX_HEX (toHex pd)) pads,
             re_equal = list_all (\<lambda>i. js_index key (int i) = Some (foldl hop_carry key pads ! i))
               [0..<length (foldl hop_carry key pads)]\<rparr>\<rparr>)"
    unfolding relaySample_def Let_def h_def key_def pads_def by (rule refl)
  then have "relaySample p s = (key, s\<lparr>lab_draws := Suc (lab_draws s) + h,
           lab_lastRelay := Some \<lparr>re_hops = h, re_key_prefix = take PREFIX_HEX (toHex key),
             re_pad_prefixes = map (\<lambda>pd. take PREFIX_HEX (toHex pd)) pads, re_equal = True\<rparr>\<rparr>)"
    unfolding c eq [THEN eqTrueI] .
  then show ?thesis unfolding key_def [symmetric] h_def [symmetric] using c len by blast
qed

theorem relay_recovers_key_witness:
  "\<exists>r. lab_lastRelay (snd (relaySample demo_platform demo_lab)) = Some r \<and> re_equal r"
  using relay_recovers_key [OF demo_platform_ok, of demo_lab] by auto

text \<open>
  C14. A tick of a stores replay delivers all of the demand or none of it: with a route every bit of rate times
  tick length is delivered, without one it is all unmet and the run stops running; in no case is a store drawn
  below its threshold.
\<close>

theorem lab_tick_stores:
  assumes "platform_ok p" "lab_reach p s" "lab_accounting s = Acc_stores" "lab_scenario s = Some sc"
  shows "(if lab_route (advance p now s) = None
      then lab_delivered (advance p now s) = lab_delivered s
        \<and> lab_unmet (advance p now s) = lab_unmet s + qval (s_rate sc) * lab_tickS s \<and> lab_status (advance p now s) \<noteq> Running
      else lab_delivered (advance p now s) = lab_delivered s + qval (s_rate sc) * lab_tickS s
        \<and> lab_unmet (advance p now s) = lab_unmet s \<and> lab_status (advance p now s) = lab_status s)
    \<and> (\<forall>l \<in> set (lab_links (advance p now s)). \<forall>b th. storedBits l = Some b \<longrightarrow> thresholdBits l = Some th \<longrightarrow> th \<le> b)"
proof -
  have wf: "lab_wf s" using lab_reach_wf [OF assms(2,1)] .
  have "\<forall>l \<in> set (lab_links (advance p now s)). link_ok l"
    using advance_wf [OF assms(1) wf, of now] by (simp add: lab_wf_def links_ok_def)
  with tick_stores [OF wf assms(3,4), of p now] show ?thesis by (auto simp: link_ok_def)
qed

theorem lab_tick_stores_witness:
  "lab_delivered (advance demo_platform 0 (demo_scenario secoqc secoqcReroute))
     + lab_unmet (advance demo_platform 0 (demo_scenario secoqc secoqcReroute))
   = lab_delivered (demo_scenario secoqc secoqcReroute) + lab_unmet (demo_scenario secoqc secoqcReroute)
     + qval (s_rate secoqcReroute) * lab_tickS (demo_scenario secoqc secoqcReroute)"
proof -
  have "lab_accounting (demo_scenario secoqc secoqcReroute) = Acc_stores"
    by (simp add: demo_scenario_fields scenario_accounting_def secoqcReroute_def)
  from lab_tick_stores [OF demo_platform_ok demo_scenario_reach [OF secoqc_listed] this demo_scenario_fields(2), of 0]
  show ?thesis by (simp split: if_splits)
qed

text \<open>
  A tick of a service-buffer replay serves the whole keys due as far as the store holds them, counts the
  rest as failed, and refills the store to its target exactly when it has fallen to the refill mark and a route
  exists.
\<close>

theorem lab_tick_service:
  assumes "platform_ok p" "lab_reach p s" "lab_accounting s = Acc_service_buffer"
  shows "\<exists>sc svc svc' served. lab_scenario s = Some sc \<and> lab_service s = Some svc \<and> lab_service (advance p now s) = Some svc'
    \<and> served = min (of_int (due_keys (qval (s_rate sc)) s)) (sv_stored svc)
    \<and> lab_ok (advance p now s) = lab_ok s + served
    \<and> lab_failed (advance p now s) = lab_failed s + (of_int (due_keys (qval (s_rate sc)) s) - served)
    \<and> lab_delivered (advance p now s) = lab_delivered s + served * KEY_BITS
    \<and> sv_stored svc' = (if sv_stored svc - served \<le> sv_refillAt svc \<and> lab_route (advance p now s) \<noteq> None
        then sv_refillTo svc else sv_stored svc - served)"
  by (rule tick_service [OF lab_reach_wf [OF assms(2,1)] assms(3), of p now]) blast

theorem lab_tick_service_witness:
  "\<exists>svc'. lab_service (advance demo_platform 0 (demo_scenario cambridge cambridgeReroute)) = Some svc'"
proof -
  have "lab_accounting (demo_scenario cambridge cambridgeReroute) = Acc_service_buffer"
    by (simp add: demo_scenario_fields scenario_accounting_def cambridgeReroute_def)
  from lab_tick_service [OF demo_platform_ok demo_scenario_reach [OF cambridge_listed(1) cambridge_scenario_listed] this, of 0]
  show ?thesis by blast
qed

text \<open>
  Every tick records the pipeline of its accounting: the steps of its trace are, in order, exactly those
  the page draws for that accounting, under the number of the new tick.
\<close>

theorem lab_tick_trace:
  assumes "platform_ok p" "lab_reach p s"
  shows "\<exists>tt. lab_lastTick (advance p now s) = Some tt \<and> tt_tick tt = Suc (lab_tickN s)
    \<and> map step_id (tt_steps tt) = tick_ids (lab_accounting s)"
  by (rule tick_steps [OF assms(1) lab_reach_wf [OF assms(2,1)]])

theorem lab_tick_trace_witness:
  "\<exists>tt. lab_lastTick (advance demo_platform 0 demo_lab) = Some tt \<and> map step_id (tt_steps tt) = tick_ids Acc_keys"
  using lab_tick_trace [OF demo_platform_ok demo_reach, of 0] demo_keys(1) by auto

section \<open>The buttons\<close>

lemma lab_step_status:
  "lab_status s \<noteq> Running \<Longrightarrow> lab_status (lab_step p now s) = (if lab_status s = Paused then Paused else Stepped)"
  using advance_status [of p now "s\<lparr>lab_status := Stepped\<rparr>"] by (auto simp: lab_step_def Let_def)

interpretation lab_ui: sim_controls "\<lambda>s. platform_ok p \<and> lab_wf s" lab_status lab_timer
    "lab_start t" lab_pause "lab_resume t" "lab_step p now" for p t now
proof unfold_locales
  fix s
  have loop: "lab_wf s \<Longrightarrow> lab_timer s \<Longrightarrow> lab_status s = Running" for s by (simp add: lab_wf_def loop_ok_def)
  then show "platform_ok p \<and> lab_wf s \<Longrightarrow> lab_timer s \<Longrightarrow> lab_status s = Running" by blast
  show "platform_ok p \<and> lab_wf s \<Longrightarrow> (platform_ok p \<and> lab_wf (lab_start t s)) \<and> (platform_ok p \<and> lab_wf (lab_pause s))
     \<and> (platform_ok p \<and> lab_wf (lab_resume t s)) \<and> platform_ok p \<and> lab_wf (lab_step p now s)"
    by (simp add: wf_running wf_pause wf_step)
  show "lab_status (lab_start t s) = Running \<and> lab_timer (lab_start t s)" by (simp add: lab_start_def ensureLoop_def)
  show "lab_status (lab_resume t s) = Running \<and> lab_timer (lab_resume t s)" by (simp add: lab_resume_def ensureLoop_def)
  show "lab_status (lab_pause s) = Paused \<and> \<not> lab_timer (lab_pause s)" by (simp add: lab_pause_def stopLoop_def)
  show "lab_status s = Running \<Longrightarrow> lab_step p now s = s" by (simp add: lab_step_def)
  show "platform_ok p \<and> lab_wf s \<Longrightarrow> lab_status s \<noteq> Running \<Longrightarrow>
      lab_status (lab_step p now s) \<in> {Paused, Stepped} \<and> \<not> lab_timer (lab_step p now s)"
    using loop [of "lab_step p now s"] wf_step [of p s now] lab_step_status [of s p now] by (auto split: if_splits)
qed

fun lab_button :: "platform \<Rightarrow> rat \<Rightarrow> int \<Rightarrow> button \<Rightarrow> lab \<Rightarrow> lab" where
  "lab_button p t now B_start s = lab_start t s"
| "lab_button p t now B_pause s = lab_pause s"
| "lab_button p t now B_resume s = lab_resume t s"
| "lab_button p t now B_step s = lab_step p now s"

lemma lab_presses: "foldl (\<lambda>s b. lab_button p t now b s) s bs = lab_ui.presses t p now bs s"
proof -
  have "lab_button p t now b s = lab_ui.press t p now b s" for b s by (cases b) simp_all
  then show ?thesis by (simp add: lab_ui.presses_def)
qed

text \<open>
  The buttons of the lab. Step does nothing while running; from idle it takes one tick and leaves the run
  stepped, from paused it takes one tick and leaves the run paused, and it never starts the loop. After any
  sequence of Run, Pause, Resume and Step pressed on a run whose loop and badge agree they agree again, and the
  badge reads running exactly when the last of Run, Resume and Pause was not Pause.
\<close>

theorem lab_step_button:
  assumes "platform_ok p" "lab_reach p s" "lab_timer s \<longleftrightarrow> lab_status s = Running" "u = foldl (\<lambda>s b. lab_button p t now b s) s bs"
  shows "(if lab_status s = Running then lab_step p now s = s
    else lab_tickN (lab_step p now s) = Suc (lab_tickN s) \<and> \<not> lab_timer (lab_step p now s)
      \<and> lab_status (lab_step p now s) = (if lab_status s = Paused then Paused else Stepped))
    \<and> (lab_timer u \<longleftrightarrow> lab_status u = Running) \<and> (lab_status u = Running \<longleftrightarrow> shown bs (lab_status s = Running))"
proof -
  have wf: "platform_ok p \<and> lab_wf s" using lab_reach_wf [OF assms(2,1)] assms(1) by blast
  have ag: "lab_ui.agrees s" using assms(3) by (simp add: lab_ui.agrees_def)
  have "lab_tickN (lab_step p now s) = Suc (lab_tickN s)" if "lab_status s \<noteq> Running"
    using that by (simp add: lab_step_def Let_def)
  then show ?thesis
    using lab_ui.presses_agree [OF wf ag, where t = t and now = now and bs = bs] lab_ui.presses_running [OF wf, where t = t and now = now and bs = bs]
      lab_ui.step_manual [OF wf, of now] lab_step_status [of s p now] lab_ui.step_refused [of s p now]
    by (auto simp: assms(4) lab_presses lab_ui.agrees_def)
qed

theorem lab_step_button_witness:
  "lab_status (lab_step demo_platform 0 demo_lab) = Stepped \<and> lab_tickN (lab_step demo_platform 0 demo_lab) = 1"
proof -
  have "\<not> lab_timer demo_lab" using lab_reach_wf [OF demo_reach demo_platform_ok] demo_keys by (auto simp: lab_wf_def loop_ok_def)
  with lab_step_button [OF demo_platform_ok demo_reach _ refl, of 0] demo_keys show ?thesis by simp
qed

section \<open>The published re-routing runs\<close>

text \<open>The event buttons of a scenario, pressed in order.\<close>

definition press_event :: "scenario_event \<Rightarrow> lab \<Rightarrow> lab" where
  "press_event e s = (if ev_fail e then injectFailure (ev_target e) s else clearFailure (Some (ev_target e)) s)"

definition replay :: "scenario_event list \<Rightarrow> lab \<Rightarrow> lab" where
  "replay evs s = foldl (\<lambda>s e. press_event e s) s evs"

text \<open>The links and route of a run without failed nodes are all the choice of a route depends on.\<close>

type_synonym route_run = "link_state list \<times> route_choice option \<times> string list option list"

definition run_choose :: "topology_preset \<Rightarrow> accounting \<Rightarrow> rat \<Rightarrow> string \<Rightarrow> string \<Rightarrow> string list option \<Rightarrow> link_state list
    \<Rightarrow> route_run \<Rightarrow> route_run" where
  "run_choose pr acc t src dst pref ls = (\<lambda>(_, prev, log).
     let nxt = sticky prev pref (select_on pr ls acc t KEY_BITS src dst pref)
     in (ls, nxt, if log = [] \<and> nxt \<noteq> None then [map_option route_nodes nxt]
         else if route_key_of prev = route_key_of nxt then log else log @ [map_option route_nodes nxt]))"

fun run_event :: "(link_state list \<Rightarrow> route_run \<Rightarrow> route_run) \<Rightarrow> scenario_event \<Rightarrow> route_run \<Rightarrow> route_run" where
  "run_event pick e r = (case ev_target e of
     Link_target i reason \<Rightarrow> (if find_link (fst r) i = None then r
       else pick (update_first i (\<lambda>l. if ev_fail e then l\<lparr>down := True, downReason := Some (to_down reason)\<rparr>
                                      else l\<lparr>down := False, downReason := None\<rparr>) (fst r)) r)
   | Node_target n \<Rightarrow> r)"

definition run_of :: "lab \<Rightarrow> route_run" where
  "run_of s = (lab_links s, lab_route s, map rr_to (lab_reroutes s))"

definition run_setup :: "lab \<Rightarrow> topology_preset \<times> accounting \<times> rat \<times> string \<times> string \<times> string list option \<times> string list" where
  "run_setup s = (lab_preset s, lab_accounting s, lab_tickS s, lab_from s, lab_to s, lab_preferred s, lab_downNodes s)"

definition room :: "nat \<Rightarrow> route_run \<Rightarrow> bool" where
  "room n r \<longleftrightarrow> length (snd (snd r)) + n \<le> HISTORY_LIMIT"

lemma run_of_pick:
  assumes "run_setup s = (pr, acc, t, src, dst, pref, [])" "room 1 (run_of s)"
  shows "run_of (chooseRoute KEY_BITS s) = run_choose pr acc t src dst pref (lab_links s) (run_of s)"
  using assms
  by (simp add: run_setup_def room_def run_of_def run_choose_def chooseRoute_route lab_select_on Let_def)
    (auto simp: chooseRoute_def note_reroute_def Let_def lab_select_on push_shift_def route_key_of_def)

lemma run_of_event:
  assumes c: "run_setup s = (pr, acc, t, src, dst, pref, [])" and l: "room 1 (run_of s)"
    and e: "ev_target e = Link_target i reason"
  shows "run_of (press_event e s) = run_event (run_choose pr acc t src dst pref) e (run_of s)
    \<and> run_setup (press_event e s) = (pr, acc, t, src, dst, pref, [])"
proof -
  define f :: "link_state \<Rightarrow> link_state" where "f = (\<lambda>l. if ev_fail e then l\<lparr>down := True, downReason := Some (to_down reason)\<rparr>
                           else l\<lparr>down := False, downReason := None\<rparr>)"
  have dn: "lab_downNodes s = []" using c by (simp add: run_setup_def)
  define ev where "ev = lab_pendingEvent s @ [i @ '' '' @ (if ev_fail e then down_text (to_down reason) else ''restored'')]"
  have p: "press_event e s = (if find_link (lab_links s) i = None then s
      else chooseRoute KEY_BITS (s\<lparr>lab_links := update_first i f (lab_links s), lab_pendingEvent := ev\<rparr>))"
    by (cases "ev_fail e") (simp_all add: press_event_def e f_def ev_def dn end_down_def)
  let ?s = "s\<lparr>lab_links := update_first i f (lab_links s), lab_pendingEvent := ev\<rparr>"
  have c': "run_setup ?s = (pr, acc, t, src, dst, pref, [])" "run_setup (chooseRoute KEY_BITS ?s) = (pr, acc, t, src, dst, pref, [])"
    using c by (simp_all add: run_setup_def lab_preferred_def)
  have "run_of (chooseRoute KEY_BITS ?s) = run_choose pr acc t src dst pref (update_first i f (lab_links s)) (run_of s)"
    using run_of_pick [OF c'(1)] l by (simp add: run_of_def room_def run_choose_def Let_def)
  then show ?thesis using c c'(2) by (simp add: p e run_of_def flip: f_def)
qed

lemma room_event: "room (Suc n) r \<Longrightarrow> room n (run_event (run_choose pr acc t src dst pref) e r)"
  by (auto simp: room_def run_choose_def Let_def split: failure_target.split prod.split)

lemma run_of_replay:
  assumes "run_setup s = (pr, acc, t, src, dst, pref, [])" "room (length evs) (run_of s)"
    "list_all (\<lambda>e. case ev_target e of Link_target _ _ \<Rightarrow> True | Node_target _ \<Rightarrow> False) evs"
  shows "run_of (replay evs s) = foldl (\<lambda>r e. run_event (run_choose pr acc t src dst pref) e r) (run_of s) evs"
  using assms
proof (induction evs arbitrary: s)
  case (Cons e evs)
  then obtain i reason where e: "ev_target e = Link_target i reason" by (auto split: failure_target.splits)
  have "room 1 (run_of s)" using Cons.prems(2) by (simp add: room_def)
  note p = run_of_event [OF Cons.prems(1) this e]
  have "room (length evs) (run_of (press_event e s))"
    using p room_event [of "length evs"] Cons.prems(2) by simp
  with Cons.IH [of "press_event e s"] Cons.prems(3) p show ?case by (simp add: replay_def)
qed (simp add: replay_def)

text \<open>The runs of the two scenarios with buttons, evaluated.\<close>

definition run_start :: "topology_preset \<Rightarrow> scenario \<Rightarrow> route_run" where
  "run_start pr sc = run_choose pr (scenario_accounting sc) (s_tick_seconds sc) (s_from sc) (s_to sc) (s_preferredRoute sc)
     (map (init_link (scenario_accounting sc) (Some sc)) (p_links pr)) ([], None, [])"

definition run_events :: "topology_preset \<Rightarrow> scenario \<Rightarrow> route_run" where
  "run_events pr sc = foldl (\<lambda>r e. run_event (run_choose pr (scenario_accounting sc) (s_tick_seconds sc) (s_from sc) (s_to sc)
     (s_preferredRoute sc)) e r) (run_start pr sc) (s_events sc)"

lemma run_events_published:
  "snd (snd (run_events cambridge cambridgeReroute)) = map Some (s_published_routes cambridgeReroute)"
  "snd (snd (run_events tokyo tokyoReroute)) = map Some (s_published_routes tokyoReroute @ [hd (s_published_routes tokyoReroute)])"
  by code_simp+

lemma loaded_setup:
  "run_setup (loaded pr (Some sc) None s) = (pr, scenario_accounting sc, s_tick_seconds sc, s_from sc, s_to sc, s_preferredRoute sc, [])"
  "run_of (loaded pr (Some sc) None s) = (map (init_link (scenario_accounting sc) (Some sc)) (p_links pr), None, [])"
  by (simp_all add: loaded_def Let_def run_setup_def run_of_def lab_preferred_def)

lemma replay_loaded:
  assumes "pr \<in> set PRESETS" "sc \<in> set SCENARIOS" "s_presetId sc = p_id pr" "scenario_accounting sc \<noteq> Acc_keys"
    and ev: "list_all (\<lambda>e. case ev_target e of Link_target _ _ \<Rightarrow> True | Node_target _ \<Rightarrow> False) (s_events sc)" "length (s_events sc) < 100"
  shows "\<exists>s. load p (p_id pr) (Some (s_id sc)) None s0 = Some s
    \<and> map rr_to (lab_reroutes (replay (s_events sc) s)) = snd (snd (run_events pr sc))"
proof -
  let ?l = "loaded pr (Some sc) None s0"
  have "load p (p_id pr) (Some (s_id sc)) None s0 = Some (after_load p ?l)"
    using load_same [of pr "Some sc" p None s0] assms(1-3) by simp
  moreover have "after_load p ?l = chooseRoute KEY_BITS ?l"
    using assms(4) loaded_setup(1) [of pr sc s0] by (simp add: after_load_def Let_def run_setup_def)
  moreover have st: "run_of (chooseRoute KEY_BITS ?l) = run_start pr sc"
    using run_of_pick [OF loaded_setup(1), of pr sc s0] loaded_setup(2) [of pr sc s0]
    by (simp add: room_def HISTORY_LIMIT_def run_start_def run_choose_def run_of_def Let_def)
  moreover have c: "run_setup (chooseRoute KEY_BITS ?l)
      = (pr, scenario_accounting sc, s_tick_seconds sc, s_from sc, s_to sc, s_preferredRoute sc, [])"
    using loaded_setup(1) [of pr sc s0] by (simp add: run_setup_def lab_preferred_def)
  moreover have "room (length (s_events sc)) (run_of (chooseRoute KEY_BITS ?l))"
    using ev(2) by (auto simp: st room_def HISTORY_LIMIT_def run_start_def run_choose_def Let_def)
  note rp = run_of_replay [OF c this ev(1)]
  have "run_of (replay (s_events sc) (chooseRoute KEY_BITS ?l)) = run_events pr sc"
    unfolding rp st run_events_def ..
  then have "map rr_to (lab_reroutes (replay (s_events sc) (chooseRoute KEY_BITS ?l))) = snd (snd (run_events pr sc))"
    by (auto simp: run_of_def dest: arg_cong [where f = "\<lambda>r. snd (snd r)"])
  ultimately show ?thesis by auto
qed

lemma replayed_listed:
  "tokyo \<in> set PRESETS" "tokyoReroute \<in> set SCENARIOS" "s_presetId tokyoReroute = p_id tokyo"
  "scenario_accounting tokyoReroute \<noteq> Acc_keys" "scenario_accounting cambridgeReroute \<noteq> Acc_keys"
  by (simp_all add: PRESETS_def SCENARIOS_def scenario_accounting_def)
    (simp_all add: tokyo_def tokyoReroute_def cambridgeReroute_def)

lemma replayed_events:
  "list_all (\<lambda>e. case ev_target e of Link_target _ _ \<Rightarrow> True | Node_target _ \<Rightarrow> False) (s_events tokyoReroute)"
  "length (s_events tokyoReroute) < 100"
  "list_all (\<lambda>e. case ev_target e of Link_target _ _ \<Rightarrow> True | Node_target _ \<Rightarrow> False) (s_events cambridgeReroute)"
  "length (s_events cambridgeReroute) < 100"
  by (simp_all add: tokyoReroute_def cambridgeReroute_def)

text \<open>
  The replays reproduce the published re-routing. Loading the Cambridge scenario and pressing its event
  buttons in order makes the simulator report exactly the published sequence of routes; loading the Tokyo
  scenario and pressing its two buttons gives the two published routes and then the first again, from any state
  the page is in and for any source of randomness.
\<close>

theorem published_reroutes_replayed:
  "(\<exists>s. load p ''cambridge-2019'' (Some ''cambridge-otp-reroute-2019'') None s0 = Some s
      \<and> map rr_to (lab_reroutes (replay (s_events cambridgeReroute) s)) = map Some (s_published_routes cambridgeReroute))
    \<and> (\<exists>s. load p ''tokyo-2010'' (Some ''tokyo-reroute-2010'') None s0 = Some s
      \<and> map rr_to (lab_reroutes (replay (s_events tokyoReroute) s))
          = map Some (s_published_routes tokyoReroute @ [hd (s_published_routes tokyoReroute)]))"
proof -
  have ids: "p_id cambridge = ''cambridge-2019''" "s_id cambridgeReroute = ''cambridge-otp-reroute-2019''"
    "p_id tokyo = ''tokyo-2010''" "s_id tokyoReroute = ''tokyo-reroute-2010''"
    by (simp_all add: cambridge_def cambridgeReroute_def tokyo_def tokyoReroute_def)
  show ?thesis
    using replay_loaded [OF cambridge_listed(1) cambridge_scenario_listed replayed_listed(5) replayed_events(3,4), of p s0]
      replay_loaded [OF replayed_listed(1-4) replayed_events(1,2), of p s0]
    unfolding run_events_published ids by (rule conjI)
qed

end
