(* ===== verification/Browser.thy ===== *)
theory Browser
  imports Crypto
begin

text \<open>
  What the run simulators take from the browser (\<^verbatim>\<open>performance.now()\<close>, \<^verbatim>\<open>Date.now()\<close>, the random source, UUIDs and
  the noble library), each as the sequence of values it returns, and the records both simulators log in.
\<close>

record browser =
  br_perf :: "nat \<Rightarrow> rat"
  br_date :: "nat \<Rightarrow> rat"
  br_random :: tape
  br_uuid :: "nat \<Rightarrow> string"
  br_noble :: noble

text \<open>Random bytes come in the length asked for; the library keeps its documented laws.\<close>

definition browser_ok :: "browser \<Rightarrow> bool" where
  "browser_ok env \<longleftrightarrow> tape_ok (br_random env) \<and> noble_ok (br_noble env)"

datatype detail_value = D_num rat | D_str string | D_null | D_bool bool

type_synonym details = "(string \<times> detail_value) list"

record operator_action =
  oa_at :: rat
  oa_action :: string

section \<open>A browser for evaluation\<close>

definition demo_browser :: browser where
  "demo_browser = \<lparr>br_perf = (\<lambda>i. of_nat i * 500), br_date = (\<lambda>i. 1700000000000 + of_nat i * 500), br_random = demo_tape,
     br_uuid = (\<lambda>i. ''uuid-'' @ show_int (int i)), br_noble = demo_noble\<rparr>"

lemma demo_browser_ok [simp]: "browser_ok demo_browser"
  by (simp add: browser_ok_def demo_browser_def)

end
