(* ===== verification/E2E.thy ===== *)
theory E2E
  imports Browser Pacing Sim_Controls
begin

text \<open>
  The end-to-end page's simulator, \<^verbatim>\<open>lib/sim/e2eSim.ts\<close>: a cycle of four steps (quantum plane, key
  identifiers, key derivation, data exchange) in three modes, with one layer at a time knocked out.

  The record \<open>e2e\<close> has one field per member of the class and of its published state. What the platform
  supplies, \<^verbatim>\<open>performance.now()\<close>, \<^verbatim>\<open>Date.now()\<close>, random bytes and UUIDs, is the record \<open>browser\<close>, each
  source read in order by a counter of the state. \<^verbatim>\<open>emit\<close> publishes a copy and changes nothing. An
  operation whose work can throw returns whether it did, beside the state it leaves.
\<close>

section \<open>State\<close>

datatype e2e_mode = Mode_A | Mode_B | Mode_C
datatype e2e_layer = L_qkd | L_pqc | L_data

fun mode_text :: "e2e_mode \<Rightarrow> string" where
  "mode_text Mode_A = ''A''" | "mode_text Mode_B = ''B''" | "mode_text Mode_C = ''C''"

fun layer_text :: "e2e_layer \<Rightarrow> string" where
  "layer_text L_qkd = ''qkd''" | "layer_text L_pqc = ''pqc''" | "layer_text L_data = ''data''"

fun layer_upper :: "e2e_layer \<Rightarrow> string" where
  "layer_upper L_qkd = ''QKD''" | "layer_upper L_pqc = ''PQC''" | "layer_upper L_data = ''DATA''"

record step_rec =
  sr_step :: nat
  sr_name :: string
  sr_started_at :: rat
  sr_completed_at :: "rat option"
  sr_detail :: details

definition STEP_NAMES :: "nat \<Rightarrow> string option" where
  "STEP_NAMES n = map_of [(1, ''Quantum Plane''), (2, ''QKD Key IDs (ETSI 014)''),
     (3, ''PQC Handshake (HKDF-SHA3-256)''), (4, ''Data Exchange (ChaCha20-Poly1305)'')] n"

fun MODE_LABEL :: "e2e_mode \<Rightarrow> string" where
  "MODE_LABEL Mode_A = ''QKD-only''"
| "MODE_LABEL Mode_B = ''PQC-only''"
| "MODE_LABEL Mode_C = ''Hybrid (QKD '' @ [CHR 0xE2, CHR 0x80, CHR 0x96] @ '' PQC)''"

definition DEFAULT_PACKETS_PER_CYCLE :: int where "DEFAULT_PACKETS_PER_CYCLE = 64"
definition PACKETS_PER_CYCLE_MIN :: int where "PACKETS_PER_CYCLE_MIN = 1"
definition PACKETS_PER_CYCLE_MAX :: int where "PACKETS_PER_CYCLE_MAX = 1024"
definition STEPS_PER_CYCLE :: nat where "STEPS_PER_CYCLE = 4"
definition STEP_HISTORY_LIMIT :: nat where "STEP_HISTORY_LIMIT = 20"
definition ACTION_LOG_LIMIT :: nat where "ACTION_LOG_LIMIT = 50"
definition NOMINAL_STEP_DWELL_MS :: int where "NOMINAL_STEP_DWELL_MS = dwellMs 5"
definition KEY_POOL_CAPACITY :: int where "KEY_POOL_CAPACITY = 8"

lemmas e2e_consts = DEFAULT_PACKETS_PER_CYCLE_def PACKETS_PER_CYCLE_MIN_def PACKETS_PER_CYCLE_MAX_def
  STEPS_PER_CYCLE_def KEY_POOL_CAPACITY_def

record e2e =
  es_status :: sim_status
  es_failed_layer :: "e2e_layer option"
  es_failure_is_fatal :: bool
  es_current_step :: nat
  es_step_name :: string
  es_mode :: e2e_mode
  es_mode_label :: string
  es_completed_cycles :: nat
  es_total_bytes :: nat
  es_total_packets :: nat
  es_last_key_id :: string
  es_last_psk_prefix :: string
  es_last_error :: string
  es_rate_bps :: "rat option"
  es_nominal_cycle_ms :: int
  es_packets_per_cycle :: int
  es_history :: "step_rec list"
  es_steps_total :: nat
  es_actions :: "operator_action list"
  es_actions_total :: nat
  e_timer :: bool
  e_stepStart :: rat
  e_cycleStart :: rat
  e_cyclePackets :: int
  e_qkdKey :: bytes
  e_pqcSecret :: bytes
  e_derived :: bytes
  e_keyId :: string
  e_cycleBytes :: nat
  e_alicePool :: int
  e_perfs :: nat
  e_dates :: nat
  e_draws :: nat
  e_uuids :: nat

text \<open>Reading the sources.\<close>

definition perf_now :: "browser \<Rightarrow> e2e \<Rightarrow> rat \<times> e2e" where
  "perf_now env s = (br_perf env (e_perfs s), s\<lparr>e_perfs := Suc (e_perfs s)\<rparr>)"

definition date_s :: "browser \<Rightarrow> e2e \<Rightarrow> rat \<times> e2e" where
  "date_s env s = (br_date env (e_dates s) / 1000, s\<lparr>e_dates := Suc (e_dates s)\<rparr>)"

definition draw :: "browser \<Rightarrow> nat \<Rightarrow> e2e \<Rightarrow> bytes \<times> e2e" where
  "draw env n s = (let (b, i) = randomBytes (br_random env) n (e_draws s) in (b, s\<lparr>e_draws := i\<rparr>))"

definition randomUUID :: "browser \<Rightarrow> e2e \<Rightarrow> string \<times> e2e" where
  "randomUUID env s = (br_uuid env (e_uuids s), s\<lparr>e_uuids := Suc (e_uuids s)\<rparr>)"

lemmas e2e_reads = perf_now_def date_s_def draw_def randomUUID_def randomBytes_def

text \<open>\<^verbatim>\<open>fresh\<close> replaces the published state; the other members and the counters stay.\<close>

definition e2e_fresh :: "e2e_mode \<Rightarrow> int \<Rightarrow> e2e \<Rightarrow> e2e" where
  "e2e_fresh mode ppc s = s\<lparr>es_status := Idle, es_current_step := 0, es_step_name := ''idle'', es_mode := mode,
     es_failed_layer := None, es_failure_is_fatal := False, es_mode_label := MODE_LABEL mode, es_completed_cycles := 0,
     es_total_bytes := 0, es_total_packets := 0, es_last_key_id := [], es_last_psk_prefix := [], es_last_error := [],
     es_rate_bps := None, es_nominal_cycle_ms := int STEPS_PER_CYCLE * NOMINAL_STEP_DWELL_MS, es_packets_per_cycle := ppc,
     es_history := [], es_steps_total := 0, es_actions := [], es_actions_total := 0\<rparr>"

definition e2e_new :: e2e where
  "e2e_new = \<lparr>es_status = Idle, es_failed_layer = None, es_failure_is_fatal = False, es_current_step = 0, es_step_name = ''idle'',
     es_mode = Mode_C, es_mode_label = MODE_LABEL Mode_C, es_completed_cycles = 0, es_total_bytes = 0, es_total_packets = 0,
     es_last_key_id = [], es_last_psk_prefix = [], es_last_error = [], es_rate_bps = None,
     es_nominal_cycle_ms = int STEPS_PER_CYCLE * NOMINAL_STEP_DWELL_MS, es_packets_per_cycle = DEFAULT_PACKETS_PER_CYCLE,
     es_history = [], es_steps_total = 0, es_actions = [], es_actions_total = 0,
     e_timer = False, e_stepStart = 0, e_cycleStart = 0, e_cyclePackets = DEFAULT_PACKETS_PER_CYCLE,
     e_qkdKey = [], e_pqcSecret = [], e_derived = [], e_keyId = [], e_cycleBytes = 0, e_alicePool = 0,
     e_perfs = 0, e_dates = 0, e_draws = 0, e_uuids = 0\<rparr>"

section \<open>Bookkeeping\<close>

definition e2e_record :: "browser \<Rightarrow> string \<Rightarrow> e2e \<Rightarrow> e2e" where
  "e2e_record env action s = (let (d, s) = date_s env s in
     s\<lparr>es_actions := push_shift ACTION_LOG_LIMIT (es_actions s) \<lparr>oa_at = d, oa_action = action\<rparr>,
       es_actions_total := Suc (es_actions_total s)\<rparr>)"

definition e2e_stopLoop :: "e2e \<Rightarrow> e2e" where
  "e2e_stopLoop s = s\<lparr>e_timer := False\<rparr>"

definition e2e_clearKeyMaterial :: "e2e \<Rightarrow> e2e" where
  "e2e_clearKeyMaterial s = s\<lparr>e_qkdKey := [], e_pqcSecret := [], e_derived := [], es_last_key_id := [], es_last_psk_prefix := []\<rparr>"

definition e2e_ensureLoop :: "browser \<Rightarrow> e2e \<Rightarrow> e2e" where
  "e2e_ensureLoop env s = (if e_timer s then s else
     let (t1, s) = perf_now env s; (t2, s) = perf_now env (s\<lparr>e_stepStart := t1\<rparr>)
     in s\<lparr>e_cycleStart := t2, e_timer := True\<rparr>)"

definition e2e_enter :: "browser \<Rightarrow> nat \<Rightarrow> e2e \<Rightarrow> e2e" where
  "e2e_enter env n s =
     (let s = s\<lparr>es_current_step := n, es_step_name := (case STEP_NAMES n of Some x \<Rightarrow> x | None \<Rightarrow> ''idle'')\<rparr>;
          s = (if n = 1 then let (t, s) = perf_now env s in
                 s\<lparr>e_cycleStart := t, e_cycleBytes := 0, e_cyclePackets := es_packets_per_cycle s\<rparr> else s);
          (d, s) = date_s env s;
          s = s\<lparr>es_history := slice_last STEP_HISTORY_LIMIT (es_history s @ [\<lparr>sr_step = n,
                  sr_name = (case STEP_NAMES n of Some x \<Rightarrow> x | None \<Rightarrow> []), sr_started_at = d,
                  sr_completed_at = None, sr_detail = []\<rparr>]),
                es_steps_total := Suc (es_steps_total s)\<rparr>;
          (t, s) = perf_now env s
      in s\<lparr>e_stepStart := t\<rparr>)"

text \<open>The last open record of the current step gets its completion time and details.\<close>

fun complete_first :: "nat \<Rightarrow> rat \<Rightarrow> details \<Rightarrow> step_rec list \<Rightarrow> step_rec list" where
  "complete_first n d dt [] = []"
| "complete_first n d dt (h # hs) =
     (if sr_step h = n \<and> sr_completed_at h = None then h\<lparr>sr_completed_at := Some d, sr_detail := dt\<rparr> # hs
      else h # complete_first n d dt hs)"

definition e2e_exit :: "browser \<Rightarrow> details \<Rightarrow> e2e \<Rightarrow> e2e" where
  "e2e_exit env dt s =
     (if list_ex (\<lambda>h. sr_step h = es_current_step s \<and> sr_completed_at h = None) (es_history s)
      then let (d, s1) = date_s env s
           in s1\<lparr>es_history := rev (complete_first (es_current_step s) d dt (rev (es_history s)))\<rparr>
      else s)"

section \<open>The work of a step\<close>

definition failureIsFatal :: "e2e \<Rightarrow> bool" where
  "failureIsFatal s = (case es_failed_layer s of
     None \<Rightarrow> False
   | Some L_data \<Rightarrow> True
   | Some L_qkd \<Rightarrow> es_mode s = Mode_A
   | Some L_pqc \<Rightarrow> es_mode s = Mode_B)"

definition work_1 :: "browser \<Rightarrow> e2e \<Rightarrow> e2e" where
  "work_1 env s =
     (if es_failed_layer s = Some L_qkd
      then e2e_exit env [(''alice_pool'', D_num (of_int (e_alicePool s))), (''failed'', D_str ''qkd'')] s
      else let s = s\<lparr>e_alicePool := min (e_alicePool s + 1) KEY_POOL_CAPACITY\<rparr>
           in e2e_exit env [(''alice_pool'', D_num (of_int (e_alicePool s)))] s)"

definition work_2 :: "browser \<Rightarrow> e2e \<Rightarrow> e2e" where
  "work_2 env s =
     (if es_failed_layer s = Some L_qkd
      then let s = s\<lparr>e_qkdKey := [], e_keyId := ''(QKD layer failed)''\<rparr>
           in e2e_exit env [(''key_id'', D_str (e_keyId s)), (''qkd_key_len'', D_num 0), (''failed'', D_str ''qkd''),
                (''alice_pool'', D_num (of_int (e_alicePool s)))] s
      else let s = (if es_mode s = Mode_A \<or> es_mode s = Mode_C
                    then let (k, s) = draw env 32 s; (u, s) = randomUUID env (s\<lparr>e_qkdKey := k\<rparr>)
                         in s\<lparr>e_keyId := u, e_alicePool := max 0 (e_alicePool s - 1)\<rparr>
                    else s\<lparr>e_qkdKey := [], e_keyId := ''(PQC-only mode)''\<rparr>)
           in e2e_exit env [(''key_id'', D_str (e_keyId s)), (''qkd_key_len'', D_num (of_nat (length (e_qkdKey s)))),
                (''alice_pool'', D_num (of_int (e_alicePool s)))] s)"

definition work_3 :: "browser \<Rightarrow> e2e \<Rightarrow> e2e" where
  "work_3 env s =
     (let s = (if es_failed_layer s = Some L_pqc \<or> es_mode s = Mode_A then s\<lparr>e_pqcSecret := []\<rparr>
               else let (k, s) = draw env 32 s in s\<lparr>e_pqcSecret := k\<rparr>)
      in if e_qkdKey s = [] \<and> e_pqcSecret s = []
         then e2e_exit env [(''psk_prefix'', D_null), (''qkd_bytes'', D_num 0), (''pqc_bytes'', D_num 0),
                (''note'', D_str ''no key material survived; HKDF over an empty IKM would return a fixed public constant, not a secret'')]
                (s\<lparr>e_derived := [], es_last_psk_prefix := []\<rparr>)
         else let dk = deriveHkdfSha3 (br_noble env) (e_qkdKey s) (e_pqcSecret s) (mode_text (es_mode s));
                  s = s\<lparr>e_derived := dk, es_last_psk_prefix := take 16 (toHex dk)\<rparr>
              in e2e_exit env [(''psk_prefix'', D_str (es_last_psk_prefix s)), (''qkd_bytes'', D_num (of_nat (length (e_qkdKey s)))),
                   (''pqc_bytes'', D_num (of_nat (length (e_pqcSecret s))))] s)"

definition payload :: "nat \<Rightarrow> bytes" where
  "payload i = encodeUtf8 (''PING '' @ show_int (int i) @ '' Alice->Bob over Quantum-Secure VPN'')"

text \<open>The packets \<open>i, i + 1, \<dots>\<close> of a cycle; \<open>None\<close> when a seal throws.\<close>

fun seal_packets :: "browser \<Rightarrow> bytes \<Rightarrow> nat \<Rightarrow> nat \<Rightarrow> nat \<Rightarrow> nat option \<times> nat" where
  "seal_packets env key i 0 dr = (Some 0, dr)"
| "seal_packets env key i (Suc n) dr = (case chachaEncrypt (br_noble env) (br_random env) key (payload i) dr of
     (None, dr) \<Rightarrow> (None, dr)
   | (Some (ctLen, nonceLen), dr) \<Rightarrow> (case seal_packets env key (Suc i) n dr of
       (None, dr) \<Rightarrow> (None, dr)
     | (Some rest, dr) \<Rightarrow> (Some (ctLen + nonceLen + rest), dr)))"

definition halt_text :: "e2e \<Rightarrow> string" where
  "halt_text s = (case es_failed_layer s of
     Some L_data \<Rightarrow> ''Data layer failed: AEAD cannot encrypt (no fallback exists)''
   | Some f \<Rightarrow> layer_upper f @ '' layer failed and mode '' @ mode_text (es_mode s) @ '' has no other key source''
   | None \<Rightarrow> [])"

definition degraded_text :: "e2e \<Rightarrow> string" where
  "degraded_text s = (case es_failed_layer s of None \<Rightarrow> []
   | Some f \<Rightarrow> ''Degraded: '' @ layer_upper f @ '' layer failed; mode '' @ mode_text (es_mode s) @ '' continued on the surviving leg'')"

definition failed_detail :: "e2e \<Rightarrow> detail_value" where
  "failed_detail s = (case es_failed_layer s of None \<Rightarrow> D_null | Some f \<Rightarrow> D_str (layer_text f))"

definition work_4 :: "browser \<Rightarrow> e2e \<Rightarrow> bool \<times> e2e" where
  "work_4 env s =
     (if failureIsFatal s
      then (False, e2e_exit env [(''packets'', D_num 0), (''bytes'', D_num 0), (''failed'', failed_detail s), (''fatal'', D_bool True)]
             (e2e_stopLoop (s\<lparr>es_last_error := halt_text s, es_status := Paused\<rparr>)))
      else let n = nat (e_cyclePackets s) in
        case seal_packets env (e_derived s) 0 n (e_draws s) of
          (None, dr) \<Rightarrow> (True, s\<lparr>e_draws := dr\<rparr>)
        | (Some bytes, dr) \<Rightarrow>
            let (t, s) = perf_now env (s\<lparr>e_draws := dr, e_cycleBytes := bytes\<rparr>);
                elapsed = max ((t - e_cycleStart s) / 1000) (1 / 1000);
                s = s\<lparr>es_total_bytes := es_total_bytes s + bytes, es_total_packets := es_total_packets s + n,
                      es_completed_cycles := Suc (es_completed_cycles s), es_last_key_id := e_keyId s,
                      es_rate_bps := Some (of_nat bytes * 8 / elapsed),
                      es_nominal_cycle_ms := int STEPS_PER_CYCLE * NOMINAL_STEP_DWELL_MS,
                      es_last_error := degraded_text s\<rparr>
            in (False, e2e_exit env [(''packets'', D_num (of_nat n)), (''bytes'', D_num (of_nat bytes)),
                  (''rate_mbps'', D_num (of_nat bytes * 8 / elapsed / 1000000))] s))"

text \<open>The flag says that the work threw.\<close>

definition runStepWork :: "browser \<Rightarrow> e2e \<Rightarrow> bool \<times> e2e" where
  "runStepWork env s =
     (if es_current_step s = 1 then (False, work_1 env s)
      else if es_current_step s = 2 then (False, work_2 env s)
      else if es_current_step s = 3 then (False, work_3 env s)
      else if es_current_step s = 4 then work_4 env s
      else (False, s))"

definition e2e_advance :: "browser \<Rightarrow> bool \<Rightarrow> e2e \<Rightarrow> e2e" where
  "e2e_advance env stepping s =
     (if STEPS_PER_CYCLE \<le> es_current_step s
      then let s = s\<lparr>es_current_step := 0, es_step_name := ''idle''\<rparr>
           in if es_status s = Running \<and> \<not> stepping then e2e_enter env 1 s else s
      else e2e_enter env (es_current_step s + 1) s)"

section \<open>Controls\<close>

definition e2e_start :: "browser \<Rightarrow> e2e \<Rightarrow> e2e" where
  "e2e_start env s =
     (let s = (e2e_record env ''run'' s)\<lparr>es_status := Running\<rparr>;
          s = (if es_current_step s = 0 then e2e_enter env 1 s else s)
      in e2e_ensureLoop env s)"

definition e2e_pause :: "browser \<Rightarrow> e2e \<Rightarrow> e2e" where
  "e2e_pause env s = e2e_stopLoop ((e2e_record env ''pause'' s)\<lparr>es_status := Paused\<rparr>)"

definition e2e_resume :: "browser \<Rightarrow> e2e \<Rightarrow> e2e" where
  "e2e_resume env s = e2e_ensureLoop env ((e2e_record env ''resume'' s)\<lparr>es_status := Running\<rparr>)"

definition e2e_reset :: "browser \<Rightarrow> e2e \<Rightarrow> e2e" where
  "e2e_reset env s = e2e_record env ''reset''
     ((e2e_clearKeyMaterial (e2e_fresh (es_mode s) (es_packets_per_cycle s) (e2e_stopLoop s)))
       \<lparr>e_cycleBytes := 0, e_keyId := [], e_alicePool := 0\<rparr>)"

definition e2e_abort :: "browser \<Rightarrow> e2e \<Rightarrow> e2e" where
  "e2e_abort env s =
     (e2e_clearKeyMaterial ((e2e_stopLoop (e2e_record env ''abort'' s))\<lparr>es_status := Idle, es_current_step := 0, es_step_name := ''aborted''\<rparr>))
       \<lparr>e_cycleBytes := 0, e_keyId := [], es_last_error := ''Run aborted by operator''\<rparr>"

definition e2e_step :: "browser \<Rightarrow> e2e \<Rightarrow> bool \<times> e2e" where
  "e2e_step env s =
     (if es_status s = Running then (False, s)
      else let before = es_status s;
               s = (e2e_record env ''step'' s)\<lparr>es_status := Stepped\<rparr>;
               s = (if es_current_step s = 0 then e2e_enter env 1 s else s);
               (threw, s) = runStepWork env s
           in if threw then (True, s)
              else let s = e2e_advance env True s
                   in (False, if es_status s = Stepped \<and> before = Paused then s\<lparr>es_status := Paused\<rparr> else s))"

definition e2e_setMode :: "browser \<Rightarrow> e2e_mode \<Rightarrow> e2e \<Rightarrow> bool \<times> e2e" where
  "e2e_setMode env m s =
     (if es_current_step s \<noteq> 0 then (False, s)
      else let s = (e2e_record env (''mode '' @ mode_text m) s)\<lparr>es_mode := m, es_mode_label := MODE_LABEL m\<rparr>
           in (True, s\<lparr>es_failure_is_fatal := failureIsFatal s\<rparr>))"

text \<open>\<open>None\<close> is an input that is not an integer.\<close>

definition e2e_setPacketsPerCycle :: "browser \<Rightarrow> int option \<Rightarrow> e2e \<Rightarrow> bool \<times> e2e" where
  "e2e_setPacketsPerCycle env v s = (case v of None \<Rightarrow> (False, s)
   | Some n \<Rightarrow> if n < PACKETS_PER_CYCLE_MIN \<or> PACKETS_PER_CYCLE_MAX < n then (False, s)
       else (True, (e2e_record env (''packets per cycle '' @ show_int n) s)\<lparr>es_packets_per_cycle := n\<rparr>))"

definition e2e_dispose :: "e2e \<Rightarrow> e2e" where
  "e2e_dispose s = e2e_clearKeyMaterial (e2e_stopLoop s)"

definition e2e_injectFailure :: "browser \<Rightarrow> e2e_layer \<Rightarrow> e2e \<Rightarrow> e2e" where
  "e2e_injectFailure env l s =
     (let s = (e2e_record env (''inject '' @ layer_text l) s)\<lparr>es_failed_layer := Some l\<rparr>
      in s\<lparr>es_failure_is_fatal := failureIsFatal s\<rparr>)"

definition e2e_clearFailure :: "browser \<Rightarrow> e2e \<Rightarrow> e2e" where
  "e2e_clearFailure env s =
     (e2e_record env ''clear failure'' s)\<lparr>es_failed_layer := None, es_failure_is_fatal := False, es_last_error := []\<rparr>"

definition e2e_tick :: "browser \<Rightarrow> e2e \<Rightarrow> bool \<times> e2e" where
  "e2e_tick env s =
     (if es_status s \<noteq> Running then (False, s)
      else let (t, s) = perf_now env s
           in if dwellDone (t - e_stepStart s) NOMINAL_STEP_DWELL_MS
              then let (threw, s) = runStepWork env s in if threw then (True, s) else (False, e2e_advance env False s)
              else (False, s))"

section \<open>The CSV export\<close>

definition e2eCsvRow :: "(rat \<Rightarrow> string) \<Rightarrow> step_rec \<Rightarrow> (string \<times> detail_value) list" where
  "e2eCsvRow isoText h = foldl (\<lambda>row (k, v). AList.update k v row)
     [(''step'', D_num (of_nat (sr_step h))), (''name'', D_str (sr_name h)),
      (''started_at'', D_str (isoText (sr_started_at h * 1000))),
      (''completed_at'', case sr_completed_at h of None \<Rightarrow> D_str [] | Some c \<Rightarrow> if c = 0 then D_str [] else D_str (isoText (c * 1000))),
      (''ui_dwell_ms'', case sr_completed_at h of None \<Rightarrow> D_str []
         | Some c \<Rightarrow> if c = 0 then D_str [] else D_num (of_int (js_round ((c - sr_started_at h) * 1000)))),
      (''nominal_dwell_ms'', D_num (of_int NOMINAL_STEP_DWELL_MS))] (sr_detail h)"

definition e2eCsvRows :: "(rat \<Rightarrow> string) \<Rightarrow> step_rec list \<Rightarrow> (string \<times> detail_value) list list" where
  "e2eCsvRows isoText hs = map (e2eCsvRow isoText) hs"

end
