(* ===== verification/E2E_Inv.thy ===== *)
theory E2E_Inv
  imports E2E
begin

text \<open>
  The invariant of the end-to-end simulator and what its operations do to it.
\<close>

section \<open>What each part leaves alone\<close>

lemma e2e_record_frame [simp]:
  "es_status (e2e_record env a s) = es_status s" "es_failed_layer (e2e_record env a s) = es_failed_layer s"
  "es_failure_is_fatal (e2e_record env a s) = es_failure_is_fatal s"
  "es_current_step (e2e_record env a s) = es_current_step s" "es_step_name (e2e_record env a s) = es_step_name s"
  "es_mode (e2e_record env a s) = es_mode s" "es_mode_label (e2e_record env a s) = es_mode_label s"
  "es_completed_cycles (e2e_record env a s) = es_completed_cycles s"
  "es_total_bytes (e2e_record env a s) = es_total_bytes s"
  "es_total_packets (e2e_record env a s) = es_total_packets s"
  "es_last_key_id (e2e_record env a s) = es_last_key_id s"
  "es_last_psk_prefix (e2e_record env a s) = es_last_psk_prefix s"
  "es_last_error (e2e_record env a s) = es_last_error s" "es_rate_bps (e2e_record env a s) = es_rate_bps s"
  "es_nominal_cycle_ms (e2e_record env a s) = es_nominal_cycle_ms s"
  "es_packets_per_cycle (e2e_record env a s) = es_packets_per_cycle s"
  "es_history (e2e_record env a s) = es_history s" "es_steps_total (e2e_record env a s) = es_steps_total s"
  "e_timer (e2e_record env a s) = e_timer s" "e_stepStart (e2e_record env a s) = e_stepStart s"
  "e_cycleStart (e2e_record env a s) = e_cycleStart s" "e_cyclePackets (e2e_record env a s) = e_cyclePackets s"
  "e_qkdKey (e2e_record env a s) = e_qkdKey s" "e_pqcSecret (e2e_record env a s) = e_pqcSecret s"
  "e_derived (e2e_record env a s) = e_derived s" "e_keyId (e2e_record env a s) = e_keyId s"
  "e_cycleBytes (e2e_record env a s) = e_cycleBytes s" "e_alicePool (e2e_record env a s) = e_alicePool s"
  "e_perfs (e2e_record env a s) = e_perfs s" "e_draws (e2e_record env a s) = e_draws s"
  "e_uuids (e2e_record env a s) = e_uuids s"
  by (simp_all add: e2e_record_def e2e_reads)

lemma e2e_stopLoop_frame [simp]:
  "es_status (e2e_stopLoop s) = es_status s" "es_failed_layer (e2e_stopLoop s) = es_failed_layer s"
  "es_failure_is_fatal (e2e_stopLoop s) = es_failure_is_fatal s"
  "es_current_step (e2e_stopLoop s) = es_current_step s" "es_step_name (e2e_stopLoop s) = es_step_name s"
  "es_mode (e2e_stopLoop s) = es_mode s" "es_mode_label (e2e_stopLoop s) = es_mode_label s"
  "es_completed_cycles (e2e_stopLoop s) = es_completed_cycles s" "es_total_bytes (e2e_stopLoop s) = es_total_bytes s"
  "es_total_packets (e2e_stopLoop s) = es_total_packets s" "es_last_key_id (e2e_stopLoop s) = es_last_key_id s"
  "es_last_psk_prefix (e2e_stopLoop s) = es_last_psk_prefix s" "es_last_error (e2e_stopLoop s) = es_last_error s"
  "es_rate_bps (e2e_stopLoop s) = es_rate_bps s" "es_nominal_cycle_ms (e2e_stopLoop s) = es_nominal_cycle_ms s"
  "es_packets_per_cycle (e2e_stopLoop s) = es_packets_per_cycle s" "es_history (e2e_stopLoop s) = es_history s"
  "es_steps_total (e2e_stopLoop s) = es_steps_total s" "es_actions (e2e_stopLoop s) = es_actions s"
  "es_actions_total (e2e_stopLoop s) = es_actions_total s" "e_stepStart (e2e_stopLoop s) = e_stepStart s"
  "e_cycleStart (e2e_stopLoop s) = e_cycleStart s" "e_cyclePackets (e2e_stopLoop s) = e_cyclePackets s"
  "e_qkdKey (e2e_stopLoop s) = e_qkdKey s" "e_pqcSecret (e2e_stopLoop s) = e_pqcSecret s"
  "e_derived (e2e_stopLoop s) = e_derived s" "e_keyId (e2e_stopLoop s) = e_keyId s"
  "e_cycleBytes (e2e_stopLoop s) = e_cycleBytes s" "e_alicePool (e2e_stopLoop s) = e_alicePool s"
  "e_perfs (e2e_stopLoop s) = e_perfs s" "e_dates (e2e_stopLoop s) = e_dates s" "e_draws (e2e_stopLoop s) = e_draws s"
  "e_uuids (e2e_stopLoop s) = e_uuids s"
  by (simp_all add: e2e_stopLoop_def)

lemma e2e_clear_frame [simp]:
  "es_status (e2e_clearKeyMaterial s) = es_status s" "es_failed_layer (e2e_clearKeyMaterial s) = es_failed_layer s"
  "es_failure_is_fatal (e2e_clearKeyMaterial s) = es_failure_is_fatal s"
  "es_current_step (e2e_clearKeyMaterial s) = es_current_step s"
  "es_step_name (e2e_clearKeyMaterial s) = es_step_name s" "es_mode (e2e_clearKeyMaterial s) = es_mode s"
  "es_mode_label (e2e_clearKeyMaterial s) = es_mode_label s"
  "es_completed_cycles (e2e_clearKeyMaterial s) = es_completed_cycles s"
  "es_total_bytes (e2e_clearKeyMaterial s) = es_total_bytes s"
  "es_total_packets (e2e_clearKeyMaterial s) = es_total_packets s"
  "es_last_error (e2e_clearKeyMaterial s) = es_last_error s" "es_rate_bps (e2e_clearKeyMaterial s) = es_rate_bps s"
  "es_nominal_cycle_ms (e2e_clearKeyMaterial s) = es_nominal_cycle_ms s"
  "es_packets_per_cycle (e2e_clearKeyMaterial s) = es_packets_per_cycle s"
  "es_history (e2e_clearKeyMaterial s) = es_history s" "es_steps_total (e2e_clearKeyMaterial s) = es_steps_total s"
  "es_actions (e2e_clearKeyMaterial s) = es_actions s"
  "es_actions_total (e2e_clearKeyMaterial s) = es_actions_total s" "e_timer (e2e_clearKeyMaterial s) = e_timer s"
  "e_stepStart (e2e_clearKeyMaterial s) = e_stepStart s" "e_cycleStart (e2e_clearKeyMaterial s) = e_cycleStart s"
  "e_cyclePackets (e2e_clearKeyMaterial s) = e_cyclePackets s" "e_keyId (e2e_clearKeyMaterial s) = e_keyId s"
  "e_cycleBytes (e2e_clearKeyMaterial s) = e_cycleBytes s" "e_alicePool (e2e_clearKeyMaterial s) = e_alicePool s"
  "e_perfs (e2e_clearKeyMaterial s) = e_perfs s" "e_dates (e2e_clearKeyMaterial s) = e_dates s"
  "e_draws (e2e_clearKeyMaterial s) = e_draws s" "e_uuids (e2e_clearKeyMaterial s) = e_uuids s"
  by (simp_all add: e2e_clearKeyMaterial_def)

lemma e2e_ensureLoop_frame [simp]:
  "es_status (e2e_ensureLoop env s) = es_status s" "es_failed_layer (e2e_ensureLoop env s) = es_failed_layer s"
  "es_failure_is_fatal (e2e_ensureLoop env s) = es_failure_is_fatal s"
  "es_current_step (e2e_ensureLoop env s) = es_current_step s" "es_step_name (e2e_ensureLoop env s) = es_step_name s"
  "es_mode (e2e_ensureLoop env s) = es_mode s" "es_mode_label (e2e_ensureLoop env s) = es_mode_label s"
  "es_completed_cycles (e2e_ensureLoop env s) = es_completed_cycles s"
  "es_total_bytes (e2e_ensureLoop env s) = es_total_bytes s"
  "es_total_packets (e2e_ensureLoop env s) = es_total_packets s"
  "es_last_key_id (e2e_ensureLoop env s) = es_last_key_id s"
  "es_last_psk_prefix (e2e_ensureLoop env s) = es_last_psk_prefix s"
  "es_last_error (e2e_ensureLoop env s) = es_last_error s" "es_rate_bps (e2e_ensureLoop env s) = es_rate_bps s"
  "es_nominal_cycle_ms (e2e_ensureLoop env s) = es_nominal_cycle_ms s"
  "es_packets_per_cycle (e2e_ensureLoop env s) = es_packets_per_cycle s"
  "es_history (e2e_ensureLoop env s) = es_history s" "es_steps_total (e2e_ensureLoop env s) = es_steps_total s"
  "es_actions (e2e_ensureLoop env s) = es_actions s" "es_actions_total (e2e_ensureLoop env s) = es_actions_total s"
  "e_cyclePackets (e2e_ensureLoop env s) = e_cyclePackets s" "e_qkdKey (e2e_ensureLoop env s) = e_qkdKey s"
  "e_pqcSecret (e2e_ensureLoop env s) = e_pqcSecret s" "e_derived (e2e_ensureLoop env s) = e_derived s"
  "e_keyId (e2e_ensureLoop env s) = e_keyId s" "e_cycleBytes (e2e_ensureLoop env s) = e_cycleBytes s"
  "e_alicePool (e2e_ensureLoop env s) = e_alicePool s" "e_dates (e2e_ensureLoop env s) = e_dates s"
  "e_draws (e2e_ensureLoop env s) = e_draws s" "e_uuids (e2e_ensureLoop env s) = e_uuids s"
  by (simp_all add: e2e_ensureLoop_def e2e_reads)

lemma e2e_enter_frame [simp]:
  "es_status (e2e_enter env n s) = es_status s" "es_failed_layer (e2e_enter env n s) = es_failed_layer s"
  "es_failure_is_fatal (e2e_enter env n s) = es_failure_is_fatal s" "es_mode (e2e_enter env n s) = es_mode s"
  "es_mode_label (e2e_enter env n s) = es_mode_label s"
  "es_completed_cycles (e2e_enter env n s) = es_completed_cycles s"
  "es_total_bytes (e2e_enter env n s) = es_total_bytes s" "es_total_packets (e2e_enter env n s) = es_total_packets s"
  "es_last_key_id (e2e_enter env n s) = es_last_key_id s"
  "es_last_psk_prefix (e2e_enter env n s) = es_last_psk_prefix s"
  "es_last_error (e2e_enter env n s) = es_last_error s" "es_rate_bps (e2e_enter env n s) = es_rate_bps s"
  "es_nominal_cycle_ms (e2e_enter env n s) = es_nominal_cycle_ms s"
  "es_packets_per_cycle (e2e_enter env n s) = es_packets_per_cycle s" "es_actions (e2e_enter env n s) = es_actions s"
  "es_actions_total (e2e_enter env n s) = es_actions_total s" "e_timer (e2e_enter env n s) = e_timer s"
  "e_qkdKey (e2e_enter env n s) = e_qkdKey s" "e_pqcSecret (e2e_enter env n s) = e_pqcSecret s"
  "e_derived (e2e_enter env n s) = e_derived s" "e_keyId (e2e_enter env n s) = e_keyId s"
  "e_alicePool (e2e_enter env n s) = e_alicePool s" "e_draws (e2e_enter env n s) = e_draws s"
  "e_uuids (e2e_enter env n s) = e_uuids s"
  by (simp_all add: e2e_enter_def e2e_reads Let_def)

lemma e2e_exit_frame [simp]:
  "es_status (e2e_exit env d s) = es_status s" "es_failed_layer (e2e_exit env d s) = es_failed_layer s"
  "es_failure_is_fatal (e2e_exit env d s) = es_failure_is_fatal s"
  "es_current_step (e2e_exit env d s) = es_current_step s" "es_step_name (e2e_exit env d s) = es_step_name s"
  "es_mode (e2e_exit env d s) = es_mode s" "es_mode_label (e2e_exit env d s) = es_mode_label s"
  "es_completed_cycles (e2e_exit env d s) = es_completed_cycles s"
  "es_total_bytes (e2e_exit env d s) = es_total_bytes s" "es_total_packets (e2e_exit env d s) = es_total_packets s"
  "es_last_key_id (e2e_exit env d s) = es_last_key_id s"
  "es_last_psk_prefix (e2e_exit env d s) = es_last_psk_prefix s" "es_last_error (e2e_exit env d s) = es_last_error s"
  "es_rate_bps (e2e_exit env d s) = es_rate_bps s" "es_nominal_cycle_ms (e2e_exit env d s) = es_nominal_cycle_ms s"
  "es_packets_per_cycle (e2e_exit env d s) = es_packets_per_cycle s"
  "es_steps_total (e2e_exit env d s) = es_steps_total s" "es_actions (e2e_exit env d s) = es_actions s"
  "es_actions_total (e2e_exit env d s) = es_actions_total s" "e_timer (e2e_exit env d s) = e_timer s"
  "e_stepStart (e2e_exit env d s) = e_stepStart s" "e_cycleStart (e2e_exit env d s) = e_cycleStart s"
  "e_cyclePackets (e2e_exit env d s) = e_cyclePackets s" "e_qkdKey (e2e_exit env d s) = e_qkdKey s"
  "e_pqcSecret (e2e_exit env d s) = e_pqcSecret s" "e_derived (e2e_exit env d s) = e_derived s"
  "e_keyId (e2e_exit env d s) = e_keyId s" "e_cycleBytes (e2e_exit env d s) = e_cycleBytes s"
  "e_alicePool (e2e_exit env d s) = e_alicePool s" "e_perfs (e2e_exit env d s) = e_perfs s"
  "e_draws (e2e_exit env d s) = e_draws s" "e_uuids (e2e_exit env d s) = e_uuids s"
  by (simp_all add: e2e_exit_def e2e_reads Let_def)

lemma e2e_enter_simps [simp]:
  "es_current_step (e2e_enter env n s) = n"
  "e_cyclePackets (e2e_enter env n s) = (if n = 1 then es_packets_per_cycle s else e_cyclePackets s)"
  "es_steps_total (e2e_enter env n s) = Suc (es_steps_total s)"
  by (simp_all add: e2e_enter_def e2e_reads Let_def)

lemma e2e_small_simps [simp]:
  "e_timer (e2e_stopLoop s) = False" "e_timer (e2e_ensureLoop env s) = True"
  "e_qkdKey (e2e_clearKeyMaterial s) = []" "e_pqcSecret (e2e_clearKeyMaterial s) = []" "e_derived (e2e_clearKeyMaterial s) = []"
  "es_last_psk_prefix (e2e_clearKeyMaterial s) = []"
  "es_actions_total (e2e_record env a s) = Suc (es_actions_total s)"
  by (simp_all add: e2e_stopLoop_def e2e_ensureLoop_def e2e_clearKeyMaterial_def e2e_record_def e2e_reads Let_def)

lemma complete_first_length [simp]: "length (complete_first n d dt hs) = length hs"
  by (induction hs) simp_all

lemma e2e_lengths [simp]:
  "length (es_history (e2e_enter env n s)) = min STEP_HISTORY_LIMIT (Suc (length (es_history s)))"
  "length (es_history (e2e_exit env dt s)) = length (es_history s)"
  by (simp_all add: e2e_enter_def e2e_exit_def e2e_reads Let_def)

lemma e2e_record_actions: "length (es_actions s) \<le> ACTION_LOG_LIMIT \<Longrightarrow> length (es_actions (e2e_record env a s)) \<le> ACTION_LOG_LIMIT"
  by (simp add: e2e_record_def e2e_reads Let_def length_push_shift_le)

section \<open>The invariant\<close>

definition psk_of :: "browser \<Rightarrow> bytes \<Rightarrow> bytes \<Rightarrow> e2e_mode \<Rightarrow> bytes" where
  "psk_of env q k m = (if q = [] \<and> k = [] then [] else deriveHkdfSha3 (br_noble env) q k (mode_text m))"

text \<open>The settings and the logs.\<close>

definition e2e_book_ok :: "e2e \<Rightarrow> bool" where
  "e2e_book_ok s \<longleftrightarrow> es_current_step s \<le> STEPS_PER_CYCLE
     \<and> length (es_history s) \<le> STEP_HISTORY_LIMIT \<and> length (es_history s) \<le> es_steps_total s
     \<and> length (es_actions s) \<le> ACTION_LOG_LIMIT
     \<and> es_mode_label s = MODE_LABEL (es_mode s) \<and> es_failure_is_fatal s = failureIsFatal s
     \<and> PACKETS_PER_CYCLE_MIN \<le> es_packets_per_cycle s \<and> es_packets_per_cycle s \<le> PACKETS_PER_CYCLE_MAX
     \<and> PACKETS_PER_CYCLE_MIN \<le> e_cyclePackets s \<and> e_cyclePackets s \<le> PACKETS_PER_CYCLE_MAX
     \<and> 0 \<le> e_alicePool s \<and> e_alicePool s \<le> KEY_POOL_CAPACITY
     \<and> (e_timer s \<longrightarrow> es_status s = Running)"

text \<open>
  The key material. From step 3 on the QKD key is that of the cycle's mode, at step 4 the derived key is
  the one of the two secrets held, and the prefix shown is always that of the derived key held.
\<close>

definition e2e_keys_ok :: "browser \<Rightarrow> e2e \<Rightarrow> bool" where
  "e2e_keys_ok env s \<longleftrightarrow> length (e_qkdKey s) \<in> {0, 32} \<and> length (e_pqcSecret s) \<in> {0, 32} \<and> length (e_derived s) \<in> {0, 32}
     \<and> es_last_psk_prefix s = take 16 (toHex (e_derived s))
     \<and> (3 \<le> es_current_step s \<longrightarrow> es_mode s = Mode_B \<longrightarrow> e_qkdKey s = [])
     \<and> (es_current_step s = 4 \<longrightarrow> (es_mode s = Mode_A \<longrightarrow> e_pqcSecret s = [])
          \<and> e_derived s = psk_of env (e_qkdKey s) (e_pqcSecret s) (es_mode s))"

definition e2e_wf :: "browser \<Rightarrow> e2e \<Rightarrow> bool" where
  "e2e_wf env s \<longleftrightarrow> e2e_book_ok s \<and> e2e_keys_ok env s"

lemma failureIsFatal_cong:
  "es_failed_layer s = es_failed_layer t \<Longrightarrow> es_mode s = es_mode t \<Longrightarrow> failureIsFatal s = failureIsFatal t"
  by (simp add: failureIsFatal_def split: option.splits e2e_layer.splits)

lemma failureIsFatal_upd [simp]:
  "failureIsFatal (s\<lparr>e_alicePool := a\<rparr>) = failureIsFatal s" "failureIsFatal (s\<lparr>e_qkdKey := k\<rparr>) = failureIsFatal s"
  "failureIsFatal (s\<lparr>e_keyId := i\<rparr>) = failureIsFatal s" "failureIsFatal (s\<lparr>e_draws := d\<rparr>) = failureIsFatal s"
  "failureIsFatal (s\<lparr>e_uuids := d\<rparr>) = failureIsFatal s" "failureIsFatal (s\<lparr>e_pqcSecret := k\<rparr>) = failureIsFatal s"
  "failureIsFatal (s\<lparr>e_derived := k\<rparr>) = failureIsFatal s" "failureIsFatal (s\<lparr>es_last_psk_prefix := i\<rparr>) = failureIsFatal s"
  "failureIsFatal (s\<lparr>es_status := st\<rparr>) = failureIsFatal s" "failureIsFatal (s\<lparr>es_last_error := i\<rparr>) = failureIsFatal s"
  "failureIsFatal (s\<lparr>e_cycleBytes := b\<rparr>) = failureIsFatal s" "failureIsFatal (s\<lparr>e_perfs := n\<rparr>) = failureIsFatal s"
  "failureIsFatal (s\<lparr>es_total_bytes := n\<rparr>) = failureIsFatal s" "failureIsFatal (s\<lparr>es_total_packets := n\<rparr>) = failureIsFatal s"
  "failureIsFatal (s\<lparr>es_completed_cycles := n\<rparr>) = failureIsFatal s" "failureIsFatal (s\<lparr>es_last_key_id := i\<rparr>) = failureIsFatal s"
  "failureIsFatal (s\<lparr>es_rate_bps := r\<rparr>) = failureIsFatal s" "failureIsFatal (s\<lparr>es_nominal_cycle_ms := c\<rparr>) = failureIsFatal s"
  "failureIsFatal (s\<lparr>es_current_step := n\<rparr>) = failureIsFatal s" "failureIsFatal (s\<lparr>es_step_name := i\<rparr>) = failureIsFatal s"
  "failureIsFatal (s\<lparr>es_packets_per_cycle := c\<rparr>) = failureIsFatal s" "failureIsFatal (s\<lparr>es_failure_is_fatal := b'\<rparr>) = failureIsFatal s"
  "failureIsFatal (s\<lparr>es_mode_label := i\<rparr>) = failureIsFatal s"
  by (rule failureIsFatal_cong; simp)+

lemma failureIsFatal_parts [simp]:
  "failureIsFatal (e2e_record env a s) = failureIsFatal s" "failureIsFatal (e2e_stopLoop s) = failureIsFatal s"
  "failureIsFatal (e2e_clearKeyMaterial s) = failureIsFatal s" "failureIsFatal (e2e_ensureLoop env s) = failureIsFatal s"
  "failureIsFatal (e2e_enter env n s) = failureIsFatal s" "failureIsFatal (e2e_exit env d s) = failureIsFatal s"
  by (rule failureIsFatal_cong; simp)+

lemma toHex_Nil [simp]: "toHex [] = []"
  by (simp add: toHex_def)

lemma e2e_new_wf: "e2e_wf env e2e_new"
  by (simp add: e2e_wf_def e2e_book_ok_def e2e_keys_ok_def e2e_new_def e2e_consts failureIsFatal_def)

lemma e2e_record_wf: "e2e_wf env s \<Longrightarrow> e2e_wf env (e2e_record env a s)"
  by (simp add: e2e_wf_def e2e_book_ok_def e2e_keys_ok_def e2e_record_actions)

lemma e2e_exit_wf: "e2e_wf env s \<Longrightarrow> e2e_wf env (e2e_exit env d s)"
  by (simp add: e2e_wf_def e2e_book_ok_def e2e_keys_ok_def)

lemma e2e_stopLoop_wf: "e2e_wf env s \<Longrightarrow> e2e_wf env (e2e_stopLoop s)"
  by (simp add: e2e_wf_def e2e_book_ok_def e2e_keys_ok_def)

lemma e2e_enter_book: "e2e_book_ok s \<Longrightarrow> n \<le> STEPS_PER_CYCLE \<Longrightarrow> e2e_book_ok (e2e_enter env n s)"
  by (simp add: e2e_book_ok_def) linarith

lemma e2e_enter_keys:
  "e2e_keys_ok env s \<Longrightarrow> n < 3 \<Longrightarrow> e2e_keys_ok env (e2e_enter env n s)"
  "e2e_keys_ok env s \<Longrightarrow> (es_mode s = Mode_B \<longrightarrow> e_qkdKey s = []) \<Longrightarrow> e2e_keys_ok env (e2e_enter env 3 s)"
  "e2e_keys_ok env s \<Longrightarrow> (es_mode s = Mode_B \<longrightarrow> e_qkdKey s = []) \<Longrightarrow> (es_mode s = Mode_A \<longrightarrow> e_pqcSecret s = [])
    \<Longrightarrow> e_derived s = psk_of env (e_qkdKey s) (e_pqcSecret s) (es_mode s) \<Longrightarrow> e2e_keys_ok env (e2e_enter env 4 s)"
  by (simp_all add: e2e_keys_ok_def)

lemma e2e_ensureLoop_wf: "e2e_wf env s \<Longrightarrow> es_status s = Running \<Longrightarrow> e2e_wf env (e2e_ensureLoop env s)"
  by (simp add: e2e_wf_def e2e_book_ok_def e2e_keys_ok_def)

text \<open>What the work of each step leaves, and that it keeps the invariant and prepares the next step.\<close>

lemma work_1_wf: "e2e_wf env s \<Longrightarrow> e2e_wf env (work_1 env s)"
  by (simp add: work_1_def Let_def e2e_wf_def e2e_book_ok_def e2e_keys_ok_def e2e_consts)

lemma draw_32: "browser_ok env \<Longrightarrow> draw env 32 s = (k, s') \<Longrightarrow> length k = 32 \<and> s' = s\<lparr>e_draws := Suc (e_draws s)\<rparr>"
  by (auto simp: draw_def randomBytes_def browser_ok_def)

lemma work_2_wf:
  assumes "browser_ok env" "e2e_wf env s" "es_current_step s = 2"
  shows "e2e_wf env (work_2 env s) \<and> (es_mode s = Mode_B \<longrightarrow> e_qkdKey (work_2 env s) = [])"
proof -
  obtain k t where d: "draw env 32 s = (k, t)" by fastforce
  note d' = draw_32 [OF assms(1) d]
  show ?thesis
    using assms(2,3) d'
    by (cases "es_failed_layer s = Some L_qkd"; cases "es_mode s")
      (simp_all add: work_2_def Let_def d randomUUID_def e2e_wf_def e2e_book_ok_def e2e_keys_ok_def e2e_consts)
qed

lemma work_3_keys:
  assumes "browser_ok env" "e2e_wf env s" "es_current_step s = 3"
  shows "e2e_wf env (work_3 env s) \<and> (es_mode s = Mode_B \<longrightarrow> e_qkdKey (work_3 env s) = [])
    \<and> (es_mode s = Mode_A \<longrightarrow> e_pqcSecret (work_3 env s) = [])
    \<and> e_derived (work_3 env s) = psk_of env (e_qkdKey (work_3 env s)) (e_pqcSecret (work_3 env s)) (es_mode s)"
proof -
  obtain k t where d: "draw env 32 s = (k, t)" by fastforce
  note d' = draw_32 [OF assms(1) d]
  have n: "noble_ok (br_noble env)" using assms(1) by (simp add: browser_ok_def)
  show ?thesis
    using assms(2,3) d' n
    by (cases "es_failed_layer s = Some L_pqc \<or> es_mode s = Mode_A")
      (auto simp: work_3_def Let_def d e2e_wf_def e2e_book_ok_def e2e_keys_ok_def psk_of_def)
qed

lemma work_4_wf:
  assumes "e2e_wf env s"
  shows "e2e_wf env (snd (work_4 env s))"
proof -
  have halt: "e2e_wf env (e2e_exit env dt (e2e_stopLoop (s\<lparr>es_last_error := m, es_status := Paused\<rparr>)))" for dt m
    using assms by (simp add: e2e_wf_def e2e_book_ok_def e2e_keys_ok_def)
  have upd: "e2e_wf env (s\<lparr>e_draws := a, e_cycleBytes := b, e_perfs := c, es_total_bytes := d, es_total_packets := e,
      es_completed_cycles := f, es_last_key_id := g, es_rate_bps := h, es_nominal_cycle_ms := i, es_last_error := j\<rparr>)"
    for a b c d e f g h i j using assms by (simp add: e2e_wf_def e2e_book_ok_def e2e_keys_ok_def)
  have dr: "e2e_wf env (s\<lparr>e_draws := a\<rparr>)" for a using assms by (simp add: e2e_wf_def e2e_book_ok_def e2e_keys_ok_def)
  show ?thesis
  proof (cases "failureIsFatal s")
    case True
    then show ?thesis using halt by (simp add: work_4_def)
  next
    case False
    then show ?thesis
      by (cases "seal_packets env (e_derived s) 0 (nat (e_cyclePackets s)) (e_draws s)")
        (auto simp: work_4_def Let_def perf_now_def dr upd intro!: e2e_exit_wf split: option.splits)
  qed
qed

lemma work_4_frame [simp]:
  "es_current_step (snd (work_4 env s)) = es_current_step s" "es_mode (snd (work_4 env s)) = es_mode s"
  "es_failed_layer (snd (work_4 env s)) = es_failed_layer s"
  "e_timer (snd (work_4 env s)) = (e_timer s \<and> \<not> failureIsFatal s)"
  by (cases "failureIsFatal s"; cases "seal_packets env (e_derived s) 0 (nat (e_cyclePackets s)) (e_draws s)";
      cases "fst (seal_packets env (e_derived s) 0 (nat (e_cyclePackets s)) (e_draws s))";
      simp add: work_4_def Let_def perf_now_def)+

lemma e2e_exit_step [simp]: "es_current_step (work_1 env s) = es_current_step s" "es_current_step (work_2 env s) = es_current_step s"
  "es_current_step (work_3 env s) = es_current_step s"
  by (simp_all add: work_1_def work_2_def work_3_def Let_def e2e_reads)

lemma to_step_0:
  "e2e_wf env s \<Longrightarrow> e2e_wf env (s\<lparr>es_current_step := 0, es_step_name := n\<rparr>)"
  by (simp add: e2e_wf_def e2e_book_ok_def e2e_keys_ok_def)

text \<open>One step: its work, then the move to the next.\<close>

lemma step_work_wf:
  assumes env: "browser_ok env" and wf: "e2e_wf env s" and r: "runStepWork env s = (threw, s')"
  shows "e2e_wf env s' \<and> (\<not> threw \<longrightarrow> e2e_wf env (e2e_advance env b s'))"
proof -
  have st: "es_current_step s \<le> 4" using wf by (simp add: e2e_wf_def e2e_book_ok_def STEPS_PER_CYCLE_def)
  have enter: "e2e_wf env t \<Longrightarrow> n \<le> 4 \<Longrightarrow> e2e_keys_ok env (e2e_enter env n t) \<Longrightarrow> e2e_wf env (e2e_enter env n t)" for n t
    using e2e_enter_book [of t n env] by (simp add: e2e_wf_def STEPS_PER_CYCLE_def)
  have low: "e2e_wf env t \<Longrightarrow> n < 3 \<Longrightarrow> e2e_wf env (e2e_enter env n t)" for n t
    by (rule enter) (simp_all add: e2e_wf_def e2e_enter_keys(1))
  consider "es_current_step s = 0" | "es_current_step s = 1" | "es_current_step s = 2" | "es_current_step s = 3" | "es_current_step s = 4"
    using st by linarith
  then show ?thesis
  proof cases
    case 1
    with wf r low [of s 1] show ?thesis by (auto simp: runStepWork_def e2e_advance_def STEPS_PER_CYCLE_def)
  next
    case 2
    with wf r work_1_wf [OF wf] low [of "work_1 env s" 2] show ?thesis
      by (auto simp: runStepWork_def e2e_advance_def STEPS_PER_CYCLE_def numeral_2_eq_2)
  next
    case 3
    note w = work_2_wf [OF env wf 3]
    have "es_mode (work_2 env s) = es_mode s" by (simp add: work_2_def Let_def e2e_reads)
    with w have "e2e_wf env (e2e_enter env 3 (work_2 env s))"
      by (intro enter) (simp_all add: e2e_wf_def e2e_enter_keys(2))
    with 3 r w show ?thesis by (auto simp: runStepWork_def e2e_advance_def STEPS_PER_CYCLE_def)
  next
    case 4
    note w = work_3_keys [OF env wf 4]
    have "es_mode (work_3 env s) = es_mode s" by (simp add: work_3_def Let_def e2e_reads)
    with w have "e2e_wf env (e2e_enter env 4 (work_3 env s))"
      by (intro enter) (simp_all add: e2e_wf_def e2e_enter_keys(3))
    with 4 r w show ?thesis by (auto simp: runStepWork_def e2e_advance_def STEPS_PER_CYCLE_def)
  next
    case 5
    have w: "e2e_wf env s'" using work_4_wf [OF wf] 5 r by (simp add: runStepWork_def)
    have c: "es_current_step s' = 4"
    proof -
      have "s' = snd (work_4 env s)" using 5 r by (simp add: runStepWork_def)
      then show ?thesis using 5 by simp
    qed
    have "e2e_wf env (e2e_advance env b s')"
      using to_step_0 [OF w, of "''idle''"] low [of "s'\<lparr>es_current_step := 0, es_step_name := ''idle''\<rparr>" 1] c
      by (simp add: e2e_advance_def STEPS_PER_CYCLE_def Let_def)
    with w show ?thesis by simp
  qed
qed

section \<open>Every control keeps the invariant\<close>

lemma e2e_wf_upd:
  "e2e_wf env s \<Longrightarrow> st = Running \<or> \<not> e_timer s \<Longrightarrow> e2e_wf env (s\<lparr>es_status := st\<rparr>)"
  "e2e_wf env s \<Longrightarrow> e2e_wf env (s\<lparr>es_last_error := m\<rparr>)"
  "e2e_wf env s \<Longrightarrow> e2e_wf env (s\<lparr>e_cycleBytes := 0, e_keyId := k, e_alicePool := 0\<rparr>)"
  "e2e_wf env s \<Longrightarrow> e2e_wf env (s\<lparr>e_perfs := n\<rparr>)"
  "e2e_wf env s \<Longrightarrow> e2e_wf env (s\<lparr>e_cycleBytes := 0, e_keyId := k, es_last_error := m\<rparr>)"
  by (auto simp: e2e_wf_def e2e_book_ok_def e2e_keys_ok_def KEY_POOL_CAPACITY_def)

lemma e2e_clear_wf: "e2e_wf env s \<Longrightarrow> e2e_wf env (e2e_clearKeyMaterial s)"
  by (simp add: e2e_wf_def e2e_book_ok_def e2e_keys_ok_def psk_of_def)

lemma e2e_enter_1_wf: "e2e_wf env s \<Longrightarrow> e2e_wf env (e2e_enter env 1 s)"
  unfolding e2e_wf_def by (intro conjI e2e_enter_book e2e_enter_keys(1)) (simp_all add: STEPS_PER_CYCLE_def)

lemma e2e_start_wf: "e2e_wf env s \<Longrightarrow> e2e_wf env (e2e_start env s)"
  unfolding e2e_start_def Let_def
  by (intro e2e_ensureLoop_wf) (simp_all add: e2e_enter_1_wf [simplified] e2e_wf_upd e2e_record_wf)

lemma e2e_pause_wf: "e2e_wf env s \<Longrightarrow> e2e_wf env (e2e_pause env s)"
proof -
  assume "e2e_wf env s"
  then have "e2e_wf env (e2e_record env ''pause'' s)" by (rule e2e_record_wf)
  then show ?thesis by (simp add: e2e_pause_def e2e_wf_def e2e_book_ok_def e2e_keys_ok_def)
qed

lemma e2e_resume_wf: "e2e_wf env s \<Longrightarrow> e2e_wf env (e2e_resume env s)"
  unfolding e2e_resume_def by (intro e2e_ensureLoop_wf e2e_wf_upd e2e_record_wf) simp_all

lemma e2e_reset_wf: "e2e_wf env s \<Longrightarrow> e2e_wf env (e2e_reset env s)"
proof -
  assume "e2e_wf env s"
  then have "e2e_wf env (e2e_clearKeyMaterial (e2e_fresh (es_mode s) (es_packets_per_cycle s) (e2e_stopLoop s)))"
    by (simp add: e2e_wf_def e2e_book_ok_def e2e_keys_ok_def e2e_fresh_def e2e_clearKeyMaterial_def e2e_stopLoop_def
        failureIsFatal_def psk_of_def)
  then show ?thesis unfolding e2e_reset_def by (intro e2e_record_wf e2e_wf_upd)
qed

lemma e2e_abort_wf: "e2e_wf env s \<Longrightarrow> e2e_wf env (e2e_abort env s)"
proof -
  assume "e2e_wf env s"
  then have "e2e_wf env ((e2e_stopLoop (e2e_record env ''abort'' s))\<lparr>es_status := Idle\<rparr>)"
    by (intro e2e_wf_upd e2e_stopLoop_wf e2e_record_wf) simp_all
  from to_step_0 [OF this, of "''aborted''"]
  show ?thesis unfolding e2e_abort_def by (intro e2e_wf_upd e2e_clear_wf) simp
qed

lemma e2e_step_wf: "browser_ok env \<Longrightarrow> e2e_wf env s \<Longrightarrow> e2e_wf env (snd (e2e_step env s))"
proof (cases "es_status s = Running")
  case False
  assume env: "browser_ok env" and wf: "e2e_wf env s"
  define s1 where "s1 = (e2e_record env ''step'' s)\<lparr>es_status := Stepped\<rparr>"
  have t: "\<not> e_timer s" using wf False by (auto simp: e2e_wf_def e2e_book_ok_def)
  have w1: "e2e_wf env s1" unfolding s1_def by (intro e2e_wf_upd e2e_record_wf wf) (simp add: t)
  define s2 where "s2 = (if es_current_step s1 = 0 then e2e_enter env 1 s1 else s1)"
  have w2: "e2e_wf env s2" using w1 e2e_enter_1_wf by (simp add: s2_def)
  have t2: "\<not> e_timer s2" using t by (simp add: s2_def s1_def)
  obtain threw s3 where r: "runStepWork env s2 = (threw, s3)" by fastforce
  note w3 = step_work_wf [OF env w2 r, of True]
  have "\<not> e_timer s3"
  proof -
    have "s3 = snd (runStepWork env s2)" using r by simp
    then show ?thesis using t2
      by (simp add: runStepWork_def work_1_def work_2_def work_3_def Let_def e2e_reads)
  qed
  then have t4: "\<not> e_timer (e2e_advance env True s3)" by (simp add: e2e_advance_def Let_def)
  show ?thesis
    using False w3 t4 r e2e_wf_upd(1) [of env "e2e_advance env True s3" Paused]
    by (simp add: e2e_step_def Let_def flip: s1_def s2_def)
qed (simp add: e2e_step_def)

lemma e2e_setMode_wf: "e2e_wf env s \<Longrightarrow> e2e_wf env (snd (e2e_setMode env m s))"
  using e2e_record_wf [of env s "''mode '' @ mode_text m"]
  by (simp add: e2e_setMode_def Let_def e2e_wf_def e2e_book_ok_def e2e_keys_ok_def)

lemma e2e_setPackets_wf: "e2e_wf env s \<Longrightarrow> e2e_wf env (snd (e2e_setPacketsPerCycle env v s))"
  using e2e_record_wf [of env s]
  by (auto simp: e2e_setPacketsPerCycle_def e2e_wf_def e2e_book_ok_def e2e_keys_ok_def split: option.splits)

lemma e2e_failure_wf:
  "e2e_wf env s \<Longrightarrow> e2e_wf env (e2e_injectFailure env l s)" "e2e_wf env s \<Longrightarrow> e2e_wf env (e2e_clearFailure env s)"
  using e2e_record_wf [of env s]
  by (simp_all add: e2e_injectFailure_def e2e_clearFailure_def Let_def e2e_wf_def e2e_book_ok_def e2e_keys_ok_def)
    (simp_all add: failureIsFatal_def)

lemma e2e_dispose_wf: "e2e_wf env s \<Longrightarrow> e2e_wf env (e2e_dispose s)"
  unfolding e2e_dispose_def by (intro e2e_clear_wf e2e_stopLoop_wf)

lemma e2e_tick_wf: "browser_ok env \<Longrightarrow> e2e_wf env s \<Longrightarrow> e2e_wf env (snd (e2e_tick env s))"
proof -
  assume env: "browser_ok env" and wf: "e2e_wf env s"
  have w: "e2e_wf env (s\<lparr>e_perfs := Suc (e_perfs s)\<rparr>)" using wf by (rule e2e_wf_upd)
  obtain threw s3 where r: "runStepWork env (s\<lparr>e_perfs := Suc (e_perfs s)\<rparr>) = (threw, s3)" by fastforce
  from step_work_wf [OF env w r, of False] w r wf show ?thesis by (simp add: e2e_tick_def perf_now_def Let_def)
qed

section \<open>Runs\<close>

datatype e2e_input = E_start | E_pause | E_resume | E_reset | E_abort | E_step | E_mode e2e_mode | E_packets "int option"
  | E_dispose | E_inject e2e_layer | E_clear | E_tick

text \<open>The callback of a cleared interval is not called.\<close>

fun e2e_do :: "browser \<Rightarrow> e2e_input \<Rightarrow> e2e \<Rightarrow> e2e" where
  "e2e_do env E_start s = e2e_start env s"
| "e2e_do env E_pause s = e2e_pause env s"
| "e2e_do env E_resume s = e2e_resume env s"
| "e2e_do env E_reset s = e2e_reset env s"
| "e2e_do env E_abort s = e2e_abort env s"
| "e2e_do env E_step s = snd (e2e_step env s)"
| "e2e_do env (E_mode m) s = snd (e2e_setMode env m s)"
| "e2e_do env (E_packets v) s = snd (e2e_setPacketsPerCycle env v s)"
| "e2e_do env E_dispose s = e2e_dispose s"
| "e2e_do env (E_inject l) s = e2e_injectFailure env l s"
| "e2e_do env E_clear s = e2e_clearFailure env s"
| "e2e_do env E_tick s = (if e_timer s then snd (e2e_tick env s) else s)"

definition e2e_run :: "browser \<Rightarrow> e2e_input list \<Rightarrow> e2e" where
  "e2e_run env is = foldl (\<lambda>s i. e2e_do env i s) e2e_new is"

lemma e2e_do_wf: "browser_ok env \<Longrightarrow> e2e_wf env s \<Longrightarrow> e2e_wf env (e2e_do env i s)"
  by (cases i) (simp_all add: e2e_start_wf e2e_pause_wf e2e_resume_wf e2e_reset_wf e2e_abort_wf e2e_step_wf e2e_setMode_wf
      e2e_setPackets_wf e2e_dispose_wf e2e_failure_wf e2e_tick_wf)

lemma e2e_run_snoc: "e2e_run env (is @ [i]) = e2e_do env i (e2e_run env is)"
  by (simp add: e2e_run_def)

lemma e2e_run_wf: "browser_ok env \<Longrightarrow> e2e_wf env (e2e_run env is)"
  by (induction "is" rule: rev_induct) (simp_all add: e2e_run_snoc e2e_do_wf, simp add: e2e_run_def e2e_new_wf)

end
