(* ===== verification/E2E_Claims.thy ===== *)
theory E2E_Claims
  imports E2E_Inv
begin

text \<open>
  The properties of the end-to-end simulator: what every run keeps, what a whole cycle does in each mode
  under each failure, and the run that gets stuck.
\<close>

section \<open>Sealing\<close>

definition sealed_bytes :: "nat \<Rightarrow> nat \<Rightarrow> nat" where
  "sealed_bytes i n = sum_list (map (\<lambda>j. length (payload j) + 16 + 12) [i..<i + n])"

lemma seal_packets_32:
  assumes "browser_ok env" "length key = 32"
  shows "seal_packets env key i n dr = (Some (sealed_bytes i n), dr + n)"
proof (induction n arbitrary: i dr)
  case (Suc n)
  have "[i..<i + Suc n] = i # [Suc i..<Suc i + n]" using upt_conv_Cons [of i "i + Suc n"] by simp
  then show ?case
    using Suc [of "Suc i" "Suc dr"] chachaEncrypt_32 [of "br_noble env" "br_random env" key "payload i" dr] assms
    by (simp add: sealed_bytes_def browser_ok_def)
qed (simp add: sealed_bytes_def)

lemma seal_packets_no_key:
  assumes "browser_ok env" "length key \<noteq> 32" "0 < n"
  shows "seal_packets env key i n dr = (None, Suc dr)"
  using assms chachaEncrypt_wrong_key [of "br_noble env" key "br_random env" "payload i" dr]
  by (cases n) (simp_all add: browser_ok_def)

section \<open>A cycle, step by step\<close>

text \<open>What a manual step does to the fields a cycle is about.\<close>

definition run_settings :: "e2e \<Rightarrow> e2e_layer option \<times> e2e_mode \<times> int" where
  "run_settings s = (es_failed_layer s, es_mode s, es_packets_per_cycle s)"

definition run_counts :: "e2e \<Rightarrow> nat \<times> nat \<times> nat" where
  "run_counts s = (es_completed_cycles s, es_total_packets s, es_total_bytes s)"

definition secrets :: "e2e \<Rightarrow> bytes \<times> bytes \<times> bytes" where
  "secrets s = (e_qkdKey s, e_pqcSecret s, e_derived s)"

lemma step_1:
  assumes "es_status s \<noteq> Running" "es_current_step s = 0"
  shows "\<exists>t. e2e_step env s = (False, t) \<and> es_current_step t = 2 \<and> es_status t \<noteq> Running \<and> run_settings t = run_settings s
    \<and> run_counts t = run_counts s \<and> e_cyclePackets t = es_packets_per_cycle s"
  using assms
  by (simp add: e2e_step_def runStepWork_def e2e_advance_def Let_def work_1_def STEPS_PER_CYCLE_def run_settings_def run_counts_def)

lemma step_2:
  assumes "browser_ok env" "es_status s \<noteq> Running" "es_current_step s = 2"
  shows "\<exists>t. e2e_step env s = (False, t) \<and> es_current_step t = 3 \<and> es_status t \<noteq> Running \<and> run_settings t = run_settings s
    \<and> run_counts t = run_counts s \<and> e_cyclePackets t = e_cyclePackets s
    \<and> (if es_failed_layer s = Some L_qkd \<or> es_mode s = Mode_B then e_qkdKey t = [] else length (e_qkdKey t) = 32)"
proof -
  have d: "draw env 32 u = (br_random env (e_draws u) 32, u\<lparr>e_draws := Suc (e_draws u)\<rparr>)" for u
    by (simp add: draw_def randomBytes_def)
  have "tape_ok (br_random env)" using assms(1) by (simp add: browser_ok_def)
  with assms(2,3) show ?thesis
    by (cases "es_mode s")
      (simp_all add: e2e_step_def runStepWork_def e2e_advance_def Let_def work_2_def STEPS_PER_CYCLE_def run_settings_def run_counts_def
        d randomUUID_def)
qed

lemma step_3:
  assumes "browser_ok env" "es_status s \<noteq> Running" "es_current_step s = 3"
  shows "\<exists>t. e2e_step env s = (False, t) \<and> es_current_step t = 4 \<and> es_status t \<noteq> Running \<and> run_settings t = run_settings s
    \<and> run_counts t = run_counts s \<and> e_cyclePackets t = e_cyclePackets s \<and> e_qkdKey t = e_qkdKey s
    \<and> (if es_failed_layer s = Some L_pqc \<or> es_mode s = Mode_A then e_pqcSecret t = [] else length (e_pqcSecret t) = 32)
    \<and> e_derived t = psk_of env (e_qkdKey t) (e_pqcSecret t) (es_mode s)
    \<and> es_last_psk_prefix t = take 16 (toHex (e_derived t))"
proof -
  have d: "draw env 32 u = (br_random env (e_draws u) 32, u\<lparr>e_draws := Suc (e_draws u)\<rparr>)" for u
    by (simp add: draw_def randomBytes_def)
  have "tape_ok (br_random env)" using assms(1) by (simp add: browser_ok_def)
  moreover from tape_ok_length [OF this] have "br_random env i 32 \<noteq> []" for i by (metis length_0_conv zero_neq_numeral)
  ultimately show ?thesis
    using assms(2,3)
    by (cases "es_failed_layer s = Some L_pqc \<or> es_mode s = Mode_A"; cases "e_qkdKey s = []")
      (auto simp: e2e_step_def runStepWork_def e2e_advance_def Let_def work_3_def STEPS_PER_CYCLE_def run_settings_def run_counts_def
        d psk_of_def)
qed

lemma step_4:
  assumes env: "browser_ok env" and st: "es_status s \<noteq> Running" "es_current_step s = 4"
    and key: "\<not> failureIsFatal s \<longrightarrow> length (e_derived s) = 32"
  shows "\<exists>t. e2e_step env s = (False, t) \<and> es_current_step t = 0 \<and> run_settings t = run_settings s
    \<and> es_last_psk_prefix t = es_last_psk_prefix s
    \<and> (if failureIsFatal s then es_status t = Paused \<and> run_counts t = run_counts s \<and> es_last_error t = halt_text s
       else es_status t \<noteq> Running \<and> es_last_error t = degraded_text s
         \<and> run_counts t = (Suc (es_completed_cycles s), es_total_packets s + nat (e_cyclePackets s),
             es_total_bytes s + sealed_bytes 0 (nat (e_cyclePackets s))))"
proof (cases "failureIsFatal s")
  case True
  have h: "halt_text (e2e_record env a s\<lparr>es_status := Stepped\<rparr>) = halt_text s" for a
    by (simp add: halt_text_def split: option.splits e2e_layer.splits)
  from True st h show ?thesis
    by (simp add: e2e_step_def runStepWork_def e2e_advance_def Let_def work_4_def STEPS_PER_CYCLE_def run_settings_def run_counts_def)
next
  case False
  have g: "degraded_text (t\<lparr>e_perfs := a\<rparr>) = degraded_text t" "degraded_text (t\<lparr>e_draws := b\<rparr>) = degraded_text t"
    "degraded_text (t\<lparr>e_cycleBytes := c\<rparr>) = degraded_text t" "degraded_text (t\<lparr>es_total_bytes := c\<rparr>) = degraded_text t"
    "degraded_text (t\<lparr>es_total_packets := c\<rparr>) = degraded_text t" "degraded_text (t\<lparr>es_status := st'\<rparr>) = degraded_text t"
    "degraded_text (e2e_record env m t) = degraded_text t" for t a b c st' m
    by (simp_all add: degraded_text_def split: option.splits)
  from False st seal_packets_32 [OF env key [rule_format, OF False]] show ?thesis
    by (simp add: e2e_step_def runStepWork_def e2e_advance_def Let_def work_4_def STEPS_PER_CYCLE_def run_settings_def run_counts_def
        perf_now_def g)
qed

section \<open>Properties\<close>

text \<open>
  What the page shows of a run is always within its bounds: after any sequence of buttons and timer
  callbacks the step is at most 4, the pool holds between 0 and 8 keys, the logs keep their limits and the
  totals count at least what is kept, the packet counts stay within the settings' range, the fatality flag and
  the mode label are those of the current failure and mode, and the loop runs only while the run is running.
\<close>

theorem e2e_state_sound:
  assumes "browser_ok env" "s = e2e_run env is"
  shows "es_current_step s \<le> STEPS_PER_CYCLE \<and> 0 \<le> e_alicePool s \<and> e_alicePool s \<le> KEY_POOL_CAPACITY
    \<and> length (es_history s) \<le> STEP_HISTORY_LIMIT \<and> length (es_history s) \<le> es_steps_total s
    \<and> length (es_actions s) \<le> ACTION_LOG_LIMIT
    \<and> PACKETS_PER_CYCLE_MIN \<le> e_cyclePackets s \<and> e_cyclePackets s \<le> PACKETS_PER_CYCLE_MAX
    \<and> es_failure_is_fatal s = failureIsFatal s \<and> es_mode_label s = MODE_LABEL (es_mode s)
    \<and> (e_timer s \<longrightarrow> es_status s = Running)"
  using e2e_run_wf [OF assms(1), of "is"] unfolding assms(2) e2e_wf_def e2e_book_ok_def by blast

theorem e2e_state_sound_witness:
  "es_current_step (e2e_run demo_browser [E_start, E_tick, E_inject L_data, E_tick]) \<le> STEPS_PER_CYCLE"
  using e2e_state_sound [OF demo_browser_ok refl, of "[E_start, E_tick, E_inject L_data, E_tick]"] by blast

text \<open>
  C17. The key shown is never a public constant and belongs to the mode: in every run the prefix on screen is
  that of the derived key held; at the data-exchange step that key is HKDF over the two secrets held, of which
  a QKD-only run has no PQC part and a PQC-only run no QKD part, and with no secret at all nothing is shown.
\<close>

theorem e2e_key_provenance:
  assumes "browser_ok env" "s = e2e_run env is"
  shows "es_last_psk_prefix s = take 16 (toHex (e_derived s))
    \<and> (es_current_step s = 4 \<longrightarrow>
        (if e_qkdKey s = [] \<and> e_pqcSecret s = [] then es_last_psk_prefix s = []
         else e_derived s = deriveHkdfSha3 (br_noble env) (e_qkdKey s) (e_pqcSecret s) (mode_text (es_mode s)))
        \<and> (es_mode s = Mode_A \<longrightarrow> e_pqcSecret s = []) \<and> (es_mode s = Mode_B \<longrightarrow> e_qkdKey s = []))"
proof -
  have k: "e2e_keys_ok env s" using e2e_run_wf [OF assms(1), of "is"] assms(2) by (simp add: e2e_wf_def)
  show ?thesis using k by (auto simp: e2e_keys_ok_def psk_of_def)
qed

theorem e2e_key_provenance_witness:
  "es_last_psk_prefix (e2e_run demo_browser [E_start, E_tick, E_tick, E_tick])
    = take 16 (toHex (e_derived (e2e_run demo_browser [E_start, E_tick, E_tick, E_tick])))"
  using e2e_key_provenance [OF demo_browser_ok refl, of "[E_start, E_tick, E_tick, E_tick]"] by blast

text \<open>Four manual steps.\<close>

definition four_steps :: "browser \<Rightarrow> e2e \<Rightarrow> e2e" where
  "four_steps env s = snd (e2e_step env (snd (e2e_step env (snd (e2e_step env (snd (e2e_step env s)))))))"

lemma derived_32:
  assumes "browser_ok env"
    and q: "if f = Some L_qkd \<or> m = Mode_B then q = [] else length q = 32"
    and k: "if f = Some L_pqc \<or> m = Mode_A then k = [] else length k = 32"
    and live: "\<not> (case f of None \<Rightarrow> False | Some L_data \<Rightarrow> True | Some L_qkd \<Rightarrow> m = Mode_A | Some L_pqc \<Rightarrow> m = Mode_B)"
  shows "length (psk_of env q k m) = 32"
proof -
  have n: "noble_ok (br_noble env)" using assms(1) by (simp add: browser_ok_def)
  have "q \<noteq> [] \<or> k \<noteq> []"
    using q k live by (cases m) (auto split: option.splits e2e_layer.splits if_splits)
  then show ?thesis using n by (auto simp: psk_of_def)
qed

text \<open>
  C15. The outcome of a cycle is decided by the mode and the failed layer. From between two cycles, four manual
  steps always bring the run back between two cycles without throwing. If the failed layer is fatal for the
  mode the run ends paused with its counters untouched and the reason shown; otherwise one more cycle is
  completed with exactly the configured number of packets sealed, each at its length plus 28 bytes, and a
  failed leg is reported as degraded.
\<close>

theorem e2e_cycle_outcome:
  assumes env: "browser_ok env" and st: "es_status s \<noteq> Running" "es_current_step s = 0"
    and range: "PACKETS_PER_CYCLE_MIN \<le> es_packets_per_cycle s"
  shows "es_current_step (four_steps env s) = 0 \<and> run_settings (four_steps env s) = run_settings s
    \<and> (if failureIsFatal s
       then es_status (four_steps env s) = Paused \<and> run_counts (four_steps env s) = run_counts s
         \<and> es_last_error (four_steps env s) = halt_text s
       else es_status (four_steps env s) \<noteq> Running \<and> es_last_error (four_steps env s) = degraded_text s
         \<and> run_counts (four_steps env s) = (Suc (es_completed_cycles s),
             es_total_packets s + nat (es_packets_per_cycle s), es_total_bytes s + sealed_bytes 0 (nat (es_packets_per_cycle s))))"
proof -
  obtain a where a: "e2e_step env s = (False, a)" "es_current_step a = 2" "es_status a \<noteq> Running" "run_settings a = run_settings s"
    "run_counts a = run_counts s" "e_cyclePackets a = es_packets_per_cycle s" using step_1 [OF st] by blast
  obtain b where b: "e2e_step env a = (False, b)" "es_current_step b = 3" "es_status b \<noteq> Running" "run_settings b = run_settings a"
    "run_counts b = run_counts a" "e_cyclePackets b = e_cyclePackets a"
    "if es_failed_layer a = Some L_qkd \<or> es_mode a = Mode_B then e_qkdKey b = [] else length (e_qkdKey b) = 32"
    using step_2 [OF env a(3,2)] by blast
  obtain c where c: "e2e_step env b = (False, c)" "es_current_step c = 4" "es_status c \<noteq> Running" "run_settings c = run_settings b"
    "run_counts c = run_counts b" "e_cyclePackets c = e_cyclePackets b" "e_qkdKey c = e_qkdKey b"
    "if es_failed_layer b = Some L_pqc \<or> es_mode b = Mode_A then e_pqcSecret c = [] else length (e_pqcSecret c) = 32"
    "e_derived c = psk_of env (e_qkdKey c) (e_pqcSecret c) (es_mode b)"
    using step_3 [OF env b(3,2)] by blast
  have f: "es_failed_layer a = es_failed_layer s" "es_mode a = es_mode s" "es_failed_layer b = es_failed_layer s" "es_mode b = es_mode s"
    "es_failed_layer c = es_failed_layer s" "es_mode c = es_mode s"
    using a(4) b(4) c(4) by (simp_all add: run_settings_def)
  have fatal: "failureIsFatal c = failureIsFatal s" by (rule failureIsFatal_cong) (simp_all add: f)
  have texts: "halt_text c = halt_text s" "degraded_text c = degraded_text s"
    by (simp_all add: halt_text_def degraded_text_def f split: option.splits e2e_layer.splits)
  have "length (e_derived c) = 32" if "\<not> failureIsFatal s"
    unfolding c(9) using derived_32 [OF env, of "es_failed_layer s" "es_mode s" "e_qkdKey c" "e_pqcSecret c"] b(7) c(7,8) f that
    by (simp add: failureIsFatal_def)
  then have "\<not> failureIsFatal c \<longrightarrow> length (e_derived c) = 32" by (simp add: fatal)
  from step_4 [OF env c(3,2) this] obtain d where d: "e2e_step env c = (False, d)" "es_current_step d = 0" "run_settings d = run_settings c"
    "if failureIsFatal c then es_status d = Paused \<and> run_counts d = run_counts c \<and> es_last_error d = halt_text c
       else es_status d \<noteq> Running \<and> es_last_error d = degraded_text c
         \<and> run_counts d = (Suc (es_completed_cycles c), es_total_packets c + nat (e_cyclePackets c),
             es_total_bytes c + sealed_bytes 0 (nat (e_cyclePackets c)))" by blast
  have "four_steps env s = d" by (simp add: four_steps_def a(1) b(1) c(1) d(1))
  moreover have "run_counts c = run_counts s" "e_cyclePackets c = es_packets_per_cycle s" "run_settings c = run_settings s"
    using a b c by simp_all
  ultimately show ?thesis using d fatal texts
    by (cases "failureIsFatal s") (auto simp: run_counts_def)
qed

theorem e2e_cycle_outcome_witness:
  "run_counts (four_steps demo_browser (e2e_injectFailure demo_browser L_qkd e2e_new)) = (1, 64, sealed_bytes 0 64)"
proof -
  let ?s = "e2e_injectFailure demo_browser L_qkd e2e_new"
  have s: "es_status ?s \<noteq> Running" "es_current_step ?s = 0" "PACKETS_PER_CYCLE_MIN \<le> es_packets_per_cycle ?s"
    "es_packets_per_cycle ?s = 64" "\<not> failureIsFatal ?s"
    "es_completed_cycles ?s = 0" "es_total_packets ?s = 0" "es_total_bytes ?s = 0"
    by (simp_all add: e2e_injectFailure_def Let_def e2e_consts failureIsFatal_def)
      (simp_all add: e2e_new_def DEFAULT_PACKETS_PER_CYCLE_def)
  from e2e_cycle_outcome [OF demo_browser_ok s(1-3)] s show ?thesis by simp
qed

section \<open>The buttons\<close>

lemma e2e_start_runs: "es_status (e2e_start env s) = Running \<and> e_timer (e2e_start env s)"
  by (simp add: e2e_start_def Let_def)

lemma e2e_work_timer: "\<not> e_timer s \<Longrightarrow> \<not> e_timer (snd (runStepWork env s))"
  by (cases "seal_packets env (e_derived s) 0 (nat (e_cyclePackets s)) (e_draws s)")
    (simp add: runStepWork_def work_1_def work_2_def work_3_def work_4_def Let_def e2e_reads split: option.splits)

lemma e2e_work_status:
  "es_status s = Stepped \<Longrightarrow> es_status (snd (runStepWork env s)) \<in> {Stepped, Paused}"
  by (cases "seal_packets env (e_derived s) 0 (nat (e_cyclePackets s)) (e_draws s)")
    (simp add: runStepWork_def work_1_def work_2_def work_3_def work_4_def Let_def e2e_reads split: option.splits)

lemma e2e_advance_stepping [simp]:
  "es_status (e2e_advance env True s) = es_status s" "e_timer (e2e_advance env True s) = e_timer s"
  by (simp_all add: e2e_advance_def Let_def)

lemma e2e_step_manual:
  assumes "\<not> e_timer s" "es_status s \<noteq> Running"
  shows "es_status (snd (e2e_step env s)) \<in> {Paused, Stepped} \<and> \<not> e_timer (snd (e2e_step env s))"
proof -
  define u where "u = (let u = (e2e_record env ''step'' s)\<lparr>es_status := Stepped\<rparr> in if es_current_step u = 0 then e2e_enter env 1 u else u)"
  have u: "es_status u = Stepped" "\<not> e_timer u" using assms(1) by (simp_all add: u_def Let_def)
  obtain threw v where r: "runStepWork env u = (threw, v)" by fastforce
  have "es_status v \<in> {Stepped, Paused}" "\<not> e_timer v" using e2e_work_status [OF u(1)] e2e_work_timer [OF u(2)] r
    by (metis snd_conv)+
  moreover have "e2e_step env s = (if threw then (True, v) else let w = e2e_advance env True v in
      (False, if es_status w = Stepped \<and> es_status s = Paused then w\<lparr>es_status := Paused\<rparr> else w))"
    using assms(2) r by (simp add: e2e_step_def u_def Let_def)
  ultimately show ?thesis by (auto simp: Let_def)
qed

interpretation e2e_ui: sim_controls "\<lambda>s. browser_ok env \<and> e2e_wf env s" es_status e_timer
    "e2e_start env" "e2e_pause env" "e2e_resume env" "\<lambda>s. snd (e2e_step env s)" for env
proof unfold_locales
  fix s
  have t: "e2e_wf env s \<Longrightarrow> e_timer s \<Longrightarrow> es_status s = Running" by (simp add: e2e_wf_def e2e_book_ok_def)
  then show "browser_ok env \<and> e2e_wf env s \<Longrightarrow> e_timer s \<Longrightarrow> es_status s = Running" by blast
  show "browser_ok env \<and> e2e_wf env s \<Longrightarrow> (browser_ok env \<and> e2e_wf env (e2e_start env s)) \<and> (browser_ok env \<and> e2e_wf env (e2e_pause env s))
     \<and> (browser_ok env \<and> e2e_wf env (e2e_resume env s)) \<and> browser_ok env \<and> e2e_wf env (snd (e2e_step env s))"
    by (simp add: e2e_start_wf e2e_pause_wf e2e_resume_wf e2e_step_wf)
  show "es_status (e2e_start env s) = Running \<and> e_timer (e2e_start env s)" by (rule e2e_start_runs)
  show "es_status (e2e_resume env s) = Running \<and> e_timer (e2e_resume env s)" by (simp add: e2e_resume_def)
  show "es_status (e2e_pause env s) = Paused \<and> \<not> e_timer (e2e_pause env s)" by (simp add: e2e_pause_def)
  show "es_status s = Running \<Longrightarrow> snd (e2e_step env s) = s" by (simp add: e2e_step_def)
  show "browser_ok env \<and> e2e_wf env s \<Longrightarrow> es_status s \<noteq> Running \<Longrightarrow>
      es_status (snd (e2e_step env s)) \<in> {Paused, Stepped} \<and> \<not> e_timer (snd (e2e_step env s))"
    using t by (intro e2e_step_manual) auto
qed

fun e2e_button :: "button \<Rightarrow> e2e_input" where
  "e2e_button B_start = E_start" | "e2e_button B_pause = E_pause" | "e2e_button B_resume = E_resume" | "e2e_button B_step = E_step"

lemma e2e_presses: "e2e_ui.presses env bs e2e_new = e2e_run env (map e2e_button bs)"
proof -
  have "e2e_ui.press env b s = e2e_do env (e2e_button b) s" for b s by (cases b) simp_all
  then show ?thesis by (simp add: e2e_ui.presses_def e2e_run_def foldl_map)
qed

lemma e2e_buttons_agree:
  assumes "browser_ok env"
  shows "(es_status (e2e_run env (map e2e_button bs)) = Running \<longleftrightarrow> shown bs False)
    \<and> (e_timer (e2e_run env (map e2e_button bs)) \<longleftrightarrow> shown bs False)"
proof -
  have new: "browser_ok env \<and> e2e_wf env e2e_new" "es_status e2e_new \<noteq> Running" "e2e_ui.agrees e2e_new"
    using assms by (simp_all add: e2e_new_wf e2e_ui.agrees_def) (simp_all add: e2e_new_def)
  show ?thesis
    using e2e_ui.presses_running [OF new(1), of bs] e2e_ui.presses_agree [OF new(1,3), of bs] new(2)
    by (simp add: e2e_presses e2e_ui.agrees_def)
qed

section \<open>What a cycle keeps, and the run that hangs\<close>

lemma runStepWork_keeps:
  "es_mode (snd (runStepWork env s)) = es_mode s" "e_cyclePackets (snd (runStepWork env s)) = e_cyclePackets s"
  "es_current_step (snd (runStepWork env s)) = es_current_step s"
  by (cases "seal_packets env (e_derived s) 0 (nat (e_cyclePackets s)) (e_draws s)";
      simp add: runStepWork_def work_1_def work_2_def work_3_def work_4_def Let_def e2e_reads split: option.splits)+

lemma e2e_advance_keeps:
  "es_mode (e2e_advance env b s) = es_mode s"
  "es_current_step (e2e_advance env b s) \<notin> {0, 1} \<Longrightarrow> e_cyclePackets (e2e_advance env b s) = e_cyclePackets s"
  by (auto simp: e2e_advance_def Let_def)

lemma e2e_step_keeps:
  assumes "es_current_step s \<noteq> 0"
  shows "es_mode (snd (e2e_step env s)) = es_mode s
    \<and> (es_current_step (snd (e2e_step env s)) \<notin> {0, 1} \<longrightarrow> e_cyclePackets (snd (e2e_step env s)) = e_cyclePackets s)"
proof -
  let ?u = "(e2e_record env ''step'' s)\<lparr>es_status := Stepped\<rparr>"
  obtain threw v where r: "runStepWork env ?u = (threw, v)" by fastforce
  show ?thesis
    using assms r runStepWork_keeps [of env ?u] e2e_advance_keeps [of env True v]
    by (auto simp: e2e_step_def Let_def)
qed

lemma e2e_tick_keeps:
  "es_mode (snd (e2e_tick env s)) = es_mode s
    \<and> (es_current_step (snd (e2e_tick env s)) \<notin> {0, 1} \<longrightarrow> e_cyclePackets (snd (e2e_tick env s)) = e_cyclePackets s)"
proof -
  let ?u = "s\<lparr>e_perfs := Suc (e_perfs s)\<rparr>"
  obtain threw v where r: "runStepWork env ?u = (threw, v)" by fastforce
  show ?thesis
    using r runStepWork_keeps [of env ?u] e2e_advance_keeps [of env False v]
    by (auto simp: e2e_tick_def perf_now_def Let_def)
qed

text \<open>
  A cycle keeps the mode and the packet count it began with: while a cycle is under way no control and no
  callback changes the mode (a change of mode is refused), and none changes the number of packets the cycle
  will seal unless it ends the cycle or begins the next.
\<close>

theorem e2e_cycle_latched:
  assumes "es_current_step s \<noteq> 0" "t = e2e_do env i s"
  shows "es_mode t = es_mode s \<and> (es_current_step t \<notin> {0, 1} \<longrightarrow> e_cyclePackets t = e_cyclePackets s)
    \<and> (i = E_mode m \<longrightarrow> t = s \<and> e2e_setMode env m s = (False, s))"
proof (cases i)
  case E_step
  then show ?thesis using e2e_step_keeps [OF assms(1), of env] assms(2) by simp
next
  case E_tick
  then show ?thesis using e2e_tick_keeps [of env s] assms(2) by simp
qed (use assms in \<open>auto simp: e2e_start_def e2e_pause_def e2e_resume_def e2e_reset_def e2e_abort_def e2e_setMode_def e2e_setPacketsPerCycle_def
    e2e_dispose_def e2e_injectFailure_def e2e_clearFailure_def e2e_fresh_def Let_def split: option.splits\<close>)

theorem e2e_cycle_latched_witness:
  "es_mode (e2e_do demo_browser (E_mode Mode_A) (e2e_start demo_browser e2e_new)) = Mode_C"
proof -
  have s: "es_current_step (e2e_start demo_browser e2e_new) \<noteq> 0" "es_mode (e2e_start demo_browser e2e_new) = Mode_C"
    by (simp_all add: e2e_start_def Let_def) (simp add: e2e_new_def)
  from e2e_cycle_latched [OF s(1) refl, of demo_browser "E_mode Mode_A"] s(2) show ?thesis by simp
qed

text \<open>A run at the data exchange with no derived key and no failure that would stop it.\<close>

definition keyless :: "browser \<Rightarrow> e2e \<Rightarrow> bool" where
  "keyless env s \<longleftrightarrow> es_status s = Running \<and> es_current_step s = 4 \<and> \<not> failureIsFatal s \<and> e_derived s = [] \<and> 1 \<le> e_cyclePackets s"

lemma keyless_work:
  assumes "browser_ok env" "keyless env s"
  shows "runStepWork env s = (True, s\<lparr>e_draws := Suc (e_draws s)\<rparr>)"
  using assms seal_packets_no_key [OF assms(1), of "e_derived s" "nat (e_cyclePackets s)"]
  by (simp add: keyless_def runStepWork_def work_4_def Let_def)

lemma keyless_tick:
  assumes env: "browser_ok env" and k: "keyless env s"
  shows "keyless env (snd (e2e_tick env s)) \<and> run_counts (snd (e2e_tick env s)) = run_counts s
    \<and> es_last_error (snd (e2e_tick env s)) = es_last_error s
    \<and> (fst (e2e_tick env s) \<longleftrightarrow> dwellDone (br_perf env (e_perfs s) - e_stepStart s) NOMINAL_STEP_DWELL_MS)"
proof -
  have "failureIsFatal (s\<lparr>e_perfs := i\<rparr>) = failureIsFatal s" for i by (rule failureIsFatal_cong) simp_all
  then have k': "keyless env (s\<lparr>e_perfs := i\<rparr>)" for i using k by (simp add: keyless_def)
  show ?thesis using k k' keyless_work [OF env k'] by (auto simp: e2e_tick_def perf_now_def Let_def keyless_def run_counts_def)
qed

lemma keyless_ticks:
  assumes "browser_ok env" "keyless env s"
  shows "keyless env (((\<lambda>s. snd (e2e_tick env s)) ^^ n) s) \<and> run_counts (((\<lambda>s. snd (e2e_tick env s)) ^^ n) s) = run_counts s
    \<and> es_last_error (((\<lambda>s. snd (e2e_tick env s)) ^^ n) s) = es_last_error s"
  using keyless_tick [OF assms(1)] assms(2) by (induction n) simp_all

text \<open>
  C16. A run that loses its key and then its failure hangs. When a run reaches the data exchange with no derived
  key and the failure in force is not fatal for the mode, no timer callback ever finishes the step: every due
  one throws at the first seal, after any number of them the run still reads running at step 4, with no cycle
  completed and no error shown that was not there before. Such runs exist in mode A (the quantum layer fails,
  then the failure is cleared before the data exchange) and in mode C (the quantum layer fails at step 2 and
  the PQC layer at step 3).
\<close>

theorem e2e_keyless_run_hangs:
  assumes "browser_ok env" "s = e2e_run env is"
    and "es_status s = Running" "es_current_step s = 4" "\<not> failureIsFatal s" "e_derived s = []"
  shows "(fst (e2e_tick env s) \<longleftrightarrow> dwellDone (br_perf env (e_perfs s) - e_stepStart s) NOMINAL_STEP_DWELL_MS)
    \<and> es_status (((\<lambda>s. snd (e2e_tick env s)) ^^ n) s) = Running \<and> es_current_step (((\<lambda>s. snd (e2e_tick env s)) ^^ n) s) = 4
    \<and> run_counts (((\<lambda>s. snd (e2e_tick env s)) ^^ n) s) = run_counts s
    \<and> es_last_error (((\<lambda>s. snd (e2e_tick env s)) ^^ n) s) = es_last_error s"
proof -
  have "PACKETS_PER_CYCLE_MIN \<le> e_cyclePackets s"
    using e2e_run_wf [OF assms(1), of "is"] unfolding assms(2) e2e_wf_def e2e_book_ok_def by blast
  then have "keyless env s" using assms by (simp add: keyless_def PACKETS_PER_CYCLE_MIN_def)
  from keyless_ticks [OF assms(1) this, of n] keyless_tick [OF assms(1) this] show ?thesis by (simp add: keyless_def)
qed

definition hang_A :: "e2e_input list" where
  "hang_A = [E_mode Mode_A, E_inject L_qkd, E_start, E_tick, E_tick, E_tick, E_clear]"

definition hang_C :: "e2e_input list" where
  "hang_C = [E_inject L_qkd, E_start, E_tick, E_tick, E_inject L_pqc, E_tick]"

lemma hang_A_facts:
  "(let s = e2e_run demo_browser hang_A in es_status s = Running \<and> es_current_step s = 4 \<and> \<not> failureIsFatal s \<and> e_derived s = []
     \<and> es_last_error s = [])"
  by code_simp

lemma hang_C_facts:
  "(let s = e2e_run demo_browser hang_C in es_status s = Running \<and> es_current_step s = 4 \<and> \<not> failureIsFatal s \<and> e_derived s = []
     \<and> es_last_error s = [])"
  by code_simp

theorem e2e_keyless_run_hangs_witness:
  "es_current_step (((\<lambda>s. snd (e2e_tick demo_browser s)) ^^ 1000) (e2e_run demo_browser hang_A)) = 4
   \<and> es_last_error (((\<lambda>s. snd (e2e_tick demo_browser s)) ^^ 1000) (e2e_run demo_browser hang_C)) = []"
proof -
  note a = hang_A_facts [unfolded Let_def] and c = hang_C_facts [unfolded Let_def]
  show ?thesis
    using e2e_keyless_run_hangs [OF demo_browser_ok refl, of hang_A 1000] a
      e2e_keyless_run_hangs [OF demo_browser_ok refl, of hang_C 1000] c
    by simp
qed

end
