(* ===== verification/Base64.thy ===== *)
theory Base64
  imports Crypto
begin

text \<open>
  \<^verbatim>\<open>btoa\<close> and \<^verbatim>\<open>atob\<close> of a string of bytes, which the sources use to print a payload and to exchange keys with
  the server. \<^verbatim>\<open>atob\<close> ignores white space and takes its input with or without padding; it throws (\<open>None\<close>) on
  any other character and on a length no encoding has.
\<close>

definition b64_chars :: string where
  "b64_chars = ''ABCDEFGHIJKLMNOPQRSTUVWXYZabcdefghijklmnopqrstuvwxyz0123456789+/''"

definition b64_char :: "nat \<Rightarrow> char" where
  "b64_char n = b64_chars ! n"

fun b64_body :: "bytes \<Rightarrow> string" where
  "b64_body [] = []"
| "b64_body [x] = [b64_char (unat x div 4), b64_char (unat x mod 4 * 16)]"
| "b64_body [x, y] = [b64_char (unat x div 4), b64_char (unat x mod 4 * 16 + unat y div 16), b64_char (unat y mod 16 * 4)]"
| "b64_body (x # y # z # r) = b64_char (unat x div 4) # b64_char (unat x mod 4 * 16 + unat y div 16)
     # b64_char (unat y mod 16 * 4 + unat z div 64) # b64_char (unat z mod 64) # b64_body r"

definition b64 :: "bytes \<Rightarrow> string" where
  "b64 bs = b64_body bs @ replicate ((3 - length bs mod 3) mod 3) (CHR ''='')"

definition b64_value :: "char \<Rightarrow> nat option" where
  "b64_value c = (let n = length (takeWhile (\<lambda>d. d \<noteq> c) b64_chars) in if n < 64 then Some n else None)"

fun b64_bytes :: "nat list \<Rightarrow> bytes" where
  "b64_bytes (i # j # k # l # r) =
     word_of_nat (i * 4 + j div 16) # word_of_nat (j mod 16 * 16 + k div 4) # word_of_nat (k mod 4 * 64 + l) # b64_bytes r"
| "b64_bytes [i, j, k] = [word_of_nat (i * 4 + j div 16), word_of_nat (j mod 16 * 16 + k div 4)]"
| "b64_bytes [i, j] = [word_of_nat (i * 4 + j div 16)]"
| "b64_bytes _ = []"

definition b64_space :: "char \<Rightarrow> bool" where
  "b64_space c \<longleftrightarrow> c \<in> {CHR 0x09, CHR 0x0A, CHR 0x0C, CHR 0x0D, CHR 0x20}"

text \<open>At most two padding characters are dropped, and only from a length divisible by four.\<close>

definition b64_unpad :: "string \<Rightarrow> string" where
  "b64_unpad s = (if length s mod 4 = 0
     then (case rev s of a # b # r \<Rightarrow> if a = CHR ''='' then (if b = CHR ''='' then rev r else rev (b # r)) else s | _ \<Rightarrow> s)
     else s)"

definition unb64 :: "string \<Rightarrow> bytes option" where
  "unb64 s = (let t = b64_unpad (filter (\<lambda>c. \<not> b64_space c) s) in
     if length t mod 4 = 1 \<or> list_ex (\<lambda>c. b64_value c = None) t then None
     else Some (b64_bytes (map (\<lambda>c. the (b64_value c)) t)))"

section \<open>Decoding an encoding\<close>

lemma b64_table:
  "list_all (\<lambda>n. b64_value (b64_char n) = Some n \<and> b64_char n \<noteq> CHR ''='' \<and> \<not> b64_space (b64_char n)) [0..<64]"
  by code_simp

lemma b64_value_char [simp]:
  "n < 64 \<Longrightarrow> b64_value (b64_char n) = Some n" "n < 64 \<Longrightarrow> b64_char n \<noteq> CHR ''=''" "n < 64 \<Longrightarrow> \<not> b64_space (b64_char n)"
  using b64_table by (simp_all add: list_all_iff)

lemma byte_lt: "unat (x :: u8) < 256"
  using unsigned_less [of x] by simp

lemma b64_digits [simp]:
  "unat (x :: u8) div 4 < 64" "unat x mod 4 * 16 < 64" "unat x mod 4 * 16 + unat (y :: u8) div 16 < 64"
  "unat y mod 16 * 4 < 64" "unat y mod 16 * 4 + unat (z :: u8) div 64 < 64" "unat z mod 64 < 64"
  using byte_lt [of x] byte_lt [of y] byte_lt [of z] by linarith+

lemma b64_join: "a div 4 * 4 + (a mod 4 * 16 + b div 16) div 16 = a" if "b < 256" for a b :: nat
proof -
  have "b div 16 < 16" using that by (simp add: less_mult_imp_div_less)
  then have "(a mod 4 * 16 + b div 16) div 16 = a mod 4" by simp
  then show ?thesis by simp
qed

lemma b64_join2: "(a mod 4 * 16 + b div 16) mod 16 * 16 + (b mod 16 * 4 + c div 64) div 4 = b" if "b < 256" "c < 256" for a b c :: nat
proof -
  have "b div 16 < 16" "c div 64 < 4" using that by (simp_all add: less_mult_imp_div_less)
  then have "(a mod 4 * 16 + b div 16) mod 16 = b div 16" "(b mod 16 * 4 + c div 64) div 4 = b mod 16" by simp_all
  then show ?thesis by simp
qed

lemma b64_join3: "(b mod 16 * 4 + c div 64) mod 4 * 64 + c mod 64 = c" if "c < 256" for b c :: nat
proof -
  have "c div 64 < 4" using that by (simp add: less_mult_imp_div_less)
  then have "(b mod 16 * 4 + c div 64) mod 4 = c div 64" by simp
  then show ?thesis by simp
qed

lemma b64_body_chars: "list_all (\<lambda>c. b64_value c \<noteq> None \<and> c \<noteq> CHR ''='' \<and> \<not> b64_space c) (b64_body bs)"
  by (induction bs rule: b64_body.induct) simp_all

lemma b64_body_bytes: "b64_bytes (map (\<lambda>c. the (b64_value c)) (b64_body bs)) = bs"
proof (induction bs rule: b64_body.induct)
  case (2 x)
  then show ?case using b64_join [of 0 "unat x"] by simp
next
  case (3 x y)
  then show ?case using b64_join [OF byte_lt, of "unat x" y] b64_join2 [OF byte_lt, of 0 "unat x" y] by simp
next
  case (4 x y z r)
  then show ?case
    using b64_join [OF byte_lt, of "unat x" y] b64_join2 [OF byte_lt byte_lt, of "unat x" y z] b64_join3 [OF byte_lt, of "unat y" z]
    by simp
qed simp

lemma b64_body_length: "length (b64_body bs) = 4 * (length bs div 3) + (if length bs mod 3 = 0 then 0 else length bs mod 3 + 1)"
  by (induction bs rule: b64_body.induct) (simp_all add: mod_Suc)

lemma unpad_padded:
  assumes "list_all (\<lambda>c. c \<noteq> CHR ''='') t" "k \<le> 2" "(length t + k) mod 4 = 0"
  shows "b64_unpad (t @ replicate k (CHR ''='')) = t"
proof -
  consider "k = 0" | "k = 1" | "k = 2" using assms(2) by linarith
  then show ?thesis
  proof cases
    case 1
    then show ?thesis using assms(1) by (auto simp: b64_unpad_def list_all_iff split: list.splits)
  next
    case 2
    then have "t \<noteq> []" using assms(3) by auto
    then obtain u a where t: "t = u @ [a]" by (metis rev_exhaust)
    then show ?thesis using 2 assms by (simp add: b64_unpad_def)
  next
    case 3
    then show ?thesis using assms(3) by (simp add: b64_unpad_def numeral_2_eq_2)
  qed
qed

lemma unb64_b64: "unb64 (b64 bs) = Some bs"
proof -
  have c: "list_all (\<lambda>c. b64_value c \<noteq> None \<and> c \<noteq> CHR ''='' \<and> \<not> b64_space c) (b64_body bs)" by (rule b64_body_chars)
  have "filter (\<lambda>c. \<not> b64_space c) (b64_body bs) = b64_body bs" using c by (simp add: list_all_iff)
  moreover have "\<not> b64_space (CHR ''='')" by (simp add: b64_space_def)
  ultimately have f: "filter (\<lambda>c. \<not> b64_space c) (b64 bs) = b64 bs" by (simp add: b64_def)
  have "length bs mod 3 \<in> {0, 1, 2}" by auto
  then have "(length (b64_body bs) + (3 - length bs mod 3) mod 3) mod 4 = 0" by (auto simp: b64_body_length)
  then have u: "b64_unpad (b64 bs) = b64_body bs"
    unfolding b64_def using c by (intro unpad_padded) (auto simp: list_all_iff)
  have "length (b64_body bs) mod 4 \<noteq> 1" by (auto simp: b64_body_length mod_Suc split: if_splits)
  moreover have "\<not> list_ex (\<lambda>c. b64_value c = None) (b64_body bs)" using c by (auto simp: list_ex_iff list_all_iff)
  ultimately show ?thesis by (simp add: unb64_def Let_def f u b64_body_bytes)
qed

lemma length_b64: "length (b64 bs) = 4 * ((length bs + 2) div 3)"
proof -
  define q r where "q = length bs div 3" and "r = length bs mod 3"
  have n: "length bs = 3 * q + r" "r < 3" by (simp_all add: q_def r_def)
  consider "r = 0" | "r = 1" | "r = 2" using n(2) by linarith
  moreover have "Suc (Suc (3 * q)) div 3 = q" "Suc (Suc (3 * q)) mod 3 = 2" by presburger+
  ultimately show ?thesis by cases (simp_all add: b64_def b64_body_length n(1))
qed

end
