(* ===== verification/Paper.thy ===== *)
theory Paper
  imports Browser Base64 Pacing Sim_Controls
begin

text \<open>
  The simulator of the paper's five-phase data exchange, \<^verbatim>\<open>lib/sim/paperSim.ts\<close>: packet budgets per phase,
  a failure in one layer with the cascade that follows it on a clock of running time, and the sealed payload
  of the last phase.

  The record \<open>paper\<close> has one field per member of the class. The browser's clocks, random source and library
  are the record \<open>browser\<close>, read in order by counters of the state. \<^verbatim>\<open>emit\<close> publishes \<open>paper_snapshot\<close> and
  changes nothing. An operation whose work can throw returns whether it did, beside the state it leaves.
\<close>

section \<open>Constants\<close>

datatype layer = P_qkd | P_arnika | P_wireguard | P_rosenpass | P_data

fun player_text :: "layer \<Rightarrow> string" where
  "player_text P_qkd = ''qkd''" | "player_text P_arnika = ''arnika''" | "player_text P_wireguard = ''wireguard''"
| "player_text P_rosenpass = ''rosenpass''" | "player_text P_data = ''data''"

record phase_budget =
  pb_name :: string
  pb_packets :: nat
  pb_bytes :: nat
  pb_period_s :: "int option"
  pb_grace_s :: int
  pb_description :: string

definition PHASE_BUDGETS :: "(nat \<times> phase_budget) list" where
  "PHASE_BUDGETS = [
     (1, \<lparr>pb_name = ''Quantum Plane'', pb_packets = 0, pb_bytes = 0, pb_period_s = None, pb_grace_s = 0,
       pb_description = ''QKD device generates symmetric key material; no IP-layer traffic in this phase.''\<rparr>),
     (2, \<lparr>pb_name = ''Arnika QKD key_ID exchange'', pb_packets = 2, pb_bytes = 78, pb_period_s = Some 120, pb_grace_s = 60,
       pb_description = ''Arnika fetches QKD key from local ETSI 014 KME and negotiates the active key_ID with the neighbour Arnika.''\<rparr>),
     (3, \<lparr>pb_name = ''WireGuard hop handshake'', pb_packets = 3, pb_bytes = 398, pb_period_s = Some 120, pb_grace_s = 60,
       pb_description = ''Curve25519 + ChaCha20 handshake establishes the QKD-secured hop tunnel; the QKD-derived WireGuard preshared key is mixed into the Noise_IKpsk2 chaining key, so it contributes to the transport keys.''\<rparr>),
     (4, \<lparr>pb_name = ''Rosenpass PQC handshake'', pb_packets = 4, pb_bytes = 4772, pb_period_s = Some 120, pb_grace_s = 60,
       pb_description = ''Classic McEliece + Kyber end-to-end PQC handshake carried over the chain of QKD-secured WireGuard hops.''\<rparr>),
     (5, \<lparr>pb_name = ''Final data tunnel + Data Exchange'', pb_packets = 0, pb_bytes = 0, pb_period_s = Some 120, pb_grace_s = 60,
       pb_description = ''Application data tunnel (WireGuard with ChaCha20-Poly1305) uses a WireGuard preshared key derived from the Rosenpass output alone; the QKD keys stay on the hops. Not an IKEv2 PSK -- see docs/vici-ppk.md.''\<rparr>)]"

definition MEAN_10_HOP_SETUP_S :: rat where "MEAN_10_HOP_SETUP_S = 1027 / 100"
definition MEAN_100_HOP_SETUP_S :: rat where "MEAN_100_HOP_SETUP_S = 1062 / 100"

definition CASCADE_STAGES :: "(int \<times> layer \<times> string) list" where
  "CASCADE_STAGES = [
     (0, P_qkd, ''QKD plane outage injected''),
     (180, P_arnika, ''Arnika fails over to random key''),
     (240, P_wireguard, ''WireGuard hop tries a new session key and fails''),
     (300, P_wireguard, ''WireGuard hop grace period passes; no further PQC handshakes''),
     (360, P_rosenpass, ''Rosenpass handshake blocked''),
     (420, P_rosenpass, ''Rosenpass falls over to random PSK''),
     (480, P_data, ''Final data tunnel handshake fails''),
     (540, P_data, ''Final data tunnel disrupted''),
     (720, P_data, ''Full data-path interruption (worst case, 4.3 upper bound)'')]"

definition PHASE_SHORT_NAMES :: "(nat \<times> string) list" where
  "PHASE_SHORT_NAMES = [(1, ''Quantum Plane''), (2, ''QKD key_ID exchange''), (3, ''WireGuard hop''), (4, ''Rosenpass PQC''), (5, ''Data tunnel'')]"

definition PHASE_NAMES :: "(nat \<times> string \<times> string option) list" where
  "PHASE_NAMES = map (\<lambda>(p, info). (p, pb_name info, map_of PHASE_SHORT_NAMES p)) PHASE_BUDGETS"

definition TOTAL_PACKETS :: nat where
  "TOTAL_PACKETS = foldl (\<lambda>a p. a + pb_packets p) 0 (map snd PHASE_BUDGETS)"

definition TOTAL_BYTES :: nat where
  "TOTAL_BYTES = foldl (\<lambda>a p. a + pb_bytes p) 0 (map snd PHASE_BUDGETS)"

fun PHASE_OF_LAYER :: "layer \<Rightarrow> nat" where
  "PHASE_OF_LAYER P_qkd = 1" | "PHASE_OF_LAYER P_arnika = 2" | "PHASE_OF_LAYER P_wireguard = 3"
| "PHASE_OF_LAYER P_rosenpass = 4" | "PHASE_OF_LAYER P_data = 5"

definition NOMINAL_PHASE_DWELL_MS :: int where "NOMINAL_PHASE_DWELL_MS = dwellMs 4"
definition PHASE_HISTORY_LIMIT :: nat where "PHASE_HISTORY_LIMIT = 30"
definition ACTION_LIMIT :: nat where "ACTION_LIMIT = 50"
definition CASCADE_EMIT_MS :: rat where "CASCADE_EMIT_MS = 500"
definition DEFAULT_HOP_COUNT :: int where "DEFAULT_HOP_COUNT = 4"
definition MAX_HOP_COUNT :: int where "MAX_HOP_COUNT = 8"

section \<open>State\<close>

record cascade_sched =
  cs_offset :: int
  cs_layer :: layer
  cs_description :: string
  cs_triggered_at :: "rat option"

record phase_rec =
  pr_phase :: nat
  pr_name :: string
  pr_started_at :: rat
  pr_completed_at :: "rat option"
  pr_packets :: nat
  pr_bytes :: nat
  pr_detail :: details

record paper =
  pp_status :: sim_status
  pp_phase :: nat
  pp_hop :: int
  pp_cyclesTotal :: nat
  pp_cyclesSucceeded :: nat
  pp_packetsTotal :: nat
  pp_bytesTotal :: nat
  pp_lastPayload :: string
  pp_qkdKey :: "bytes option"
  pp_pqcSecret :: "bytes option"
  pp_failLayer :: "layer option"
  pp_failStarted :: "rat option"
  pp_cascade :: "cascade_sched list"
  pp_cascadeElapsedS :: rat
  pp_lastTickAt :: "rat option"
  pp_lastCascadeEmit :: rat
  pp_history :: "phase_rec list"
  pp_phasesTotal :: nat
  pp_actions :: "operator_action list"
  pp_actionsTotal :: nat
  pp_cycleAccepted :: bool
  pp_timer :: bool
  pp_phaseStart :: rat
  pp_perfs :: nat
  pp_dates :: nat
  pp_draws :: nat

definition paper_new :: paper where
  "paper_new = \<lparr>pp_status = Idle, pp_phase = 0, pp_hop = DEFAULT_HOP_COUNT, pp_cyclesTotal = 0, pp_cyclesSucceeded = 0,
     pp_packetsTotal = 0, pp_bytesTotal = 0, pp_lastPayload = [], pp_qkdKey = None, pp_pqcSecret = None,
     pp_failLayer = None, pp_failStarted = None, pp_cascade = [], pp_cascadeElapsedS = 0, pp_lastTickAt = None,
     pp_lastCascadeEmit = 0, pp_history = [], pp_phasesTotal = 0, pp_actions = [], pp_actionsTotal = 0,
     pp_cycleAccepted = True, pp_timer = False, pp_phaseStart = 0, pp_perfs = 0, pp_dates = 0, pp_draws = 0\<rparr>"

definition pperf :: "browser \<Rightarrow> paper \<Rightarrow> rat \<times> paper" where
  "pperf env s = (br_perf env (pp_perfs s), s\<lparr>pp_perfs := Suc (pp_perfs s)\<rparr>)"

definition pdate_s :: "browser \<Rightarrow> paper \<Rightarrow> rat \<times> paper" where
  "pdate_s env s = (br_date env (pp_dates s) / 1000, s\<lparr>pp_dates := Suc (pp_dates s)\<rparr>)"

definition pdraw :: "browser \<Rightarrow> nat \<Rightarrow> paper \<Rightarrow> bytes \<times> paper" where
  "pdraw env n s = (let (b, i) = randomBytes (br_random env) n (pp_draws s) in (b, s\<lparr>pp_draws := i\<rparr>))"

lemmas paper_reads = pperf_def pdate_s_def pdraw_def randomBytes_def

section \<open>What the page is shown\<close>

record cascade_event =
  ce_offset :: int
  ce_layer :: string
  ce_description :: string
  ce_triggered_at :: "rat option"
  ce_fired :: bool

record paper_view =
  pv_status :: sim_status
  pv_current_phase :: nat
  pv_current_phase_name :: string
  pv_hop_count :: int
  pv_cycles_total :: nat
  pv_cycles_succeeded :: nat
  pv_packets_total :: nat
  pv_bytes_total :: nat
  pv_last_data_payload_b64 :: string
  pv_active_layer :: "layer option"
  pv_started_at :: "rat option"
  pv_elapsed_s :: rat
  pv_cascade :: "cascade_event list"
  pv_history :: "phase_rec list"
  pv_phases_total :: nat
  pv_operator_actions :: "operator_action list"
  pv_actions_total :: nat
  pv_phases :: "(nat \<times> phase_budget) list"
  pv_total_handshake_packets :: nat
  pv_total_handshake_bytes :: nat
  pv_mean_10_hop_setup_s :: rat
  pv_mean_100_hop_setup_s :: rat

definition budgets :: "(nat \<times> phase_budget) list" where
  "budgets = map (\<lambda>(p, info). (p, info)) PHASE_BUDGETS"

definition paper_snapshot :: "paper \<Rightarrow> paper_view" where
  "paper_snapshot s = \<lparr>pv_status = pp_status s, pv_current_phase = pp_phase s,
     pv_current_phase_name = (case map_of PHASE_BUDGETS (pp_phase s) of Some i \<Rightarrow> pb_name i | None \<Rightarrow> ''idle''),
     pv_hop_count = pp_hop s, pv_cycles_total = pp_cyclesTotal s, pv_cycles_succeeded = pp_cyclesSucceeded s,
     pv_packets_total = pp_packetsTotal s, pv_bytes_total = pp_bytesTotal s, pv_last_data_payload_b64 = pp_lastPayload s,
     pv_active_layer = pp_failLayer s, pv_started_at = pp_failStarted s, pv_elapsed_s = pp_cascadeElapsedS s,
     pv_cascade = map (\<lambda>c. \<lparr>ce_offset = cs_offset c, ce_layer = player_text (cs_layer c), ce_description = cs_description c,
        ce_triggered_at = cs_triggered_at c, ce_fired = of_int (cs_offset c) \<le> pp_cascadeElapsedS s\<rparr>) (pp_cascade s),
     pv_history = slice_last PHASE_HISTORY_LIMIT (pp_history s), pv_phases_total = pp_phasesTotal s,
     pv_operator_actions = pp_actions s, pv_actions_total = pp_actionsTotal s, pv_phases = budgets,
     pv_total_handshake_packets = TOTAL_PACKETS, pv_total_handshake_bytes = TOTAL_BYTES,
     pv_mean_10_hop_setup_s = MEAN_10_HOP_SETUP_S, pv_mean_100_hop_setup_s = MEAN_100_HOP_SETUP_S\<rparr>"

definition paperCsvRow :: "(rat \<Rightarrow> string) \<Rightarrow> phase_rec \<Rightarrow> (string \<times> detail_value) list" where
  "paperCsvRow isoText h =
     [(''phase'', D_num (of_nat (pr_phase h))), (''name'', D_str (pr_name h)),
      (''started_at'', D_str (isoText (pr_started_at h * 1000))),
      (''completed_at'', case pr_completed_at h of None \<Rightarrow> D_str [] | Some c \<Rightarrow> if c = 0 then D_str [] else D_str (isoText (c * 1000))),
      (''ui_dwell_ms'', case pr_completed_at h of None \<Rightarrow> D_str []
         | Some c \<Rightarrow> if c = 0 then D_str [] else D_num (of_int (js_round ((c - pr_started_at h) * 1000)))),
      (''nominal_dwell_ms'', D_num (of_int NOMINAL_PHASE_DWELL_MS)),
      (''packets'', D_num (of_nat (pr_packets h))), (''bytes'', D_num (of_nat (pr_bytes h)))]"

definition paperCsvRows :: "(rat \<Rightarrow> string) \<Rightarrow> phase_rec list \<Rightarrow> (string \<times> detail_value) list list" where
  "paperCsvRows isoText hs = map (paperCsvRow isoText) hs"

section \<open>Operations\<close>

definition paper_record :: "browser \<Rightarrow> string \<Rightarrow> paper \<Rightarrow> paper" where
  "paper_record env action s = (let (d, s) = pdate_s env s in
     s\<lparr>pp_actions := push_shift ACTION_LIMIT (pp_actions s) \<lparr>oa_at = d, oa_action = action\<rparr>,
       pp_actionsTotal := Suc (pp_actionsTotal s)\<rparr>)"

definition paper_stopLoop :: "paper \<Rightarrow> paper" where
  "paper_stopLoop s = s\<lparr>pp_timer := False\<rparr>"

definition paper_ensureLoop :: "browser \<Rightarrow> paper \<Rightarrow> paper" where
  "paper_ensureLoop env s = (if pp_timer s then s else
     let (t, s) = pperf env s in s\<lparr>pp_phaseStart := t, pp_lastTickAt := Some t, pp_timer := True\<rparr>)"

text \<open>Only called with a phase that has a budget; the name of another is left empty.\<close>

definition enterPhase :: "browser \<Rightarrow> nat \<Rightarrow> paper \<Rightarrow> paper" where
  "enterPhase env ph s =
     (let (d, s) = pdate_s env (s\<lparr>pp_phase := ph\<rparr>);
          s = s\<lparr>pp_history := slice_last PHASE_HISTORY_LIMIT (pp_history s @
                  [\<lparr>pr_phase = ph, pr_name = (case map_of PHASE_BUDGETS ph of Some i \<Rightarrow> pb_name i | None \<Rightarrow> []),
                    pr_started_at = d, pr_completed_at = None, pr_packets = 0, pr_bytes = 0, pr_detail = []\<rparr>]),
                pp_phasesTotal := Suc (pp_phasesTotal s)\<rparr>;
          (t, s) = pperf env s
      in s\<lparr>pp_phaseStart := t\<rparr>)"

definition beginCycle :: "browser \<Rightarrow> paper \<Rightarrow> paper" where
  "beginCycle env s = enterPhase env 1 (s\<lparr>pp_cyclesTotal := Suc (pp_cyclesTotal s), pp_cycleAccepted := True,
     pp_qkdKey := None, pp_pqcSecret := None\<rparr>)"

text \<open>The last open record of the phase is closed.\<close>

fun close_first :: "nat \<Rightarrow> rat \<Rightarrow> nat \<Rightarrow> nat \<Rightarrow> details \<Rightarrow> phase_rec list \<Rightarrow> phase_rec list" where
  "close_first ph d k n dt [] = []"
| "close_first ph d k n dt (h # hs) =
     (if pr_phase h = ph \<and> pr_completed_at h = None
      then h\<lparr>pr_completed_at := Some d, pr_packets := k, pr_bytes := n, pr_detail := dt\<rparr> # hs
      else h # close_first ph d k n dt hs)"

definition close_record :: "browser \<Rightarrow> nat \<Rightarrow> nat \<Rightarrow> nat \<Rightarrow> details \<Rightarrow> paper \<Rightarrow> paper" where
  "close_record env ph k n dt s =
     (if list_ex (\<lambda>h. pr_phase h = ph \<and> pr_completed_at h = None) (pp_history s)
      then let (d, s1) = pdate_s env s in s1\<lparr>pp_history := rev (close_first ph d k n dt (rev (pp_history s)))\<rparr>
      else s)"

definition failed_in :: "nat \<Rightarrow> paper \<Rightarrow> bool" where
  "failed_in ph s = (case pp_failLayer s of None \<Rightarrow> False | Some l \<Rightarrow> PHASE_OF_LAYER l = ph)"

definition paper_text :: "nat \<Rightarrow> int \<Rightarrow> string" where
  "paper_text cycles hops = ''PAPER-FLOW cycle '' @ show_int (int cycles) @ '' hops='' @ show_int hops @ '' Alice->Bob''"

text \<open>What a phase that has not failed produces: its details, packets and bytes. \<open>None\<close> when it throws.\<close>

definition phase_work :: "browser \<Rightarrow> nat \<Rightarrow> phase_budget \<Rightarrow> paper \<Rightarrow> (details \<times> nat \<times> nat) option \<times> paper" where
  "phase_work env ph info s =
     (if ph = 2 then let (k, s) = pdraw env 32 s in (Some ([], pb_packets info, pb_bytes info), s\<lparr>pp_qkdKey := Some k\<rparr>)
      else if ph = 3 then (case pp_qkdKey s of
          Some k \<Rightarrow> (Some ([(''hop_psk_prefix'', D_str (take 16 (toHex (deriveHkdfSha3 (br_noble env) k [] ''paper-flow-hop''))))],
                      pb_packets info, pb_bytes info), s)
        | None \<Rightarrow> (Some ([], pb_packets info, pb_bytes info), s))
      else if ph = 4 then let (k, s) = pdraw env 32 s in (Some ([], pb_packets info, pb_bytes info), s\<lparr>pp_pqcSecret := Some k\<rparr>)
      else if ph = 5 then (case pp_pqcSecret s of
          None \<Rightarrow> (None, s)
        | Some pqc \<Rightarrow>
            let psk = deriveHkdfSha3 (br_noble env) [] pqc ''paper-flow'';
                plaintext = encodeUtf8 (paper_text (pp_cyclesTotal s) (pp_hop s))
            in (case chachaSeal (br_noble env) (br_random env) psk plaintext (pp_draws s) of
                  (None, i) \<Rightarrow> (None, s\<lparr>pp_draws := i\<rparr>)
                | (Some (ciphertext, nonce), i) \<Rightarrow>
                    let n = length ciphertext + length nonce
                    in (Some ([(''data_bytes'', D_num (of_nat n)), (''aead'', D_str ''ChaCha20-Poly1305''),
                              (''psk_source'', D_str ''Rosenpass output only (HKDF-SHA3-256)''),
                              (''psk_prefix'', D_str (take 16 (toHex psk)))], 1, n),
                        s\<lparr>pp_draws := i, pp_lastPayload := b64 ciphertext\<rparr>)))
      else (Some ([], pb_packets info, pb_bytes info), s))"

text \<open>The end of a phase: the counters, the record, and the next phase or the end of the cycle.\<close>

definition finish_phase :: "browser \<Rightarrow> nat \<Rightarrow> bool \<Rightarrow> details \<Rightarrow> nat \<Rightarrow> nat \<Rightarrow> paper \<Rightarrow> paper" where
  "finish_phase env ph failed dt k n s =
     (let s = close_record env ph k n dt (s\<lparr>pp_packetsTotal := pp_packetsTotal s + k, pp_bytesTotal := pp_bytesTotal s + n\<rparr>)
      in if failed \<or> 5 \<le> ph
         then let s = (if pp_cycleAccepted s then s\<lparr>pp_cyclesSucceeded := Suc (pp_cyclesSucceeded s)\<rparr> else s)\<lparr>pp_phase := 0\<rparr>
              in if pp_status s = Running then beginCycle env s else s
         else enterPhase env (ph + 1) s)"

definition runPhase :: "browser \<Rightarrow> paper \<Rightarrow> bool \<times> paper" where
  "runPhase env s = (let ph = pp_phase s in case map_of PHASE_BUDGETS ph of
     None \<Rightarrow> (True, s)
   | Some info \<Rightarrow>
       let failed = failed_in ph s;
           s = (if failed then s\<lparr>pp_cycleAccepted := False\<rparr> else s);
           base = [(''period_s'', case pb_period_s info of None \<Rightarrow> D_null | Some t \<Rightarrow> D_num (of_int t)),
                   (''grace_s'', D_num (of_int (pb_grace_s info))), (''failed'', D_bool failed)]
       in if failed then (False, finish_phase env ph True base (pb_packets info) (pb_bytes info) s)
          else (case phase_work env ph info s of
              (None, s) \<Rightarrow> (True, s)
            | (Some (dt, k, n), s) \<Rightarrow> (False, finish_phase env ph False (base @ dt) k n s)))"

section \<open>Controls\<close>

definition paper_start :: "browser \<Rightarrow> paper \<Rightarrow> paper" where
  "paper_start env s =
     (let s = (paper_record env ''run'' s)\<lparr>pp_status := Running\<rparr>;
          s = (if pp_phase s = 0 then beginCycle env s else s)
      in paper_ensureLoop env s)"

definition paper_pause :: "browser \<Rightarrow> paper \<Rightarrow> paper" where
  "paper_pause env s = paper_stopLoop ((paper_record env ''pause'' s)\<lparr>pp_status := Paused\<rparr>)"

definition paper_resume :: "browser \<Rightarrow> paper \<Rightarrow> paper" where
  "paper_resume env s =
     (let s = (paper_record env ''resume'' s)\<lparr>pp_status := Running\<rparr>;
          s = (if pp_phase s = 0 then beginCycle env s else s)
      in paper_ensureLoop env s)"

definition paper_step :: "browser \<Rightarrow> paper \<Rightarrow> bool \<times> paper" where
  "paper_step env s =
     (if pp_status s = Running then (False, s)
      else let before = pp_status s; s = (paper_record env ''step'' s)\<lparr>pp_status := Stepped\<rparr>
           in if pp_phase s = 0 then (False, beginCycle env s)
              else let (threw, s) = runPhase env s
                   in if threw then (True, s) else (False, if before = Paused then s\<lparr>pp_status := Paused\<rparr> else s))"

definition paper_reset :: "browser \<Rightarrow> paper \<Rightarrow> paper" where
  "paper_reset env s = paper_record env ''reset'' ((paper_stopLoop (s\<lparr>pp_status := Idle, pp_phase := 0\<rparr>))
     \<lparr>pp_cyclesTotal := 0, pp_cyclesSucceeded := 0, pp_packetsTotal := 0, pp_bytesTotal := 0, pp_lastPayload := [],
      pp_failLayer := None, pp_failStarted := None, pp_qkdKey := None, pp_pqcSecret := None, pp_cascade := [],
      pp_cascadeElapsedS := 0, pp_history := [], pp_phasesTotal := 0, pp_cycleAccepted := True,
      pp_actions := [], pp_actionsTotal := 0\<rparr>)"

definition setHopCount :: "browser \<Rightarrow> rat \<Rightarrow> paper \<Rightarrow> paper" where
  "setHopCount env n s = (let s = s\<lparr>pp_hop := max 1 (min MAX_HOP_COUNT (js_round n))\<rparr>
     in paper_record env (''hops='' @ show_int (pp_hop s)) s)"

text \<open>\<^verbatim>\<open>findIndex\<close> is the number of stages before the first of the layer.\<close>

definition stages_from :: "layer \<Rightarrow> (int \<times> layer \<times> string) list" where
  "stages_from l = (if list_ex (\<lambda>(t, k, d). k = l) CASCADE_STAGES
     then dropWhile (\<lambda>(t, k, d). k \<noteq> l) CASCADE_STAGES else CASCADE_STAGES)"

definition paper_injectFailure :: "browser \<Rightarrow> layer \<Rightarrow> paper \<Rightarrow> paper" where
  "paper_injectFailure env l s =
     (let (now, s) = pdate_s env s;
          stages = stages_from l;
          baseT = fst (hd stages);
          s = paper_record env (''inject '' @ player_text l) s
      in s\<lparr>pp_failLayer := Some l, pp_failStarted := Some now, pp_cascadeElapsedS := 0,
           pp_cascade := map (\<lambda>(t, k, d). \<lparr>cs_offset = t - baseT, cs_layer = k, cs_description = d,
             cs_triggered_at = (if t = baseT then Some now else None)\<rparr>) stages\<rparr>)"

definition paper_clearFailure :: "browser \<Rightarrow> paper \<Rightarrow> paper" where
  "paper_clearFailure env s = (paper_record env ''clear failure'' s)
     \<lparr>pp_failLayer := None, pp_failStarted := None, pp_cascade := [], pp_cascadeElapsedS := 0\<rparr>"

definition paper_dispose :: "paper \<Rightarrow> paper" where
  "paper_dispose s = paper_stopLoop s"

section \<open>The loop\<close>

definition advanceCascade :: "browser \<Rightarrow> rat \<Rightarrow> paper \<Rightarrow> paper" where
  "advanceCascade env dt s =
     (let (wall, s) = pdate_s env (s\<lparr>pp_cascadeElapsedS := pp_cascadeElapsedS s + dt\<rparr>)
      in s\<lparr>pp_cascade := map (\<lambda>c. if cs_triggered_at c = None \<and> of_int (cs_offset c) \<le> pp_cascadeElapsedS s
                                   then c\<lparr>cs_triggered_at := Some wall\<rparr> else c) (pp_cascade s)\<rparr>)"

definition paper_tick :: "browser \<Rightarrow> paper \<Rightarrow> bool \<times> paper" where
  "paper_tick env s =
     (if pp_status s \<noteq> Running then (False, s)
      else let (now, s) = pperf env s;
               s = (case (pp_failLayer s, pp_lastTickAt s) of
                      (Some _, Some t) \<Rightarrow> advanceCascade env ((now - t) / 1000) s
                    | _ \<Rightarrow> s);
               s = s\<lparr>pp_lastTickAt := Some now\<rparr>
           in if dwellDone (now - pp_phaseStart s) NOMINAL_PHASE_DWELL_MS then runPhase env s
              else if pp_failLayer s \<noteq> None \<and> CASCADE_EMIT_MS \<le> now - pp_lastCascadeEmit s
              then (False, s\<lparr>pp_lastCascadeEmit := now\<rparr>)
              else (False, s))"

section \<open>Runs\<close>

datatype paper_input = P_start | P_pause | P_resume | P_step | P_reset | P_hops rat | P_inject layer | P_clear | P_dispose | P_tick

text \<open>Whether the operation threw, and the state it leaves. The callback of a cleared interval is not called.\<close>

fun paper_do :: "browser \<Rightarrow> paper_input \<Rightarrow> paper \<Rightarrow> bool \<times> paper" where
  "paper_do env P_start s = (False, paper_start env s)"
| "paper_do env P_pause s = (False, paper_pause env s)"
| "paper_do env P_resume s = (False, paper_resume env s)"
| "paper_do env P_step s = paper_step env s"
| "paper_do env P_reset s = (False, paper_reset env s)"
| "paper_do env (P_hops n) s = (False, setHopCount env n s)"
| "paper_do env (P_inject l) s = (False, paper_injectFailure env l s)"
| "paper_do env P_clear s = (False, paper_clearFailure env s)"
| "paper_do env P_dispose s = (False, paper_dispose s)"
| "paper_do env P_tick s = (if pp_timer s then paper_tick env s else (False, s))"

definition paper_run :: "browser \<Rightarrow> paper_input list \<Rightarrow> paper" where
  "paper_run env is = foldl (\<lambda>s i. snd (paper_do env i s)) paper_new is"

end
