(* ===== verification/Paper_Inv.thy ===== *)
theory Paper_Inv
  imports Paper
begin

text \<open>
  The invariant of the paper's simulator, kept by every control and by every timer callback: the run's
  settings and logs, its key material, its phase records and the cascade.
\<close>

section \<open>What each part leaves alone\<close>

lemma paper_record_frame [simp]:
  "pp_status (paper_record env a s) = pp_status s" "pp_phase (paper_record env a s) = pp_phase s"
  "pp_hop (paper_record env a s) = pp_hop s" "pp_cyclesTotal (paper_record env a s) = pp_cyclesTotal s"
  "pp_cyclesSucceeded (paper_record env a s) = pp_cyclesSucceeded s"
  "pp_packetsTotal (paper_record env a s) = pp_packetsTotal s"
  "pp_bytesTotal (paper_record env a s) = pp_bytesTotal s" "pp_lastPayload (paper_record env a s) = pp_lastPayload s"
  "pp_qkdKey (paper_record env a s) = pp_qkdKey s" "pp_pqcSecret (paper_record env a s) = pp_pqcSecret s"
  "pp_failLayer (paper_record env a s) = pp_failLayer s" "pp_failStarted (paper_record env a s) = pp_failStarted s"
  "pp_cascade (paper_record env a s) = pp_cascade s"
  "pp_cascadeElapsedS (paper_record env a s) = pp_cascadeElapsedS s"
  "pp_lastTickAt (paper_record env a s) = pp_lastTickAt s"
  "pp_lastCascadeEmit (paper_record env a s) = pp_lastCascadeEmit s"
  "pp_history (paper_record env a s) = pp_history s" "pp_phasesTotal (paper_record env a s) = pp_phasesTotal s"
  "pp_cycleAccepted (paper_record env a s) = pp_cycleAccepted s" "pp_timer (paper_record env a s) = pp_timer s"
  "pp_phaseStart (paper_record env a s) = pp_phaseStart s" "pp_perfs (paper_record env a s) = pp_perfs s"
  "pp_draws (paper_record env a s) = pp_draws s"
  by (simp_all add: paper_record_def paper_reads)

lemma paper_stopLoop_frame [simp]:
  "pp_status (paper_stopLoop s) = pp_status s" "pp_phase (paper_stopLoop s) = pp_phase s"
  "pp_hop (paper_stopLoop s) = pp_hop s" "pp_cyclesTotal (paper_stopLoop s) = pp_cyclesTotal s"
  "pp_cyclesSucceeded (paper_stopLoop s) = pp_cyclesSucceeded s"
  "pp_packetsTotal (paper_stopLoop s) = pp_packetsTotal s" "pp_bytesTotal (paper_stopLoop s) = pp_bytesTotal s"
  "pp_lastPayload (paper_stopLoop s) = pp_lastPayload s" "pp_qkdKey (paper_stopLoop s) = pp_qkdKey s"
  "pp_pqcSecret (paper_stopLoop s) = pp_pqcSecret s" "pp_failLayer (paper_stopLoop s) = pp_failLayer s"
  "pp_failStarted (paper_stopLoop s) = pp_failStarted s" "pp_cascade (paper_stopLoop s) = pp_cascade s"
  "pp_cascadeElapsedS (paper_stopLoop s) = pp_cascadeElapsedS s" "pp_lastTickAt (paper_stopLoop s) = pp_lastTickAt s"
  "pp_lastCascadeEmit (paper_stopLoop s) = pp_lastCascadeEmit s" "pp_history (paper_stopLoop s) = pp_history s"
  "pp_phasesTotal (paper_stopLoop s) = pp_phasesTotal s" "pp_actions (paper_stopLoop s) = pp_actions s"
  "pp_actionsTotal (paper_stopLoop s) = pp_actionsTotal s" "pp_cycleAccepted (paper_stopLoop s) = pp_cycleAccepted s"
  "pp_phaseStart (paper_stopLoop s) = pp_phaseStart s" "pp_perfs (paper_stopLoop s) = pp_perfs s"
  "pp_dates (paper_stopLoop s) = pp_dates s" "pp_draws (paper_stopLoop s) = pp_draws s"
  by (simp_all add: paper_stopLoop_def)

lemma paper_ensureLoop_frame [simp]:
  "pp_status (paper_ensureLoop env s) = pp_status s" "pp_phase (paper_ensureLoop env s) = pp_phase s"
  "pp_hop (paper_ensureLoop env s) = pp_hop s" "pp_cyclesTotal (paper_ensureLoop env s) = pp_cyclesTotal s"
  "pp_cyclesSucceeded (paper_ensureLoop env s) = pp_cyclesSucceeded s"
  "pp_packetsTotal (paper_ensureLoop env s) = pp_packetsTotal s"
  "pp_bytesTotal (paper_ensureLoop env s) = pp_bytesTotal s"
  "pp_lastPayload (paper_ensureLoop env s) = pp_lastPayload s" "pp_qkdKey (paper_ensureLoop env s) = pp_qkdKey s"
  "pp_pqcSecret (paper_ensureLoop env s) = pp_pqcSecret s" "pp_failLayer (paper_ensureLoop env s) = pp_failLayer s"
  "pp_failStarted (paper_ensureLoop env s) = pp_failStarted s" "pp_cascade (paper_ensureLoop env s) = pp_cascade s"
  "pp_cascadeElapsedS (paper_ensureLoop env s) = pp_cascadeElapsedS s"
  "pp_lastCascadeEmit (paper_ensureLoop env s) = pp_lastCascadeEmit s"
  "pp_history (paper_ensureLoop env s) = pp_history s" "pp_phasesTotal (paper_ensureLoop env s) = pp_phasesTotal s"
  "pp_actions (paper_ensureLoop env s) = pp_actions s" "pp_actionsTotal (paper_ensureLoop env s) = pp_actionsTotal s"
  "pp_cycleAccepted (paper_ensureLoop env s) = pp_cycleAccepted s" "pp_dates (paper_ensureLoop env s) = pp_dates s"
  "pp_draws (paper_ensureLoop env s) = pp_draws s"
  by (simp_all add: paper_ensureLoop_def paper_reads)

lemma enterPhase_frame [simp]:
  "pp_status (enterPhase env n s) = pp_status s" "pp_hop (enterPhase env n s) = pp_hop s"
  "pp_cyclesTotal (enterPhase env n s) = pp_cyclesTotal s"
  "pp_cyclesSucceeded (enterPhase env n s) = pp_cyclesSucceeded s"
  "pp_packetsTotal (enterPhase env n s) = pp_packetsTotal s" "pp_bytesTotal (enterPhase env n s) = pp_bytesTotal s"
  "pp_lastPayload (enterPhase env n s) = pp_lastPayload s" "pp_qkdKey (enterPhase env n s) = pp_qkdKey s"
  "pp_pqcSecret (enterPhase env n s) = pp_pqcSecret s" "pp_failLayer (enterPhase env n s) = pp_failLayer s"
  "pp_failStarted (enterPhase env n s) = pp_failStarted s" "pp_cascade (enterPhase env n s) = pp_cascade s"
  "pp_cascadeElapsedS (enterPhase env n s) = pp_cascadeElapsedS s"
  "pp_lastTickAt (enterPhase env n s) = pp_lastTickAt s"
  "pp_lastCascadeEmit (enterPhase env n s) = pp_lastCascadeEmit s" "pp_actions (enterPhase env n s) = pp_actions s"
  "pp_actionsTotal (enterPhase env n s) = pp_actionsTotal s"
  "pp_cycleAccepted (enterPhase env n s) = pp_cycleAccepted s" "pp_timer (enterPhase env n s) = pp_timer s"
  "pp_draws (enterPhase env n s) = pp_draws s"
  by (simp_all add: enterPhase_def paper_reads Let_def)

lemma beginCycle_frame [simp]:
  "pp_status (beginCycle env s) = pp_status s" "pp_hop (beginCycle env s) = pp_hop s"
  "pp_cyclesSucceeded (beginCycle env s) = pp_cyclesSucceeded s"
  "pp_packetsTotal (beginCycle env s) = pp_packetsTotal s" "pp_bytesTotal (beginCycle env s) = pp_bytesTotal s"
  "pp_lastPayload (beginCycle env s) = pp_lastPayload s" "pp_failLayer (beginCycle env s) = pp_failLayer s"
  "pp_failStarted (beginCycle env s) = pp_failStarted s" "pp_cascade (beginCycle env s) = pp_cascade s"
  "pp_cascadeElapsedS (beginCycle env s) = pp_cascadeElapsedS s" "pp_lastTickAt (beginCycle env s) = pp_lastTickAt s"
  "pp_lastCascadeEmit (beginCycle env s) = pp_lastCascadeEmit s" "pp_actions (beginCycle env s) = pp_actions s"
  "pp_actionsTotal (beginCycle env s) = pp_actionsTotal s" "pp_timer (beginCycle env s) = pp_timer s"
  "pp_draws (beginCycle env s) = pp_draws s"
  by (simp_all add: beginCycle_def)

lemma close_record_frame [simp]:
  "pp_status (close_record env n p b d s) = pp_status s" "pp_phase (close_record env n p b d s) = pp_phase s"
  "pp_hop (close_record env n p b d s) = pp_hop s" "pp_cyclesTotal (close_record env n p b d s) = pp_cyclesTotal s"
  "pp_cyclesSucceeded (close_record env n p b d s) = pp_cyclesSucceeded s"
  "pp_packetsTotal (close_record env n p b d s) = pp_packetsTotal s"
  "pp_bytesTotal (close_record env n p b d s) = pp_bytesTotal s"
  "pp_lastPayload (close_record env n p b d s) = pp_lastPayload s"
  "pp_qkdKey (close_record env n p b d s) = pp_qkdKey s" "pp_pqcSecret (close_record env n p b d s) = pp_pqcSecret s"
  "pp_failLayer (close_record env n p b d s) = pp_failLayer s"
  "pp_failStarted (close_record env n p b d s) = pp_failStarted s"
  "pp_cascade (close_record env n p b d s) = pp_cascade s"
  "pp_cascadeElapsedS (close_record env n p b d s) = pp_cascadeElapsedS s"
  "pp_lastTickAt (close_record env n p b d s) = pp_lastTickAt s"
  "pp_lastCascadeEmit (close_record env n p b d s) = pp_lastCascadeEmit s"
  "pp_phasesTotal (close_record env n p b d s) = pp_phasesTotal s"
  "pp_actions (close_record env n p b d s) = pp_actions s"
  "pp_actionsTotal (close_record env n p b d s) = pp_actionsTotal s"
  "pp_cycleAccepted (close_record env n p b d s) = pp_cycleAccepted s"
  "pp_timer (close_record env n p b d s) = pp_timer s" "pp_phaseStart (close_record env n p b d s) = pp_phaseStart s"
  "pp_perfs (close_record env n p b d s) = pp_perfs s" "pp_draws (close_record env n p b d s) = pp_draws s"
  by (simp_all add: close_record_def paper_reads)

lemma advanceCascade_frame [simp]:
  "pp_status (advanceCascade env dt s) = pp_status s" "pp_phase (advanceCascade env dt s) = pp_phase s"
  "pp_hop (advanceCascade env dt s) = pp_hop s" "pp_cyclesTotal (advanceCascade env dt s) = pp_cyclesTotal s"
  "pp_cyclesSucceeded (advanceCascade env dt s) = pp_cyclesSucceeded s"
  "pp_packetsTotal (advanceCascade env dt s) = pp_packetsTotal s"
  "pp_bytesTotal (advanceCascade env dt s) = pp_bytesTotal s"
  "pp_lastPayload (advanceCascade env dt s) = pp_lastPayload s" "pp_qkdKey (advanceCascade env dt s) = pp_qkdKey s"
  "pp_pqcSecret (advanceCascade env dt s) = pp_pqcSecret s" "pp_failLayer (advanceCascade env dt s) = pp_failLayer s"
  "pp_failStarted (advanceCascade env dt s) = pp_failStarted s"
  "pp_lastTickAt (advanceCascade env dt s) = pp_lastTickAt s"
  "pp_lastCascadeEmit (advanceCascade env dt s) = pp_lastCascadeEmit s"
  "pp_history (advanceCascade env dt s) = pp_history s" "pp_phasesTotal (advanceCascade env dt s) = pp_phasesTotal s"
  "pp_actions (advanceCascade env dt s) = pp_actions s"
  "pp_actionsTotal (advanceCascade env dt s) = pp_actionsTotal s"
  "pp_cycleAccepted (advanceCascade env dt s) = pp_cycleAccepted s" "pp_timer (advanceCascade env dt s) = pp_timer s"
  "pp_phaseStart (advanceCascade env dt s) = pp_phaseStart s" "pp_perfs (advanceCascade env dt s) = pp_perfs s"
  "pp_draws (advanceCascade env dt s) = pp_draws s"
  by (simp_all add: advanceCascade_def paper_reads)

lemma phase_work_frame [simp]:
  "pp_status (snd (phase_work env n info s)) = pp_status s" "pp_phase (snd (phase_work env n info s)) = pp_phase s"
  "pp_hop (snd (phase_work env n info s)) = pp_hop s"
  "pp_cyclesTotal (snd (phase_work env n info s)) = pp_cyclesTotal s"
  "pp_cyclesSucceeded (snd (phase_work env n info s)) = pp_cyclesSucceeded s"
  "pp_packetsTotal (snd (phase_work env n info s)) = pp_packetsTotal s"
  "pp_bytesTotal (snd (phase_work env n info s)) = pp_bytesTotal s"
  "pp_failLayer (snd (phase_work env n info s)) = pp_failLayer s"
  "pp_failStarted (snd (phase_work env n info s)) = pp_failStarted s"
  "pp_cascade (snd (phase_work env n info s)) = pp_cascade s"
  "pp_cascadeElapsedS (snd (phase_work env n info s)) = pp_cascadeElapsedS s"
  "pp_lastTickAt (snd (phase_work env n info s)) = pp_lastTickAt s"
  "pp_lastCascadeEmit (snd (phase_work env n info s)) = pp_lastCascadeEmit s"
  "pp_history (snd (phase_work env n info s)) = pp_history s"
  "pp_phasesTotal (snd (phase_work env n info s)) = pp_phasesTotal s"
  "pp_actions (snd (phase_work env n info s)) = pp_actions s"
  "pp_actionsTotal (snd (phase_work env n info s)) = pp_actionsTotal s"
  "pp_cycleAccepted (snd (phase_work env n info s)) = pp_cycleAccepted s"
  "pp_timer (snd (phase_work env n info s)) = pp_timer s"
  "pp_phaseStart (snd (phase_work env n info s)) = pp_phaseStart s"
  "pp_perfs (snd (phase_work env n info s)) = pp_perfs s" "pp_dates (snd (phase_work env n info s)) = pp_dates s"
  by (simp_all add: phase_work_def paper_reads Let_def split: option.splits prod.splits)

lemma finish_phase_frame [simp]:
  "pp_status (finish_phase env n f d p b s) = pp_status s" "pp_hop (finish_phase env n f d p b s) = pp_hop s"
  "pp_lastPayload (finish_phase env n f d p b s) = pp_lastPayload s"
  "pp_failLayer (finish_phase env n f d p b s) = pp_failLayer s"
  "pp_failStarted (finish_phase env n f d p b s) = pp_failStarted s"
  "pp_cascade (finish_phase env n f d p b s) = pp_cascade s"
  "pp_cascadeElapsedS (finish_phase env n f d p b s) = pp_cascadeElapsedS s"
  "pp_lastTickAt (finish_phase env n f d p b s) = pp_lastTickAt s"
  "pp_lastCascadeEmit (finish_phase env n f d p b s) = pp_lastCascadeEmit s"
  "pp_actions (finish_phase env n f d p b s) = pp_actions s"
  "pp_actionsTotal (finish_phase env n f d p b s) = pp_actionsTotal s"
  "pp_timer (finish_phase env n f d p b s) = pp_timer s" "pp_draws (finish_phase env n f d p b s) = pp_draws s"
  by (simp_all add: finish_phase_def Let_def)

text \<open>A phase throws or finishes, after work that leaves all but the keys, the draws and the payload.\<close>

lemma runPhase_cases:
  obtains (lost) "map_of PHASE_BUDGETS (pp_phase s) = None" "runPhase env s = (True, s)"
  | (failing) info dt where "map_of PHASE_BUDGETS (pp_phase s) = Some info" "failed_in (pp_phase s) s"
      "runPhase env s = (False, finish_phase env (pp_phase s) True dt (pb_packets info) (pb_bytes info) (s\<lparr>pp_cycleAccepted := False\<rparr>))"
  | (throwing) info t where "map_of PHASE_BUDGETS (pp_phase s) = Some info" "\<not> failed_in (pp_phase s) s"
      "phase_work env (pp_phase s) info s = (None, t)" "runPhase env s = (True, t)"
  | (working) info dt k n t dt' where "map_of PHASE_BUDGETS (pp_phase s) = Some info" "\<not> failed_in (pp_phase s) s"
      "phase_work env (pp_phase s) info s = (Some (dt, k, n), t)"
      "runPhase env s = (False, finish_phase env (pp_phase s) False dt' k n t)"
proof (cases "map_of PHASE_BUDGETS (pp_phase s)")
  case None
  then show ?thesis using lost by (simp add: runPhase_def)
next
  case (Some info)
  show ?thesis
  proof (cases "failed_in (pp_phase s) s")
    case True
    with Some failing show ?thesis by (simp add: runPhase_def Let_def)
  next
    case False
    obtain r t where w: "phase_work env (pp_phase s) info s = (r, t)" by fastforce
    with Some False throwing working show ?thesis by (cases r) (auto simp: runPhase_def Let_def)
  qed
qed

lemma runPhase_frame [simp]:
  "pp_status (snd (runPhase env s)) = pp_status s \<and> pp_hop (snd (runPhase env s)) = pp_hop s \<and> pp_failLayer (snd (runPhase env s)) = pp_failLayer s
    \<and> pp_failStarted (snd (runPhase env s)) = pp_failStarted s \<and> pp_cascade (snd (runPhase env s)) = pp_cascade s \<and> pp_cascadeElapsedS (snd (runPhase env s)) = pp_cascadeElapsedS s
    \<and> pp_lastTickAt (snd (runPhase env s)) = pp_lastTickAt s \<and> pp_timer (snd (runPhase env s)) = pp_timer s \<and> pp_actions (snd (runPhase env s)) = pp_actions s \<and> pp_actionsTotal (snd (runPhase env s)) = pp_actionsTotal s"
proof (cases rule: runPhase_cases [where s = s and env = env])
  case (throwing info t)
  then show ?thesis using phase_work_frame [of env "pp_phase s" info s] by simp
next
  case (working info dt k n t dt')
  then show ?thesis using phase_work_frame [of env "pp_phase s" info s] by simp
qed simp_all

section \<open>The invariant\<close>

text \<open>The settings, the phase and the counters of the run.\<close>

definition paper_book_ok :: "paper \<Rightarrow> bool" where
  "paper_book_ok s \<longleftrightarrow> pp_phase s \<le> 5 \<and> (pp_status s = Running \<longrightarrow> pp_phase s \<noteq> 0) \<and> (pp_timer s \<longrightarrow> pp_status s = Running)
     \<and> 1 \<le> pp_hop s \<and> pp_hop s \<le> MAX_HOP_COUNT \<and> length (pp_actions s) \<le> ACTION_LIMIT
     \<and> pp_cyclesSucceeded s + (if pp_phase s = 0 then 0 else 1) \<le> pp_cyclesTotal s"

text \<open>The secrets: at the last phase the cycle's own PQC secret is held.\<close>

definition paper_keys_ok :: "paper \<Rightarrow> bool" where
  "paper_keys_ok s \<longleftrightarrow> (\<forall>k. pp_pqcSecret s = Some k \<longrightarrow> length k = 32) \<and> (\<forall>k. pp_qkdKey s = Some k \<longrightarrow> length k = 32)
     \<and> (pp_phase s = 5 \<longrightarrow> pp_pqcSecret s \<noteq> None)"

text \<open>
  The phase records: all are closed but that of the phase under way, which is last and holds no packets. The page
  keeps the last thirty of them; the counters are the sums over all, so never below the sums over those kept, and
  equal to them until one falls off.
\<close>

definition closed_rec :: "phase_rec \<Rightarrow> bool" where
  "closed_rec h \<longleftrightarrow> pr_completed_at h \<noteq> None"

definition open_rec :: "nat \<Rightarrow> phase_rec \<Rightarrow> bool" where
  "open_rec n h \<longleftrightarrow> pr_phase h = n \<and> pr_completed_at h = None \<and> pr_packets h = 0 \<and> pr_bytes h = 0"

definition records_ok :: "nat \<Rightarrow> phase_rec list \<Rightarrow> bool" where
  "records_ok ph hs \<longleftrightarrow> length hs \<le> PHASE_HISTORY_LIMIT
     \<and> (if ph = 0 then list_all closed_rec hs else hs \<noteq> [] \<and> list_all closed_rec (butlast hs) \<and> open_rec ph (last hs))"

definition sums_ok :: "phase_rec list \<Rightarrow> nat \<Rightarrow> nat \<Rightarrow> nat \<Rightarrow> bool" where
  "sums_ok hs n k b \<longleftrightarrow> length hs = min PHASE_HISTORY_LIMIT n
     \<and> sum_list (map pr_packets hs) \<le> k \<and> sum_list (map pr_bytes hs) \<le> b
     \<and> (n \<le> PHASE_HISTORY_LIMIT \<longrightarrow> k = sum_list (map pr_packets hs) \<and> b = sum_list (map pr_bytes hs))"

definition paper_log_ok :: "paper \<Rightarrow> bool" where
  "paper_log_ok s \<longleftrightarrow> records_ok (pp_phase s) (pp_history s)
     \<and> sums_ok (pp_history s) (pp_phasesTotal s) (pp_packetsTotal s) (pp_bytesTotal s)"

text \<open>The cascade is that of the failed layer, and a stage whose time has come is stamped.\<close>

definition paper_cascade_ok :: "paper \<Rightarrow> bool" where
  "paper_cascade_ok s \<longleftrightarrow> (pp_failStarted s = None \<longleftrightarrow> pp_failLayer s = None)
     \<and> map (\<lambda>c. (cs_offset c, cs_layer c, cs_description c)) (pp_cascade s) = (case pp_failLayer s of None \<Rightarrow> []
         | Some l \<Rightarrow> map (\<lambda>(t, k, d). (t - fst (hd (stages_from l)), k, d)) (stages_from l))
     \<and> (\<forall>c \<in> set (pp_cascade s). of_int (cs_offset c) \<le> pp_cascadeElapsedS s \<longrightarrow> cs_triggered_at c \<noteq> None)"

definition paper_wf :: "paper \<Rightarrow> bool" where
  "paper_wf s \<longleftrightarrow> paper_book_ok s \<and> paper_keys_ok s \<and> paper_log_ok s \<and> paper_cascade_ok s"

lemmas paper_ok_defs = paper_book_ok_def paper_keys_ok_def paper_log_ok_def paper_cascade_ok_def

section \<open>The phase records\<close>

lemma sum_drop_le: "sum_list (map f (drop m hs)) \<le> sum_list (map (f :: phase_rec \<Rightarrow> nat) hs)"
proof -
  have "sum_list (map f hs) = sum_list (map f (take m hs)) + sum_list (map f (drop m hs))"
    by (simp flip: sum_list_append map_append)
  then show ?thesis by simp
qed

lemma enter_records:
  assumes "records_ok 0 hs" "sums_ok hs n k b" "open_rec ph r" "ph \<noteq> 0"
  shows "records_ok ph (slice_last PHASE_HISTORY_LIMIT (hs @ [r]))
    \<and> sums_ok (slice_last PHASE_HISTORY_LIMIT (hs @ [r])) (Suc n) k b"
proof -
  have sl: "slice_last PHASE_HISTORY_LIMIT (hs @ [r]) = drop (Suc (length hs) - 30) hs @ [r]"
    by (cases "Suc (length hs) - 30 \<le> length hs") (simp_all add: slice_last_def PHASE_HISTORY_LIMIT_def)
  have "list_all closed_rec (drop m hs)" for m
    using assms(1) by (auto simp: records_ok_def list_all_iff dest: in_set_dropD)
  then have r: "records_ok ph (slice_last PHASE_HISTORY_LIMIT (hs @ [r]))"
    using assms(3,4) length_slice_last [of PHASE_HISTORY_LIMIT "hs @ [r]"] by (simp add: records_ok_def sl)
  have "sums_ok (slice_last PHASE_HISTORY_LIMIT (hs @ [r])) (Suc n) k b"
    using assms(2,3) sum_drop_le [of pr_packets "Suc (length hs) - 30" hs] sum_drop_le [of pr_bytes "Suc (length hs) - 30" hs]
    by (cases "Suc n \<le> 30") (auto simp: sums_ok_def sl [unfolded PHASE_HISTORY_LIMIT_def] open_rec_def PHASE_HISTORY_LIMIT_def)
  with r show ?thesis ..
qed

lemma close_first_last:
  assumes "hs \<noteq> []" "open_rec ph (last hs)"
  shows "rev (close_first ph d k n dt (rev hs))
    = butlast hs @ [(last hs)\<lparr>pr_completed_at := Some d, pr_packets := k, pr_bytes := n, pr_detail := dt\<rparr>]"
proof -
  have "rev hs = last hs # rev (butlast hs)" using assms(1) by (metis append_butlast_last_id rev_eq_Cons_iff rev_rev_ident)
  show ?thesis unfolding \<open>rev hs = _\<close> using assms(2) by (simp add: open_rec_def)
qed

lemma close_records:
  assumes "records_ok ph hs" "ph \<noteq> 0" "sums_ok hs n k b"
  shows "records_ok 0 (rev (close_first ph d k' b' dt (rev hs))) \<and> sums_ok (rev (close_first ph d k' b' dt (rev hs))) n (k + k') (b + b')
    \<and> list_ex (\<lambda>h. pr_phase h = ph \<and> pr_completed_at h = None) hs"
proof -
  have h: "hs \<noteq> []" "list_all closed_rec (butlast hs)" "open_rec ph (last hs)" "length hs \<le> PHASE_HISTORY_LIMIT"
    using assms(1,2) by (simp_all add: records_ok_def)
  have sum: "sum_list (map f hs) = sum_list (map f (butlast hs)) + f (last hs)" for f :: "phase_rec \<Rightarrow> nat"
    using h(1) by (induction hs rule: rev_induct) simp_all
  have "list_ex (\<lambda>h. pr_phase h = ph \<and> pr_completed_at h = None) hs"
    using h(1,3) by (auto simp: list_ex_iff open_rec_def intro: bexI [of _ "last hs"])
  moreover have "0 < n" using h(1) assms(3) by (cases n) (auto simp: sums_ok_def)
  ultimately show ?thesis
    using h assms(3) by (auto simp: PHASE_HISTORY_LIMIT_def min_def close_first_last records_ok_def closed_rec_def sums_ok_def sum open_rec_def)
qed

section \<open>Between two phases\<close>

text \<open>What holds when no phase is under way, whatever the phase member says.\<close>

definition between_ok :: "paper \<Rightarrow> bool" where
  "between_ok s \<longleftrightarrow> (pp_timer s \<longrightarrow> pp_status s = Running) \<and> 1 \<le> pp_hop s \<and> pp_hop s \<le> MAX_HOP_COUNT
     \<and> length (pp_actions s) \<le> ACTION_LIMIT \<and> pp_cyclesSucceeded s \<le> pp_cyclesTotal s
     \<and> (\<forall>k. pp_pqcSecret s = Some k \<longrightarrow> length k = 32) \<and> (\<forall>k. pp_qkdKey s = Some k \<longrightarrow> length k = 32)
     \<and> records_ok 0 (pp_history s) \<and> sums_ok (pp_history s) (pp_phasesTotal s) (pp_packetsTotal s) (pp_bytesTotal s)
     \<and> paper_cascade_ok s"

lemma between_of_wf: "paper_wf s \<Longrightarrow> pp_phase s = 0 \<Longrightarrow> between_ok s"
  by (simp add: paper_wf_def between_ok_def paper_book_ok_def paper_keys_ok_def paper_log_ok_def)

lemma wf_of_between: "between_ok s \<Longrightarrow> pp_phase s = 0 \<Longrightarrow> pp_status s \<noteq> Running \<Longrightarrow> paper_wf s"
  by (simp add: paper_wf_def between_ok_def paper_book_ok_def paper_keys_ok_def paper_log_ok_def)

lemma cascade_ok_cong:
  "pp_failLayer t = pp_failLayer s \<Longrightarrow> pp_failStarted t = pp_failStarted s \<Longrightarrow> pp_cascade t = pp_cascade s
   \<Longrightarrow> pp_cascadeElapsedS t = pp_cascadeElapsedS s \<Longrightarrow> paper_cascade_ok t = paper_cascade_ok s"
  by (simp add: paper_cascade_ok_def)

lemma enterPhase_history:
  "pp_phase (enterPhase env ph s) = ph" "pp_phasesTotal (enterPhase env ph s) = Suc (pp_phasesTotal s)"
  "\<exists>r. open_rec ph r \<and> pp_history (enterPhase env ph s) = slice_last PHASE_HISTORY_LIMIT (pp_history s @ [r])"
  by (simp_all add: enterPhase_def paper_reads Let_def open_rec_def) (rule exI, rule conjI [OF _ conjI [OF _ conjI [OF _ conjI [OF _ refl]]]], simp_all)

lemma enterPhase_wf:
  assumes b: "between_ok s" and ph: "ph \<in> {1..5}" and n: "Suc (pp_cyclesSucceeded s) \<le> pp_cyclesTotal s"
    and k: "ph = 5 \<Longrightarrow> pp_pqcSecret s \<noteq> None"
  shows "paper_wf (enterPhase env ph s)"
proof -
  obtain r where r: "open_rec ph r" "pp_history (enterPhase env ph s) = slice_last PHASE_HISTORY_LIMIT (pp_history s @ [r])"
    using enterPhase_history(3) by blast
  have "records_ok 0 (pp_history s)" "sums_ok (pp_history s) (pp_phasesTotal s) (pp_packetsTotal s) (pp_bytesTotal s)"
    using b by (simp_all add: between_ok_def)
  from enter_records [OF this r(1)] ph have "paper_log_ok (enterPhase env ph s)"
    by (auto simp: paper_log_ok_def enterPhase_history(1,2) r(2))
  moreover have "paper_cascade_ok (enterPhase env ph s)"
    using b cascade_ok_cong [of "enterPhase env ph s" s] by (simp add: between_ok_def)
  ultimately show ?thesis
    using b ph n k by (simp add: paper_wf_def between_ok_def paper_book_ok_def paper_keys_ok_def enterPhase_history(1))
qed

lemma beginCycle_wf: "between_ok s \<Longrightarrow> paper_wf (beginCycle env s)"
  unfolding beginCycle_def by (rule enterPhase_wf) (auto simp: between_ok_def paper_cascade_ok_def)

lemma beginCycle_phase [simp]: "pp_phase (beginCycle env s) = 1"
  by (simp add: beginCycle_def enterPhase_history)

section \<open>A phase\<close>

lemma close_record_history:
  assumes "records_ok ph (pp_history s)" "ph \<noteq> 0" "sums_ok (pp_history s) n k b"
  shows "records_ok 0 (pp_history (close_record env ph k' b' dt s)) \<and> sums_ok (pp_history (close_record env ph k' b' dt s)) n (k + k') (b + b')"
  using close_records [OF assms] by (simp add: close_record_def pdate_s_def)

lemma close_between:
  assumes wf: "paper_wf s" and ph: "pp_phase s = ph" "ph \<noteq> 0"
  shows "between_ok (close_record env ph k n dt (s\<lparr>pp_packetsTotal := pp_packetsTotal s + k, pp_bytesTotal := pp_bytesTotal s + n\<rparr>))
    \<and> Suc (pp_cyclesSucceeded s) \<le> pp_cyclesTotal s"
proof -
  have h: "records_ok ph (pp_history s)" "sums_ok (pp_history s) (pp_phasesTotal s) (pp_packetsTotal s) (pp_bytesTotal s)"
    using wf ph by (simp_all add: paper_wf_def paper_log_ok_def)
  let ?s = "s\<lparr>pp_packetsTotal := pp_packetsTotal s + k, pp_bytesTotal := pp_bytesTotal s + n\<rparr>"
  have "paper_cascade_ok (close_record env ph k n dt ?s)"
    using wf cascade_ok_cong [of "close_record env ph k n dt ?s" s] by (simp add: paper_wf_def)
  then show ?thesis
    using wf ph close_record_history [of ph ?s "pp_phasesTotal s" "pp_packetsTotal s" "pp_bytesTotal s" env k n dt] h
    by (simp add: paper_wf_def between_ok_def paper_book_ok_def paper_keys_ok_def)
qed

lemma finish_phase_wf:
  assumes wf: "paper_wf s" and ph: "pp_phase s = ph" "ph \<noteq> 0" and k: "ph = 4 \<Longrightarrow> \<not> failed \<Longrightarrow> pp_pqcSecret s \<noteq> None"
  shows "paper_wf (finish_phase env ph failed dt p n s)"
proof -
  let ?s = "close_record env ph p n dt (s\<lparr>pp_packetsTotal := pp_packetsTotal s + p, pp_bytesTotal := pp_bytesTotal s + n\<rparr>)"
  have b: "between_ok ?s" "Suc (pp_cyclesSucceeded s) \<le> pp_cyclesTotal s" using close_between [OF wf ph] by blast+
  show ?thesis
  proof (cases "failed \<or> 5 \<le> ph")
    case True
    let ?u = "(if pp_cycleAccepted ?s then ?s\<lparr>pp_cyclesSucceeded := Suc (pp_cyclesSucceeded ?s)\<rparr> else ?s)\<lparr>pp_phase := 0\<rparr>"
    have "between_ok ?u" using b by (auto simp: between_ok_def paper_cascade_ok_def)
    then show ?thesis using True beginCycle_wf [of ?u env] wf_of_between [of ?u] by (simp add: finish_phase_def Let_def)
  next
    case False
    then show ?thesis using b k ph enterPhase_wf [of ?s "ph + 1" env] by (auto simp: finish_phase_def Let_def)
  qed
qed

lemma budget_of: "map_of PHASE_BUDGETS n \<noteq> None \<longleftrightarrow> n \<in> {1..5}"
  by (auto simp: PHASE_BUDGETS_def)

text \<open>The work of a phase never throws: its keys are there and the library seals under a 32-byte key.\<close>

lemma phase_work_wf:
  assumes env: "browser_ok env" and wf: "paper_wf s" and ph: "pp_phase s = ph"
  shows "fst (phase_work env ph info s) \<noteq> None \<and> paper_wf (snd (phase_work env ph info s))
    \<and> (ph = 4 \<longrightarrow> pp_pqcSecret (snd (phase_work env ph info s)) \<noteq> None)"
proof -
  have tp: "tape_ok (br_random env)" and nb: "noble_ok (br_noble env)" using env by (simp_all add: browser_ok_def)
  have upd: "paper_wf (s\<lparr>pp_draws := a\<rparr>)" "paper_wf (s\<lparr>pp_draws := a, pp_lastPayload := p\<rparr>)"
    "length x = 32 \<Longrightarrow> paper_wf (s\<lparr>pp_draws := a, pp_qkdKey := Some x\<rparr>)"
    "length x = 32 \<Longrightarrow> paper_wf (s\<lparr>pp_draws := a, pp_pqcSecret := Some x\<rparr>)" for a p x
    using wf by (auto simp: paper_wf_def paper_book_ok_def paper_keys_ok_def paper_log_ok_def paper_cascade_ok_def)
  show ?thesis
  proof (cases "ph = 5")
    case True
    then obtain pqc where pqc: "pp_pqcSecret s = Some pqc" using wf ph by (auto simp: paper_wf_def paper_keys_ok_def)
    obtain ct where "chachaSeal (br_noble env) (br_random env) (deriveHkdfSha3 (br_noble env) [] pqc ''paper-flow'')
        (encodeUtf8 (paper_text (pp_cyclesTotal s) (pp_hop s))) (pp_draws s) = (Some (ct, br_random env (pp_draws s) 12), Suc (pp_draws s))"
      using chachaSeal_32 [OF nb tp] length_deriveHkdfSha3 [OF nb] by blast
    with True pqc upd show ?thesis by (simp add: phase_work_def)
  next
    case False
    then show ?thesis using wf upd tp by (auto simp: phase_work_def paper_reads Let_def split: option.splits)
  qed
qed

lemma runPhase_wf:
  assumes env: "browser_ok env" and wf: "paper_wf s" and ph: "pp_phase s \<noteq> 0"
  shows "\<not> fst (runPhase env s) \<and> paper_wf (snd (runPhase env s))"
proof -
  have "pp_phase s \<in> {1..5}" using wf ph by (auto simp: paper_wf_def paper_book_ok_def)
  then have "map_of PHASE_BUDGETS (pp_phase s) \<noteq> None" by (simp only: budget_of)
  show ?thesis
  proof (cases rule: runPhase_cases [where s = s and env = env])
    case lost
    then show ?thesis using \<open>map_of _ _ \<noteq> None\<close> by simp
  next
    case (failing info dt)
    have "paper_wf (s\<lparr>pp_cycleAccepted := False\<rparr>)"
      using wf by (simp add: paper_wf_def paper_book_ok_def paper_keys_ok_def paper_log_ok_def paper_cascade_ok_def)
    then show ?thesis using failing ph finish_phase_wf [of "s\<lparr>pp_cycleAccepted := False\<rparr>" "pp_phase s" True env] by simp
  next
    case (throwing info t)
    then show ?thesis using phase_work_wf [OF env wf refl, of info] by simp
  next
    case (working info dt k n t dt')
    then have t: "paper_wf t" "pp_phase s = 4 \<longrightarrow> pp_pqcSecret t \<noteq> None" using phase_work_wf [OF env wf refl, of info]
      by (simp_all only: working(3) snd_conv) blast
    have "pp_phase t = pp_phase s" using phase_work_frame [of env "pp_phase s" info s] working(3) by simp
    then show ?thesis using working ph t finish_phase_wf [of t "pp_phase s" False env] by simp
  qed
qed

section \<open>The controls\<close>

lemma paper_new_wf: "paper_wf paper_new"
  by (simp add: paper_wf_def paper_ok_defs records_ok_def sums_ok_def paper_new_def DEFAULT_HOP_COUNT_def MAX_HOP_COUNT_def)

lemma paper_record_wf: "paper_wf s \<Longrightarrow> paper_wf (paper_record env a s)"
proof -
  assume "paper_wf s"
  moreover from this have "length (pp_actions (paper_record env a s)) \<le> ACTION_LIMIT"
    by (simp add: paper_wf_def paper_book_ok_def paper_record_def paper_reads length_push_shift_le)
  ultimately show ?thesis by (simp add: paper_wf_def paper_ok_defs)
qed

lemma paper_status_wf:
  "paper_wf s \<Longrightarrow> pp_phase s \<noteq> 0 \<Longrightarrow> paper_wf (s\<lparr>pp_status := Running\<rparr>)"
  "paper_wf s \<Longrightarrow> \<not> pp_timer s \<Longrightarrow> st \<noteq> Running \<Longrightarrow> paper_wf (s\<lparr>pp_status := st\<rparr>)"
  "paper_wf s \<Longrightarrow> paper_wf (paper_stopLoop s)"
  by (simp_all add: paper_wf_def paper_ok_defs)  (simp add: paper_stopLoop_def)

lemma paper_stop_simp [simp]: "pp_timer (paper_stopLoop s) = False" "pp_timer (paper_ensureLoop env s) = True"
  by (simp_all add: paper_stopLoop_def paper_ensureLoop_def paper_reads)

lemma paper_ensureLoop_wf: "paper_wf s \<Longrightarrow> pp_status s = Running \<Longrightarrow> paper_wf (paper_ensureLoop env s)"
  by (simp add: paper_wf_def paper_ok_defs split: if_splits)

lemma begin_running_wf:
  assumes "paper_wf s" "pp_phase s = 0"
  shows "paper_wf (beginCycle env (s\<lparr>pp_status := st\<rparr>))"
proof (rule beginCycle_wf)
  have "pp_status s \<noteq> Running" using assms by (auto simp: paper_wf_def paper_book_ok_def)
  then show "between_ok (s\<lparr>pp_status := st\<rparr>)"
    using between_of_wf [OF assms] by (simp add: between_ok_def paper_cascade_ok_def)
qed

lemma paper_start_wf: "paper_wf s \<Longrightarrow> paper_wf (paper_start env s)" "paper_wf s \<Longrightarrow> paper_wf (paper_resume env s)"
proof -
  assume wf: "paper_wf s"
  have "paper_wf (let s = (paper_record env a s)\<lparr>pp_status := Running\<rparr>; s = (if pp_phase s = 0 then beginCycle env s else s)
      in paper_ensureLoop env s)" for a
    using paper_record_wf [OF wf, of env a] begin_running_wf [of "paper_record env a s" env Running]
    by (simp add: Let_def paper_ensureLoop_wf paper_status_wf)
  then show "paper_wf (paper_start env s)" "paper_wf (paper_resume env s)" by (simp_all only: paper_start_def paper_resume_def)
qed

lemma paper_pause_wf: "paper_wf s \<Longrightarrow> paper_wf (paper_pause env s)"
proof -
  assume "paper_wf s"
  from paper_record_wf [OF this, of env "''pause''"] show ?thesis
    by (simp add: paper_pause_def paper_stopLoop_def paper_wf_def paper_ok_defs)
qed

lemma paper_step_wf:
  assumes env: "browser_ok env" and wf: "paper_wf s"
  shows "\<not> fst (paper_step env s) \<and> paper_wf (snd (paper_step env s))"
proof (cases "pp_status s = Running")
  case False
  let ?r = "paper_record env ''step'' s"
  let ?u = "?r\<lparr>pp_status := Stepped\<rparr>"
  have t: "\<not> pp_timer s" using wf False by (auto simp: paper_wf_def paper_book_ok_def)
  have r: "paper_wf ?r" by (rule paper_record_wf [OF wf])
  have u: "paper_wf ?u" by (rule paper_status_wf [OF r]) (simp_all add: t)
  show ?thesis
  proof (cases "pp_phase s = 0")
    case True
    then show ?thesis using False begin_running_wf [OF r, of env Stepped] by (simp add: paper_step_def Let_def)
  next
    case nz: False
    have "pp_phase ?u \<noteq> 0" using nz by simp
    note w = runPhase_wf [OF env u this]
    obtain threw v where r': "runPhase env ?u = (threw, v)" by fastforce
    then have v: "runPhase env ?u = (False, v)" "paper_wf v" using w by simp_all
    have "\<not> pp_timer v" using runPhase_frame [of env ?u] v(1) t by simp
    then show ?thesis using False nz v paper_status_wf(2) [of v Paused] by (simp add: paper_step_def Let_def)
  qed
qed (simp add: paper_step_def wf)

lemma paper_reset_wf: "paper_wf s \<Longrightarrow> paper_wf (paper_reset env s)"
  unfolding paper_reset_def
  by (rule paper_record_wf) (simp add: paper_wf_def paper_ok_defs records_ok_def sums_ok_def)

lemma setHopCount_wf: "paper_wf s \<Longrightarrow> paper_wf (setHopCount env n s)"
  unfolding setHopCount_def Let_def
  by (rule paper_record_wf) (simp add: paper_wf_def paper_ok_defs MAX_HOP_COUNT_def)

lemma paper_dispose_wf: "paper_wf s \<Longrightarrow> paper_wf (paper_dispose s)"
  by (simp add: paper_dispose_def paper_status_wf)

section \<open>The cascade\<close>

text \<open>A change of the failure and the cascade alone.\<close>

lemma paper_wf_failure:
  assumes "paper_wf s" "paper_cascade_ok (s\<lparr>pp_failLayer := a, pp_failStarted := b, pp_cascade := c, pp_cascadeElapsedS := d\<rparr>)"
  shows "paper_wf (s\<lparr>pp_failLayer := a, pp_failStarted := b, pp_cascade := c, pp_cascadeElapsedS := d\<rparr>)"
  using assms by (simp add: paper_wf_def paper_book_ok_def paper_keys_ok_def paper_log_ok_def)

lemma paper_wf_cascade:
  assumes "paper_wf s" "paper_cascade_ok (s\<lparr>pp_failLayer := a, pp_failStarted := b, pp_cascadeElapsedS := d, pp_cascade := c\<rparr>)"
  shows "paper_wf (s\<lparr>pp_failLayer := a, pp_failStarted := b, pp_cascadeElapsedS := d, pp_cascade := c\<rparr>)"
  using assms by (simp add: paper_wf_def paper_book_ok_def paper_keys_ok_def paper_log_ok_def)

lemma paper_dates_wf: "paper_wf s \<Longrightarrow> paper_wf (s\<lparr>pp_dates := d\<rparr>)"
  by (simp add: paper_wf_def paper_ok_defs)

lemma thousands [simp]: "\<exists>y. x = y * (1000 :: rat)"
  by (rule exI [of _ "x / 1000"]) simp

text \<open>The offsets of a layer's stages start at zero and do not decrease.\<close>

lemma stages_offsets: "list_all (\<lambda>(t, k, d). fst (hd (stages_from l)) \<le> t) (stages_from l)"
  by (cases l) (simp_all add: stages_from_def CASCADE_STAGES_def)

lemma paper_inject_wf: "paper_wf s \<Longrightarrow> paper_wf (paper_injectFailure env l s)"
proof -
  assume wf: "paper_wf s"
  let ?r = "paper_record env (''inject '' @ player_text l) (s\<lparr>pp_dates := Suc (pp_dates s)\<rparr>)"
  have r: "paper_wf ?r" by (rule paper_record_wf [OF paper_dates_wf [OF wf]])
  show ?thesis
    unfolding paper_injectFailure_def pdate_s_def Let_def prod.case
    by (rule paper_wf_cascade [OF r])
      (use stages_offsets [of l] in \<open>auto simp: paper_cascade_ok_def case_prod_unfold list_all_iff\<close>)
qed

lemma paper_clear_wf: "paper_wf s \<Longrightarrow> paper_wf (paper_clearFailure env s)"
  unfolding paper_clearFailure_def
  by (rule paper_wf_failure [OF paper_record_wf]) (simp_all add: paper_cascade_ok_def)

lemma advanceCascade_wf: "paper_wf s \<Longrightarrow> paper_wf (advanceCascade env dt s)"
proof -
  assume wf: "paper_wf s"
  have "map (\<lambda>c. (cs_offset c, cs_layer c, cs_description c)) (pp_cascade (advanceCascade env dt s))
      = map (\<lambda>c. (cs_offset c, cs_layer c, cs_description c)) (pp_cascade s)"
    by (simp add: advanceCascade_def pdate_s_def Let_def)
  moreover have "cs_triggered_at c \<noteq> None"
    if "c \<in> set (pp_cascade (advanceCascade env dt s))" "of_int (cs_offset c) \<le> pp_cascadeElapsedS (advanceCascade env dt s)" for c
    using that by (auto simp: advanceCascade_def pdate_s_def Let_def split: if_splits)
  ultimately have "paper_cascade_ok (advanceCascade env dt s)"
    using wf by (simp add: paper_wf_def paper_cascade_ok_def)
  then show ?thesis using wf by (simp add: paper_wf_def paper_book_ok_def paper_keys_ok_def paper_log_ok_def)
qed

section \<open>The loop\<close>

text \<open>What a tick does before its phase, if that is due.\<close>

definition tick_clock :: "browser \<Rightarrow> paper \<Rightarrow> paper" where
  "tick_clock env s = (let (now, s) = pperf env s in
     (case (pp_failLayer s, pp_lastTickAt s) of (Some _, Some t) \<Rightarrow> advanceCascade env ((now - t) / 1000) s | _ \<Rightarrow> s)
       \<lparr>pp_lastTickAt := Some now\<rparr>)"

lemma paper_tick_clock:
  "pp_status s = Running \<Longrightarrow> paper_tick env s = (let now = br_perf env (pp_perfs s); u = tick_clock env s
     in if dwellDone (now - pp_phaseStart s) NOMINAL_PHASE_DWELL_MS then runPhase env u
        else if pp_failLayer s \<noteq> None \<and> CASCADE_EMIT_MS \<le> now - pp_lastCascadeEmit s then (False, u\<lparr>pp_lastCascadeEmit := now\<rparr>)
        else (False, u))"
  by (cases "pp_failLayer s"; cases "pp_lastTickAt s") (simp_all add: paper_tick_def tick_clock_def pperf_def Let_def)

lemma tick_clock_keeps [simp]:
  "pp_phase (tick_clock env s) = pp_phase s" "pp_status (tick_clock env s) = pp_status s" "pp_timer (tick_clock env s) = pp_timer s"
  "pp_failLayer (tick_clock env s) = pp_failLayer s" "pp_perfs (tick_clock env s) = Suc (pp_perfs s)"
  "pp_lastTickAt (tick_clock env s) = Some (br_perf env (pp_perfs s))"
  by (simp_all add: tick_clock_def pperf_def Let_def split: option.splits)

lemma tick_clock_wf:
  assumes "paper_wf s"
  shows "paper_wf (tick_clock env s)"
proof -
  have perfs: "paper_wf (s\<lparr>pp_perfs := n\<rparr>)" and last: "paper_wf u \<Longrightarrow> paper_wf (u\<lparr>pp_lastTickAt := t\<rparr>)" for n t u
    using assms by (simp_all add: paper_wf_def paper_ok_defs)
  show ?thesis
    using perfs advanceCascade_wf [OF perfs] by (auto simp: tick_clock_def pperf_def Let_def intro!: last split: option.splits)
qed

lemma paper_tick_wf:
  assumes env: "browser_ok env" and wf: "paper_wf s"
  shows "\<not> fst (paper_tick env s) \<and> paper_wf (snd (paper_tick env s))"
proof (cases "pp_status s = Running")
  case True
  then have "pp_phase (tick_clock env s) \<noteq> 0" using wf by (simp add: paper_wf_def paper_book_ok_def)
  note run = runPhase_wf [OF env tick_clock_wf [OF wf] this]
  have "paper_wf (tick_clock env s\<lparr>pp_lastCascadeEmit := t\<rparr>)" for t
    using tick_clock_wf [OF wf, of env] by (simp add: paper_wf_def paper_ok_defs)
  then show ?thesis using run tick_clock_wf [OF wf, of env] by (simp add: paper_tick_clock [OF True] Let_def)
qed (simp add: paper_tick_def wf)

section \<open>Runs\<close>

lemma paper_do_wf:
  assumes "browser_ok env" "paper_wf s"
  shows "\<not> fst (paper_do env i s) \<and> paper_wf (snd (paper_do env i s))"
  using assms paper_step_wf [OF assms] paper_tick_wf [OF assms]
  by (cases i) (simp_all add: paper_start_wf paper_pause_wf paper_reset_wf setHopCount_wf paper_inject_wf paper_clear_wf paper_dispose_wf)

lemma paper_run_snoc: "paper_run env (is @ [i]) = snd (paper_do env i (paper_run env is))"
  by (simp add: paper_run_def)

lemma paper_run_wf: "browser_ok env \<Longrightarrow> paper_wf (paper_run env is)"
proof (induction "is" rule: rev_induct)
  case Nil
  then show ?case using paper_new_wf by (simp add: paper_run_def)
next
  case (snoc i "is")
  then show ?case using paper_do_wf [of env "paper_run env is" i] by (simp add: paper_run_snoc)
qed

end
