(* ===== verification/Paper_Laws.thy ===== *)
theory Paper_Laws
  imports Paper_Inv
begin

text \<open>
  What the counters and the cascade of the paper's simulator are: the counters refine a tally over the published
  budgets, and the cascade is that of the running time.
\<close>

section \<open>The tally\<close>

text \<open>The counters of a run, without its keys, clocks, logs and random draws.\<close>

record tally =
  ta_phase :: nat
  ta_cycles :: nat
  ta_succeeded :: nat
  ta_packets :: nat
  ta_bytes :: nat

definition tally_of :: "paper \<Rightarrow> tally" where
  "tally_of s = \<lparr>ta_phase = pp_phase s, ta_cycles = pp_cyclesTotal s, ta_succeeded = pp_cyclesSucceeded s,
     ta_packets = pp_packetsTotal s, ta_bytes = pp_bytesTotal s\<rparr>"

lemma tally_sel [simp]:
  "ta_phase (tally_of s) = pp_phase s" "ta_cycles (tally_of s) = pp_cyclesTotal s" "ta_succeeded (tally_of s) = pp_cyclesSucceeded s"
  "ta_packets (tally_of s) = pp_packetsTotal s" "ta_bytes (tally_of s) = pp_bytesTotal s"
  by (simp_all add: tally_of_def)

lemma tally_upd [simp]:
  "tally_of (s\<lparr>pp_cycleAccepted := b\<rparr>) = tally_of s" "tally_of (s\<lparr>pp_status := st\<rparr>) = tally_of s"
  "tally_of (paper_record env a s) = tally_of s"
  by (simp_all add: tally_of_def)

definition tally_begin :: "tally \<Rightarrow> tally" where
  "tally_begin t = t\<lparr>ta_phase := 1, ta_cycles := Suc (ta_cycles t)\<rparr>"

text \<open>The packets of a phase are its budget, but the last one sends the sealed payload when it does not fail.\<close>

definition phase_packets :: "bool \<Rightarrow> nat \<Rightarrow> nat" where
  "phase_packets failed ph = (if ph = 5 \<and> \<not> failed then 1
     else case map_of PHASE_BUDGETS ph of Some i \<Rightarrow> pb_packets i | None \<Rightarrow> 0)"

definition phase_bytes :: "bool \<Rightarrow> nat \<Rightarrow> int \<Rightarrow> nat \<Rightarrow> nat" where
  "phase_bytes failed cycles hops ph = (if ph = 5 \<and> \<not> failed then length (paper_text cycles hops) + 16 + 12
     else case map_of PHASE_BUDGETS ph of Some i \<Rightarrow> pb_bytes i | None \<Rightarrow> 0)"

definition tally_phase :: "bool \<Rightarrow> layer option \<Rightarrow> int \<Rightarrow> tally \<Rightarrow> tally" where
  "tally_phase running fail hops t =
     (let ph = ta_phase t; failed = (case fail of None \<Rightarrow> False | Some l \<Rightarrow> PHASE_OF_LAYER l = ph);
          u = t\<lparr>ta_packets := ta_packets t + phase_packets failed ph, ta_bytes := ta_bytes t + phase_bytes failed (ta_cycles t) hops ph\<rparr>
      in if failed \<or> ph = 5
         then let v = u\<lparr>ta_phase := 0, ta_succeeded := ta_succeeded t + (if failed then 0 else 1)\<rparr>
              in if running then tally_begin v else v
         else u\<lparr>ta_phase := Suc ph\<rparr>)"

section \<open>The cycle under way is accepted\<close>

definition accepted_ok :: "paper \<Rightarrow> bool" where
  "accepted_ok s \<longleftrightarrow> (pp_phase s \<noteq> 0 \<longrightarrow> pp_cycleAccepted s)"

lemma accepted_begin [simp]: "accepted_ok (beginCycle env s)" "accepted_ok (s\<lparr>pp_phase := 0\<rparr>)"
  by (simp_all add: accepted_ok_def beginCycle_def)

lemma accepted_finish: "\<not> failed \<longrightarrow> pp_cycleAccepted s \<Longrightarrow> accepted_ok (finish_phase env ph failed dt k n s)"
  by (simp add: finish_phase_def Let_def) (simp add: accepted_ok_def)

lemma accepted_runPhase:
  assumes "accepted_ok s" "pp_phase s \<noteq> 0"
  shows "accepted_ok (snd (runPhase env s))"
proof (cases rule: runPhase_cases [where s = s and env = env])
  case (failing info dt)
  then show ?thesis by (simp add: accepted_finish)
next
  case (throwing info t)
  then show ?thesis using phase_work_frame [of env "pp_phase s" info s] assms by (simp add: accepted_ok_def)
next
  case (working info dt k n t dt')
  have "pp_cycleAccepted t" using working(3) phase_work_frame [of env "pp_phase s" info s] assms by (simp add: accepted_ok_def)
  then show ?thesis using working by (simp add: accepted_finish)
qed (use assms in simp)

lemma accepted_do:
  assumes wf: "paper_wf s" and ok: "accepted_ok s"
  shows "accepted_ok (snd (paper_do env i s))"
proof -
  have start: "accepted_ok (paper_start env s)" "accepted_ok (paper_resume env s)"
    using ok by (simp_all add: paper_start_def paper_resume_def Let_def) (auto simp: accepted_ok_def beginCycle_def)
  have step: "accepted_ok (snd (paper_step env s))"
  proof (cases "pp_status s = Running \<or> pp_phase s = 0")
    case True
    then show ?thesis using ok by (auto simp: paper_step_def Let_def)
  next
    case False
    let ?u = "(paper_record env ''step'' s)\<lparr>pp_status := Stepped\<rparr>"
    have "accepted_ok ?u" "pp_phase ?u \<noteq> 0" using ok False by (simp_all add: accepted_ok_def)
    from accepted_runPhase [OF this, of env] False show ?thesis
      by (cases "runPhase env ?u") (simp add: paper_step_def Let_def accepted_ok_def)
  qed
  have tick: "accepted_ok (snd (paper_tick env s))"
  proof (cases "pp_status s = Running")
    case True
    have c: "pp_cycleAccepted (tick_clock env s) = pp_cycleAccepted s"
      by (simp add: tick_clock_def pperf_def Let_def split: option.splits)
    have "pp_phase s \<noteq> 0" using wf True by (simp add: paper_wf_def paper_book_ok_def)
    then have "accepted_ok (tick_clock env s)" "pp_phase (tick_clock env s) \<noteq> 0" using ok c by (simp_all add: accepted_ok_def)
    from accepted_runPhase [OF this] this show ?thesis by (simp add: paper_tick_clock [OF True] Let_def accepted_ok_def)
  qed (simp add: paper_tick_def ok)
  show ?thesis
    using start step tick ok
    by (cases i) (simp_all add: accepted_ok_def paper_pause_def paper_reset_def setHopCount_def paper_injectFailure_def Let_def
        pdate_s_def paper_clearFailure_def paper_dispose_def)
qed

lemma paper_run_accepted: "browser_ok env \<Longrightarrow> accepted_ok (paper_run env is)"
proof (induction "is" rule: rev_induct)
  case Nil
  then show ?case by (simp add: paper_run_def paper_new_def accepted_ok_def)
next
  case (snoc i "is")
  then show ?case by (simp add: paper_run_snoc accepted_do [OF paper_run_wf])
qed

section \<open>The refinement\<close>

lemma tally_enter: "tally_of (enterPhase env n s) = tally_of s\<lparr>ta_phase := n\<rparr>"
  by (simp add: tally_of_def enterPhase_history(1))

lemma tally_beginCycle: "tally_of (beginCycle env s) = tally_begin (tally_of s)"
  unfolding beginCycle_def tally_enter by (simp add: tally_of_def tally_begin_def)

lemma tally_close [simp]: "tally_of (close_record env ph k n dt s) = tally_of s"
  by (simp add: tally_of_def)

lemma tally_finish:
  assumes "failed \<or> pp_cycleAccepted s" "failed \<longrightarrow> \<not> pp_cycleAccepted s" "ph \<le> 5"
  shows "tally_of (finish_phase env ph failed dt k n s) = (let u = tally_of s\<lparr>ta_packets := pp_packetsTotal s + k, ta_bytes := pp_bytesTotal s + n\<rparr>
     in if failed \<or> ph = 5
        then let v = u\<lparr>ta_phase := 0, ta_succeeded := pp_cyclesSucceeded s + (if failed then 0 else 1)\<rparr>
             in if pp_status s = Running then tally_begin v else v
        else u\<lparr>ta_phase := Suc ph\<rparr>)"
  using assms by (auto simp: finish_phase_def Let_def tally_beginCycle tally_enter) (simp_all add: tally_of_def)

lemma phase_work_counts:
  assumes env: "browser_ok env" and w: "phase_work env ph info s = (Some (dt, k, n), t)"
  shows "(k, n) = (if ph = 5 then (1, length (paper_text (pp_cyclesTotal s) (pp_hop s)) + 16 + 12) else (pb_packets info, pb_bytes info))"
proof -
  have tp: "tape_ok (br_random env)" and nb: "noble_ok (br_noble env)" using env by (simp_all add: browser_ok_def)
  have seal: "\<exists>ct. chachaSeal (br_noble env) (br_random env) (deriveHkdfSha3 (br_noble env) [] pqc ''paper-flow'')
      (encodeUtf8 (paper_text (pp_cyclesTotal s) (pp_hop s))) (pp_draws s) = (Some (ct, br_random env (pp_draws s) 12), Suc (pp_draws s))
      \<and> length ct = length (paper_text (pp_cyclesTotal s) (pp_hop s)) + 16" for pqc
    using chachaSeal_32 [OF nb tp length_deriveHkdfSha3 [OF nb], of "[]" pqc "''paper-flow''"
        "encodeUtf8 (paper_text (pp_cyclesTotal s) (pp_hop s))" "pp_draws s"] by simp
  show ?thesis
  proof (cases "ph = 5")
    case True
    show ?thesis
    proof (cases "pp_pqcSecret s")
      case None
      then show ?thesis using True w by (simp add: phase_work_def)
    next
      case (Some pqc)
      from seal [of pqc] True Some w tp show ?thesis by (auto simp: phase_work_def)
    qed
  next
    case False
    then show ?thesis using w by (auto simp: phase_work_def paper_reads Let_def split: if_splits option.splits)
  qed
qed

text \<open>The phase under way is run: what it does to the counters is the tally's phase.\<close>

lemma runPhase_tally:
  assumes env: "browser_ok env" and wf: "paper_wf s" and ok: "accepted_ok s" and ph: "pp_phase s \<noteq> 0"
  shows "tally_of (snd (runPhase env s)) = tally_phase (pp_status s = Running) (pp_failLayer s) (pp_hop s) (tally_of s)"
proof -
  have le: "pp_phase s \<le> 5" and acc: "pp_cycleAccepted s" using wf ok ph by (simp_all add: paper_wf_def paper_book_ok_def accepted_ok_def)
  have nf: "fst (runPhase env s) = False" using runPhase_wf [OF env wf ph] by simp
  have fail: "(case pp_failLayer s of None \<Rightarrow> False | Some l \<Rightarrow> PHASE_OF_LAYER l = pp_phase s) = failed_in (pp_phase s) s"
    by (simp add: failed_in_def)
  show ?thesis
  proof (cases rule: runPhase_cases [where s = s and env = env])
    case (failing info dt)
    then show ?thesis
      using failing(1,3) tally_finish [of True "s\<lparr>pp_cycleAccepted := False\<rparr>" "pp_phase s" env dt "pb_packets info" "pb_bytes info"] le fail failing(2)
      by (simp add: tally_phase_def phase_packets_def phase_bytes_def Let_def)
  next
    case (working info dt k n t dt')
    note keep = phase_work_frame [of env "pp_phase s" info s, unfolded working(3) snd_conv]
    have t: "tally_of t = tally_of s" by (simp add: tally_of_def keep)
    note kn = phase_work_counts [OF env working(3)]
    show ?thesis
      using tally_finish [of False t "pp_phase s" env dt' k n] acc le kn working(1,2) fail
      by (simp add: working(4) keep t tally_phase_def phase_packets_def phase_bytes_def Let_def split: if_splits)
  qed (use nf in simp_all)
qed

text \<open>A manual step of the tally.\<close>

definition tally_step :: "layer option \<Rightarrow> int \<Rightarrow> tally \<Rightarrow> tally" where
  "tally_step fail hops t = (if ta_phase t = 0 then tally_begin t else tally_phase False fail hops t)"

lemma step_tally:
  assumes env: "browser_ok env" and wf: "paper_wf s" and ok: "accepted_ok s" and st: "pp_status s \<noteq> Running"
  shows "tally_of (snd (paper_step env s)) = tally_step (pp_failLayer s) (pp_hop s) (tally_of s)
    \<and> pp_failLayer (snd (paper_step env s)) = pp_failLayer s \<and> pp_hop (snd (paper_step env s)) = pp_hop s
    \<and> pp_status (snd (paper_step env s)) \<noteq> Running"
proof -
  let ?r = "paper_record env ''step'' s"
  let ?u = "?r\<lparr>pp_status := Stepped\<rparr>"
  have t: "\<not> pp_timer s" using wf st by (auto simp: paper_wf_def paper_book_ok_def)
  have u: "paper_wf ?u" by (rule paper_status_wf [OF paper_record_wf [OF wf]]) (simp_all add: t)
  have a: "accepted_ok ?u" using ok by (simp add: accepted_ok_def)
  have tu: "tally_of ?u = tally_of s" by (simp add: tally_of_def)
  show ?thesis
  proof (cases "pp_phase s = 0")
    case True
    then show ?thesis using st by (simp add: paper_step_def Let_def tally_beginCycle tally_step_def)
  next
    case False
    then have nz: "pp_phase ?u \<noteq> 0" by simp
    obtain v where v: "runPhase env ?u = (False, v)" using runPhase_wf [OF env u nz] by (cases "runPhase env ?u") simp
    note keep = runPhase_frame [of env ?u, unfolded v snd_conv]
    have "tally_of v = tally_phase False (pp_failLayer s) (pp_hop s) (tally_of s)"
      using runPhase_tally [OF env u a nz] v tu by simp
    then show ?thesis using v False st keep by (simp add: paper_step_def Let_def tally_step_def)
  qed
qed

lemma steps_tally:
  assumes env: "browser_ok env" and s: "paper_wf s" "accepted_ok s" "pp_status s \<noteq> Running"
  shows "tally_of (((\<lambda>s. snd (paper_step env s)) ^^ n) s) = (tally_step (pp_failLayer s) (pp_hop s) ^^ n) (tally_of s)
    \<and> pp_failLayer (((\<lambda>s. snd (paper_step env s)) ^^ n) s) = pp_failLayer s \<and> pp_hop (((\<lambda>s. snd (paper_step env s)) ^^ n) s) = pp_hop s
    \<and> pp_status (((\<lambda>s. snd (paper_step env s)) ^^ n) s) \<noteq> Running
    \<and> paper_wf (((\<lambda>s. snd (paper_step env s)) ^^ n) s) \<and> accepted_ok (((\<lambda>s. snd (paper_step env s)) ^^ n) s)"
proof (induction n)
  case (Suc n)
  let ?t = "((\<lambda>s. snd (paper_step env s)) ^^ n) s"
  have t: "paper_wf ?t" "accepted_ok ?t" "pp_status ?t \<noteq> Running" using Suc by simp_all
  have "paper_wf (snd (paper_step env ?t))" using paper_step_wf [OF env t(1)] by simp
  moreover have "accepted_ok (snd (paper_step env ?t))" using accepted_do [OF t(1,2), of env P_step] by simp
  ultimately show ?case using step_tally [OF env t] Suc by simp
qed (use s in simp)

text \<open>A cycle of the tally, evaluated on the published budgets.\<close>

definition budget_upto :: "(phase_budget \<Rightarrow> nat) \<Rightarrow> nat \<Rightarrow> nat" where
  "budget_upto f n = sum_list (map (\<lambda>(p, i). f i) (filter (\<lambda>(p, i). p \<le> n) PHASE_BUDGETS))"

lemma tally_cycle:
  assumes "ta_phase t = 0"
  shows "(tally_step None hops ^^ 6) t = t\<lparr>ta_phase := 0, ta_cycles := Suc (ta_cycles t), ta_succeeded := Suc (ta_succeeded t),
      ta_packets := ta_packets t + TOTAL_PACKETS + 1, ta_bytes := ta_bytes t + TOTAL_BYTES + length (paper_text (Suc (ta_cycles t)) hops) + 28\<rparr>"
    and "(tally_step (Some l) hops ^^ Suc (PHASE_OF_LAYER l)) t = t\<lparr>ta_phase := 0, ta_cycles := Suc (ta_cycles t), ta_succeeded := ta_succeeded t,
      ta_packets := ta_packets t + budget_upto pb_packets (PHASE_OF_LAYER l), ta_bytes := ta_bytes t + budget_upto pb_bytes (PHASE_OF_LAYER l)\<rparr>"
proof -
  note tally = tally_step_def tally_begin_def tally_phase_def phase_packets_def phase_bytes_def Let_def PHASE_BUDGETS_def
  have unary: "(6 :: nat) = Suc (Suc (Suc (Suc (Suc (Suc 0)))))" "Suc 1 = Suc (Suc 0)" "Suc 2 = Suc (Suc (Suc 0))"
    "Suc 3 = Suc (Suc (Suc (Suc 0)))" "Suc 4 = Suc (Suc (Suc (Suc (Suc 0))))" "Suc 5 = Suc (Suc (Suc (Suc (Suc (Suc 0)))))"
    by simp_all
  show "(tally_step None hops ^^ 6) t = t\<lparr>ta_phase := 0, ta_cycles := Suc (ta_cycles t), ta_succeeded := Suc (ta_succeeded t),
      ta_packets := ta_packets t + TOTAL_PACKETS + 1, ta_bytes := ta_bytes t + TOTAL_BYTES + length (paper_text (Suc (ta_cycles t)) hops) + 28\<rparr>"
    using assms unfolding unary(1) funpow.simps o_apply id_apply by (simp add: tally TOTAL_PACKETS_def TOTAL_BYTES_def)
  show "(tally_step (Some l) hops ^^ Suc (PHASE_OF_LAYER l)) t = t\<lparr>ta_phase := 0, ta_cycles := Suc (ta_cycles t), ta_succeeded := ta_succeeded t,
      ta_packets := ta_packets t + budget_upto pb_packets (PHASE_OF_LAYER l), ta_bytes := ta_bytes t + budget_upto pb_bytes (PHASE_OF_LAYER l)\<rparr>"
    using assms by (cases l; simp only: PHASE_OF_LAYER.simps unary funpow.simps o_apply id_apply) (simp_all add: tally budget_upto_def)
qed

section \<open>The cascade's clock\<close>

text \<open>With a clock that does not run backwards, a stage is stamped exactly when its time has come.\<close>

definition clock_ok :: "browser \<Rightarrow> paper \<Rightarrow> bool" where
  "clock_ok env s \<longleftrightarrow> 0 \<le> pp_cascadeElapsedS s \<and> (\<forall>t. pp_lastTickAt s = Some t \<longrightarrow> t \<le> br_perf env (pp_perfs s))
     \<and> (\<forall>c \<in> set (pp_cascade s). cs_triggered_at c \<noteq> None \<longrightarrow> of_int (cs_offset c) \<le> pp_cascadeElapsedS s)"

text \<open>An operation that leaves the cascade and its clock alone, and only reads on.\<close>

lemma clock_ok_later:
  assumes m: "mono (br_perf env)" and ok: "clock_ok env s"
    and same: "pp_cascadeElapsedS t = pp_cascadeElapsedS s" "pp_cascade t = pp_cascade s" "pp_perfs s \<le> pp_perfs t"
    and last: "pp_lastTickAt t = pp_lastTickAt s \<or> (\<exists>i. pp_lastTickAt t = Some (br_perf env i) \<and> i \<le> pp_perfs t)"
  shows "clock_ok env t"
proof -
  have "u \<le> br_perf env (pp_perfs t)" if "pp_lastTickAt t = Some u" for u
    using last
  proof
    assume "pp_lastTickAt t = pp_lastTickAt s"
    then have "u \<le> br_perf env (pp_perfs s)" using ok that by (simp add: clock_ok_def)
    also have "\<dots> \<le> br_perf env (pp_perfs t)" using m same(3) by (rule monoD)
    finally show ?thesis .
  qed (use m that in \<open>auto dest: monoD\<close>)
  then show ?thesis using ok same by (simp add: clock_ok_def)
qed

lemma enterPhase_perfs [simp]: "pp_perfs (enterPhase env n s) = Suc (pp_perfs s)" "pp_perfs (beginCycle env s) = Suc (pp_perfs s)"
  by (simp_all add: enterPhase_def paper_reads Let_def beginCycle_def)

lemma finish_perfs: "pp_perfs s \<le> pp_perfs (finish_phase env ph f dt k n s)"
  by (simp add: finish_phase_def Let_def)

lemma runPhase_perfs: "pp_perfs s \<le> pp_perfs (snd (runPhase env s))"
proof (cases rule: runPhase_cases [where s = s and env = env])
  case (failing info dt)
  then show ?thesis using finish_perfs [of "s\<lparr>pp_cycleAccepted := False\<rparr>"] by simp
next
  case (throwing info t)
  then show ?thesis using phase_work_frame [of env "pp_phase s" info s] by simp
next
  case (working info dt k n t dt')
  then show ?thesis using phase_work_frame [of env "pp_phase s" info s] finish_perfs [of t] by simp
qed simp

lemma runPhase_clock: "mono (br_perf env) \<Longrightarrow> clock_ok env s \<Longrightarrow> clock_ok env (snd (runPhase env s))"
  by (rule clock_ok_later [where s = s]) (simp_all add: runPhase_perfs)

lemma ensureLoop_clock: "mono (br_perf env) \<Longrightarrow> clock_ok env s \<Longrightarrow> clock_ok env (paper_ensureLoop env s)"
  by (rule clock_ok_later [where s = s]) (auto simp: paper_ensureLoop_def paper_reads)

lemma tick_clock_clock:
  assumes m: "mono (br_perf env)" and ok: "clock_ok env s"
  shows "clock_ok env (tick_clock env s)"
proof (cases "pp_failLayer s = None \<or> pp_lastTickAt s = None")
  case True
  then show ?thesis
    by (intro clock_ok_later [OF m ok]) (auto simp: tick_clock_def pperf_def Let_def split: option.splits)
next
  case False
  then obtain l t where lt: "pp_failLayer s = Some l" "pp_lastTickAt s = Some t" by auto
  let ?now = "br_perf env (pp_perfs s)"
  have "t \<le> ?now" using ok lt by (simp add: clock_ok_def)
  then have dt: "0 \<le> (?now - t) / 1000" by simp
  have le: "?now \<le> br_perf env (Suc (pp_perfs s))" using m by (simp add: monoD)
  have el: "pp_cascadeElapsedS (tick_clock env s) = pp_cascadeElapsedS s + (?now - t) / 1000"
    by (simp add: tick_clock_def pperf_def Let_def lt advanceCascade_def pdate_s_def)
  have "of_int (cs_offset c) \<le> pp_cascadeElapsedS (tick_clock env s)"
    if "c \<in> set (pp_cascade (tick_clock env s))" "cs_triggered_at c \<noteq> None" for c
  proof -
    have "of_int (cs_offset c) \<le> pp_cascadeElapsedS s + (?now - t) / 1000"
      using that(1) ok dt that(2) unfolding clock_ok_def
      by (auto simp: tick_clock_def pperf_def Let_def lt advanceCascade_def pdate_s_def split: if_splits intro: add_increasing2)
    then show ?thesis by (simp only: el)
  qed
  then show ?thesis using ok dt le el by (simp add: clock_ok_def)
qed

lemma paper_do_clock:
  assumes m: "mono (br_perf env)" and wf: "paper_wf s" and ok: "clock_ok env s"
  shows "clock_ok env (snd (paper_do env i s))"
proof -
  have start: "clock_ok env (paper_start env s)" "clock_ok env (paper_resume env s)"
    unfolding paper_start_def paper_resume_def Let_def
    by (intro ensureLoop_clock m; rule clock_ok_later [OF m ok]; simp)+
  have step: "clock_ok env (snd (paper_step env s))"
  proof (cases "pp_status s = Running")
    case False
    let ?u = "(paper_record env ''step'' s)\<lparr>pp_status := Stepped\<rparr>"
    have u: "clock_ok env ?u" by (rule clock_ok_later [OF m ok]) simp_all
    obtain threw v where r: "runPhase env ?u = (threw, v)" by fastforce
    have v: "clock_ok env v" using runPhase_clock [OF m u] r by simp
    have "clock_ok env (v\<lparr>pp_status := Paused\<rparr>)" by (rule clock_ok_later [OF m v]) simp_all
    moreover have "clock_ok env (beginCycle env ?u)" by (rule clock_ok_later [OF m u]) simp_all
    ultimately show ?thesis using False v r by (simp add: paper_step_def Let_def)
  qed (simp add: paper_step_def ok)
  have tick: "clock_ok env (snd (paper_tick env s))"
  proof (cases "pp_status s = Running")
    case True
    note c = tick_clock_clock [OF m ok]
    have "clock_ok env (tick_clock env s\<lparr>pp_lastCascadeEmit := e\<rparr>)" for e by (rule clock_ok_later [OF m c]) simp_all
    then show ?thesis using runPhase_clock [OF m c] c by (simp add: paper_tick_clock [OF True] Let_def)
  qed (simp add: paper_tick_def ok)
  have rest: "clock_ok env (paper_pause env s)" "clock_ok env (setHopCount env n s)" "clock_ok env (paper_dispose s)" for n
    by (rule clock_ok_later [OF m ok]; simp add: paper_pause_def setHopCount_def Let_def paper_dispose_def)+
  have zero: "clock_ok env (paper_reset env s)" "clock_ok env (paper_clearFailure env s)" "clock_ok env (paper_injectFailure env l s)" for l
    using ok by (auto simp: clock_ok_def paper_reset_def paper_clearFailure_def paper_injectFailure_def Let_def pdate_s_def split: if_splits)
  show ?thesis using start step tick rest zero ok by (cases i) simp_all
qed

lemma paper_run_clock: "browser_ok env \<Longrightarrow> mono (br_perf env) \<Longrightarrow> clock_ok env (paper_run env is)"
proof (induction "is" rule: rev_induct)
  case Nil
  then show ?case by (simp add: paper_run_def paper_new_def clock_ok_def)
next
  case (snoc i "is")
  then show ?case by (simp add: paper_run_snoc paper_do_clock [OF _ paper_run_wf])
qed

end
