(* ===== verification/Paper_Claims.thy ===== *)
theory Paper_Claims
  imports Paper_Laws
begin

text \<open>
  The properties of the paper's simulator: it never throws, its counters and records agree and count cycles
  by the published budgets, its cascade follows the running time, and the data tunnel does not depend on
  the QKD keys.
\<close>

section \<open>The QKD keys stay on the hops\<close>

text \<open>A state without its QKD key and without the details of the hop handshakes, which print a prefix of it.\<close>

definition hide_rec :: "phase_rec \<Rightarrow> phase_rec" where
  "hide_rec h = (if pr_phase h = 3 then h\<lparr>pr_detail := []\<rparr> else h)"

definition without_qkd :: "paper \<Rightarrow> paper" where
  "without_qkd s = s\<lparr>pp_qkdKey := None, pp_history := map hide_rec (pp_history s)\<rparr>"

lemma hide_rec_sel [simp]: "pr_phase (hide_rec h) = pr_phase h" "pr_completed_at (hide_rec h) = pr_completed_at h"
  "hide_rec (hide_rec h) = hide_rec h"
  by (simp_all add: hide_rec_def)

lemma without_qkd_sel [simp]:
  "pp_status (without_qkd s) = pp_status s" "pp_phase (without_qkd s) = pp_phase s" "pp_failLayer (without_qkd s) = pp_failLayer s"
  "pp_pqcSecret (without_qkd s) = pp_pqcSecret s" "pp_timer (without_qkd s) = pp_timer s" "pp_lastTickAt (without_qkd s) = pp_lastTickAt s"
  "pp_perfs (without_qkd s) = pp_perfs s" "pp_phaseStart (without_qkd s) = pp_phaseStart s" "pp_dates (without_qkd s) = pp_dates s"
  "pp_lastCascadeEmit (without_qkd s) = pp_lastCascadeEmit s" "pp_cycleAccepted (without_qkd s) = pp_cycleAccepted s"
  "pp_cyclesTotal (without_qkd s) = pp_cyclesTotal s" "pp_hop (without_qkd s) = pp_hop s" "pp_draws (without_qkd s) = pp_draws s"
  "pp_history (without_qkd s) = map hide_rec (pp_history s)" "without_qkd (without_qkd s) = without_qkd s"
  by (simp_all add: without_qkd_def o_def)

lemma without_parts:
  "without_qkd (paper_record env a s) = paper_record env a (without_qkd s)"
  "without_qkd (paper_stopLoop s) = paper_stopLoop (without_qkd s)"
  "without_qkd (paper_ensureLoop env s) = paper_ensureLoop env (without_qkd s)"
  "without_qkd (enterPhase env n s) = enterPhase env n (without_qkd s)"
  "without_qkd (advanceCascade env dt s) = advanceCascade env dt (without_qkd s)"
  by (cases s; simp add: without_qkd_def paper_record_def paper_stopLoop_def paper_ensureLoop_def enterPhase_def advanceCascade_def
      paper_reads Let_def slice_last_def drop_map PHASE_HISTORY_LIMIT_def hide_rec_def)+

lemma without_begin: "without_qkd (beginCycle env s) = beginCycle env (without_qkd s)"
  unfolding beginCycle_def without_parts by (rule arg_cong [where f = "enterPhase env 1"], cases s) (simp add: without_qkd_def)

lemma hide_close_first:
  "ph = 3 \<or> dt = dt' \<Longrightarrow> map hide_rec (close_first ph d k n dt (map hide_rec hs)) = map hide_rec (close_first ph d k n dt' hs)"
  by (induction hs) (auto simp: hide_rec_def)

lemma without_close:
  assumes "ph = 3 \<or> dt = dt'"
  shows "without_qkd (close_record env ph k n dt (without_qkd s)) = without_qkd (close_record env ph k n dt' s)"
proof (cases "list_ex (\<lambda>h. pr_phase h = ph \<and> pr_completed_at h = None) (pp_history s)")
  case True
  then have "list_ex (\<lambda>h. pr_phase h = ph \<and> pr_completed_at h = None) (map hide_rec (pp_history s))" by (simp add: list_ex_iff)
  with True hide_close_first [OF assms, of _ k n "rev (pp_history s)"] show ?thesis
    by (cases s) (simp add: close_record_def pdate_s_def without_qkd_def rev_map [symmetric])
next
  case False
  then have "\<not> list_ex (\<lambda>h. pr_phase h = ph \<and> pr_completed_at h = None) (map hide_rec (pp_history s))" by (simp add: list_ex_iff)
  with False show ?thesis by (simp add: close_record_def)
qed

text \<open>Two states that agree but for the QKD keys.\<close>

lemma without_qkd_eqE:
  assumes "without_qkd s = without_qkd t"
  obtains q h where "t = s\<lparr>pp_qkdKey := q, pp_history := h\<rparr>" "map hide_rec h = map hide_rec (pp_history s)"
proof
  show "t = s\<lparr>pp_qkdKey := pp_qkdKey t, pp_history := pp_history t\<rparr>" "map hide_rec (pp_history t) = map hide_rec (pp_history s)"
    using assms by (cases s; cases t; simp add: without_qkd_def)+
qed

lemma without_finish:
  assumes st: "without_qkd s = without_qkd t" and dt: "ph = 3 \<or> dt = dt'"
  shows "without_qkd (finish_phase env ph failed dt k n s) = without_qkd (finish_phase env ph failed dt' k n t)"
proof -
  define u where "u = close_record env ph k n dt (s\<lparr>pp_packetsTotal := pp_packetsTotal s + k, pp_bytesTotal := pp_bytesTotal s + n\<rparr>)"
  define v where "v = close_record env ph k n dt' (t\<lparr>pp_packetsTotal := pp_packetsTotal t + k, pp_bytesTotal := pp_bytesTotal t + n\<rparr>)"
  have "without_qkd (s\<lparr>pp_packetsTotal := pp_packetsTotal s + k, pp_bytesTotal := pp_bytesTotal s + n\<rparr>)
      = without_qkd (t\<lparr>pp_packetsTotal := pp_packetsTotal t + k, pp_bytesTotal := pp_bytesTotal t + n\<rparr>)"
    using st by (elim without_qkd_eqE) (simp add: without_qkd_def)
  then have uv: "without_qkd u = without_qkd v"
    unfolding u_def v_def using without_close [where ph = ph and dt = dt and dt' = dt] without_close [OF dt] by metis
  from uv have sel: "pp_cycleAccepted u = pp_cycleAccepted v" "pp_status u = pp_status v" "pp_cyclesSucceeded u = pp_cyclesSucceeded v"
    by (elim without_qkd_eqE; simp)+
  have zero: "without_qkd (u\<lparr>pp_phase := 0\<rparr>) = without_qkd (v\<lparr>pp_phase := 0\<rparr>)"
    "without_qkd (u\<lparr>pp_cyclesSucceeded := c, pp_phase := 0\<rparr>) = without_qkd (v\<lparr>pp_cyclesSucceeded := c, pp_phase := 0\<rparr>)" for c
    using uv by (elim without_qkd_eqE; simp add: without_qkd_def)+
  show ?thesis
    unfolding finish_phase_def Let_def u_def [symmetric] v_def [symmetric] using sel zero uv
    by (simp add: without_begin without_parts)
qed

lemma without_work:
  assumes "without_qkd s = without_qkd t"
  shows "without_qkd (snd (phase_work env ph info s)) = without_qkd (snd (phase_work env ph info t))
    \<and> map_option snd (fst (phase_work env ph info s)) = map_option snd (fst (phase_work env ph info t))
    \<and> (ph \<noteq> 3 \<longrightarrow> fst (phase_work env ph info s) = fst (phase_work env ph info t))"
proof (rule without_qkd_eqE [OF assms])
  fix q h
  assume t: "t = s\<lparr>pp_qkdKey := q, pp_history := h\<rparr>" and h: "map hide_rec h = map hide_rec (pp_history s)"
  have upd: "without_qkd (s\<lparr>pp_history := h, pp_draws := a, pp_qkdKey := k'\<rparr>) = without_qkd (s\<lparr>pp_draws := a, pp_qkdKey := k'\<rparr>)"
    "without_qkd (s\<lparr>pp_qkdKey := q, pp_history := h, pp_draws := a, pp_pqcSecret := k\<rparr>) = without_qkd (s\<lparr>pp_draws := a, pp_pqcSecret := k\<rparr>)"
    "without_qkd (s\<lparr>pp_qkdKey := q, pp_history := h, pp_draws := a, pp_lastPayload := p\<rparr>) = without_qkd (s\<lparr>pp_draws := a, pp_lastPayload := p\<rparr>)"
    "without_qkd (s\<lparr>pp_qkdKey := q, pp_history := h, pp_draws := a\<rparr>) = without_qkd (s\<lparr>pp_draws := a\<rparr>)"
    "without_qkd (s\<lparr>pp_qkdKey := q, pp_history := h\<rparr>) = without_qkd s" for a k k' p q
    using h by (cases s; simp add: without_qkd_def)+
  consider "ph = 2" | "ph = 3" | "ph = 4" | "ph = 5" | "ph \<notin> {2, 3, 4, 5}" by blast
  then show ?thesis
  proof cases
    case 2
    then show ?thesis by (cases "pp_qkdKey s"; cases q) (simp_all add: t phase_work_def upd(5))
  next
    case 4
    show ?thesis
    proof (cases "pp_pqcSecret s")
      case None
      then show ?thesis using 4 by (simp add: t phase_work_def upd(5))
    next
      case (Some pqc)
      obtain r i where seal: "chachaSeal (br_noble env) (br_random env) (deriveHkdfSha3 (br_noble env) [] pqc ''paper-flow'')
          (encodeUtf8 (paper_text (pp_cyclesTotal s) (pp_hop s))) (pp_draws s) = (r, i)" by fastforce
      show ?thesis using 4 Some by (cases r) (auto simp: t phase_work_def seal upd(3,4) Let_def)
    qed
  qed (simp_all add: t phase_work_def paper_reads upd)
qed

lemma failed_in_without: "without_qkd s = without_qkd t \<Longrightarrow> failed_in ph s = failed_in ph t"
  by (elim without_qkd_eqE) (simp add: failed_in_def)

lemma without_runPhase:
  assumes st: "without_qkd s = without_qkd t"
  shows "fst (runPhase env s) = fst (runPhase env t) \<and> without_qkd (snd (runPhase env s)) = without_qkd (snd (runPhase env t))"
proof -
  have ph: "pp_phase t = pp_phase s" using st by (elim without_qkd_eqE) simp
  show ?thesis
  proof (cases "map_of PHASE_BUDGETS (pp_phase s)")
    case None
    then show ?thesis using st ph by (simp add: runPhase_def)
  next
    case (Some info)
    show ?thesis
    proof (cases "failed_in (pp_phase s) s")
      case True
      then have "failed_in (pp_phase s) t" using failed_in_without [OF st] by simp
      moreover have "without_qkd (s\<lparr>pp_cycleAccepted := False\<rparr>) = without_qkd (t\<lparr>pp_cycleAccepted := False\<rparr>)"
        using st by (elim without_qkd_eqE; cases s) (simp add: without_qkd_def)
      note without_finish [OF this disjI2 [OF refl], of env "pp_phase s" True _ "pb_packets info" "pb_bytes info"]
      ultimately show ?thesis using Some True ph by (simp add: runPhase_def Let_def)
    next
      case False
      then have f: "\<not> failed_in (pp_phase s) t" using failed_in_without [OF st] by simp
      note w = without_work [OF st, of env "pp_phase s" info]
      obtain r u where u: "phase_work env (pp_phase s) info s = (r, u)" by fastforce
      obtain r' v where v: "phase_work env (pp_phase s) info t = (r', v)" by fastforce
      have uv: "without_qkd u = without_qkd v" "map_option snd r = map_option snd r'" "pp_phase s \<noteq> 3 \<longrightarrow> r = r'" using w u v by simp_all
      show ?thesis
      proof (cases r)
        case None
        then show ?thesis using uv u v Some False f ph by (simp add: runPhase_def Let_def)
      next
        case r: (Some x)
        obtain dt k n where x: "x = (dt, k, n)" by (cases x)
        then obtain dt' where "r' = Some (dt', k, n)" using r uv(2) by (cases r') auto
        moreover from this have "pp_phase s = 3 \<or> dt = dt'" using uv(3) r x by auto
        ultimately show ?thesis using r x uv(1) u v Some False f ph without_finish [OF uv(1), of "pp_phase s"]
          by (auto simp: runPhase_def Let_def)
      qed
    qed
  qed
qed

lemma without_controls:
  "without_qkd (paper_start env s) = paper_start env (without_qkd s)"
  "without_qkd (paper_resume env s) = paper_resume env (without_qkd s)"
  "without_qkd (paper_pause env s) = paper_pause env (without_qkd s)"
  "without_qkd (setHopCount env n s) = setHopCount env n (without_qkd s)"
  "without_qkd (paper_dispose s) = paper_dispose (without_qkd s)"
proof -
  have upd: "(without_qkd u)\<lparr>pp_status := st\<rparr> = without_qkd (u\<lparr>pp_status := st\<rparr>)" "(without_qkd u)\<lparr>pp_hop := n\<rparr> = without_qkd (u\<lparr>pp_hop := n\<rparr>)"
    for u :: paper and st n by (cases u; simp add: without_qkd_def)+
  show "without_qkd (paper_start env s) = paper_start env (without_qkd s)" "without_qkd (paper_resume env s) = paper_resume env (without_qkd s)"
    "without_qkd (paper_pause env s) = paper_pause env (without_qkd s)" "without_qkd (setHopCount env n s) = setHopCount env n (without_qkd s)"
    "without_qkd (paper_dispose s) = paper_dispose (without_qkd s)"
    by (simp_all add: paper_start_def paper_resume_def paper_pause_def setHopCount_def paper_dispose_def Let_def
        without_parts [symmetric] without_begin [symmetric] upd)
qed

lemma without_resets:
  "without_qkd (paper_reset env s) = without_qkd (paper_reset env (without_qkd s))"
  "without_qkd (paper_injectFailure env l s) = without_qkd (paper_injectFailure env l (without_qkd s))"
  "without_qkd (paper_clearFailure env s) = without_qkd (paper_clearFailure env (without_qkd s))"
  by (cases s; simp add: paper_reset_def paper_injectFailure_def paper_clearFailure_def paper_stopLoop_def paper_record_def pdate_s_def
      without_qkd_def Let_def o_def)+

lemma without_tick_clock: "without_qkd s = without_qkd t \<Longrightarrow> without_qkd (tick_clock env s) = without_qkd (tick_clock env t)"
proof -
  have "without_qkd (tick_clock env s) = tick_clock env (without_qkd s)" for s
  proof -
    have upd: "(without_qkd u)\<lparr>pp_perfs := n\<rparr> = without_qkd (u\<lparr>pp_perfs := n\<rparr>)" "(without_qkd u)\<lparr>pp_lastTickAt := a\<rparr> = without_qkd (u\<lparr>pp_lastTickAt := a\<rparr>)"
      for u :: paper and n a by (cases u; simp add: without_qkd_def)+
    show ?thesis
      by (cases "pp_failLayer s"; cases "pp_lastTickAt s")
        (simp_all add: tick_clock_def pperf_def Let_def upd without_parts(5) [symmetric])
  qed
  then show "without_qkd s = without_qkd t \<Longrightarrow> without_qkd (tick_clock env s) = without_qkd (tick_clock env t)" by metis
qed

lemma without_step:
  assumes st: "without_qkd s = without_qkd t"
  shows "fst (paper_step env s) = fst (paper_step env t) \<and> without_qkd (snd (paper_step env s)) = without_qkd (snd (paper_step env t))"
proof -
  have sel: "pp_status t = pp_status s" "pp_phase t = pp_phase s" using st by (elim without_qkd_eqE; simp)+
  have upd: "without_qkd u = without_qkd v \<Longrightarrow> without_qkd (u\<lparr>pp_status := a\<rparr>) = without_qkd (v\<lparr>pp_status := a\<rparr>)" for u v a
    by (elim without_qkd_eqE; cases u) (simp add: without_qkd_def)
  have r: "without_qkd (paper_record env ''step'' s) = without_qkd (paper_record env ''step'' t)" using st by (simp add: without_parts)
  note u = upd [OF r, of Stepped]
  note w = without_runPhase [OF u, of env]
  have b: "without_qkd (beginCycle env (paper_record env ''step'' s\<lparr>pp_status := Stepped\<rparr>))
      = without_qkd (beginCycle env (paper_record env ''step'' t\<lparr>pp_status := Stepped\<rparr>))" using u by (simp add: without_begin)
  obtain a x where x: "runPhase env (paper_record env ''step'' s\<lparr>pp_status := Stepped\<rparr>) = (a, x)" by fastforce
  obtain c y where y: "runPhase env (paper_record env ''step'' t\<lparr>pp_status := Stepped\<rparr>) = (c, y)" by fastforce
  have xy: "a = c" "without_qkd x = without_qkd y" using w x y by simp_all
  show ?thesis
    using b st sel xy upd [OF xy(2), of Paused] x y by (simp add: paper_step_def Let_def)
qed

lemma without_tick:
  assumes st: "without_qkd s = without_qkd t"
  shows "fst (paper_tick env s) = fst (paper_tick env t) \<and> without_qkd (snd (paper_tick env s)) = without_qkd (snd (paper_tick env t))"
proof (cases "pp_status s = Running")
  case True
  have sel: "pp_status t = pp_status s" "pp_perfs t = pp_perfs s" "pp_phaseStart t = pp_phaseStart s" "pp_failLayer t = pp_failLayer s"
    "pp_lastCascadeEmit t = pp_lastCascadeEmit s" using st by (elim without_qkd_eqE; simp)+
  note u = without_tick_clock [OF st, of env]
  have e: "without_qkd (tick_clock env s\<lparr>pp_lastCascadeEmit := a\<rparr>) = without_qkd (tick_clock env t\<lparr>pp_lastCascadeEmit := a\<rparr>)" for a
    using u by (elim without_qkd_eqE; cases "tick_clock env s") (simp add: without_qkd_def)
  have t: "pp_status t = Running" using True sel by simp
  show ?thesis using without_runPhase [OF u, of env] u e sel by (simp add: paper_tick_clock [OF True] paper_tick_clock [OF t] Let_def)
next
  case False
  moreover have "pp_status t = pp_status s" using st by (elim without_qkd_eqE) simp
  ultimately show ?thesis using st by (simp add: paper_tick_def)
qed

lemma without_do:
  assumes st: "without_qkd s = without_qkd t"
  shows "fst (paper_do env i s) = fst (paper_do env i t) \<and> without_qkd (snd (paper_do env i s)) = without_qkd (snd (paper_do env i t))"
proof -
  have "pp_timer t = pp_timer s" using st by (elim without_qkd_eqE) simp
  then show ?thesis
    using without_step [OF st, of env] without_tick [OF st, of env] st without_resets [where env = env and s = s] without_resets [where env = env and s = t]
    by (cases i) (simp_all add: without_controls)
qed

section \<open>The buttons\<close>

lemma paper_step_manual:
  assumes "\<not> pp_timer s" "pp_status s \<noteq> Running"
  shows "pp_status (snd (paper_step env s)) \<in> {Paused, Stepped} \<and> \<not> pp_timer (snd (paper_step env s))"
proof -
  let ?u = "paper_record env ''step'' s\<lparr>pp_status := Stepped\<rparr>"
  obtain threw v where r: "runPhase env ?u = (threw, v)" by fastforce
  note keep = runPhase_frame [of env ?u, unfolded r snd_conv]
  show ?thesis using assms keep by (auto simp: paper_step_def Let_def r)
qed

interpretation paper_ui: sim_controls "\<lambda>s. browser_ok env \<and> paper_wf s" pp_status pp_timer
    "paper_start env" "paper_pause env" "paper_resume env" "\<lambda>s. snd (paper_step env s)" for env
proof unfold_locales
  fix s
  have t: "paper_wf s \<Longrightarrow> pp_timer s \<Longrightarrow> pp_status s = Running" by (simp add: paper_wf_def paper_book_ok_def)
  then show "browser_ok env \<and> paper_wf s \<Longrightarrow> pp_timer s \<Longrightarrow> pp_status s = Running" by blast
  show "browser_ok env \<and> paper_wf s \<Longrightarrow> (browser_ok env \<and> paper_wf (paper_start env s)) \<and> (browser_ok env \<and> paper_wf (paper_pause env s))
     \<and> (browser_ok env \<and> paper_wf (paper_resume env s)) \<and> browser_ok env \<and> paper_wf (snd (paper_step env s))"
    by (simp add: paper_start_wf paper_pause_wf paper_step_wf)
  show "pp_status (paper_start env s) = Running \<and> pp_timer (paper_start env s)" by (simp add: paper_start_def Let_def)
  show "pp_status (paper_resume env s) = Running \<and> pp_timer (paper_resume env s)" by (simp add: paper_resume_def Let_def)
  show "pp_status (paper_pause env s) = Paused \<and> \<not> pp_timer (paper_pause env s)" by (simp add: paper_pause_def)
  show "pp_status s = Running \<Longrightarrow> snd (paper_step env s) = s" by (simp add: paper_step_def)
  show "browser_ok env \<and> paper_wf s \<Longrightarrow> pp_status s \<noteq> Running \<Longrightarrow>
      pp_status (snd (paper_step env s)) \<in> {Paused, Stepped} \<and> \<not> pp_timer (snd (paper_step env s))"
    using t by (intro paper_step_manual) auto
qed

fun paper_button :: "button \<Rightarrow> paper_input" where
  "paper_button B_start = P_start" | "paper_button B_pause = P_pause" | "paper_button B_resume = P_resume" | "paper_button B_step = P_step"

lemma paper_presses: "paper_ui.presses env bs paper_new = paper_run env (map paper_button bs)"
proof -
  have "paper_ui.press env b s = snd (paper_do env (paper_button b) s)" for b s by (cases b) simp_all
  then show ?thesis by (simp add: paper_ui.presses_def paper_run_def foldl_map)
qed

lemma paper_buttons_agree:
  assumes "browser_ok env"
  shows "(pp_status (paper_run env (map paper_button bs)) = Running \<longleftrightarrow> shown bs False)
    \<and> (pp_timer (paper_run env (map paper_button bs)) \<longleftrightarrow> shown bs False)"
proof -
  have new: "browser_ok env \<and> paper_wf paper_new" "pp_status paper_new \<noteq> Running" "paper_ui.agrees paper_new"
    using assms by (simp_all add: paper_new_wf paper_ui.agrees_def) (simp_all add: paper_new_def)
  show ?thesis
    using paper_ui.presses_running [OF new(1), of bs] paper_ui.presses_agree [OF new(1,3), of bs] new(2)
    by (simp add: paper_presses paper_ui.agrees_def)
qed

section \<open>Properties\<close>

text \<open>
  C18. The simulator never throws: in every run, no control and no timer callback reaches a phase without a
  budget or the last phase without the cycle's own PQC secret, and a run that reads running is in one of the
  five phases.
\<close>

theorem paper_never_throws:
  assumes "browser_ok env"
  shows "fst (paper_do env i (paper_run env is)) = False
    \<and> (pp_status (paper_run env is) = Running \<longrightarrow> pp_phase (paper_run env is) \<in> {1..5})"
  using paper_do_wf [OF assms paper_run_wf [OF assms]] paper_run_wf [OF assms, of "is"]
  by (auto simp: paper_wf_def paper_book_ok_def)

theorem paper_never_throws_witness:
  "fst (paper_do demo_browser P_tick (paper_run demo_browser [P_start, P_inject P_arnika, P_tick, P_pause, P_step, P_step, P_resume])) = False"
  using paper_never_throws [OF demo_browser_ok] by blast

text \<open>
  C19. What a cycle counts. From between two cycles, manual steps run exactly one: without a failure, six of
  them complete and accept it, with the packets and bytes of the published budgets and one sealed packet of
  the cycle's text plus 28 bytes; with a failed layer the cycle ends in that layer's phase, after one step
  more than its number, with the budgets up to and including that phase, and is not accepted.
\<close>

theorem paper_cycle_outcome:
  assumes "browser_ok env" "s = paper_run env is" "pp_status s \<noteq> Running" "pp_phase s = 0"
    and "t = ((\<lambda>s. snd (paper_step env s)) ^^ (case pp_failLayer s of None \<Rightarrow> 6 | Some l \<Rightarrow> Suc (PHASE_OF_LAYER l))) s"
  shows "pp_phase t = 0 \<and> pp_cyclesTotal t = Suc (pp_cyclesTotal s)
    \<and> pp_cyclesSucceeded t = pp_cyclesSucceeded s + (if pp_failLayer s = None then 1 else 0)
    \<and> pp_packetsTotal t = pp_packetsTotal s
        + (case pp_failLayer s of None \<Rightarrow> TOTAL_PACKETS + 1 | Some l \<Rightarrow> budget_upto pb_packets (PHASE_OF_LAYER l))
    \<and> pp_bytesTotal t = pp_bytesTotal s
        + (case pp_failLayer s of None \<Rightarrow> TOTAL_BYTES + length (paper_text (pp_cyclesTotal t) (pp_hop s)) + 28
           | Some l \<Rightarrow> budget_upto pb_bytes (PHASE_OF_LAYER l))"
proof -
  have s: "paper_wf s" "accepted_ok s" using paper_run_wf paper_run_accepted assms(1,2) by simp_all
  have z: "ta_phase (tally_of s) = 0" using assms(4) by simp
  have "tally_of t = (tally_step (pp_failLayer s) (pp_hop s) ^^ (case pp_failLayer s of None \<Rightarrow> 6 | Some l \<Rightarrow> Suc (PHASE_OF_LAYER l))) (tally_of s)"
    unfolding assms(5) using steps_tally [OF assms(1) s assms(3)] by blast
  then have t: "tally_of t = (case pp_failLayer s of None \<Rightarrow> (tally_step None (pp_hop s) ^^ 6) (tally_of s)
      | Some l \<Rightarrow> (tally_step (Some l) (pp_hop s) ^^ Suc (PHASE_OF_LAYER l)) (tally_of s))"
    by (cases "pp_failLayer s") (simp_all only: option.case)
  have sel: "pp_phase t = ta_phase (tally_of t)" "pp_cyclesTotal t = ta_cycles (tally_of t)" "pp_cyclesSucceeded t = ta_succeeded (tally_of t)"
    "pp_packetsTotal t = ta_packets (tally_of t)" "pp_bytesTotal t = ta_bytes (tally_of t)" by simp_all
  show ?thesis
    unfolding sel t by (cases "pp_failLayer s") (simp_all only: option.case tally_cycle [OF z], simp_all)
qed

theorem paper_cycle_outcome_witness:
  "pp_packetsTotal (((\<lambda>s. snd (paper_step demo_browser s)) ^^ 5) (paper_run demo_browser [P_inject P_rosenpass])) = 9
   \<and> pp_cyclesSucceeded (((\<lambda>s. snd (paper_step demo_browser s)) ^^ 5) (paper_run demo_browser [P_inject P_rosenpass])) = 0"
proof -
  let ?s = "paper_run demo_browser [P_inject P_rosenpass]"
  have s: "pp_status ?s \<noteq> Running" "pp_phase ?s = 0" "pp_failLayer ?s = Some P_rosenpass" "pp_packetsTotal ?s = 0" "pp_cyclesSucceeded ?s = 0"
    by (simp_all add: paper_run_def paper_injectFailure_def Let_def pdate_s_def) (simp_all add: paper_new_def)
  have "budget_upto pb_packets 4 = 9" by (simp add: budget_upto_def PHASE_BUDGETS_def)
  with paper_cycle_outcome [OF demo_browser_ok refl s(1,2) refl] s(3-5) show ?thesis by simp
qed



text \<open>
  The cascade is the running time's. With a clock that does not run backwards, in every run the stages
  shown are those of the failed layer with offsets counted from its first, the cascade's clock is not
  negative, and a stage is shown as fired exactly when it has been stamped with a time.
\<close>

theorem paper_cascade_follows_clock:
  assumes "browser_ok env" "mono (br_perf env)" "v = paper_snapshot (paper_run env is)"
  shows "0 \<le> pv_elapsed_s v \<and> list_all (\<lambda>c. ce_fired c = (ce_triggered_at c \<noteq> None)) (pv_cascade v)
    \<and> map (\<lambda>c. (ce_offset c, ce_layer c, ce_description c)) (pv_cascade v) = (case pv_active_layer v of None \<Rightarrow> []
         | Some l \<Rightarrow> map (\<lambda>(t, k, d). (t - fst (hd (stages_from l)), player_text k, d)) (stages_from l))"
proof -
  let ?s = "paper_run env is"
  have c: "paper_cascade_ok ?s" using paper_run_wf [OF assms(1), of "is"] by (simp add: paper_wf_def)
  have k: "clock_ok env ?s" by (rule paper_run_clock [OF assms(1,2)])
  have m: "map (\<lambda>c. (cs_offset c, cs_layer c, cs_description c)) (pp_cascade ?s) = (case pp_failLayer ?s of None \<Rightarrow> []
         | Some l \<Rightarrow> map (\<lambda>(t, k, d). (t - fst (hd (stages_from l)), k, d)) (stages_from l))"
    using c by (simp only: paper_cascade_ok_def)
  have "map (\<lambda>c. (ce_offset c, ce_layer c, ce_description c)) (pv_cascade v)
      = map (\<lambda>(t, k, d). (t, player_text k, d)) (map (\<lambda>c. (cs_offset c, cs_layer c, cs_description c)) (pp_cascade ?s))"
    by (simp add: assms(3) paper_snapshot_def)
  also have "\<dots> = (case pv_active_layer v of None \<Rightarrow> []
         | Some l \<Rightarrow> map (\<lambda>(t, k, d). (t - fst (hd (stages_from l)), player_text k, d)) (stages_from l))"
    unfolding m by (cases "pp_failLayer ?s") (simp_all add: assms(3) paper_snapshot_def case_prod_unfold)
  finally show ?thesis
    using c k by (auto simp: assms(3) paper_snapshot_def list_all_iff paper_cascade_ok_def clock_ok_def)
qed

theorem paper_cascade_follows_clock_witness:
  "0 \<le> pv_elapsed_s (paper_snapshot (paper_run demo_browser [P_start, P_inject P_wireguard, P_tick, P_tick]))"
proof -
  have "mono (br_perf demo_browser)" by (simp add: demo_browser_def mono_def)
  from paper_cascade_follows_clock [OF demo_browser_ok this refl] show ?thesis by blast
qed

text \<open>
  C20. The QKD keys stay on the hops. Two runs that continue from states differing only in the QKD key held
  and in the printed prefixes of hop keys stay so for any further inputs: they throw alike, and they show the
  same counters, the same PQC secret and the same sealed payload, so the data tunnel depends on the Rosenpass
  output alone.
\<close>

theorem paper_qkd_keys_stay_on_hops:
  assumes "without_qkd s = without_qkd t"
    and "u = foldl (\<lambda>s i. snd (paper_do env i s)) s is" "v = foldl (\<lambda>s i. snd (paper_do env i s)) t is"
  shows "without_qkd u = without_qkd v \<and> pp_lastPayload u = pp_lastPayload v \<and> pp_pqcSecret u = pp_pqcSecret v
    \<and> fst (paper_do env i u) = fst (paper_do env i v)"
proof -
  have "without_qkd (foldl (\<lambda>s i. snd (paper_do env i s)) s is) = without_qkd (foldl (\<lambda>s i. snd (paper_do env i s)) t is)"
    using assms(1)
  proof (induction "is" arbitrary: s t)
    case (Cons i "is")
    show ?case unfolding foldl_Cons by (rule Cons.IH) (rule conjunct2 [OF without_do [OF Cons.prems]])
  qed simp
  then have uv: "without_qkd u = without_qkd v" by (simp add: assms(2,3))
  have "pp_lastPayload u = pp_lastPayload v" "pp_pqcSecret u = pp_pqcSecret v" using uv by (elim without_qkd_eqE; simp)+
  then show ?thesis using uv without_do [OF uv, of env i] by simp
qed

theorem paper_qkd_keys_stay_on_hops_witness:
  "pp_lastPayload (foldl (\<lambda>s i. snd (paper_do demo_browser i s)) (paper_new\<lparr>pp_qkdKey := Some [1]\<rparr>) [P_step, P_step])
   = pp_lastPayload (foldl (\<lambda>s i. snd (paper_do demo_browser i s)) (paper_new\<lparr>pp_qkdKey := Some [2]\<rparr>) [P_step, P_step])"
proof -
  have "without_qkd (paper_new\<lparr>pp_qkdKey := Some [1]\<rparr>) = without_qkd (paper_new\<lparr>pp_qkdKey := Some [2]\<rparr>)"
    by (simp add: without_qkd_def)
  from paper_qkd_keys_stay_on_hops [OF this refl refl] show ?thesis by blast
qed

text \<open>
  The payload shown is the ciphertext: its base-64 text has four characters for every three bytes begun
  and decodes to exactly the bytes encoded.
\<close>

theorem payload_roundtrip: "unb64 (b64 bs) = Some bs \<and> length (b64 bs) = 4 * ((length bs + 2) div 3)"
  using unb64_b64 length_b64 by blast

end
