(* ===== verification/Pqc.thy ===== *)
theory Pqc
  imports Base64
begin

text \<open>
  Post-quantum round trips in the browser, \<^verbatim>\<open>lib/sim/pqc.ts\<close>: the registry of parameter sets, the standing of
  each with three bodies, the KEM and signature round trips, the agility matrix and the interoperability
  check against the server.

  The algorithms are \<^verbatim>\<open>@noble/post-quantum\<close>'s and not in the repository: the record \<open>pq_lib\<close> holds one
  implementation per name. Their calls that draw randomness, and \<^verbatim>\<open>performance.now()\<close>, are read in order by
  the counters of \<open>pq_calls\<close>. \<open>None\<close> is a call that throws.
\<close>

section \<open>The registry\<close>

datatype kem_name = ML_KEM_512 | ML_KEM_768 | ML_KEM_1024

datatype sig_name = ML_DSA_44 | ML_DSA_65 | ML_DSA_87 | SLH_DSA_SHA2_128s | SLH_DSA_SHA2_128f | SLH_DSA_SHA2_192s | SLH_DSA_SHA2_256s

fun kem_text :: "kem_name \<Rightarrow> string" where
  "kem_text ML_KEM_512 = ''ML-KEM-512''" | "kem_text ML_KEM_768 = ''ML-KEM-768''" | "kem_text ML_KEM_1024 = ''ML-KEM-1024''"

fun sig_text :: "sig_name \<Rightarrow> string" where
  "sig_text ML_DSA_44 = ''ML-DSA-44''" | "sig_text ML_DSA_65 = ''ML-DSA-65''" | "sig_text ML_DSA_87 = ''ML-DSA-87''"
| "sig_text SLH_DSA_SHA2_128s = ''SLH-DSA-SHA2-128s''" | "sig_text SLH_DSA_SHA2_128f = ''SLH-DSA-SHA2-128f''"
| "sig_text SLH_DSA_SHA2_192s = ''SLH-DSA-SHA2-192s''" | "sig_text SLH_DSA_SHA2_256s = ''SLH-DSA-SHA2-256s''"

text \<open>The implementations the registry names.\<close>

record kem_impl =
  kem_keygen :: "nat \<Rightarrow> bytes \<times> bytes"
  kem_encapsulate :: "bytes \<Rightarrow> nat \<Rightarrow> (bytes \<times> bytes) option"
  kem_decapsulate :: "bytes \<Rightarrow> bytes \<Rightarrow> bytes option"

record sig_impl =
  sig_keygen :: "nat \<Rightarrow> bytes \<times> bytes"
  sig_sign :: "bytes \<Rightarrow> bytes \<Rightarrow> nat \<Rightarrow> bytes option"
  sig_verify :: "bytes \<Rightarrow> bytes \<Rightarrow> bytes \<Rightarrow> bool option"

record pq_lib =
  pq_kem :: "kem_name \<Rightarrow> kem_impl"
  pq_sig :: "sig_name \<Rightarrow> sig_impl"
  pq_perf :: "nat \<Rightarrow> rat"

fun KEMS :: "kem_name \<Rightarrow> nat" where
  "KEMS ML_KEM_512 = 1" | "KEMS ML_KEM_768 = 3" | "KEMS ML_KEM_1024 = 5"

fun SIGS :: "sig_name \<Rightarrow> nat \<times> string \<times> string" where
  "SIGS ML_DSA_44 = (2, ''FIPS 204'', ''module-lattice'')"
| "SIGS ML_DSA_65 = (3, ''FIPS 204'', ''module-lattice'')"
| "SIGS ML_DSA_87 = (5, ''FIPS 204'', ''module-lattice'')"
| "SIGS SLH_DSA_SHA2_128s = (1, ''FIPS 205'', ''hash-based'')"
| "SIGS SLH_DSA_SHA2_128f = (1, ''FIPS 205'', ''hash-based'')"
| "SIGS SLH_DSA_SHA2_192s = (3, ''FIPS 205'', ''hash-based'')"
| "SIGS SLH_DSA_SHA2_256s = (5, ''FIPS 205'', ''hash-based'')"

definition KEM_NAMES :: "kem_name list" where
  "KEM_NAMES = [ML_KEM_512, ML_KEM_768, ML_KEM_1024]"

definition SIG_NAMES :: "sig_name list" where
  "SIG_NAMES = [ML_DSA_44, ML_DSA_65, ML_DSA_87, SLH_DSA_SHA2_128s, SLH_DSA_SHA2_128f, SLH_DSA_SHA2_192s, SLH_DSA_SHA2_256s]"

definition SIG_FAMILY :: "(string \<times> string) list" where
  "SIG_FAMILY = map (\<lambda>n. (sig_text n, snd (snd (SIGS n)))) SIG_NAMES"

section \<open>Policy standing\<close>

definition POLICY_STANDING_RECORDED :: string where "POLICY_STANDING_RECORDED = ''2026-09-26''"
definition BSI_HYBRID_ONLY :: string where "BSI_HYBRID_ONLY = ''hybrid with a classical scheme only''"
definition BSI_MAY_STAND_ALONE :: string where "BSI_MAY_STAND_ALONE = ''may be used alone''"

record policy_standing =
  ps_nist :: string
  ps_bsi :: bool
  ps_bsiCondition :: "string option"
  ps_cnsa :: bool

definition POLICY_STANDING :: "(string \<times> policy_standing) list" where
  "POLICY_STANDING = [
     (''ML-KEM-512'', \<lparr>ps_nist = ''FIPS 203'', ps_bsi = False, ps_bsiCondition = None, ps_cnsa = False\<rparr>),
     (''ML-KEM-768'', \<lparr>ps_nist = ''FIPS 203'', ps_bsi = True, ps_bsiCondition = Some BSI_HYBRID_ONLY, ps_cnsa = False\<rparr>),
     (''ML-KEM-1024'', \<lparr>ps_nist = ''FIPS 203'', ps_bsi = True, ps_bsiCondition = Some BSI_HYBRID_ONLY, ps_cnsa = True\<rparr>),
     (''ML-DSA-44'', \<lparr>ps_nist = ''FIPS 204'', ps_bsi = False, ps_bsiCondition = None, ps_cnsa = False\<rparr>),
     (''ML-DSA-65'', \<lparr>ps_nist = ''FIPS 204'', ps_bsi = True, ps_bsiCondition = Some BSI_HYBRID_ONLY, ps_cnsa = False\<rparr>),
     (''ML-DSA-87'', \<lparr>ps_nist = ''FIPS 204'', ps_bsi = True, ps_bsiCondition = Some BSI_HYBRID_ONLY, ps_cnsa = True\<rparr>),
     (''SLH-DSA-SHA2-128s'', \<lparr>ps_nist = ''FIPS 205'', ps_bsi = False, ps_bsiCondition = None, ps_cnsa = False\<rparr>),
     (''SLH-DSA-SHA2-128f'', \<lparr>ps_nist = ''FIPS 205'', ps_bsi = False, ps_bsiCondition = None, ps_cnsa = False\<rparr>),
     (''SLH-DSA-SHA2-192s'', \<lparr>ps_nist = ''FIPS 205'', ps_bsi = True, ps_bsiCondition = Some BSI_MAY_STAND_ALONE, ps_cnsa = False\<rparr>),
     (''SLH-DSA-SHA2-256s'', \<lparr>ps_nist = ''FIPS 205'', ps_bsi = True, ps_bsiCondition = Some BSI_MAY_STAND_ALONE, ps_cnsa = False\<rparr>)]"

definition middle_dot :: string where "middle_dot = [CHR 0xC2, CHR 0xB7]"

definition policyStanding :: "string \<Rightarrow> string" where
  "policyStanding algo = (case map_of POLICY_STANDING algo of
     None \<Rightarrow> ''policy standing not recorded''
   | Some p \<Rightarrow>
       let bsi = (if ps_bsi p
             then ''recommended'' @ (case ps_bsiCondition p of None \<Rightarrow> [] | Some c \<Rightarrow> if c = [] then [] else '' ('' @ c @ '')'')
             else ''not recommended'')
       in ps_nist p @ '' '' @ middle_dot @ '' BSI TR-02102-1: '' @ bsi @ '' '' @ middle_dot @ '' CNSA 2.0: ''
          @ (if ps_cnsa p then ''approved'' else ''not approved'') @ '' (as recorded '' @ POLICY_STANDING_RECORDED @ '')'')"

section \<open>Round trips\<close>

record pq_calls =
  pq_draws :: nat
  pq_perfs :: nat

record kem_result =
  kr_algo :: string
  kr_standard :: string
  kr_category :: nat
  kr_publicKeyLen :: nat
  kr_secretKeyLen :: nat
  kr_cipherTextLen :: nat
  kr_sharedSecretLen :: nat
  kr_sharedSecretMatch :: bool
  kr_elapsedMs :: rat

record sig_result =
  sg_algo :: string
  sg_standard :: string
  sg_family :: string
  sg_category :: nat
  sg_publicKeyLen :: nat
  sg_secretKeyLen :: nat
  sg_signatureLen :: nat
  sg_verified :: bool
  sg_rejectsTampered :: bool
  sg_elapsedMs :: rat

text \<open>All bytes are compared: the differences are or-ed together.\<close>

definition bytesEqual :: "bytes \<Rightarrow> bytes \<Rightarrow> bool" where
  "bytesEqual a b = (if length a \<noteq> length b then False
     else foldl (\<lambda>diff (x, y). diff OR (x XOR y)) 0 (zip a b) = 0)"

definition kemRoundtrip :: "pq_lib \<Rightarrow> pq_calls \<Rightarrow> kem_name \<Rightarrow> kem_result option \<times> pq_calls" where
  "kemRoundtrip lib c name =
     (let impl = pq_kem lib name;
          t0 = pq_perf lib (pq_perfs c);
          c = c\<lparr>pq_perfs := Suc (pq_perfs c)\<rparr>;
          (publicKey, secretKey) = kem_keygen impl (pq_draws c);
          c = c\<lparr>pq_draws := Suc (pq_draws c)\<rparr>
      in case kem_encapsulate impl publicKey (pq_draws c) of
           None \<Rightarrow> (None, c\<lparr>pq_draws := Suc (pq_draws c)\<rparr>)
         | Some (cipherText, sharedSecret) \<Rightarrow>
             let c = c\<lparr>pq_draws := Suc (pq_draws c)\<rparr> in
             (case kem_decapsulate impl cipherText secretKey of
                None \<Rightarrow> (None, c)
              | Some recovered \<Rightarrow>
                  let elapsed = pq_perf lib (pq_perfs c) - t0
                  in (Some \<lparr>kr_algo = kem_text name, kr_standard = ''FIPS 203'', kr_category = KEMS name,
                        kr_publicKeyLen = length publicKey, kr_secretKeyLen = length secretKey,
                        kr_cipherTextLen = length cipherText, kr_sharedSecretLen = length sharedSecret,
                        kr_sharedSecretMatch = bytesEqual sharedSecret recovered, kr_elapsedMs = elapsed\<rparr>,
                      c\<lparr>pq_perfs := Suc (pq_perfs c)\<rparr>)))"

text \<open>The message in UTF-8; the dash is three bytes.\<close>

definition sig_message :: bytes where
  "sig_message = encodeUtf8 (''PQC-QKD hybrid testbed '' @ [CHR 0xE2, CHR 0x80, CHR 0x94] @ '' signature round-trip'')"

definition tamper :: "bytes \<Rightarrow> bytes" where
  "tamper m = m[0 := m ! 0 XOR 0xff]"

definition sigRoundtrip :: "pq_lib \<Rightarrow> pq_calls \<Rightarrow> sig_name \<Rightarrow> sig_result option \<times> pq_calls" where
  "sigRoundtrip lib c name =
     (let impl = pq_sig lib name;
          (category, standard, family) = SIGS name;
          t0 = pq_perf lib (pq_perfs c);
          c = c\<lparr>pq_perfs := Suc (pq_perfs c)\<rparr>;
          (publicKey, secretKey) = sig_keygen impl (pq_draws c);
          c = c\<lparr>pq_draws := Suc (pq_draws c)\<rparr>
      in case sig_sign impl sig_message secretKey (pq_draws c) of
           None \<Rightarrow> (None, c\<lparr>pq_draws := Suc (pq_draws c)\<rparr>)
         | Some signature \<Rightarrow>
             let c = c\<lparr>pq_draws := Suc (pq_draws c)\<rparr> in
             (case sig_verify impl signature sig_message publicKey of
                None \<Rightarrow> (None, c)
              | Some verified \<Rightarrow>
                  let elapsed = pq_perf lib (pq_perfs c) - t0;
                      c = c\<lparr>pq_perfs := Suc (pq_perfs c)\<rparr>
                  in (case sig_verify impl signature (tamper sig_message) publicKey of
                        None \<Rightarrow> (None, c)
                      | Some accepted \<Rightarrow>
                          (Some \<lparr>sg_algo = sig_text name, sg_standard = standard, sg_family = family, sg_category = category,
                              sg_publicKeyLen = length publicKey, sg_secretKeyLen = length secretKey,
                              sg_signatureLen = length signature, sg_verified = verified,
                              sg_rejectsTampered = (\<not> accepted), sg_elapsedMs = elapsed\<rparr>, c))))"

text \<open>\<^verbatim>\<open>map\<close> of a function that may throw.\<close>

fun map_calls :: "('c \<Rightarrow> 'n \<Rightarrow> 'r option \<times> 'c) \<Rightarrow> 'c \<Rightarrow> 'n list \<Rightarrow> 'r list option \<times> 'c" where
  "map_calls f c [] = (Some [], c)"
| "map_calls f c (n # ns) = (case f c n of
     (None, c) \<Rightarrow> (None, c)
   | (Some r, c) \<Rightarrow> apfst (map_option (\<lambda>rs. r # rs)) (map_calls f c ns))"

record agility_matrix =
  am_kems :: "kem_result list"
  am_sigs :: "sig_result list"
  am_allPass :: bool

definition agilityMatrix :: "pq_lib \<Rightarrow> pq_calls \<Rightarrow> agility_matrix option \<times> pq_calls" where
  "agilityMatrix lib c = (case map_calls (kemRoundtrip lib) c KEM_NAMES of
     (None, c) \<Rightarrow> (None, c)
   | (Some kems, c) \<Rightarrow> (case map_calls (sigRoundtrip lib) c SIG_NAMES of
       (None, c) \<Rightarrow> (None, c)
     | (Some sigs, c) \<Rightarrow>
         (Some \<lparr>am_kems = kems, am_sigs = sigs,
            am_allPass = (list_all kr_sharedSecretMatch kems \<and> list_all (\<lambda>s. sg_verified s \<and> sg_rejectsTampered s) sigs)\<rparr>, c)))"

section \<open>Interoperability with the server\<close>

text \<open>
  What the server answers to a name and a public key in base 64: the status and, when it is a success, the
  fields of its JSON body. SHA-256 is the browser's.
\<close>

record interop_body =
  ib_ciphertext_b64 :: string
  ib_shared_secret_sha256 :: string
  ib_ciphertext_len :: nat
  ib_server_impl :: string

datatype interop_reply = Http_error nat | Http_ok interop_body

record interop_result =
  ir_algo :: string
  ir_agrees :: bool
  ir_ourSha256 :: string
  ir_theirSha256 :: string
  ir_ciphertextLen :: nat
  ir_serverImpl :: string

definition sha256Hex :: "(bytes \<Rightarrow> bytes) \<Rightarrow> bytes \<Rightarrow> string" where
  "sha256Hex sha data = concat (map (\<lambda>x. [hex_digit (unat x div 16), hex_digit (unat x mod 16)]) (sha data))"

definition kemInterop :: "pq_lib \<Rightarrow> (bytes \<Rightarrow> bytes) \<Rightarrow> (string \<Rightarrow> string \<Rightarrow> interop_reply) \<Rightarrow> pq_calls \<Rightarrow> kem_name
    \<Rightarrow> interop_result option \<times> pq_calls" where
  "kemInterop lib sha fetch c name =
     (let impl = pq_kem lib name;
          (publicKey, secretKey) = kem_keygen impl (pq_draws c);
          c = c\<lparr>pq_draws := Suc (pq_draws c)\<rparr>
      in ((case fetch (kem_text name) (b64 publicKey) of
            Http_error st \<Rightarrow> None
          | Http_ok body \<Rightarrow> (case unb64 (ib_ciphertext_b64 body) of
              None \<Rightarrow> None
            | Some ct \<Rightarrow> (case kem_decapsulate impl ct secretKey of
                None \<Rightarrow> None
              | Some ourSecret \<Rightarrow>
                  let ourSha256 = sha256Hex sha ourSecret
                  in Some \<lparr>ir_algo = kem_text name, ir_agrees = (ourSha256 = ib_shared_secret_sha256 body),
                       ir_ourSha256 = ourSha256, ir_theirSha256 = ib_shared_secret_sha256 body,
                       ir_ciphertextLen = ib_ciphertext_len body, ir_serverImpl = ib_server_impl body\<rparr>))), c))"

end
