(* ===== verification/Agility.thy ===== *)
theory Agility
  imports Pqc
begin

text \<open>
  The agility matrix run in both implementations, \<^verbatim>\<open>lib/sim/agilityCrossCheck.ts\<close>: the server's rows are matched
  to the browser's by the name in the standard, and a signature counts as a server pass only with its
  negative control.
\<close>

section \<open>Rows\<close>

record server_row =
  sv_algo :: string
  sv_family :: string
  sv_enabled :: bool
  sv_ok :: bool
  sv_pk_len :: "nat option"
  sv_ct_len :: "nat option"
  sv_ss_len :: "nat option"
  sv_sig_len :: "nat option"
  sv_rejects_tampered :: "bool option"
  sv_assumption :: "string option"

text \<open>The match of \<^verbatim>\<open>^SLH_DSA_PURE_(SHA2|SHAKE)_(\d+)([SF])$\<close>: the hash, the digits and the letter.\<close>

definition strip_prefix :: "string \<Rightarrow> string \<Rightarrow> string option" where
  "strip_prefix p s = (if take (length p) s = p then Some (drop (length p) s) else None)"

definition is_digit :: "char \<Rightarrow> bool" where
  "is_digit c \<longleftrightarrow> c \<in> set ''0123456789''"

definition slh_tail :: "string \<Rightarrow> (string \<times> char) option" where
  "slh_tail s = (let ds = takeWhile is_digit s; r = dropWhile is_digit s
     in if ds \<noteq> [] \<and> (r = ''S'' \<or> r = ''F'') then Some (ds, hd r) else None)"

definition LIBOQS_SLH_DSA :: "string \<Rightarrow> (string \<times> string \<times> char) option" where
  "LIBOQS_SLH_DSA s = (case strip_prefix ''SLH_DSA_PURE_'' s of None \<Rightarrow> None
     | Some t \<Rightarrow> (case strip_prefix ''SHA2_'' t of
         Some u \<Rightarrow> map_option (\<lambda>x. (''SHA2'', x)) (slh_tail u)
       | None \<Rightarrow> (case strip_prefix ''SHAKE_'' t of
           Some u \<Rightarrow> map_option (\<lambda>x. (''SHAKE'', x)) (slh_tail u)
         | None \<Rightarrow> None)))"

definition fipsName :: "string \<Rightarrow> string" where
  "fipsName algo = (case LIBOQS_SLH_DSA algo of
     None \<Rightarrow> algo
   | Some (h, ds, c) \<Rightarrow> ''SLH-DSA-'' @ h @ ''-'' @ ds @ (if c = CHR ''S'' then ''s'' else ''f''))"

definition ASSUMPTION_BY_PREFIX :: "(string \<times> string) list" where
  "ASSUMPTION_BY_PREFIX = [(''ML-KEM-'', ''module lattice (MLWE)''), (''HQC-'', ''quasi-cyclic codes (QCSD)''),
     (''ML-DSA-'', ''module lattice (MLWE / MSIS)''), (''SLH-DSA-'', ''hash functions only'')]"

definition assumptionOf :: "string \<Rightarrow> string option" where
  "assumptionOf algo = map_option snd (List.find (\<lambda>(p, a). strip_prefix p (fipsName algo) \<noteq> None) ASSUMPTION_BY_PREFIX)"

record algo_comparison =
  ac_algo :: string
  ac_serverAlgo :: string
  ac_family :: string
  ac_bothPass :: bool
  ac_serverPass :: bool
  ac_clientPass :: bool
  ac_lengthsAgree :: "bool option"
  ac_lengthNotes :: "string list"

record cross_check =
  cc_compared :: "algo_comparison list"
  cc_serverTamperNotReported :: "string list"
  cc_serverOnly :: "string list"
  cc_clientOnly :: "string list"
  cc_allBothPass :: bool
  cc_allLengthsAgree :: bool

section \<open>The comparison\<close>

record client_row =
  cl_pass :: bool
  cl_family :: string
  cl_pk :: "nat option"
  cl_ct :: "nat option"
  cl_ss :: "nat option"
  cl_sig :: "nat option"

definition kem_row :: "kem_result \<Rightarrow> client_row" where
  "kem_row k = \<lparr>cl_pass = kr_sharedSecretMatch k, cl_family = ''KEM'', cl_pk = Some (kr_publicKeyLen k),
     cl_ct = Some (kr_cipherTextLen k), cl_ss = Some (kr_sharedSecretLen k), cl_sig = None\<rparr>"

definition sig_row :: "sig_result \<Rightarrow> client_row" where
  "sig_row s = \<lparr>cl_pass = (sg_verified s \<and> sg_rejectsTampered s), cl_family = ''SIG'', cl_pk = Some (sg_publicKeyLen s),
     cl_ct = None, cl_ss = None, cl_sig = Some (sg_signatureLen s)\<rparr>"

definition clientRows :: "agility_matrix \<Rightarrow> (string \<times> client_row) list" where
  "clientRows m = foldl (\<lambda>rows s. AList.update (sg_algo s) (sig_row s) rows)
     (foldl (\<lambda>rows k. AList.update (kr_algo k) (kem_row k) rows) [] (am_kems m)) (am_sigs m)"

definition serverRows :: "server_row list option \<Rightarrow> (string \<times> server_row) list" where
  "serverRows matrix = foldl (\<lambda>rows r. AList.update (fipsName (sv_algo r)) r rows) [] (case matrix of None \<Rightarrow> [] | Some rs \<Rightarrow> rs)"

text \<open>Whether two reported lengths agree, and the note when they do not. \<open>None\<close> is not compared.\<close>

definition cmp :: "string \<Rightarrow> nat option \<Rightarrow> nat option \<Rightarrow> bool option \<times> string list" where
  "cmp label a b = (case (a, b) of
     (Some x, Some y) \<Rightarrow> if x = y then (Some True, [])
        else (Some False, [label @ '': liboqs '' @ show_nat x @ '' vs @noble '' @ show_nat y])
   | _ \<Rightarrow> (None, []))"

definition server_passes :: "server_row \<Rightarrow> bool \<Rightarrow> bool" where
  "server_passes s isSig \<longleftrightarrow> sv_ok s \<and> (\<not> isSig \<or> sv_rejects_tampered s = Some True)"

definition compare_algo :: "string \<Rightarrow> client_row \<Rightarrow> server_row \<Rightarrow> algo_comparison" where
  "compare_algo algo c s =
     (let checks = [cmp ''pk_len'' (sv_pk_len s) (cl_pk c), cmp ''ct_len'' (sv_ct_len s) (cl_ct c),
                    cmp ''ss_len'' (sv_ss_len s) (cl_ss c), cmp ''sig_len'' (sv_sig_len s) (cl_sig c)];
          known = map the (filter (\<lambda>x. x \<noteq> None) (map fst checks));
          serverPass = server_passes s (cl_family c = ''SIG'')
      in \<lparr>ac_algo = algo, ac_serverAlgo = sv_algo s, ac_family = cl_family c, ac_bothPass = (serverPass \<and> cl_pass c),
          ac_serverPass = serverPass, ac_clientPass = cl_pass c,
          ac_lengthsAgree = (if known \<noteq> [] then Some (list_all (\<lambda>x. x) known) else None),
          ac_lengthNotes = concat (map snd checks)\<rparr>)"

definition crossCheck :: "agility_matrix \<Rightarrow> server_row list option \<Rightarrow> cross_check" where
  "crossCheck client serverMatrix =
     (let rows = clientRows client;
          server = serverRows serverMatrix;
          compared = List.map_filter (\<lambda>(algo, c). map_option (compare_algo algo c) (map_of server algo)) rows;
          unreported = map fst (filter (\<lambda>(algo, c). case map_of server algo of None \<Rightarrow> False
             | Some s \<Rightarrow> cl_family c = ''SIG'' \<and> sv_rejects_tampered s = None) rows);
          names = map ac_algo compared
      in \<lparr>cc_compared = compared, cc_serverTamperNotReported = unreported,
          cc_serverOnly = map sv_algo (filter (\<lambda>r. fipsName (sv_algo r) \<notin> set names) (map snd server)),
          cc_clientOnly = filter (\<lambda>a. a \<notin> set names) (map fst rows),
          cc_allBothPass = (compared \<noteq> [] \<and> list_all ac_bothPass compared),
          cc_allLengthsAgree = (compared \<noteq> [] \<and> list_all (\<lambda>c. ac_lengthsAgree c \<noteq> Some False) compared)\<rparr>)"

definition crossCheckAgility :: "pq_lib \<Rightarrow> pq_calls \<Rightarrow> server_row list option \<Rightarrow> cross_check option \<times> pq_calls" where
  "crossCheckAgility lib c serverMatrix = apfst (map_option (\<lambda>m. crossCheck m serverMatrix)) (agilityMatrix lib c)"

end
