(* ===== verification/Pqc_Claims.thy ===== *)
theory Pqc_Claims
  imports Agility
begin

text \<open>
  The properties of the post-quantum round trips and of their comparison with the server.
\<close>

section \<open>Comparison of bytes\<close>

lemma xor_zero_iff: "(x XOR y = (0 :: 'a::len word)) \<longleftrightarrow> x = y"
  by (metis xor.left_neutral xor.right_neutral xor_self_eq xor_xor_cancel_right)

lemma or_zero_iff: "(x OR y = (0 :: 'a::len word)) \<longleftrightarrow> x = 0 \<and> y = 0"
  by (fact or_eq_0_iff)

lemma fold_diff_zero:
  "foldl (\<lambda>diff (x, y). diff OR (x XOR y)) (d :: u8) ps = 0 \<longleftrightarrow> d = 0 \<and> list_all (\<lambda>(x, y). x = y) ps"
proof (induction ps arbitrary: d)
  case (Cons p ps)
  then show ?case by (cases p) (simp add: or_zero_iff xor_zero_iff del: or_eq_0_iff)
qed simp

lemma bytesEqual_iff [simp]: "bytesEqual a b \<longleftrightarrow> a = b"
proof (cases "length a = length b")
  case True
  then have "list_all (\<lambda>(x, y). x = y) (zip a b) \<longleftrightarrow> a = b" by (induction a b rule: list_induct2) auto
  then show ?thesis using True by (simp add: bytesEqual_def fold_diff_zero)
qed (auto simp: bytesEqual_def)

section \<open>Calls in a row\<close>

text \<open>Every one of the names is good, the \<open>i\<close>-th with its own two draws.\<close>

fun all_good :: "('n \<Rightarrow> nat \<Rightarrow> bool) \<Rightarrow> nat \<Rightarrow> 'n list \<Rightarrow> bool" where
  "all_good good d [] = True"
| "all_good good d (n # ns) = (good n d \<and> all_good good (d + 2) ns)"

text \<open>A round trip that takes two draws, and passes exactly when its implementation is good at them.\<close>

locale round_trips =
  fixes trip :: "pq_calls \<Rightarrow> 'n \<Rightarrow> 'r option \<times> pq_calls"
    and passes :: "'r \<Rightarrow> bool"
    and label :: "'r \<Rightarrow> string"
    and name :: "'n \<Rightarrow> string"
    and good :: "'n \<Rightarrow> nat \<Rightarrow> bool"
  assumes success: "trip c n = (Some r, c') \<Longrightarrow> pq_draws c' = pq_draws c + 2 \<and> (passes r \<longleftrightarrow> good n (pq_draws c)) \<and> label r = name n"
    and defined: "good n (pq_draws c) \<Longrightarrow> \<exists>r c'. trip c n = (Some r, c')"
begin

lemma calls_success:
  "map_calls trip c ns = (Some rs, c') \<Longrightarrow> pq_draws c' = pq_draws c + 2 * length ns
    \<and> (list_all passes rs \<longleftrightarrow> all_good good (pq_draws c) ns) \<and> map label rs = map name ns"
proof (induction ns arbitrary: c rs)
  case (Cons n ns)
  then obtain r d where r: "trip c n = (Some r, d)" by (auto split: prod.splits option.splits)
  with Cons.prems obtain qs where q: "map_calls trip d ns = (Some qs, c')" "rs = r # qs"
    by (cases "map_calls trip d ns") (auto simp: apfst_def)
  from Cons.IH [OF q(1)] success [OF r] q(2) show ?case by simp
qed simp

lemma calls_defined: "all_good good (pq_draws c) ns \<Longrightarrow> \<exists>rs c'. map_calls trip c ns = (Some rs, c')"
proof (induction ns arbitrary: c)
  case (Cons n ns)
  then obtain r d where r: "trip c n = (Some r, d)" using defined [of n c] by auto
  then have "all_good good (pq_draws d) ns" using Cons.prems success [OF r] by simp
  from Cons.IH [OF this] r show ?case by (auto simp: apfst_def)
qed simp

end

text \<open>Decapsulation recovers the secret; the signature verifies and is refused for the tampered message.\<close>

definition kem_good :: "pq_lib \<Rightarrow> kem_name \<Rightarrow> nat \<Rightarrow> bool" where
  "kem_good lib n d = (let impl = pq_kem lib n; (pk, sk) = kem_keygen impl d in
     case kem_encapsulate impl pk (Suc d) of None \<Rightarrow> False | Some (ct, ss) \<Rightarrow> kem_decapsulate impl ct sk = Some ss)"

definition sig_good :: "pq_lib \<Rightarrow> sig_name \<Rightarrow> nat \<Rightarrow> bool" where
  "sig_good lib n d = (let impl = pq_sig lib n; (pk, sk) = sig_keygen impl d in
     case sig_sign impl sig_message sk (Suc d) of None \<Rightarrow> False
     | Some sg \<Rightarrow> sig_verify impl sg sig_message pk = Some True \<and> sig_verify impl sg (tamper sig_message) pk = Some False)"

interpretation kems: round_trips "kemRoundtrip lib" kr_sharedSecretMatch kr_algo kem_text "kem_good lib" for lib
proof unfold_locales
  fix c n r c'
  show "kemRoundtrip lib c n = (Some r, c') \<Longrightarrow>
      pq_draws c' = pq_draws c + 2 \<and> (kr_sharedSecretMatch r \<longleftrightarrow> kem_good lib n (pq_draws c)) \<and> kr_algo r = kem_text n"
    by (auto simp: kemRoundtrip_def kem_good_def Let_def split: prod.splits option.splits)
  show "kem_good lib n (pq_draws c) \<Longrightarrow> \<exists>r c'. kemRoundtrip lib c n = (Some r, c')"
    by (auto simp: kemRoundtrip_def kem_good_def Let_def split: prod.splits option.splits)
qed

interpretation sigs: round_trips "sigRoundtrip lib" "\<lambda>s. sg_verified s \<and> sg_rejectsTampered s" sg_algo sig_text "sig_good lib" for lib
proof unfold_locales
  fix c n r c'
  show "sigRoundtrip lib c n = (Some r, c') \<Longrightarrow>
      pq_draws c' = pq_draws c + 2 \<and> (sg_verified r \<and> sg_rejectsTampered r \<longleftrightarrow> sig_good lib n (pq_draws c)) \<and> sg_algo r = sig_text n"
    by (auto simp: sigRoundtrip_def sig_good_def Let_def split: prod.splits option.splits)
  show "sig_good lib n (pq_draws c) \<Longrightarrow> \<exists>r c'. sigRoundtrip lib c n = (Some r, c')"
    by (auto simp: sigRoundtrip_def sig_good_def Let_def split: prod.splits option.splits)
qed

lemma matrix_success:
  assumes "agilityMatrix lib c = (Some m, c')"
  shows "map kr_algo (am_kems m) = map kem_text KEM_NAMES \<and> map sg_algo (am_sigs m) = map sig_text SIG_NAMES
    \<and> (am_allPass m \<longleftrightarrow> all_good (kem_good lib) (pq_draws c) KEM_NAMES \<and> all_good (sig_good lib) (pq_draws c + 6) SIG_NAMES)"
proof -
  obtain ks d where k: "map_calls (kemRoundtrip lib) c KEM_NAMES = (Some ks, d)"
    using assms by (auto simp: agilityMatrix_def split: prod.splits option.splits)
  with assms obtain ss where s: "map_calls (sigRoundtrip lib) d SIG_NAMES = (Some ss, c')"
    and m: "m = \<lparr>am_kems = ks, am_sigs = ss,
      am_allPass = (list_all kr_sharedSecretMatch ks \<and> list_all (\<lambda>s. sg_verified s \<and> sg_rejectsTampered s) ss)\<rparr>"
    by (auto simp: agilityMatrix_def split: prod.splits option.splits)
  have "length KEM_NAMES = 3" by (simp add: KEM_NAMES_def)
  with kems.calls_success [OF k] sigs.calls_success [OF s] show ?thesis by (simp add: m)
qed

lemma matrix_defined:
  assumes good: "all_good (kem_good lib) (pq_draws c) KEM_NAMES \<and> all_good (sig_good lib) (pq_draws c + 6) SIG_NAMES"
  shows "\<exists>m c'. agilityMatrix lib c = (Some m, c')"
proof -
  obtain ks d where k: "map_calls (kemRoundtrip lib) c KEM_NAMES = (Some ks, d)" using good kems.calls_defined by blast
  have "pq_draws d = pq_draws c + 6" using kems.calls_success [OF k] by (simp add: KEM_NAMES_def)
  then have "all_good (sig_good lib) (pq_draws d) SIG_NAMES" using good by simp
  then obtain ss c' where s: "map_calls (sigRoundtrip lib) d SIG_NAMES = (Some ss, c')" using sigs.calls_defined by blast
  show ?thesis using k s by (simp add: agilityMatrix_def)
qed

text \<open>
  C23. What the agility verdict says. The matrix passes exactly when every one of the three KEM parameter sets
  recovers at decapsulation the very secret encapsulated, and every one of the seven signature sets verifies
  its signature and refuses it for the tampered message, each on its own fresh key; so a library that
  verifies anything, or one that throws anywhere, cannot pass.
\<close>

theorem agility_all_pass_iff:
  "(\<exists>m c'. agilityMatrix lib c = (Some m, c') \<and> am_allPass m)
    \<longleftrightarrow> all_good (kem_good lib) (pq_draws c) KEM_NAMES \<and> all_good (sig_good lib) (pq_draws c + 6) SIG_NAMES"
  using matrix_defined [of lib c] matrix_success [of lib c] by blast

section \<open>Interoperability\<close>

text \<open>
  A server that reads the public key, encapsulates to it with an implementation of its own and answers with
  the ciphertext and the digest of its secret.
\<close>

definition interop_server :: "(bytes \<Rightarrow> bytes) \<Rightarrow> (string \<Rightarrow> bytes \<Rightarrow> bytes \<times> bytes) \<Rightarrow> string \<Rightarrow> string \<Rightarrow> interop_reply" where
  "interop_server sha encap algo k = (case unb64 k of None \<Rightarrow> Http_error 400
   | Some pk \<Rightarrow> let (ct, ss) = encap algo pk in Http_ok \<lparr>ib_ciphertext_b64 = b64 ct, ib_shared_secret_sha256 = toHex (sha ss),
       ib_ciphertext_len = length ct, ib_server_impl = ''liboqs''\<rparr>)"

text \<open>
  The interoperability check compares secrets. Against a server that encapsulates to the key it was sent,
  the browser reaches a verdict whenever it can decapsulate the server's ciphertext, and it says they agree
  exactly when the digest of the secret it recovers is the digest of the server's: the key and the ciphertext
  pass the base-64 exchange unchanged, and the hexadecimal digests tell all digests apart.
\<close>

theorem interop_compares_secrets:
  assumes "kem_keygen (pq_kem lib n) (pq_draws c) = (pk, sk)" "encap (kem_text n) pk = (ct, ss)"
    and "kem_decapsulate (pq_kem lib n) ct sk = Some ours"
  shows "\<exists>r c'. kemInterop lib sha (interop_server sha encap) c n = (Some r, c') \<and> (ir_agrees r \<longleftrightarrow> sha ours = sha ss)
    \<and> ir_ciphertextLen r = length ct \<and> (ours = ss \<longrightarrow> ir_agrees r)"
  using assms by (simp add: kemInterop_def interop_server_def unb64_b64 sha256Hex_def flip: toHex_def)

definition demo_kem :: kem_impl where
  "demo_kem = \<lparr>kem_keygen = (\<lambda>i. ([word_of_nat i, 1], [word_of_nat i])), kem_encapsulate = (\<lambda>pk i. Some (pk, pk)),
     kem_decapsulate = (\<lambda>ct sk. if ct = sk @ [1] then Some ct else None)\<rparr>"

definition demo_sig :: sig_impl where
  "demo_sig = \<lparr>sig_keygen = (\<lambda>i. ([word_of_nat i], [word_of_nat i])), sig_sign = (\<lambda>m sk i. Some (m @ sk)),
     sig_verify = (\<lambda>sg m pk. Some (sg = m @ pk))\<rparr>"

definition demo_lib :: pq_lib where
  "demo_lib = \<lparr>pq_kem = (\<lambda>n. demo_kem), pq_sig = (\<lambda>n. demo_sig), pq_perf = (\<lambda>i. of_nat i)\<rparr>"

theorem interop_compares_secrets_witness:
  "\<exists>r c'. kemInterop demo_lib id (interop_server id (\<lambda>a pk. (pk, pk))) \<lparr>pq_draws = 7, pq_perfs = 0\<rparr> ML_KEM_768 = (Some r, c') \<and> ir_agrees r"
proof -
  have "kem_keygen (pq_kem demo_lib ML_KEM_768) (pq_draws \<lparr>pq_draws = 7, pq_perfs = 0\<rparr>) = ([7, 1], [7])"
    "kem_decapsulate (pq_kem demo_lib ML_KEM_768) [7, 1] [7] = Some [7, 1]" by (simp_all add: demo_lib_def demo_kem_def)
  from interop_compares_secrets [OF this(1) _ this(2), of "\<lambda>a pk. (pk, pk)" "[7, 1]" id] show ?thesis by auto
qed

text \<open>A library for which every round trip passes.\<close>

lemma tamper_differs: "tamper sig_message \<noteq> sig_message"
  by code_simp

lemma demo_good: "all_good (kem_good demo_lib) d KEM_NAMES" "all_good (sig_good demo_lib) d SIG_NAMES"
  using tamper_differs
  by (simp_all add: KEM_NAMES_def SIG_NAMES_def kem_good_def sig_good_def demo_lib_def demo_kem_def demo_sig_def)

lemma demo_matrix: obtains m c' where "agilityMatrix demo_lib \<lparr>pq_draws = 0, pq_perfs = 0\<rparr> = (Some m, c')"
  using matrix_defined [of demo_lib "\<lparr>pq_draws = 0, pq_perfs = 0\<rparr>"] demo_good by auto

definition demo_row :: "string \<Rightarrow> server_row" where
  "demo_row a = \<lparr>sv_algo = a, sv_family = ''SIG'', sv_enabled = True, sv_ok = True, sv_pk_len = Some 2, sv_ct_len = None,
     sv_ss_len = None, sv_sig_len = None, sv_rejects_tampered = Some True, sv_assumption = None\<rparr>"

definition demo_rows :: "server_row list" where
  "demo_rows = map demo_row [''HQC-128'', ''SLH_DSA_PURE_SHA2_128S'', ''ML-KEM-768'']"

section \<open>Against the server's matrix\<close>

lemma fipsName_slh [simp]: "fipsName (''SLH-DSA-'' @ s) = ''SLH-DSA-'' @ s"
  by (simp add: fipsName_def LIBOQS_SLH_DSA_def strip_prefix_def)

lemma fipsName_idem [simp]: "fipsName (fipsName a) = fipsName a"
proof (cases "LIBOQS_SLH_DSA a")
  case None
  then show ?thesis by (simp add: fipsName_def)
next
  case (Some x)
  then obtain s where "fipsName a = ''SLH-DSA-'' @ s" by (cases x) (auto simp: fipsName_def)
  then show ?thesis using fipsName_slh by metis
qed

lemma foldl_update_append:
  "distinct (map fst acc @ map f xs) \<Longrightarrow> foldl (\<lambda>r x. AList.update (f x) (g x) r) acc xs = acc @ map (\<lambda>x. (f x, g x)) xs"
proof (induction xs arbitrary: acc)
  case (Cons x xs)
  then have "AList.update (f x) (g x) acc = acc @ [(f x, g x)]" by (induction acc) auto
  then show ?case using Cons by auto
qed simp

lemma foldl_update_find:
  "map_of (foldl (\<lambda>r x. AList.update (f x) x r) acc xs) a
    = (case List.find (\<lambda>x. f x = a) (rev xs) of Some x \<Rightarrow> Some x | None \<Rightarrow> map_of acc a)"
  by (induction xs rule: rev_induct) (auto simp: update_conv' split: option.splits)

lemma foldl_update_keys: "list_all (\<lambda>(k, x). k = f x) acc \<Longrightarrow> distinct (map fst acc) \<Longrightarrow>
    list_all (\<lambda>(k, x). k = f x) (foldl (\<lambda>r x. AList.update (f x) x r) acc xs)
    \<and> distinct (map fst (foldl (\<lambda>r x. AList.update (f x) x r) acc xs))"
proof (induction xs arbitrary: acc)
  case (Cons x xs)
  have "list_all (\<lambda>(k, x). k = f x) (AList.update (f x) x acc)" using Cons.prems(1) by (induction acc) auto
  with Cons show ?case by (simp add: distinct_update)
qed simp

definition matrix_names :: "string list" where
  "matrix_names = map kem_text KEM_NAMES @ map sig_text SIG_NAMES"

lemma distinct_matrix_names: "distinct matrix_names"
  by (simp add: matrix_names_def KEM_NAMES_def SIG_NAMES_def)

lemma clientRows_matrix:
  assumes "agilityMatrix lib c = (Some m, c')"
  shows "clientRows m = map (\<lambda>k. (kr_algo k, kem_row k)) (am_kems m) @ map (\<lambda>s. (sg_algo s, sig_row s)) (am_sigs m)"
    and "map fst (clientRows m) = matrix_names"
proof -
  have n: "map kr_algo (am_kems m) = map kem_text KEM_NAMES" "map sg_algo (am_sigs m) = map sig_text SIG_NAMES"
    using matrix_success [OF assms] by auto
  have d: "distinct (map kr_algo (am_kems m) @ map sg_algo (am_sigs m))" unfolding n by (fold matrix_names_def) (rule distinct_matrix_names)
  then have "foldl (\<lambda>rows k. AList.update (kr_algo k) (kem_row k) rows) [] (am_kems m) = map (\<lambda>k. (kr_algo k, kem_row k)) (am_kems m)"
    by (subst foldl_update_append) auto
  moreover have "map fst (map (\<lambda>k. (kr_algo k, kem_row k)) (am_kems m)) = map kr_algo (am_kems m)" by simp
  ultimately show c: "clientRows m = map (\<lambda>k. (kr_algo k, kem_row k)) (am_kems m) @ map (\<lambda>s. (sg_algo s, sig_row s)) (am_sigs m)"
    using foldl_update_append [of "map (\<lambda>k. (kr_algo k, kem_row k)) (am_kems m)" sg_algo "am_sigs m" sig_row, simplified, folded comp_def] d
    by (simp add: clientRows_def comp_def)
  show "map fst (clientRows m) = matrix_names" unfolding c by (simp add: n matrix_names_def comp_def flip: n)
qed

definition server_names :: "server_row list \<Rightarrow> string list" where
  "server_names rows = map (fipsName \<circ> sv_algo) rows"

lemma serverRows_lookup: "map_of (serverRows (Some rows)) a = List.find (\<lambda>s. fipsName (sv_algo s) = a) (rev rows)"
  unfolding serverRows_def by (simp add: foldl_update_find split: option.splits)

lemma serverRows_None: "serverRows None = []" by (simp add: serverRows_def)

lemma serverRows_dom: "a \<in> set (map fst (serverRows (Some rows))) \<longleftrightarrow> a \<in> set (server_names rows)"
proof -
  have "a \<in> set (map fst (serverRows (Some rows))) \<longleftrightarrow> map_of (serverRows (Some rows)) a \<noteq> None"
    by (auto simp: map_of_eq_None_iff image_iff)
  then show ?thesis unfolding serverRows_lookup by (auto simp: find_None_iff server_names_def)
qed

lemma serverRows_keys: "list_all (\<lambda>(k, s). k = fipsName (sv_algo s)) (serverRows r)"
  using foldl_update_keys [of "fipsName \<circ> sv_algo" "[]"] by (auto simp: serverRows_def)

lemma compare_algo_name [simp]: "ac_algo (compare_algo a c s) = a"
  by (simp add: compare_algo_def Let_def)

lemma compared_names:
  "map ac_algo (List.map_filter (\<lambda>(algo, c). map_option (compare_algo algo c) (map_of server algo)) rows)
    = filter (\<lambda>a. a \<in> set (map fst server)) (map fst rows)"
proof (induction rows)
  case (Cons r rows)
  obtain a c where r: "r = (a, c)" by (cases r)
  have "map_of server a \<noteq> None \<longleftrightarrow> a \<in> set (map fst server)" by (simp add: map_of_eq_None_iff)
  then show ?case using Cons by (cases "map_of server a") (auto simp: r List.map_filter_simps simp del: set_map)
qed (simp add: List.map_filter_simps)

text \<open>
  The comparison loses no algorithm. When the browser's half ran, the algorithms compared are its ten, in
  its order, that the server lists under either spelling; those the server does not list are reported as the
  browser's only; and the rows reported as the server's only are those of names that are none of the ten.
\<close>

theorem cross_check_partition:
  assumes "crossCheckAgility lib c (Some rows) = (Some r, c')"
  shows "map ac_algo (cc_compared r) = filter (\<lambda>a. a \<in> set (server_names rows)) matrix_names
    \<and> cc_clientOnly r = filter (\<lambda>a. a \<notin> set (server_names rows)) matrix_names
    \<and> fipsName ` set (cc_serverOnly r) = set (server_names rows) - set matrix_names"
proof -
  obtain m where m: "agilityMatrix lib c = (Some m, c')" and r: "r = crossCheck m (Some rows)"
    using assms by (cases "agilityMatrix lib c") (auto simp: crossCheckAgility_def)
  let ?sv = "serverRows (Some rows)"
  have names: "map ac_algo (cc_compared r) = filter (\<lambda>a. a \<in> set (server_names rows)) matrix_names"
    unfolding r crossCheck_def Let_def by (simp only: cross_check.simps compared_names clientRows_matrix(2) [OF m] serverRows_dom)
  have only: "cc_clientOnly r = filter (\<lambda>a. a \<notin> set (map ac_algo (cc_compared r))) matrix_names"
    "cc_serverOnly r = map sv_algo (filter (\<lambda>s. fipsName (sv_algo s) \<notin> set (map ac_algo (cc_compared r))) (map snd ?sv))"
    unfolding r crossCheck_def Let_def by (simp_all add: clientRows_matrix(2) [OF m])
  have "map (\<lambda>s. fipsName (sv_algo s)) (map snd ?sv) = map fst ?sv"
    using serverRows_keys [of "Some rows"] by (auto simp: list_all_iff)
  then have "(\<lambda>s. fipsName (sv_algo s)) ` set (map snd ?sv) = set (server_names rows)" using serverRows_dom by (metis (no_types) set_map subsetI subset_antisym)
  moreover have "fipsName ` set (cc_serverOnly r) = (\<lambda>s. fipsName (sv_algo s)) ` set (map snd ?sv) - set (map ac_algo (cc_compared r))"
    unfolding only by auto
  ultimately show ?thesis using names by (auto simp: only intro!: filter_cong)
qed

lemma serverRows_SomeD: "map_of (serverRows (Some rows)) a = Some s \<Longrightarrow> s \<in> set rows \<and> fipsName (sv_algo s) = a"
  unfolding serverRows_lookup by (auto simp: find_Some_iff) (metis nth_mem rev_nth set_rev length_rev)

theorem cross_check_partition_witness:
  "\<exists>r c'. crossCheckAgility demo_lib \<lparr>pq_draws = 0, pq_perfs = 0\<rparr> (Some demo_rows) = (Some r, c')
    \<and> map ac_algo (cc_compared r) = [''ML-KEM-768'', ''SLH-DSA-SHA2-128s''] \<and> length (cc_clientOnly r) = 8
    \<and> fipsName ` set (cc_serverOnly r) = {''HQC-128''}"
proof -
  obtain m c' where "agilityMatrix demo_lib \<lparr>pq_draws = 0, pq_perfs = 0\<rparr> = (Some m, c')" by (rule demo_matrix)
  then have r: "crossCheckAgility demo_lib \<lparr>pq_draws = 0, pq_perfs = 0\<rparr> (Some demo_rows) = (Some (crossCheck m (Some demo_rows)), c')"
    by (simp add: crossCheckAgility_def)
  have n: "server_names demo_rows = [''HQC-128'', ''SLH-DSA-SHA2-128s'', ''ML-KEM-768'']" by code_simp
  from cross_check_partition [OF r] r show ?thesis
    unfolding n by (auto simp: matrix_names_def KEM_NAMES_def SIG_NAMES_def)
qed

text \<open>Conversely, a passing matrix against rows that all report success, one of them of a name both know, passes.\<close>

lemma cross_check_both_passI:
  assumes m: "agilityMatrix lib c = (Some m, c')" and pass: "am_allPass m"
    and rows: "list_all (\<lambda>s. sv_ok s \<and> sv_rejects_tampered s = Some True) rows"
    and some: "a \<in> set matrix_names" "a \<in> set (server_names rows)"
  shows "cc_allBothPass (crossCheck m (Some rows))"
proof -
  let ?cs = "cc_compared (crossCheck m (Some rows))"
  have "am_allPass m \<longleftrightarrow> list_all kr_sharedSecretMatch (am_kems m) \<and> list_all (\<lambda>s. sg_verified s \<and> sg_rejectsTampered s) (am_sigs m)"
    using m by (auto simp: agilityMatrix_def split: prod.splits option.splits)
  then have cl: "list_all (\<lambda>(a, cl). cl_pass cl) (clientRows m)"
    using pass by (simp add: clientRows_matrix(1) [OF m] kem_row_def sig_row_def list.pred_map comp_def)
  have "ac_bothPass ac" if "ac \<in> set ?cs" for ac
  proof -
    from that obtain b cl s where "(b, cl) \<in> set (clientRows m)" and s: "map_of (serverRows (Some rows)) b = Some s"
      and ac: "ac = compare_algo b cl s" by (auto simp: crossCheck_def Let_def List.map_filter_def)
    then have "cl_pass cl" using \<open>list_all (\<lambda>(a, cl). cl_pass cl) (clientRows m)\<close> by (auto simp: list_all_iff)
    then show ?thesis using serverRows_SomeD [OF s] rows by (auto simp: ac compare_algo_def Let_def server_passes_def list_all_iff)
  qed
  moreover have "a \<in> set (map ac_algo ?cs)"
    using some unfolding crossCheck_def Let_def cross_check.simps compared_names clientRows_matrix(2) [OF m] serverRows_dom by simp
  ultimately show ?thesis by (auto simp: crossCheck_def Let_def list_all_iff)
qed

text \<open>
  C24. What the agreement of the two implementations stands for. When the comparison says that both pass, some
  algorithm was compared, and every one of the browser's algorithms that the server lists passed its round
  trip in the browser and is reported by some row of the server as a success, which for a signature includes
  the report that the tampered message was refused: a row that only verifies never counts.
\<close>

theorem cross_check_both_pass:
  assumes "agilityMatrix lib c = (Some m, c')" "cc_allBothPass (crossCheck m (Some rows))"
  shows "cc_compared (crossCheck m (Some rows)) \<noteq> []
    \<and> list_all (\<lambda>k. kr_algo k \<in> set (server_names rows) \<longrightarrow> kr_sharedSecretMatch k
        \<and> list_ex (\<lambda>s. fipsName (sv_algo s) = kr_algo k \<and> sv_ok s) rows) (am_kems m)
    \<and> list_all (\<lambda>g. sg_algo g \<in> set (server_names rows) \<longrightarrow> sg_verified g \<and> sg_rejectsTampered g
        \<and> list_ex (\<lambda>s. fipsName (sv_algo s) = sg_algo g \<and> sv_ok s \<and> sv_rejects_tampered s = Some True) rows) (am_sigs m)"
proof -
  let ?r = "crossCheck m (Some rows)"
  have all: "cc_compared ?r \<noteq> []" "list_all ac_bothPass (cc_compared ?r)" using assms(2) by (auto simp: crossCheck_def Let_def)
  have row: "\<exists>s \<in> set rows. fipsName (sv_algo s) = a \<and> sv_ok s \<and> cl_pass cl \<and> (cl_family cl = ''SIG'' \<longrightarrow> sv_rejects_tampered s = Some True)"
    if a: "(a, cl) \<in> set (clientRows m)" and n: "a \<in> set (server_names rows)" for a cl
  proof -
    obtain s where s: "map_of (serverRows (Some rows)) a = Some s" using n serverRows_dom by (metis map_of_eq_None_iff not_Some_eq set_map)
    then have "compare_algo a cl s \<in> set (cc_compared ?r)" using a by (force simp: crossCheck_def Let_def List.map_filter_def)
    then have "ac_bothPass (compare_algo a cl s)" using all by (simp add: list_all_iff)
    then have "sv_ok s \<and> cl_pass cl \<and> (cl_family cl = ''SIG'' \<longrightarrow> sv_rejects_tampered s = Some True)"
      by (auto simp: compare_algo_def Let_def server_passes_def)
    with serverRows_SomeD [OF s] show ?thesis by blast
  qed
  have kems: "(kr_algo k, kem_row k) \<in> set (clientRows m)" if "k \<in> set (am_kems m)" for k
    using that by (simp add: clientRows_matrix(1) [OF assms(1)])
  have sigs: "(sg_algo s, sig_row s) \<in> set (clientRows m)" if "s \<in> set (am_sigs m)" for s
    using that by (simp add: clientRows_matrix(1) [OF assms(1)])
  show ?thesis using all(1) row [OF kems] row [OF sigs]
    by (auto simp: list_all_iff list_ex_iff kem_row_def sig_row_def)
qed

theorem cross_check_both_pass_witness:
  "\<exists>m. cc_allBothPass (crossCheck m (Some demo_rows)) \<and> am_kems m \<noteq> [] \<and> kr_sharedSecretMatch (am_kems m ! 1)"
proof -
  obtain m c' where m: "agilityMatrix demo_lib \<lparr>pq_draws = 0, pq_perfs = 0\<rparr> = (Some m, c')" by (rule demo_matrix)
  have b: "cc_allBothPass (crossCheck m (Some demo_rows))"
  proof (rule cross_check_both_passI [OF m])
    show "am_allPass m" using matrix_success [OF m] demo_good by blast
    show "list_all (\<lambda>s. sv_ok s \<and> sv_rejects_tampered s = Some True) demo_rows" by (simp add: demo_rows_def demo_row_def)
    show "''ML-KEM-768'' \<in> set matrix_names" by (simp add: matrix_names_def KEM_NAMES_def)
    show "''ML-KEM-768'' \<in> set (server_names demo_rows)" by code_simp
  qed
  have n: "map kr_algo (am_kems m) = [''ML-KEM-512'', ''ML-KEM-768'', ''ML-KEM-1024'']" using matrix_success [OF m] by (simp add: KEM_NAMES_def)
  then obtain x y z where k: "am_kems m = [x, y, z]" "kr_algo y = ''ML-KEM-768''" by (auto simp: map_eq_Cons_conv)
  have "''ML-KEM-768'' \<in> set (server_names demo_rows)" by code_simp
  with cross_check_both_pass [OF m b] b show ?thesis by (intro exI [of _ m]) (simp add: k)
qed

text \<open>Without the server's matrix every algorithm is the browser's only, and nothing is claimed to agree.\<close>

lemma cross_check_alone:
  assumes "crossCheckAgility lib c None = (Some r, c')"
  shows "cc_compared r = [] \<and> cc_clientOnly r = matrix_names \<and> \<not> cc_allBothPass r \<and> \<not> cc_allLengthsAgree r"
proof -
  obtain m where m: "agilityMatrix lib c = (Some m, c')" and r: "r = crossCheck m None"
    using assms by (cases "agilityMatrix lib c") (auto simp: crossCheckAgility_def)
  show ?thesis using clientRows_matrix(2) [OF m] by (simp add: r crossCheck_def Let_def serverRows_None List.map_filter_def case_prod_beta)
qed

section \<open>The policy table\<close>

text \<open>Every parameter set has its entry; a recommendation has its condition, and CNSA's are among BSI's.\<close>

lemma policy_table:
  "map fst POLICY_STANDING = matrix_names
    \<and> list_all (\<lambda>(n, p). (ps_bsi p \<longleftrightarrow> ps_bsiCondition p \<noteq> None) \<and> (ps_cnsa p \<longrightarrow> ps_bsi p)) POLICY_STANDING
    \<and> list_all (\<lambda>n. map_of POLICY_STANDING (sig_text n) = Some p \<longrightarrow> ps_nist p = fst (snd (SIGS n))) SIG_NAMES"
  by (simp add: POLICY_STANDING_def matrix_names_def KEM_NAMES_def SIG_NAMES_def BSI_HYBRID_ONLY_def BSI_MAY_STAND_ALONE_def) auto

lemma policyStanding_recorded: "a \<in> set matrix_names \<longleftrightarrow> map_of POLICY_STANDING a \<noteq> None"
  using policy_table by (metis map_of_eq_None_iff set_map)

end
