(* ===== verification/Keyrate.thy ===== *)
theory Keyrate
  imports Complex_Main
begin

text \<open>
  The closed-form key rates, \<^verbatim>\<open>lib/sim/keyrate.ts\<close>: the channel model, the two-decoy asymptotic rate, the
  finite-key length of Lim et al., the rate of one span and the bundled parameters.

  A JavaScript number is a real here: rounding is not modelled, and the definitions are not executable where the
  code calls \<^verbatim>\<open>Math.exp\<close>, \<^verbatim>\<open>Math.log\<close> or \<^verbatim>\<open>Math.pow\<close>. A division by zero, infinite in JavaScript and zero
  in HOL, is kept out by the code's own guards and, for the three intensity probabilities, by hypotheses.
\<close>

section \<open>Channel\<close>

definition H2 :: "real \<Rightarrow> real" where
  "H2 x = (if 0 < x \<and> x < 1 then - x * log 2 x - (1 - x) * log 2 (1 - x) else 0)"

definition totalTransmittance :: "real \<Rightarrow> real \<Rightarrow> real \<Rightarrow> real" where
  "totalTransmittance etaD alphaDbPerKm lKm = etaD * 10 powr ((- alphaDbPerKm * lKm) / 10)"

definition gainQmu :: "real \<Rightarrow> real \<Rightarrow> real \<Rightarrow> real" where
  "gainQmu Y0 etaTotal intensity = Y0 + 1 - exp (- etaTotal * intensity)"

definition qberEmu :: "real \<Rightarrow> real \<Rightarrow> real \<Rightarrow> real \<Rightarrow> real" where
  "qberEmu Y0 etaTotal eD intensity =
     (let q = gainQmu Y0 etaTotal intensity
      in if q \<le> 0 then 0.5 else (Y0 / 2 + eD * (1 - exp (- etaTotal * intensity))) / q)"

section \<open>Asymptotic rate\<close>

record decoy_params =
  dp_Y0 :: real
  dp_etaTotal :: real
  dp_eD :: real
  dp_mu :: real
  dp_nu1 :: real
  dp_nu2 :: real
  dp_fEC :: real

text \<open>The validity condition of the two-decoy bound and its denominator.\<close>

definition eq13 :: "'a decoy_params_scheme \<Rightarrow> bool" where
  "eq13 p \<longleftrightarrow> dp_nu2 p \<ge> 0 \<and> dp_nu2 p < dp_nu1 p \<and> dp_nu1 p + dp_nu2 p < dp_mu p"

definition decoy_denom :: "decoy_params \<Rightarrow> real" where
  "decoy_denom p = dp_mu p * dp_nu1 p - dp_mu p * dp_nu2 p - dp_nu1 p * dp_nu1 p + dp_nu2 p * dp_nu2 p"

text \<open>The lower bound on the single-photon yield, before it is clamped at 0.\<close>

definition yield_bound :: "decoy_params \<Rightarrow> real" where
  "yield_bound p =
     (let Q_mu = gainQmu (dp_Y0 p) (dp_etaTotal p) (dp_mu p);
          Q_nu1 = gainQmu (dp_Y0 p) (dp_etaTotal p) (dp_nu1 p);
          Q_nu2 = (if dp_nu2 p > 0 then gainQmu (dp_Y0 p) (dp_etaTotal p) (dp_nu2 p) else dp_Y0 p)
      in (dp_mu p / decoy_denom p) * (Q_nu1 * exp (dp_nu1 p) - Q_nu2 * exp (dp_nu2 p)
           - ((dp_nu1 p * dp_nu1 p - dp_nu2 p * dp_nu2 p) / (dp_mu p * dp_mu p)) * (Q_mu * exp (dp_mu p) - dp_Y0 p)))"

text \<open>The upper bound on the single-photon error rate for a yield \<open>Y1_L\<close>.\<close>

definition error_bound :: "decoy_params \<Rightarrow> real \<Rightarrow> real" where
  "error_bound p Y1_L =
     (let Q_nu1 = gainQmu (dp_Y0 p) (dp_etaTotal p) (dp_nu1 p);
          Q_nu2 = (if dp_nu2 p > 0 then gainQmu (dp_Y0 p) (dp_etaTotal p) (dp_nu2 p) else dp_Y0 p);
          E_nu1 = qberEmu (dp_Y0 p) (dp_etaTotal p) (dp_eD p) (dp_nu1 p);
          e1_U = (if dp_nu2 p > 0
            then (E_nu1 * Q_nu1 * exp (dp_nu1 p) - qberEmu (dp_Y0 p) (dp_etaTotal p) (dp_eD p) (dp_nu2 p) * Q_nu2 * exp (dp_nu2 p))
                 / ((dp_nu1 p - dp_nu2 p) * Y1_L)
            else (E_nu1 * Q_nu1 * exp (dp_nu1 p) - 0.5 * dp_Y0 p) / (Y1_L * dp_nu1 p))
      in max 0 (min 0.5 e1_U))"

definition asymptoticSkrPerPulse :: "decoy_params \<Rightarrow> real" where
  "asymptoticSkrPerPulse p =
     (let Q_mu = gainQmu (dp_Y0 p) (dp_etaTotal p) (dp_mu p);
          E_mu = qberEmu (dp_Y0 p) (dp_etaTotal p) (dp_eD p) (dp_mu p)
      in if dp_nu1 p \<le> 0 \<or> dp_mu p - dp_nu1 p \<le> 0 then 0
         else if \<not> eq13 p then 0
         else if decoy_denom p \<le> 0 then 0
         else let Y1_L = max (yield_bound p) 0
              in if Y1_L \<le> 0 \<or> dp_nu1 p \<le> 0 then 0
                 else let e1_U = error_bound p Y1_L;
                          Q1 = dp_mu p * exp (- dp_mu p) * Y1_L;
                          rate = 0.5 * (- Q_mu * dp_fEC p * H2 E_mu + Q1 * (1 - H2 e1_U))
                      in max rate 0)"

section \<open>Finite-key length\<close>

definition LIM_EPS_DIVISOR :: real where "LIM_EPS_DIVISOR = 21"
definition LIM_UNION_COEFF :: real where "LIM_UNION_COEFF = 6"

definition hoeffdingDelta :: "real \<Rightarrow> real \<Rightarrow> real" where
  "hoeffdingDelta n eps = (if n \<le> 0 \<or> \<not> (eps > 0 \<and> eps < 1) then 0 else sqrt (0.5 * n * ln (1 / eps)))"

text \<open>The loop over the intensities, accumulating; \<open>i\<close> runs from 2 to \<open>n\<close> in the factorial.\<close>

definition photonNumberTau :: "nat \<Rightarrow> real list \<Rightarrow> real list \<Rightarrow> real" where
  "photonNumberTau n mus ps =
     (let fct = foldl (\<lambda>f i. f * real i) 1 [2..<Suc n];
          acc = foldl (\<lambda>acc (m, p). acc + p * exp (- m) * m ^ n) 0 (zip mus ps)
      in acc / fct)"

definition samplingGamma :: "real \<Rightarrow> real \<Rightarrow> real \<Rightarrow> real \<Rightarrow> real" where
  "samplingGamma epsSec b c d =
     (if c \<le> 0 \<or> d \<le> 0 \<or> \<not> (b > 0 \<and> b < 1) then 0.5
      else let pre = ((c + d) * (1 - b) * b) / (c * d * ln 2);
               arg = ((c + d) / (c * d * (1 - b) * b)) * (LIM_EPS_DIVISOR / epsSec) ^ 2
           in if arg \<le> 1 then 0 else sqrt (pre * log 2 arg))"

record bracket =
  br_plus :: real
  br_minus :: real

definition bracketed :: "real \<Rightarrow> real \<Rightarrow> real \<Rightarrow> real \<Rightarrow> real \<Rightarrow> bracket" where
  "bracketed nK nTot k pK dev =
     (let scale = exp k / pK
      in \<lparr>br_plus = scale * min (max (nK + dev) 0) nTot, br_minus = scale * min (max (nK - dev) 0) nTot\<rparr>)"

record s0s1_bounds =
  sb_s0 :: real
  sb_s1 :: real
  sb_nTot :: real

definition s0s1 :: "real list \<Rightarrow> real list \<Rightarrow> real list \<Rightarrow> real \<Rightarrow> real \<Rightarrow> real \<Rightarrow> s0s1_bounds" where
  "s0s1 nK mus ps eps tau0 tau1 =
     (let mu1 = mus ! 0; mu2 = mus ! 1; mu3 = mus ! 2;
          nTot = nK ! 0 + nK ! 1 + nK ! 2;
          dev = hoeffdingDelta nTot eps;
          b1 = bracketed (nK ! 0) nTot mu1 (ps ! 0) dev;
          b2 = bracketed (nK ! 1) nTot mu2 (ps ! 1) dev;
          b3 = bracketed (nK ! 2) nTot mu3 (ps ! 2) dev;
          s0 = (tau0 * (mu2 * br_minus b3 - mu3 * br_plus b2)) / (mu2 - mu3);
          s0 = min (max s0 0) nTot;
          den = mu1 * (mu2 - mu3) - mu2 * mu2 + mu3 * mu3
      in if den \<le> 0 then \<lparr>sb_s0 = s0, sb_s1 = 0, sb_nTot = nTot\<rparr>
         else let s1raw = (tau1 * mu1 * (br_minus b2 - br_plus b3
                     - ((mu2 * mu2 - mu3 * mu3) / (mu1 * mu1)) * (br_plus b1 - s0 / tau0))) / den
              in \<lparr>sb_s0 = s0, sb_s1 = min (max s1raw 0) nTot, sb_nTot = nTot\<rparr>)"

definition v1 :: "real list \<Rightarrow> real list \<Rightarrow> real list \<Rightarrow> real \<Rightarrow> real \<Rightarrow> real" where
  "v1 mK mus ps eps tau1 =
     (let mu2 = mus ! 1; mu3 = mus ! 2;
          mTot = mK ! 0 + mK ! 1 + mK ! 2;
          dev = hoeffdingDelta mTot eps;
          m2p = br_plus (bracketed (mK ! 1) mTot mu2 (ps ! 1) dev);
          m3m = br_minus (bracketed (mK ! 2) mTot mu3 (ps ! 2) dev)
      in max 0 ((tau1 * (m2p - m3m)) / (mu2 - mu3)))"

record lim_counts =
  lc_nXk :: "real list"
  lc_nZk :: "real list"
  lc_mXk :: "real list"
  lc_mZk :: "real list"

record lim_params = lim_counts +
  lp_mus :: "real list"
  lp_ps :: "real list"
  lp_epsSec :: real
  lp_epsCor :: real
  lp_fEC :: real

record lim_result =
  lr_ell :: real
  lr_ellRaw :: real
  lr_nX :: real
  lr_nZ :: real
  lr_sX0 :: real
  lr_sX1 :: real
  lr_sZ1 :: real
  lr_vZ1 :: real
  lr_phiX :: real
  lr_leakEC :: real
  lr_tau0 :: real
  lr_tau1 :: real
  lr_penalty :: real

definition limKeyLength :: "lim_params \<Rightarrow> lim_result" where
  "limKeyLength p =
     (let eps = lp_epsSec p / LIM_EPS_DIVISOR;
          tau0 = photonNumberTau 0 (lp_mus p) (lp_ps p);
          tau1 = photonNumberTau 1 (lp_mus p) (lp_ps p);
          X = s0s1 (lc_nXk p) (lp_mus p) (lp_ps p) eps tau0 tau1;
          Z = s0s1 (lc_nZk p) (lp_mus p) (lp_ps p) eps tau0 tau1;
          vZ1 = min (v1 (lc_mZk p) (lp_mus p) (lp_ps p) eps tau1) (sb_s1 Z);
          mX = lc_mXk p ! 0 + lc_mXk p ! 1 + lc_mXk p ! 2;
          leakEC = (if sb_nTot X > 0 then sb_nTot X * lp_fEC p * H2 (mX / sb_nTot X) else 0);
          phiX = (if sb_s1 Z > 0 \<and> sb_s1 X > 0
            then let b = vZ1 / sb_s1 Z in min 0.5 (b + samplingGamma (lp_epsSec p) b (sb_s1 Z) (sb_s1 X))
            else 0.5);
          penalty = LIM_UNION_COEFF * log 2 (LIM_EPS_DIVISOR / lp_epsSec p) + log 2 (2 / lp_epsCor p);
          ellRaw = sb_s0 X + sb_s1 X * (1 - H2 phiX) - leakEC - penalty
      in \<lparr>lr_ell = max 0 ellRaw, lr_ellRaw = ellRaw, lr_nX = sb_nTot X, lr_nZ = sb_nTot Z, lr_sX0 = sb_s0 X,
          lr_sX1 = sb_s1 X, lr_sZ1 = sb_s1 Z, lr_vZ1 = vZ1, lr_phiX = phiX, lr_leakEC = leakEC, lr_tau0 = tau0,
          lr_tau1 = tau1, lr_penalty = penalty\<rparr>)"

record count_params =
  cp_N :: real
  cp_qx :: real
  cp_mus :: "real list"
  cp_ps :: "real list"
  cp_Y0 :: real
  cp_etaTotal :: real
  cp_eD :: real

definition limCountsFromChannel :: "count_params \<Rightarrow> lim_counts" where
  "limCountsFromChannel p =
     (let Q = map (gainQmu (cp_Y0 p) (cp_etaTotal p)) (cp_mus p);
          E = map (qberEmu (cp_Y0 p) (cp_etaTotal p) (cp_eD p)) (cp_mus p);
          nXk = map2 (\<lambda>pk q. cp_N p * cp_qx p * cp_qx p * pk * q) (cp_ps p) Q;
          nZk = map2 (\<lambda>pk q. cp_N p * (1 - cp_qx p) * (1 - cp_qx p) * pk * q) (cp_ps p) Q
      in \<lparr>lc_nXk = nXk, lc_nZk = nZk, lc_mXk = map2 (*) nXk E, lc_mZk = map2 (*) nZk E\<rparr>)"

record finite_params = decoy_params +
  fp_N :: real
  fp_eps :: real
  fp_qx :: real
  fp_pMu :: real
  fp_pNu1 :: real
  fp_pNu2 :: real
  fp_epsCor :: real

text \<open>What \<^verbatim>\<open>skrFinite\<close> hands to \<^verbatim>\<open>limKeyLength\<close>.\<close>

definition finite_lim :: "finite_params \<Rightarrow> lim_params" where
  "finite_lim p =
     (let mus = [dp_mu p, dp_nu1 p, dp_nu2 p];
          ps = [fp_pMu p, fp_pNu1 p, fp_pNu2 p];
          c = limCountsFromChannel \<lparr>cp_N = fp_N p, cp_qx = fp_qx p, cp_mus = mus, cp_ps = ps, cp_Y0 = dp_Y0 p,
                cp_etaTotal = dp_etaTotal p, cp_eD = dp_eD p\<rparr>
      in \<lparr>lc_nXk = lc_nXk c, lc_nZk = lc_nZk c, lc_mXk = lc_mXk c, lc_mZk = lc_mZk c, lp_mus = mus, lp_ps = ps,
          lp_epsSec = fp_eps p, lp_epsCor = fp_epsCor p, lp_fEC = dp_fEC p\<rparr>)"

definition skrFinite :: "finite_params \<Rightarrow> real" where
  "skrFinite p =
     (if fp_N p \<le> 0 \<or> \<not> (fp_eps p > 0 \<and> fp_eps p < 1) then 0
      else if \<not> (dp_mu p > dp_nu1 p + dp_nu2 p \<and> dp_nu1 p > dp_nu2 p \<and> dp_nu2 p \<ge> 0) then 0
      else lr_ell (limKeyLength (finite_lim p)) / fp_N p)"

section \<open>The rate of one span\<close>

definition transmittanceFromLossDb :: "real \<Rightarrow> real" where
  "transmittanceFromLossDb lossDb = 10 powr (- lossDb / 10)"

record link_rate_params =
  detectorEfficiency :: real
  fiberAttenuationDbPerKm :: real
  darkCountRateHz :: real
  pulseRateHz :: real
  misalignmentErrorEd :: real
  intensitySignalMu :: real
  intensityDecoy1Nu1 :: real
  intensityDecoy2Nu2 :: real
  basisBiasPz :: real
  probSignalMu :: real
  probDecoy1Nu1 :: real
  probDecoy2Nu2 :: real
  ecEfficiencyF :: real
  blockSizeN :: real
  securityEpsilon :: real
  correctnessEpsilon :: real

datatype link_span = Span_km real | Span_loss_db real

definition span_eta :: "'a link_rate_params_scheme \<Rightarrow> link_span \<Rightarrow> real" where
  "span_eta p sp = (case sp of
     Span_km km \<Rightarrow> totalTransmittance (detectorEfficiency p) (fiberAttenuationDbPerKm p) km
   | Span_loss_db lossDb \<Rightarrow> detectorEfficiency p * transmittanceFromLossDb lossDb)"

definition link_finite :: "'a link_rate_params_scheme \<Rightarrow> link_span \<Rightarrow> finite_params" where
  "link_finite p sp =
     \<lparr>dp_Y0 = darkCountRateHz p / max (pulseRateHz p) 1, dp_etaTotal = span_eta p sp, dp_eD = misalignmentErrorEd p,
      dp_mu = intensitySignalMu p, dp_nu1 = intensityDecoy1Nu1 p, dp_nu2 = intensityDecoy2Nu2 p, dp_fEC = ecEfficiencyF p,
      fp_N = blockSizeN p, fp_eps = securityEpsilon p, fp_qx = basisBiasPz p, fp_pMu = probSignalMu p,
      fp_pNu1 = probDecoy1Nu1 p, fp_pNu2 = probDecoy2Nu2 p, fp_epsCor = correctnessEpsilon p\<rparr>"

definition skrBpsForLink :: "'a link_rate_params_scheme \<Rightarrow> link_span \<Rightarrow> real" where
  "skrBpsForLink p sp = skrFinite (link_finite p sp) * pulseRateHz p"

section \<open>Bundled parameters\<close>

record bundled_params = link_rate_params +
  linkLengthKm :: real
  qberThresholdAbort :: real
  bb84BatchSize :: real
  eveEnabled :: bool
  eveInterceptProb :: real
  outBitsPerKey :: real
  poolLowWatermark :: real
  poolMaxSize :: real

definition BUNDLED_PARAMS :: bundled_params where
  "BUNDLED_PARAMS = \<lparr>detectorEfficiency = 0.2, fiberAttenuationDbPerKm = 0.2, darkCountRateHz = 100,
     pulseRateHz = 10 ^ 9, misalignmentErrorEd = 0.015, intensitySignalMu = 0.5, intensityDecoy1Nu1 = 0.1,
     intensityDecoy2Nu2 = 0, basisBiasPz = 0.5, probSignalMu = 0.70, probDecoy1Nu1 = 0.15, probDecoy2Nu2 = 0.15,
     ecEfficiencyF = 1.16, blockSizeN = 10 ^ 9, securityEpsilon = 1 / 10 ^ 10, correctnessEpsilon = 1 / 10 ^ 15,
     linkLengthKm = 10, qberThresholdAbort = 0.11, bb84BatchSize = 2048, eveEnabled = False, eveInterceptProb = 0,
     outBitsPerKey = 256, poolLowWatermark = 8, poolMaxSize = 64\<rparr>"

definition channelFromParams :: "bundled_params \<Rightarrow> real \<times> real" where
  "channelFromParams p =
     (totalTransmittance (detectorEfficiency p) (fiberAttenuationDbPerKm p) (linkLengthKm p),
      darkCountRateHz p / max (pulseRateHz p) 1)"

definition bundledChannel :: "real \<times> real \<times> real" where
  "bundledChannel = (let (etaTotal, Y0) = channelFromParams BUNDLED_PARAMS in (etaTotal, Y0, misalignmentErrorEd BUNDLED_PARAMS))"

datatype field_type = FT_float | FT_int | FT_bool

datatype field_value = FV_number real | FV_bool bool

record editable_field =
  ef_path :: string
  ef_type :: field_type
  ef_value :: field_value
  ef_overridden :: bool

definition number_field :: "string \<Rightarrow> real \<Rightarrow> field_type \<Rightarrow> editable_field" where
  "number_field path v ty = \<lparr>ef_path = path, ef_type = ty, ef_value = FV_number v, ef_overridden = False\<rparr>"

definition bundledEditableFields :: "editable_field list" where
  "bundledEditableFields = (let B = BUNDLED_PARAMS; f = (\<lambda>path v. number_field path v FT_float) in [
     f ''physical.fiber_attenuation_db_per_km'' (fiberAttenuationDbPerKm B),
     f ''physical.link_length_km'' (linkLengthKm B),
     f ''physical.detector_efficiency'' (detectorEfficiency B),
     f ''physical.dark_count_rate_hz'' (darkCountRateHz B),
     f ''physical.misalignment_error_ed'' (misalignmentErrorEd B),
     f ''source.pulse_rate_hz'' (pulseRateHz B),
     f ''source.intensity_signal_mu'' (intensitySignalMu B),
     f ''source.intensity_decoy_1_nu1'' (intensityDecoy1Nu1 B),
     f ''source.intensity_decoy_2_nu2'' (intensityDecoy2Nu2 B),
     f ''source.basis_bias_pz'' (basisBiasPz B),
     f ''protocol.ec_efficiency_f'' (ecEfficiencyF B),
     f ''protocol.qber_threshold_abort'' (qberThresholdAbort B),
     number_field ''simulator.bb84_batch_size'' (bb84BatchSize B) FT_int,
     \<lparr>ef_path = ''eve.enabled'', ef_type = FT_bool, ef_value = FV_bool (eveEnabled B), ef_overridden = False\<rparr>,
     f ''eve.intercept_prob'' (eveInterceptProb B)])"

end
