(* ===== verification/Keyrate_Bounds.thy ===== *)
theory Keyrate_Bounds
  imports Keyrate
begin

text \<open>
  The decoy-state bounds hold for the channel they are applied to. A source of intensity \<open>k\<close> sends \<open>n\<close> photons
  with the Poisson probability, so a gain times \<open>exp k\<close> is a power series in \<open>k\<close> whose coefficients are the
  yields of the photon numbers; the bounds are inequalities between such series. The locale \<open>photon_series\<close>
  states what they need, and is given by the channel model and by the counts of an experiment.
\<close>

section \<open>Power series with nonnegative coefficients\<close>

definition power_sum :: "(nat \<Rightarrow> real) \<Rightarrow> real \<Rightarrow> real" where
  "power_sum a x = (\<Sum>n. a n * x ^ n)"

lemma power_difference:
  fixes x y m :: real
  assumes "0 \<le> y" "y \<le> x" "x + y \<le> m"
  shows "x ^ (n + 2) - y ^ (n + 2) \<le> (x\<^sup>2 - y\<^sup>2) * m ^ n"
proof -
  have "x ^ (n + 2) - y ^ (n + 2) \<le> (x\<^sup>2 - y\<^sup>2) * (x + y) ^ n"
  proof (induction n)
    case (Suc n)
    have "x ^ (Suc n + 2) - y ^ (Suc n + 2) = (x + y) * (x ^ (n + 2) - y ^ (n + 2)) - x * y * (x ^ Suc n - y ^ Suc n)"
      by (simp add: algebra_simps power_add power2_eq_square)
    also have "\<dots> \<le> (x + y) * (x ^ (n + 2) - y ^ (n + 2))"
      using assms power_mono [of y x "Suc n"] by simp
    also have "\<dots> \<le> (x + y) * ((x\<^sup>2 - y\<^sup>2) * (x + y) ^ n)" using assms Suc by (intro mult_left_mono) auto
    finally show ?case by (simp add: algebra_simps)
  qed (simp add: power2_eq_square)
  also have "\<dots> \<le> (x\<^sup>2 - y\<^sup>2) * m ^ n"
    using assms by (intro mult_left_mono power_mono) (auto simp: power_mono)
  finally show ?thesis .
qed

lemma suminf_le_single:
  fixes f :: "nat \<Rightarrow> real"
  assumes "summable f" "\<And>n. n \<noteq> k \<Longrightarrow> f n \<le> 0"
  shows "suminf f \<le> f k"
proof -
  have "(\<lambda>n. if n = k then f n else 0) sums f k" by (rule sums_single)
  moreover have "suminf f \<le> suminf (\<lambda>n. if n = k then f n else 0)"
    using assms calculation by (intro suminf_le) (auto simp: sums_iff)
  ultimately show ?thesis by (simp add: sums_iff)
qed

locale photon_series =
  fixes a :: "nat \<Rightarrow> real" and mu :: real
  assumes nonneg: "0 \<le> a n" and mu_nonneg: "0 \<le> mu" and summable_mu: "summable (\<lambda>n. a n * mu ^ n)"
begin

lemma series: "\<lbrakk>0 \<le> x; x \<le> mu\<rbrakk> \<Longrightarrow> (\<lambda>n. a n * x ^ n) sums power_sum a x"
  unfolding power_sum_def using nonneg
  by (intro summable_sums summable_comparison_test' [OF summable_mu, of 0]) (auto simp: abs_mult intro!: mult_left_mono power_mono)

text \<open>The two-decoy combination keeps only the single-photon term.\<close>

lemma two_decoy:
  assumes "0 \<le> y" "y \<le> x" "x + y \<le> mu" "0 < mu" "c \<le> a 0"
  shows "power_sum a x - power_sum a y - (x\<^sup>2 - y\<^sup>2) / mu\<^sup>2 * (power_sum a mu - c) \<le> a 1 * (x - y - (x\<^sup>2 - y\<^sup>2) / mu)"
proof -
  let ?r = "(x\<^sup>2 - y\<^sup>2) / mu\<^sup>2"
  let ?f = "\<lambda>n. a n * x ^ n - a n * y ^ n - ?r * (a n * mu ^ n - (if n = 0 then a 0 else 0))"
  have xy: "x \<le> mu" "0 \<le> x" "y \<le> mu" using assms by linarith+
  have r: "0 \<le> ?r" using assms by (auto simp: power_mono)
  have "(\<lambda>n. if n = 0 then a 0 else 0) sums a 0" using sums_single [of 0 "\<lambda>_. a 0"] by simp
  then have s: "?f sums (power_sum a x - power_sum a y - ?r * (power_sum a mu - a 0))"
    using xy assms(1) mu_nonneg by (intro sums_diff sums_mult series) auto
  have "?f n \<le> 0" if n: "n \<noteq> 1" for n
  proof (cases n)
    case (Suc i)
    then obtain j where j: "n = j + 2" using n by (cases i) simp_all
    have "?r * mu ^ n = (x\<^sup>2 - y\<^sup>2) * mu ^ j" unfolding j using assms(4) by (simp add: power2_eq_square)
    then have "x ^ n - y ^ n \<le> ?r * mu ^ n" using power_difference [OF assms(1-3), of j] by (simp only: j)
    from mult_left_mono [OF this nonneg [of n]] show ?thesis by (simp add: j algebra_simps)
  qed simp
  with s have "suminf ?f \<le> ?f 1" by (intro suminf_le_single) (auto simp: sums_iff)
  then have "power_sum a x - power_sum a y - ?r * (power_sum a mu - a 0) \<le> ?f 1" using s by (simp add: sums_iff)
  moreover have "?f 1 = a 1 * (x - y - (x\<^sup>2 - y\<^sup>2) / mu)" using assms(4) by (simp add: field_simps power2_eq_square)
  moreover have "?r * (power_sum a mu - a 0) \<le> ?r * (power_sum a mu - c)" using r assms(5) by (intro mult_left_mono) auto
  ultimately show ?thesis by linarith
qed

lemma difference: "\<lbrakk>0 \<le> y; y \<le> x; x \<le> mu\<rbrakk> \<Longrightarrow> a 1 * (x - y) \<le> power_sum a x - power_sum a y"
proof -
  assume xy: "0 \<le> y" "y \<le> x" "x \<le> mu"
  let ?f = "\<lambda>n. a n * y ^ n - a n * x ^ n"
  have s: "?f sums (power_sum a y - power_sum a x)" using xy by (intro sums_diff series) auto
  moreover have "?f n \<le> 0" for n using xy nonneg by (simp add: mult_left_mono power_mono)
  ultimately have "suminf ?f \<le> ?f 1" by (intro suminf_le_single) (auto simp: sums_iff)
  then show ?thesis using s by (simp add: sums_iff algebra_simps)
qed

lemma vacuum: "\<lbrakk>0 \<le> y; y \<le> x; x \<le> mu\<rbrakk> \<Longrightarrow> x * power_sum a y - y * power_sum a x \<le> a 0 * (x - y)"
proof -
  assume xy: "0 \<le> y" "y \<le> x" "x \<le> mu"
  let ?f = "\<lambda>n. x * (a n * y ^ n) - y * (a n * x ^ n)"
  have s: "?f sums (x * power_sum a y - y * power_sum a x)" using xy by (intro sums_diff sums_mult series) auto
  moreover have "?f n \<le> 0" if n: "n \<noteq> 0" for n
  proof -
    from n obtain j where j: "n = Suc j" by (cases n) auto
    have "x * y ^ n \<le> y * x ^ n" unfolding j using xy by (simp add: mult.left_commute [of x] mult_left_mono power_mono)
    from mult_left_mono [OF this nonneg [of n]] show ?thesis by (simp add: algebra_simps)
  qed
  ultimately have "suminf ?f \<le> ?f 0" by (intro suminf_le_single) (auto simp: sums_iff)
  then show ?thesis using s by (simp add: sums_iff algebra_simps)
qed

end

lemma clamp_above: "r \<le> v \<Longrightarrow> r \<le> 1 / 2 \<Longrightarrow> r \<le> max 0 (min (1 / 2) v)" for r v :: real
  by linarith

lemma clamp_range: "0 \<le> max 0 (min (1 / 2) v) \<and> max 0 (min (1 / 2) v) \<le> 1 / 2" for v :: real
  by linarith

lemma half_mono: "v \<le> w \<Longrightarrow> 0 \<le> max (1 / 2 * (u + v)) 0 \<and> max (1 / 2 * (u + v)) 0 \<le> max 0 (1 / 2 * (u + w))" for u v w :: real
  by (simp add: max_def)

section \<open>The channel's yields\<close>

text \<open>The yield of an \<open>n\<close>-photon pulse and the probability that it is detected wrongly.\<close>

definition yield_n :: "'a decoy_params_scheme \<Rightarrow> nat \<Rightarrow> real" where
  "yield_n p n = dp_Y0 p + 1 - (1 - dp_etaTotal p) ^ n"

definition wrong_n :: "'a decoy_params_scheme \<Rightarrow> nat \<Rightarrow> real" where
  "wrong_n p n = dp_Y0 p / 2 + dp_eD p * (1 - (1 - dp_etaTotal p) ^ n)"

definition channel_ok :: "'a decoy_params_scheme \<Rightarrow> bool" where
  "channel_ok p \<longleftrightarrow> 0 \<le> dp_Y0 p \<and> 0 \<le> dp_etaTotal p \<and> dp_etaTotal p \<le> 1 \<and> 0 \<le> dp_eD p \<and> dp_eD p \<le> 1 / 2"

lemma exp_power_sums: "(\<lambda>n. c / fact n * x ^ n) sums (c * exp x)" for c x :: real
  using sums_mult [OF exp_converges [of x], of c] by (simp add: divide_inverse mult_ac)

lemma affine_series:
  fixes A B e x :: real
  shows "(\<lambda>n. (A + B * (1 - (1 - e) ^ n)) / fact n * x ^ n) sums (exp x * (A + B * (1 - exp (- e * x))))"
proof -
  have "(\<lambda>n. (A + B) / fact n * x ^ n - B / fact n * ((1 - e) * x) ^ n) sums ((A + B) * exp x - B * exp ((1 - e) * x))"
    by (intro sums_diff exp_power_sums)
  moreover have "exp ((1 - e) * x) = exp x * exp (- e * x)" by (simp add: algebra_simps flip: exp_add)
  moreover have "(\<lambda>n. (A + B) / fact n * x ^ n - B / fact n * ((1 - e) * x) ^ n) = (\<lambda>n. (A + B * (1 - (1 - e) ^ n)) / fact n * x ^ n)"
    by (rule ext) (simp only: power_mult_distrib, simp add: field_simps)
  ultimately show ?thesis by (simp add: algebra_simps)
qed

lemma qber_gain: "channel_ok p \<Longrightarrow> 0 \<le> k \<Longrightarrow> qberEmu (dp_Y0 p) (dp_etaTotal p) (dp_eD p) k * gainQmu (dp_Y0 p) (dp_etaTotal p) k
    = dp_Y0 p / 2 + dp_eD p * (1 - exp (- dp_etaTotal p * k))"
proof -
  assume ok: "channel_ok p" "0 \<le> k"
  then have e: "exp (- dp_etaTotal p * k) \<le> 1" "0 \<le> dp_Y0 p" by (simp_all add: channel_ok_def)
  show ?thesis
  proof (cases "gainQmu (dp_Y0 p) (dp_etaTotal p) k \<le> 0")
    case True
    then have "dp_Y0 p = 0" "exp (- dp_etaTotal p * k) = 1" using e unfolding gainQmu_def by linarith+
    then show ?thesis by (simp add: gainQmu_def)
  qed (simp add: qberEmu_def)
qed

locale channel =
  fixes p :: decoy_params
  assumes ok: "channel_ok p" and valid: "eq13 p"
begin

lemma ordered: "0 \<le> dp_nu2 p" "dp_nu2 p < dp_nu1 p" "dp_nu1 p + dp_nu2 p < dp_mu p" "0 < dp_mu p" "0 < dp_nu1 p" "dp_nu1 p < dp_mu p"
  using valid by (auto simp: eq13_def)

lemma denom_factored: "decoy_denom p = (dp_nu1 p - dp_nu2 p) * (dp_mu p - dp_nu1 p - dp_nu2 p)"
  by (simp add: decoy_denom_def algebra_simps)

lemma denom_pos: "0 < decoy_denom p"
  unfolding denom_factored using ordered by simp

end

sublocale channel \<subseteq> yields: photon_series "\<lambda>n. yield_n p n / fact n" "dp_mu p"
proof
  have "(1 - dp_etaTotal p) ^ n \<le> 1" for n using ok by (intro power_le_one) (auto simp: channel_ok_def)
  then have "0 \<le> yield_n p n" for n using ok add_mono [of 0 "dp_Y0 p" "(1 - dp_etaTotal p) ^ n" 1] by (simp add: yield_n_def channel_ok_def)
  then show "0 \<le> yield_n p n / fact n" for n by simp
  show "0 \<le> dp_mu p" using ordered by simp
  show "summable (\<lambda>n. yield_n p n / fact n * dp_mu p ^ n)"
    using affine_series [of "dp_Y0 p" 1 "dp_etaTotal p" "dp_mu p"] by (simp add: yield_n_def sums_iff add_diff_eq)
qed

sublocale channel \<subseteq> wrongs: photon_series "\<lambda>n. wrong_n p n / fact n" "dp_mu p"
proof
  have "(1 - dp_etaTotal p) ^ n \<le> 1" for n using ok by (intro power_le_one) (auto simp: channel_ok_def)
  then show "0 \<le> wrong_n p n / fact n" for n using ok by (auto simp: wrong_n_def channel_ok_def)
  show "0 \<le> dp_mu p" using ordered by simp
  show "summable (\<lambda>n. wrong_n p n / fact n * dp_mu p ^ n)"
    using affine_series [of "dp_Y0 p / 2" "dp_eD p" "dp_etaTotal p" "dp_mu p"] by (simp add: wrong_n_def sums_iff)
qed

lemma gain_series: "power_sum (\<lambda>n. yield_n p n / fact n) k = exp k * gainQmu (dp_Y0 p) (dp_etaTotal p) k"
  using affine_series [of "dp_Y0 p" 1 "dp_etaTotal p" k] by (simp add: power_sum_def yield_n_def gainQmu_def sums_iff algebra_simps)

lemma wrong_series: "power_sum (\<lambda>n. wrong_n p n / fact n) k = exp k * (dp_Y0 p / 2 + dp_eD p * (1 - exp (- dp_etaTotal p * k)))"
  using affine_series [of "dp_Y0 p / 2" "dp_eD p" "dp_etaTotal p" k] by (simp add: power_sum_def wrong_n_def sums_iff)

lemma decoy_gain: "0 \<le> nu2 \<Longrightarrow> (if nu2 > 0 then gainQmu Y0 eta nu2 else Y0) = gainQmu Y0 eta nu2" for nu2 :: real
  by (cases "nu2 = 0") (auto simp: gainQmu_def)

lemma yield_1: "yield_n p 1 = dp_Y0 p + dp_etaTotal p" and wrong_1: "wrong_n p 1 = dp_Y0 p / 2 + dp_eD p * dp_etaTotal p"
  by (simp_all add: yield_n_def wrong_n_def)

context channel begin

lemma yield_bound_sound: "yield_bound p \<le> yield_n p 1"
proof -
  let ?x = "dp_nu1 p" and ?y = "dp_nu2 p" and ?m = "dp_mu p"
  have "yield_bound p = ?m / decoy_denom p * (power_sum (\<lambda>n. yield_n p n / fact n) ?x - power_sum (\<lambda>n. yield_n p n / fact n) ?y
      - (?x\<^sup>2 - ?y\<^sup>2) / ?m\<^sup>2 * (power_sum (\<lambda>n. yield_n p n / fact n) ?m - yield_n p 0 / fact 0))"
    unfolding yield_bound_def Let_def decoy_gain [OF ordered(1)] gain_series
    by (simp add: yield_n_def power2_eq_square mult.commute)
  also have "\<dots> \<le> ?m / decoy_denom p * (yield_n p 1 / fact 1 * (?x - ?y - (?x\<^sup>2 - ?y\<^sup>2) / ?m))"
    using denom_pos ordered by (intro mult_left_mono yields.two_decoy) auto
  also have "?x - ?y - (?x\<^sup>2 - ?y\<^sup>2) / ?m = decoy_denom p / ?m"
    using ordered(4) by (simp add: decoy_denom_def field_simps power2_eq_square)
  finally show ?thesis using denom_pos ordered(4) by simp
qed

lemma error_bound_sound:
  assumes Y: "0 < Y" "Y \<le> yield_n p 1"
  shows "wrong_n p 1 / yield_n p 1 \<le> error_bound p Y" "0 \<le> error_bound p Y" "error_bound p Y \<le> 1 / 2"
proof -
  let ?x = "dp_nu1 p" and ?y = "dp_nu2 p"
  have qg: "qberEmu (dp_Y0 p) (dp_etaTotal p) (dp_eD p) k * gainQmu (dp_Y0 p) (dp_etaTotal p) k * exp k
      = power_sum (\<lambda>n. wrong_n p n / fact n) k" if "0 \<le> k" for k
    unfolding wrong_series using qber_gain [OF ok that] by (simp add: mult.commute)
  have e: "error_bound p Y = max 0 (min (1 / 2) ((power_sum (\<lambda>n. wrong_n p n / fact n) ?x - power_sum (\<lambda>n. wrong_n p n / fact n) ?y) / ((?x - ?y) * Y)))"
  proof (cases "?y > 0")
    case True
    then show ?thesis unfolding error_bound_def Let_def using ordered by (simp add: qg)
  next
    case False
    then have z: "?y = 0" using ordered by simp
    then have w: "power_sum (\<lambda>n. wrong_n p n / fact n) ?y = dp_Y0 p / 2" by (simp add: wrong_series)
    show ?thesis unfolding error_bound_def Let_def qg [OF less_imp_le [OF ordered(5)]] w unfolding z by (simp add: mult.commute)
  qed
  have "wrong_n p 1 / yield_n p 1 \<le> wrong_n p 1 / Y"
    using Y wrongs.nonneg [of 1] by (intro divide_left_mono) auto
  also have "\<dots> = wrong_n p 1 / fact 1 * (?x - ?y) / ((?x - ?y) * Y)" using ordered by simp
  also have "\<dots> \<le> (power_sum (\<lambda>n. wrong_n p n / fact n) ?x - power_sum (\<lambda>n. wrong_n p n / fact n) ?y) / ((?x - ?y) * Y)"
    using ordered Y by (intro divide_right_mono wrongs.difference) auto
  finally have le: "wrong_n p 1 / yield_n p 1 \<le> (power_sum (\<lambda>n. wrong_n p n / fact n) ?x - power_sum (\<lambda>n. wrong_n p n / fact n) ?y) / ((?x - ?y) * Y)" .
  have "dp_eD p * dp_etaTotal p \<le> 1 / 2 * dp_etaTotal p" using ok by (intro mult_right_mono) (auto simp: channel_ok_def)
  then have "wrong_n p 1 \<le> 1 / 2 * yield_n p 1" unfolding yield_1 wrong_1 by simp
  then have "wrong_n p 1 / yield_n p 1 \<le> 1 / 2" using Y by (simp add: field_simps)
  with le show "wrong_n p 1 / yield_n p 1 \<le> error_bound p Y" unfolding e by (rule clamp_above)
  show "0 \<le> error_bound p Y" "error_bound p Y \<le> 1 / 2" unfolding e using clamp_range by blast+
qed

end

section \<open>The binary entropy\<close>

lemma H2_derivative: "0 < x \<Longrightarrow> x < 1 \<Longrightarrow> ((\<lambda>x. - x * log 2 x - (1 - x) * log 2 (1 - x)) has_real_derivative log 2 ((1 - x) / x)) (at x)"
proof -
  assume x: "0 < x" "x < 1"
  have "((\<lambda>x. x * ln x) has_real_derivative ln x + 1) (at x)" "((\<lambda>x. (1 - x) * ln (1 - x)) has_real_derivative - ln (1 - x) - 1) (at x)"
    using x by (auto intro!: derivative_eq_intros)
  from DERIV_cdivide [OF DERIV_minus [OF DERIV_add [OF this]], of "ln 2"]
  have "((\<lambda>x. - (x * ln x + (1 - x) * ln (1 - x)) / ln 2) has_real_derivative (ln (1 - x) - ln x) / ln 2) (at x)" by simp
  moreover have "(\<lambda>x :: real. - (x * ln x + (1 - x) * ln (1 - x)) / ln 2) = (\<lambda>x. - x * log 2 x - (1 - x) * log 2 (1 - x))"
    by (rule ext) (simp add: log_def field_simps)
  moreover have "(ln (1 - x) - ln x) / ln 2 = log 2 ((1 - x) / x)" using x by (simp add: log_def ln_div)
  ultimately show ?thesis by simp
qed

lemma H2_nonneg: "0 \<le> H2 x"
proof (cases "0 < x \<and> x < 1")
  case True
  then have "x * log 2 x \<le> 0" "(1 - x) * log 2 (1 - x) \<le> 0" by (auto intro!: mult_nonneg_nonpos)
  then show ?thesis using True by (simp add: H2_def)
qed (auto simp: H2_def)

lemma H2_mono: "0 \<le> x \<Longrightarrow> x \<le> y \<Longrightarrow> y \<le> 1 / 2 \<Longrightarrow> H2 x \<le> H2 y"
proof (cases "x = 0")
  case False
  assume "0 \<le> x" and xy: "x \<le> y" "y \<le> 1 / 2"
  with False have x: "0 < x" by simp
  have "(\<lambda>x. - x * log 2 x - (1 - x) * log 2 (1 - x)) x \<le> (\<lambda>x. - x * log 2 x - (1 - x) * log 2 (1 - x)) y"
  proof (rule DERIV_nonneg_imp_nondecreasing [OF xy(1)])
    fix z assume z: "x \<le> z" "z \<le> y"
    then have "1 \<le> (1 - z) / z" using x xy by simp
    then have "0 \<le> log 2 ((1 - z) / z)" by simp
    then show "\<exists>d. ((\<lambda>x. - x * log 2 x - (1 - x) * log 2 (1 - x)) has_real_derivative d) (at z) \<and> 0 \<le> d"
      using H2_derivative [of z] z x xy by auto
  qed
  then show ?thesis using x xy by (simp add: H2_def)
next
  case True
  then show ?thesis using H2_nonneg [of y] by (simp add: H2_def [of 0])
qed

lemma H2_le_1: "H2 x \<le> 1"
proof -
  have half: "H2 (1 / 2) = 1" by (simp add: H2_def log_divide)
  have low: "H2 y \<le> 1" if "y \<le> 1 / 2" for y
    using H2_mono [of y "1 / 2"] that half by (cases "0 \<le> y") (auto simp: H2_def)
  show ?thesis
  proof (cases "x \<le> 1 / 2")
    case False
    have "H2 x = H2 (1 - x)" by (simp add: H2_def algebra_simps)
    then show ?thesis using low [of "1 - x"] False by simp
  qed (rule low)
qed

section \<open>The asymptotic rate\<close>

text \<open>The rate with the yield and error rate of the channel's own single photons in place of the bounds on them.\<close>

definition gllp_rate :: "decoy_params \<Rightarrow> real" where
  "gllp_rate p = max 0 (1 / 2 * (- gainQmu (dp_Y0 p) (dp_etaTotal p) (dp_mu p) * dp_fEC p * H2 (qberEmu (dp_Y0 p) (dp_etaTotal p) (dp_eD p) (dp_mu p))
     + dp_mu p * exp (- dp_mu p) * yield_n p 1 * (1 - H2 (wrong_n p 1 / yield_n p 1))))"

lemma asymptotic_cases:
  "asymptoticSkrPerPulse p = 0 \<or> eq13 p \<and> 0 < yield_bound p \<and> asymptoticSkrPerPulse p =
     max (1 / 2 * (- gainQmu (dp_Y0 p) (dp_etaTotal p) (dp_mu p) * dp_fEC p * H2 (qberEmu (dp_Y0 p) (dp_etaTotal p) (dp_eD p) (dp_mu p))
       + dp_mu p * exp (- dp_mu p) * yield_bound p * (1 - H2 (error_bound p (yield_bound p))))) 0"
  by (auto simp: asymptoticSkrPerPulse_def Let_def max_def [of _ "0 :: real"])

context channel begin

lemma rate_below_gllp:
  assumes "0 < yield_bound p"
  shows "dp_mu p * exp (- dp_mu p) * yield_bound p * (1 - H2 (error_bound p (yield_bound p)))
    \<le> dp_mu p * exp (- dp_mu p) * yield_n p 1 * (1 - H2 (wrong_n p 1 / yield_n p 1))"
proof -
  have "0 \<le> wrong_n p 1 / yield_n p 1" using yields.nonneg [of 1] wrongs.nonneg [of 1] by simp
  then have "H2 (wrong_n p 1 / yield_n p 1) \<le> H2 (error_bound p (yield_bound p))"
    using error_bound_sound [OF assms yield_bound_sound] by (intro H2_mono)
  then show ?thesis using yield_bound_sound assms ordered(4) H2_le_1 by (intro mult_mono) auto
qed

end

text \<open>
  C25. The asymptotic rate never promises more than the channel gives. For every channel of the model and every
  choice of intensities, the rate computed from the decoy bounds lies between 0 and the rate that the channel's
  own single-photon yield and error rate give: the yield bound is below the yield of a single photon, the error
  bound above its error rate, and outside the validity condition of the bounds the rate is 0.
\<close>

theorem asymptotic_rate_sound:
  assumes "channel_ok p"
  shows "0 \<le> asymptoticSkrPerPulse p \<and> asymptoticSkrPerPulse p \<le> gllp_rate p \<and> (\<not> eq13 p \<longrightarrow> asymptoticSkrPerPulse p = 0)"
proof (cases "asymptoticSkrPerPulse p = 0")
  case False
  then have c: "eq13 p" "0 < yield_bound p" and r: "asymptoticSkrPerPulse p =
     max (1 / 2 * (- gainQmu (dp_Y0 p) (dp_etaTotal p) (dp_mu p) * dp_fEC p * H2 (qberEmu (dp_Y0 p) (dp_etaTotal p) (dp_eD p) (dp_mu p))
       + dp_mu p * exp (- dp_mu p) * yield_bound p * (1 - H2 (error_bound p (yield_bound p))))) 0"
    using asymptotic_cases [of p] by auto
  have "channel p" using assms c(1) by unfold_locales
  from channel.rate_below_gllp [OF this c(2)] show ?thesis using c(1) half_mono unfolding r gllp_rate_def by blast
qed (simp add: gllp_rate_def)

text \<open>The bundled parameters describe such a channel, at the bundled length.\<close>

definition bundled_decoy :: decoy_params where
  "bundled_decoy = decoy_params.truncate (link_finite BUNDLED_PARAMS (Span_km (linkLengthKm BUNDLED_PARAMS)))"

lemma transmittance_bounds: "0 \<le> e \<Longrightarrow> 0 \<le> a * l \<Longrightarrow> 0 \<le> totalTransmittance e a l \<and> totalTransmittance e a l \<le> e"
proof -
  assume e: "0 \<le> e" "0 \<le> a * l"
  then have "10 powr ((- a * l) / 10) \<le> (10 :: real) powr 0" by (intro powr_mono) auto
  then show ?thesis using e mult_left_mono [of "10 powr ((- a * l) / 10)" 1 e] by (simp add: totalTransmittance_def)
qed

lemma bundled_channel_ok: "channel_ok bundled_decoy" "eq13 bundled_decoy"
  using transmittance_bounds [of "0.2" "0.2" 10]
  by (simp_all add: bundled_decoy_def decoy_params.truncate_def link_finite_def BUNDLED_PARAMS_def span_eta_def channel_ok_def eq13_def)

interpretation bundled: channel bundled_decoy
  by unfold_locales (rule bundled_channel_ok)+

theorem asymptotic_rate_sound_witness:
  "asymptoticSkrPerPulse bundled_decoy \<le> gllp_rate bundled_decoy"
  using asymptotic_rate_sound [OF bundled_channel_ok(1)] by simp

end
