(* ===== verification/Keyrate_Finite.thy ===== *)
theory Keyrate_Finite
  imports Keyrate_Bounds
begin

text \<open>
  The finite-key length against the photon numbers of an experiment: when the counts of the three intensities
  are within the Hoeffding deviation of what the photon numbers would give, the bounds on the vacuum and
  single-photon events hold, and so the key is never longer than those events allow.
\<close>

section \<open>Photon numbers\<close>

lemma photonNumberTau_three:
  "photonNumberTau n [m1, m2, m3] [p1, p2, p3] = (p1 * exp (- m1) * m1 ^ n + p2 * exp (- m2) * m2 ^ n + p3 * exp (- m3) * m3 ^ n) / fact n"
proof -
  have "foldl (\<lambda>f i. f * real i) 1 [2..<Suc n] = fact n"
  proof (induction n)
    case (Suc n)
    then show ?case by (cases n) (simp_all add: mult.commute)
  qed simp
  then show ?thesis by (simp add: photonNumberTau_def Let_def)
qed

text \<open>
  Events by photon number. An event of \<open>n\<close> photons had the \<open>i\<close>-th intensity with this probability, given by
  Bayes' rule, and \<open>expected_count\<close> is the number of events of that intensity it gives.
\<close>

definition intensity_given :: "real list \<Rightarrow> real list \<Rightarrow> nat \<Rightarrow> nat \<Rightarrow> real" where
  "intensity_given mus ps i n = ps ! i * exp (- (mus ! i)) * (mus ! i) ^ n / (fact n * photonNumberTau n mus ps)"

definition expected_count :: "real list \<Rightarrow> real list \<Rightarrow> nat \<Rightarrow> (nat \<Rightarrow> real) \<Rightarrow> real" where
  "expected_count mus ps i s = (\<Sum>n. s n * intensity_given mus ps i n)"

definition all_counts :: "real list \<Rightarrow> real" where
  "all_counts nK = nK ! 0 + nK ! 1 + nK ! 2"

text \<open>The events \<open>s\<close> make up the counts, and each count is within the deviation of its expectation.\<close>

definition counts_of :: "real list \<Rightarrow> real list \<Rightarrow> real list \<Rightarrow> real \<Rightarrow> (nat \<Rightarrow> real) \<Rightarrow> bool" where
  "counts_of mus ps nK eps s \<longleftrightarrow> (\<forall>n. 0 \<le> s n) \<and> s sums all_counts nK
     \<and> (\<forall>i < 3. \<bar>nK ! i - expected_count mus ps i s\<bar> \<le> hoeffdingDelta (all_counts nK) eps)"

text \<open>Three intensities in the order the bounds need, each of them sent.\<close>

definition intensities_ok :: "real list \<Rightarrow> real list \<Rightarrow> bool" where
  "intensities_ok mus ps \<longleftrightarrow> length mus = 3 \<and> length ps = 3 \<and> 0 \<le> mus ! 2 \<and> mus ! 2 < mus ! 1 \<and> mus ! 1 + mus ! 2 < mus ! 0
     \<and> 0 < ps ! 0 \<and> 0 < ps ! 1 \<and> 0 < ps ! 2"

lemma length_3: "length xs = 3 \<longleftrightarrow> xs = [xs ! 0, xs ! 1, xs ! 2]"
proof
  assume "length xs = 3"
  then obtain a b c where "xs = [a, b, c]" by (auto simp: length_Suc_conv numeral_3_eq_3)
  then show "xs = [xs ! 0, xs ! 1, xs ! 2]" by simp
next
  assume "xs = [xs ! 0, xs ! 1, xs ! 2]"
  then have "length xs = length [xs ! 0, xs ! 1, xs ! 2]" by simp
  then show "length xs = 3" by simp
qed

lemma tau_expand: "intensities_ok mus ps \<Longrightarrow> photonNumberTau n mus ps
    = (ps ! 0 * exp (- (mus ! 0)) * (mus ! 0) ^ n + ps ! 1 * exp (- (mus ! 1)) * (mus ! 1) ^ n + ps ! 2 * exp (- (mus ! 2)) * (mus ! 2) ^ n) / fact n"
proof -
  assume "intensities_ok mus ps"
  then have e: "mus = [mus ! 0, mus ! 1, mus ! 2]" "ps = [ps ! 0, ps ! 1, ps ! 2]" unfolding intensities_ok_def length_3 by blast+
  show ?thesis by (subst e(1), subst e(2)) (simp add: photonNumberTau_three)
qed

text \<open>The series whose value at an intensity is the scaled expected count of that intensity.\<close>

definition photon_coeff :: "real list \<Rightarrow> real list \<Rightarrow> (nat \<Rightarrow> real) \<Rightarrow> nat \<Rightarrow> real" where
  "photon_coeff mus ps s n = s n / (fact n * photonNumberTau n mus ps)"

lemma less_3: "i < 3 \<longleftrightarrow> i = 0 \<or> i = 1 \<or> i = (2 :: nat)"
  by auto

locale intensities =
  fixes mus ps :: "real list"
  assumes intensities: "intensities_ok mus ps"
begin

lemma order: "0 \<le> mus ! 2" "mus ! 2 < mus ! 1" "mus ! 1 + mus ! 2 < mus ! 0" "0 < mus ! 0" "0 < mus ! 1" "mus ! 1 < mus ! 0" "mus ! 2 < mus ! 0"
  using intensities by (auto simp: intensities_ok_def)

lemma probs: "0 < ps ! 0" "0 < ps ! 1" "0 < ps ! 2"
  using intensities by (auto simp: intensities_ok_def)

lemma tau_ge: "ps ! 0 * exp (- (mus ! 0)) * (mus ! 0) ^ n \<le> fact n * photonNumberTau n mus ps"
  unfolding tau_expand [OF intensities] using order probs by simp

lemma tau_pos: "0 < photonNumberTau n mus ps"
proof -
  have "0 < ps ! 0 * exp (- (mus ! 0)) * (mus ! 0) ^ n" using probs order by simp
  then have "0 < fact n * photonNumberTau n mus ps" using tau_ge [of n] by linarith
  then show ?thesis by (simp add: zero_less_mult_iff)
qed

lemma given_sum: "intensity_given mus ps 0 n + intensity_given mus ps 1 n + intensity_given mus ps 2 n = 1"
proof -
  have "ps ! 0 * exp (- (mus ! 0)) * (mus ! 0) ^ n + ps ! 1 * exp (- (mus ! 1)) * (mus ! 1) ^ n + ps ! 2 * exp (- (mus ! 2)) * (mus ! 2) ^ n
      = fact n * photonNumberTau n mus ps" unfolding tau_expand [OF intensities] by simp
  then show ?thesis using tau_pos [of n] unfolding intensity_given_def by (simp only: flip: add_divide_distrib) simp
qed

lemma given_nonneg: "i < 3 \<Longrightarrow> 0 \<le> intensity_given mus ps i n"
  unfolding less_3 using tau_pos [of n] probs order by (auto simp: intensity_given_def)

lemma given_le_1: "i < 3 \<Longrightarrow> intensity_given mus ps i n \<le> 1"
  unfolding less_3 using given_sum [of n] given_nonneg [of 0 n] given_nonneg [of 1 n] given_nonneg [of 2 n] by fastforce

lemma prob_pos: "i < 3 \<Longrightarrow> 0 < ps ! i"
  unfolding less_3 using probs by auto

end

locale photon_events = intensities +
  fixes s :: "nat \<Rightarrow> real"
  assumes events: "0 \<le> s n" and events_summable: "summable s"
begin

lemma count_sums: "i < 3 \<Longrightarrow> (\<lambda>n. s n * intensity_given mus ps i n) sums expected_count mus ps i s"
  unfolding expected_count_def using events given_nonneg given_le_1
  by (intro summable_sums summable_comparison_test' [OF events_summable, of 0]) (simp add: abs_mult mult_left_le)

lemma count_range: "i < 3 \<Longrightarrow> 0 \<le> expected_count mus ps i s \<and> expected_count mus ps i s \<le> suminf s"
proof -
  assume i: "i < 3"
  have "expected_count mus ps i s \<le> suminf s"
    unfolding expected_count_def using count_sums [OF i] events given_le_1 [OF i]
    by (intro suminf_le events_summable) (auto simp: sums_iff mult_left_le)
  moreover have "0 \<le> expected_count mus ps i s"
    unfolding expected_count_def using count_sums [OF i] events given_nonneg [OF i] by (intro suminf_nonneg) (auto simp: sums_iff)
  ultimately show ?thesis by simp
qed

lemma given_term: "s n * intensity_given mus ps i n = ps ! i * exp (- (mus ! i)) * (photon_coeff mus ps s n * (mus ! i) ^ n)"
  by (simp add: intensity_given_def photon_coeff_def)

lemma expected_series: "i < 3 \<Longrightarrow> exp (mus ! i) / ps ! i * expected_count mus ps i s = power_sum (photon_coeff mus ps s) (mus ! i)"
proof -
  assume i: "i < 3"
  have "(\<lambda>n. exp (mus ! i) / ps ! i * (s n * intensity_given mus ps i n)) sums (exp (mus ! i) / ps ! i * expected_count mus ps i s)"
    by (intro sums_mult count_sums i)
  moreover have "exp (mus ! i) / ps ! i * (s n * intensity_given mus ps i n) = photon_coeff mus ps s n * (mus ! i) ^ n" for n
    unfolding given_term using prob_pos [OF i] by (simp add: exp_minus)
  ultimately show ?thesis by (simp add: power_sum_def sums_iff)
qed

lemma coeff_at: "photon_coeff mus ps s 0 = s 0 / photonNumberTau 0 mus ps" "photonNumberTau 1 mus ps * photon_coeff mus ps s 1 = s 1"
  using tau_pos [of 1] by (simp_all add: photon_coeff_def)

end

sublocale photon_events \<subseteq> series: photon_series "photon_coeff mus ps s" "mus ! 0"
proof
  show "0 \<le> photon_coeff mus ps s n" for n using events [of n] tau_pos [of n] by (simp add: photon_coeff_def)
  show "0 \<le> mus ! 0" using order by simp
  have "summable (\<lambda>n. exp (mus ! 0) / ps ! 0 * (s n * intensity_given mus ps 0 n))"
    using count_sums [of 0] by (intro summable_mult) (simp add: sums_iff)
  moreover have "(\<lambda>n. exp (mus ! 0) / ps ! 0 * (s n * intensity_given mus ps 0 n)) = (\<lambda>n. photon_coeff mus ps s n * (mus ! 0) ^ n)"
    unfolding given_term using prob_pos [of 0] by (simp add: exp_minus mult.assoc [symmetric])
  ultimately show "summable (\<lambda>n. photon_coeff mus ps s n * (mus ! 0) ^ n)" by (simp only:)
qed

section \<open>The bounds\<close>

context photon_events begin

lemma bracket_sound:
  assumes "s sums nTot" "i < 3" "\<bar>nK - expected_count mus ps i s\<bar> \<le> dev"
  shows "br_minus (bracketed nK nTot (mus ! i) (ps ! i) dev) \<le> power_sum (photon_coeff mus ps s) (mus ! i)"
    and "power_sum (photon_coeff mus ps s) (mus ! i) \<le> br_plus (bracketed nK nTot (mus ! i) (ps ! i) dev)"
proof -
  let ?e = "expected_count mus ps i s"
  have "0 \<le> ?e" "?e \<le> nTot" using count_range [OF assms(2)] assms(1) by (auto simp: sums_iff)
  then have "min (max (nK - dev) 0) nTot \<le> ?e" "?e \<le> min (max (nK + dev) 0) nTot" using assms(3) by auto
  moreover have "0 \<le> exp (mus ! i) / ps ! i" using prob_pos [OF assms(2)] by simp
  ultimately have "exp (mus ! i) / ps ! i * min (max (nK - dev) 0) nTot \<le> exp (mus ! i) / ps ! i * ?e"
    "exp (mus ! i) / ps ! i * ?e \<le> exp (mus ! i) / ps ! i * min (max (nK + dev) 0) nTot"
    by (auto simp only: mult_left_mono)
  then show "br_minus (bracketed nK nTot (mus ! i) (ps ! i) dev) \<le> power_sum (photon_coeff mus ps s) (mus ! i)"
    "power_sum (photon_coeff mus ps s) (mus ! i) \<le> br_plus (bracketed nK nTot (mus ! i) (ps ! i) dev)"
    unfolding expected_series [OF assms(2)] bracketed_def Let_def by simp_all
qed

lemma counts_brackets:
  assumes "counts_of mus ps nK eps s" "i < 3"
  shows "br_minus (bracketed (nK ! i) (all_counts nK) (mus ! i) (ps ! i) (hoeffdingDelta (all_counts nK) eps)) \<le> power_sum (photon_coeff mus ps s) (mus ! i)"
    and "power_sum (photon_coeff mus ps s) (mus ! i) \<le> br_plus (bracketed (nK ! i) (all_counts nK) (mus ! i) (ps ! i) (hoeffdingDelta (all_counts nK) eps))"
  using bracket_sound [of "all_counts nK" i "nK ! i" "hoeffdingDelta (all_counts nK) eps"] assms by (auto simp: counts_of_def)

lemma s0s1_sound:
  assumes "counts_of mus ps nK eps s"
  shows "sb_s0 (s0s1 nK mus ps eps (photonNumberTau 0 mus ps) (photonNumberTau 1 mus ps)) \<le> s 0"
    and "sb_s1 (s0s1 nK mus ps eps (photonNumberTau 0 mus ps) (photonNumberTau 1 mus ps)) \<le> s 1"
proof -
  let ?P = "power_sum (photon_coeff mus ps s)" and ?t0 = "photonNumberTau 0 mus ps" and ?t1 = "photonNumberTau 1 mus ps"
  let ?b = "\<lambda>i. bracketed (nK ! i) (all_counts nK) (mus ! i) (ps ! i) (hoeffdingDelta (all_counts nK) eps)"
  let ?m1 = "mus ! 0" and ?m2 = "mus ! 1" and ?m3 = "mus ! 2"
  let ?den = "?m1 * (?m2 - ?m3) - ?m2 * ?m2 + ?m3 * ?m3"
  define s0 where "s0 = min (max ((?t0 * (?m2 * br_minus (?b 2) - ?m3 * br_plus (?b 1))) / (?m2 - ?m3)) 0) (all_counts nK)"
  have b: "br_minus (?b i) \<le> ?P (mus ! i)" "?P (mus ! i) \<le> br_plus (?b i)" if "i < 3" for i
    using counts_brackets [OF assms that] by auto
  have "?m2 * br_minus (?b 2) - ?m3 * br_plus (?b 1) \<le> ?m2 * ?P ?m3 - ?m3 * ?P ?m2"
    using b(1) [of 2] b(2) [of 1] order by (intro diff_mono mult_left_mono) auto
  also have "\<dots> \<le> photon_coeff mus ps s 0 * (?m2 - ?m3)" using order by (intro series.vacuum) auto
  finally have "?t0 * (?m2 * br_minus (?b 2) - ?m3 * br_plus (?b 1)) \<le> ?t0 * (photon_coeff mus ps s 0 * (?m2 - ?m3))"
    using tau_pos [of 0] by (intro mult_left_mono) auto
  then have "(?t0 * (?m2 * br_minus (?b 2) - ?m3 * br_plus (?b 1))) / (?m2 - ?m3) \<le> s 0"
    using order tau_pos [of 0] by (simp add: coeff_at pos_divide_le_eq)
  then have s0: "s0 \<le> s 0" using events [of 0] by (simp add: s0_def)
  show "sb_s0 (s0s1 nK mus ps eps ?t0 ?t1) \<le> s 0"
    using s0 by (simp add: s0s1_def Let_def s0_def all_counts_def)
  have den: "?den = (?m2 - ?m3) * (?m1 - ?m2 - ?m3)" by (simp add: algebra_simps)
  then have dpos: "0 < ?den" using order by simp
  let ?r = "(?m2\<^sup>2 - ?m3\<^sup>2) / ?m1\<^sup>2"
  have r: "0 \<le> ?r" using order by (auto simp: power_mono)
  have "br_minus (?b 1) - br_plus (?b 2) - ?r * (br_plus (?b 0) - s0 / ?t0) \<le> ?P ?m2 - ?P ?m3 - ?r * (?P ?m1 - s0 / ?t0)"
    using b(1) [of 1] b(2) [of 2] b(2) [of 0] r by (intro diff_mono mult_left_mono) auto
  also have "\<dots> \<le> photon_coeff mus ps s 1 * (?m2 - ?m3 - (?m2\<^sup>2 - ?m3\<^sup>2) / ?m1)"
    using order s0 tau_pos [of 0] by (intro series.two_decoy) (auto simp: coeff_at divide_right_mono)
  also have "?m2 - ?m3 - (?m2\<^sup>2 - ?m3\<^sup>2) / ?m1 = ?den / ?m1"
    using order(4) by (simp add: field_simps power2_eq_square)
  finally have "?t1 * ?m1 * (br_minus (?b 1) - br_plus (?b 2) - ?r * (br_plus (?b 0) - s0 / ?t0)) / ?den
      \<le> ?t1 * ?m1 * (photon_coeff mus ps s 1 * (?den / ?m1)) / ?den"
    using order(4) dpos tau_pos [of 1] by (intro divide_right_mono mult_left_mono) auto
  also have "\<dots> = s 1" using order(4) dpos coeff_at(2) by (simp add: mult_ac)
  finally have s1: "?t1 * ?m1 * (br_minus (?b 1) - br_plus (?b 2) - ?r * (br_plus (?b 0) - s0 / ?t0)) / ?den \<le> s 1" .
  have "sb_s1 (s0s1 nK mus ps eps ?t0 ?t1)
      = min (max (?t1 * ?m1 * (br_minus (?b 1) - br_plus (?b 2) - ?r * (br_plus (?b 0) - s0 / ?t0)) / ?den) 0) (all_counts nK)"
    using dpos by (simp add: s0s1_def Let_def s0_def all_counts_def power2_eq_square)
  then show "sb_s1 (s0s1 nK mus ps eps ?t0 ?t1) \<le> s 1" using s1 events [of 1] by simp
qed

lemma v1_sound:
  assumes "counts_of mus ps nK eps s"
  shows "s 1 \<le> v1 nK mus ps eps (photonNumberTau 1 mus ps)"
proof -
  let ?P = "power_sum (photon_coeff mus ps s)" and ?t1 = "photonNumberTau 1 mus ps"
  let ?b = "\<lambda>i. bracketed (nK ! i) (all_counts nK) (mus ! i) (ps ! i) (hoeffdingDelta (all_counts nK) eps)"
  let ?m2 = "mus ! 1" and ?m3 = "mus ! 2"
  have "photon_coeff mus ps s 1 * (?m2 - ?m3) \<le> ?P ?m2 - ?P ?m3" using order by (intro series.difference) auto
  also have "\<dots> \<le> br_plus (?b 1) - br_minus (?b 2)"
    using counts_brackets(2) [OF assms, of 1] counts_brackets(1) [OF assms, of 2] by simp
  finally have "?t1 * (photon_coeff mus ps s 1 * (?m2 - ?m3)) \<le> ?t1 * (br_plus (?b 1) - br_minus (?b 2))"
    using tau_pos [of 1] by (intro mult_left_mono) auto
  then have "s 1 * (?m2 - ?m3) \<le> ?t1 * (br_plus (?b 1) - br_minus (?b 2))" by (simp only: coeff_at(2) flip: mult.assoc)
  then have "s 1 \<le> ?t1 * (br_plus (?b 1) - br_minus (?b 2)) / (?m2 - ?m3)" using order by (simp add: pos_le_divide_eq)
  then show ?thesis by (simp add: v1_def Let_def all_counts_def)
qed

end

lemma counts_of_events: "intensities_ok mus ps \<Longrightarrow> counts_of mus ps nK eps s \<Longrightarrow> photon_events mus ps s"
  by unfold_locales (auto simp: counts_of_def sums_iff)

lemma samplingGamma_nonneg: "0 \<le> samplingGamma e b c d"
proof -
  have "0 \<le> sqrt ((c + d) * (1 - b) * b / (c * d * ln 2) * log 2 x)" if "0 < c" "0 < d" "0 < b" "b < 1" "1 < x" for x
    using that by (intro real_sqrt_ge_zero mult_nonneg_nonneg divide_nonneg_nonneg) auto
  then show ?thesis unfolding samplingGamma_def Let_def by (auto simp del: times_divide_eq_left times_divide_eq_right real_sqrt_ge_0_iff)
qed

lemma s0s1_nonneg: "0 \<le> all_counts nK \<Longrightarrow> 0 \<le> sb_s0 (s0s1 nK mus ps eps t0 t1) \<and> 0 \<le> sb_s1 (s0s1 nK mus ps eps t0 t1)"
  by (simp add: s0s1_def Let_def all_counts_def)

lemma counts_total: "counts_of mus ps nK eps s \<Longrightarrow> 0 \<le> all_counts nK"
  using suminf_nonneg [of s] by (auto simp: counts_of_def sums_iff)

lemma phase_error_sound:
  fixes v z z' e g :: real
  assumes "0 < z" "0 \<le> e" "z \<le> z'" "e \<le> v" "0 \<le> g"
  shows "min (1 / 2) (e / z') \<le> min (1 / 2) (min v z / z + g)"
proof (cases "v \<le> z")
  case True
  have "e / z' \<le> v / z" using assms by (intro frac_le) auto
  moreover have "min v z / z + g = v / z + g" using True by (simp add: min_absorb1)
  ultimately show ?thesis using assms(5) min.cobounded1 [of "1 / 2" "e / z'"] by (simp only: min.boundedI add_increasing2 min.coboundedI2)
next
  case False
  then have "min v z / z = 1" using assms by simp
  then show ?thesis using assms(5) min.cobounded1 [of "1 / 2" "e / z'"] by linarith
qed

section \<open>The key length\<close>

lemma half_literal: "0.5 = (1 / 2 :: real)"
  by simp

lemma limKeyLength_fields:
  fixes p defines "bd nK \<equiv> s0s1 nK (lp_mus p) (lp_ps p) (lp_epsSec p / LIM_EPS_DIVISOR) (photonNumberTau 0 (lp_mus p) (lp_ps p)) (photonNumberTau 1 (lp_mus p) (lp_ps p))"
    and "v \<equiv> v1 (lc_mZk p) (lp_mus p) (lp_ps p) (lp_epsSec p / LIM_EPS_DIVISOR) (photonNumberTau 1 (lp_mus p) (lp_ps p))"
  shows "lr_sX0 (limKeyLength p) = sb_s0 (bd (lc_nXk p))" "lr_sX1 (limKeyLength p) = sb_s1 (bd (lc_nXk p))"
    "lr_sZ1 (limKeyLength p) = sb_s1 (bd (lc_nZk p))"
    "lr_phiX (limKeyLength p) = (if sb_s1 (bd (lc_nZk p)) > 0 \<and> sb_s1 (bd (lc_nXk p)) > 0
      then min (1 / 2) (min v (sb_s1 (bd (lc_nZk p))) / sb_s1 (bd (lc_nZk p)) + samplingGamma (lp_epsSec p)
        (min v (sb_s1 (bd (lc_nZk p))) / sb_s1 (bd (lc_nZk p))) (sb_s1 (bd (lc_nZk p))) (sb_s1 (bd (lc_nXk p)))) else 1 / 2)"
  unfolding bd_def v_def limKeyLength_def Let_def lim_result.simps by (simp_all only: half_literal)

lemma limKeyLength_ell: "lr_ell (limKeyLength p) = max 0 (lr_sX0 (limKeyLength p)
    + lr_sX1 (limKeyLength p) * (1 - H2 (lr_phiX (limKeyLength p))) - lr_leakEC (limKeyLength p) - lr_penalty (limKeyLength p))"
  unfolding limKeyLength_def Let_def lim_result.simps by (rule refl)

text \<open>The length that the vacuum and single-photon events themselves allow, with their own phase error rate.\<close>

definition events_key_length :: "(nat \<Rightarrow> real) \<Rightarrow> real \<Rightarrow> lim_result \<Rightarrow> real" where
  "events_key_length sX phi r = max 0 (sX 0 + sX 1 * (1 - H2 phi) - lr_leakEC r - lr_penalty r)"

text \<open>
  C26. The finite key is never longer than the events allow. Whatever photon numbers the detections of the two
  bases and the errors of the test basis really had, as long as the counts per intensity are within the
  Hoeffding deviation of what those numbers would give, the bounds of the analysis hold: it counts at most the
  vacuum and single-photon events there were, assumes at least their phase error rate, and so the key length is
  at most the one computed from the events themselves.
\<close>

theorem lim_key_length_sound:
  assumes "intensities_ok (lp_mus p) (lp_ps p)"
    and X: "counts_of (lp_mus p) (lp_ps p) (lc_nXk p) (lp_epsSec p / LIM_EPS_DIVISOR) sX"
    and Z: "counts_of (lp_mus p) (lp_ps p) (lc_nZk p) (lp_epsSec p / LIM_EPS_DIVISOR) sZ"
    and M: "counts_of (lp_mus p) (lp_ps p) (lc_mZk p) (lp_epsSec p / LIM_EPS_DIVISOR) eZ"
  shows "lr_sX0 (limKeyLength p) \<le> sX 0 \<and> lr_sX1 (limKeyLength p) \<le> sX 1 \<and> lr_sZ1 (limKeyLength p) \<le> sZ 1
    \<and> min (1 / 2) (eZ 1 / sZ 1) \<le> lr_phiX (limKeyLength p)
    \<and> lr_ell (limKeyLength p) \<le> events_key_length sX (min (1 / 2) (eZ 1 / sZ 1)) (limKeyLength p)"
proof -
  let ?r = "limKeyLength p" and ?phi = "min (1 / 2) (eZ 1 / sZ 1)"
  note ev = counts_of_events [OF assms(1)]
  have sx: "lr_sX0 ?r \<le> sX 0" "lr_sX1 ?r \<le> sX 1" and sz: "lr_sZ1 ?r \<le> sZ 1"
    using photon_events.s0s1_sound [OF ev [OF X] X] photon_events.s0s1_sound [OF ev [OF Z] Z] by (simp_all only: limKeyLength_fields)
  have nn: "0 \<le> lr_sX1 ?r" using s0s1_nonneg [OF counts_total [OF X]] by (simp only: limKeyLength_fields)
  let ?v = "v1 (lc_mZk p) (lp_mus p) (lp_ps p) (lp_epsSec p / LIM_EPS_DIVISOR) (photonNumberTau 1 (lp_mus p) (lp_ps p))"
  have v: "eZ 1 \<le> ?v" by (rule photon_events.v1_sound [OF ev [OF M] M])
  have e0: "0 \<le> eZ 1" using M by (simp add: counts_of_def)
  have phi_eq: "lr_phiX ?r = (if lr_sZ1 ?r > 0 \<and> lr_sX1 ?r > 0 then min (1 / 2) (min ?v (lr_sZ1 ?r) / lr_sZ1 ?r
      + samplingGamma (lp_epsSec p) (min ?v (lr_sZ1 ?r) / lr_sZ1 ?r) (lr_sZ1 ?r) (lr_sX1 ?r)) else 1 / 2)"
    by (simp only: limKeyLength_fields)
  have phi: "?phi \<le> lr_phiX ?r"
    unfolding phi_eq using phase_error_sound [OF _ e0 sz v samplingGamma_nonneg] min.cobounded1 [of "1 / 2"] by (simp only: split: if_split) blast
  have half: "lr_phiX ?r \<le> 1 / 2"
    unfolding phi_eq by (simp only: min.cobounded1 order_refl split: if_split) blast
  have "0 \<le> ?phi" using e0 Z by (simp add: counts_of_def)
  then have "H2 ?phi \<le> H2 (lr_phiX ?r)" using phi half by (intro H2_mono)
  then have "lr_sX1 ?r * (1 - H2 (lr_phiX ?r)) \<le> sX 1 * (1 - H2 ?phi)"
    using sx(2) nn H2_le_1 by (intro mult_mono) auto
  moreover have "lr_ell ?r = max 0 (lr_sX0 ?r + lr_sX1 ?r * (1 - H2 (lr_phiX ?r)) - lr_leakEC ?r - lr_penalty ?r)"
    by (rule limKeyLength_ell)
  ultimately have "lr_ell ?r \<le> events_key_length sX ?phi ?r" using sx(1) unfolding events_key_length_def by linarith
  with sx sz phi show ?thesis by blast
qed

section \<open>The counts the code expects\<close>

text \<open>The counts of the channel model are the expectations of these photon numbers.\<close>

lemma affine_counts:
  assumes ok: "intensities_ok mus ps" and nn: "\<And>n. 0 \<le> c * (A + B * (1 - (1 - e) ^ n))"
    and nK: "\<And>i. i < 3 \<Longrightarrow> nK ! i = c * ps ! i * (A + B * (1 - exp (- e * mus ! i)))"
  shows "counts_of mus ps nK eps (\<lambda>n. c * (A + B * (1 - (1 - e) ^ n)) * photonNumberTau n mus ps)"
proof -
  have int: "intensities mus ps" using ok by unfold_locales
  let ?y = "\<lambda>n. A + B * (1 - (1 - e) ^ n)"
  let ?summand = "\<lambda>i n. c * ps ! i * exp (- (mus ! i)) * (?y n / fact n * (mus ! i) ^ n)"
  have sums: "?summand i sums nK ! i" if "i < 3" for i
  proof -
    have "?summand i sums (c * ps ! i * exp (- (mus ! i)) * (exp (mus ! i) * (A + B * (1 - exp (- e * mus ! i)))))"
      by (intro sums_mult affine_series)
    moreover have "c * ps ! i * exp (- (mus ! i)) * (exp (mus ! i) * z) = c * ps ! i * z" for z by (simp add: exp_minus)
    ultimately show ?thesis by (simp only: nK [OF that])
  qed
  have summand_eq: "c * ?y n * photonNumberTau n mus ps * intensity_given mus ps i n = ?summand i n" for i n
    using intensities.tau_pos [OF int, of n] by (simp add: intensity_given_def)
  have e: "expected_count mus ps i (\<lambda>n. c * ?y n * photonNumberTau n mus ps) = nK ! i" if "i < 3" for i
    unfolding expected_count_def summand_eq using sums [OF that] by (simp add: sums_iff)
  have split: "?summand 0 n + ?summand 1 n + ?summand 2 n = c * ?y n * photonNumberTau n mus ps" for n
    unfolding tau_expand [OF ok] by (simp add: field_simps)
  have "(\<lambda>n. ?summand 0 n + ?summand 1 n + ?summand 2 n) sums (nK ! 0 + nK ! 1 + nK ! 2)" by (intro sums_add sums) auto
  then have "(\<lambda>n. c * ?y n * photonNumberTau n mus ps) sums all_counts nK" unfolding split all_counts_def .
  moreover have "0 \<le> c * ?y n * photonNumberTau n mus ps" for n
    using mult_nonneg_nonneg [OF nn less_imp_le [OF intensities.tau_pos [OF int]]] .
  moreover have "0 \<le> hoeffdingDelta x y" for x y by (simp add: hoeffdingDelta_def)
  ultimately show ?thesis by (auto simp: counts_of_def e)
qed

lemma affine_nonneg: "channel_ok p \<Longrightarrow> 0 \<le> c \<Longrightarrow> 0 \<le> c * (dp_Y0 p + 1 * (1 - (1 - dp_etaTotal p) ^ n))
    \<and> 0 \<le> c * (dp_Y0 p / 2 + dp_eD p * (1 - (1 - dp_etaTotal p) ^ n))"
proof -
  assume ok: "channel_ok p" "0 \<le> c"
  then have "(1 - dp_etaTotal p) ^ n \<le> 1" by (intro power_le_one) (auto simp: channel_ok_def)
  then show ?thesis using ok by (auto simp: channel_ok_def intro!: mult_nonneg_nonneg add_nonneg_nonneg)
qed

lemma qber_gain_scheme: "channel_ok p \<Longrightarrow> 0 \<le> k \<Longrightarrow> qberEmu (dp_Y0 p) (dp_etaTotal p) (dp_eD p) k * gainQmu (dp_Y0 p) (dp_etaTotal p) k
    = dp_Y0 p / 2 + dp_eD p * (1 - exp (- dp_etaTotal p * k))"
  using qber_gain [of "decoy_params.truncate p"] by (cases p) (simp add: decoy_params.truncate_def channel_ok_def)

text \<open>The photon numbers of the key basis (\<open>q\<close>), and of the errors, over \<open>N\<close> pulses.\<close>

definition channel_events :: "finite_params \<Rightarrow> real \<Rightarrow> nat \<Rightarrow> real" where
  "channel_events p q n = fp_N p * q * q * (dp_Y0 p + 1 * (1 - (1 - dp_etaTotal p) ^ n))
     * photonNumberTau n [dp_mu p, dp_nu1 p, dp_nu2 p] [fp_pMu p, fp_pNu1 p, fp_pNu2 p]"

definition channel_errors :: "finite_params \<Rightarrow> real \<Rightarrow> nat \<Rightarrow> real" where
  "channel_errors p q n = fp_N p * q * q * (dp_Y0 p / 2 + dp_eD p * (1 - (1 - dp_etaTotal p) ^ n))
     * photonNumberTau n [dp_mu p, dp_nu1 p, dp_nu2 p] [fp_pMu p, fp_pNu1 p, fp_pNu2 p]"

definition source_ok :: "finite_params \<Rightarrow> bool" where
  "source_ok p \<longleftrightarrow> channel_ok p \<and> eq13 p \<and> 0 < fp_N p \<and> 0 < fp_pMu p \<and> 0 < fp_pNu1 p \<and> 0 < fp_pNu2 p"

lemma finite_lim_counts:
  assumes "source_ok p"
  shows "intensities_ok (lp_mus (finite_lim p)) (lp_ps (finite_lim p))"
    and "counts_of (lp_mus (finite_lim p)) (lp_ps (finite_lim p)) (lc_nXk (finite_lim p)) eps (channel_events p (fp_qx p))"
    and "counts_of (lp_mus (finite_lim p)) (lp_ps (finite_lim p)) (lc_nZk (finite_lim p)) eps (channel_events p (1 - fp_qx p))"
    and "counts_of (lp_mus (finite_lim p)) (lp_ps (finite_lim p)) (lc_mZk (finite_lim p)) eps (channel_errors p (1 - fp_qx p))"
proof -
  let ?mus = "[dp_mu p, dp_nu1 p, dp_nu2 p]" and ?ps = "[fp_pMu p, fp_pNu1 p, fp_pNu2 p]"
  have f: "lp_mus (finite_lim p) = ?mus" "lp_ps (finite_lim p) = ?ps" by (simp_all add: finite_lim_def Let_def)
  have ok: "channel_ok p" "0 \<le> fp_N p" using assms by (auto simp: source_ok_def)
  show int: "intensities_ok (lp_mus (finite_lim p)) (lp_ps (finite_lim p))"
    using assms unfolding f by (auto simp: source_ok_def eq13_def intensities_ok_def)
  have c: "0 \<le> fp_N p * q * q" for q using ok(2) by (simp add: mult.assoc)
  have mus: "0 \<le> ?mus ! i" if "i < 3" for i
    using that assms unfolding less_3 by (auto simp: source_ok_def eq13_def)
  have gain: "lc_nXk (finite_lim p) ! i = fp_N p * fp_qx p * fp_qx p * ?ps ! i * (dp_Y0 p + 1 * (1 - exp (- dp_etaTotal p * ?mus ! i)))"
    "lc_nZk (finite_lim p) ! i = fp_N p * (1 - fp_qx p) * (1 - fp_qx p) * ?ps ! i * (dp_Y0 p + 1 * (1 - exp (- dp_etaTotal p * ?mus ! i)))"
    if "i < 3" for i
    using that unfolding less_3 by (auto simp: finite_lim_def limCountsFromChannel_def Let_def gainQmu_def add_diff_eq)
  have err: "lc_mZk (finite_lim p) ! i
      = fp_N p * (1 - fp_qx p) * (1 - fp_qx p) * ?ps ! i * (dp_Y0 p / 2 + dp_eD p * (1 - exp (- dp_etaTotal p * ?mus ! i)))" if "i < 3" for i
  proof -
    have "lc_mZk (finite_lim p) ! i = fp_N p * (1 - fp_qx p) * (1 - fp_qx p) * ?ps ! i
        * (qberEmu (dp_Y0 p) (dp_etaTotal p) (dp_eD p) (?mus ! i) * gainQmu (dp_Y0 p) (dp_etaTotal p) (?mus ! i))"
      using that unfolding less_3 by (auto simp: finite_lim_def limCountsFromChannel_def Let_def)
    then show ?thesis unfolding qber_gain_scheme [OF ok(1) mus [OF that]] .
  qed
  note aff = affine_nonneg [OF ok(1) c]
  show "counts_of (lp_mus (finite_lim p)) (lp_ps (finite_lim p)) (lc_nXk (finite_lim p)) eps (channel_events p (fp_qx p))"
    using affine_counts [OF int, unfolded f] aff gain unfolding f channel_events_def by blast
  show "counts_of (lp_mus (finite_lim p)) (lp_ps (finite_lim p)) (lc_nZk (finite_lim p)) eps (channel_events p (1 - fp_qx p))"
    using affine_counts [OF int, unfolded f] aff gain unfolding f channel_events_def by blast
  show "counts_of (lp_mus (finite_lim p)) (lp_ps (finite_lim p)) (lc_mZk (finite_lim p)) eps (channel_errors p (1 - fp_qx p))"
    using affine_counts [OF int, unfolded f] aff err unfolding f channel_errors_def by blast
qed

definition bundled_finite :: finite_params where
  "bundled_finite = link_finite BUNDLED_PARAMS (Span_km (linkLengthKm BUNDLED_PARAMS))"

lemma bundled_source_ok: "source_ok bundled_finite"
  using transmittance_bounds [of "0.2" "0.2" 10]
  by (simp add: bundled_finite_def source_ok_def link_finite_def BUNDLED_PARAMS_def span_eta_def channel_ok_def eq13_def)

interpretation bundled_intensities: intensities "lp_mus (finite_lim bundled_finite)" "lp_ps (finite_lim bundled_finite)"
  by unfold_locales (rule finite_lim_counts(1) [OF bundled_source_ok])

interpretation bundled_events: photon_events "lp_mus (finite_lim bundled_finite)" "lp_ps (finite_lim bundled_finite)"
    "channel_events bundled_finite (fp_qx bundled_finite)"
  by (rule counts_of_events [OF finite_lim_counts(1,2) [OF bundled_source_ok]])

theorem lim_key_length_sound_witness:
  "lr_sX1 (limKeyLength (finite_lim bundled_finite)) \<le> channel_events bundled_finite (fp_qx bundled_finite) 1"
  using lim_key_length_sound [OF finite_lim_counts [OF bundled_source_ok]] by blast

text \<open>A finite rate is never negative, and is 0 outside the conditions the code states.\<close>

lemma limKeyLength_nonneg: "0 \<le> lr_ell (limKeyLength p)"
  by (simp add: limKeyLength_ell)

lemma skrFinite_nonneg: "0 \<le> skrFinite p"
  using limKeyLength_nonneg by (simp add: skrFinite_def)

lemma skrFinite_invalid: "\<not> eq13 p \<Longrightarrow> skrFinite p = 0"
  by (auto simp: skrFinite_def eq13_def)

lemma skrBpsForLink_nonneg: "0 \<le> pulseRateHz p \<Longrightarrow> 0 \<le> skrBpsForLink p sp"
  by (simp add: skrBpsForLink_def skrFinite_nonneg)

text \<open>A span of \<open>km\<close> has the rate of its loss in dB.\<close>

lemma span_loss: "skrBpsForLink p (Span_km km) = skrBpsForLink p (Span_loss_db (fiberAttenuationDbPerKm p * km))"
  by (simp add: skrBpsForLink_def link_finite_def span_eta_def totalTransmittance_def transmittanceFromLossDb_def)

end
