(* ===== verification/Bb84_Channel.thy ===== *)
theory Bb84_Channel
  imports Seeds "HOL-Library.Log_Nat"
begin

text \<open>
  The BB84 channel shared by the compute tiers, \<^verbatim>\<open>lib/sim/bb84Channel.ts\<close>: the xorshift generator of the
  shaders, one pulse, the replay of a round's first pulses, the QBER of a round and the key pool.

  The generator is bit-exact, including the two roundings to a 32-bit float. The channel's probabilities are
  rationals; the sum \<^verbatim>\<open>etaTotal + Y0\<close> is not rounded. A bit is the number 0 or 1.
\<close>

record channel_cfg =
  cc_etaTotal :: rat
  cc_eD :: rat
  cc_Y0 :: rat
  cc_eveOn :: bool
  cc_eveProb :: rat

record channel_pulse =
  alice_bit :: nat
  alice_basis :: nat
  bob_basis :: nat
  bob_bit :: nat
  basis_match :: bool

record channel_frame = channel_pulse +
  frame_i :: nat

section \<open>Xorshift32\<close>

definition HASH :: u32 where "HASH = 2654435761"

definition xorshift_new :: "u32 \<Rightarrow> u32" where
  "xorshift_new seed = (if seed = 0 then 1 else seed)"

definition xorshift_u32 :: "u32 \<Rightarrow> u32" where
  "xorshift_u32 s =
     (let x = s;
          x = x XOR push_bit 13 x;
          x = x XOR drop_bit 17 x;
          x = x XOR push_bit 5 x
      in x)"

text \<open>\<^verbatim>\<open>Math.fround\<close> of a number below \<open>2 ^ 32\<close>: to 24 significant bits, ties to even.\<close>

definition fround :: "nat \<Rightarrow> nat" where
  "fround n = (let k = floorlog 2 n - 24; q = n div 2 ^ k; r = n mod 2 ^ k
     in if k = 0 then n
        else if 2 * r > 2 ^ k \<or> (2 * r = 2 ^ k \<and> odd q) then (q + 1) * 2 ^ k else q * 2 ^ k)"

text \<open>The division by \<open>2 ^ 32\<close> is exact in a 32-bit float, so the outer rounding keeps it.\<close>

definition xorshift_f32 :: "u32 \<Rightarrow> rat \<times> u32" where
  "xorshift_f32 s = (let s = xorshift_u32 s in (of_nat (fround (unat s)) / 4294967296, s))"

definition xorshift_bit :: "u32 \<Rightarrow> nat \<times> u32" where
  "xorshift_bit s = (let (u, s) = xorshift_f32 s in (if u < 1 / 2 then 1 else 0, s))"

definition seedFor :: "u32 \<Rightarrow> nat \<Rightarrow> u32" where
  "seedFor seed ident = seed XOR (of_nat ident * HASH + 1)"

section \<open>One pulse\<close>

text \<open>What Eve sends on: the bit and the basis.\<close>

definition eve_resend :: "'a channel_cfg_scheme \<Rightarrow> nat \<Rightarrow> nat \<Rightarrow> u32 \<Rightarrow> (nat \<times> nat) \<times> u32" where
  "eve_resend cfg aBit aBasis s =
     (let eveProb = (if cc_eveOn cfg then cc_eveProb cfg else 0)
      in if eveProb > 0
         then let (u, s) = xorshift_f32 s
              in if u < eveProb
                 then let (eBasis, s) = xorshift_bit s;
                          (eBit, s) = (if eBasis = aBasis then (aBit, s) else xorshift_bit s)
                      in ((eBit, eBasis), s)
                 else ((aBit, aBasis), s)
         else ((aBit, aBasis), s))"

definition simulatePulse :: "u32 \<Rightarrow> 'a channel_cfg_scheme \<Rightarrow> channel_pulse option \<times> u32" where
  "simulatePulse s cfg =
     (let detect = cc_etaTotal cfg + cc_Y0 cfg;
          (u, s) = xorshift_f32 s
      in if \<not> u < detect then (None, s)
         else let (aBit, s) = xorshift_bit s;
                  (aBasis, s) = xorshift_bit s;
                  ((carriedBit, carriedBasis), s) = eve_resend cfg aBit aBasis s;
                  (bBasis, s) = xorshift_bit s;
                  (bBit, s) = (if bBasis = carriedBasis
                    then let (u, s) = xorshift_f32 s in (if u < cc_eD cfg then carriedBit XOR 1 else carriedBit, s)
                    else xorshift_bit s)
              in (Some \<lparr>alice_bit = aBit, alice_basis = aBasis, bob_basis = bBasis, bob_bit = bBit,
                    basis_match = (aBasis = bBasis)\<rparr>, s))"

section \<open>Replay of a round\<close>

definition frame_of :: "nat \<Rightarrow> channel_pulse \<Rightarrow> channel_frame" where
  "frame_of i f = channel_pulse.extend f (channel_frame.fields i)"

text \<open>The two loops: \<open>is\<close> holds the pulses, or the vertices, still to come.\<close>

fun gpu_loop :: "'a channel_cfg_scheme \<Rightarrow> nat \<Rightarrow> nat list \<Rightarrow> u32 \<Rightarrow> channel_frame list \<Rightarrow> channel_frame list" where
  "gpu_loop cfg n [] s frames = frames"
| "gpu_loop cfg n (i # is) s frames =
     (if length frames < n
      then case simulatePulse s cfg of
             (None, s) \<Rightarrow> gpu_loop cfg n is s frames
           | (Some f, s) \<Rightarrow> gpu_loop cfg n is s (frames @ [frame_of i f])
      else frames)"

definition framesFromGpuRound :: "'a channel_cfg_scheme \<Rightarrow> u32 \<Rightarrow> nat \<Rightarrow> nat \<Rightarrow> channel_frame list" where
  "framesFromGpuRound cfg seed pulsesPerThread n =
     gpu_loop cfg n [1..<Suc pulsesPerThread] (xorshift_new (seedFor seed 0)) []"

fun gl_loop :: "'a channel_cfg_scheme \<Rightarrow> u32 \<Rightarrow> nat \<Rightarrow> nat list \<Rightarrow> channel_frame list \<Rightarrow> channel_frame list" where
  "gl_loop cfg seed n [] frames = frames"
| "gl_loop cfg seed n (v # vs) frames =
     (if length frames < n
      then case fst (simulatePulse (xorshift_new (seedFor seed v)) cfg) of
             None \<Rightarrow> gl_loop cfg seed n vs frames
           | Some f \<Rightarrow> gl_loop cfg seed n vs (frames @ [frame_of (v + 1) f])
      else frames)"

definition framesFromGlRound :: "'a channel_cfg_scheme \<Rightarrow> u32 \<Rightarrow> nat \<Rightarrow> nat \<Rightarrow> channel_frame list" where
  "framesFromGlRound cfg seed vertexCount n = gl_loop cfg seed n [0..<vertexCount] []"

section \<open>The key pool\<close>

definition KEY_POOL_CAPACITY_BITS :: int where "KEY_POOL_CAPACITY_BITS = 4096"
definition KEY_POOL_YIELD :: rat where "KEY_POOL_YIELD = 1 / 4"
definition KEY_POOL_DRAIN_PER_ROUND :: int where "KEY_POOL_DRAIN_PER_ROUND = 64"
definition PULSES_PER_ROUND :: nat where "PULSES_PER_ROUND = 1000000"

definition roundQber :: "nat \<Rightarrow> nat \<Rightarrow> rat option" where
  "roundQber sifted errors = (if sifted > 0 then Some (of_nat errors / of_nat sifted) else None)"

definition advanceKeyPool :: "int \<Rightarrow> nat \<Rightarrow> rat option \<Rightarrow> rat \<Rightarrow> int" where
  "advanceKeyPool pool sifted qber qberAbort =
     (let distilled = (case qber of
            None \<Rightarrow> 0
          | Some q \<Rightarrow> if q > qberAbort then 0 else \<lfloor>of_nat sifted * (1 - 2 * q) * KEY_POOL_YIELD\<rfloor>)
      in max 0 (min KEY_POOL_CAPACITY_BITS (pool + distilled - KEY_POOL_DRAIN_PER_ROUND)))"

end
