(* ===== verification/Bb84_Worker.thy ===== *)
theory Bb84_Worker
  imports Bb84_Channel
begin

text \<open>
  The CPU worker of the BB84 page, \<^verbatim>\<open>lib/sim/bb84.worker.ts\<close>, and the reference of its counting loop and the
  unpacking of the WebAssembly kernel's result, \<^verbatim>\<open>lib/sim/bb84Wasm.ts\<close>. The kernel itself is compiled Rust and a
  parameter. \<^verbatim>\<open>performance.now()\<close> is given to a round as the two times it reads.
\<close>

record worker_cfg = channel_cfg +
  wc_pulsesPerRound :: nat
  wc_qberAbort :: rat

record worker =
  wk_cfg :: worker_cfg
  wk_running :: bool
  wk_pool :: int
  wk_timer :: bool
  wk_rng :: u32

section \<open>Mulberry32\<close>

definition worker_rnd :: "u32 \<Rightarrow> rat \<times> u32" where
  "worker_rnd rngState =
     (let rngState = rngState + 0x6d2b79f5;
          t = (rngState XOR drop_bit 15 rngState) * (1 OR rngState);
          t = (t + (t XOR drop_bit 7 t) * (61 OR t)) XOR t
      in (of_nat (unat (t XOR drop_bit 14 t)) / 4294967296, rngState))"

definition worker_bit :: "u32 \<Rightarrow> nat \<times> u32" where
  "worker_bit s = (let (u, s) = worker_rnd s in (if u < 1 / 2 then 0 else 1, s))"

section \<open>A round\<close>

record round_state =
  rs_rng :: u32
  rs_sifted :: nat
  rs_errors :: nat
  rs_frames :: "channel_frame list"

text \<open>One iteration of the loop.\<close>

definition worker_pulse :: "worker_cfg \<Rightarrow> round_state \<Rightarrow> nat \<Rightarrow> round_state" where
  "worker_pulse cfg r i =
     (let detect = cc_etaTotal cfg + cc_Y0 cfg;
          (u, s) = worker_rnd (rs_rng r)
      in if u \<ge> detect then r\<lparr>rs_rng := s\<rparr>
         else let (aBit, s) = worker_bit s;
                  (aBasis, s) = worker_bit s;
                  ((carriedBit, carriedBasis), s) =
                    (if cc_eveOn cfg
                     then let (u, s) = worker_rnd s
                          in if u < cc_eveProb cfg
                             then let (eBasis, s) = worker_bit s;
                                      (eBit, s) = (if eBasis = aBasis then (aBit, s) else worker_bit s)
                                  in ((eBit, eBasis), s)
                             else ((aBit, aBasis), s)
                     else ((aBit, aBasis), s));
                  (bBasis, s) = worker_bit s;
                  (bBit, s) = (if bBasis = carriedBasis
                    then let (u, s) = worker_rnd s in (if u < cc_eD cfg then carriedBit XOR 1 else carriedBit, s)
                    else worker_bit s);
                  match = (aBasis = bBasis);
                  r = r\<lparr>rs_rng := s\<rparr>;
                  r = (if match
                    then r\<lparr>rs_sifted := Suc (rs_sifted r),
                           rs_errors := (if aBit \<noteq> bBit then Suc (rs_errors r) else rs_errors r)\<rparr>
                    else r)
              in if length (rs_frames r) < 16
                 then r\<lparr>rs_frames := rs_frames r @ [\<lparr>alice_bit = aBit, alice_basis = aBasis, bob_basis = bBasis,
                        bob_bit = bBit, basis_match = match, frame_i = i\<rparr>]\<rparr>
                 else r)"

record worker_round =
  wr_qber :: "rat option"
  wr_pool_size :: int
  wr_frames :: "channel_frame list"
  wr_pulses :: nat

definition runRound :: "worker \<Rightarrow> worker_round \<times> worker" where
  "runRound w =
     (let cfg = wk_cfg w;
          r = foldl (worker_pulse cfg) \<lparr>rs_rng = wk_rng w, rs_sifted = 0, rs_errors = 0, rs_frames = []\<rparr> [0..<wc_pulsesPerRound cfg];
          qber = roundQber (rs_sifted r) (rs_errors r);
          pool = advanceKeyPool (wk_pool w) (rs_sifted r) qber (wc_qberAbort cfg)
      in (\<lparr>wr_qber = qber, wr_pool_size = pool, wr_frames = rs_frames r, wr_pulses = wc_pulsesPerRound cfg\<rparr>,
          w\<lparr>wk_pool := pool, wk_rng := rs_rng r\<rparr>))"

text \<open>The rate of a round that ran from \<open>t0\<close> to \<open>t1\<close> milliseconds.\<close>

definition pulses_per_sec :: "nat \<Rightarrow> rat \<Rightarrow> rat \<Rightarrow> int" where
  "pulses_per_sec pulses t0 t1 = (let dt = max (t1 - t0) (1 / 1000) in js_round (of_nat pulses / (dt / 1000)))"

record worker_frames =
  wf_qber :: "rat option"
  wf_pool_size :: int
  wf_frames :: "channel_frame list"
  wf_pulsesPerSec :: int

definition worker_loop :: "rat \<Rightarrow> rat \<Rightarrow> worker \<Rightarrow> worker_frames option \<times> worker" where
  "worker_loop t0 t1 w =
     (if \<not> wk_running w then (None, w)
      else let (r, w) = runRound w
           in (Some \<lparr>wf_qber = wr_qber r, wf_pool_size = wr_pool_size r, wf_frames = wr_frames r,
                 wf_pulsesPerSec = pulses_per_sec (wr_pulses r) t0 t1\<rparr>, w))"

text \<open>The messages; the engine sends every field of the configuration.\<close>

datatype worker_msg = Msg_config worker_cfg | Msg_start | Msg_stop

definition worker_onmessage :: "worker_msg \<Rightarrow> worker \<Rightarrow> worker" where
  "worker_onmessage m w = (case m of
     Msg_config c \<Rightarrow> w\<lparr>wk_cfg := c\<rparr>
   | Msg_start \<Rightarrow> w\<lparr>wk_running := True, wk_timer := True\<rparr>
   | Msg_stop \<Rightarrow> w\<lparr>wk_running := False, wk_timer := False\<rparr>)"

text \<open>\<open>now\<close> is \<^verbatim>\<open>Date.now()\<close> when the module is loaded.\<close>

definition worker_new :: "worker_cfg \<Rightarrow> int \<Rightarrow> worker" where
  "worker_new cfg now = \<lparr>wk_cfg = cfg, wk_running = False, wk_pool = 0, wk_timer = False, wk_rng = word_of_int now XOR 0x9e3779b9\<rparr>"

section \<open>The reference of the kernel\<close>

record wasm_round =
  wa_sifted :: nat
  wa_errors :: nat
  wa_qber :: "rat option"

definition unpack :: "64 word \<Rightarrow> wasm_round" where
  "unpack packed =
     (let sifted = unat (packed AND 0xffffffff);
          errors = unat (drop_bit 32 packed AND 0xffffffff)
      in \<lparr>wa_sifted = sifted, wa_errors = errors, wa_qber = roundQber sifted errors\<rparr>)"

definition mulberry32 :: "u32 \<Rightarrow> rat \<times> u32" where
  "mulberry32 s =
     (let s = s + 0x6d2b79f5;
          t = (s XOR drop_bit 15 s) * (1 OR s);
          t = (t + (t XOR drop_bit 7 t) * (61 OR t)) XOR t
      in (of_nat (unat (t XOR drop_bit 14 t)) / 4294967296, s))"

definition reference_bit :: "u32 \<Rightarrow> nat \<times> u32" where
  "reference_bit s = (let (u, s) = mulberry32 s in (if u < 1 / 2 then 0 else 1, s))"

definition reference_pulse :: "'a channel_cfg_scheme \<Rightarrow> u32 \<times> nat \<times> nat \<Rightarrow> nat \<Rightarrow> u32 \<times> nat \<times> nat" where
  "reference_pulse cfg = (\<lambda>(s, sifted, errors) i.
     (let detect = cc_etaTotal cfg + cc_Y0 cfg;
          (u, s) = mulberry32 s
      in if u \<ge> detect then (s, sifted, errors)
         else let (aBit, s) = reference_bit s;
                  (aBasis, s) = reference_bit s;
                  ((carriedBit, carriedBasis), s) =
                    (if cc_eveOn cfg
                     then let (u, s) = mulberry32 s
                          in if u < cc_eveProb cfg
                             then let (eBasis, s) = reference_bit s;
                                      (eBit, s) = (if eBasis = aBasis then (aBit, s) else reference_bit s)
                                  in ((eBit, eBasis), s)
                             else ((aBit, aBasis), s)
                     else ((aBit, aBasis), s));
                  (bBasis, s) = reference_bit s;
                  (bBit, s) = (if bBasis = carriedBasis
                    then let (u, s) = mulberry32 s in (if u < cc_eD cfg then carriedBit XOR 1 else carriedBit, s)
                    else reference_bit s)
              in if aBasis = bBasis then (s, Suc sifted, if aBit \<noteq> bBit then Suc errors else errors) else (s, sifted, errors)))"

definition referenceRound :: "u32 \<Rightarrow> 'a channel_cfg_scheme \<Rightarrow> nat \<Rightarrow> wasm_round" where
  "referenceRound seed cfg pulses =
     (let (s, sifted, errors) = foldl (reference_pulse cfg) (seed, 0, 0) [0..<pulses]
      in \<lparr>wa_sifted = sifted, wa_errors = errors, wa_qber = roundQber sifted errors\<rparr>)"

text \<open>\<^verbatim>\<open>Bb84Wasm\<close>: the kernel's export, once instantiated. \<open>None\<close> is the throw before \<^verbatim>\<open>init\<close>.\<close>

type_synonym wasm_kernel = "u32 \<Rightarrow> rat \<Rightarrow> rat \<Rightarrow> rat \<Rightarrow> nat \<Rightarrow> rat \<Rightarrow> nat \<Rightarrow> 64 word"

definition wasm_runRound :: "wasm_kernel option \<Rightarrow> u32 \<Rightarrow> worker_cfg \<Rightarrow> wasm_round option" where
  "wasm_runRound ex seed cfg = (case ex of
     None \<Rightarrow> None
   | Some run_round \<Rightarrow> Some (unpack (run_round seed (cc_etaTotal cfg) (cc_eD cfg) (cc_Y0 cfg)
       (if cc_eveOn cfg then 1 else 0) (cc_eveProb cfg) (wc_pulsesPerRound cfg))))"

end
