(* ===== verification/Bb84_Engine.thy ===== *)
theory Bb84_Engine
  imports Bb84_Worker
begin

text \<open>
  The BB84 engine controller, \<^verbatim>\<open>lib/sim/bb84Sim.ts\<close>, with what \<^verbatim>\<open>bb84Gpu.ts\<close> and \<^verbatim>\<open>bb84Gl.ts\<close> do around their
  shaders, and the line \<^verbatim>\<open>engineChoice.ts\<close> writes about the choice.

  An \<^verbatim>\<open>await\<close> ends a handler: what is awaited is a \<open>task\<close>, and its continuation is a handler of its own, to which
  the environment gives the outcome. The shaders, the kernel and the clock are the environment: a round of a
  tier is the counts it produced, its seed and the two times read, or the error it threw. A message to the
  worker is handled when it is posted.
\<close>

section \<open>State\<close>

datatype tier = WebGPU | WebGL2 | WASM

record tier_trial =
  tt_tier :: tier
  tt_pulsesPerSec :: "int option"
  tt_adopted :: bool
  tt_error :: "string option"

datatype engine_name = Worker_CPU | Tier_engine tier

record bb84_update =
  up_qber :: "rat option"
  up_pool_size :: int
  up_frames :: "channel_frame list"
  up_engine :: engine_name
  up_pulsesPerSec :: int
  up_tierTrials :: "tier_trial list"
  up_workerPulsesPerSec :: "int option"

text \<open>
  What is pending: the timer of \<^verbatim>\<open>start\<close>, the awaits of \<^verbatim>\<open>tryUpgrade\<close> with its \<^verbatim>\<open>target\<close>, and the round
  \<^verbatim>\<open>gpuLoop\<close> awaits, with the pool of that tier. A round awaited keeps the configuration it was given.
\<close>

datatype task = Upgrade_timer | Gpu_init rat | Gpu_bench rat worker_cfg | Wasm_init rat | Gpu_round int worker_cfg

record engine =
  eg_cfg :: worker_cfg
  eg_worker :: "worker option"
  eg_gpu :: "int option"
  eg_gl :: "int option"
  eg_wasm :: bool
  eg_wasmPool :: int
  eg_lastPool :: int
  eg_seeds :: run_seeds
  eg_running :: bool
  eg_upgraded :: bool
  eg_trials :: "tier_trial list"
  eg_gpuTimer :: "tier option"
  eg_workerPps :: int
  eg_tasks :: "task list"
  eg_shown :: "bb84_update option"

definition UPGRADE_MARGIN :: rat where "UPGRADE_MARGIN = 115 / 100"

definition THREADS :: nat where "THREADS = 16384"

definition engine_new :: "worker_cfg \<Rightarrow> run_seeds \<Rightarrow> engine" where
  "engine_new DEFAULT_CFG seeds = \<lparr>eg_cfg = DEFAULT_CFG, eg_worker = None, eg_gpu = None, eg_gl = None, eg_wasm = False,
     eg_wasmPool = 0, eg_lastPool = 0, eg_seeds = seeds, eg_running = False, eg_upgraded = False, eg_trials = [],
     eg_gpuTimer = None, eg_workerPps = 0, eg_tasks = [], eg_shown = None\<rparr>"

section \<open>Rounds of the tiers\<close>

text \<open>A round that returned: its seed, the counts and the times at its beginning and its end.\<close>

record tier_round =
  tr_seed :: u32
  tr_sifted :: nat
  tr_errors :: nat
  tr_t0 :: rat
  tr_t1 :: rat

record round_result =
  rr_qber :: "rat option"
  rr_pool_size :: int
  rr_pulsesPerSec :: int
  rr_frames :: "channel_frame list"

definition gpu_runRound :: "worker_cfg \<Rightarrow> int \<Rightarrow> tier_round \<Rightarrow> round_result" where
  "gpu_runRound cfg pool x =
     (let pulsesPerThread = max 1 (wc_pulsesPerRound cfg div THREADS);
          totalPulses = pulsesPerThread * THREADS;
          qber = roundQber (tr_sifted x) (tr_errors x)
      in \<lparr>rr_qber = qber, rr_pool_size = advanceKeyPool pool (tr_sifted x) qber (wc_qberAbort cfg),
          rr_pulsesPerSec = pulses_per_sec totalPulses (tr_t0 x) (tr_t1 x),
          rr_frames = framesFromGpuRound cfg (tr_seed x) pulsesPerThread 16\<rparr>)"

definition gl_runRound :: "worker_cfg \<Rightarrow> int \<Rightarrow> tier_round \<Rightarrow> round_result" where
  "gl_runRound cfg pool x =
     (let qber = roundQber (tr_sifted x) (tr_errors x)
      in \<lparr>rr_qber = qber, rr_pool_size = advanceKeyPool pool (tr_sifted x) qber (wc_qberAbort cfg),
          rr_pulsesPerSec = pulses_per_sec (wc_pulsesPerRound cfg) (tr_t0 x) (tr_t1 x),
          rr_frames = framesFromGlRound cfg (tr_seed x) (wc_pulsesPerRound cfg) 16\<rparr>)"

section \<open>The worker and the updates\<close>

text \<open>\<open>now\<close> is \<^verbatim>\<open>Date.now()\<close> when the worker's module is loaded.\<close>

definition startWorker :: "int \<Rightarrow> engine \<Rightarrow> engine" where
  "startWorker now s = (if eg_worker s \<noteq> None then s
     else s\<lparr>eg_worker := Some (worker_onmessage Msg_start (worker_onmessage (Msg_config (eg_cfg s)) (worker_new (eg_cfg s) now)))\<rparr>)"

definition stopWorker :: "engine \<Rightarrow> engine" where
  "stopWorker s = (if eg_worker s = None then s else s\<lparr>eg_worker := None\<rparr>)"

definition eg_setConfig :: "(worker_cfg \<Rightarrow> worker_cfg) \<Rightarrow> engine \<Rightarrow> engine" where
  "eg_setConfig f s =
     (let s = s\<lparr>eg_cfg := f (eg_cfg s)\<rparr>
      in s\<lparr>eg_worker := map_option (worker_onmessage (Msg_config (eg_cfg s))) (eg_worker s)\<rparr>)"

definition eg_emit :: "rat option \<Rightarrow> int \<Rightarrow> channel_frame list \<Rightarrow> engine_name \<Rightarrow> int \<Rightarrow> engine \<Rightarrow> engine" where
  "eg_emit qber pool frames eng pps s =
     s\<lparr>eg_lastPool := pool,
       eg_shown := Some \<lparr>up_qber = qber, up_pool_size = pool, up_frames = frames, up_engine = eng, up_pulsesPerSec = pps,
         up_tierTrials = eg_trials s, up_workerPulsesPerSec = (if eg_workerPps s = 0 then None else Some (eg_workerPps s))\<rparr>\<rparr>"

text \<open>The worker's interval fires, and its message is received.\<close>

definition worker_fires :: "rat \<Rightarrow> rat \<Rightarrow> engine \<Rightarrow> engine" where
  "worker_fires t0 t1 s = (case eg_worker s of
     None \<Rightarrow> s
   | Some w \<Rightarrow> (case worker_loop t0 t1 w of
       (None, w) \<Rightarrow> s\<lparr>eg_worker := Some w\<rparr>
     | (Some m, w) \<Rightarrow> eg_emit (wf_qber m) (wf_pool_size m) (wf_frames m) Worker_CPU (wf_pulsesPerSec m)
         (s\<lparr>eg_worker := Some w, eg_workerPps := wf_pulsesPerSec m\<rparr>)))"

section \<open>The record of the choice\<close>

definition eg_record :: "tier_trial \<Rightarrow> engine \<Rightarrow> engine" where
  "eg_record t s = (if list_ex (\<lambda>x. tt_tier x = tt_tier t) (eg_trials s) then s else s\<lparr>eg_trials := eg_trials s @ [t]\<rparr>)"

definition trial :: "tier \<Rightarrow> int option \<Rightarrow> bool \<Rightarrow> string option \<Rightarrow> tier_trial" where
  "trial t pps ad e = \<lparr>tt_tier = t, tt_pulsesPerSec = pps, tt_adopted = ad, tt_error = e\<rparr>"

definition revertTier :: "tier \<Rightarrow> string \<Rightarrow> engine \<Rightarrow> engine" where
  "revertTier t e s = s\<lparr>eg_trials := map (\<lambda>x. if tt_tier x = t \<and> tt_adopted x
       then x\<lparr>tt_adopted := False, tt_error := Some (''adopted, then failed mid-run and reverted to the CPU worker: '' @ e)\<rparr>
       else x) (eg_trials s)\<rparr>"

section \<open>The loops of the tiers\<close>

text \<open>What a synchronous round gave, or the error it threw.\<close>

type_synonym 'r outcome = "string + 'r"

text \<open>\<open>rnd\<close> is \<^verbatim>\<open>Math.random()\<close>, read when no seed is pinned. The kernel's result is its packed counts.\<close>

record wasm_env =
  we_rnd :: rat
  we_packed :: "64 word outcome"
  we_t0 :: rat
  we_t1 :: rat

definition wasmLoop :: "wasm_env \<Rightarrow> int \<Rightarrow> engine \<Rightarrow> engine" where
  "wasmLoop x now s =
     (if \<not> eg_running s \<or> \<not> eg_wasm s then s
      else let (seed, seeds) = seeds_next (we_rnd x) (eg_seeds s);
               s = s\<lparr>eg_seeds := seeds\<rparr>
           in (case we_packed x of
                 Inl e \<Rightarrow> startWorker now ((revertTier WASM e s)\<lparr>eg_wasm := False, eg_upgraded := False\<rparr>)
               | Inr packed \<Rightarrow>
                   let r = unpack packed;
                       pool = advanceKeyPool (eg_wasmPool s) (wa_sifted r) (wa_qber r) (wc_qberAbort (eg_cfg s));
                       s = eg_emit (wa_qber r) pool (framesFromGpuRound (eg_cfg s) seed (wc_pulsesPerRound (eg_cfg s)) 16)
                             (Tier_engine WASM) (pulses_per_sec (wc_pulsesPerRound (eg_cfg s)) (we_t0 x) (we_t1 x))
                             (s\<lparr>eg_wasmPool := pool\<rparr>)
                   in if eg_running s then s\<lparr>eg_gpuTimer := Some WASM\<rparr> else s))"

definition gpuLoop :: "engine \<Rightarrow> engine" where
  "gpuLoop s = (case eg_gpu s of
     None \<Rightarrow> s
   | Some pool \<Rightarrow> if \<not> eg_running s then s else s\<lparr>eg_tasks := eg_tasks s @ [Gpu_round pool (eg_cfg s)]\<rparr>)"

definition emit_round :: "tier \<Rightarrow> round_result \<Rightarrow> engine \<Rightarrow> engine" where
  "emit_round t r = eg_emit (rr_qber r) (rr_pool_size r) (rr_frames r) (Tier_engine t) (rr_pulsesPerSec r)"

text \<open>The continuation of \<^verbatim>\<open>gpuLoop\<close>, when the round awaited has ended.\<close>

definition gpuLoop_then :: "int \<Rightarrow> worker_cfg \<Rightarrow> tier_round outcome \<Rightarrow> int \<Rightarrow> engine \<Rightarrow> engine" where
  "gpuLoop_then pool cfg x now s = (case x of
     Inl e \<Rightarrow> startWorker now ((revertTier WebGPU e s)\<lparr>eg_gpu := None, eg_upgraded := False\<rparr>)
   | Inr x \<Rightarrow>
       let r = gpu_runRound cfg pool x;
           s = emit_round WebGPU r (s\<lparr>eg_gpu := map_option (\<lambda>_. rr_pool_size r) (eg_gpu s)\<rparr>)
       in if eg_running s then s\<lparr>eg_gpuTimer := Some WebGPU\<rparr> else s)"

definition glLoop :: "tier_round outcome \<Rightarrow> int \<Rightarrow> engine \<Rightarrow> engine" where
  "glLoop x now s = (case eg_gl s of
     None \<Rightarrow> s
   | Some pool \<Rightarrow>
       if \<not> eg_running s then s
       else (case x of
         Inl e \<Rightarrow> startWorker now ((revertTier WebGL2 e s)\<lparr>eg_gl := None, eg_upgraded := False\<rparr>)
       | Inr x \<Rightarrow>
           let r = gl_runRound (eg_cfg s) pool x;
               s = emit_round WebGL2 r (s\<lparr>eg_gl := Some (rr_pool_size r)\<rparr>)
           in if eg_running s then s\<lparr>eg_gpuTimer := Some WebGL2\<rparr> else s))"

definition adoptWasm :: "wasm_env \<Rightarrow> int \<Rightarrow> engine \<Rightarrow> engine" where
  "adoptWasm x now s =
     (let s = stopWorker (s\<lparr>eg_upgraded := True, eg_wasm := True\<rparr>);
          s = s\<lparr>eg_wasmPool := eg_lastPool s\<rparr>
      in wasmLoop x now s)"

definition adoptGpu :: "engine \<Rightarrow> engine" where
  "adoptGpu s = (let s = stopWorker (s\<lparr>eg_upgraded := True\<rparr>) in gpuLoop (s\<lparr>eg_gpu := Some (eg_lastPool s)\<rparr>))"

definition adoptGl :: "tier_round outcome \<Rightarrow> int \<Rightarrow> engine \<Rightarrow> engine" where
  "adoptGl x now s = (let s = stopWorker (s\<lparr>eg_upgraded := True\<rparr>) in glLoop x now (s\<lparr>eg_gl := Some (eg_lastPool s)\<rparr>))"

section \<open>The choice of a tier\<close>

text \<open>\<^verbatim>\<open>init()\<close> of a tier: whether the browser has it, or the error it threw.\<close>

type_synonym availability = "bool outcome"

definition unavailable :: string where "unavailable = ''not available in this browser''"
definition no_wasm :: string where "no_wasm = ''WebAssembly not available in this browser''"

definition tryUpgrade :: "engine \<Rightarrow> engine" where
  "tryUpgrade s = (if \<not> eg_running s \<or> eg_upgraded s then s
     else s\<lparr>eg_tasks := eg_tasks s @ [Gpu_init (of_int (max (eg_workerPps s) 1) * UPGRADE_MARGIN)]\<rparr>)"

text \<open>The WebGL tier, which runs without a pause: its availability, its benchmark and, if adopted, its first round.\<close>

record gl_env =
  ge_init :: availability
  ge_bench :: "tier_round outcome"
  ge_first :: "tier_round outcome"

definition try_gl :: "rat \<Rightarrow> gl_env \<Rightarrow> int \<Rightarrow> engine \<Rightarrow> engine" where
  "try_gl target x now s =
     (let await_wasm = (\<lambda>s. s\<lparr>eg_tasks := eg_tasks s @ [Wasm_init target]\<rparr>)
      in case ge_init x of
           Inl e \<Rightarrow> await_wasm (eg_record (trial WebGL2 None False (Some e)) s)
         | Inr False \<Rightarrow> await_wasm (eg_record (trial WebGL2 None False (Some unavailable)) s)
         | Inr True \<Rightarrow> (case ge_bench x of
             Inl e \<Rightarrow> await_wasm (eg_record (trial WebGL2 None False (Some e)) s)
           | Inr b \<Rightarrow>
               let pps = rr_pulsesPerSec (gl_runRound (eg_cfg s) 0 b)
               in if of_int pps \<ge> target
                  then adoptGl (ge_first x) now (eg_record (trial WebGL2 (Some pps) True None) s)
                  else await_wasm (eg_record (trial WebGL2 (Some pps) False None) s)))"

definition gpu_init_then :: "rat \<Rightarrow> availability \<Rightarrow> gl_env \<Rightarrow> int \<Rightarrow> engine \<Rightarrow> engine" where
  "gpu_init_then target av x now s = (case av of
     Inl e \<Rightarrow> try_gl target x now (eg_record (trial WebGPU None False (Some e)) s)
   | Inr False \<Rightarrow> try_gl target x now (eg_record (trial WebGPU None False (Some unavailable)) s)
   | Inr True \<Rightarrow> s\<lparr>eg_tasks := eg_tasks s @ [Gpu_bench target (eg_cfg s)]\<rparr>)"

definition gpu_bench_then :: "rat \<Rightarrow> worker_cfg \<Rightarrow> tier_round outcome \<Rightarrow> gl_env \<Rightarrow> int \<Rightarrow> engine \<Rightarrow> engine" where
  "gpu_bench_then target cfg b x now s = (case b of
     Inl e \<Rightarrow> try_gl target x now (eg_record (trial WebGPU None False (Some e)) s)
   | Inr b \<Rightarrow>
       let pps = rr_pulsesPerSec (gpu_runRound cfg 0 b)
       in if of_int pps \<ge> target
          then adoptGpu (eg_record (trial WebGPU (Some pps) True None) s)
          else try_gl target x now (eg_record (trial WebGPU (Some pps) False None) s))"

text \<open>The benchmark of the kernel is the two times around its round, or what it threw.\<close>

definition wasm_init_then :: "rat \<Rightarrow> availability \<Rightarrow> (rat \<times> rat) outcome \<Rightarrow> wasm_env \<Rightarrow> int \<Rightarrow> engine \<Rightarrow> engine" where
  "wasm_init_then target av b x now s = (case av of
     Inl e \<Rightarrow> eg_record (trial WASM None False (Some e)) s
   | Inr False \<Rightarrow> eg_record (trial WASM None False (Some no_wasm)) s
   | Inr True \<Rightarrow> (case b of
       Inl e \<Rightarrow> eg_record (trial WASM None False (Some e)) s
     | Inr (t0, t1) \<Rightarrow>
         let pps = pulses_per_sec (wc_pulsesPerRound (eg_cfg s)) t0 t1
         in if of_int pps \<ge> target
            then adoptWasm x now (eg_record (trial WASM (Some pps) True None) s)
            else eg_record (trial WASM (Some pps) False None) s))"

section \<open>Start and stop\<close>

definition eg_start :: "int \<Rightarrow> engine \<Rightarrow> engine" where
  "eg_start now s = (if eg_running s then s
     else let s = startWorker now (s\<lparr>eg_running := True\<rparr>) in s\<lparr>eg_tasks := eg_tasks s @ [Upgrade_timer]\<rparr>)"

definition eg_stop :: "engine \<Rightarrow> engine" where
  "eg_stop s = (stopWorker (s\<lparr>eg_running := False, eg_gpuTimer := None\<rparr>))
     \<lparr>eg_upgraded := False, eg_trials := [], eg_gpu := None, eg_gl := None\<rparr>"

definition eg_dispose :: "engine \<Rightarrow> engine" where
  "eg_dispose s = (eg_stop s)\<lparr>eg_gpu := None, eg_gl := None\<rparr>"

section \<open>The page\<close>

text \<open>
  The page creates one engine, starts it once when its parameters have arrived, and disposes of it once when it
  is left; either can come first. Anything pending may end at any time, in any order.
\<close>

record task_env =
  te_init :: availability
  te_round :: "tier_round outcome"
  te_gl :: gl_env
  te_wasm_bench :: "(rat \<times> rat) outcome"
  te_wasm :: wasm_env
  te_now :: int

fun run_task :: "task_env \<Rightarrow> task \<Rightarrow> engine \<Rightarrow> engine" where
  "run_task x Upgrade_timer s = tryUpgrade s"
| "run_task x (Gpu_init target) s = gpu_init_then target (te_init x) (te_gl x) (te_now x) s"
| "run_task x (Gpu_bench target cfg) s = gpu_bench_then target cfg (te_round x) (te_gl x) (te_now x) s"
| "run_task x (Wasm_init target) s = wasm_init_then target (te_init x) (te_wasm_bench x) (te_wasm x) (te_now x) s"
| "run_task x (Gpu_round pool cfg) s = gpuLoop_then pool cfg (te_round x) (te_now x) s"

definition timer_fires :: "task_env \<Rightarrow> engine \<Rightarrow> engine" where
  "timer_fires x s = (case eg_gpuTimer s of
     None \<Rightarrow> s
   | Some t \<Rightarrow> let s = s\<lparr>eg_gpuTimer := None\<rparr> in (case t of
       WebGPU \<Rightarrow> gpuLoop s
     | WebGL2 \<Rightarrow> glLoop (te_round x) (te_now x) s
     | WASM \<Rightarrow> wasmLoop (te_wasm x) (te_now x) s))"

inductive bb84_page :: "engine \<Rightarrow> bool \<Rightarrow> bool \<Rightarrow> bool" where
  page_new: "bb84_page (engine_new cfg seeds) False False"
| page_config: "bb84_page s st d \<Longrightarrow> bb84_page (eg_setConfig f s) st d"
| page_start: "bb84_page s False d \<Longrightarrow> bb84_page (eg_start now s) True d"
| page_dispose: "bb84_page s st False \<Longrightarrow> bb84_page (eg_dispose s) st True"
| page_worker: "bb84_page s st d \<Longrightarrow> bb84_page (worker_fires t0 t1 s) st d"
| page_timer: "bb84_page s st d \<Longrightarrow> bb84_page (timer_fires x s) st d"
| page_task: "bb84_page s st d \<Longrightarrow> eg_tasks s = ts @ t # us \<Longrightarrow> bb84_page (run_task x t (s\<lparr>eg_tasks := ts @ us\<rparr>)) st d"

section \<open>Describing the choice\<close>

text \<open>The number with its unit, \<^verbatim>\<open>toFixed(1)\<close> of millions, is a parameter of the text.\<close>

definition tier_text :: "(tier \<Rightarrow> string) \<Rightarrow> (int \<Rightarrow> string) \<Rightarrow> tier_trial \<Rightarrow> string" where
  "tier_text name M t = (case tt_pulsesPerSec t of
     None \<Rightarrow> name (tt_tier t) @ '': '' @ (case tt_error t of None \<Rightarrow> ''no result'' | Some e \<Rightarrow> e)
   | Some pps \<Rightarrow> name (tt_tier t) @ '': '' @ M pps @ (if tt_adopted t then '' (adopted)'' else '' (slower than CPU, not adopted)''))"

fun join_with :: "string \<Rightarrow> string list \<Rightarrow> string" where
  "join_with sep [] = ''''"
| "join_with sep [x] = x"
| "join_with sep (x # xs) = x @ sep @ join_with sep xs"

definition engineChoiceSummary :: "(tier \<Rightarrow> string) \<Rightarrow> (int \<Rightarrow> string) \<Rightarrow> tier_trial list \<Rightarrow> int option \<Rightarrow> string" where
  "engineChoiceSummary name M trials workerPps =
     (if trials = [] then ''Accelerator benchmark has not run yet.''
      else ''CPU worker '' @ (case workerPps of None \<Rightarrow> ''unknown'' | Some p \<Rightarrow> M p) @ ''. ''
        @ join_with ''. '' (map (tier_text name M) trials) @ ''.'')"

end
