(* ===== verification/Bb84_Claims.thy ===== *)
theory Bb84_Claims
  imports Bb84_Worker
begin

text \<open>
  The properties of the BB84 rounds: the generators, the replay of a round, the worker against the kernel's
  reference, and the key pool.
\<close>

section \<open>The generators\<close>

lemma push_bit_fixpoint: "push_bit k z = z \<Longrightarrow> 0 < k \<Longrightarrow> z = (0 :: u32)"
proof -
  assume z: "push_bit k z = z" and k: "0 < k"
  have "push_bit (k * n) z = z" for n
    by (induction n) (use z in \<open>simp_all add: mult_Suc_right flip: push_bit_push_bit\<close>)
  from this [of 32] have "push_bit (k * 32) z = z" .
  moreover have "push_bit (k * 32) z = 0" using k by (intro bit_eqI) (auto simp: bit_simps)
  ultimately show ?thesis by simp
qed

lemma xorshift_nonzero: "s \<noteq> 0 \<Longrightarrow> xorshift_u32 s \<noteq> 0"
proof -
  have l: "x XOR push_bit k x \<noteq> 0" if "x \<noteq> 0" "0 < k" for x :: u32 and k
    using that push_bit_fixpoint [of k x] by (metis xor_left_cancel xor.right_neutral)
  have r: "x XOR drop_bit k x \<noteq> 0" if "x \<noteq> 0" "0 < k" for x :: u32 and k
    using that drop_bit_fixpoint [of k x] by (metis xor_left_cancel xor.right_neutral)
  assume "s \<noteq> 0"
  then show ?thesis unfolding xorshift_u32_def Let_def by (intro l r) simp_all
qed

lemma fround_bounds: "fround n \<le> 2 ^ 32 \<and> (0 < n \<longrightarrow> 0 < fround n)" if "n < 2 ^ 32"
proof -
  define k where "k = floorlog 2 n - 24"
  have f: "floorlog 2 n \<le> 32" using that by (intro floorlog_leI) auto
  show ?thesis
  proof (cases "k = 0")
    case True
    then show ?thesis using that by (simp add: fround_def k_def Let_def)
  next
    case False
    then have n: "0 < n" "2 ^ (floorlog 2 n - 1) \<le> n" using floorlog_bounds [of n 2] by (cases "n = 0"; simp add: k_def floorlog_def)+
    have k: "k + 23 = floorlog 2 n - 1" "k \<le> 8" using False f by (auto simp: k_def)
    have pw: "(2 :: nat) ^ 32 = 2 ^ (32 - k) * 2 ^ k" using k(2) by (simp flip: power_add)
    have "n < 2 ^ (32 - k) * 2 ^ k" using that by (simp only: pw)
    then have q: "n div 2 ^ k < 2 ^ (32 - k)" by (simp add: less_mult_imp_div_less)
    then have "(n div 2 ^ k + 1) * 2 ^ k \<le> 2 ^ 32" unfolding pw by (intro mult_right_mono) auto
    moreover have "n div 2 ^ k * 2 ^ k \<le> 2 ^ 32" using that div_times_less_eq_dividend [of n "2 ^ k"] by linarith
    moreover have "0 < n div 2 ^ k * 2 ^ k"
    proof -
      have "2 ^ k \<le> (2 :: nat) ^ (floorlog 2 n - 1)" using k by (intro power_increasing) auto
      then have "2 ^ k \<le> n" using n by linarith
      then show ?thesis by (simp add: div_greater_zero_iff)
    qed
    ultimately show ?thesis using False by (auto simp: fround_def Let_def k_def)
  qed
qed

text \<open>Every draw is in \<open>(0, 1]\<close>; 1 itself is what the largest states round to.\<close>

lemma xorshift_draw: "s \<noteq> 0 \<Longrightarrow> xorshift_f32 s = (u, s') \<Longrightarrow> s' \<noteq> 0 \<and> 0 < u \<and> u \<le> 1"
proof -
  assume s: "s \<noteq> 0" "xorshift_f32 s = (u, s')"
  have s': "s' = xorshift_u32 s" "u = of_nat (fround (unat (xorshift_u32 s))) / 4294967296"
    using s(2) unfolding xorshift_f32_def Let_def by auto
  have nz: "s' \<noteq> 0" unfolding s'(1) using s(1) by (rule xorshift_nonzero)
  have "unat s' < 2 ^ 32" using unsigned_less [of s'] by simp
  then have f: "fround (unat s') \<le> 2 ^ 32" "0 < fround (unat s')" using fround_bounds [of "unat s'"] nz by (auto simp: unat_gt_0)
  then have "of_nat (fround (unat s')) \<le> (of_nat (2 ^ 32) :: rat)" by (simp only: of_nat_le_iff)
  then show ?thesis using nz f s' by simp
qed

lemma xorshift_f32_one: "xorshift_u32 s = 0xFFFFFFFF \<Longrightarrow> fst (xorshift_f32 s) = 1"
proof -
  have "floorlog 2 4294967295 = 32" by (intro antisym floorlog_leI floorlog_geI) simp_all
  then have "fround 4294967295 = 4294967296" by (simp add: fround_def Let_def)
  then show "xorshift_u32 s = 0xFFFFFFFF \<Longrightarrow> fst (xorshift_f32 s) = 1" by (simp add: xorshift_f32_def Let_def)
qed

lemma mulberry_copies: "mulberry32 = worker_rnd"
  by (rule ext) (simp add: mulberry32_def worker_rnd_def Let_def)

section \<open>Replay\<close>

text \<open>All detected pulses of the first GPU invocation, and of the vertices.\<close>

fun gpu_detected :: "'a channel_cfg_scheme \<Rightarrow> nat list \<Rightarrow> u32 \<Rightarrow> channel_frame list" where
  "gpu_detected cfg [] s = []"
| "gpu_detected cfg (i # is) s = (case simulatePulse s cfg of
     (None, s) \<Rightarrow> gpu_detected cfg is s | (Some f, s) \<Rightarrow> frame_of i f # gpu_detected cfg is s)"

definition gl_detected :: "'a channel_cfg_scheme \<Rightarrow> u32 \<Rightarrow> nat list \<Rightarrow> channel_frame list" where
  "gl_detected cfg seed vs = List.map_filter (\<lambda>v. map_option (frame_of (v + 1)) (fst (simulatePulse (xorshift_new (seedFor seed v)) cfg))) vs"

lemma gpu_loop_take: "length frames \<le> n \<Longrightarrow> gpu_loop cfg n is s frames = frames @ take (n - length frames) (gpu_detected cfg is s)"
proof (induction "is" arbitrary: s frames)
  case (Cons i "is")
  show ?case
  proof (cases "length frames < n")
    case True
    then obtain m where m: "n - length frames = Suc m" "n - Suc (length frames) = m" by (cases "n - length frames") auto
    show ?thesis using True Cons.IH m by (auto split: prod.splits option.splits)
  qed (use Cons.prems in simp)
qed simp

lemma gl_loop_take: "length frames \<le> n \<Longrightarrow> gl_loop cfg seed n vs frames = frames @ take (n - length frames) (gl_detected cfg seed vs)"
proof (induction vs arbitrary: frames)
  case (Cons v vs)
  show ?case
  proof (cases "length frames < n")
    case True
    then obtain m where m: "n - length frames = Suc m" "n - Suc (length frames) = m" by (cases "n - length frames") auto
    show ?thesis using True Cons.IH m by (auto simp: gl_detected_def List.map_filter_simps split: option.splits)
  qed (use Cons.prems in simp)
qed (simp add: gl_detected_def List.map_filter_simps)

text \<open>
  The photon table is the round. The frames shown for a GPU round are exactly the first \<open>n\<close> detected pulses
  of its first invocation over all its pulses, and those of a WebGL round the first \<open>n\<close> detected vertices, each
  with its own seed: stopping the replay at \<open>n\<close> frames changes none of them.
\<close>

theorem replay_is_prefix:
  "framesFromGpuRound cfg seed pulses n = take n (gpu_detected cfg [1..<Suc pulses] (xorshift_new (seedFor seed 0)))
    \<and> framesFromGlRound cfg seed vertices n = take n (gl_detected cfg seed [0..<vertices])"
  by (simp add: framesFromGpuRound_def framesFromGlRound_def gpu_loop_take gl_loop_take)

section \<open>The worker's round\<close>

lemma worker_bit_cases: "worker_bit s = (b, s') \<Longrightarrow> b = 0 \<or> b = 1"
  by (auto simp: worker_bit_def Let_def split: prod.splits if_splits)

text \<open>One pulse is lost, or is a frame that is counted when the bases agree.\<close>

definition counted :: "round_state \<Rightarrow> nat \<Rightarrow> u32 \<Rightarrow> channel_pulse \<Rightarrow> round_state" where
  "counted r i s f = \<lparr>rs_rng = s, rs_sifted = rs_sifted r + (if basis_match f then 1 else 0),
     rs_errors = rs_errors r + (if basis_match f \<and> alice_bit f \<noteq> bob_bit f then 1 else 0),
     rs_frames = (if length (rs_frames r) < 16 then rs_frames r @ [frame_of i f] else rs_frames r)\<rparr>"

definition ideal_channel :: "'a channel_cfg_scheme \<Rightarrow> bool" where
  "ideal_channel cfg \<longleftrightarrow> \<not> cc_eveOn cfg \<and> cc_eD cfg \<le> 0"

lemma worker_rnd_nonneg: "worker_rnd s = (u, s') \<Longrightarrow> 0 \<le> u"
proof -
  have "0 \<le> fst (worker_rnd s)" unfolding worker_rnd_def Let_def fst_conv by (intro divide_nonneg_nonneg of_nat_0_le_iff) simp
  then show "worker_rnd s = (u, s') \<Longrightarrow> 0 \<le> u" by simp
qed

lemma worker_pulse_cases:
  obtains (lost) s where "worker_pulse cfg r i = r\<lparr>rs_rng := s\<rparr>"
  | (click) s f where "worker_pulse cfg r i = counted r i s f" "basis_match f = (alice_basis f = bob_basis f)"
      "ideal_channel cfg \<Longrightarrow> basis_match f \<Longrightarrow> alice_bit f = bob_bit f"
proof -
  obtain u s0 where u: "worker_rnd (rs_rng r) = (u, s0)" by (cases "worker_rnd (rs_rng r)")
  show thesis
  proof (cases "u \<ge> cc_etaTotal cfg + cc_Y0 cfg")
    case True
    then show ?thesis using u by (intro lost [of s0]) (simp add: worker_pulse_def)
  next
    case False
    obtain aBit s1 where a: "worker_bit s0 = (aBit, s1)" by (cases "worker_bit s0")
    obtain aBasis s2 where b: "worker_bit s1 = (aBasis, s2)" by (cases "worker_bit s1")
    define C where "C = (if cc_eveOn cfg
         then let (u, s) = worker_rnd s2
              in if u < cc_eveProb cfg
                 then let (eBasis, s) = worker_bit s; (eBit, s) = (if eBasis = aBasis then (aBit, s) else worker_bit s)
                      in ((eBit, eBasis), s)
                 else ((aBit, aBasis), s)
         else ((aBit, aBasis), s2))"
    obtain cBit cBasis s3 where "C = ((cBit, cBasis), s3)" by (cases C; cases "fst C") auto
    note c = this [unfolded C_def]
    obtain bBasis s4 where d: "worker_bit s3 = (bBasis, s4)" by (cases "worker_bit s3")
    define E where "E = (if bBasis = cBasis
        then let (u, s) = worker_rnd s4 in (if u < cc_eD cfg then cBit XOR 1 else cBit, s)
        else worker_bit s4)"
    obtain bBit s5 where "E = (bBit, s5)" by (cases E)
    note e = this [unfolded E_def]
    let ?f = "\<lparr>alice_bit = aBit, alice_basis = aBasis, bob_basis = bBasis, bob_bit = bBit, basis_match = (aBasis = bBasis)\<rparr>"
    have "worker_pulse cfg r i = counted r i s5 ?f"
      unfolding worker_pulse_def Let_def u split_conv using False
      by (cases r) (simp add: a b c [unfolded Let_def] d e [unfolded Let_def] counted_def frame_of_def channel_pulse.extend_def channel_frame.fields_def)
    moreover have "aBit = bBit" if "ideal_channel cfg" "aBasis = bBasis"
      using that c e worker_rnd_nonneg [of s4] by (auto simp: ideal_channel_def split: prod.splits if_splits)
    ultimately show ?thesis by (intro click [of s5 ?f]) auto
  qed
qed

text \<open>The frames kept so far are those of the first pulses, in order.\<close>

definition round_ok :: "'a channel_cfg_scheme \<Rightarrow> nat \<Rightarrow> round_state \<Rightarrow> bool" where
  "round_ok cfg k r \<longleftrightarrow> rs_errors r \<le> rs_sifted r \<and> rs_sifted r \<le> k \<and> length (rs_frames r) \<le> 16
     \<and> list_all (\<lambda>f. frame_i f < k \<and> basis_match f = (alice_basis f = bob_basis f)) (rs_frames r)
     \<and> sorted_wrt (<) (map frame_i (rs_frames r)) \<and> (ideal_channel cfg \<longrightarrow> rs_errors r = 0)"

lemma frame_of_simps [simp]: "frame_i (frame_of i f) = i" "basis_match (frame_of i f) = basis_match f"
  "alice_basis (frame_of i f) = alice_basis f" "bob_basis (frame_of i f) = bob_basis f"
  by (cases f; simp add: frame_of_def channel_pulse.extend_def channel_frame.fields_def)+

lemma worker_pulse_ok: "round_ok cfg k r \<Longrightarrow> round_ok cfg (Suc k) (worker_pulse cfg r k)"
proof (cases rule: worker_pulse_cases [of cfg r k])
  case (lost s)
  then show "round_ok cfg k r \<Longrightarrow> ?thesis" by (auto simp: round_ok_def list_all_iff)
next
  case (click s f)
  then show "round_ok cfg k r \<Longrightarrow> ?thesis"
    by (auto simp: round_ok_def counted_def list_all_iff sorted_wrt_append dest: less_SucI)
qed

definition round_start :: "u32 \<Rightarrow> round_state" where
  "round_start s = \<lparr>rs_rng = s, rs_sifted = 0, rs_errors = 0, rs_frames = []\<rparr>"

lemma worker_pulses_ok: "round_ok cfg n (foldl (worker_pulse cfg) (round_start s) [0..<n])"
  by (induction n) (simp_all add: worker_pulse_ok, simp add: round_ok_def round_start_def)

lemma pool_range: "0 \<le> advanceKeyPool p s q a" "advanceKeyPool p s q a \<le> 4096"
  by (simp_all add: advanceKeyPool_def Let_def KEY_POOL_CAPACITY_BITS_def)

lemma pool_aborted: "(case q of None \<Rightarrow> True | Some x \<Rightarrow> x > a) \<Longrightarrow> advanceKeyPool p s q a = max 0 (min 4096 (p - 64))"
  by (auto simp: advanceKeyPool_def KEY_POOL_CAPACITY_BITS_def KEY_POOL_DRAIN_PER_ROUND_def split: option.splits)

text \<open>A round below the threshold never takes more than the drain, and adds at most a quarter of its sifted bits.\<close>

lemma pool_gain:
  assumes "0 \<le> q" "q \<le> a" "a \<le> 1 / 2"
  shows "max 0 (min 4096 (p - 64)) \<le> advanceKeyPool p s (Some q) a" "4 * (advanceKeyPool p s (Some q) a - max 0 (p - 64)) \<le> int s"
proof -
  define d where "d = \<lfloor>of_nat s * (1 - 2 * q) * (1 / 4)\<rfloor>"
  have d0: "0 \<le> d" unfolding d_def using assms by (intro zero_le_floor [THEN iffD2] mult_nonneg_nonneg) auto
  have "of_nat s * (1 - 2 * q) \<le> of_nat s * 1" using assms by (intro mult_left_mono) auto
  then have "4 * (of_int d :: rat) \<le> of_nat s" using of_int_floor_le [of "of_nat s * (1 - 2 * q) * (1 / 4)"] unfolding d_def by linarith
  then have "(of_int (4 * d) :: rat) \<le> of_int (int s)" by simp
  then have d1: "4 * d \<le> int s" by (simp only: of_int_le_iff)
  have e: "advanceKeyPool p s (Some q) a = max 0 (min 4096 (p + d - 64))"
    using assms by (simp add: d_def advanceKeyPool_def KEY_POOL_CAPACITY_BITS_def KEY_POOL_DRAIN_PER_ROUND_def KEY_POOL_YIELD_def)
  show "max 0 (min 4096 (p - 64)) \<le> advanceKeyPool p s (Some q) a" using d0 unfolding e by linarith
  show "4 * (advanceKeyPool p s (Some q) a - max 0 (p - 64)) \<le> int s" using d0 d1 unfolding e by (simp add: max_def min_def)
qed

text \<open>
  C27. A round of the worker. The pool it leaves is within the capacity; a round whose QBER is above the abort
  threshold, or that sifted nothing, adds no key and only drains the pool; a measured QBER is between 0 and 1,
  and 0 on a channel without Eve and misalignment. The frames shown are at most sixteen, of increasing pulses of
  this round, and each says that the bases match exactly when they do.
\<close>

theorem worker_round_sound:
  "0 \<le> wr_pool_size (fst (runRound w)) \<and> wr_pool_size (fst (runRound w)) \<le> 4096
    \<and> (case wr_qber (fst (runRound w)) of
         None \<Rightarrow> wr_pool_size (fst (runRound w)) = max 0 (min 4096 (wk_pool w - 64))
       | Some q \<Rightarrow> 0 \<le> q \<and> q \<le> 1 \<and> (ideal_channel (wk_cfg w) \<longrightarrow> q = 0)
           \<and> (q > wc_qberAbort (wk_cfg w) \<longrightarrow> wr_pool_size (fst (runRound w)) = max 0 (min 4096 (wk_pool w - 64))))
    \<and> length (wr_frames (fst (runRound w))) \<le> 16 \<and> sorted_wrt (<) (map frame_i (wr_frames (fst (runRound w))))
    \<and> list_all (\<lambda>f. frame_i f < wc_pulsesPerRound (wk_cfg w) \<and> basis_match f = (alice_basis f = bob_basis f)) (wr_frames (fst (runRound w)))"
proof -
  define r where "r = foldl (worker_pulse (wk_cfg w)) (round_start (wk_rng w)) [0..<wc_pulsesPerRound (wk_cfg w)]"
  have ok: "round_ok (wk_cfg w) (wc_pulsesPerRound (wk_cfg w)) r" unfolding r_def by (rule worker_pulses_ok)
  have run: "wr_qber (fst (runRound w)) = roundQber (rs_sifted r) (rs_errors r)" "wr_frames (fst (runRound w)) = rs_frames r"
    "wr_pool_size (fst (runRound w)) = advanceKeyPool (wk_pool w) (rs_sifted r) (roundQber (rs_sifted r) (rs_errors r)) (wc_qberAbort (wk_cfg w))"
    by (simp_all add: runRound_def Let_def r_def round_start_def)
  have q: "0 \<le> q \<and> q \<le> 1 \<and> (ideal_channel (wk_cfg w) \<longrightarrow> q = 0)" if "roundQber (rs_sifted r) (rs_errors r) = Some q" for q
    using that ok by (auto simp: roundQber_def round_ok_def divide_le_eq split: if_splits)
  show ?thesis
    using ok q pool_range pool_aborted unfolding run by (auto simp: round_ok_def split: option.splits)
qed

text \<open>An ideal channel that detects every pulse.\<close>

definition demo_worker :: worker where
  "demo_worker = worker_new \<lparr>cc_etaTotal = 1, cc_eD = 0, cc_Y0 = 0, cc_eveOn = False, cc_eveProb = 1, wc_pulsesPerRound = 3, wc_qberAbort = 11 / 100\<rparr> 0"

theorem worker_round_sound_witness: "wr_qber (fst (runRound demo_worker)) \<noteq> Some (1 / 4)"
  using worker_round_sound [of demo_worker] by (auto simp: demo_worker_def worker_new_def ideal_channel_def)

section \<open>The kernel's reference\<close>

definition counts :: "round_state \<Rightarrow> u32 \<times> nat \<times> nat" where
  "counts r = (rs_rng r, rs_sifted r, rs_errors r)"

lemma reference_bit_copies: "reference_bit = worker_bit"
  by (rule ext) (simp add: reference_bit_def worker_bit_def mulberry_copies)

lemma counts_simps [simp]: "counts (r\<lparr>rs_rng := s\<rparr>) = (s, rs_sifted r, rs_errors r)" "counts (r\<lparr>rs_frames := fs\<rparr>) = counts r"
  by (simp_all add: counts_def)

lemma reference_pulse_agrees: "counts (worker_pulse cfg r i) = reference_pulse cfg (counts r) i"
  unfolding worker_pulse_def reference_pulse_def reference_bit_copies mulberry_copies
  by (simp add: counts_def split_def Let_def if_distrib [of rs_rng] if_distrib [of rs_sifted] if_distrib [of rs_errors])

text \<open>
  C28. The reference of the WebAssembly kernel is the worker. From the same generator state and configuration,
  the worker's round and the counting loop that the kernel is tested against sift the same number of bits with
  the same number of errors, so they report the same QBER and the same pool.
\<close>

theorem worker_matches_reference:
  "wr_qber (fst (runRound w)) = wa_qber (referenceRound (wk_rng w) (wk_cfg w) (wc_pulsesPerRound (wk_cfg w)))
    \<and> wk_pool (snd (runRound w)) = advanceKeyPool (wk_pool w) (wa_sifted (referenceRound (wk_rng w) (wk_cfg w) (wc_pulsesPerRound (wk_cfg w))))
        (wa_qber (referenceRound (wk_rng w) (wk_cfg w) (wc_pulsesPerRound (wk_cfg w)))) (wc_qberAbort (wk_cfg w))"
proof -
  have "counts (foldl (worker_pulse cfg) r xs) = foldl (reference_pulse cfg) (counts r) xs" for cfg r xs
    by (induction xs arbitrary: r) (simp_all add: reference_pulse_agrees)
  from this [of "wk_cfg w" "round_start (wk_rng w)" "[0..<wc_pulsesPerRound (wk_cfg w)]", symmetric]
  show ?thesis by (simp add: runRound_def referenceRound_def Let_def counts_def round_start_def)
qed

end
