(* ===== verification/Bb84_Engine_Inv.thy ===== *)
theory Bb84_Engine_Inv
  imports Bb84_Engine Bb84_Claims
begin

text \<open>
  The invariant of the BB84 engine on its page: the record of the choice agrees with the tier that runs.
\<close>

section \<open>The invariant\<close>

definition holds_tier :: "engine \<Rightarrow> tier \<Rightarrow> bool" where
  "holds_tier s t = (case t of WebGPU \<Rightarrow> eg_gpu s \<noteq> None | WebGL2 \<Rightarrow> eg_gl s \<noteq> None | WASM \<Rightarrow> eg_wasm s)"

definition adopted :: "engine \<Rightarrow> tier list" where
  "adopted s = map tt_tier (filter tt_adopted (eg_trials s))"

text \<open>What may be pending: one thing at a time, and what it says of the trials so far.\<close>

definition pending_ok :: "engine \<Rightarrow> bool" where
  "pending_ok s = (case eg_tasks s of
     [] \<Rightarrow> (case eg_gpuTimer s of None \<Rightarrow> True | Some t \<Rightarrow> set (adopted s) \<subseteq> {t})
   | [t] \<Rightarrow> eg_gpuTimer s = None \<and> (case t of
       Gpu_round p c \<Rightarrow> set (adopted s) \<subseteq> {WebGPU}
     | Wasm_init x \<Rightarrow> \<not> eg_upgraded s \<and> WASM \<notin> set (map tt_tier (eg_trials s))
     | _ \<Rightarrow> \<not> eg_upgraded s \<and> eg_trials s = [])
   | _ \<Rightarrow> False)"

definition in_pool :: "int \<Rightarrow> bool" where
  "in_pool p \<longleftrightarrow> 0 \<le> p \<and> p \<le> 4096"

definition pools_ok :: "engine \<Rightarrow> bool" where
  "pools_ok s \<longleftrightarrow> in_pool (eg_lastPool s) \<and> pred_option (in_pool \<circ> wk_pool) (eg_worker s)
     \<and> (case eg_shown s of None \<Rightarrow> True | Some u \<Rightarrow> in_pool (up_pool_size u))"

definition engine_ok :: "engine \<Rightarrow> bool" where
  "engine_ok s \<longleftrightarrow> distinct (map tt_tier (eg_trials s))
     \<and> (if eg_upgraded s then \<exists>t. adopted s = [t] \<and> holds_tier s t else adopted s = [])
     \<and> (eg_running s \<longrightarrow> (eg_worker s = None \<longleftrightarrow> eg_upgraded s))
     \<and> pools_ok s \<and> pending_ok s"

text \<open>Before the start nothing has happened; after the disposal of a started engine nothing runs.\<close>

definition page_ok :: "engine \<Rightarrow> bool \<Rightarrow> bool \<Rightarrow> bool" where
  "page_ok s st d \<longleftrightarrow> (\<not> st \<longrightarrow> eg_tasks s = [] \<and> eg_gpuTimer s = None \<and> eg_trials s = [] \<and> \<not> eg_upgraded s
     \<and> \<not> eg_running s \<and> eg_worker s = None)"

definition eg_idle :: "engine \<Rightarrow> bool" where
  "eg_idle s \<longleftrightarrow> eg_tasks s = [] \<and> eg_gpuTimer s = None"

lemma pending_idle: "eg_idle s \<Longrightarrow> pending_ok s"
  by (simp add: eg_idle_def pending_ok_def)

section \<open>Trials and pools\<close>

lemma revert_adopted [simp]: "adopted (revertTier t e s) = filter (\<lambda>x. x \<noteq> t) (adopted s)"
proof -
  have "map tt_tier (filter tt_adopted (map (\<lambda>x. if tt_tier x = t \<and> tt_adopted x then x\<lparr>tt_adopted := False, tt_error := Some m\<rparr> else x) ts))
      = filter (\<lambda>x. x \<noteq> t) (map tt_tier (filter tt_adopted ts))" for m ts
    by (induction ts) auto
  then show ?thesis by (simp add: adopted_def revertTier_def)
qed

lemma revert_tiers [simp]: "map tt_tier (eg_trials (revertTier t e s)) = map tt_tier (eg_trials s)"
  by (simp add: revertTier_def comp_def if_distrib [of tt_tier] cong: if_cong)

lemma revert_fields [simp]: "eg_worker (revertTier t e s) = eg_worker s" "eg_gpu (revertTier t e s) = eg_gpu s"
  "eg_gl (revertTier t e s) = eg_gl s" "eg_wasm (revertTier t e s) = eg_wasm s" "eg_lastPool (revertTier t e s) = eg_lastPool s"
  "eg_running (revertTier t e s) = eg_running s" "eg_upgraded (revertTier t e s) = eg_upgraded s" "eg_cfg (revertTier t e s) = eg_cfg s"
  "eg_gpuTimer (revertTier t e s) = eg_gpuTimer s" "eg_tasks (revertTier t e s) = eg_tasks s" "eg_shown (revertTier t e s) = eg_shown s"
  by (simp_all add: revertTier_def)

lemma record_new: "tt_tier t \<notin> set (map tt_tier (eg_trials s)) \<Longrightarrow> eg_record t s = s\<lparr>eg_trials := eg_trials s @ [t]\<rparr>"
proof -
  assume "tt_tier t \<notin> set (map tt_tier (eg_trials s))"
  moreover have "list_ex (\<lambda>x. tt_tier x = k) ts \<longleftrightarrow> k \<in> set (map tt_tier ts)" for k ts by (induction ts) auto
  ultimately have "\<not> list_ex (\<lambda>x. tt_tier x = tt_tier t) (eg_trials s)" by blast
  then show ?thesis by (simp add: eg_record_def)
qed

lemma new_worker_pool [simp]: "wk_pool (worker_onmessage m w) = wk_pool w" "wk_pool (worker_new c now) = 0"
  by (cases m; simp add: worker_onmessage_def worker_new_def) (simp add: worker_new_def)

lemma startWorker_ok:
  assumes "distinct (map tt_tier (eg_trials s))" "adopted s = []" "\<not> eg_upgraded s" "pools_ok s" "eg_idle s"
  shows "engine_ok (startWorker now s)"
  using assms by (auto simp: engine_ok_def startWorker_def pools_ok_def pending_ok_def eg_idle_def adopted_def in_pool_def)

lemma back_to_worker:
  assumes "engine_ok s" "eg_idle s" "set (adopted s) \<subseteq> {t}"
    and "u = (revertTier t e s)\<lparr>eg_gpu := g, eg_gl := l, eg_wasm := w, eg_upgraded := False\<rparr>"
  shows "engine_ok (startWorker now u)"
proof (rule startWorker_ok)
  have "adopted u = filter (\<lambda>x. x \<noteq> t) (adopted s)" using assms(4) revert_adopted [of t e s] by (simp add: adopted_def)
  then show "adopted u = []" using assms(3) by (auto simp: filter_empty_conv)
  show "distinct (map tt_tier (eg_trials u))" using assms(1,4) revert_tiers [of t e s] by (simp add: engine_ok_def del: revert_tiers)
qed (use assms in \<open>simp_all add: engine_ok_def pools_ok_def eg_idle_def\<close>)

lemma round_pool: "in_pool (advanceKeyPool p s q a)"
  using pool_range by (simp add: in_pool_def)

text \<open>The fields the invariant reads.\<close>

lemma engine_ok_frame:
  assumes "engine_ok s" "eg_trials s' = eg_trials s" "eg_upgraded s' = eg_upgraded s" "\<And>t. holds_tier s t \<Longrightarrow> holds_tier s' t"
    and "eg_running s' = eg_running s" "eg_worker s' = None \<longleftrightarrow> eg_worker s = None" "pools_ok s \<Longrightarrow> pools_ok s'"
    and "eg_tasks s' = eg_tasks s" "eg_gpuTimer s' = eg_gpuTimer s"
  shows "engine_ok s'"
proof -
  have a: "adopted s' = adopted s" by (simp add: adopted_def assms(2))
  have "pending_ok s' = pending_ok s" unfolding pending_ok_def a assms(2,3,8,9) by (rule refl)
  with a show ?thesis using assms by (auto simp: engine_ok_def split: if_splits)
qed

lemma holds_tier_frame: "(eg_gpu s \<noteq> None \<longrightarrow> eg_gpu s' \<noteq> None) \<Longrightarrow> (eg_gl s \<noteq> None \<longrightarrow> eg_gl s' \<noteq> None) \<Longrightarrow> (eg_wasm s \<longrightarrow> eg_wasm s')
    \<Longrightarrow> holds_tier s t \<Longrightarrow> holds_tier s' t"
  by (simp add: holds_tier_def split: tier.splits)

text \<open>An update with a pool in range changes nothing else that matters.\<close>

lemma emit_ok:
  assumes "engine_ok s" "in_pool p"
  shows "engine_ok (eg_emit q p f n r s)"
  by (rule engine_ok_frame [OF assms(1)]) (use assms(2) in \<open>auto simp: eg_emit_def holds_tier_def pools_ok_def split: tier.splits\<close>)

section \<open>The loops\<close>

lemma pending_fields [simp]: "adopted (s\<lparr>eg_gpuTimer := tm\<rparr>) = adopted s" "adopted (s\<lparr>eg_tasks := ts\<rparr>) = adopted s"
  "adopted (s\<lparr>eg_seeds := sd\<rparr>) = adopted s" "adopted (s\<lparr>eg_wasmPool := wp\<rparr>) = adopted s"
  "holds_tier (s\<lparr>eg_gpuTimer := tm\<rparr>) = holds_tier s" "holds_tier (s\<lparr>eg_tasks := ts\<rparr>) = holds_tier s"
  "pools_ok (s\<lparr>eg_gpuTimer := tm\<rparr>) = pools_ok s" "pools_ok (s\<lparr>eg_tasks := ts\<rparr>) = pools_ok s"
  by (auto simp: adopted_def holds_tier_def pools_ok_def split: tier.splits)

lemma gpuLoop_ok: "engine_ok s \<Longrightarrow> eg_idle s \<Longrightarrow> set (adopted s) \<subseteq> {WebGPU} \<Longrightarrow> engine_ok (gpuLoop s)"
  by (simp add: gpuLoop_def engine_ok_def pending_ok_def eg_idle_def del: not_None_eq split: option.splits)

lemma set_timer_ok: "engine_ok s \<Longrightarrow> eg_tasks s = [] \<Longrightarrow> set (adopted s) \<subseteq> {t} \<Longrightarrow> engine_ok (if c then s\<lparr>eg_gpuTimer := Some t\<rparr> else s)"
  by (simp add: engine_ok_def pending_ok_def del: not_None_eq)

lemma emit_fields [simp]: "eg_tasks (eg_emit q p f n r s) = eg_tasks s" "adopted (eg_emit q p f n r s) = adopted s"
  by (simp_all add: eg_emit_def adopted_def)

lemma glLoop_ok:
  assumes "engine_ok s" "eg_idle s" "set (adopted s) \<subseteq> {WebGL2}"
  shows "engine_ok (glLoop x now s)"
proof (cases "eg_gl s")
  case (Some pool)
  show ?thesis
  proof (cases "eg_running s")
    case True
    show ?thesis
    proof (cases x)
      case (Inl e)
      have "engine_ok (startWorker now ((revertTier WebGL2 e s)\<lparr>eg_gl := None, eg_upgraded := False\<rparr>))"
        by (rule back_to_worker [OF assms, where e = e and g = "eg_gpu s" and l = None and w = "eg_wasm s"]) (cases s, simp add: revertTier_def)
      then show ?thesis using Some True Inl by (simp add: glLoop_def)
    next
      case (Inr r)
      let ?s = "s\<lparr>eg_gl := Some (rr_pool_size (gl_runRound (eg_cfg s) pool r))\<rparr>"
      have "engine_ok ?s"
        by (rule engine_ok_frame [OF assms(1)]) (auto simp: holds_tier_def pools_ok_def split: tier.splits)
      then have "engine_ok (emit_round WebGL2 (gl_runRound (eg_cfg s) pool r) ?s)"
        unfolding emit_round_def by (intro emit_ok) (simp_all add: gl_runRound_def Let_def round_pool)
      moreover have "eg_tasks (emit_round WebGL2 r' ?s) = [] \<and> set (adopted (emit_round WebGL2 r' ?s)) \<subseteq> {WebGL2}" for r'
        using assms(2,3) by (simp add: emit_round_def eg_idle_def) (simp add: adopted_def)
      ultimately show ?thesis unfolding glLoop_def Some Inr option.case sum.case Let_def using True set_timer_ok by simp
    qed
  qed (use assms Some in \<open>simp add: glLoop_def\<close>)
qed (use assms in \<open>simp add: glLoop_def\<close>)

lemma wasmLoop_ok:
  assumes "engine_ok s" "eg_idle s" "set (adopted s) \<subseteq> {WASM}"
  shows "engine_ok (wasmLoop x now s)"
proof (cases "eg_running s \<and> eg_wasm s")
  case True
  obtain seed seeds where n: "seeds_next (we_rnd x) (eg_seeds s) = (seed, seeds)" by (cases "seeds_next (we_rnd x) (eg_seeds s)")
  let ?t = "s\<lparr>eg_seeds := seeds\<rparr>"
  have "engine_ok ?t" by (rule engine_ok_frame [OF assms(1)]) (auto simp: holds_tier_def pools_ok_def split: tier.splits)
  then have ok: "engine_ok ?t" "eg_idle ?t" "set (adopted ?t) \<subseteq> {WASM}" using assms(2,3) by (simp_all add: eg_idle_def adopted_def)
  show ?thesis
  proof (cases "we_packed x")
    case (Inl e)
    have "engine_ok (startWorker now ((revertTier WASM e ?t)\<lparr>eg_wasm := False, eg_upgraded := False\<rparr>))"
      by (rule back_to_worker [OF ok, where e = e and g = "eg_gpu s" and l = "eg_gl s" and w = False]) (cases s, simp add: revertTier_def)
    then show ?thesis using True Inl n by (simp add: wasmLoop_def)
  next
    case (Inr packed)
    have u: "engine_ok (?t\<lparr>eg_wasmPool := p\<rparr>)" for p by (rule engine_ok_frame [OF ok(1)]) (auto simp: holds_tier_def pools_ok_def split: tier.splits)
    then have e: "engine_ok (eg_emit q (advanceKeyPool p0 a b c) f n r (?t\<lparr>eg_wasmPool := p\<rparr>))" for q p0 a b c f n r p
      using round_pool by (intro emit_ok)
    have "engine_ok (if c then (eg_emit q (advanceKeyPool p0 a b c') f n r (?t\<lparr>eg_wasmPool := p\<rparr>))\<lparr>eg_gpuTimer := Some WASM\<rparr>
        else eg_emit q (advanceKeyPool p0 a b c') f n r (?t\<lparr>eg_wasmPool := p\<rparr>))" for c q p0 a b c' f n r p
      using e ok(2,3) by (intro set_timer_ok) (simp_all add: eg_idle_def)
    then show ?thesis using True unfolding wasmLoop_def n Inr sum.case Let_def split_conv by simp
  qed
qed (use assms in \<open>simp add: wasmLoop_def\<close>)

section \<open>The choice\<close>

text \<open>A tier whose trial has just been recorded as adopted is adopted.\<close>

definition about_to_adopt :: "tier \<Rightarrow> engine \<Rightarrow> bool" where
  "about_to_adopt t s \<longleftrightarrow> distinct (map tt_tier (eg_trials s)) \<and> adopted s = [t] \<and> pools_ok s \<and> eg_idle s"

lemma adopt_state:
  assumes "about_to_adopt t s" "u = (stopWorker (s\<lparr>eg_upgraded := True, eg_wasm := w\<rparr>))\<lparr>eg_gpu := g, eg_gl := l, eg_wasmPool := p\<rparr>"
    and "case t of WebGPU \<Rightarrow> g \<noteq> None | WebGL2 \<Rightarrow> l \<noteq> None | WASM \<Rightarrow> w"
  shows "engine_ok u \<and> eg_idle u \<and> set (adopted u) \<subseteq> {t}"
proof -
  have f: "eg_trials u = eg_trials s" "eg_upgraded u" "eg_worker u = None" "eg_tasks u = eg_tasks s" "eg_gpuTimer u = eg_gpuTimer s"
    "eg_lastPool u = eg_lastPool s" "eg_shown u = eg_shown s" "eg_gpu u = g" "eg_gl u = l" "eg_wasm u = w"
    using assms(2) by (simp_all add: stopWorker_def)
  then have "adopted u = [t]" "holds_tier u t" using assms by (simp_all add: adopted_def about_to_adopt_def holds_tier_def split: tier.splits)
  moreover have "eg_idle u" "pools_ok u" using f assms(1) by (simp_all add: eg_idle_def about_to_adopt_def pools_ok_def)
  ultimately show ?thesis using f assms(1) pending_idle [of u] by (simp add: engine_ok_def about_to_adopt_def)
qed

lemma stopWorker_lastPool [simp]: "eg_lastPool (stopWorker s) = eg_lastPool s"
  by (simp add: stopWorker_def)

lemma adoptGpu_ok: "about_to_adopt WebGPU s \<Longrightarrow> engine_ok (adoptGpu s)"
proof -
  assume a: "about_to_adopt WebGPU s"
  have "engine_ok u \<and> eg_idle u \<and> set (adopted u) \<subseteq> {WebGPU}" if "u = (stopWorker (s\<lparr>eg_upgraded := True\<rparr>))\<lparr>eg_gpu := Some (eg_lastPool s)\<rparr>" for u
    by (rule adopt_state [OF a, where w = "eg_wasm s" and g = "Some (eg_lastPool s)" and l = "eg_gl s" and p = "eg_wasmPool s"]) (cases s, simp_all add: that stopWorker_def)
  then show ?thesis unfolding adoptGpu_def Let_def using gpuLoop_ok by simp
qed

lemma adoptGl_ok: "about_to_adopt WebGL2 s \<Longrightarrow> engine_ok (adoptGl x now s)"
proof -
  assume a: "about_to_adopt WebGL2 s"
  have "engine_ok u \<and> eg_idle u \<and> set (adopted u) \<subseteq> {WebGL2}" if "u = (stopWorker (s\<lparr>eg_upgraded := True\<rparr>))\<lparr>eg_gl := Some (eg_lastPool s)\<rparr>" for u
    by (rule adopt_state [OF a, where w = "eg_wasm s" and g = "eg_gpu s" and l = "Some (eg_lastPool s)" and p = "eg_wasmPool s"]) (cases s, simp_all add: that stopWorker_def)
  then show ?thesis unfolding adoptGl_def Let_def using glLoop_ok by simp
qed

lemma adoptWasm_ok: "about_to_adopt WASM s \<Longrightarrow> engine_ok (adoptWasm x now s)"
proof -
  assume a: "about_to_adopt WASM s"
  have "engine_ok u \<and> eg_idle u \<and> set (adopted u) \<subseteq> {WASM}"
    if "u = (stopWorker (s\<lparr>eg_upgraded := True, eg_wasm := True\<rparr>))\<lparr>eg_wasmPool := eg_lastPool s\<rparr>" for u
    by (rule adopt_state [OF a, where w = True and g = "eg_gpu s" and l = "eg_gl s" and p = "eg_lastPool s"]) (cases s, simp_all add: that stopWorker_def)
  then show ?thesis unfolding adoptWasm_def Let_def using wasmLoop_ok by simp
qed

text \<open>While no tier is adopted, a new trial keeps the invariant, or makes its tier about to be adopted.\<close>

lemma record_ok:
  assumes "engine_ok s" "eg_idle s" "\<not> eg_upgraded s" "t \<notin> set (map tt_tier (eg_trials s))"
  shows "engine_ok (eg_record (trial t p False e) s) \<and> eg_idle (eg_record (trial t p False e) s)"
    and "about_to_adopt t (eg_record (trial t p True e) s)"
    and "\<not> eg_upgraded (eg_record (trial t p False e) s)"
    and "map tt_tier (eg_trials (eg_record (trial t p False e) s)) = map tt_tier (eg_trials s) @ [t]"
proof -
  have r: "eg_record (trial t p ad e) s = s\<lparr>eg_trials := eg_trials s @ [trial t p ad e]\<rparr>" for ad
    using assms(4) by (intro record_new) (simp add: trial_def)
  have f: "tt_tier (trial t p ad e) = t" "tt_adopted (trial t p ad e) = ad" for ad by (simp_all add: trial_def)
  show "\<not> eg_upgraded (eg_record (trial t p False e) s)" "map tt_tier (eg_trials (eg_record (trial t p False e) s)) = map tt_tier (eg_trials s) @ [t]"
    using assms(3) by (simp_all add: r f)
  show "engine_ok (eg_record (trial t p False e) s) \<and> eg_idle (eg_record (trial t p False e) s)"
    using assms unfolding r by (simp add: engine_ok_def pools_ok_def pending_ok_def eg_idle_def adopted_def f)
  show "about_to_adopt t (eg_record (trial t p True e) s)"
    using assms unfolding r by (simp add: engine_ok_def pools_ok_def eg_idle_def adopted_def f about_to_adopt_def)
qed

lemma await_ok:
  assumes "engine_ok s" "eg_idle s" "\<not> eg_upgraded s"
    and "case t of Gpu_round p c \<Rightarrow> False | Wasm_init x \<Rightarrow> WASM \<notin> set (map tt_tier (eg_trials s)) | _ \<Rightarrow> eg_trials s = []"
  shows "engine_ok (s\<lparr>eg_tasks := eg_tasks s @ [t]\<rparr>)"
  using assms by (cases t) (simp_all add: engine_ok_def pending_ok_def eg_idle_def adopted_def [symmetric] del: not_None_eq)

lemma try_gl_ok:
  assumes "engine_ok s" "eg_idle s" "\<not> eg_upgraded s" "set (map tt_tier (eg_trials s)) \<subseteq> {WebGPU}"
  shows "engine_ok (try_gl target x now s)"
proof -
  have new: "WebGL2 \<notin> set (map tt_tier (eg_trials s))" using assms(4) by auto
  note rec = record_ok [OF assms(1-3) new]
  have aw: "engine_ok ((eg_record (trial WebGL2 p False e) s)\<lparr>eg_tasks := eg_tasks (eg_record (trial WebGL2 p False e) s) @ [Wasm_init target]\<rparr>)" for p e
  proof (rule await_ok)
    have "WASM \<notin> set (map tt_tier (eg_trials (eg_record (trial WebGL2 p False e) s)))" unfolding rec(4) using assms(4) by auto
    then show "case Wasm_init target of Gpu_round p c \<Rightarrow> False
        | Wasm_init x \<Rightarrow> WASM \<notin> set (map tt_tier (eg_trials (eg_record (trial WebGL2 p False e) s)))
        | _ \<Rightarrow> eg_trials (eg_record (trial WebGL2 p False e) s) = []" by simp
  qed (use rec(1,3) in auto)
  show ?thesis unfolding try_gl_def Let_def using aw adoptGl_ok [OF rec(2)] by (auto split: sum.splits bool.splits)
qed

section \<open>The page\<close>

text \<open>A pending task that ends leaves nothing else pending.\<close>

lemma task_taken:
  assumes "engine_ok s" "eg_tasks s = ts @ t # us"
  shows "engine_ok (s\<lparr>eg_tasks := ts @ us\<rparr>)" "eg_idle (s\<lparr>eg_tasks := ts @ us\<rparr>)"
    "case t of Gpu_round p c \<Rightarrow> set (adopted s) \<subseteq> {WebGPU}
     | Wasm_init x \<Rightarrow> \<not> eg_upgraded s \<and> WASM \<notin> set (map tt_tier (eg_trials s)) | _ \<Rightarrow> \<not> eg_upgraded s \<and> eg_trials s = []"
proof -
  have p: "pending_ok s" using assms(1) by (simp add: engine_ok_def)
  have one: "ts = [] \<and> us = []" using p assms(2) by (cases ts; cases us) (auto simp: pending_ok_def split: list.splits)
  then have e: "eg_tasks s = [t]" using assms(2) by simp
  have tm: "eg_gpuTimer s = None" using p by (simp add: pending_ok_def e)
  then show idle: "eg_idle (s\<lparr>eg_tasks := ts @ us\<rparr>)" using one by (simp add: eg_idle_def)
  show "case t of Gpu_round p c \<Rightarrow> set (adopted s) \<subseteq> {WebGPU}
     | Wasm_init x \<Rightarrow> \<not> eg_upgraded s \<and> WASM \<notin> set (map tt_tier (eg_trials s)) | _ \<Rightarrow> \<not> eg_upgraded s \<and> eg_trials s = []"
    using p by (simp add: pending_ok_def e)
  show "engine_ok (s\<lparr>eg_tasks := ts @ us\<rparr>)" using assms(1) pending_idle [OF idle] by (simp add: engine_ok_def)
qed

lemma gpuLoop_then_ok:
  assumes "engine_ok s" "eg_idle s" "set (adopted s) \<subseteq> {WebGPU}"
  shows "engine_ok (gpuLoop_then pool cfg x now s)"
proof (cases x)
  case (Inl e)
  have "engine_ok (startWorker now ((revertTier WebGPU e s)\<lparr>eg_gpu := None, eg_upgraded := False\<rparr>))"
    by (rule back_to_worker [OF assms, where e = e and g = None and l = "eg_gl s" and w = "eg_wasm s"]) (cases s, simp add: revertTier_def)
  then show ?thesis by (simp add: gpuLoop_then_def Inl)
next
  case (Inr r)
  let ?s = "s\<lparr>eg_gpu := map_option (\<lambda>_. rr_pool_size (gpu_runRound cfg pool r)) (eg_gpu s)\<rparr>"
  have "engine_ok ?s" by (rule engine_ok_frame [OF assms(1)]) (auto simp: holds_tier_def pools_ok_def split: tier.splits)
  then have "engine_ok (emit_round WebGPU (gpu_runRound cfg pool r) ?s)"
    unfolding emit_round_def by (intro emit_ok) (simp_all add: gpu_runRound_def Let_def round_pool)
  moreover have "eg_tasks (emit_round WebGPU r' ?s) = [] \<and> set (adopted (emit_round WebGPU r' ?s)) \<subseteq> {WebGPU}" for r'
    using assms(2,3) by (simp add: emit_round_def eg_idle_def) (simp add: adopted_def)
  ultimately show ?thesis unfolding gpuLoop_then_def Inr sum.case Let_def using set_timer_ok by simp
qed

lemma run_task_ok:
  assumes s: "engine_ok s" "eg_idle s"
    and t: "case t of Gpu_round p c \<Rightarrow> set (adopted s) \<subseteq> {WebGPU}
     | Wasm_init x \<Rightarrow> \<not> eg_upgraded s \<and> WASM \<notin> set (map tt_tier (eg_trials s)) | _ \<Rightarrow> \<not> eg_upgraded s \<and> eg_trials s = []"
  shows "engine_ok (run_task x t s)"
proof (cases t)
  case Upgrade_timer
  then show ?thesis using s t await_ok [OF s] by (auto simp: tryUpgrade_def)
next
  case (Gpu_init target)
  have new: "WebGPU \<notin> set (map tt_tier (eg_trials s))" and u: "\<not> eg_upgraded s" using t Gpu_init by auto
  note rec = record_ok [OF s u new]
  have "engine_ok (try_gl target y now (eg_record (trial WebGPU p False e) s))" for y now p e
    using rec t Gpu_init by (intro try_gl_ok) (auto simp del: set_map)
  then show ?thesis using Gpu_init t await_ok [OF s] by (auto simp: gpu_init_then_def split: sum.splits bool.splits)
next
  case (Gpu_bench target cfg)
  have new: "WebGPU \<notin> set (map tt_tier (eg_trials s))" and u: "\<not> eg_upgraded s" using t Gpu_bench by auto
  note rec = record_ok [OF s u new]
  have "engine_ok (try_gl target y now (eg_record (trial WebGPU p False e) s))" for y now p e
    using rec t Gpu_bench by (intro try_gl_ok) (auto simp del: set_map)
  then show ?thesis using Gpu_bench adoptGpu_ok [OF rec(2)] by (auto simp: gpu_bench_then_def Let_def split: sum.splits)
next
  case (Wasm_init target)
  then have new: "WASM \<notin> set (map tt_tier (eg_trials s))" and u: "\<not> eg_upgraded s" using t by auto
  note rec = record_ok [OF s u new]
  show ?thesis using Wasm_init rec(1) adoptWasm_ok [OF rec(2)] by (auto simp: wasm_init_then_def Let_def split: sum.splits bool.splits prod.splits)
next
  case (Gpu_round p c)
  then show ?thesis using gpuLoop_then_ok [OF s] t by simp
qed

lemma worker_fires_ok: "engine_ok s \<Longrightarrow> engine_ok (worker_fires t0 t1 s)"
proof (cases "eg_worker s")
  case (Some w)
  assume ok: "engine_ok s"
  obtain m v where l: "worker_loop t0 t1 w = (m, v)" by (cases "worker_loop t0 t1 w")
  have v: "in_pool (wk_pool v) \<and> (case m of None \<Rightarrow> True | Some f \<Rightarrow> in_pool (wf_pool_size f))" if "in_pool (wk_pool w)"
    using l that by (auto simp: worker_loop_def runRound_def Let_def round_pool split: if_splits prod.splits)
  have w: "in_pool (wk_pool w)" using ok Some by (simp add: engine_ok_def pools_ok_def)
  have "engine_ok (s\<lparr>eg_worker := Some v, eg_workerPps := n\<rparr>)" for n
    by (rule engine_ok_frame [OF ok]) (use v [OF w] Some in \<open>auto simp: holds_tier_def pools_ok_def split: tier.splits\<close>)
  moreover have "engine_ok (s\<lparr>eg_worker := Some v\<rparr>)"
    by (rule engine_ok_frame [OF ok]) (use v [OF w] Some in \<open>auto simp: holds_tier_def pools_ok_def split: tier.splits\<close>)
  ultimately show ?thesis using v [OF w] by (cases m) (simp_all add: worker_fires_def Some l emit_ok)
qed (simp add: worker_fires_def)

lemma setConfig_ok: "engine_ok s \<Longrightarrow> engine_ok (eg_setConfig f s)"
  by (erule engine_ok_frame) (auto simp: eg_setConfig_def Let_def holds_tier_def pools_ok_def option.pred_map comp_def split: tier.splits)

lemma timer_fires_ok:
  assumes "engine_ok s"
  shows "engine_ok (timer_fires x s)"
proof (cases "eg_gpuTimer s")
  case (Some t)
  have p: "pending_ok s" using assms by (simp add: engine_ok_def)
  then have n: "eg_tasks s = []" using Some by (auto simp: pending_ok_def split: list.splits)
  then have a: "set (adopted s) \<subseteq> {t}" using p Some by (simp add: pending_ok_def)
  have idle: "eg_idle (s\<lparr>eg_gpuTimer := None\<rparr>)" using n by (simp add: eg_idle_def)
  have ok: "engine_ok (s\<lparr>eg_gpuTimer := None\<rparr>)" using assms pending_idle [OF idle] by (simp add: engine_ok_def)
  show ?thesis using gpuLoop_ok [OF ok idle] glLoop_ok [OF ok idle] wasmLoop_ok [OF ok idle] a
    by (cases t) (simp_all add: timer_fires_def Some)
qed (use assms in \<open>simp add: timer_fires_def\<close>)

end
