(* ===== verification/Bb84_Engine_Claims.thy ===== *)
theory Bb84_Engine_Claims
  imports Bb84_Engine_Inv
begin

text \<open>The properties of the BB84 engine on its page, and two ways in which leaving the page goes wrong.\<close>

section \<open>Every state of the page\<close>

lemma engine_new_ok: "engine_ok (engine_new cfg seeds)"
  by (simp add: engine_new_def engine_ok_def pools_ok_def pending_ok_def adopted_def in_pool_def)

text \<open>Before the start nothing has happened, and configuring or disposing of the engine keeps it so.\<close>

definition untouched :: "engine \<Rightarrow> bool" where
  "untouched s \<longleftrightarrow> eg_tasks s = [] \<and> eg_gpuTimer s = None \<and> eg_trials s = [] \<and> \<not> eg_upgraded s \<and> \<not> eg_running s \<and> eg_worker s = None"

lemma bb84_page_untouched: "bb84_page s st d \<Longrightarrow> \<not> st \<Longrightarrow> untouched s"
proof (induction rule: bb84_page.induct)
  case (page_config s st d f)
  then show ?case by (simp add: untouched_def eg_setConfig_def Let_def)
next
  case (page_dispose s st)
  then show ?case by (simp add: untouched_def eg_dispose_def eg_stop_def stopWorker_def)
next
  case (page_worker s st d t0 t1)
  then show ?case by (simp add: untouched_def worker_fires_def)
next
  case (page_timer s st d x)
  then show ?case by (simp add: untouched_def timer_fires_def)
qed (simp_all add: untouched_def engine_new_def)

lemma eg_start_ok:
  assumes "engine_ok s" "untouched s"
  shows "engine_ok (eg_start now s)"
proof -
  let ?s = "startWorker now (s\<lparr>eg_running := True\<rparr>)"
  have "engine_ok ?s"
    using assms by (intro startWorker_ok) (simp_all add: engine_ok_def untouched_def adopted_def pools_ok_def eg_idle_def)
  moreover have "eg_idle ?s" "\<not> eg_upgraded ?s" "eg_trials ?s = []" using assms(2) by (simp_all add: untouched_def startWorker_def eg_idle_def)
  ultimately have "engine_ok (?s\<lparr>eg_tasks := eg_tasks ?s @ [Upgrade_timer]\<rparr>)" by (intro await_ok) auto
  then show ?thesis using assms(2) by (simp add: eg_start_def untouched_def Let_def)
qed

lemma eg_dispose_ok:
  assumes "engine_ok s"
  shows "engine_ok (eg_dispose s)"
proof -
  let ?d = "eg_dispose s"
  have f: "eg_trials ?d = []" "\<not> eg_upgraded ?d" "\<not> eg_running ?d" "eg_worker ?d = None" "eg_lastPool ?d = eg_lastPool s"
    "eg_shown ?d = eg_shown s" "eg_tasks ?d = eg_tasks s" "eg_gpuTimer ?d = None"
    by (simp_all add: eg_dispose_def eg_stop_def stopWorker_def)
  have p: "pending_ok s" using assms by (simp add: engine_ok_def)
  have "pending_ok ?d"
  proof (cases "eg_tasks s")
    case (Cons t ts)
    then have "ts = []" using p by (cases ts) (simp_all add: pending_ok_def)
    then show ?thesis using f Cons by (cases t) (simp_all add: pending_ok_def adopted_def)
  qed (simp add: pending_ok_def f)
  then show ?thesis using f assms by (simp add: engine_ok_def adopted_def pools_ok_def)
qed

lemma bb84_page_ok: "bb84_page s st d \<Longrightarrow> engine_ok s"
proof (induction rule: bb84_page.induct)
  case (page_start s d now)
  then show ?case using bb84_page_untouched [of s False d] by (simp add: eg_start_ok)
next
  case (page_task s st d ts t us x)
  note tk = task_taken [OF page_task.IH page_task.hyps(2)]
  have "eg_upgraded (s\<lparr>eg_tasks := ts @ us\<rparr>) = eg_upgraded s" "eg_trials (s\<lparr>eg_tasks := ts @ us\<rparr>) = eg_trials s" by simp_all
  then show ?case using run_task_ok [OF tk(1,2), of t x] tk(3) by (simp only: pending_fields)
qed (simp_all add: engine_new_ok setConfig_ok eg_dispose_ok worker_fires_ok timer_fires_ok)

text \<open>
  C29. The record of the choice is true. In every state of the page, whatever order the benchmarks, rounds and
  timers ended in and whatever failed, each tier was tried at most once; at most one is recorded as adopted,
  and if so the engine holds that tier; while the engine runs, its rounds come from the CPU worker exactly when
  no tier is recorded as adopted; and the pool shown never leaves the capacity.
\<close>

theorem engine_choice_true:
  assumes "bb84_page s st d"
  shows "distinct (map tt_tier (eg_trials s)) \<and> length (adopted s) \<le> 1 \<and> list_all (holds_tier s) (adopted s)
    \<and> (eg_running s \<longrightarrow> (eg_worker s \<noteq> None \<longleftrightarrow> adopted s = []))
    \<and> (case eg_shown s of None \<Rightarrow> True | Some u \<Rightarrow> 0 \<le> up_pool_size u \<and> up_pool_size u \<le> 4096)"
  using bb84_page_ok [OF assms] by (auto simp: engine_ok_def pools_ok_def in_pool_def split: if_splits option.splits)

section \<open>Runs of the page\<close>

definition demo_cfg :: worker_cfg where
  "demo_cfg = \<lparr>cc_etaTotal = 1, cc_eD = 0, cc_Y0 = 0, cc_eveOn = False, cc_eveProb = 1, wc_pulsesPerRound = 3, wc_qberAbort = 11 / 100\<rparr>"

definition demo_round :: tier_round where
  "demo_round = \<lparr>tr_seed = 1, tr_sifted = 100, tr_errors = 0, tr_t0 = 0, tr_t1 = 1\<rparr>"

text \<open>An environment with WebGPU whose benchmark ends, and one whose round is rejected.\<close>

definition demo_env :: task_env where
  "demo_env = \<lparr>te_init = Inr True, te_round = Inr demo_round, te_gl = \<lparr>ge_init = Inr False, ge_bench = Inl '''', ge_first = Inl ''''\<rparr>,
     te_wasm_bench = Inl '''', te_wasm = \<lparr>we_rnd = 0, we_packed = Inl '''', we_t0 = 0, we_t1 = 0\<rparr>, te_now = 0\<rparr>"

definition lost_env :: task_env where
  "lost_env = demo_env\<lparr>te_round := Inl ''device lost''\<rparr>"

definition end_task :: "task_env \<Rightarrow> engine \<Rightarrow> engine" where
  "end_task x s = (case eg_tasks s of [] \<Rightarrow> s | t # us \<Rightarrow> run_task x t (s\<lparr>eg_tasks := us\<rparr>))"

lemma page_end_task: "bb84_page s st d \<Longrightarrow> bb84_page (end_task x s) st d"
  using page_task [of s st d "[]"] by (simp add: end_task_def split: list.splits)

text \<open>The page with WebGPU adopted and a round awaited.\<close>

definition demo_adopted :: engine where
  "demo_adopted = (end_task demo_env ^^ 3) (eg_start 0 (engine_new demo_cfg (new_seeds None)))"

lemma demo_adopted_page: "bb84_page demo_adopted True False"
  unfolding demo_adopted_def numeral_3_eq_3 funpow.simps comp_def id_def
  by (intro page_end_task page_start page_new)

lemma demo_started:
  defines "s \<equiv> eg_start 0 (engine_new demo_cfg (new_seeds None))"
  shows "eg_tasks s = [Upgrade_timer]" "eg_running s" "\<not> eg_upgraded s" "eg_trials s = []" "eg_workerPps s = 0" "eg_cfg s = demo_cfg" "eg_lastPool s = 0"
  by (simp_all add: s_def eg_start_def startWorker_def engine_new_def)

lemma demo_pps: "rr_pulsesPerSec (gpu_runRound demo_cfg 0 demo_round) = 16384000"
  using js_round_of_int [of 16384000]
  by (simp add: gpu_runRound_def Let_def pulses_per_sec_def THREADS_def demo_round_def demo_cfg_def)

lemma demo_adopted_state:
  "adopted demo_adopted = [WebGPU] \<and> eg_tasks demo_adopted = [Gpu_round 0 demo_cfg] \<and> eg_running demo_adopted \<and> eg_worker demo_adopted = None"
proof -
  define s where "s = eg_start 0 (engine_new demo_cfg (new_seeds None))"
  note s = demo_started [folded s_def]
  define target :: rat where "target = 115 / 100"
  define u where "u = end_task demo_env s"
  have "u = s\<lparr>eg_tasks := [Gpu_init target]\<rparr>"
    using s by (simp add: u_def end_task_def tryUpgrade_def UPGRADE_MARGIN_def target_def)
  then have u: "eg_tasks u = [Gpu_init target]" "eg_running u" "eg_trials u = []" "eg_cfg u = demo_cfg" "eg_lastPool u = 0" using s by simp_all
  define v where "v = end_task demo_env u"
  have "v = u\<lparr>eg_tasks := [Gpu_bench target demo_cfg]\<rparr>"
    using u by (simp add: v_def end_task_def gpu_init_then_def demo_env_def)
  then have v: "eg_tasks v = [Gpu_bench target demo_cfg]" "eg_running v" "eg_trials v = []" "eg_cfg v = demo_cfg" "eg_lastPool v = 0" using u by simp_all
  have "end_task demo_env v = adoptGpu (eg_record (trial WebGPU (Some 16384000) True None) (v\<lparr>eg_tasks := []\<rparr>))"
    using v by (simp add: end_task_def gpu_bench_then_def demo_env_def Let_def demo_pps target_def)
  then have "adopted (end_task demo_env v) = [WebGPU] \<and> eg_tasks (end_task demo_env v) = [Gpu_round 0 demo_cfg]
      \<and> eg_running (end_task demo_env v) \<and> eg_worker (end_task demo_env v) = None"
    using v by (simp add: adoptGpu_def eg_record_def gpuLoop_def stopWorker_def adopted_def trial_def)
  moreover have "demo_adopted = end_task demo_env v" by (simp add: demo_adopted_def v_def u_def s_def numeral_3_eq_3)
  ultimately show ?thesis by simp
qed

theorem engine_choice_true_witness: "list_all (holds_tier demo_adopted) [WebGPU] \<and> eg_running demo_adopted \<and> eg_worker demo_adopted = None"
  using engine_choice_true [OF demo_adopted_page] demo_adopted_state by simp

section \<open>What the page does not do\<close>

text \<open>
  Leaving the page while a WebGPU round is awaited: the disposal destroys the device, the round is rejected,
  and the handler of the rejection starts a worker without looking at whether the engine still runs.
\<close>

theorem leaving_can_start_worker: "\<exists>s. bb84_page s True True \<and> \<not> eg_running s \<and> eg_worker s \<noteq> None"
proof -
  let ?s = "end_task lost_env (eg_dispose demo_adopted)"
  have "bb84_page ?s True True" by (intro page_end_task page_dispose demo_adopted_page)
  moreover have "eg_tasks (eg_dispose demo_adopted) = [Gpu_round 0 demo_cfg]" "\<not> eg_running (eg_dispose demo_adopted)"
    using demo_adopted_state by (simp_all add: eg_dispose_def eg_stop_def stopWorker_def)
  then have "\<not> eg_running ?s \<and> eg_worker ?s \<noteq> None"
    by (simp add: end_task_def lost_env_def gpuLoop_then_def startWorker_def)
  ultimately show ?thesis by blast
qed

text \<open>Leaving the page before its parameters arrive: the engine is disposed of first and started afterwards.\<close>

theorem leaving_can_precede_start: "\<exists>s. bb84_page s True True \<and> eg_running s \<and> eg_worker s \<noteq> None"
proof -
  let ?s = "eg_start 0 (eg_dispose (engine_new demo_cfg (new_seeds None)))"
  have "bb84_page ?s True True" by (intro page_start page_dispose page_new)
  moreover have "eg_running ?s \<and> eg_worker ?s \<noteq> None"
    by (simp add: eg_start_def Let_def startWorker_def eg_dispose_def eg_stop_def stopWorker_def engine_new_def)
  ultimately show ?thesis by blast
qed

text \<open>A tier that fails hands over to a new worker, whose pool is empty whatever the pool shown was.\<close>

theorem revert_empties_pool:
  assumes "eg_worker s = None"
  shows "\<exists>w. eg_worker (gpuLoop_then pool cfg (Inl e) now s) = Some w \<and> wk_pool w = 0 \<and> eg_lastPool (gpuLoop_then pool cfg (Inl e) now s) = eg_lastPool s"
  using assms by (simp add: gpuLoop_then_def startWorker_def)

theorem revert_empties_pool_witness:
  "\<exists>w. eg_worker (gpuLoop_then 0 demo_cfg (Inl ''device lost'') 0 demo_adopted) = Some w \<and> wk_pool w = 0"
  using revert_empties_pool [of demo_adopted] demo_adopted_state by blast

end
