(* ===== verification/Doubles.thy ===== *)
theory Doubles
  imports Prelude
begin

text \<open>
  Numbers as the language has them where a loop depends on rounding and overflow: a double is a real, one of the two
  infinities or \<^verbatim>\<open>NaN\<close>, and every operation rounds its exact result to the nearest double, ties to even, with
  subnormal numbers and with overflow to an infinity. The sign of a zero is not kept: no operation modelled here divides by
  a zero that may have one.
\<close>

datatype js_number = Fin (fin_real: real) | Inf bool | NaN

text \<open>The spacing of the doubles near \<open>y\<close> is 2 to the power of \<open>spacing y\<close>; \<open>Inf True\<close> is the negative infinity.\<close>

definition spacing :: "real \<Rightarrow> int" where
  "spacing y = max (\<lfloor>log 2 \<bar>y\<bar>\<rfloor> - 52) (- 1074)"

definition round_even :: "real \<Rightarrow> int" where
  "round_even x = (let n = \<lfloor>x\<rfloor>; d = x - of_int n in if d < 1 / 2 \<or> d = 1 / 2 \<and> even n then n else n + 1)"

definition to_double :: "real \<Rightarrow> real" where
  "to_double y = (if y = 0 then 0 else of_int (round_even (y / 2 powr of_int (spacing y))) * 2 powr of_int (spacing y))"

definition rounded :: "real \<Rightarrow> js_number" where
  "rounded y = (let r = to_double y in if \<bar>r\<bar> < 2 ^ 1024 then Fin r else Inf (r < 0))"

fun js_neg :: "js_number \<Rightarrow> bool" where
  "js_neg (Fin x) = (x < 0)"
| "js_neg (Inf b) = b"
| "js_neg NaN = False"

fun js_mul :: "js_number \<Rightarrow> js_number \<Rightarrow> js_number" where
  "js_mul (Fin x) (Fin y) = rounded (x * y)"
| "js_mul (Fin x) (Inf b) = (if x = 0 then NaN else Inf ((x < 0) \<noteq> b))"
| "js_mul (Inf b) (Fin x) = (if x = 0 then NaN else Inf ((x < 0) \<noteq> b))"
| "js_mul (Inf a) (Inf b) = Inf (a \<noteq> b)"
| "js_mul _ _ = NaN"

fun js_div :: "js_number \<Rightarrow> js_number \<Rightarrow> js_number" where
  "js_div (Fin x) (Fin y) = (if y = 0 then (if x = 0 then NaN else Inf (x < 0)) else rounded (x / y))"
| "js_div (Fin x) (Inf b) = Fin 0"
| "js_div (Inf b) (Fin x) = Inf ((x < 0) \<noteq> b)"
| "js_div _ _ = NaN"

fun js_add :: "js_number \<Rightarrow> js_number \<Rightarrow> js_number" where
  "js_add (Fin x) (Fin y) = rounded (x + y)"
| "js_add (Fin x) (Inf b) = Inf b"
| "js_add (Inf b) (Fin x) = Inf b"
| "js_add (Inf a) (Inf b) = (if a = b then Inf a else NaN)"
| "js_add _ _ = NaN"

fun js_less :: "js_number \<Rightarrow> js_number \<Rightarrow> bool" where
  "js_less (Fin x) (Fin y) = (x < y)"
| "js_less (Fin x) (Inf b) = (\<not> b)"
| "js_less (Inf b) (Fin x) = b"
| "js_less (Inf a) (Inf b) = (a \<and> \<not> b)"
| "js_less _ _ = False"

section \<open>How far rounding goes\<close>

lemma round_even_near: "of_int (round_even x) \<le> x + 1 / 2" "x - 1 / 2 \<le> of_int (round_even x)"
  by (auto simp: round_even_def Let_def; linarith)+

lemma round_even_int [simp]: "round_even (of_int n) = n"
  by (simp add: round_even_def Let_def)

lemma round_even_ge: "of_int n \<le> x \<Longrightarrow> n \<le> round_even x"
  by (auto simp: round_even_def Let_def; linarith)

lemma round_even_twice: "0 \<le> x \<Longrightarrow> of_int (round_even x) \<le> 2 * x"
proof (cases "x \<le> 1 / 2")
  case True
  assume "0 \<le> x"
  then have "\<lfloor>x\<rfloor> = 0" using True by (simp add: floor_eq_iff)
  then show ?thesis using True \<open>0 \<le> x\<close> by (auto simp: round_even_def Let_def)
next
  case False
  then show ?thesis using round_even_near(1) [of x] by linarith
qed

lemma to_double_bounds:
  assumes "0 \<le> y"
  shows "0 \<le> to_double y" "to_double y \<le> 2 * y"
proof -
  define e where "e = (2 :: real) powr of_int (spacing y)"
  have e: "0 < e" by (simp add: e_def)
  have r: "of_int (round_even (y / e)) \<le> 2 * (y / e)" "0 \<le> round_even (y / e)"
    using round_even_twice [of "y / e"] round_even_ge [of 0 "y / e"] assms e by simp_all
  show "0 \<le> to_double y" using r(2) e by (simp add: to_double_def flip: e_def)
  have "of_int (round_even (y / e)) * e \<le> 2 * (y / e) * e" using r(1) e by (intro mult_right_mono) simp_all
  then show "to_double y \<le> 2 * y" using e by (simp add: to_double_def flip: e_def)
qed

text \<open>A normal number does not fall below the power of two under it.\<close>

lemma to_double_normal:
  assumes "2 powr - 1022 \<le> y"
  shows "2 powr of_int \<lfloor>log 2 y\<rfloor> \<le> to_double y"
proof -
  have y: "0 < y" using assms less_le_trans [of 0 "2 powr - 1022" y] by simp
  then have "- 1022 \<le> log 2 y" using assms by (subst le_log_iff) simp_all
  then have "- 1022 \<le> \<lfloor>log 2 y\<rfloor>" by linarith
  then have s: "spacing y = \<lfloor>log 2 y\<rfloor> - 52" using y unfolding spacing_def by linarith
  define e where "e = (2 :: real) powr of_int (spacing y)"
  have e: "0 < e" by (simp add: e_def)
  have p: "2 powr of_int \<lfloor>log 2 y\<rfloor> = 2 ^ 52 * e"
    by (simp add: e_def s powr_diff powr_realpow flip: powr_realpow [of 2 52])
  have "2 powr of_int \<lfloor>log 2 y\<rfloor> \<le> y" using y by (subst powr_le_iff) simp_all
  then have "of_int (2 ^ 52) \<le> y / e" using e by (simp add: p field_simps)
  then have "2 ^ 52 \<le> round_even (y / e)" by (rule round_even_ge)
  then have "real_of_int (2 ^ 52) \<le> of_int (round_even (y / e))" by (simp only: of_int_le_iff)
  then have "2 ^ 52 * e \<le> of_int (round_even (y / e)) * e" using e by (intro mult_right_mono) auto
  then show ?thesis using y by (simp add: p to_double_def flip: e_def)
qed

lemma to_double_half:
  assumes "2 powr - 1022 \<le> y"
  shows "y / 2 \<le> to_double y"
proof -
  have y: "0 < y" using assms less_le_trans [of 0 "2 powr - 1022" y] by simp
  have "log 2 y < of_int \<lfloor>log 2 y\<rfloor> + 1" by linarith
  then have "y < 2 powr (of_int \<lfloor>log 2 y\<rfloor> + 1)" using y by (subst (asm) log_less_iff) simp_all
  then have "y / 2 \<le> 2 powr of_int \<lfloor>log 2 y\<rfloor>" by (simp add: powr_add)
  with to_double_normal [OF assms] show ?thesis by linarith
qed

lemma to_double_ge_1:
  assumes "1 \<le> y"
  shows "1 \<le> to_double y"
proof -
  have "(2 :: real) powr - 1022 \<le> 2 powr 0" by (subst powr_le_cancel_iff) simp_all
  then have n: "2 powr - 1022 \<le> y" using assms by simp
  have "0 \<le> log 2 y" using assms by simp
  then have "(2 :: real) powr 0 \<le> 2 powr of_int \<lfloor>log 2 y\<rfloor>" by (subst powr_le_cancel_iff) (simp_all add: le_floor_iff)
  with to_double_normal [OF n] show ?thesis by simp
qed

lemma to_double_nat:
  assumes "n < 2 ^ 53"
  shows "to_double (real n) = real n"
proof (cases "n = 0")
  case False
  define l where "l = \<lfloor>log 2 (real n)\<rfloor>"
  have "log 2 (real n) < 53"
  proof (subst log_less_iff)
    have "real n < 2 ^ 53" using assms by (simp only: of_nat_less_numeral_power_cancel_iff)
    then show "real n < 2 powr 53" by (simp add: powr_numeral)
  qed (use False in simp_all)
  then have l: "0 \<le> l" "l \<le> 52" using False by (simp_all add: l_def le_floor_iff floor_le_iff)
  then have s: "spacing (real n) = - int (nat (52 - l))" by (simp add: spacing_def l_def)
  define e where "e = (2 :: real) powr of_int (spacing (real n))"
  have e: "e = 1 / 2 ^ nat (52 - l)" unfolding e_def s
    using powr_realpow [of 2 "nat (52 - l)"] by (simp only: of_int_minus of_int_of_nat_eq powr_minus_divide)
  have "real n / e = of_int (int n * 2 ^ nat (52 - l))" by (simp add: e)
  then have "of_int (round_even (real n / e)) * e = real n" by (simp only: round_even_int) (simp add: e)
  then show ?thesis using False by (simp add: to_double_def flip: e_def)
qed (simp add: to_double_def)

lemma rounded_fin:
  assumes "0 \<le> y" "2 * y < 2 ^ 1024"
  shows "rounded y = Fin (to_double y)"
  using to_double_bounds [OF assms(1)] assms(2) by (simp add: rounded_def Let_def)

lemma rounded_nat: "n < 2 ^ 53 \<Longrightarrow> rounded (real n) = Fin (real n)"
proof -
  assume n: "n < 2 ^ 53"
  then have "real n < 2 ^ 53" by (simp only: of_nat_less_numeral_power_cancel_iff)
  moreover have "(2 :: real) ^ 53 \<le> 2 ^ 1024" by (intro power_increasing) simp_all
  ultimately have "real n < 2 ^ 1024" by linarith
  with n show ?thesis by (simp add: rounded_def to_double_nat)
qed

end
