(* ===== verification/Protocol_Rates.thy ===== *)
theory Protocol_Rates
  imports Keyrate Doubles
begin

text \<open>
  The asymptotic rates of three QKD families, \<^verbatim>\<open>lib/sim/protocolRates.ts\<close>: MDI-QKD, BBM92 and decoy BB84, the
  search for the best intensity, and the longest distance by bisection. Numbers are reals, as in \<open>Keyrate\<close>.

  The Bessel function is the exception. Its loop stops when a summand no longer counts, which depends on rounding and
  on overflow, so it is modelled over \<open>js_number\<close>, the doubles of \<open>Doubles\<close>, as a partial function: \<open>None\<close> is a call
  that never returns.
\<close>

section \<open>The Bessel function\<close>

text \<open>The loop, from its \<open>k\<close>-th pass on.\<close>

partial_function (option) bessel_loop :: "js_number \<Rightarrow> js_number \<Rightarrow> js_number \<Rightarrow> js_number \<Rightarrow> js_number option" where
  "bessel_loop x k t acc =
     (let t = js_mul t (js_div (js_div (js_mul x x) (Fin 4)) (js_mul k k));
          acc = js_add acc t
      in if js_less t (js_mul (rounded (1 / 10 ^ 17)) acc) then Some acc else bessel_loop x (js_add k (Fin 1)) t acc)"

definition besselI0 :: "js_number \<Rightarrow> js_number option" where
  "besselI0 x = bessel_loop x (Fin 1) (Fin 1) (Fin 1)"

text \<open>
  Where the result is used among reals, it is the real it stands for; for the arguments of the rates there is one
  (\<open>mdi_argument_returns\<close>).
\<close>

definition bessel_real :: "real \<Rightarrow> real" where
  "bessel_real x = fin_real (the (besselI0 (rounded x)))"

section \<open>MDI-QKD\<close>

record rate_params =
  rp_alphaDbPerKm :: real
  rp_etaD :: real
  rp_pd :: real
  rp_eD :: real
  rp_f :: real

definition PUBLISHED_RATE_PARAMS :: rate_params where
  "PUBLISHED_RATE_PARAMS = \<lparr>rp_alphaDbPerKm = 0.2, rp_etaD = 0.145, rp_pd = 3 / 10 ^ 6, rp_eD = 0.015, rp_f = 1.16\<rparr>"

datatype rate_protocol = RP_bb84 | RP_bbm92 | RP_mdi

definition fibreTransmittance :: "real \<Rightarrow> real \<Rightarrow> real" where
  "fibreTransmittance alphaDbPerKm lengthKm = 10 powr ((- alphaDbPerKm * lengthKm) / 10)"

definition mdiY11 :: "real \<Rightarrow> real \<Rightarrow> real \<Rightarrow> real" where
  "mdiY11 etaA etaB pd = (1 - pd) ^ 2 *
     ((etaA * etaB) / 2 + (2 * etaA + 2 * etaB - 3 * etaA * etaB) * pd + 4 * (1 - etaA) * (1 - etaB) * pd * pd)"

definition mdiE11 :: "real \<Rightarrow> real \<Rightarrow> real \<Rightarrow> real \<Rightarrow> real" where
  "mdiE11 etaA etaB pd eD =
     (let y11 = mdiY11 etaA etaB pd
      in if y11 \<le> 0 then 0.5
         else (0.5 * y11 - (0.5 - eD) * (1 - pd) ^ 2 * (etaA * etaB) / 2) / y11)"

record gain_error =
  ge_q :: real
  ge_e :: real

definition mdiGainRect :: "real \<Rightarrow> real \<Rightarrow> real \<Rightarrow> real \<Rightarrow> real \<Rightarrow> real \<Rightarrow> gain_error" where
  "mdiGainRect etaA etaB muA muB pd eD =
     (let muPrime = etaA * muA + etaB * muB;
          x = sqrt (etaA * muA * etaB * muB) / 2;
          qC = 2 * (1 - pd) ^ 2 * exp (- muPrime / 2)
             * (1 - (1 - pd) * exp ((- etaA * muA) / 2)) * (1 - (1 - pd) * exp ((- etaB * muB) / 2));
          qE = 2 * pd * (1 - pd) ^ 2 * exp (- muPrime / 2) * (bessel_real (2 * x) - (1 - pd) * exp (- muPrime / 2));
          q = qC + qE
      in \<lparr>ge_q = q, ge_e = (if q > 0 then (eD * qC + (1 - eD) * qE) / q else 0.5)\<rparr>)"

definition mdiRate :: "real \<Rightarrow> real \<Rightarrow> real \<Rightarrow> real \<Rightarrow> real \<Rightarrow> real \<Rightarrow> real \<Rightarrow> real" where
  "mdiRate etaA etaB muA muB pd eD f =
     (let q11 = muA * muB * exp (- muA - muB) * mdiY11 etaA etaB pd;
          g = mdiGainRect etaA etaB muA muB pd eD
      in q11 * (1 - H2 (mdiE11 etaA etaB pd eD)) - ge_q g * f * H2 (ge_e g))"

section \<open>BBM92 and BB84\<close>

definition bbm92GainQber :: "real \<Rightarrow> real \<Rightarrow> real \<Rightarrow> real \<Rightarrow> real \<Rightarrow> gain_error" where
  "bbm92GainQber etaA etaB lambda y0 eD =
     (let a = 1 + etaA * lambda;
          b = 1 + etaB * lambda;
          c = 1 + etaA * lambda + etaB * lambda - etaA * etaB * lambda;
          q = 1 - (1 - y0) / (a * a) - (1 - y0) / (b * b) + ((1 - y0) * (1 - y0)) / (c * c)
      in if q \<le> 0 then \<lparr>ge_q = 0, ge_e = 0.5\<rparr>
         else \<lparr>ge_q = q, ge_e = (0.5 * q - (2 * (0.5 - eD) * etaA * etaB * lambda * (1 + lambda)) / (a * b * c)) / q\<rparr>)"

definition bbm92Rate :: "real \<Rightarrow> real \<Rightarrow> real \<Rightarrow> real \<Rightarrow> real \<Rightarrow> real \<Rightarrow> real" where
  "bbm92Rate etaA etaB lambda y0 eD f =
     (let g = bbm92GainQber etaA etaB lambda y0 eD in ge_q g * (1 - f * H2 (ge_e g) - H2 (ge_e g)))"

record bb84_terms =
  bt_q :: real
  bt_e :: real
  bt_q1 :: real
  bt_e1 :: real

definition bb84Terms :: "real \<Rightarrow> real \<Rightarrow> real \<Rightarrow> real \<Rightarrow> bb84_terms" where
  "bb84Terms eta mu y0 eD =
     (let q = gainQmu y0 eta mu;
          y1 = y0 + eta - y0 * eta
      in \<lparr>bt_q = q, bt_e = qberEmu y0 eta eD mu, bt_q1 = y1 * mu * exp (- mu),
          bt_e1 = (if y1 > 0 then (y0 / 2 + eD * eta) / y1 else 0.5)\<rparr>)"

definition bb84Rate :: "real \<Rightarrow> real \<Rightarrow> real \<Rightarrow> real \<Rightarrow> real \<Rightarrow> real" where
  "bb84Rate eta mu y0 eD f = (let t = bb84Terms eta mu y0 eD in bt_q1 t * (1 - H2 (bt_e1 t)) - f * bt_q t * H2 (bt_e t))"

text \<open>\<open>None\<close> is \<^verbatim>\<open>Infinity\<close>.\<close>

definition plobBound :: "real \<Rightarrow> real option" where
  "plobBound eta = (if eta > 0 \<and> eta < 1 then Some (- log 2 (1 - eta)) else None)"

section \<open>The best intensity\<close>

definition INTENSITY_LO :: real where "INTENSITY_LO = 1 / 10 ^ 4"
definition INTENSITY_HI :: real where "INTENSITY_HI = 3"
definition GRID_POINTS :: nat where "GRID_POINTS = 61"
definition GOLDEN_STEPS :: nat where "GOLDEN_STEPS = 48"
definition GOLDEN_RATIO :: real where "GOLDEN_RATIO = (sqrt 5 - 1) / 2"

definition grid_ratio :: "real \<Rightarrow> real \<Rightarrow> real" where
  "grid_ratio lo hi = (hi / lo) powr (1 / real (GRID_POINTS - 1))"

text \<open>The loop over the grid; the best value starts at \<^verbatim>\<open>-Infinity\<close>, which is \<open>None\<close>.\<close>

definition grid_step :: "(real \<Rightarrow> real) \<Rightarrow> real \<Rightarrow> real \<Rightarrow> nat \<times> real option \<Rightarrow> nat \<Rightarrow> nat \<times> real option" where
  "grid_step fn lo ratio = (\<lambda>(bestI, bestV) i.
     let v = fn (lo * ratio ^ i)
     in if (case bestV of None \<Rightarrow> True | Some w \<Rightarrow> v > w) then (i, Some v) else (bestI, bestV))"

definition grid_best :: "(real \<Rightarrow> real) \<Rightarrow> real \<Rightarrow> real \<Rightarrow> nat \<times> real option" where
  "grid_best fn lo ratio = foldl (grid_step fn lo ratio) (0, None) [0..<GRID_POINTS]"

record bracket_state =
  bs_a :: real
  bs_b :: real
  bs_c :: real
  bs_d :: real
  bs_fc :: real
  bs_fd :: real

definition golden_step :: "(real \<Rightarrow> real) \<Rightarrow> bracket_state \<Rightarrow> bracket_state" where
  "golden_step fn s =
     (if bs_fc s > bs_fd s
      then let s = s\<lparr>bs_b := bs_d s, bs_d := bs_c s, bs_fd := bs_fc s\<rparr>;
               s = s\<lparr>bs_c := bs_b s - GOLDEN_RATIO * (bs_b s - bs_a s)\<rparr>
           in s\<lparr>bs_fc := fn (bs_c s)\<rparr>
      else let s = s\<lparr>bs_a := bs_c s, bs_c := bs_d s, bs_fc := bs_fd s\<rparr>;
               s = s\<lparr>bs_d := bs_a s + GOLDEN_RATIO * (bs_b s - bs_a s)\<rparr>
           in s\<lparr>bs_fd := fn (bs_d s)\<rparr>)"

definition golden_start :: "(real \<Rightarrow> real) \<Rightarrow> real \<Rightarrow> real \<Rightarrow> bracket_state" where
  "golden_start fn a b =
     (let c = b - GOLDEN_RATIO * (b - a); d = a + GOLDEN_RATIO * (b - a)
      in \<lparr>bs_a = a, bs_b = b, bs_c = c, bs_d = d, bs_fc = fn c, bs_fd = fn d\<rparr>)"

text \<open>The value and where it is taken.\<close>

definition bestOver :: "(real \<Rightarrow> real) \<Rightarrow> real \<Rightarrow> real \<Rightarrow> real \<times> real" where
  "bestOver fn lo hi =
     (let ratio = grid_ratio lo hi;
          (bestI, bestV) = grid_best fn lo ratio;
          a = lo * ratio ^ (bestI - 1);
          b = lo * ratio ^ min (GRID_POINTS - 1) (bestI + 1);
          s = (golden_step fn ^^ GOLDEN_STEPS) (golden_start fn a b);
          best_at = (if bs_fc s > bs_fd s then bs_c s else bs_d s);
          v = max (bs_fc s) (bs_fd s)
      in if (case bestV of None \<Rightarrow> True | Some w \<Rightarrow> v \<ge> w) then (v, best_at) else (the bestV, lo * ratio ^ bestI))"

section \<open>Rate and distance\<close>

definition backgroundPerSide :: "real \<Rightarrow> real" where
  "backgroundPerSide pd = 1 - (1 - pd) * (1 - pd)"

definition rate_function :: "rate_protocol \<Rightarrow> real \<Rightarrow> rate_params \<Rightarrow> real \<Rightarrow> real \<Rightarrow> real" where
  "rate_function protocol lengthKm p relayShare =
     (let etaA = rp_etaD p * fibreTransmittance (rp_alphaDbPerKm p) (lengthKm * relayShare);
          etaB = rp_etaD p * fibreTransmittance (rp_alphaDbPerKm p) (lengthKm * (1 - relayShare))
      in case protocol of
           RP_bb84 \<Rightarrow> (let eta = rp_etaD p * fibreTransmittance (rp_alphaDbPerKm p) lengthKm; y0 = backgroundPerSide (rp_pd p)
             in (\<lambda>mu. bb84Rate eta mu y0 (rp_eD p) (rp_f p)))
         | RP_bbm92 \<Rightarrow> (let y0 = backgroundPerSide (rp_pd p) in (\<lambda>lambda. bbm92Rate etaA etaB lambda y0 (rp_eD p) (rp_f p)))
         | RP_mdi \<Rightarrow> (let balance = etaA / etaB in (\<lambda>mu. mdiRate etaA etaB mu (mu * balance) (rp_pd p) (rp_eD p) (rp_f p))))"

text \<open>The rate and the intensity chosen for it.\<close>

definition ratePoint :: "rate_protocol \<Rightarrow> real \<Rightarrow> rate_params \<Rightarrow> real \<Rightarrow> real \<times> real option" where
  "ratePoint protocol lengthKm p relayShare =
     (let (v, best_at) = bestOver (rate_function protocol lengthKm p relayShare) INTENSITY_LO INTENSITY_HI
      in if v > 0 then (v, Some best_at) else (0, None))"

text \<open>The bisection: it ends because the interval is halved until it is at most 0.1 km.\<close>

function bisect :: "(real \<Rightarrow> bool) \<Rightarrow> real \<Rightarrow> real \<Rightarrow> real" where
  "bisect key lo hi =
     (if hi - lo > 1 / 10
      then let mid = (lo + hi) / 2 in if key mid then bisect key mid hi else bisect key lo mid
      else lo)"
  by auto

termination
proof (relation "measure (\<lambda>(key, lo, hi). nat \<lceil>20 * (hi - lo)\<rceil>)")
  have half: "nat \<lceil>20 * (d / 2)\<rceil> < nat \<lceil>20 * d\<rceil>" if "d > 1 / 10" for d :: real
  proof -
    have "20 * (d / 2) + 1 < 20 * d" using that by linarith
    then have "\<lceil>20 * (d / 2)\<rceil> + 1 \<le> \<lceil>20 * d\<rceil>" by linarith
    moreover have "0 \<le> \<lceil>20 * (d / 2)\<rceil>" using that by linarith
    ultimately show ?thesis by linarith
  qed
  have e: "hi - (lo + hi) / 2 = (hi - lo) / 2" "(lo + hi) / 2 - lo = (hi - lo) / 2" for lo hi :: real by (simp_all add: field_simps)
  show "\<And>key (lo :: real) hi mid. hi - lo > 1 / 10 \<Longrightarrow> mid = (lo + hi) / 2 \<Longrightarrow> key mid \<Longrightarrow> ((key, mid, hi), key, lo, hi) \<in> measure (\<lambda>(key, lo, hi). nat \<lceil>20 * (hi - lo)\<rceil>)"
    using half by (simp only: in_measure split_conv e)
  show "\<And>key (lo :: real) hi mid. hi - lo > 1 / 10 \<Longrightarrow> mid = (lo + hi) / 2 \<Longrightarrow> \<not> key mid \<Longrightarrow> ((key, lo, mid), key, lo, hi) \<in> measure (\<lambda>(key, lo, hi). nat \<lceil>20 * (hi - lo)\<rceil>)"
    using half by (simp only: in_measure split_conv e)
qed simp

declare bisect.simps [simp del]

text \<open>The rounding to a tenth is \<^verbatim>\<open>Math.round\<close>.\<close>

definition maxDistanceKm :: "rate_protocol \<Rightarrow> rate_params \<Rightarrow> real \<Rightarrow> real \<Rightarrow> real" where
  "maxDistanceKm protocol p relayShare topKm =
     (let rate = (\<lambda>km. fst (ratePoint protocol km p relayShare))
      in if rate 0 \<le> 0 then 0
         else if rate topKm > 0 then topKm
         else of_int \<lfloor>bisect (\<lambda>km. rate km > 0) 0 topKm * 10 + 1 / 2\<rfloor> / 10)"

end
