(* ===== verification/Protocol_Rates_Claims.thy ===== *)
theory Protocol_Rates_Claims
  imports Protocol_Rates
begin

text \<open>The properties of the searches behind the rate curves: they end, and what they return is attained.\<close>

section \<open>The Bessel function\<close>

text \<open>What bounds a summand and the sum at the \<open>k\<close>-th pass: from the twelfth pass on every summand is at most half the last.\<close>

definition summand_bound :: "nat \<Rightarrow> real" where
  "summand_bound k = (if k \<le> 12 then 2 ^ (7 * k) else 2 ^ 96 / 2 ^ k)"

lemma summand_bound_le: "summand_bound k \<le> 2 ^ 84"
proof (cases "k \<le> 12")
  case True
  then have "(2 :: real) ^ (7 * k) \<le> 2 ^ 84" by (intro power_increasing) simp_all
  with True show ?thesis by (simp add: summand_bound_def)
next
  case False
  then have "(2 :: real) ^ 12 \<le> 2 ^ k" by (intro power_increasing) simp_all
  then show ?thesis using False by (simp add: summand_bound_def field_simps)
qed

lemma summand_shrinks:
  assumes "1 \<le> k" "0 \<le> t" "t \<le> summand_bound k" "t' \<le> 64 * t / (real k * real k)"
  shows "t' \<le> summand_bound (Suc k)" "12 \<le> k \<Longrightarrow> t' \<le> t / 2"
proof -
  have k2: "real k * real k = real (k * k)" by simp
  have small: "t' \<le> 64 * t"
  proof -
    have "(1 :: real) \<le> real k * real k" using mult_mono [of 1 "real k" 1 "real k"] assms(1) by simp
    then have "64 * t / (real k * real k) \<le> 64 * t / 1" using assms(2) by (intro divide_left_mono) simp_all
    then have "64 * t / (real k * real k) \<le> 64 * t" by simp
    with assms(4) show ?thesis by linarith
  qed
  show half: "t' \<le> t / 2" if "12 \<le> k"
  proof -
    have "144 \<le> k * k" using mult_le_mono [OF that that] by simp
    then have "(144 :: real) \<le> real k * real k" unfolding k2 by linarith
    then have "64 * t / (real k * real k) \<le> 64 * t / 144" using assms(2) by (intro divide_left_mono) simp_all
    with assms(2,4) show ?thesis by linarith
  qed
  show "t' \<le> summand_bound (Suc k)"
  proof (cases "12 \<le> k")
    case True
    then have "summand_bound k = 2 ^ 96 / 2 ^ k" by (cases "k = 12") (simp_all add: summand_bound_def)
    then show ?thesis using half [OF True] assms(3) True by (simp add: summand_bound_def)
  next
    case False
    have "64 * t \<le> 128 * 2 ^ (7 * k)" using False assms(2,3) by (simp add: summand_bound_def)
    then have "t' \<le> 2 ^ (7 * Suc k)" using small by (simp add: power_add)
    then show ?thesis using False by (simp add: summand_bound_def)
  qed
qed

lemma tolerance: "rounded (1 / 10 ^ 17) = Fin (to_double (1 / 10 ^ 17))" "1 / (2 * 10 ^ 17) \<le> to_double (1 / 10 ^ 17)"
  "to_double (1 / 10 ^ 17) \<le> 1"
proof -
  have big: "(1 :: real) \<le> 2 ^ 1024" by (rule one_le_power) simp
  show "rounded (1 / 10 ^ 17) = Fin (to_double (1 / 10 ^ 17))" using big by (intro rounded_fin) simp_all
  have "(2 :: real) powr - 1022 \<le> 2 powr - 60" by (subst powr_le_cancel_iff) simp_all
  also have "\<dots> = 1 / 2 ^ 60" by (simp add: powr_minus_divide powr_numeral)
  also have "\<dots> \<le> 1 / 10 ^ 17" by simp
  finally show "1 / (2 * 10 ^ 17) \<le> to_double (1 / 10 ^ 17)" using to_double_half [of "1 / 10 ^ 17"] by simp
  show "to_double (1 / 10 ^ 17) \<le> 1" using to_double_bounds(2) [of "1 / 10 ^ 17"] by simp
qed

lemma finite_range: "y \<le> 2 ^ 1000 \<Longrightarrow> 0 \<le> y \<Longrightarrow> rounded y = Fin (to_double y)" for y :: real
proof (rule rounded_fin)
  assume y: "y \<le> 2 ^ 1000"
  have "(2 :: real) ^ 1001 < 2 ^ 1024" by (intro power_strict_increasing) simp_all
  with y show "2 * y < 2 ^ 1024" by simp
qed

text \<open>One pass.\<close>

lemma bessel_pass:
  assumes q: "0 \<le> q" "q \<le> 16" "js_div (js_mul x x) (Fin 4) = Fin q" and k: "1 \<le> k" "k \<le> 156"
    and t: "0 \<le> t" "t \<le> summand_bound k" and acc: "1 \<le> acc" "acc \<le> 2 ^ (90 + 2 * k)"
  shows "\<exists>t' acc'. 0 \<le> t' \<and> t' \<le> summand_bound (Suc k) \<and> 1 \<le> acc' \<and> acc' \<le> 2 ^ (90 + 2 * Suc k) \<and> (k = 156 \<longrightarrow> t' < 1 / (4 * 10 ^ 17))
    \<and> bessel_loop x (Fin (real k)) (Fin t) (Fin acc)
      = (if 1 / (4 * 10 ^ 17) \<le> t' \<and> \<not> t' < to_double (to_double (1 / 10 ^ 17) * acc') then bessel_loop x (Fin (real (Suc k))) (Fin t') (Fin acc')
         else Some (Fin acc'))"
proof -
  define kk where "kk = real k * real k"
  define u where "u = to_double (q / kk)"
  define t' where "t' = to_double (t * u)"
  define acc' where "acc' = to_double (acc + t')"
  have kk: "1 \<le> kk" unfolding kk_def using mult_mono [of 1 "real k" 1 "real k"] k(1) by simp
  have pw: "(2 :: real) ^ m \<le> 2 ^ n" if "m \<le> n" for m n using that by (intro power_increasing) simp_all
  have "k * k \<le> 156 * 156" using k(2) by (intro mult_le_mono)
  then have "k * k < 2 ^ 53" by simp
  from rounded_nat [OF this] have ekk: "js_mul (Fin (real k)) (Fin (real k)) = Fin kk" by (simp add: kk_def)
  have "Suc k < 2 ^ 53" using k(2) by simp
  from rounded_nat [OF this] have ek: "js_add (Fin (real k)) (Fin 1) = Fin (real (Suc k))" by (simp add: add.commute)
  have qk: "0 \<le> q / kk" "q / kk \<le> 16" using q kk by (simp_all add: divide_le_eq mult_mono)
  then have eu: "rounded (q / kk) = Fin u" unfolding u_def using pw [of 4 1000] by (intro finite_range) simp_all
  have u: "0 \<le> u" "u \<le> 2 * (q / kk)" using to_double_bounds [OF qk(1)] by (simp_all add: u_def)
  have tb: "t \<le> 2 ^ 84" using t(2) summand_bound_le [of k] by linarith
  have u32: "u \<le> 2 ^ 5" using u(2) qk(2) by simp
  have tu: "0 \<le> t * u" "t * u \<le> 2 ^ 84 * 2 ^ 5" using t(1) u(1) mult_mono [OF tb u32] by simp_all
  then have et: "rounded (t * u) = Fin t'" unfolding t'_def using pw [of 89 1000] by (intro finite_range) simp_all
  have t': "0 \<le> t'" "t' \<le> 2 * (t * u)" using to_double_bounds [OF tu(1)] by (simp_all add: t'_def)
  have "t * u \<le> t * (2 * (q / kk))" using t(1) u(2) by (intro mult_left_mono)
  also have "\<dots> \<le> t * (2 * (16 / kk))" using t(1) q(2) kk by (intro mult_left_mono divide_right_mono) simp_all
  finally have sh: "t' \<le> 64 * t / (real k * real k)" using t'(2) by (simp add: kk_def)
  note shr = summand_shrinks [OF k(1) t sh]
  have t84: "t' \<le> 2 ^ (90 + 2 * k)" using shr(1) summand_bound_le [of "Suc k"] pw [of 84 "90 + 2 * k"] by linarith
  have sum: "1 \<le> acc + t'" "acc + t' \<le> 2 ^ (91 + 2 * k)" using acc t'(1) t84 by (simp_all add: power_add)
  have "(2 :: real) ^ (91 + 2 * k) \<le> 2 ^ 1000" using k(2) by (intro pw) simp
  then have ea: "rounded (acc + t') = Fin acc'" unfolding acc'_def using sum by (intro finite_range) linarith+
  have acc': "1 \<le> acc'" "acc' \<le> 2 ^ (90 + 2 * Suc k)"
    using to_double_ge_1 [OF sum(1)] to_double_bounds [of "acc + t'"] sum by (simp_all add: acc'_def power_add)
  let ?c = "to_double (1 / 10 ^ 17)"
  have ca: "1 / (2 * 10 ^ 17) \<le> ?c * acc'" "?c * acc' \<le> acc'"
    using tolerance(2,3) acc'(1) mult_mono [of "1 / (2 * 10 ^ 17)" ?c 1 acc'] mult_right_mono [of ?c 1 acc'] by simp_all
  have "(2 :: real) ^ (90 + 2 * Suc k) \<le> 2 ^ 1000" using k(2) by (intro pw) simp
  moreover have "0 \<le> ?c * acc'" using ca(1) less_le_trans [of 0 "1 / (2 * 10 ^ 17)"] by (simp add: order.trans [OF _ ca(1)])
  ultimately have ec: "rounded (?c * acc') = Fin (to_double (?c * acc'))" using ca(2) acc'(2) by (intro finite_range) linarith+
  have "(2 :: real) powr - 1022 \<le> 2 powr - 60" by (subst powr_le_cancel_iff) simp_all
  also have "\<dots> = 1 / 2 ^ 60" by (simp add: powr_minus_divide powr_numeral)
  also have "\<dots> \<le> ?c * acc'" using ca(1) by simp
  finally have tol: "1 / (4 * 10 ^ 17) \<le> to_double (?c * acc')" using to_double_half [of "?c * acc'"] ca(1) by simp
  have ops: "js_div (Fin q) (Fin kk) = Fin u" "js_mul (Fin t) (Fin u) = Fin t'" "js_add (Fin acc) (Fin t') = Fin acc'"
    "js_mul (rounded (1 / 10 ^ 17)) (Fin acc') = Fin (to_double (?c * acc'))"
    using kk by (simp_all only: js_div.simps js_mul.simps js_add.simps tolerance(1) eu et ea ec) simp
  have "bessel_loop x (Fin (real k)) (Fin t) (Fin acc) = (if t' < to_double (?c * acc') then Some (Fin acc') else bessel_loop x (Fin (real (Suc k))) (Fin t') (Fin acc'))"
    by (subst bessel_loop.simps) (simp only: Let_def q(3) ekk ops ek js_less.simps)
  moreover have "k = 156 \<longrightarrow> t' < 1 / (4 * 10 ^ 17)"
  proof
    assume "k = 156"
    then have "t' \<le> 2 ^ 96 / 2 ^ 156 / 2" using shr(2) t(2) by (simp add: summand_bound_def)
    then show "t' < 1 / (4 * 10 ^ 17)" by simp
  qed
  ultimately show ?thesis using t'(1) shr(1) acc' tol by (intro exI [of _ t'] exI [of _ acc']) auto
qed

lemma bessel_bounded:
  assumes "0 \<le> q" "q \<le> 16" "js_div (js_mul x x) (Fin 4) = Fin q"
  shows "1 \<le> k \<Longrightarrow> k \<le> 156 \<Longrightarrow> 0 \<le> t \<Longrightarrow> t \<le> summand_bound k \<Longrightarrow> 1 \<le> acc \<Longrightarrow> acc \<le> 2 ^ (90 + 2 * k)
    \<Longrightarrow> \<exists>y \<ge> 1. bessel_loop x (Fin (real k)) (Fin t) (Fin acc) = Some (Fin y)"
proof (induction "156 - k" arbitrary: k t acc rule: less_induct)
  case less
  from bessel_pass [OF assms less.prems] obtain t' acc' where p: "0 \<le> t'" "t' \<le> summand_bound (Suc k)" "1 \<le> acc'" "acc' \<le> 2 ^ (90 + 2 * Suc k)"
    "k = 156 \<longrightarrow> t' < 1 / (4 * 10 ^ 17)"
    "bessel_loop x (Fin (real k)) (Fin t) (Fin acc)
      = (if 1 / (4 * 10 ^ 17) \<le> t' \<and> \<not> t' < to_double (to_double (1 / 10 ^ 17) * acc') then bessel_loop x (Fin (real (Suc k))) (Fin t') (Fin acc')
         else Some (Fin acc'))" by blast
  show ?case
  proof (cases "1 / (4 * 10 ^ 17) \<le> t' \<and> \<not> t' < to_double (to_double (1 / 10 ^ 17) * acc')")
    case True
    then have k: "k < 156" using p(5) less.prems(2) by (cases "k = 156") auto
    have "\<exists>y \<ge> 1. bessel_loop x (Fin (real (Suc k))) (Fin t') (Fin acc') = Some (Fin y)"
      using less.hyps [of "Suc k" t' acc'] k p(1-4) by simp
    then show ?thesis using True p(6) by simp
  next
    case False
    then show ?thesis using p(3,6) by auto
  qed
qed

lemma bessel_square:
  assumes "\<bar>x\<bar> \<le> 4"
  shows "\<exists>q. 0 \<le> q \<and> q \<le> 16 \<and> js_div (js_mul (Fin x) (Fin x)) (Fin 4) = Fin q"
proof -
  have pw: "(32 :: real) \<le> 2 ^ 1000" using power_increasing [of 5 1000 "2 :: real"] by simp
  have "\<bar>x\<bar> * \<bar>x\<bar> \<le> 4 * 4" using assms by (intro mult_mono) simp_all
  then have xx: "0 \<le> x * x" "x * x \<le> 16" by simp_all
  let ?s = "to_double (x * x)"
  have s: "0 \<le> ?s" "?s \<le> 32" using to_double_bounds [OF xx(1)] xx(2) by linarith+
  have e: "rounded (x * x) = Fin ?s" "rounded (?s / 4) = Fin (to_double (?s / 4))"
    using xx s pw by (intro finite_range; linarith)+
  have "0 \<le> to_double (?s / 4)" "to_double (?s / 4) \<le> 16" using to_double_bounds [of "?s / 4"] s by simp_all
  with e show ?thesis by auto
qed

lemma bessel_returns:
  assumes "\<bar>x\<bar> \<le> 4"
  shows "\<exists>y \<ge> 1. besselI0 (Fin x) = Some (Fin y)"
proof -
  obtain q where "0 \<le> q" "q \<le> 16" "js_div (js_mul (Fin x) (Fin x)) (Fin 4) = Fin q" using bessel_square [OF assms] by blast
  from bessel_bounded [OF this, of 1 1 1] show ?thesis by (simp add: besselI0_def summand_bound_def)
qed

text \<open>Once the square has overflowed, or is \<^verbatim>\<open>NaN\<close>, no pass is the last.\<close>

definition unbounded :: "js_number \<Rightarrow> bool" where
  "unbounded s \<longleftrightarrow> s = Inf False \<or> s = NaN"

lemma square_sign: "js_mul k k \<noteq> Inf True \<and> (\<forall>r. js_mul k k = Fin r \<longrightarrow> 0 \<le> r)"
proof (cases k)
  case (Fin a)
  have "0 \<le> to_double (a * a)" by (rule to_double_bounds) simp
  then show ?thesis by (auto simp: Fin rounded_def Let_def)
qed simp_all

lemma unbounded_div: "unbounded s \<Longrightarrow> js_mul k k = kk \<Longrightarrow> unbounded (js_div s kk)"
  using square_sign [of k] by (cases kk) (auto simp: unbounded_def)

lemma unbounded_mul: "unbounded s \<Longrightarrow> unbounded t \<or> (\<exists>r > 0. t = Fin r) \<Longrightarrow> unbounded (js_mul t s)"
  by (auto simp: unbounded_def)

lemma unbounded_add: "unbounded s \<Longrightarrow> unbounded (js_add acc s)"
  by (cases acc) (auto simp: unbounded_def)

lemma unbounded_less: "unbounded s \<Longrightarrow> unbounded t \<Longrightarrow> \<not> js_less s t"
  by (auto simp: unbounded_def)

lemma bessel_runs_on:
  assumes "bessel_loop x k t acc = Some y"
  shows "unbounded (js_div (js_mul x x) (Fin 4)) \<longrightarrow> \<not> (unbounded t \<or> (\<exists>r > 0. t = Fin r))"
proof (rule bessel_loop.raw_induct [where P = "\<lambda>x k t acc y. unbounded (js_div (js_mul x x) (Fin 4)) \<longrightarrow> \<not> (unbounded t \<or> (\<exists>r > 0. t = Fin r))"
      and xa = "(((x, k), t), acc)" and y = y, unfolded prod.case, OF _ assms], goal_cases)
  case (1 rec x k t acc y)
  let ?t = "js_mul t (js_div (js_div (js_mul x x) (Fin 4)) (js_mul k k))"
  show ?case
  proof (intro impI notI)
    assume q: "unbounded (js_div (js_mul x x) (Fin 4))" and t: "unbounded t \<or> (\<exists>r > 0. t = Fin r)"
    have ut: "unbounded ?t" using unbounded_mul [OF unbounded_div [OF q refl] t] .
    have "0 < to_double (1 / 10 ^ 17)" using tolerance(2) by (rule less_le_trans [rotated]) simp
    then have "unbounded (rounded (1 / 10 ^ 17)) \<or> (\<exists>r > 0. rounded (1 / 10 ^ 17) = Fin r)" unfolding tolerance(1) by blast
    from unbounded_mul [OF unbounded_add [OF ut] this]
    have "unbounded (js_mul (rounded (1 / 10 ^ 17)) (js_add acc ?t))" .
    with ut have "\<not> js_less ?t (js_mul (rounded (1 / 10 ^ 17)) (js_add acc ?t))" by (rule unbounded_less)
    with 1(2) have "rec x (js_add k (Fin 1)) ?t (js_add acc ?t) = Some y" by (simp add: Let_def)
    from 1(1) [OF this] q ut show False by blast
  qed
qed

lemma bessel_never:
  assumes "unbounded (js_div (js_mul x x) (Fin 4))"
  shows "besselI0 x = None"
proof (rule ccontr)
  assume "besselI0 x \<noteq> None"
  then obtain y where "bessel_loop x (Fin 1) (Fin 1) (Fin 1) = Some y" by (auto simp: besselI0_def)
  from bessel_runs_on [OF this] assms show False by auto
qed

lemma bessel_overflow:
  assumes "2 ^ 513 \<le> \<bar>x\<bar>"
  shows "js_mul (Fin x) (Fin x) = Inf False"
proof -
  have "(2 :: real) ^ 513 * 2 ^ 513 \<le> \<bar>x\<bar> * \<bar>x\<bar>" using assms by (intro mult_mono) simp_all
  then have xx: "2 ^ 1026 \<le> x * x" by (simp flip: power_add)
  have "(2 :: real) powr - 1022 \<le> 2 powr 1026" by (subst powr_le_cancel_iff) simp_all
  also have "\<dots> = 2 ^ 1026" by (simp add: powr_numeral)
  finally have "2 powr - 1022 \<le> x * x" using xx by linarith
  from to_double_half [OF this] xx have "2 ^ 1025 \<le> to_double (x * x)" by simp
  moreover have "(2 :: real) ^ 1024 < 2 ^ 1025" by (intro power_strict_increasing) simp_all
  ultimately have "\<not> to_double (x * x) < 2 ^ 1024" by linarith
  moreover have "0 \<le> to_double (x * x)" by (rule to_double_bounds) simp
  ultimately show ?thesis by (simp add: rounded_def Let_def)
qed

text \<open>
  The rates stay on the safe side: for an efficiency of at most 1, up to the largest intensity of the search, the argument
  is at most 3 before rounding, for any length and place of the relay, so that the number they use is the one returned.
\<close>

lemma mdi_argument_returns:
  assumes "0 \<le> rp_etaD p" "rp_etaD p \<le> 1" "0 \<le> rp_alphaDbPerKm p" "0 \<le> lengthKm" "0 \<le> share"
    and mu: "0 \<le> mu" "mu \<le> INTENSITY_HI"
    and etaA: "etaA = rp_etaD p * fibreTransmittance (rp_alphaDbPerKm p) (lengthKm * share)"
    and etaB: "etaB = rp_etaD p * fibreTransmittance (rp_alphaDbPerKm p) (lengthKm * (1 - share))"
    and z: "z = 2 * (sqrt (etaA * mu * etaB * (mu * (etaA / etaB))) / 2)"
  shows "0 \<le> z \<and> z \<le> 3 \<and> besselI0 (rounded z) = Some (Fin (bessel_real z)) \<and> 1 \<le> bessel_real z"
proof -
  have pos: "0 < fibreTransmittance a l" for a l by (simp add: fibreTransmittance_def)
  have A: "0 \<le> etaA" using assms(1) pos [of "rp_alphaDbPerKm p" "lengthKm * share"] by (simp add: etaA)
  have "fibreTransmittance (rp_alphaDbPerKm p) (lengthKm * share) \<le> 10 powr 0"
    unfolding fibreTransmittance_def using assms(3-5) by (intro powr_mono) simp_all
  then have "etaA \<le> 1 * 1" unfolding etaA using assms(1,2) pos [of "rp_alphaDbPerKm p" "lengthKm * share"] by (intro mult_mono) simp_all
  then have m: "0 \<le> etaA * mu" "etaA * mu \<le> 3" using A mu mult_mono [of etaA 1 mu 3] by (simp_all add: INTENSITY_HI_def)
  have "z = etaA * mu"
  proof (cases "etaB = 0")
    case True
    then have "rp_etaD p = 0" using pos [of "rp_alphaDbPerKm p" "lengthKm * (1 - share)"] by (simp add: etaB)
    then show ?thesis by (simp add: etaA z)
  next
    case False
    then have "etaA * mu * etaB * (mu * (etaA / etaB)) = (etaA * mu) * (etaA * mu)" by simp
    then show ?thesis using m(1) by (simp only: z real_sqrt_mult_self) simp
  qed
  then have zr: "0 \<le> z" "z \<le> 3" using m by simp_all
  have "to_double z \<le> z + 1 / 2 \<and> 0 \<le> to_double z"
  proof (cases "z = 0")
    case False
    define e where "e = (2 :: real) powr of_int (spacing z)"
    have "log 2 z \<le> 2" using zr False by (subst log_le_iff) simp_all
    then have "spacing z \<le> 0" using zr False unfolding spacing_def by linarith
    then have "e \<le> 2 powr 0" unfolding e_def by (intro powr_mono) simp_all
    then have e: "0 < e" "e \<le> 1" by (simp_all add: e_def)
    have "of_int (round_even (z / e)) * e \<le> (z / e + 1 / 2) * e" using round_even_near(1) [of "z / e"] e by (intro mult_right_mono) simp_all
    also have "\<dots> = z + e / 2" using e(1) by (simp add: distrib_right)
    finally have "to_double z \<le> z + 1 / 2" using e(2) False by (simp add: to_double_def flip: e_def)
    then show ?thesis using to_double_bounds(1) [OF zr(1)] by simp
  qed (simp add: to_double_def)
  then have t: "0 \<le> to_double z" "to_double z \<le> 4" using zr by simp_all
  have r: "rounded z = Fin (to_double z)"
    using zr power_increasing [of 2 1000 "2 :: real"] by (intro finite_range) simp_all
  obtain y where y: "1 \<le> y" "besselI0 (Fin (to_double z)) = Some (Fin y)" using bessel_returns [of "to_double z"] t by auto
  then have "bessel_real z = y" by (simp add: bessel_real_def r)
  with zr y show ?thesis by (simp add: r)
qed

text \<open>
  C30. Where the Bessel series ends, and where it does not. On doubles, the loop returns for every argument from -4 to 4,
  and the number returned is at least 1; it never returns for an argument of 2 to the power of 513 or more in size, for
  an infinity or for \<^verbatim>\<open>NaN\<close>, because a summand that has overflowed is never less than a share of the sum.
\<close>

theorem besselI0_returns:
  "(\<bar>x\<bar> \<le> 4 \<longrightarrow> (\<exists>y \<ge> 1. besselI0 (Fin x) = Some (Fin y)))
    \<and> (2 ^ 513 \<le> \<bar>x\<bar> \<longrightarrow> besselI0 (Fin x) = None) \<and> besselI0 (Inf b) = None \<and> besselI0 NaN = None"
proof -
  have "besselI0 (Fin x) = None" if "2 ^ 513 \<le> \<bar>x\<bar>"
    by (rule bessel_never) (simp only: bessel_overflow [OF that], simp add: unbounded_def)
  moreover have "besselI0 (Inf b) = None" "besselI0 NaN = None"
    by (rule bessel_never, simp add: unbounded_def)+
  ultimately show ?thesis using bessel_returns by blast
qed

theorem besselI0_returns_witness:
  "(\<exists>y \<ge> 1. besselI0 (Fin (- 3)) = Some (Fin y)) \<and> besselI0 (Fin (2 ^ 600)) = None \<and> besselI0 (Inf True) = None"
proof -
  have "(2 :: real) ^ 513 \<le> 2 ^ 600" by (intro power_increasing) simp_all
  then have "2 ^ 513 \<le> \<bar>(2 :: real) ^ 600\<bar>" by (simp only: abs_power2 abs_of_nonneg zero_le_power zero_le_numeral)
  with besselI0_returns [of "2 ^ 600"] have "besselI0 (Fin (2 ^ 600)) = None" by blast
  moreover have "\<exists>y \<ge> 1. besselI0 (Fin (- 3)) = Some (Fin y)" using besselI0_returns [of "- 3"] by simp
  moreover have "besselI0 (Inf True) = None" using besselI0_returns by blast
  ultimately show ?thesis by blast
qed

section \<open>BBM92 from its photon pairs\<close>

text \<open>
  The source emits \<open>n\<close> pairs with a thermal probability; either side clicks on the background or on one of its \<open>n\<close>
  photons. Of the \<open>n\<close> pairs, \<open>m\<close> have one polarisation at Alice and the rest the other, each \<open>m\<close> equally likely, and Bob
  has as many of the opposite ones: the error is that of a coin, 1/2, less what the imbalance between the two
  polarisations on both sides gives away (Ma, Fung and Lo, 2007, Appendix A).
\<close>

definition pair_probability :: "real \<Rightarrow> nat \<Rightarrow> real" where
  "pair_probability lambda n = real (Suc n) * lambda ^ n / (1 + lambda) ^ (n + 2)"

definition side_clicks :: "real \<Rightarrow> real \<Rightarrow> nat \<Rightarrow> real" where
  "side_clicks eta y0 n = 1 - (1 - y0) * (1 - eta) ^ n"

definition pair_yield :: "real \<Rightarrow> real \<Rightarrow> real \<Rightarrow> nat \<Rightarrow> real" where
  "pair_yield etaA etaB y0 n = side_clicks etaA y0 n * side_clicks etaB y0 n"

definition imbalance :: "real \<Rightarrow> nat \<Rightarrow> nat \<Rightarrow> real" where
  "imbalance eta n m = (1 - eta) ^ m - (1 - eta) ^ (n - m)"

definition pair_wrong :: "real \<Rightarrow> real \<Rightarrow> real \<Rightarrow> real \<Rightarrow> nat \<Rightarrow> real" where
  "pair_wrong etaA etaB y0 eD n = pair_yield etaA etaB y0 n / 2
     - (1 / 2 - eD) * (\<Sum>m\<le>n. imbalance etaA n m * imbalance etaB n m) / real (Suc n)"

lemma thermal_sums:
  assumes "0 \<le> lambda" "0 \<le> s" "s \<le> 1"
  shows "(\<lambda>n. pair_probability lambda n * s ^ n) sums (1 / (1 + lambda * (1 - s)) ^ 2)"
proof -
  define z where "z = lambda / (1 + lambda)"
  have z: "0 \<le> z" "z < 1" using assms(1) by (simp_all add: z_def)
  have "z * s \<le> z * 1" using z(1) assms(3) by (intro mult_left_mono) simp_all
  then have zs: "norm (z * s) < 1" using z assms(2) by simp
  have l: "1 + lambda \<noteq> 0" using assms(1) by simp
  have "(\<lambda>n. 1 / (1 + lambda) ^ 2 * (real (Suc n) * (z * s) ^ n)) sums (1 / (1 + lambda) ^ 2 * (1 / (1 - z * s) ^ 2))"
    by (intro sums_mult geometric_deriv_sums zs)
  moreover have "1 / (1 + lambda) ^ 2 * (real (Suc n) * (z * s) ^ n) = pair_probability lambda n * s ^ n" for n
    using l by (simp add: pair_probability_def z_def power_divide power_mult_distrib power_add divide_simps power2_eq_square)
  moreover have "1 / (1 + lambda) ^ 2 * (1 / (1 - z * s) ^ 2) = 1 / (1 + lambda * (1 - s)) ^ 2"
  proof -
    have "(1 + lambda) * (1 - z * s) = 1 + lambda * (1 - s)" using l by (simp add: z_def field_simps)
    then show ?thesis by (simp flip: power_mult_distrib)
  qed
  ultimately show ?thesis by simp
qed

lemma geometric_product:
  assumes "\<bar>a\<bar> < 1" "\<bar>b\<bar> < (1 :: real)"
  shows "(\<lambda>n. \<Sum>m\<le>n. a ^ m * b ^ (n - m)) sums (1 / (1 - a) * (1 / (1 - b)))"
proof -
  have "summable (\<lambda>k. norm (a ^ k))" "summable (\<lambda>k. norm (b ^ k))" using assms by (simp_all add: power_abs summable_geometric)
  from Cauchy_product_sums [OF this] show ?thesis using assms by (simp add: suminf_geometric)
qed

text \<open>What the imbalances add up to.\<close>

lemma imbalance_sums:
  fixes etaA etaB lambda :: real
  assumes "0 \<le> lambda" "0 \<le> etaA" "etaA \<le> 1" "0 \<le> etaB" "etaB \<le> 1"
  defines "a \<equiv> 1 + etaA * lambda" and "b \<equiv> 1 + etaB * lambda" and "c \<equiv> 1 + etaA * lambda + etaB * lambda - etaA * etaB * lambda"
  shows "(\<lambda>n. pair_probability lambda n * ((\<Sum>m\<le>n. imbalance etaA n m * imbalance etaB n m) / real (Suc n)))
    sums (2 * etaA * etaB * lambda * (1 + lambda) / (a * b * c))"
proof -
  define x where "x = 1 - etaA"
  define y where "y = 1 - etaB"
  define l where "l = 1 + lambda"
  define z where "z = lambda / l"
  have xy: "0 \<le> x" "x \<le> 1" "0 \<le> y" "y \<le> 1" using assms(2-5) by (simp_all add: x_def y_def)
  have l: "0 < l" using assms(1) by (simp add: l_def)
  have z: "0 \<le> z" "z < 1" using assms(1) l by (simp_all add: z_def l_def)
  have lt: "\<bar>z * s\<bar> < 1" if "0 \<le> s" "s \<le> 1" for s
    using mult_left_mono [OF that(2) z(1)] z that(1) by simp
  have p: "0 \<le> x * y" "x * y \<le> 1" using xy mult_mono [of x 1 y 1] by simp_all
  have s1: "(\<lambda>n. \<Sum>m\<le>n. (z * (x * y)) ^ m * z ^ (n - m)) sums (1 / (1 - z * (x * y)) * (1 / (1 - z)))"
    using geometric_product [of "z * (x * y)" z] lt [OF p] lt [of 1] by simp
  have s2: "(\<lambda>n. \<Sum>m\<le>n. (z * x) ^ m * (z * y) ^ (n - m)) sums (1 / (1 - z * x) * (1 / (1 - z * y)))"
    using geometric_product [of "z * x" "z * y"] lt xy by simp
  have flip: "(\<Sum>m\<le>n. f (n - m)) = (\<Sum>m\<le>n. f m)" for f :: "nat \<Rightarrow> real" and n
    by (rule sum.reindex_bij_witness [where i = "\<lambda>m. n - m" and j = "\<lambda>m. n - m"]) auto
  have im: "(\<Sum>m\<le>n. imbalance etaA n m * imbalance etaB n m) = 2 * (\<Sum>m\<le>n. (x * y) ^ m) - 2 * (\<Sum>m\<le>n. x ^ m * y ^ (n - m))" for n
  proof -
    have "(\<Sum>m\<le>n. imbalance etaA n m * imbalance etaB n m)
        = (\<Sum>m\<le>n. (x * y) ^ m) + (\<Sum>m\<le>n. (x * y) ^ (n - m)) - (\<Sum>m\<le>n. x ^ m * y ^ (n - m)) - (\<Sum>m\<le>n. x ^ (n - m) * y ^ m)"
      by (simp add: imbalance_def algebra_simps power_mult_distrib sum.distrib sum_subtractf flip: x_def y_def)
    moreover have "(\<Sum>m\<le>n. (x * y) ^ (n - m)) = (\<Sum>m\<le>n. (x * y) ^ m)" by (rule flip)
    moreover have "(\<Sum>m\<le>n. x ^ (n - m) * y ^ m) = (\<Sum>m\<le>n. x ^ m * y ^ (n - m))"
      using flip [of "\<lambda>m. x ^ m * y ^ (n - m)" n] by simp
    ultimately show ?thesis by simp
  qed
  have "pair_probability lambda n * ((\<Sum>m\<le>n. imbalance etaA n m * imbalance etaB n m) / real (Suc n))
      = 2 / l ^ 2 * ((\<Sum>m\<le>n. (z * (x * y)) ^ m * z ^ (n - m)) - (\<Sum>m\<le>n. (z * x) ^ m * (z * y) ^ (n - m)))" for n
  proof -
    have "z ^ n * g m = z ^ m * z ^ (n - m) * g m" if "m \<le> n" for g :: "nat \<Rightarrow> real" and m using that by (simp flip: power_add)
    then have e: "z ^ n * (\<Sum>m\<le>n. g m) = (\<Sum>m\<le>n. z ^ m * z ^ (n - m) * g m)" for g :: "nat \<Rightarrow> real"
      by (auto simp: sum_distrib_left intro: sum.cong)
    have "pair_probability lambda n * ((\<Sum>m\<le>n. imbalance etaA n m * imbalance etaB n m) / real (Suc n))
        = 1 / l ^ 2 * (z ^ n * (\<Sum>m\<le>n. imbalance etaA n m * imbalance etaB n m))"
      using l by (simp add: pair_probability_def z_def power_divide power_add power2_eq_square flip: l_def)
    also have "\<dots> = 2 / l ^ 2 * (z ^ n * (\<Sum>m\<le>n. (x * y) ^ m) - z ^ n * (\<Sum>m\<le>n. x ^ m * y ^ (n - m)))"
      by (simp add: im right_diff_distrib mult_ac)
    finally show ?thesis by (simp add: e power_mult_distrib mult_ac)
  qed
  moreover have "(\<lambda>n. 2 / l ^ 2 * ((\<Sum>m\<le>n. (z * (x * y)) ^ m * z ^ (n - m)) - (\<Sum>m\<le>n. (z * x) ^ m * (z * y) ^ (n - m))))
      sums (2 / l ^ 2 * (1 / (1 - z * (x * y)) * (1 / (1 - z)) - 1 / (1 - z * x) * (1 / (1 - z * y))))"
    by (intro sums_mult sums_diff s1 s2)
  moreover have "2 / l ^ 2 * (1 / (1 - z * (x * y)) * (1 / (1 - z)) - 1 / (1 - z * x) * (1 / (1 - z * y)))
      = 2 * etaA * etaB * lambda * (1 + lambda) / (a * b * c)"
  proof -
    have c_alt: "c = 1 + lambda * (1 - x * y)" by (simp add: c_def x_def y_def algebra_simps)
    have pos: "0 < a" "0 < b" "0 < c"
      using assms(1,2,4) p by (simp_all add: a_def b_def c_alt add_pos_nonneg)
    have "1 - z * x = a / l" "1 - z * y = b / l" "1 - z * (x * y) = c / l" "1 - z = 1 / l"
      using l by (simp_all add: z_def a_def b_def c_alt x_def y_def l_def field_simps)
    then have "2 / l ^ 2 * (1 / (1 - z * (x * y)) * (1 / (1 - z)) - 1 / (1 - z * x) * (1 / (1 - z * y))) = 2 * (1 / c - 1 / (a * b))"
      using l by (simp add: power2_eq_square right_diff_distrib)
    also have "\<dots> = 2 * (a * b - c) / (a * b * c)" using pos by (simp add: field_simps)
    also have "a * b - c = etaA * etaB * lambda * (1 + lambda)" by (simp add: a_def b_def c_def algebra_simps)
    finally show ?thesis by (simp add: mult_ac)
  qed
  ultimately show ?thesis by simp
qed

lemma yield_sums:
  assumes "0 \<le> lambda" "0 \<le> etaA" "etaA \<le> 1" "0 \<le> etaB" "etaB \<le> 1"
  shows "(\<lambda>n. pair_probability lambda n * pair_yield etaA etaB y0 n) sums
    (1 - (1 - y0) / (1 + etaA * lambda) ^ 2 - (1 - y0) / (1 + etaB * lambda) ^ 2
      + (1 - y0) * (1 - y0) / (1 + etaA * lambda + etaB * lambda - etaA * etaB * lambda) ^ 2)"
proof -
  let ?x = "1 - etaA" and ?y = "1 - etaB"
  have p: "0 \<le> ?x * ?y" "?x * ?y \<le> 1" using assms mult_mono [of ?x 1 ?y 1] by simp_all
  have cs: "1 + lambda * (1 - ?x) = 1 + etaA * lambda" "1 + lambda * (1 - ?y) = 1 + etaB * lambda" by simp_all
  have c: "1 + lambda * (1 - ?x * ?y) = 1 + etaA * lambda + etaB * lambda - etaA * etaB * lambda" by (simp add: algebra_simps)
  have "(\<lambda>n. pair_probability lambda n * 1 ^ n - (1 - y0) * (pair_probability lambda n * ?x ^ n) - (1 - y0) * (pair_probability lambda n * ?y ^ n)
      + (1 - y0) * (1 - y0) * (pair_probability lambda n * (?x * ?y) ^ n))
    sums (1 / (1 + lambda * (1 - 1)) ^ 2 - (1 - y0) * (1 / (1 + lambda * (1 - ?x)) ^ 2) - (1 - y0) * (1 / (1 + lambda * (1 - ?y)) ^ 2)
      + (1 - y0) * (1 - y0) * (1 / (1 + lambda * (1 - ?x * ?y)) ^ 2))"
    using assms p by (intro sums_add sums_diff sums_mult thermal_sums) simp_all
  moreover have "pair_probability lambda n * 1 ^ n - (1 - y0) * (pair_probability lambda n * ?x ^ n) - (1 - y0) * (pair_probability lambda n * ?y ^ n)
      + (1 - y0) * (1 - y0) * (pair_probability lambda n * (?x * ?y) ^ n) = pair_probability lambda n * pair_yield etaA etaB y0 n" for n
    unfolding power_mult_distrib pair_yield_def side_clicks_def by (simp add: algebra_simps)
  ultimately show ?thesis unfolding c cs by simp
qed

text \<open>
  C32. The gain and the error rate of BBM92 are those of its photon pairs. For efficiencies, a background probability and
  a mean pair number in their ranges, the probabilities of emitting 0, 1, 2 and so on pairs add up to 1; the gain the code
  computes in closed form is the sum, over the number of pairs, of the probability of emitting it times that of a click on
  both sides; and gain times error rate is the sum of the probabilities of emitting it and getting a wrong bit.
\<close>

theorem bbm92_from_pairs:
  assumes "0 \<le> etaA" "etaA \<le> 1" "0 \<le> etaB" "etaB \<le> 1" "0 \<le> lambda" "0 \<le> y0" "y0 \<le> 1"
    and "g = bbm92GainQber etaA etaB lambda y0 eD"
  shows "pair_probability lambda sums 1
    \<and> (\<lambda>n. pair_probability lambda n * pair_yield etaA etaB y0 n) sums ge_q g
    \<and> (\<lambda>n. pair_probability lambda n * pair_wrong etaA etaB y0 eD n) sums (ge_q g * ge_e g)"
proof -
  define a where "a = 1 + etaA * lambda"
  define b where "b = 1 + etaB * lambda"
  define c where "c = 1 + etaA * lambda + etaB * lambda - etaA * etaB * lambda"
  define q where "q = 1 - (1 - y0) / (a * a) - (1 - y0) / (b * b) + ((1 - y0) * (1 - y0)) / (c * c)"
  define w where "w = 2 * etaA * etaB * lambda * (1 + lambda) / (a * b * c)"
  have Q: "(\<lambda>n. pair_probability lambda n * pair_yield etaA etaB y0 n) sums q"
    using yield_sums [OF assms(5,1-4), of y0] by (simp add: q_def a_def b_def c_def power2_eq_square)
  have W: "(\<lambda>n. pair_probability lambda n * ((\<Sum>m\<le>n. imbalance etaA n m * imbalance etaB n m) / real (Suc n))) sums w"
    using imbalance_sums [OF assms(5,1-4)] by (simp add: w_def a_def b_def c_def)
  have "(\<lambda>n. pair_probability lambda n * pair_yield etaA etaB y0 n / 2
      - (1 / 2 - eD) * (pair_probability lambda n * ((\<Sum>m\<le>n. imbalance etaA n m * imbalance etaB n m) / real (Suc n)))) sums (q / 2 - (1 / 2 - eD) * w)"
    by (intro sums_diff sums_divide sums_mult Q W)
  then have E: "(\<lambda>n. pair_probability lambda n * pair_wrong etaA etaB y0 eD n) sums (q / 2 - (1 / 2 - eD) * w)"
    by (simp add: pair_wrong_def right_diff_distrib mult_ac)
  have pr: "0 \<le> pair_probability lambda n" for n using assms(5) by (simp add: pair_probability_def)
  have side: "0 \<le> side_clicks eta y0 n" if "0 \<le> eta" "eta \<le> 1" for eta n
    using mult_mono [of "1 - y0" 1 "(1 - eta) ^ n" 1] that assms(6,7) by (simp add: side_clicks_def power_le_one)
  have yd: "0 \<le> pair_yield etaA etaB y0 n" for n unfolding pair_yield_def using side assms(1-4) by (intro mult_nonneg_nonneg) simp_all
  have q0: "0 \<le> q" using Q pr yd by (intro sums_le [OF _ sums_zero Q]) (simp add: mult_nonneg_nonneg)
  have g: "ge_q g = q \<and> ge_q g * ge_e g = q / 2 - (1 / 2 - eD) * w"
  proof (cases "q \<le> 0")
    case False
    have e: "2 * (1 / 2 - eD) * etaA * etaB * lambda * (1 + lambda) / (a * b * c) = (1 / 2 - eD) * w" by (simp only: w_def times_divide_eq_right mult_ac)
    have "g = \<lparr>ge_q = q, ge_e = (1 / 2 * q - 2 * (1 / 2 - eD) * etaA * etaB * lambda * (1 + lambda) / (a * b * c)) / q\<rparr>"
      using False by (simp add: assms(8) bbm92GainQber_def Let_def q_def a_def b_def c_def)
    then show ?thesis using False unfolding e by simp
  next
    case True
    have z: "q = 0" using True q0 by simp
    have "pair_probability lambda 1 * pair_yield etaA etaB y0 1 = 0"
    proof -
      have "pair_probability lambda 1 * pair_yield etaA etaB y0 1 \<le> suminf (\<lambda>n. pair_probability lambda n * pair_yield etaA etaB y0 n)"
        using sum_le_suminf [OF sums_summable [OF Q], of "{1}"] pr yd by simp
      then have "pair_probability lambda 1 * pair_yield etaA etaB y0 1 \<le> 0" using z by (simp add: sums_unique [OF Q, symmetric])
      then show ?thesis using mult_nonneg_nonneg [OF pr yd, of 1 1] by (rule antisym)
    qed
    moreover have "etaA \<le> side_clicks etaA y0 1" "etaB \<le> side_clicks etaB y0 1"
      using assms(1-4,6) mult_left_le_one_le [of y0 etaA] mult_left_le_one_le [of y0 etaB] by (simp_all add: side_clicks_def algebra_simps)
    ultimately have "lambda = 0 \<or> etaA = 0 \<or> etaB = 0"
      using assms(1,3,5) by (auto simp: pair_probability_def pair_yield_def)
    then have "w = 0" by (auto simp: w_def)
    moreover have "g = \<lparr>ge_q = 0, ge_e = 1 / 2\<rparr>"
      using True by (simp add: assms(8) bbm92GainQber_def Let_def q_def a_def b_def c_def)
    ultimately show ?thesis using z by simp
  qed
  have one: "pair_probability lambda sums 1" using thermal_sums [OF assms(5), of 1] by simp
  show ?thesis unfolding conjunct2 [OF g] using one Q E conjunct1 [OF g] by simp
qed

theorem bbm92_from_pairs_witness:
  "(\<lambda>n. pair_probability 1 n * pair_yield (1 / 2) (1 / 2) 0 n) sums (1 - 4 / 9 - 4 / 9 + 16 / 49)"
proof -
  have "ge_q (bbm92GainQber (1 / 2) (1 / 2) 1 0 (1 / 10)) = 1 - 4 / 9 - 4 / 9 + 16 / 49" by (simp add: bbm92GainQber_def Let_def)
  with bbm92_from_pairs [of "1 / 2" "1 / 2" 1 0 _ "1 / 10", OF _ _ _ _ _ _ _ refl] show ?thesis by simp
qed

section \<open>The best intensity\<close>

lemma grid_prefix:
  "0 < n \<Longrightarrow> case foldl (grid_step fn lo ratio) (0, None) [0..<n] of
     (bi, None) \<Rightarrow> False | (bi, Some w) \<Rightarrow> w = fn (lo * ratio ^ bi) \<and> (\<forall>i < n. fn (lo * ratio ^ i) \<le> w)"
proof (induction n)
  case (Suc n)
  show ?case
  proof (cases n)
    case 0
    then show ?thesis by (simp add: grid_step_def)
  next
    case (Suc m)
    then obtain bi w where f: "foldl (grid_step fn lo ratio) (0, None) [0..<n] = (bi, Some w)" "w = fn (lo * ratio ^ bi)"
      "\<forall>i < n. fn (lo * ratio ^ i) \<le> w" using Suc.IH by (auto split: prod.splits option.splits)
    show ?thesis
    proof (cases "fn (lo * ratio ^ n) > w")
      case True
      then have "\<forall>i < Suc n. fn (lo * ratio ^ i) \<le> fn (lo * ratio ^ n)" using f(3) by (auto simp: less_Suc_eq intro: order_trans)
      then show ?thesis using True f(1) by (simp add: grid_step_def)
    next
      case False
      then have "\<forall>i < Suc n. fn (lo * ratio ^ i) \<le> w" using f(3) by (auto simp: less_Suc_eq)
      then show ?thesis using False f(1,2) by (simp add: grid_step_def)
    qed
  qed
qed simp

lemma golden_values: "bs_fc ((golden_step fn ^^ n) (golden_start fn a b)) = fn (bs_c ((golden_step fn ^^ n) (golden_start fn a b)))
    \<and> bs_fd ((golden_step fn ^^ n) (golden_start fn a b)) = fn (bs_d ((golden_step fn ^^ n) (golden_start fn a b)))"
  by (induction n) (auto simp: golden_start_def golden_step_def Let_def)

lemma bestOver_value:
  "fst (bestOver fn lo hi) = fn (snd (bestOver fn lo hi)) \<and> (\<forall>i < GRID_POINTS. fn (lo * grid_ratio lo hi ^ i) \<le> fst (bestOver fn lo hi))"
proof -
  obtain bi bv where g: "grid_best fn lo (grid_ratio lo hi) = (bi, bv)" by (cases "grid_best fn lo (grid_ratio lo hi)")
  then obtain w where w: "bv = Some w" "w = fn (lo * grid_ratio lo hi ^ bi)" "\<forall>i < GRID_POINTS. fn (lo * grid_ratio lo hi ^ i) \<le> w"
    using grid_prefix [of GRID_POINTS fn lo "grid_ratio lo hi"] by (auto simp: grid_best_def GRID_POINTS_def split: prod.splits option.splits)
  show ?thesis
    using w golden_values [where fn = fn and n = GOLDEN_STEPS]
    by (auto simp: bestOver_def Let_def g max_def intro: order_trans)
qed

text \<open>
  The search returns a value the function takes. The value found is the function's at the intensity returned,
  and no point of the logarithmic grid gives more: the golden section can only improve on the grid.
\<close>

theorem bestOver_attained:
  "fst (bestOver fn lo hi) = fn (snd (bestOver fn lo hi)) \<and> (\<forall>i < GRID_POINTS. fn (lo * grid_ratio lo hi ^ i) \<le> fst (bestOver fn lo hi))"
  by (rule bestOver_value)

theorem bestOver_attained_witness:
  "fst (bestOver (\<lambda>x. x) 1 3) = snd (bestOver (\<lambda>x. x) 1 3) \<and> 1 \<le> fst (bestOver (\<lambda>x. x) 1 3)"
proof -
  have "1 * grid_ratio 1 3 ^ 0 \<le> fst (bestOver (\<lambda>x. x) 1 3)"
    using bestOver_attained [of "\<lambda>x. x" 1 3] by (simp only: GRID_POINTS_def) force
  then show ?thesis using bestOver_attained [of "\<lambda>x. x" 1 3] by simp
qed

lemma ratePoint_result: "ratePoint pr km p sh = (r, x) \<Longrightarrow> 0 \<le> r \<and> (x = None \<longleftrightarrow> r = 0)
    \<and> (\<forall>i. x = Some i \<longrightarrow> r = rate_function pr km p sh i)"
  using bestOver_value [of "rate_function pr km p sh" INTENSITY_LO INTENSITY_HI]
  by (auto simp: ratePoint_def split: prod.splits if_splits)

section \<open>The longest distance\<close>

lemma bisect_sound:
  "key lo \<Longrightarrow> \<not> key hi \<Longrightarrow> lo < hi \<Longrightarrow> lo \<le> bisect key lo hi
    \<and> key (bisect key lo hi) \<and> (\<exists>d. \<not> key d \<and> bisect key lo hi < d \<and> d \<le> bisect key lo hi + 1 / 10 \<and> d \<le> hi)"
proof (induction key lo hi rule: bisect.induct)
  case (1 key lo hi)
  show ?case
  proof (cases "hi - lo > 1 / 10")
    case True
    then show ?thesis using 1 by (subst (1 2 3 4) bisect.simps) (force simp: Let_def)
  next
    case False
    then show ?thesis using 1(3-5) by (subst (1 2 3 4) bisect.simps) auto
  qed
qed

text \<open>
  The longest distance is where the key ends. The bisection returns 0 when there is no key without fibre, and
  the top of the range when there is still key there; otherwise the number returned, which is rounded to a tenth of a
  kilometre, is within half a tenth of a distance at which there is key and within a tenth of which there is none.
\<close>

theorem maxDistance_sound:
  assumes "0 < topKm"
  shows "let key = (\<lambda>km. fst (ratePoint pr km p sh) > 0); r = maxDistanceKm pr p sh topKm in
    if \<not> key 0 then r = 0 else if key topKm then r = topKm
    else \<exists>d d'. key d \<and> \<not> key d' \<and> 0 \<le> d \<and> d < d' \<and> d' \<le> d + 1 / 10 \<and> d' \<le> topKm \<and> \<bar>r - d\<bar> \<le> 1 / 20"
proof -
  define key where "key = (\<lambda>km. fst (ratePoint pr km p sh) > 0)"
  let ?b = "bisect key 0 topKm"
  have round: "\<bar>of_int \<lfloor>x * 10 + 1 / 2\<rfloor> / 10 - x\<bar> \<le> 1 / 20" for x :: real by linarith
  have "\<exists>d d'. key d \<and> \<not> key d' \<and> 0 \<le> d \<and> d < d' \<and> d' \<le> d + 1 / 10 \<and> d' \<le> topKm \<and> \<bar>maxDistanceKm pr p sh topKm - d\<bar> \<le> 1 / 20"
    if k: "key 0" "\<not> key topKm"
  proof -
    have e: "maxDistanceKm pr p sh topKm = of_int \<lfloor>?b * 10 + 1 / 2\<rfloor> / 10"
      using k by (simp add: maxDistanceKm_def Let_def key_def not_less)
    have "\<bar>maxDistanceKm pr p sh topKm - ?b\<bar> \<le> 1 / 20" unfolding e by (rule round)
    then show ?thesis using bisect_sound [OF k assms] by blast
  qed
  moreover have "\<not> key 0 \<Longrightarrow> maxDistanceKm pr p sh topKm = 0" "key 0 \<Longrightarrow> key topKm \<Longrightarrow> maxDistanceKm pr p sh topKm = topKm"
    by (simp_all add: maxDistanceKm_def Let_def key_def)
  ultimately show ?thesis unfolding Let_def key_def by auto
qed

text \<open>The published parameters, on the page's range.\<close>

lemma near_range: "\<lbrakk>0 \<le> d; d < d'; d' \<le> h; \<bar>r - d\<bar> * 20 \<le> 1\<rbrakk> \<Longrightarrow> \<bar>r\<bar> \<le> h + 1" for r :: real
  by (simp add: abs_if split: if_splits)

theorem maxDistance_sound_witness:
  "\<bar>maxDistanceKm RP_bb84 PUBLISHED_RATE_PARAMS (1 / 2) 1000\<bar> \<le> 1001"
  using maxDistance_sound [of 1000 RP_bb84 PUBLISHED_RATE_PARAMS "1 / 2"] near_range [of _ _ 1000 "maxDistanceKm RP_bb84 PUBLISHED_RATE_PARAMS (1 / 2) 1000"]
  by (auto simp: Let_def split: if_splits)

end
