(* ===== verification/Qkd_Rounds.thy ===== *)
theory Qkd_Rounds
  imports Bb84_Worker
begin

text \<open>
  One round of BB84, BBM92 or MDI-QKD for the walk-through, \<^verbatim>\<open>lib/sim/qkdRounds.ts\<close>. The draws of a round are
  a sequence of rationals, read in order; a bit is the number 0 or 1.
\<close>

datatype round_protocol = QP_bb84 | QP_bbm92 | QP_mdi

datatype basis = Basis_Z | Basis_X

datatype relay_result = Psi_minus | Psi_plus | No_result

definition PROTOCOL_NAMES :: "round_protocol \<Rightarrow> string" where
  "PROTOCOL_NAMES p = (case p of QP_bb84 \<Rightarrow> ''BB84 (prepare and measure)'' | QP_bbm92 \<Rightarrow> ''BBM92 (entanglement-based)''
     | QP_mdi \<Rightarrow> ''MDI-QKD (untrusted relay)'')"

fun ROUND_PARTS :: "round_protocol \<Rightarrow> string list" where
  "ROUND_PARTS QP_bb84 = [''Alice prepares a state'', ''The photon crosses the fibre'', ''Bob measures'', ''They compare bases'', ''Keep or discard'']"
| "ROUND_PARTS QP_bbm92 = [''The source emits a pair'', ''One photon goes each way'', ''Both measure'', ''They compare bases'', ''Keep or discard'']"
| "ROUND_PARTS QP_mdi = [''Alice and Bob each prepare'', ''The photons meet at the relay'', ''The relay announces'', ''They compare bases'',
     ''Bob flips, or not'', ''Keep or discard'']"

record qkd_round =
  qr_protocol :: round_protocol
  qr_alice_basis :: basis
  qr_alice_bit :: nat
  qr_bob_basis :: basis
  qr_bob_bit :: nat
  qr_relay :: "relay_result option"
  qr_flip :: bool
  qr_kept :: bool
  qr_key :: "nat option"
  qr_why :: string

definition stateLabel :: "basis \<Rightarrow> nat \<Rightarrow> string" where
  "stateLabel b x = (if b = Basis_Z then (if x = 0 then ''H'' else ''V'') else (if x = 0 then ''D'' else ''A''))"

definition mdiOutcomes :: "basis \<Rightarrow> nat \<Rightarrow> basis \<Rightarrow> nat \<Rightarrow> relay_result \<Rightarrow> rat" where
  "mdiOutcomes a aBit b bBit =
     (let o3 = (\<lambda>plus minus none r. case r of Psi_plus \<Rightarrow> plus | Psi_minus \<Rightarrow> minus | No_result \<Rightarrow> none)
      in if a \<noteq> b then o3 (1 / 4) (1 / 4) (1 / 2)
         else if a = Basis_Z then (if aBit = bBit then o3 0 0 1 else o3 (1 / 2) (1 / 2) 0)
         else if aBit = bBit then o3 (1 / 2) 0 (1 / 2) else o3 0 (1 / 2) (1 / 2))"

definition mdiBobFlips :: "basis \<Rightarrow> relay_result \<Rightarrow> bool" where
  "mdiBobFlips b relay \<longleftrightarrow> relay \<noteq> No_result \<and> (b = Basis_Z \<or> relay = Psi_minus)"

definition pickBasis :: "rat \<Rightarrow> basis" where "pickBasis u = (if u < 1 / 2 then Basis_Z else Basis_X)"
definition pickBit :: "rat \<Rightarrow> nat" where "pickBit u = (if u < 1 / 2 then 0 else 1)"

definition play_mdi :: "basis \<Rightarrow> basis \<Rightarrow> (nat \<Rightarrow> rat) \<Rightarrow> qkd_round" where
  "play_mdi aBasis bBasis draw =
     (let aBit = pickBit (draw 2);
          bBit = pickBit (draw 3);
          outcome = mdiOutcomes aBasis aBit bBasis bBit;
          u = draw 4;
          relay = (if u < outcome Psi_minus then Psi_minus else if u < outcome Psi_minus + outcome Psi_plus then Psi_plus else No_result);
          same = (aBasis = bBasis);
          kept = (same \<and> relay \<noteq> No_result);
          flip = (same \<and> mdiBobFlips aBasis relay)
      in \<lparr>qr_protocol = QP_mdi, qr_alice_basis = aBasis, qr_alice_bit = aBit, qr_bob_basis = bBasis, qr_bob_bit = bBit,
          qr_relay = Some relay, qr_flip = flip, qr_kept = kept, qr_key = (if kept then Some aBit else None),
          qr_why = (if relay = No_result then ''the relay announced no result''
            else if \<not> same then ''the relay answered, but the bases differ''
            else if flip then ''same basis, and Bob flips his bit'' else ''same basis, and Bob keeps his bit'')\<rparr>)"

definition playRound :: "round_protocol \<Rightarrow> (nat \<Rightarrow> rat) \<Rightarrow> qkd_round" where
  "playRound protocol draw =
     (let aBasis = pickBasis (draw 0);
          bBasis = pickBasis (draw 1)
      in if protocol = QP_mdi then play_mdi aBasis bBasis draw
         else let aBit = pickBit (draw 2);
                  same = (aBasis = bBasis);
                  bBit = (if same then aBit else pickBit (draw 3))
              in \<lparr>qr_protocol = protocol, qr_alice_basis = aBasis, qr_alice_bit = aBit, qr_bob_basis = bBasis, qr_bob_bit = bBit,
                  qr_relay = None, qr_flip = False, qr_kept = same, qr_key = (if same then Some aBit else None),
                  qr_why = (if same then ''same basis, so the bits agree'' else ''the bases differ, so Bob's result says nothing'')\<rparr>)"

definition bobFinalBit :: "qkd_round \<Rightarrow> nat" where
  "bobFinalBit r = (if qr_flip r then 1 - qr_bob_bit r else qr_bob_bit r)"

definition partAt :: "round_protocol \<Rightarrow> rat \<Rightarrow> int" where
  "partAt protocol p =
     min (int (length (ROUND_PARTS protocol)) - 1) \<lfloor>max 0 p * of_nat (length (ROUND_PARTS protocol))\<rfloor>"

definition photonPositions :: "round_protocol \<Rightarrow> rat \<Rightarrow> rat list" where
  "photonPositions protocol p =
     (let n = of_nat (length (ROUND_PARTS protocol));
          u = max 0 (min 1 (p * n - 1))
      in if p * n < 1 \<or> p * n \<ge> 2 then []
         else (case protocol of QP_bb84 \<Rightarrow> [u] | QP_bbm92 \<Rightarrow> [1 / 2 - u / 2, 1 / 2 + u / 2] | QP_mdi \<Rightarrow> [u / 2, 1 - u / 2]))"

definition seeded_next :: "u32 \<Rightarrow> rat \<times> u32" where
  "seeded_next a =
     (let a = a + 0x6d2b79f5;
          t = (a XOR drop_bit 15 a) * (a OR 1);
          t = t XOR (t + (t XOR drop_bit 7 t) * (t OR 61))
      in (of_nat (unat (t XOR drop_bit 14 t)) / 4294967296, a))"

text \<open>The draws of \<^verbatim>\<open>seededDraw\<close>, from a seed on.\<close>

fun seededDraw :: "u32 \<Rightarrow> nat \<Rightarrow> rat" where
  "seededDraw a 0 = fst (seeded_next a)"
| "seededDraw a (Suc n) = seededDraw (snd (seeded_next a)) n"

section \<open>What a kept round means\<close>

lemma seeded_is_mulberry: "seeded_next = worker_rnd"
  by (rule ext) (simp add: seeded_next_def worker_rnd_def Let_def or.commute xor.commute)

lemma worker_rnd_range: "0 \<le> fst (worker_rnd s) \<and> fst (worker_rnd s) < 1"
proof -
  have u: "unat w < 4294967296" for w :: u32 using unsigned_less [of w] by simp
  have "0 \<le> (of_nat (unat w) :: rat) / 4294967296 \<and> (of_nat (unat w) :: rat) / 4294967296 < 1" for w :: u32
  proof -
    have "(of_nat (unat w) :: rat) < of_nat 4294967296" using u [of w] by (simp only: of_nat_less_iff)
    moreover have "0 \<le> (of_nat (unat w) :: rat)" by (rule of_nat_0_le_iff)
    ultimately show ?thesis by (simp add: divide_nonneg_nonneg del: of_nat_0_le_iff unat_of_nat of_nat_unat)
  qed
  then show ?thesis unfolding worker_rnd_def Let_def fst_conv .
qed

lemma seededDraw_range: "0 \<le> seededDraw a n \<and> seededDraw a n < 1"
  by (induction n arbitrary: a) (simp_all add: seeded_is_mulberry worker_rnd_range)

lemma pickBit_values: "pickBit u = 0 \<or> pickBit u = 1"
  by (simp add: pickBit_def)

lemma play_mdi_kept:
  assumes "0 \<le> draw 4" "draw 4 < 1"
  shows "qr_kept (play_mdi a b draw) \<longrightarrow> bobFinalBit (play_mdi a b draw) = qr_alice_bit (play_mdi a b draw)"
    and "qr_flip (play_mdi a b draw) \<longrightarrow> qr_kept (play_mdi a b draw)"
  using assms pickBit_values [of "draw 2"] pickBit_values [of "draw 3"]
  by (cases a; cases b; auto simp: play_mdi_def Let_def mdiOutcomes_def mdiBobFlips_def bobFinalBit_def)+

text \<open>The relay only ever announces a result that has a chance.\<close>

lemma play_mdi_possible:
  assumes "0 \<le> draw 4" "draw 4 < 1" "qr_relay (play_mdi a b draw) = Some z"
  shows "0 < mdiOutcomes a (pickBit (draw 2)) b (pickBit (draw 3)) z"
  using assms by (auto simp: play_mdi_def Let_def mdiOutcomes_def split: if_splits)

text \<open>
  C31. A kept round gives both parties Alice's bit. Whatever draws from 0 up to but not including 1 a round reads, those
  of \<^verbatim>\<open>Math.random\<close>, which the page uses by default, as much as those of a seed, it is kept exactly when the bases
  agree and, with a relay, a result was announced; then Bob's bit, after the flip the announcement calls for, is the
  bit Alice drew, 0 or 1, and is the key of the round. A round that is not kept has no key and no flip; and a relay
  announces only a result that has a chance for the two states sent.
\<close>

theorem kept_round_agrees:
  assumes "\<And>n. 0 \<le> draw n \<and> draw n < 1" and "r = playRound pr draw"
  shows "(qr_kept r \<longleftrightarrow> qr_alice_basis r = qr_bob_basis r \<and> qr_relay r \<noteq> Some No_result)
    \<and> (qr_kept r \<longrightarrow> bobFinalBit r = qr_alice_bit r \<and> qr_key r = Some (qr_alice_bit r))
    \<and> (\<not> qr_kept r \<longrightarrow> qr_key r = None \<and> \<not> qr_flip r)
    \<and> qr_alice_bit r = (if draw 2 < 1 / 2 then 0 else 1) \<and> bobFinalBit r \<in> {0, 1}
    \<and> (qr_relay r = None \<longleftrightarrow> pr \<noteq> QP_mdi)
    \<and> (\<forall>z. qr_relay r = Some z \<longrightarrow> 0 < mdiOutcomes (qr_alice_basis r) (qr_alice_bit r) (qr_bob_basis r) (qr_bob_bit r) z)"
proof (cases "pr = QP_mdi")
  case True
  define a b where "a = pickBasis (draw 0)" and "b = pickBasis (draw 1)"
  have r: "r = play_mdi a b draw" using True assms(2) by (simp add: playRound_def a_def b_def)
  have d: "0 \<le> draw 4" "draw 4 < 1" using assms(1) by blast+
  have f: "qr_alice_basis r = a" "qr_bob_basis r = b" "qr_bob_bit r = pickBit (draw 3)"
    "qr_key r = (if qr_kept r then Some (qr_alice_bit r) else None)" "qr_relay r \<noteq> None"
    "qr_kept r \<longleftrightarrow> a = b \<and> qr_relay r \<noteq> Some No_result"
    by (simp_all add: r play_mdi_def Let_def)
  have x: "qr_alice_bit r = pickBit (draw 2)" by (simp add: r play_mdi_def Let_def)
  have y: "qr_alice_bit r = (if draw 2 < 1 / 2 then 0 else 1)" unfolding x pickBit_def ..
  have final: "bobFinalBit r \<in> {0, 1}" using pickBit_values [of "draw 3"] by (auto simp: bobFinalBit_def f(3))
  have kept: "qr_kept r \<Longrightarrow> bobFinalBit r = qr_alice_bit r" "qr_flip r \<Longrightarrow> qr_kept r"
    "qr_relay r = Some z \<Longrightarrow> 0 < mdiOutcomes a (qr_alice_bit r) b (qr_bob_bit r) z" for z
    using play_mdi_kept [of draw a b] play_mdi_possible [of draw a b z] d f(3) by (simp_all add: x flip: r)
  show ?thesis unfolding f(1,2) using True f(4-6) y final kept by auto
next
  case False
  then show ?thesis using pickBit_values [of "draw 2"] pickBit_values [of "draw 3"]
    by (auto simp: assms(2) playRound_def Let_def bobFinalBit_def pickBit_def)
qed

theorem kept_round_agrees_witness:
  "let r = playRound QP_mdi (\<lambda>n. if n = 3 then 3 / 4 else 0)
   in qr_kept r \<and> qr_flip r \<and> qr_bob_bit r \<noteq> qr_alice_bit r \<and> bobFinalBit r = qr_alice_bit r \<and> qr_key r = Some (qr_alice_bit r)"
proof -
  define r where "r = playRound QP_mdi (\<lambda>n. if n = 3 then 3 / 4 else 0)"
  have "qr_kept r \<and> qr_flip r \<and> qr_bob_bit r \<noteq> qr_alice_bit r"
    by (simp add: r_def playRound_def play_mdi_def Let_def pickBasis_def pickBit_def mdiOutcomes_def mdiBobFlips_def)
  with kept_round_agrees [OF _ r_def] show ?thesis by (simp flip: r_def)
qed

lemma partAt_range: "0 \<le> partAt pr p \<and> partAt pr p < int (length (ROUND_PARTS pr))"
  by (cases pr) (auto simp: partAt_def min_def not_le)

lemma photonPositions_range: "list_all (\<lambda>x. 0 \<le> x \<and> x \<le> 1) (photonPositions pr p)"
proof -
  have "list_all (\<lambda>x. 0 \<le> x \<and> x \<le> 1)
    (case pr of QP_bb84 \<Rightarrow> [u] | QP_bbm92 \<Rightarrow> [1 / 2 - u / 2, 1 / 2 + u / 2] | QP_mdi \<Rightarrow> [u / 2, 1 - u / 2])"
    if "0 \<le> u" "u \<le> 1" for u :: rat
    using that by (cases pr) simp_all
  then show ?thesis unfolding photonPositions_def Let_def by simp
qed

lemma mdiOutcomes_total: "mdiOutcomes a x b y Psi_plus + mdiOutcomes a x b y Psi_minus + mdiOutcomes a x b y No_result = 1"
  by (simp add: mdiOutcomes_def Let_def)

end
