(* ===== verification/Exports.thy ===== *)
theory Exports
  imports Base64
begin

text \<open>
  What the pages save, \<^verbatim>\<open>lib/exporters.ts\<close>: the order of the download and of the copy for the gallery, the stamp
  of a JSON export, the text of a CSV export, and the timing and encoding of an animated GIF.

  The browser and the server are the environment: a rendered frame, the answer to a request and the clock are
  arguments. What an export does to the outside is the list \<open>ex_io\<close>, in order. A number is carried in a JSON or CSV
  value as JavaScript renders it. \<open>Inl\<close> is a thrown error with its message.
\<close>

section \<open>Delivering a file\<close>

record blob =
  bl_type :: string
  bl_bytes :: bytes

datatype io = Downloaded blob string | Posted string string string | Warned string

record exporter =
  ex_io :: "io list"
  ex_notice :: string

definition text_blob :: "string \<Rightarrow> string \<Rightarrow> blob" where
  "text_blob ty s = \<lparr>bl_type = ty, bl_bytes = encodeUtf8 s\<rparr>"

definition triggerDownload :: "blob \<Rightarrow> string \<Rightarrow> exporter \<Rightarrow> exporter" where
  "triggerDownload b filename s = s\<lparr>ex_io := ex_io s @ [Downloaded b filename]\<rparr>"

definition noteExportFallback :: "string \<Rightarrow> exporter \<Rightarrow> exporter" where
  "noteExportFallback reason s = s\<lparr>ex_notice := reason\<rparr>"

definition takeExportNotice :: "exporter \<Rightarrow> string \<times> exporter" where
  "takeExportNotice s = (ex_notice s, s\<lparr>ex_notice := ''''\<rparr>)"

text \<open>The bytes as a binary string, by chunks of \<open>0x8000\<close>.\<close>

definition CHUNK :: nat where "CHUNK = 0x8000"

function chunk_loop :: "bytes \<Rightarrow> nat \<Rightarrow> bytes \<Rightarrow> bytes" where
  "chunk_loop bs i binary =
     (if i < length bs then chunk_loop bs (i + CHUNK) (binary @ take CHUNK (drop i bs)) else binary)"
  by auto
termination by (relation "measure (\<lambda>(bs, i, binary). length bs - i)") (auto simp: CHUNK_def)

declare chunk_loop.simps [simp del]

text \<open>How the request for a copy ends: reading the file throws, the request throws, or the server answers.\<close>

datatype answer = Unreadable string | Unreachable string | Answered bool nat "string option"

definition save_copy :: "answer \<Rightarrow> blob \<Rightarrow> string \<Rightarrow> string \<Rightarrow> exporter \<Rightarrow> (string + unit) \<times> exporter" where
  "save_copy ans b name ext s =
     (case ans of
        Unreadable why \<Rightarrow> (Inl why, s)
      | _ \<Rightarrow>
        let s = s\<lparr>ex_io := ex_io s @ [Posted name ext (b64 (chunk_loop (bl_bytes b) 0 []))]\<rparr>
        in (case ans of
              Answered ok status body \<Rightarrow>
                if \<not> ok then (Inl (''backend save HTTP '' @ show_nat status), s)
                else (case body of Some why \<Rightarrow> (Inl why, s) | None \<Rightarrow> (Inr (), s))
            | Unreachable why \<Rightarrow> (Inl why, s)
            | Unreadable why \<Rightarrow> (Inl why, s)))"

definition saveToBackendAndDownload :: "answer \<Rightarrow> blob \<Rightarrow> string \<Rightarrow> string \<Rightarrow> string \<Rightarrow> bool \<Rightarrow> exporter \<Rightarrow> exporter" where
  "saveToBackendAndDownload ans b name ext filenameFallback gallery s =
     (let s = triggerDownload b filenameFallback s
      in if \<not> gallery then s
         else (case save_copy ans b name ext s of
                 (Inr _, s) \<Rightarrow> s
               | (Inl why, s) \<Rightarrow>
                   let s = noteExportFallback (''saved exports did not get a copy ('' @ why @ '')'') s
                   in s\<lparr>ex_io := ex_io s @ [Warned ''backend export catalogue save failed; the file was delivered locally'']\<rparr>))"

section \<open>The name of a file\<close>

text \<open>The UTC fields of a date: year, month from 0, day, hours, minutes, seconds.\<close>

record utc =
  u_year :: nat
  u_month :: nat
  u_day :: nat
  u_hours :: nat
  u_minutes :: nat
  u_seconds :: nat

definition pad2 :: "nat \<Rightarrow> string" where
  "pad2 n = (let s = show_nat n in replicate (2 - length s) (CHR ''0'') @ s)"

definition timestamp :: "utc \<Rightarrow> string" where
  "timestamp d = show_nat (u_year d) @ pad2 (u_month d + 1) @ pad2 (u_day d) @ ''-'' @ pad2 (u_hours d) @ pad2 (u_minutes d)
     @ pad2 (u_seconds d) @ ''Z''"

section \<open>JSON\<close>

datatype json = J_null | J_bool bool | J_number string | J_string string | J_array "json list" | J_object "(string \<times> json) list"

definition EXPORT_SCHEMA_VERSION :: nat where "EXPORT_SCHEMA_VERSION = 3"

text \<open>The spread of an object's members after the stamp: a member of the same name replaces it in place.\<close>

definition stamped :: "json \<Rightarrow> json" where
  "stamped data = (case data of
     J_object ms \<Rightarrow> J_object (fold (\<lambda>(k, v). AList.update k v) ms [(''schema_version'', J_number (show_nat EXPORT_SCHEMA_VERSION))])
   | _ \<Rightarrow> data)"

definition json_escape :: "char \<Rightarrow> string" where
  "json_escape c =
     (if c = CHR 0x22 then [CHR 0x5C, CHR 0x22]
      else if c = CHR 0x5C then [CHR 0x5C, CHR 0x5C]
      else if c = CHR 0x08 then [CHR 0x5C, CHR ''b'']
      else if c = CHR 0x0C then [CHR 0x5C, CHR ''f'']
      else if c = CHR 0x0A then [CHR 0x5C, CHR ''n'']
      else if c = CHR 0x0D then [CHR 0x5C, CHR ''r'']
      else if c = CHR 0x09 then [CHR 0x5C, CHR ''t'']
      else if of_char c < (32 :: nat) then [CHR 0x5C, CHR ''u'', CHR ''0'', CHR ''0'', hex_digit (of_char c div 16), hex_digit (of_char c mod 16)]
      else [c])"

definition json_quote :: "string \<Rightarrow> string" where
  "json_quote s = CHR 0x22 # concat (map json_escape s) @ [CHR 0x22]"

text \<open>\<^verbatim>\<open>JSON.stringify(v, null, 2)\<close>, at an indentation of \<open>d\<close> blanks.\<close>

definition json_lines :: "nat \<Rightarrow> char \<Rightarrow> char \<Rightarrow> string list \<Rightarrow> string" where
  "json_lines d l r xs = (if xs = [] then [l, r]
     else [l, CHR 0x0A] @ js_join (CHR '','' # [CHR 0x0A]) (map (\<lambda>x. replicate (d + 2) (CHR '' '') @ x) xs)
       @ [CHR 0x0A] @ replicate d (CHR '' '') @ [r])"

fun stringify :: "nat \<Rightarrow> json \<Rightarrow> string" where
  "stringify d J_null = ''null''"
| "stringify d (J_bool b) = (if b then ''true'' else ''false'')"
| "stringify d (J_number n) = n"
| "stringify d (J_string s) = json_quote s"
| "stringify d (J_array xs) = json_lines d (CHR ''['') (CHR '']'') (map (stringify (d + 2)) xs)"
| "stringify d (J_object ms) = json_lines d (CHR ''{'') (CHR ''}'') (map (\<lambda>(k, v). json_quote k @ '': '' @ stringify (d + 2) v) ms)"

definition downloadJSON :: "answer \<Rightarrow> utc \<Rightarrow> string \<Rightarrow> json \<Rightarrow> bool \<Rightarrow> exporter \<Rightarrow> exporter" where
  "downloadJSON ans now name data gallery =
     saveToBackendAndDownload ans (text_blob ''application/json'' (stringify 0 (stamped data))) name ''json''
       (name @ ''-'' @ timestamp now @ ''.json'') gallery"

section \<open>CSV\<close>

text \<open>A row is an object: its keys in order, each with a value, \<open>None\<close> for \<^verbatim>\<open>null\<close> and \<^verbatim>\<open>undefined\<close>.\<close>

type_synonym row = "(string \<times> string option) list"

definition csv_cols :: "row list \<Rightarrow> string list" where
  "csv_cols rows = foldl (\<lambda>acc r. foldl (\<lambda>acc k. if k \<in> set acc then acc else acc @ [k]) acc (map fst r)) [] rows"

definition esc :: "string option \<Rightarrow> string" where
  "esc v = (case v of
     None \<Rightarrow> ''''
   | Some v \<Rightarrow>
       let s = concat (map (\<lambda>c. if c = CHR 0x22 then [c, c] else [c]) v)
       in if list_ex (\<lambda>c. c = CHR 0x22 \<or> c = CHR '','' \<or> c = CHR 0x0A) s then CHR 0x22 # s @ [CHR 0x22] else s)"

definition cell :: "row \<Rightarrow> string \<Rightarrow> string option" where
  "cell r c = (case map_of r c of None \<Rightarrow> None | Some v \<Rightarrow> v)"

definition csvText :: "row list \<Rightarrow> string" where
  "csvText rows =
     (let cols = csv_cols rows
      in js_join [CHR 0x0A] (js_join '','' cols # map (\<lambda>r. js_join '','' (map (\<lambda>c. esc (cell r c)) cols)) rows))"

definition downloadCSV :: "answer \<Rightarrow> utc \<Rightarrow> string \<Rightarrow> row list \<Rightarrow> bool \<Rightarrow> exporter \<Rightarrow> exporter" where
  "downloadCSV ans now name rows gallery =
     (if rows = [] then saveToBackendAndDownload ans (text_blob ''text/csv'' (''# empty'' @ [CHR 0x0A])) name ''csv''
        (name @ ''-'' @ timestamp now @ ''.csv'') gallery
      else saveToBackendAndDownload ans (text_blob ''text/csv'' (csvText rows)) name ''csv''
        (name @ ''-'' @ timestamp now @ ''.csv'') gallery)"

section \<open>Text and logs\<close>

definition downloadText :: "utc \<Rightarrow> string \<Rightarrow> string \<Rightarrow> string \<Rightarrow> exporter \<Rightarrow> exporter" where
  "downloadText now name ext txt = triggerDownload (text_blob ''text/plain'' txt) (name @ ''-'' @ timestamp now @ ''.'' @ ext)"

text \<open>The server's answer to the request for a log: its status, whether that is a success, and its text.\<close>

definition downloadServiceLog :: "utc \<Rightarrow> string \<Rightarrow> bool \<Rightarrow> nat \<Rightarrow> string \<Rightarrow> exporter \<Rightarrow> string + exporter" where
  "downloadServiceLog now service ok status body s =
     (if \<not> ok then Inl (''server log '' @ service @ '' unavailable (HTTP '' @ show_nat status @ '')'')
      else Inr (triggerDownload (text_blob ''text/plain'' body) (service @ ''-'' @ timestamp now @ ''.log'') s))"

section \<open>Animated GIF\<close>

definition GIF_MAX_WIDTH :: int where "GIF_MAX_WIDTH = 1280"
definition MIN_GIF_DELAY_MS :: int where "MIN_GIF_DELAY_MS = 20"

definition gifFrameDelays :: "rat list \<Rightarrow> rat \<Rightarrow> int list" where
  "gifFrameDelays captureTimes endedAt =
     map (\<lambda>i. let until = (if i + 1 < length captureTimes then captureTimes ! (i + 1) else endedAt)
              in max MIN_GIF_DELAY_MS (js_round (until - captureTimes ! i)))
       [0..<length captureTimes]"

text \<open>
  What is recorded: an SVG with the size of its \<^verbatim>\<open>viewBox\<close> (0 where it has none) and of its box on the page, or an
  element with its client size. A rendered frame is a data URL, or the error it threw.
\<close>

datatype target = Svg rat rat rat rat | Element int int

definition svg_size :: "rat \<Rightarrow> rat \<Rightarrow> rat \<Rightarrow> rat" where
  "svg_size vb box fallback = (if vb \<noteq> 0 then vb else if box \<noteq> 0 then box else fallback)"

definition gif_size :: "target \<Rightarrow> int \<times> int" where
  "gif_size t = (case t of
     Svg vw vh bw bh \<Rightarrow>
       let w = svg_size vw bw 1240; h = svg_size vh bh 620; gw = min (js_round w) GIF_MAX_WIDTH
       in (gw, js_round (of_int gw * (h / w)))
   | Element cw ch \<Rightarrow> (cw, ch))"

record capture =
  cp_reads :: nat
  cp_frames :: "string list"
  cp_times :: "rat list"
  cp_next :: rat
  cp_w :: int
  cp_h :: int

text \<open>
  The loop. \<open>now i\<close> is the \<open>i\<close>-th reading of \<^verbatim>\<open>performance.now()\<close>; the wait for the next frame shows in the readings
  that follow it. The third reading of a pass is the one the wait is computed from.
\<close>

partial_function (option) capture_loop ::
  "(nat \<Rightarrow> rat) \<Rightarrow> (nat \<Rightarrow> string + string) \<Rightarrow> target \<Rightarrow> rat \<Rightarrow> rat \<Rightarrow> rat \<Rightarrow> capture \<Rightarrow> (string + capture) option" where
  "capture_loop now render t t0 durationMs intervalMs s =
     (if now (cp_reads s) - t0 < durationMs
      then (case render (length (cp_frames s)) of
              Inl e \<Rightarrow> Some (Inl e)
            | Inr dataUrl \<Rightarrow>
                capture_loop now render t t0 durationMs intervalMs
                  (s\<lparr>cp_times := cp_times s @ [now (cp_reads s + 1)], cp_frames := cp_frames s @ [dataUrl],
                     cp_next := cp_next s + intervalMs, cp_w := fst (gif_size t), cp_h := snd (gif_size t),
                     cp_reads := cp_reads s + 3\<rparr>))
      else Some (Inr (s\<lparr>cp_reads := cp_reads s + 1\<rparr>)))"

text \<open>The encoder of the library: a frame is encoded, the file is flushed, either may throw.\<close>

record ('e, 'r) gif_encoder =
  ge_new :: "int \<Rightarrow> int \<Rightarrow> 'e"
  ge_encode :: "'e \<Rightarrow> string \<times> int \<Rightarrow> string + 'e"
  ge_flush :: "'e \<Rightarrow> string + 'r"

fun encode_loop :: "('e \<Rightarrow> string \<times> int \<Rightarrow> string + 'e) \<Rightarrow> (string \<times> int) list \<Rightarrow> 'e \<Rightarrow> string + 'e" where
  "encode_loop enc [] e = Inr e"
| "encode_loop enc (f # fs) e = (case enc e f of Inl why \<Rightarrow> Inl why | Inr e \<Rightarrow> encode_loop enc fs e)"

definition encodeGifFrames :: "('e, 'r) gif_encoder \<Rightarrow> int \<Rightarrow> int \<Rightarrow> string list \<Rightarrow> int list \<Rightarrow> string + 'r" where
  "encodeGifFrames enc width height frames delays =
     (if length frames \<noteq> length delays
      then Inl (show_nat (length frames) @ '' frames but '' @ show_nat (length delays) @ '' delays'')
      else (case encode_loop (ge_encode enc) (zip frames delays) (ge_new enc width height) of
              Inl why \<Rightarrow> Inl why
            | Inr e \<Rightarrow> ge_flush enc e))"

text \<open>\<open>None\<close> is a recording that never ends.\<close>

definition downloadGif :: "(nat \<Rightarrow> rat) \<Rightarrow> (nat \<Rightarrow> string + string) \<Rightarrow> ('e, bytes) gif_encoder \<Rightarrow> answer \<Rightarrow> utc \<Rightarrow> string \<Rightarrow> target
    \<Rightarrow> rat \<Rightarrow> rat \<Rightarrow> bool \<Rightarrow> exporter \<Rightarrow> (string + exporter) option" where
  "downloadGif now render enc ans date name t durationMs fps gallery s =
     (if fps \<le> 0 then Some (Inl ''gif fps must be positive'')
      else (case capture_loop now render t (now 0) durationMs (1000 / fps)
                   \<lparr>cp_reads = 1, cp_frames = [], cp_times = [], cp_next = now 0, cp_w = 0, cp_h = 0\<rparr> of
              None \<Rightarrow> None
            | Some (Inl e) \<Rightarrow> Some (Inl e)
            | Some (Inr c) \<Rightarrow>
                let endedAt = now (cp_reads c)
                in Some
                  (if cp_frames c = [] then Inl ''no frames captured''
                   else if cp_w c = 0 \<or> cp_h c = 0 then Inl ''target has zero size; nothing to record''
                   else (case encodeGifFrames enc (cp_w c) (cp_h c) (cp_frames c) (gifFrameDelays (cp_times c) endedAt) of
                           Inl e \<Rightarrow> Inl e
                         | Inr out \<Rightarrow> Inr (saveToBackendAndDownload ans \<lparr>bl_type = ''image/gif'', bl_bytes = out\<rparr> name ''gif''
                             (name @ ''-'' @ timestamp date @ ''.gif'') gallery s)))))"

end
