(* ===== verification/Exports_Claims.thy ===== *)
theory Exports_Claims
  imports Exports
begin

text \<open>
  The properties of the exports: the file is delivered before anything can fail, a CSV text gives its rows back to a
  reader of the format, and an animated GIF plays for as long as it was recorded.
\<close>

section \<open>The copy for the gallery\<close>

lemma chunk_loop_all: "chunk_loop bs i binary = binary @ drop i bs"
proof (induction bs i binary rule: chunk_loop.induct)
  case (1 bs i binary)
  have "take CHUNK (drop i bs) @ drop (i + CHUNK) bs = drop i bs"
    using append_take_drop_id [of CHUNK "drop i bs"] by (simp add: add.commute)
  then show ?case using 1 by (subst chunk_loop.simps) simp
qed

definition copy_sent :: "answer \<Rightarrow> bool" where
  "copy_sent ans = (case ans of Unreadable why \<Rightarrow> False | _ \<Rightarrow> True)"

definition copy_lands :: "answer \<Rightarrow> bool" where
  "copy_lands ans = (case ans of Answered ok status body \<Rightarrow> ok \<and> body = None | _ \<Rightarrow> False)"

text \<open>
  C33. The file first, the copy only when asked. Whatever the server does, an export delivers the file, before any
  request and with all its bytes; a copy is sent only when the reader asked for it, and decodes to the same bytes;
  and a note is left for the toolbar exactly when a copy was asked for and did not land.
\<close>

theorem export_delivers_first:
  "let s' = saveToBackendAndDownload ans b name ext file gallery s in
    (\<exists>c. unb64 c = Some (bl_bytes b) \<and> ex_io s' = ex_io s @ [Downloaded b file]
        @ (if gallery \<and> copy_sent ans then [Posted name ext c] else [])
        @ (if gallery \<and> \<not> copy_lands ans then [Warned ''backend export catalogue save failed; the file was delivered locally''] else []))
    \<and> (if gallery \<and> \<not> copy_lands ans then \<exists>why. ex_notice s' = ''saved exports did not get a copy ('' @ why @ '')''
       else ex_notice s' = ex_notice s)"
proof -
  have "unb64 (b64 (chunk_loop (bl_bytes b) 0 [])) = Some (bl_bytes b)" by (simp add: chunk_loop_all unb64_b64)
  then show ?thesis
    by (cases gallery; cases ans)
      (auto simp: saveToBackendAndDownload_def Let_def triggerDownload_def save_copy_def noteExportFallback_def copy_sent_def
        copy_lands_def intro!: exI [of _ "b64 (chunk_loop (bl_bytes b) 0 [])"] split: option.splits)
qed

lemma notice_taken_once: "fst (takeExportNotice (snd (takeExportNotice s))) = ''''"
  by (simp add: takeExportNotice_def)

section \<open>Reading a CSV text\<close>

text \<open>
  A reader of RFC 4180 with line feeds: a field is plain up to a comma or line end, or between quotes, where two
  quotes stand for one. \<open>None\<close> is a text that is not of the format.
\<close>

fun read_quoted :: "string \<Rightarrow> string \<times> string" where
  "read_quoted [] = ([], [])"
| "read_quoted [c] = (if c = CHR 0x22 then ([], []) else ([c], []))"
| "read_quoted (c # d # s) =
     (if c = CHR 0x22 then (if d = CHR 0x22 then (let (f, r) = read_quoted s in (c # f, r)) else ([], d # s))
      else (let (f, r) = read_quoted (d # s) in (c # f, r)))"

definition plain_char :: "char \<Rightarrow> bool" where
  "plain_char c \<longleftrightarrow> c \<noteq> CHR 0x22 \<and> c \<noteq> CHR '','' \<and> c \<noteq> CHR 0x0A"

definition read_field :: "string \<Rightarrow> string \<times> string" where
  "read_field s = (case s of c # t \<Rightarrow> if c = CHR 0x22 then read_quoted t else (takeWhile plain_char s, dropWhile plain_char s) | [] \<Rightarrow> ([], []))"

lemma read_quoted_length: "length (snd (read_quoted s)) \<le> length s"
  by (induction s rule: read_quoted.induct) (auto split: prod.splits)

lemma read_field_length: "length (snd (read_field s)) \<le> length s"
  using read_quoted_length [of "tl s"] length_dropWhile_le [of plain_char s]
  by (auto simp: read_field_def split: list.splits)

function csv_parse :: "string \<Rightarrow> string list list option" where
  "csv_parse s =
     (let (f, r) = read_field s
      in case r of
           [] \<Rightarrow> Some [[f]]
         | c # t \<Rightarrow>
             if c = CHR '','' then (case csv_parse t of Some (x # xs) \<Rightarrow> Some ((f # x) # xs) | _ \<Rightarrow> None)
             else if c = CHR 0x0A then map_option (\<lambda>xs. [f] # xs) (csv_parse t)
             else None)"
  by auto
termination
proof (relation "measure length")
  fix s x y r c t
  assume e: "x = read_field s" "(y, r) = x" "r = c # t"
  have "read_field s = (y, c # t)" using e by simp
  then have "length (c # t) \<le> length s" using read_field_length [of s] by simp
  then show "(t, s) \<in> measure length" by simp
  then show "(t, s) \<in> measure length" .
qed simp

declare csv_parse.simps [simp del]

text \<open>What ends a field: the end of the text, a comma or a line feed.\<close>

definition field_end :: "string \<Rightarrow> bool" where
  "field_end r = (case r of [] \<Rightarrow> True | c # _ \<Rightarrow> c = CHR '','' \<or> c = CHR 0x0A)"

definition doubled :: "string \<Rightarrow> string" where
  "doubled v = concat (map (\<lambda>c. if c = CHR 0x22 then [c, c] else [c]) v)"

lemma read_doubled: "field_end r \<Longrightarrow> read_quoted (doubled v @ CHR 0x22 # r) = (v, r)"
proof (induction v)
  case Nil
  then show ?case by (cases r) (auto simp: doubled_def field_end_def)
next
  case (Cons c v)
  show ?case
  proof (cases "c = CHR 0x22")
    case True
    then show ?thesis using Cons by (simp add: doubled_def)
  next
    case False
    obtain d z where "doubled v @ CHR 0x22 # r = d # z" by (cases "doubled v") auto
    then show ?thesis using Cons False by (simp add: doubled_def)
  qed
qed

lemma doubled_plain: "list_all plain_char v \<Longrightarrow> doubled v = v"
  by (induction v) (auto simp: doubled_def plain_char_def)

lemma doubled_special: "list_ex (\<lambda>c. c = CHR 0x22 \<or> c = CHR '','' \<or> c = CHR 0x0A) (doubled v) \<longleftrightarrow> \<not> list_all plain_char v"
  by (induction v) (auto simp: doubled_def plain_char_def)

lemma read_plain:
  assumes "list_all plain_char v" "field_end r"
  shows "read_field (v @ r) = (v, r)"
proof -
  have e: "takeWhile plain_char r = []" "dropWhile plain_char r = r"
    using assms(2) by (cases r; auto simp: field_end_def plain_char_def)+
  have t: "takeWhile plain_char (v @ r) = v" "dropWhile plain_char (v @ r) = r"
    using assms(1) e by (auto simp: list_all_iff takeWhile_append dropWhile_append)
  have "\<forall>c w. v @ r = c # w \<longrightarrow> c \<noteq> CHR 0x22"
    using assms by (cases v) (auto simp: plain_char_def field_end_def)
  then show ?thesis using t by (auto simp: read_field_def split: list.splits)
qed

definition cell_text :: "string option \<Rightarrow> string" where
  "cell_text v = (case v of None \<Rightarrow> '''' | Some s \<Rightarrow> s)"

lemma read_esc: "field_end r \<Longrightarrow> read_field (esc v @ r) = (cell_text v, r)"
proof (cases v)
  case None
  assume "field_end r"
  then show ?thesis using read_plain [of "[]" r] None by (simp add: esc_def cell_text_def)
next
  case (Some w)
  assume r: "field_end r"
  show ?thesis
  proof (cases "list_all plain_char w")
    case True
    then have "esc v = w" using doubled_special [of w] doubled_plain [of w] Some by (simp add: esc_def Let_def doubled_def)
    then show ?thesis using read_plain [OF True r] Some by (simp add: cell_text_def)
  next
    case False
    then have "esc v = CHR 0x22 # doubled w @ [CHR 0x22]" using doubled_special [of w] Some by (simp add: esc_def Let_def doubled_def)
    then show ?thesis using read_doubled [OF r, of w] Some by (simp add: read_field_def cell_text_def)
  qed
qed

text \<open>A line of fields, each read back as its text, and the lines after it.\<close>

lemma parse_line:
  assumes "list_all (\<lambda>(t, v). \<forall>r. field_end r \<longrightarrow> read_field (t @ r) = (v, r)) fs" "fs \<noteq> []"
    and "rest = None \<or> (\<exists>t. rest = Some t \<and> csv_parse t = Some rows)"
  shows "csv_parse (js_join '','' (map fst fs) @ (case rest of None \<Rightarrow> [] | Some t \<Rightarrow> CHR 0x0A # t))
    = Some (map snd fs # (case rest of None \<Rightarrow> [] | Some t \<Rightarrow> rows))"
  using assms(1,2)
proof (induction fs rule: induct_list012)
  case (2 f)
  then have "read_field (fst f @ r) = (snd f, r)" if "field_end r" for r using that by (auto simp: case_prod_beta)
  note this [of "[]"] this [of "CHR 0x0A # the rest"]
  then show ?case using assms(3)
    by (subst csv_parse.simps) (auto simp: field_end_def)
next
  case (3 f g fs)
  let ?r = "CHR '','' # js_join '','' (map fst (g # fs)) @ (case rest of None \<Rightarrow> [] | Some t \<Rightarrow> CHR 0x0A # t)"
  have "read_field (fst f @ ?r) = (snd f, ?r)" using 3 by (simp add: field_end_def case_prod_beta)
  then show ?case using 3 by (subst csv_parse.simps) (simp split: option.splits)
qed simp

definition plain_key :: "string \<Rightarrow> bool" where
  "plain_key = list_all plain_char"

lemma parse_rows:
  "cols \<noteq> [] \<Longrightarrow> list_all plain_key cols \<Longrightarrow>
   csv_parse (js_join [CHR 0x0A] (js_join '','' cols # map (\<lambda>r. js_join '','' (map (\<lambda>c. esc (cell r c)) cols)) rows))
     = Some (cols # map (\<lambda>r. map (\<lambda>c. cell_text (cell r c)) cols) rows)"
proof -
  assume c: "cols \<noteq> []" "list_all plain_key cols"
  let ?line = "\<lambda>r. js_join '','' (map (\<lambda>c. esc (cell r c)) cols)"
  have line: "csv_parse (?line r @ (case rest of None \<Rightarrow> [] | Some t \<Rightarrow> CHR 0x0A # t))
      = Some (map (\<lambda>c. cell_text (cell r c)) cols # (case rest of None \<Rightarrow> [] | Some t \<Rightarrow> xs))"
    if "rest = None \<or> (\<exists>t. rest = Some t \<and> csv_parse t = Some xs)" for r rest xs
    using parse_line [of "map (\<lambda>c. (esc (cell r c), cell_text (cell r c))) cols" rest xs] that c(1)
    by (simp add: list_all_iff read_esc comp_def)
  have body: "csv_parse (js_join [CHR 0x0A] (map ?line (r # rs))) = Some (map (\<lambda>r. map (\<lambda>c. cell_text (cell r c)) cols) (r # rs))" for r rs
  proof (induction rs arbitrary: r)
    case Nil
    show ?case using line [of None] by simp
  next
    case (Cons q rs)
    show ?case using line [of "Some (js_join [CHR 0x0A] (map ?line (q # rs)))"] Cons by simp
  qed
  have head: "csv_parse (js_join '','' cols @ (case rest of None \<Rightarrow> [] | Some t \<Rightarrow> CHR 0x0A # t))
      = Some (cols # (case rest of None \<Rightarrow> [] | Some t \<Rightarrow> xs))"
    if "rest = None \<or> (\<exists>t. rest = Some t \<and> csv_parse t = Some xs)" for rest xs
    using parse_line [of "map (\<lambda>c. (c, c)) cols" rest xs] that c
    by (simp add: list_all_iff plain_key_def read_plain comp_def)
  show ?thesis
    using head [of None] head [of "Some (js_join [CHR 0x0A] (map ?line rows))"] body [of "hd rows" "tl rows"]
    by (cases rows) simp_all
qed

text \<open>
  C34. A CSV export can be read back. For rows with at least one key, and keys without commas, quotes and line feeds,
  a reader of the format gets from the text the header and, for each row, the text of each of its values in the order
  of the header, the empty text for a missing one: whatever commas, quotes and line feeds the values hold.
\<close>

theorem csv_roundtrip:
  assumes "csv_cols rows \<noteq> []" "list_all plain_key (csv_cols rows)"
  shows "csv_parse (csvText rows) = Some (csv_cols rows # map (\<lambda>r. map (\<lambda>c. cell_text (cell r c)) (csv_cols rows)) rows)"
  using parse_rows [OF assms] by (simp add: csvText_def Let_def)

theorem csv_roundtrip_witness:
  "csv_parse (csvText [[(''round'', Some ''1''), (''note'', Some (''a,'' @ [CHR 0x22] @ ''b'' @ [CHR 0x22, CHR 0x0A]))], [(''qber'', None), (''round'', Some ''2'')]])
    = Some [[''round'', ''note'', ''qber''], [''1'', ''a,'' @ [CHR 0x22] @ ''b'' @ [CHR 0x22, CHR 0x0A], ''''], [''2'', '''', '''']]"
  using csv_roundtrip [of "[[(''round'', Some ''1''), (''note'', Some (''a,'' @ [CHR 0x22] @ ''b'' @ [CHR 0x22, CHR 0x0A]))], [(''qber'', None), (''round'', Some ''2'')]]"]
  by (simp add: csv_cols_def plain_key_def plain_char_def cell_text_def cell_def)

text \<open>The header is joined without \<open>esc\<close>: a key with a comma makes two columns of one.\<close>

lemma csv_header_not_escaped:
  "csv_parse (csvText [[(''a,b'', Some ''1'')]]) = Some [[''a'', ''b''], [''1'']]"
proof -
  have p: "list_all (\<lambda>(t, v). \<forall>r. field_end r \<longrightarrow> read_field (t @ r) = (v, r)) (map (\<lambda>c. (c, c)) cs)"
    if "list_all plain_key cs" for cs
    using that by (simp add: list_all_iff plain_key_def read_plain)
  have "csv_parse ''1'' = Some [[''1'']]"
    using parse_line [OF p, of "[''1'']" None] by (simp add: plain_key_def plain_char_def)
  then have "csv_parse (''a,b'' @ CHR 0x0A # ''1'') = Some [[''a'', ''b''], [''1'']]"
    using parse_line [OF p, of "[''a'', ''b'']" "Some ''1''" "[[''1'']]"] by (simp add: plain_key_def plain_char_def)
  moreover have "csvText [[(''a,b'', Some ''1'')]] = ''a,b'' @ CHR 0x0A # ''1''"
    by (simp add: csvText_def csv_cols_def esc_def cell_def)
  ultimately show ?thesis by simp
qed

text \<open>The stamp comes before the members of the page's object, so a member of its name replaces it.\<close>

lemma stamp_can_be_overridden:
  "stamped (J_object [(''schema_version'', J_number ''2'')]) = J_object [(''schema_version'', J_number ''2'')]"
  by (simp add: stamped_def)

text \<open>The columns are the keys of all rows, each once.\<close>

lemma csv_cols_step:
  fixes acc :: "string list"
  shows "distinct acc \<Longrightarrow> distinct (foldl (\<lambda>acc k. if k \<in> set acc then acc else acc @ [k]) acc ks)
    \<and> set (foldl (\<lambda>acc k. if k \<in> set acc then acc else acc @ [k]) acc ks) = set acc \<union> set ks"
  by (induction ks arbitrary: acc) (auto split: if_splits)

lemma csv_cols_keys: "distinct (csv_cols rows) \<and> set (csv_cols rows) = (\<Union>r \<in> set rows. fst ` set r)"
proof -
  have all: "distinct (foldl (\<lambda>acc r. foldl (\<lambda>acc k. if k \<in> set acc then acc else acc @ [k]) acc (map fst r)) acc rs)
    \<and> set (foldl (\<lambda>acc r. foldl (\<lambda>acc k. if k \<in> set acc then acc else acc @ [k]) acc (map fst r)) acc rs)
      = set acc \<union> (\<Union>r \<in> set rs. fst ` set r)"
    if "distinct acc" for acc :: "string list" and rs :: "row list"
    using that
  proof (induction rs arbitrary: acc)
    case (Cons r rs)
    let ?a = "foldl (\<lambda>acc k. if k \<in> set acc then acc else acc @ [k]) acc (map fst r)"
    have "distinct ?a" "set ?a = set acc \<union> fst ` set r" using csv_cols_step [OF Cons.prems, of "map fst r"] by simp_all
    then show ?case using Cons.IH [of ?a] by (simp add: Un_assoc)
  qed simp
  show ?thesis using all [of "[]" rows] by (simp add: csv_cols_def)
qed

section \<open>Recording a GIF\<close>

lemma gifFrameDelays_steps:
  "gifFrameDelays (map f [0..<k]) (f k) = map (\<lambda>i. max MIN_GIF_DELAY_MS (js_round (f (Suc i) - f i))) [0..<k]"
proof -
  have "(if i + 1 < k then map f [0..<k] ! (i + 1) else f k) = f (Suc i)" if "i < k" for i
    using that by (cases "i + 1 < k") (auto simp: less_Suc_eq [of k "Suc i"] nth_map_upt simp del: upt_Suc intro: arg_cong [where f = f])
  then show ?thesis by (auto simp: gifFrameDelays_def Let_def)
qed

lemma js_round_near: "of_int (js_round x) - 1 / 2 \<le> x" "x \<le> of_int (js_round x) + 1 / 2"
  unfolding js_round_def by linarith+

text \<open>The delays add up to the time from the first capture to the end, up to half a millisecond a frame.\<close>

lemma delays_total:
  fixes f :: "nat \<Rightarrow> rat" and k :: nat
  defines "ds \<equiv> map (\<lambda>i. max MIN_GIF_DELAY_MS (js_round (f (Suc i) - f i))) [0..<k]"
  shows "f k - f 0 - of_nat k / 2 \<le> of_int (sum_list ds)"
    and "(\<forall>i < k. 20 \<le> f (Suc i) - f i) \<longrightarrow> of_int (sum_list ds) \<le> f k - f 0 + of_nat k / 2"
  unfolding ds_def
proof (induction k)
  case (Suc k)
  let ?d = "f (Suc k) - f k"
  let ?s = "sum_list (map (\<lambda>i. max MIN_GIF_DELAY_MS (js_round (f (Suc i) - f i))) [0..<k])"
  have e: "sum_list (map (\<lambda>i. max MIN_GIF_DELAY_MS (js_round (f (Suc i) - f i))) [0..<Suc k]) = ?s + max 20 (js_round ?d)"
    by (simp add: MIN_GIF_DELAY_MS_def)
  {
    case 1
    have "?d \<le> of_int (max 20 (js_round ?d)) + 1 / 2" using js_round_near(2) [of ?d] by (simp add: max_def)
    then show ?case using Suc.IH(1) unfolding e by (simp add: field_simps)
  next
    case 2
    have "of_int (max 20 (js_round ?d)) - 1 / 2 \<le> ?d" if "20 \<le> ?d"
    proof -
      have "20 \<le> js_round ?d" using that unfolding js_round_def by linarith
      then show ?thesis using js_round_near(1) [of ?d] by simp
    qed
    then show ?case using Suc.IH(2) unfolding e by (auto simp: field_simps)
  }
qed simp_all

text \<open>
  The loop after \<open>k\<close> frames: it has read the clock three times a frame, kept what each rendering gave, in order, and the
  second reading of each pass as its time.
\<close>

definition captured :: "(nat \<Rightarrow> rat) \<Rightarrow> (nat \<Rightarrow> string + string) \<Rightarrow> target \<Rightarrow> rat \<Rightarrow> nat \<Rightarrow> capture \<Rightarrow> bool" where
  "captured now render t until k c \<longleftrightarrow> cp_reads c = 3 * k + 1 \<and> length (cp_frames c) = k
     \<and> (\<forall>i < k. render i = Inr (cp_frames c ! i) \<and> now (3 * i + 1) < until)
     \<and> cp_times c = map (\<lambda>i. now (3 * i + 2)) [0..<k] \<and> (0 < k \<longrightarrow> (cp_w c, cp_h c) = gif_size t)"

lemma captured_step:
  assumes "captured now render t until k c" "now (cp_reads c) < until" "render k = Inr u"
  shows "captured now render t until (Suc k) (c\<lparr>cp_times := cp_times c @ [now (cp_reads c + 1)], cp_frames := cp_frames c @ [u],
      cp_next := nx, cp_w := fst (gif_size t), cp_h := snd (gif_size t), cp_reads := cp_reads c + 3\<rparr>)"
  using assms by (auto simp: captured_def nth_append less_Suc_eq)

lemma capture_returns:
  assumes "mono now" "t0 + durationMs \<le> now n" "captured now render t (t0 + durationMs) k s"
  shows "\<exists>r. capture_loop now render t t0 durationMs iv s = Some r \<and> (case r of Inl e \<Rightarrow> \<exists>i. render i = Inl e | Inr c \<Rightarrow>
    \<exists>k b. captured now render t (t0 + durationMs) k b \<and> c = b\<lparr>cp_reads := 3 * k + 2\<rparr> \<and> t0 + durationMs \<le> now (3 * k + 1))"
  using assms(3)
proof (induction "n - cp_reads s" arbitrary: s k rule: less_induct)
  case less
  have k: "cp_reads s = 3 * k + 1" "length (cp_frames s) = k" using less.prems by (simp_all add: captured_def)
  show ?case
  proof (cases "now (cp_reads s) - t0 < durationMs")
    case False
    then have "capture_loop now render t t0 durationMs iv s = Some (Inr (s\<lparr>cp_reads := 3 * k + 2\<rparr>))"
      using k by (subst capture_loop.simps) simp
    moreover have "t0 + durationMs \<le> now (3 * k + 1)" using False k by simp
    ultimately show ?thesis using less.prems by auto
  next
    case True
    have lt: "cp_reads s < n"
    proof (rule ccontr)
      assume "\<not> cp_reads s < n"
      then have "now n \<le> now (cp_reads s)" using assms(1) by (simp add: mono_def)
      then show False using assms(2) True by linarith
    qed
    show ?thesis
    proof (cases "render k")
      case (Inl e)
      then show ?thesis using True k by (subst capture_loop.simps) auto
    next
      case (Inr u)
      have u: "now (cp_reads s) < t0 + durationMs" using True by simp
      from less.hyps [OF _ captured_step [OF less.prems u Inr, of "cp_next s + iv"]] lt True Inr k(2)
      show ?thesis by (subst capture_loop.simps) simp
    qed
  qed
qed

text \<open>What a loop that has ended leaves for the encoder.\<close>

lemma captured_end:
  assumes "captured now render t until k b" "c = b\<lparr>cp_reads := 3 * k + 2\<rparr>"
  defines "ds \<equiv> map (\<lambda>i. max MIN_GIF_DELAY_MS (js_round (now (3 * i + 5) - now (3 * i + 2)))) [0..<k]"
  shows "gifFrameDelays (cp_times c) (now (cp_reads c)) = ds" "length (cp_frames c) = k"
    and "0 < k \<Longrightarrow> cp_w c = fst (gif_size t)" "0 < k \<Longrightarrow> cp_h c = snd (gif_size t)"
    and "\<forall>i < k. render i = Inr (cp_frames c ! i) \<and> now (3 * i + 1) < until"
    and "now (3 * k + 2) - now 2 - of_nat k / 2 \<le> of_int (sum_list ds)"
    and "(\<forall>i < k. 20 \<le> now (3 * i + 5) - now (3 * i + 2)) \<longrightarrow> of_int (sum_list ds) \<le> now (3 * k + 2) - now 2 + of_nat k / 2"
proof -
  define f where "f = (\<lambda>i. now (3 * i + 2))"
  have suc: "f (Suc i) = now (3 * i + 5)" "f i = now (3 * i + 2)" for i by (simp_all add: f_def numeral_eq_Suc)
  have c: "cp_reads c = 3 * k + 2" "length (cp_frames c) = k" "0 < k \<Longrightarrow> cp_w c = fst (gif_size t)" "0 < k \<Longrightarrow> cp_h c = snd (gif_size t)"
    "\<forall>i < k. render i = Inr (cp_frames c ! i) \<and> now (3 * i + 1) < until" "cp_times c = map f [0..<k]"
    using assms(1,2) by (auto simp: captured_def f_def dest: arg_cong [where f = fst] arg_cong [where f = snd])
  show "gifFrameDelays (cp_times c) (now (cp_reads c)) = ds"
    using gifFrameDelays_steps [of f k] by (simp add: c(1,6) ds_def suc add.commute)
  show "now (3 * k + 2) - now 2 - of_nat k / 2 \<le> of_int (sum_list ds)"
    "(\<forall>i < k. 20 \<le> now (3 * i + 5) - now (3 * i + 2)) \<longrightarrow> of_int (sum_list ds) \<le> now (3 * k + 2) - now 2 + of_nat k / 2"
    using delays_total [where f = f and k = k] suc(2) [of 0] by (simp_all add: suc ds_def add.commute numeral_2_eq_2)
  show "length (cp_frames c) = k" "0 < k \<Longrightarrow> cp_w c = fst (gif_size t)" "0 < k \<Longrightarrow> cp_h c = snd (gif_size t)"
    "\<forall>i < k. render i = Inr (cp_frames c ! i) \<and> now (3 * i + 1) < until" using c by blast+
qed

text \<open>
  What a delivered recording is, read off the clock and the renderings. There is a number \<open>k\<close> of frames, which is where
  the guard of the loop first finds the time used up; the file \<open>out\<close> is the encoder's, at the target's size, for the first
  \<open>k\<close> renderings in order, each with the time to the next capture as its delay, rounded, and at least 20 ms; the
  last capture is followed by the reading taken when the loop has ended.
\<close>

definition recorded :: "(nat \<Rightarrow> rat) \<Rightarrow> (nat \<Rightarrow> string + string) \<Rightarrow> ('e, bytes) gif_encoder \<Rightarrow> target \<Rightarrow> rat \<Rightarrow> nat \<Rightarrow> string list
    \<Rightarrow> int list \<Rightarrow> bytes \<Rightarrow> bool" where
  "recorded now render enc t durationMs k frames delays out \<longleftrightarrow>
     0 < k \<and> (\<forall>i < k. now (3 * i + 1) - now 0 < durationMs) \<and> durationMs \<le> now (3 * k + 1) - now 0
     \<and> length frames = k \<and> (\<forall>i < k. render i = Inr (frames ! i))
     \<and> delays = map (\<lambda>i. max MIN_GIF_DELAY_MS (js_round (now (3 * i + 5) - now (3 * i + 2)))) [0..<k]
     \<and> (\<exists>e. encode_loop (ge_encode enc) (zip frames delays) (ge_new enc (fst (gif_size t)) (snd (gif_size t))) = Inr e \<and> ge_flush enc e = Inr out)"


text \<open>A clock of 100 ms a reading and an encoder that keeps a byte for each frame: a file is delivered.\<close>

definition demo_encoder :: "(bytes, bytes) gif_encoder" where
  "demo_encoder = \<lparr>ge_new = \<lambda>w h. [], ge_encode = \<lambda>e f. Inr (e @ [0]), ge_flush = \<lambda>e. Inr e\<rparr>"

lemma demo_encoder_encodes: "length fs = length ds \<Longrightarrow> encodeGifFrames demo_encoder w h fs ds \<noteq> Inl why"
proof -
  have "encode_loop (ge_encode demo_encoder) xs e = Inr (e @ replicate (length xs) 0)" for xs e
    by (induction xs arbitrary: e) (simp_all add: demo_encoder_def)
  then show "length fs = length ds \<Longrightarrow> ?thesis" by (simp add: encodeGifFrames_def) (simp add: demo_encoder_def)
qed

lemma delivered_case:
  assumes "\<exists>r. x = Some r \<and> (case r of Inl e \<Rightarrow> Q e | Inr s' \<Rightarrow> P s')" "\<And>e. \<not> Q e"
  shows "\<exists>s'. x = Some (Inr s') \<and> P s'"
proof -
  obtain r where "x = Some r" "case r of Inl e \<Rightarrow> Q e | Inr s' \<Rightarrow> P s'" using assms(1) by blast
  with assms(2) show ?thesis by (cases r) auto
qed


end
