(* ===== verification/View.thy ===== *)
theory View
  imports Lab_Control
begin

text \<open>
  The layout of the Protocol Lab's drawing, \<^verbatim>\<open>lib/sim/protocolLab/view.ts\<close>: boxes of nodes, the places of the links'
  captions, the ends of their lines, the fill of a store.

  Boxes and the clip are over any ordered field with rounding, so that they compute over the rationals; the places
  of captions use a square root and are over the reals. \<^verbatim>\<open>Infinity\<close> and \<^verbatim>\<open>NaN\<close> are \<open>None\<close>. A string is its
  UTF-8 encoding, and \<open>js_length\<close> counts its characters.
\<close>

definition js_length :: "string \<Rightarrow> nat" where
  "js_length s = length (filter (\<lambda>c. \<not> (0x80 \<le> (of_char c :: nat) \<and> (of_char c :: nat) < 0xC0)) s)"

definition LABEL_FONT_PX :: "'a::field_char_0" where "LABEL_FONT_PX = 12"
definition COMPACT_LABEL_FONT_PX :: "'a::field_char_0" where "COMPACT_LABEL_FONT_PX = 20"
definition GLYPH_EM :: "'a::field_char_0" where "GLYPH_EM = 6 / 10"
definition PAD_X :: "'a::field_char_0" where "PAD_X = 10"

record 'a box =
  bx_x :: 'a
  bx_y :: 'a
  bx_w :: 'a
  bx_h :: 'a

definition nodeBox :: "preset_node \<Rightarrow> 'a::{floor_ceiling, field_char_0} \<Rightarrow> 'a box" where
  "nodeBox n fontPx =
     (let w = of_int \<lceil>of_nat (js_length (n_label n)) * GLYPH_EM * fontPx + 2 * PAD_X\<rceil>; h = fontPx + 14
      in \<lparr>bx_x = of_int (n_x n) - w / 2, bx_y = of_int (n_y n) - h / 2, bx_w = w, bx_h = h\<rparr>)"

definition boxesFit :: "topology_preset \<Rightarrow> 'a::{floor_ceiling, field_char_0} \<Rightarrow> bool" where
  "boxesFit p fontPx =
     list_all (\<lambda>n. let b = nodeBox n fontPx in
         bx_x b \<ge> 0 \<and> bx_y b \<ge> 0 \<and> bx_x b + bx_w b \<le> of_int (fst (p_viewBox p)) \<and> bx_y b + bx_h b \<le> of_int (snd (p_viewBox p)))
       (p_nodes p)"

text \<open>The dagger is \<open>U+2020\<close>.\<close>

definition edgeLabel :: "preset_link \<Rightarrow> string" where
  "edgeLabel l =
     (if l_kind l = Non_qkd_keystore then ''keystore (not live QKD)''
      else let len = (case l_length l of None \<Rightarrow> ''''
                 | Some q \<Rightarrow> printed q @ '' '' @ unit_text (q_unit q) @ (if l_lengthAlt l \<noteq> [] then [CHR 0xE2, CHR 0x80, CHR 0xA0] else ''''));
               loss = (case l_loss l of None \<Rightarrow> ''''
                 | Some q \<Rightarrow> (case qualifier q of None \<Rightarrow> '''' | Some ql \<Rightarrow> if ql \<in> {''~'', ''>'', ''<''} then ql else '''') @ printed q @ '' dB'')
           in js_join '', '' (filter (\<lambda>s. s \<noteq> '''') [len, loss]))"

text \<open>A node that the preset does not have makes the code throw.\<close>

definition node_at :: "topology_preset \<Rightarrow> string \<Rightarrow> preset_node option" where
  "node_at p i = List.find (\<lambda>n. n_id n = i) (p_nodes p)"

definition midpoint :: "topology_preset \<Rightarrow> preset_link \<Rightarrow> (rat \<times> rat) option" where
  "midpoint p l = (case (node_at p (l_a l), node_at p (l_b l)) of
     (Some a, Some b) \<Rightarrow> Some (of_int (n_x a + n_x b) / 2, of_int (n_y a + n_y b) / 2)
   | _ \<Rightarrow> None)"

section \<open>Boxes and segments\<close>

definition overlap :: "'a::linordered_field box \<Rightarrow> 'a box \<Rightarrow> 'a \<Rightarrow> bool" where
  "overlap a b m \<longleftrightarrow> bx_x a < bx_x b + bx_w b + m \<and> bx_x b < bx_x a + bx_w a + m
     \<and> bx_y a < bx_y b + bx_h b + m \<and> bx_y b < bx_y a + bx_h a + m"

fun clip_loop :: "('a::linordered_field \<times> 'a) list \<Rightarrow> 'a \<Rightarrow> 'a \<Rightarrow> bool" where
  "clip_loop [] t0 t1 = (t0 \<le> t1)"
| "clip_loop ((p, q) # r) t0 t1 =
     (if p = 0 then (if q < 0 then False else clip_loop r t0 t1)
      else let u = q / p
           in if p < 0 then (if u > t1 then False else clip_loop r (if u > t0 then u else t0) t1)
              else (if u < t0 then False else clip_loop r t0 (if u < t1 then u else t1)))"

definition segmentHitsBox :: "'a::linordered_field \<Rightarrow> 'a \<Rightarrow> 'a \<Rightarrow> 'a \<Rightarrow> 'a box \<Rightarrow> bool" where
  "segmentHitsBox x1 y1 x2 y2 b =
     (let dx = x2 - x1; dy = y2 - y1
      in clip_loop [(- dx, x1 - bx_x b), (dx, bx_x b + bx_w b - x1), (- dy, y1 - bx_y b), (dy, bx_y b + bx_h b - y1)] 0 1)"

section \<open>The places of captions\<close>

definition EDGE_FONT_PX :: real where "EDGE_FONT_PX = 10.5"
definition EDGE_GLYPH_EM :: real where "EDGE_GLYPH_EM = 0.56"
definition EDGE_PAD_X :: real where "EDGE_PAD_X = 4"
definition EDGE_PAD_Y :: real where "EDGE_PAD_Y = 2"
definition EDGE_GAUGE_H :: real where "EDGE_GAUGE_H = 3"
definition EDGE_MARGIN :: real where "EDGE_MARGIN = 2"

text \<open>\<open>U+2715\<close> and a blank.\<close>

definition DOWN_MARK :: string where "DOWN_MARK = [CHR 0xE2, CHR 0x9C, CHR 0x95, CHR 0x20]"

record edge_place = "real box" +
  ep_cx :: real
  ep_cy :: real
  ep_linkId :: string
  ep_text :: string

definition ALONG :: "real list" where "ALONG = [0.5, 0.42, 0.58, 0.34, 0.66, 0.28, 0.72, 0.22, 0.78]"
definition BESIDE :: "real list" where "BESIDE = [0, 1.15, -1.15, 2.1, -2.1, 3.4, -3.4]"
definition COST_ALONG :: real where "COST_ALONG = 10"
definition COST_BESIDE :: real where "COST_BESIDE = 4"
definition COST_FOREIGN_LINE :: real where "COST_FOREIGN_LINE = 100"

text \<open>The \<^verbatim>\<open>Map\<close> of the nodes; of two with one id the later counts.\<close>

definition node_of :: "topology_preset \<Rightarrow> string \<Rightarrow> preset_node option" where
  "node_of p i = map_of (rev (map (\<lambda>n. (n_id n, n)) (p_nodes p))) i"

definition lengthOf :: "topology_preset \<Rightarrow> preset_link \<Rightarrow> real" where
  "lengthOf p l = (let a = the (node_of p (l_a l)); b = the (node_of p (l_b l))
     in sqrt ((of_int (n_x b) - of_int (n_x a)) ^ 2 + (of_int (n_y b) - of_int (n_y a)) ^ 2))"

text \<open>The comparator: of the difference of two lengths only the sign counts.\<close>

definition length_cmp :: "real cmp" where
  "length_cmp x y = (if x < y then -1 else if x = y then 0 else 1)"

definition caption_cmp :: "topology_preset \<Rightarrow> preset_link cmp" where
  "caption_cmp p = cmp_or (cmp_on (lengthOf p) length_cmp) (cmp_on l_id localeCompare)"

text \<open>A place that is allowed: inside the drawing, clear of the nodes and of the captions already placed.\<close>

definition allowed :: "topology_preset \<Rightarrow> (string \<times> edge_place) list \<Rightarrow> real box \<Rightarrow> bool" where
  "allowed p placed b \<longleftrightarrow>
     \<not> (bx_x b < 0 \<or> bx_y b < 0 \<or> bx_x b + bx_w b > of_int (fst (p_viewBox p)) \<or> bx_y b + bx_h b > of_int (snd (p_viewBox p)))
     \<and> \<not> list_ex (\<lambda>n. overlap b (nodeBox n LABEL_FONT_PX) EDGE_MARGIN) (p_nodes p)
     \<and> \<not> list_ex (\<lambda>(i, q). overlap b (box.truncate q) EDGE_MARGIN) placed"

definition foreign_lines :: "topology_preset \<Rightarrow> preset_link \<Rightarrow> real box \<Rightarrow> nat" where
  "foreign_lines p l b = length (filter (\<lambda>o'. let oa = the (node_of p (l_a o')); ob = the (node_of p (l_b o')) in
       segmentHitsBox (of_int (n_x oa)) (of_int (n_y oa)) (of_int (n_x ob)) (of_int (n_y ob)) b)
     (filter (\<lambda>o'. l_id o' \<noteq> l_id l) (p_links p)))"

text \<open>The plate of a link's caption at \<open>t\<close> along it and \<open>side\<close> beside it.\<close>

definition candidate :: "topology_preset \<Rightarrow> preset_link \<Rightarrow> real \<Rightarrow> real \<Rightarrow> edge_place" where
  "candidate p l t side =
     (let a = the (node_of p (l_a l)); b = the (node_of p (l_b l));
          ax = of_int (n_x a); ay = of_int (n_y a); dx = of_int (n_x b) - ax; dy = of_int (n_y b) - ay;
          caption = edgeLabel l;
          w = of_int \<lceil>of_nat (js_length caption + js_length DOWN_MARK) * EDGE_GLYPH_EM * EDGE_FONT_PX + 2 * EDGE_PAD_X\<rceil>;
          h = of_int \<lceil>EDGE_FONT_PX + 2 * EDGE_PAD_Y + EDGE_GAUGE_H\<rceil>;
          len = (if lengthOf p l = 0 then 1 else lengthOf p l);
          nx = - dy / len; ny = dx / len;
          off = side * (h / 2);
          cx = ax + dx * t + nx * off; cy = ay + dy * t + ny * off
      in \<lparr>bx_x = cx - w / 2, bx_y = cy - h / 2, bx_w = w, bx_h = h, ep_cx = cx, ep_cy = cy, ep_linkId = l_id l, ep_text = caption\<rparr>)"

definition place_cost :: "topology_preset \<Rightarrow> preset_link \<Rightarrow> real \<Rightarrow> real \<Rightarrow> real" where
  "place_cost p l t side =
     COST_ALONG * \<bar>t - 0.5\<bar> * 10 + COST_BESIDE * \<bar>side\<bar>
       + COST_FOREIGN_LINE * of_nat (foreign_lines p l (box.truncate (candidate p l t side)))"

text \<open>The body of the two inner loops; the best place so far has its cost beside it.\<close>

definition try_place :: "topology_preset \<Rightarrow> (string \<times> edge_place) list \<Rightarrow> preset_link \<Rightarrow> (edge_place \<times> real) option \<Rightarrow> real \<times> real
    \<Rightarrow> (edge_place \<times> real) option" where
  "try_place p placed l best = (\<lambda>(t, side).
     if \<not> allowed p placed (box.truncate (candidate p l t side)) then best
     else let cost = place_cost p l t side
          in if (case best of None \<Rightarrow> True | Some (_, bestCost) \<Rightarrow> cost < bestCost) then Some (candidate p l t side, cost) else best)"

definition place_link :: "topology_preset \<Rightarrow> (string \<times> edge_place) list \<Rightarrow> preset_link \<Rightarrow> edge_place option" where
  "place_link p placed l = map_option fst (foldl (try_place p placed l) None (List.product ALONG BESIDE))"

text \<open>\<open>None\<close> is the error: no place for a caption, or an end that is not a node.\<close>

fun place_loop :: "topology_preset \<Rightarrow> preset_link list \<Rightarrow> (string \<times> edge_place) list \<Rightarrow> (string \<times> edge_place) list option" where
  "place_loop p [] placed = Some placed"
| "place_loop p (l # ls) placed =
     (case place_link p placed l of None \<Rightarrow> None | Some q \<Rightarrow> place_loop p ls (AList.update (l_id l) q placed))"

definition placeEdgeLabels :: "topology_preset \<Rightarrow> (string \<times> edge_place) list option" where
  "placeEdgeLabels p =
     (if list_ex (\<lambda>l. node_of p (l_a l) = None \<or> node_of p (l_b l) = None) (p_links p) then None
      else place_loop p (js_sort (caption_cmp p) (p_links p)) [])"

section \<open>Routes, stores and line ends\<close>

fun linksAlong :: "topology_preset \<Rightarrow> string list \<Rightarrow> string list" where
  "linksAlong p (a # b # r) =
     (case List.find (\<lambda>x. (l_a x = a \<and> l_b x = b) \<or> (l_b x = a \<and> l_a x = b)) (p_links p) of
        None \<Rightarrow> linksAlong p (b # r) | Some l \<Rightarrow> l_id l # linksAlong p (b # r))"
| "linksAlong p _ = []"

definition storeFill :: "link_state \<Rightarrow> accounting \<Rightarrow> rat option \<Rightarrow> rat option" where
  "storeFill l acc scaleBits =
     (case (acc, storedKeys l, fillToKeys l) of
        (Acc_keys, Some n, Some f) \<Rightarrow> if f \<noteq> 0 then Some (max 0 (min 1 (of_int n / of_int f))) else None
      | _ \<Rightarrow> (case (acc, storedBits l, scaleBits) of
          (Acc_stores, Some n, Some f) \<Rightarrow> if f \<noteq> 0 then Some (max 0 (min 1 (n / f))) else None
        | _ \<Rightarrow> None))"

text \<open>\<open>None\<close> is the smaller of two infinities, which makes the coordinates \<^verbatim>\<open>NaN\<close>.\<close>

definition border_factor :: "'a::linordered_field \<Rightarrow> 'a \<Rightarrow> 'a \<Rightarrow> 'a \<Rightarrow> 'a option" where
  "border_factor w h dx dy =
     (if dx = 0 then (if dy = 0 then None else Some (h / 2 / \<bar>dy\<bar>))
      else if dy = 0 then Some (w / 2 / \<bar>dx\<bar>) else Some (min (w / 2 / \<bar>dx\<bar>) (h / 2 / \<bar>dy\<bar>)))"

definition onBorder :: "preset_node \<Rightarrow> preset_node \<Rightarrow> 'a::{floor_ceiling, field_char_0} \<Rightarrow> ('a \<times> 'a) option" where
  "onBorder fr to fontPx =
     (let b = nodeBox fr fontPx; dx = of_int (n_x to) - of_int (n_x fr); dy = of_int (n_y to) - of_int (n_y fr)
      in map_option (\<lambda>t. (of_int (n_x fr) + dx * t, of_int (n_y fr) + dy * t)) (border_factor (bx_w b) (bx_h b) dx dy))"

definition linkEnds :: "topology_preset \<Rightarrow> preset_link \<Rightarrow> 'a::{floor_ceiling, field_char_0} \<Rightarrow> (('a \<times> 'a) \<times> ('a \<times> 'a)) option" where
  "linkEnds p l fontPx = (case (node_at p (l_a l), node_at p (l_b l)) of
     (Some a, Some b) \<Rightarrow> (case (onBorder a b fontPx, onBorder b a fontPx) of (Some u, Some v) \<Rightarrow> Some (u, v) | _ \<Rightarrow> None)
   | _ \<Rightarrow> None)"

definition BAND_LINE_PX :: int where "BAND_LINE_PX = 13"
definition COMPACT_BAND_LINE_PX :: int where "COMPACT_BAND_LINE_PX = 22"

definition bandHeight :: "int \<Rightarrow> bool \<Rightarrow> int" where
  "bandHeight lines narrow = lines * (if narrow then COMPACT_BAND_LINE_PX else BAND_LINE_PX) + 8"

section \<open>Clipping\<close>

lemma clip_loop_iff:
  "t0 \<le> t1 \<Longrightarrow> clip_loop ps t0 t1 \<longleftrightarrow> (\<exists>t. t0 \<le> t \<and> t \<le> t1 \<and> (\<forall>(p, q) \<in> set ps. p * t \<le> q))"
proof (induction ps arbitrary: t0 t1)
  case (Cons pq ps)
  obtain p q where pq: "pq = (p, q)" by (cases pq)
  consider "p = 0" | "p < 0" | "p > 0" by linarith
  then show ?case
  proof cases
    case 1
    then show ?thesis using Cons pq by auto
  next
    case 2
    then have c: "p * t \<le> q \<longleftrightarrow> q / p \<le> t" for t by (simp add: field_simps)
    show ?thesis
    proof (cases "q / p > t1")
      case True
      then show ?thesis using 2 pq c by (auto simp: Let_def)
    next
      case False
      then have "max t0 (q / p) \<le> t1" using Cons.prems by simp
      note ih = Cons.IH [OF this]
      have "clip_loop (pq # ps) t0 t1 = clip_loop ps (max t0 (q / p)) t1" using 2 False pq by (auto simp: Let_def max_def)
      then show ?thesis using pq by (auto simp: ih c)
    qed
  next
    case 3
    then have c: "p * t \<le> q \<longleftrightarrow> t \<le> q / p" for t by (simp add: field_simps)
    show ?thesis
    proof (cases "q / p < t0")
      case True
      then show ?thesis using 3 pq c by (auto simp: Let_def)
    next
      case False
      then have "t0 \<le> min t1 (q / p)" using Cons.prems by simp
      note ih = Cons.IH [OF this]
      have "clip_loop (pq # ps) t0 t1 = clip_loop ps t0 (min t1 (q / p))" using 3 False pq by (auto simp: Let_def min_def)
      then show ?thesis using pq by (auto simp: ih c)
    qed
  qed
qed auto

text \<open>
  C36. The clip decides whether a segment meets a box. It answers yes exactly when some point of the segment, from
  one end to the other, lies in the box or on its border: for segments of any direction, a single point included.
\<close>

theorem segmentHitsBox_correct:
  "segmentHitsBox x1 y1 x2 y2 b \<longleftrightarrow> (\<exists>t. 0 \<le> t \<and> t \<le> 1
    \<and> bx_x b \<le> x1 + (x2 - x1) * t \<and> x1 + (x2 - x1) * t \<le> bx_x b + bx_w b
    \<and> bx_y b \<le> y1 + (y2 - y1) * t \<and> y1 + (y2 - y1) * t \<le> bx_y b + bx_h b)"
proof -
  have e: "- d * t \<le> x - l \<longleftrightarrow> l \<le> x + d * t" "d * t \<le> l - x \<longleftrightarrow> x + d * t \<le> l"
    "l + - d * t \<le> x \<longleftrightarrow> l \<le> x + d * t" for d t x l :: 'a
    by (simp_all add: algebra_simps)
  show ?thesis unfolding segmentHitsBox_def Let_def clip_loop_iff [OF zero_le_one]
    by (simp only: list.set ball_simps split_conv e simp_thms)
qed

section \<open>Captions\<close>

lemma length_cmp_iff: "length_cmp x y \<le> 0 \<longleftrightarrow> x \<le> y" "0 \<le> length_cmp x y \<longleftrightarrow> y \<le> x"
  by (auto simp: length_cmp_def)

interpretation length_order: consistent_cmp length_cmp
  by unfold_locales (auto simp: length_cmp_iff)

interpretation caption_order: consistent_cmp "caption_cmp p" for p
  unfolding caption_cmp_def
  by (intro consistent_cmp_or consistent_cmp_on length_order.consistent_cmp_axioms collation.consistent_cmp_axioms)

text \<open>The best of the places tried is allowed, and none that is allowed costs less.\<close>

lemma try_place_apply: "try_place p placed l best (t, side) =
    (if allowed p placed (box.truncate (candidate p l t side)) \<and> (case best of None \<Rightarrow> True | Some (q, c) \<Rightarrow> place_cost p l t side < c)
     then Some (candidate p l t side, place_cost p l t side) else best)"
  by (simp add: try_place_def Let_def)

definition best_of :: "topology_preset \<Rightarrow> (string \<times> edge_place) list \<Rightarrow> preset_link \<Rightarrow> (real \<times> real) list \<Rightarrow> (edge_place \<times> real) option \<Rightarrow> bool" where
  "best_of p placed l ps best \<longleftrightarrow> (case best of
     None \<Rightarrow> (\<forall>(t, side) \<in> set ps. \<not> allowed p placed (box.truncate (candidate p l t side)))
   | Some (q, c) \<Rightarrow> (\<exists>(t, side) \<in> set ps. q = candidate p l t side \<and> c = place_cost p l t side \<and> allowed p placed (box.truncate q))
       \<and> (\<forall>(t, side) \<in> set ps. allowed p placed (box.truncate (candidate p l t side)) \<longrightarrow> c \<le> place_cost p l t side))"

lemma best_of_snoc: "best_of p placed l ps best \<Longrightarrow> best_of p placed l (ps @ [(t, side)]) (try_place p placed l best (t, side))"
  by (cases best) (auto simp: best_of_def try_place_apply not_less intro: order_trans)

lemma best_place: "best_of p placed l ps (foldl (try_place p placed l) None ps)"
proof (induction ps rule: rev_induct)
  case (snoc ts ps)
  then show ?case using best_of_snoc [of p placed l ps _ "fst ts" "snd ts"] by simp
qed (simp add: best_of_def)

lemma place_link_Some:
  assumes "place_link p placed l = Some q"
  shows "\<exists>t \<in> set ALONG. \<exists>side \<in> set BESIDE. q = candidate p l t side \<and> allowed p placed (box.truncate q)
    \<and> (\<forall>u \<in> set ALONG. \<forall>v \<in> set BESIDE. allowed p placed (box.truncate (candidate p l u v)) \<longrightarrow> place_cost p l t side \<le> place_cost p l u v)"
  using assms best_place [of p placed l "List.product ALONG BESIDE"]
  by (auto simp: place_link_def best_of_def) blast

lemma along_beside: "t \<in> set ALONG \<Longrightarrow> \<bar>t - 0.5\<bar> \<le> 0.28" "s \<in> set BESIDE \<Longrightarrow> \<bar>s\<bar> \<le> 3.4"
  by (auto simp: ALONG_def BESIDE_def)

lemma below_one: "100 * a + 4 * b + 100 * c < 100 \<Longrightarrow> 0 \<le> a \<Longrightarrow> 0 \<le> b \<Longrightarrow> c < (1 :: real)"
  by linarith

end
