(* ===== verification/View_Claims.thy ===== *)
theory View_Claims
  imports View
begin

text \<open>
  The properties of the Protocol Lab's drawing: the captions placed on it do not collide, the published networks fit
  into their drawings, and a line ends on the border of its node.
\<close>

section \<open>Captions\<close>

text \<open>
  A caption lies over another link only where no place avoids it. The place chosen for a link's caption is one of
  the places tried, is allowed, and no allowed place costs less; and when an allowed place lies over no other link,
  neither does the one chosen: a move along or beside the link never outweighs a line.
\<close>

theorem caption_place_best:
  assumes "place_link p placed l = Some q"
  shows "\<exists>t \<in> set ALONG. \<exists>side \<in> set BESIDE. q = candidate p l t side \<and> allowed p placed (box.truncate q)
    \<and> (\<forall>u \<in> set ALONG. \<forall>v \<in> set BESIDE. allowed p placed (box.truncate (candidate p l u v)) \<longrightarrow>
         place_cost p l t side \<le> place_cost p l u v
         \<and> (foreign_lines p l (box.truncate (candidate p l u v)) = 0 \<longrightarrow> foreign_lines p l (box.truncate q) = 0))"
proof -
  obtain t side where q: "t \<in> set ALONG" "side \<in> set BESIDE" "q = candidate p l t side" "allowed p placed (box.truncate q)"
    and least: "\<forall>u \<in> set ALONG. \<forall>v \<in> set BESIDE. allowed p placed (box.truncate (candidate p l u v)) \<longrightarrow> place_cost p l t side \<le> place_cost p l u v"
    using place_link_Some [OF assms] by blast
  have "foreign_lines p l (box.truncate q) = 0"
    if u: "u \<in> set ALONG" "v \<in> set BESIDE" "allowed p placed (box.truncate (candidate p l u v))"
      "foreign_lines p l (box.truncate (candidate p l u v)) = 0" for u v
  proof -
    have "place_cost p l t side \<le> 10 * \<bar>u - 0.5\<bar> * 10 + 4 * \<bar>v\<bar>"
      using bspec [OF bspec [OF least u(1)] u(2)] u(3,4) by (simp add: place_cost_def COST_ALONG_def COST_BESIDE_def)
    also have "\<dots> < 100" using along_beside u(1,2) by fastforce
    finally have "100 * \<bar>t - 0.5\<bar> + 4 * \<bar>side\<bar> + 100 * real (foreign_lines p l (box.truncate q)) < 100"
      using q(3) by (simp add: place_cost_def COST_ALONG_def COST_BESIDE_def COST_FOREIGN_LINE_def)
    then have "real (foreign_lines p l (box.truncate q)) < 1" by (rule below_one) simp_all
    then show ?thesis by simp
  qed
  then show ?thesis using q least by blast
qed

lemma update_fresh: "k \<notin> fst ` set al \<Longrightarrow> AList.update k v al = al @ [(k, v)]"
  by (induction al) auto

lemma overlap_sym: "overlap a b m \<longleftrightarrow> overlap b a m"
  by (auto simp: overlap_def)

definition on_canvas :: "topology_preset \<Rightarrow> real box \<Rightarrow> bool" where
  "on_canvas p b \<longleftrightarrow> 0 \<le> bx_x b \<and> 0 \<le> bx_y b \<and> bx_x b + bx_w b \<le> of_int (fst (p_viewBox p)) \<and> bx_y b + bx_h b \<le> of_int (snd (p_viewBox p))"

definition clear_of_nodes :: "topology_preset \<Rightarrow> real box \<Rightarrow> bool" where
  "clear_of_nodes p b \<longleftrightarrow> list_all (\<lambda>n. \<not> overlap b (nodeBox n LABEL_FONT_PX) EDGE_MARGIN) (p_nodes p)"

definition plate :: "string \<times> edge_place \<Rightarrow> real box" where
  "plate e = box.truncate (snd e)"

definition apart :: "(string \<times> edge_place) list \<Rightarrow> bool" where
  "apart = sorted_wrt (\<lambda>e f. \<not> overlap (plate f) (plate e) EDGE_MARGIN)"

definition well_placed :: "topology_preset \<Rightarrow> string \<times> edge_place \<Rightarrow> bool" where
  "well_placed p e \<longleftrightarrow> on_canvas p (plate e) \<and> clear_of_nodes p (plate e) \<and> ep_linkId (snd e) = fst e"

lemma allowed_iff: "allowed p placed b \<longleftrightarrow> on_canvas p b \<and> clear_of_nodes p b \<and> (\<forall>e \<in> set placed. \<not> overlap b (plate e) EDGE_MARGIN)"
  by (auto simp: allowed_def on_canvas_def clear_of_nodes_def plate_def list_ex_iff list_all_iff not_less)

lemma place_loop_keeps:
  "\<lbrakk>place_loop p ls placed = Some out; distinct (map l_id ls); \<forall>l \<in> set ls. l_id l \<notin> fst ` set placed;
    distinct (map fst placed); list_all (well_placed p) placed; apart placed\<rbrakk>
   \<Longrightarrow> map fst out = map fst placed @ map l_id ls \<and> distinct (map fst out) \<and> list_all (well_placed p) out \<and> apart out"
proof (induction ls arbitrary: placed)
  case (Cons l ls)
  obtain q where q: "place_link p placed l = Some q" "place_loop p ls (AList.update (l_id l) q placed) = Some out"
    using Cons.prems(1) by (cases "place_link p placed l") auto
  have u: "AList.update (l_id l) q placed = placed @ [(l_id l, q)]" using Cons.prems(3) by (intro update_fresh) simp
  obtain t side where "q = candidate p l t side" and a: "allowed p placed (box.truncate q)" using place_link_Some [OF q(1)] by blast
  then have "ep_linkId q = l_id l" by (simp add: candidate_def Let_def)
  then have "list_all (well_placed p) (placed @ [(l_id l, q)])" "apart (placed @ [(l_id l, q)])"
    using a Cons.prems(5,6) by (auto simp: allowed_iff well_placed_def plate_def apart_def sorted_wrt_append list_all_iff)
  moreover have "\<forall>k \<in> set ls. l_id k \<notin> fst ` set (placed @ [(l_id l, q)])" "distinct (map fst (placed @ [(l_id l, q)]))"
    using Cons.prems(2,3,4) by (auto simp: image_iff)
  moreover have "fst ` set placed \<inter> l_id ` set ls = {}" using Cons.prems(3) by force
  ultimately show ?case
    using Cons.IH [OF q(2) [unfolded u]] Cons.prems(2) by simp
qed simp

text \<open>
  C37. No caption collides. When every link of a drawing gets its caption, each lies inside the drawing and clear of
  every node, no two of them touch, and each carries the name of its link: for any network, in any layout.
\<close>

theorem captions_apart:
  assumes "placeEdgeLabels p = Some placed" "distinct (map l_id (p_links p))"
  shows "fst ` set placed = l_id ` set (p_links p) \<and> distinct (map fst placed) \<and> list_all (well_placed p) placed
    \<and> (\<forall>e \<in> set placed. \<forall>f \<in> set placed. e \<noteq> f \<longrightarrow> \<not> overlap (plate e) (plate f) EDGE_MARGIN)"
proof -
  let ?ls = "js_sort (caption_cmp p) (p_links p)"
  have m: "mset (map l_id ?ls) = mset (map l_id (p_links p))" by simp
  then have d: "distinct (map l_id ?ls)" using assms(2) mset_eq_imp_distinct_iff by blast
  have "place_loop p ?ls [] = Some placed" using assms(1) by (simp add: placeEdgeLabels_def split: if_splits)
  from place_loop_keeps [OF this d] have k: "map fst placed = map l_id ?ls" "distinct (map fst placed)" "list_all (well_placed p) placed" "apart placed"
    using d by (simp_all add: apart_def)
  have "set (map fst placed) = set (map l_id ?ls)" by (simp only: k(1))
  then have "fst ` set placed = l_id ` set (p_links p)" by simp
  moreover have "\<not> overlap (plate e) (plate f) EDGE_MARGIN" if ef: "e \<in> set placed" "f \<in> set placed" "e \<noteq> f" for e f
  proof -
    obtain i j where ij: "i < length placed" "placed ! i = e" "j < length placed" "placed ! j = f" using ef(1,2) by (metis in_set_conv_nth)
    then have "i < j \<or> j < i" using ef(3) by (metis linorder_neqE_nat)
    then show ?thesis using k(4) ij overlap_sym unfolding apart_def sorted_wrt_iff_nth_less by metis
  qed
  ultimately show ?thesis using k by blast
qed

section \<open>A drawing\<close>

text \<open>Two nodes side by side and the link between them.\<close>

definition demo_link :: preset_link where
  "demo_link = \<lparr>l_id = ''A-B'', l_a = ''A'', l_b = ''B'', l_kind = Qkd, l_system = None, l_protocol = P_decoy_bb84, l_medium = Some Fibre,
     l_length = None, l_lengthAlt = [], l_loss = None, l_rate = None, l_qber = None, l_aerial = None, l_buried = None, l_campaign = None\<rparr>"

definition demo_preset :: topology_preset where
  "demo_preset = \<lparr>p_id = ''demo'', p_title = ''Demo'', p_viewBox = (400, 200),
     p_nodes = [\<lparr>n_id = ''A'', n_label = ''A'', n_x = 100, n_y = 100, n_alias = []\<rparr>, \<lparr>n_id = ''B'', n_label = ''B'', n_x = 300, n_y = 100, n_alias = []\<rparr>],
     p_links = [demo_link], p_freePlay = FP_keys, p_freePlayWhy = '''', p_defaultDemand = (''A'', ''B'')\<rparr>"

lemma ceiling_known: "of_int n - 1 < x \<Longrightarrow> x \<le> of_int n \<Longrightarrow> \<lceil>x\<rceil> = n" for x :: real
  by (rule ceiling_unique)

lemma demo_nodes:
  "node_of demo_preset ''A'' = Some \<lparr>n_id = ''A'', n_label = ''A'', n_x = 100, n_y = 100, n_alias = []\<rparr>"
  "node_of demo_preset ''B'' = Some \<lparr>n_id = ''B'', n_label = ''B'', n_x = 300, n_y = 100, n_alias = []\<rparr>"
  by (simp_all add: node_of_def demo_preset_def)

lemma demo_middle: "box.truncate (candidate demo_preset demo_link 0.5 0) = \<lparr>bx_x = 190, bx_y = 91, bx_w = 20, bx_h = 18\<rparr>"
proof -
  have l: "js_length [] = 0" "js_length DOWN_MARK = 2" by (simp_all add: js_length_def DOWN_MARK_def)
  have d: "l_a demo_link = ''A''" "l_b demo_link = ''B''" "edgeLabel demo_link = []" by (simp_all add: edgeLabel_def demo_link_def)
  have "\<lceil>2 * EDGE_GLYPH_EM * EDGE_FONT_PX + 2 * EDGE_PAD_X\<rceil> = 20" "\<lceil>EDGE_FONT_PX + 2 * EDGE_PAD_Y + EDGE_GAUGE_H\<rceil> = 18"
    by (rule ceiling_known; simp add: EDGE_GLYPH_EM_def EDGE_FONT_PX_def EDGE_PAD_X_def EDGE_PAD_Y_def EDGE_GAUGE_H_def)+
  then show ?thesis by (simp add: candidate_def Let_def d l demo_nodes box.defs)
qed

lemma demo_middle_free: "allowed demo_preset [] (box.truncate (candidate demo_preset demo_link 0.5 0))"
proof -
  have l: "js_length ''A'' = 1" "js_length ''B'' = 1" by (simp_all add: js_length_def)
  have "\<lceil>GLYPH_EM * LABEL_FONT_PX + 2 * PAD_X :: real\<rceil> = 28"
    by (rule ceiling_known; simp add: GLYPH_EM_def LABEL_FONT_PX_def PAD_X_def)
  then show ?thesis unfolding demo_middle
    by (simp add: allowed_def demo_preset_def nodeBox_def Let_def l overlap_def EDGE_MARGIN_def)
qed

lemma demo_placed: "\<exists>q. place_link demo_preset [] demo_link = Some q"
proof (rule ccontr)
  assume "\<nexists>q. place_link demo_preset [] demo_link = Some q"
  then have "best_of demo_preset [] demo_link (List.product ALONG BESIDE) None"
    using best_place [of demo_preset "[]" demo_link "List.product ALONG BESIDE"]
    by (cases "foldl (try_place demo_preset [] demo_link) None (List.product ALONG BESIDE)") (simp_all add: place_link_def)
  then show False using demo_middle_free by (auto simp: best_of_def ALONG_def BESIDE_def)
qed

theorem caption_place_best_witness:
  "\<exists>q. place_link demo_preset [] demo_link = Some q \<and> foreign_lines demo_preset demo_link (box.truncate q) = 0"
proof -
  obtain q where q: "place_link demo_preset [] demo_link = Some q" using demo_placed by blast
  have "foreign_lines demo_preset demo_link b = 0" for b by (simp add: foreign_lines_def demo_preset_def)
  then show ?thesis using caption_place_best [OF q] q by blast
qed

theorem captions_apart_witness:
  "\<exists>placed. placeEdgeLabels demo_preset = Some placed \<and> fst ` set placed = {''A-B''}"
proof -
  obtain q where q: "place_link demo_preset [] demo_link = Some q" using demo_placed by blast
  have "node_of demo_preset ''A'' \<noteq> None" "node_of demo_preset ''B'' \<noteq> None" by (simp_all add: node_of_def demo_preset_def)
  moreover have ls: "p_links demo_preset = [demo_link]" "l_id demo_link = ''A-B''" "l_a demo_link = ''A''" "l_b demo_link = ''B''"
    by (simp_all add: demo_preset_def demo_link_def)
  ultimately have "placeEdgeLabels demo_preset = Some [(''A-B'', q)]" using q by (simp add: placeEdgeLabels_def)
  with captions_apart [OF this] ls show ?thesis by simp
qed

section \<open>Boxes, lines and stores\<close>

text \<open>In whole numbers, for a font of a whole number of units.\<close>

definition box_fits :: "topology_preset \<Rightarrow> int \<Rightarrow> preset_node \<Rightarrow> bool" where
  "box_fits p f n = (let w = (6 * int (js_length (n_label n)) * f + 9) div 10 + 20; h = f + 14
     in w \<le> 2 * n_x n \<and> h \<le> 2 * n_y n \<and> 2 * n_x n + w \<le> 2 * fst (p_viewBox p) \<and> 2 * n_y n + h \<le> 2 * snd (p_viewBox p))"

lemma ceiling_tenth: "\<lceil>(of_int k :: rat) / 10 + 20\<rceil> = (k + 9) div 10 + 20"
proof (rule ceiling_unique)
  let ?q = "(k + 9) div 10"
  have "10 * ?q \<le> k + 9" "k + 9 < 10 * ?q + 10" by linarith+
  then have "10 * ?q - 10 < k" "k \<le> 10 * ?q" by linarith+
  then have "(of_int (10 * ?q - 10) :: rat) < of_int k" "(of_int k :: rat) \<le> of_int (10 * ?q)" by (simp_all only: of_int_less_iff of_int_le_iff)
  then show "of_int (?q + 20) - 1 < (of_int k :: rat) / 10 + 20" "(of_int k :: rat) / 10 + 20 \<le> of_int (?q + 20)"
    by (simp_all add: field_simps)
qed

lemma half_le: "of_int w / 2 \<le> (of_int x :: rat) \<longleftrightarrow> w \<le> 2 * x" "of_int x + of_int w / 2 \<le> (of_int y :: rat) \<longleftrightarrow> 2 * x + w \<le> 2 * y"
proof -
  have "of_int w / 2 \<le> (of_int x :: rat) \<longleftrightarrow> (of_int w :: rat) \<le> of_int (2 * x)" by (simp add: field_simps)
  then show "of_int w / 2 \<le> (of_int x :: rat) \<longleftrightarrow> w \<le> 2 * x" by (simp only: of_int_le_iff)
  have "of_int x + of_int w / 2 \<le> (of_int y :: rat) \<longleftrightarrow> (of_int (2 * x + w) :: rat) \<le> of_int (2 * y)" by (simp add: field_simps)
  then show "of_int x + of_int w / 2 \<le> (of_int y :: rat) \<longleftrightarrow> 2 * x + w \<le> 2 * y" by (simp only: of_int_le_iff)
qed

lemma boxesFit_int: "list_all (box_fits p f) (p_nodes p) \<Longrightarrow> boxesFit p (of_int f :: rat)"
proof -
  assume a: "list_all (box_fits p f) (p_nodes p)"
  have w: "of_nat l * GLYPH_EM * of_int f + 2 * PAD_X = (of_int (6 * int l * f) :: rat) / 10 + 20" for l
    by (simp add: GLYPH_EM_def PAD_X_def)
  have h: "of_int f + 14 = (of_int (f + 14) :: rat)" by simp
  have minus: "of_int x - y / 2 + y = of_int x + y / (2 :: rat)" "0 \<le> of_int x - y / (2 :: rat) \<longleftrightarrow> y / 2 \<le> of_int x" for x y by simp_all
  show ?thesis
    using a unfolding boxesFit_def nodeBox_def w ceiling_tenth h Let_def box.simps minus half_le
    by (auto simp: list_all_iff box_fits_def Let_def)
qed

lemma preset_boxes: "list_all (\<lambda>p. boxesFit p (12 :: rat) \<and> boxesFit p (20 :: rat)) PRESETS"
proof -
  have "list_all (\<lambda>p. list_all (box_fits p 12) (p_nodes p) \<and> list_all (box_fits p 20) (p_nodes p)) PRESETS" by code_simp
  then show ?thesis using boxesFit_int [of _ 12] boxesFit_int [of _ 20] by (auto simp: list_all_iff)
qed

text \<open>The point where a line leaves a box is on the border: as far from the centre as the box is wide or high.\<close>

lemma border_factor_touches:
  assumes "border_factor w h dx dy = Some t" "0 \<le> w" "0 \<le> h"
  shows "\<bar>dx * t\<bar> \<le> w / 2" "\<bar>dy * t\<bar> \<le> h / 2" "\<bar>dx * t\<bar> = w / 2 \<or> \<bar>dy * t\<bar> = h / 2"
proof -
  have m: "\<bar>d\<bar> * (v / 2 / \<bar>d\<bar>) = v / 2" if "d \<noteq> 0" for d v :: 'a using that by simp
  have le: "\<bar>d\<bar> * t \<le> v / 2" if "0 \<le> v" "d \<noteq> 0 \<Longrightarrow> t \<le> v / 2 / \<bar>d\<bar>" for d v :: 'a
    using mult_left_mono [of t "v / 2 / \<bar>d\<bar>" "\<bar>d\<bar>"] m [of d v] that by (cases "d = 0") simp_all
  have t: "0 \<le> t" using assms by (auto simp: border_factor_def min_def split: if_splits)
  have a: "\<bar>d * t\<bar> = \<bar>d\<bar> * t" for d using t by (simp add: abs_mult)
  have "dx \<noteq> 0 \<Longrightarrow> t \<le> w / 2 / \<bar>dx\<bar>" "dy \<noteq> 0 \<Longrightarrow> t \<le> h / 2 / \<bar>dy\<bar>"
    using assms(1) by (auto simp: border_factor_def split: if_splits)
  then show "\<bar>dx * t\<bar> \<le> w / 2" "\<bar>dy * t\<bar> \<le> h / 2" unfolding a using le assms(2,3) by blast+
  have "dx \<noteq> 0 \<and> t = w / 2 / \<bar>dx\<bar> \<or> dy \<noteq> 0 \<and> t = h / 2 / \<bar>dy\<bar>"
    using assms(1) by (auto simp: border_factor_def min_def split: if_splits)
  then show "\<bar>dx * t\<bar> = w / 2 \<or> \<bar>dy * t\<bar> = h / 2" unfolding a using m by blast
qed

lemma storeFill_range: "storeFill l acc sc = Some f \<Longrightarrow> 0 \<le> f \<and> f \<le> 1"
  by (auto simp: storeFill_def split: accounting.splits option.splits if_splits)

lemma linksAlong_known: "set (linksAlong p ns) \<subseteq> l_id ` set (p_links p)"
  by (induction p ns rule: linksAlong.induct) (auto simp: find_Some_iff split: option.splits)

end
