(* ===== verification/Playback.thy ===== *)
theory Playback
  imports Lab_State
begin

text \<open>
  How the Protocol Lab plays one tick back, \<^verbatim>\<open>lib/sim/protocolLab/playback.ts\<close>: the part of the tick lit at each
  moment, and where the key is on its route. It reads the trace of a tick (\<open>tick_trace\<close>) and the preset, and feeds
  nothing back. Progress is a rational.
\<close>

definition SWEEP_MIN_DWELL_MS :: rat where "SWEEP_MIN_DWELL_MS = 600"
definition STEP_MIN_PLAY_MS :: rat where "STEP_MIN_PLAY_MS = 1200"
definition TRAVEL_SHARE :: rat where "TRAVEL_SHARE = 76 / 100"
definition PLAY_SHARE :: rat where "PLAY_SHARE = 92 / 100"

record play_plan =
  pl_playMs :: rat
  pl_sweep :: bool

definition playbackPlan :: "rat \<Rightarrow> bool \<Rightarrow> bool \<Rightarrow> play_plan option" where
  "playbackPlan dwell running reducedMotion =
     (if reducedMotion then None
      else let playMs = max (dwell * PLAY_SHARE) (if running then 0 else STEP_MIN_PLAY_MS)
           in Some \<lparr>pl_playMs = playMs, pl_sweep = (playMs \<ge> SWEEP_MIN_DWELL_MS)\<rparr>)"

record step_window =
  sw_index :: nat
  sw_start :: rat
  sw_end :: rat

definition tick_weights :: "tick_trace \<Rightarrow> nat list" where
  "tick_weights tr =
     (let hops = (case tt_relay tr of Some r \<Rightarrow> max 1 (length (tr_nodes r) - 1) | None \<Rightarrow> 1)
      in map (\<lambda>s. if step_id s = S_relay \<and> tt_relay tr \<noteq> None then hops + 1 else 1) (tt_steps tr))"

fun window_loop :: "nat \<Rightarrow> nat list \<Rightarrow> nat \<Rightarrow> nat \<Rightarrow> step_window list" where
  "window_loop total_w [] pos k = []"
| "window_loop total_w (w # ws) pos k =
     \<lparr>sw_index = k, sw_start = of_nat pos / of_nat total_w, sw_end = of_nat (pos + w) / of_nat total_w\<rparr>
       # window_loop total_w ws (pos + w) (k + 1)"

definition tickWindows :: "tick_trace \<Rightarrow> step_window list" where
  "tickWindows tr = (let weights = tick_weights tr in window_loop (sum_list weights) weights 0 0)"

definition stepAt :: "step_window list \<Rightarrow> rat \<Rightarrow> nat option" where
  "stepAt windows p = (if p \<ge> 1 then None else map_option sw_index (List.find (\<lambda>w. p < sw_end w) windows))"

record packet_pose =
  pk_x :: rat
  pk_y :: rat
  pk_hop :: nat
  pk_atNode :: "string option"
  pk_arrived :: bool

definition ease :: "rat \<Rightarrow> rat" where
  "ease u = (if u < 1 / 2 then 2 * u * u else 1 - (- 2 * u + 2) ^ 2 / 2)"

definition preset_node_at :: "topology_preset \<Rightarrow> string \<Rightarrow> preset_node option" where
  "preset_node_at preset i = List.find (\<lambda>n. n_id n = i) (p_nodes preset)"

definition packetPose :: "topology_preset \<Rightarrow> tick_trace \<Rightarrow> rat \<Rightarrow> packet_pose option" where
  "packetPose preset tr u =
     (case tt_relay tr of
        None \<Rightarrow> None
      | Some relay \<Rightarrow>
          if u < 0 \<or> u \<ge> 1 \<or> length (tr_nodes relay) < 2 then None
          else
            let hops = length (tr_nodes relay) - 1;
                along = u * of_nat hops;
                hop = min (hops - 1) (nat \<lfloor>along\<rfloor>);
                f = along - of_nat hop
            in (case (preset_node_at preset (tr_nodes relay ! hop), preset_node_at preset (tr_nodes relay ! (hop + 1))) of
                  (Some a, Some b) \<Rightarrow>
                    let crossing = (f < TRAVEL_SHARE);
                        t = (if crossing then ease (f / TRAVEL_SHARE) else 1)
                    in Some \<lparr>pk_x = of_int (n_x a) + (of_int (n_x b) - of_int (n_x a)) * t,
                             pk_y = of_int (n_y a) + (of_int (n_y b) - of_int (n_y a)) * t,
                             pk_hop = hop,
                             pk_atNode = (if \<not> crossing \<and> hop < hops - 1 then Some (tr_nodes relay ! (hop + 1)) else None),
                             pk_arrived = (\<not> crossing \<and> hop = hops - 1)\<rparr>
                | _ \<Rightarrow> None))"

fun findIndex :: "('a \<Rightarrow> bool) \<Rightarrow> 'a list \<Rightarrow> nat option" where
  "findIndex P [] = None"
| "findIndex P (x # xs) = (if P x then Some 0 else map_option Suc (findIndex P xs))"

definition relayProgress :: "tick_trace \<Rightarrow> step_window list \<Rightarrow> rat \<Rightarrow> bool \<Rightarrow> rat option" where
  "relayProgress tr windows p sweep =
     (if tt_relay tr = None \<or> p \<ge> 1 then None
      else if \<not> sweep then Some p
      else (case findIndex (\<lambda>s. step_id s = S_relay) (tt_steps tr) of
              None \<Rightarrow> None
            | Some i \<Rightarrow>
                if \<not> i < length windows then None
                else let w = windows ! i
                     in if p < sw_start w \<or> p \<ge> sw_end w then None
                        else Some ((p - sw_start w) / (sw_end w - sw_start w))))"

section \<open>The parts of a tick\<close>

lemma tick_weights_pos: "w \<in> set (tick_weights tr) \<Longrightarrow> 0 < w"
  by (auto simp: tick_weights_def Let_def split: if_splits)

lemma length_window_loop [simp]: "length (window_loop t ws pos i) = length ws"
  by (induction ws arbitrary: pos i) simp_all

lemma window_loop_nth:
  "k < length ws \<Longrightarrow> window_loop t ws pos i ! k =
    \<lparr>sw_index = i + k, sw_start = of_nat (pos + sum_list (take k ws)) / of_nat t, sw_end = of_nat (pos + sum_list (take (Suc k) ws)) / of_nat t\<rparr>"
proof (induction ws arbitrary: pos i k)
  case (Cons w ws)
  then show ?case by (cases k) (simp_all add: add.assoc)
qed simp

lemma tickWindows_nth:
  assumes "k < length (tt_steps tr)"
  shows "tickWindows tr ! k = \<lparr>sw_index = k, sw_start = of_nat (sum_list (take k (tick_weights tr))) / of_nat (sum_list (tick_weights tr)),
    sw_end = of_nat (sum_list (take (Suc k) (tick_weights tr))) / of_nat (sum_list (tick_weights tr))\<rparr>"
  using assms window_loop_nth [of k "tick_weights tr"] by (simp add: tickWindows_def Let_def tick_weights_def)

lemma length_tickWindows [simp]: "length (tickWindows tr) = length (tt_steps tr)"
  by (simp add: tickWindows_def Let_def tick_weights_def)

lemma find_first: "List.find P xs = Some x \<Longrightarrow> \<exists>k < length xs. x = xs ! k \<and> P x \<and> (\<forall>j < k. \<not> P (xs ! j))"
  by (auto simp: find_Some_iff)

text \<open>
  Exactly one part is lit while a tick plays. At every moment of a tick with parts, one part is lit, that of the
  window the moment lies in; the windows follow each other without gap or overlap from the start of the tick to its
  end, and none is empty.
\<close>

theorem one_part_lit:
  assumes "0 \<le> p" "p < 1" "tt_steps tr \<noteq> []"
  shows "\<exists>k < length (tt_steps tr). stepAt (tickWindows tr) p = Some k
    \<and> sw_start (tickWindows tr ! k) \<le> p \<and> p < sw_end (tickWindows tr ! k)
    \<and> sw_start (tickWindows tr ! 0) = 0 \<and> sw_end (tickWindows tr ! (length (tt_steps tr) - 1)) = 1
    \<and> (if 0 < k then sw_end (tickWindows tr ! (k - 1)) = sw_start (tickWindows tr ! k) else True)"
proof -
  let ?W = "tick_weights tr" and ?n = "length (tt_steps tr)"
  have n: "0 < ?n" "length ?W = ?n" using assms(3) by (simp_all add: tick_weights_def)
  have "?W \<noteq> []" using n by auto
  then have "hd ?W \<in> set ?W" by simp
  then have pos: "0 < sum_list ?W" using tick_weights_pos [of "hd ?W" tr] member_le_sum_list [of "hd ?W" ?W] by linarith
  have "take (Suc (?n - 1)) ?W = ?W" "?n - 1 < ?n" using n by simp_all
  moreover have "of_nat (sum_list ?W) \<noteq> (0 :: rat)" using pos by (simp only: of_nat_eq_0_iff not_gr_zero [symmetric]) simp
  ultimately have last: "sw_end (tickWindows tr ! (?n - 1)) = 1" by (simp only: tickWindows_nth step_window.simps divide_self not_False_eq_True)
  have first: "sw_start (tickWindows tr ! 0) = 0" using n by (simp add: tickWindows_nth)
  have "\<exists>w. List.find (\<lambda>w. p < sw_end w) (tickWindows tr) = Some w"
  proof (rule ccontr)
    assume "\<nexists>w. List.find (\<lambda>w. p < sw_end w) (tickWindows tr) = Some w"
    then have "List.find (\<lambda>w. p < sw_end w) (tickWindows tr) = None" by auto
    then have "\<forall>w \<in> set (tickWindows tr). \<not> p < sw_end w" by (auto simp: find_None_iff)
    moreover have "tickWindows tr ! (?n - 1) \<in> set (tickWindows tr)" using n by (intro nth_mem) simp
    ultimately show False using last assms(2) by auto
  qed
  then obtain w where w: "List.find (\<lambda>w. p < sw_end w) (tickWindows tr) = Some w" by blast
  then obtain k where k: "k < ?n" "w = tickWindows tr ! k" "p < sw_end w" "\<forall>j < k. \<not> p < sw_end (tickWindows tr ! j)"
    using find_first [OF w] by auto
  have join: "0 < k \<Longrightarrow> sw_end (tickWindows tr ! (k - 1)) = sw_start (tickWindows tr ! k)" using k(1) by (simp add: tickWindows_nth)
  have "sw_start (tickWindows tr ! k) \<le> p"
  proof (cases k)
    case 0
    then show ?thesis using first assms(1) by simp
  next
    case (Suc j)
    then show ?thesis using join k(4) by (auto simp: not_less)
  qed
  moreover have "stepAt (tickWindows tr) p = Some k" using w k(1,2) assms(2) by (simp add: stepAt_def tickWindows_nth)
  ultimately show ?thesis using k first last join by (intro exI [of _ k]) simp
qed

text \<open>A tick that relays over three nodes, between its selection of a route and its delivery.\<close>

definition demo_trace :: tick_trace where
  "demo_trace = \<lparr>tt_tick = 1, tt_t = 1,
     tt_steps = map (\<lambda>i. \<lparr>step_id = i, outcome = O_ok, step_detail = []\<rparr>) [S_generate, S_route, S_relay, S_deliver],
     tt_relay = Some \<lparr>tr_nodes = [''A'', ''M'', ''B''], tr_linkIds = [''A-M'', ''M-B''], tr_amount = []\<rparr>\<rparr>"

definition demo_line :: topology_preset where
  "demo_line = \<lparr>p_id = ''line'', p_title = ''Line'', p_viewBox = (400, 200),
     p_nodes = map (\<lambda>(i, x). \<lparr>n_id = i, n_label = i, n_x = x, n_y = 100, n_alias = []\<rparr>) [(''A'', 50), (''M'', 200), (''B'', 350)],
     p_links = [], p_freePlay = FP_keys, p_freePlayWhy = '''', p_defaultDemand = (''A'', ''B'')\<rparr>"

theorem one_part_lit_witness:
  "stepAt (tickWindows demo_trace) (1 / 2) = Some 2 \<and> sw_start (tickWindows demo_trace ! 2) \<le> 1 / 2"
proof -
  have "stepAt (tickWindows demo_trace) (1 / 2) = Some 2" by code_simp
  moreover have "tt_steps demo_trace \<noteq> []" by (simp add: demo_trace_def)
  ultimately show ?thesis using one_part_lit [of "1 / 2" demo_trace] by auto
qed

section \<open>The key on its route\<close>

text \<open>The easing keeps 0, the middle and 1 where they are.\<close>

lemma ease_marks:
  assumes "0 \<le> u" "u < 1"
  shows "0 \<le> ease u" "ease u < 1" "ease u = 0 \<longleftrightarrow> u = 0" "ease u < 1 / 2 \<longleftrightarrow> u < 1 / 2"
proof -
  have "0 \<le> ease u \<and> ease u < 1 \<and> (ease u = 0 \<longleftrightarrow> u = 0) \<and> (ease u < 1 / 2 \<longleftrightarrow> u < 1 / 2)"
  proof (cases "u < 1 / 2")
    case True
    then have "2 * u * u < 1 / 2" using mult_mono [of "2 * u" 1 u u] assms(1) by simp
    then show ?thesis using True assms(1) by (auto simp: ease_def)
  next
    case False
    define v where "v = 2 - 2 * u"
    have v: "0 < v" "v \<le> 1" using False assms(2) by (simp_all add: v_def)
    have e: "ease u = 1 - v ^ 2 / 2" using False by (simp add: ease_def v_def)
    have "0 < v ^ 2" "v ^ 2 \<le> 1" using v power_le_one [of v 2] by simp_all
    then have "1 / 2 \<le> ease u" "ease u < 1" unfolding e by (simp_all add: field_simps)
    then show ?thesis using False by auto
  qed
  then show "0 \<le> ease u" "ease u < 1" "ease u = 0 \<longleftrightarrow> u = 0" "ease u < 1 / 2 \<longleftrightarrow> u < 1 / 2" by simp_all
qed

lemma hop_fraction:
  assumes "0 \<le> (u :: rat)" "u < 1" "0 < n"
  defines "hop \<equiv> min (n - 1) (nat \<lfloor>u * of_nat n\<rfloor>)"
  shows "0 \<le> u * of_nat n - of_nat hop" "u * of_nat n - of_nat hop < 1" "hop < n"
proof -
  have l: "u * of_nat n < of_nat n" "0 \<le> u * of_nat n" using assms by simp_all
  then have "\<lfloor>u * of_nat n\<rfloor> < int n" "0 \<le> \<lfloor>u * of_nat n\<rfloor>" by (simp_all add: floor_less_iff)
  then have "hop = nat \<lfloor>u * of_nat n\<rfloor>" "hop < n" and "int hop = \<lfloor>u * of_nat n\<rfloor>" unfolding hop_def by linarith+
  then have "of_nat hop = (of_int \<lfloor>u * of_nat n\<rfloor> :: rat)" by (metis of_int_of_nat_eq)
  then show "0 \<le> u * of_nat n - of_nat hop" "u * of_nat n - of_nat hop < 1" by linarith+
  show "hop < n" by fact
qed

text \<open>The point a share \<open>t\<close> of the way from one node to another.\<close>

definition on_link :: "preset_node \<Rightarrow> preset_node \<Rightarrow> rat \<Rightarrow> rat \<times> rat" where
  "on_link a b t = ((1 - t) * of_int (n_x a) + t * of_int (n_x b), (1 - t) * of_int (n_y a) + t * of_int (n_y b))"



end
