(* ===== verification/Status_Views.thy ===== *)
theory Status_Views
  imports Networks
begin

text \<open>
  What the pages say about what they were told: the verdict of the key-rate cross-check (\<^verbatim>\<open>pages/crosscheckVerdict.ts\<close>),
  the badge of a WireGuard interface (\<^verbatim>\<open>pages/wgStatusBadge.ts\<close>), a rate in a legible unit (\<^verbatim>\<open>lib/formatRate.ts\<close>), the rounds
  of the benchmarks (\<^verbatim>\<open>lib/sim/benchmarksHistory.ts\<close>), the graph of the key flow (\<^verbatim>\<open>pages/keyFlowGraph.ts\<close>), and the focus rules
  of the menu (\<^verbatim>\<open>lib/disclosure.ts\<close>).

  A number of the API is a rational, or \<open>None\<close> where it is absent or not finite. A string is its UTF-8 encoding.
\<close>

section \<open>The cross-check\<close>

record verdict_display =
  vd_label :: string
  vd_ok :: "bool option"
  vd_detail :: string

definition VERDICT_DISPLAY :: "(string \<times> verdict_display) list" where
  "VERDICT_DISPLAY = [
   (''agree'', \<lparr>vd_label = ''YES (rates within 10x)'', vd_ok = Some True, vd_detail = ''Both implementations predict an extractable key and the two rates are within a factor of 10. That is''
       @ '' an order-of-magnitude check, not a numerical match: they differ because TNO optimises the intensity''
       @ '' mu while the closed form uses the configured mu.''\<rparr>),
   (''disagree'', \<lparr>vd_label = ''NO (rates differ by more than 10x)'', vd_ok = Some False, vd_detail = ''Both implementations predict a key, but the rates are more than a factor of 10 apart. That is a real''
       @ '' disagreement between two independent models, not a display artefact -- compare the parameters on ''
       @ ''/physics.''\<rparr>),
   (''neither_predicts_a_key'', \<lparr>vd_label = ''Both predict no extractable key'', vd_ok = None, vd_detail = ''The closed form and the TNO optimiser both return exactly zero at this distance, which is agreement,''
       @ '' not a failure to compare. No ratio is reported because 0/0 has none. Shorten the link on /physics ''
       @ ''to get a rate comparison.''\<rparr>),
   (''one_side_zero'', \<lparr>vd_label = ''Not comparable (one side is zero)'', vd_ok = Some False, vd_detail = ''Exactly one implementation predicts an extractable key. The ratio is undefined, and the disagreement''
       @ '' is qualitative rather than numeric: the two models put the zero-rate distance in different places.''\<rparr>),
   (''engine_unavailable'', \<lparr>vd_label = ''Not run (TNO engine unavailable)'', vd_ok = None, vd_detail = ''The TNO optimiser produced no rate, so there is nothing to cross-check against. This is an absent ''
       @ ''measurement, not a negative result -- see the error field in the export.''\<rparr>)]"

text \<open>What the API returned: nothing, a string, or something else, as JavaScript renders it.\<close>

datatype unknown = Absent | Text string | Other string

definition describeVerdict :: "unknown \<Rightarrow> verdict_display" where
  "describeVerdict v =
     (case (case v of Text s \<Rightarrow> map_of VERDICT_DISPLAY s | _ \<Rightarrow> None) of
        Some d \<Rightarrow> d
      | None \<Rightarrow> \<lparr>vd_label = (case v of Absent \<Rightarrow> ''Not reported'' | Text s \<Rightarrow> ''Unrecognised verdict: '' @ s | Other s \<Rightarrow> ''Unrecognised verdict: '' @ s),
          vd_ok = None,
          vd_detail = (''This build does not know how to interpret the cross-check result the API returned. Treat it as not ''
       @ ''measured.'')\<rparr>)"

section \<open>The WireGuard badge\<close>

definition BADGE_OK :: string where "BADGE_OK = ''#3ddc84''"
definition BADGE_WARN :: string where "BADGE_WARN = ''#f5a623''"
definition BADGE_FAULT :: string where "BADGE_FAULT = ''#e25555''"
definition BADGE_NEUTRAL :: string where "BADGE_NEUTRAL = ''#445''"

definition statusColor :: "string \<Rightarrow> string" where
  "statusColor s =
     (if s = ''established'' then BADGE_OK
      else if s = ''running'' \<or> s = ''restarting'' \<or> s = ''rekeying'' then BADGE_WARN
      else if s = ''stopped'' \<or> s = ''down'' \<or> s = ''error'' then BADGE_FAULT
      else BADGE_NEUTRAL)"

record wg_input =
  wi_status :: string
  wi_active_sa :: "int option"
  wi_peers_fresh :: "int option"
  wi_fresh_within_s :: "int option"

record badge_view =
  bv_text :: string
  bv_color :: string
  bv_title :: "string option"

definition badge_limit :: "wg_input \<Rightarrow> string" where
  "badge_limit s = (case wi_fresh_within_s s of
     Some n \<Rightarrow> show_int n @ ('' s (WireGuard'' @ [CHR 0x27] @ ''s REJECT_AFTER_TIME)'')
   | None \<Rightarrow> (''WireGuard'' @ [CHR 0x27] @ ''s REJECT_AFTER_TIME''))"

definition wgStatusBadge :: "wg_input \<Rightarrow> badge_view" where
  "wgStatusBadge s =
     (if wi_status s \<noteq> ''established'' then \<lparr>bv_text = wi_status s, bv_color = statusColor (wi_status s), bv_title = None\<rparr>
      else if (case wi_peers_fresh s of Some n \<Rightarrow> n > 0 | None \<Rightarrow> False)
      then \<lparr>bv_text = ''established'', bv_color = BADGE_OK,
             bv_title = Some ((''A peer'' @ [CHR 0x27] @ ''s latest handshake is under '') @ badge_limit s
               @ ('' old, so it still holds a session key WireGuard will use; this does not show that the preshared key ''
       @ ''written most recently is in use.''))\<rparr>
      else if wi_peers_fresh s = Some 0 \<and> (case wi_active_sa s of Some n \<Rightarrow> n | None \<Rightarrow> 0) > 0
      then \<lparr>bv_text = ''stale'', bv_color = BADGE_WARN,
             bv_title = Some ((''Every peer'' @ [CHR 0x27] @ ''s latest handshake is at least '') @ badge_limit s
               @ ('' old, so no session key WireGuard will use is left; the API'' @ [CHR 0x27] @ ''s status still reads established because''
       @ '' a handshake completed since the interface came up.''))\<rparr>
      else \<lparr>bv_text = ''handshaked'', bv_color = BADGE_NEUTRAL,
             bv_title = Some (''A peer has handshaked since the interface came up, but the API gave no fresh count (an unreadable ''
       @ ''handshake age, or a backend from before the field), so whether a session key WireGuard will use is ''
       @ ''still held is not known.'')\<rparr>)"

section \<open>Rates\<close>

text \<open>
  \<^verbatim>\<open>toFixed\<close>: the nearest number of that many decimals, the larger of two. It is applied to the exact quotient; the
  program divides first, in doubles, which can take a tie to the other side: 1005 bit/s is printed as 1.00 kbps there and
  as 1.01 kbps here, both within half of the last digit.
\<close>

definition fixed_digits :: "nat \<Rightarrow> nat \<Rightarrow> string" where
  "fixed_digits d n =
     (if d = 0 then show_nat n
      else let r = show_nat (n mod 10 ^ d) in show_nat (n div 10 ^ d) @ ''.'' @ replicate (d - length r) (CHR ''0'') @ r)"

definition toFixed :: "nat \<Rightarrow> rat \<Rightarrow> string" where
  "toFixed d x = (if x < 0 then ''-'' @ fixed_digits d (nat \<lfloor>- x * 10 ^ d + 1 / 2\<rfloor>) else fixed_digits d (nat \<lfloor>x * 10 ^ d + 1 / 2\<rfloor>))"

definition formatRate :: "rat option \<Rightarrow> string \<times> string" where
  "formatRate bps = (case bps of
     None \<Rightarrow> (([CHR 0xE2] @ [CHR 0x80] @ [CHR 0x94]), ''not reported'')
   | Some bps \<Rightarrow>
       if bps \<ge> 999999500 then (toFixed 2 (bps / 10 ^ 9), ''Gbps'')
       else if bps \<ge> 999995 then (toFixed 2 (bps / 10 ^ 6), ''Mbps'')
       else if bps \<ge> 9995 / 10 then (toFixed 2 (bps / 10 ^ 3), ''kbps'')
       else (toFixed 0 bps, ''bps''))"

record printed_value =
  pv_printed :: string
  pv_unit :: string
  pv_qualifier :: "string option"
  pv_sd :: "string option"

definition nonempty :: "string option \<Rightarrow> bool" where
  "nonempty s = (case s of None \<Rightarrow> False | Some t \<Rightarrow> t \<noteq> [])"

definition formatReported :: "printed_value option \<Rightarrow> string" where
  "formatReported v = (case v of
     None \<Rightarrow> ''not reported''
   | Some v \<Rightarrow>
       let q = (if nonempty (pv_qualifier v) then the (pv_qualifier v) @ '' '' else '''');
           sd = (if nonempty (pv_sd v) then ('' '' @ [CHR 0xC2] @ [CHR 0xB1] @ '' '') @ the (pv_sd v) else '''');
           joined = (if q = ''> '' \<or> q = ''~ '' \<or> q = ''< '' then take 1 q else q)
       in joined @ pv_printed v @ sd @ '' '' @ pv_unit v)"

section \<open>Benchmarks\<close>

record bench_sample =
  bs_rounds_total :: "int option"
  bs_last_qber :: "rat option"
  bs_last_round_ms :: "rat option"

definition isNewRound :: "int option \<Rightarrow> bench_sample \<Rightarrow> bool" where
  "isNewRound previous s \<longleftrightarrow> bs_rounds_total s \<noteq> None \<and> bs_rounds_total s \<noteq> previous"

definition reading :: "rat option \<Rightarrow> rat option" where
  "reading x = (case x of Some n \<Rightarrow> Some n | None \<Rightarrow> None)"

record round_rec =
  rc_round :: int
  rc_ms :: "rat option"
  rc_qber :: "rat option"

definition ROUND_HISTORY_LIMIT :: nat where "ROUND_HISTORY_LIMIT = 120"

definition appendRound :: "round_rec list \<Rightarrow> round_rec \<Rightarrow> round_rec list" where
  "appendRound h r = slice_last ROUND_HISTORY_LIMIT (h @ [r])"

definition benchmarksCsvRows :: "round_rec list \<Rightarrow> (int \<times> rat option \<times> rat option) list" where
  "benchmarksCsvRows h = map (\<lambda>r. (rc_round r, rc_ms r, rc_qber r)) h"

section \<open>The key flow\<close>

definition KEY_FLOW_NODES :: "string list" where
  "KEY_FLOW_NODES = [''BB84 raw bits'',
     ''Sifted (basis-match)'',
     ''Reconciled (QBER ok)'',
     ''QKD key (256 b)'',
     ''PQC-HPKE MLKEM1024-P384'',
     ''PQC key (256 b)'',
     ''HKDF-SHA3-256'',
     ''wg0 PSK (256 b)'',
     ''Rosenpass McEliece+Kyber512'',
     ''wg1 PSK (256 b)'']"

record key_flow_edge =
  ke_from :: string
  ke_to :: string
  ke_bits :: nat
  ke_illustrative :: bool

definition FLOW_KEY_BITS :: nat where "FLOW_KEY_BITS = 256"

definition KEY_FLOW_EDGES :: "key_flow_edge list" where
  "KEY_FLOW_EDGES = [\<lparr>ke_from = ''BB84 raw bits'', ke_to = ''Sifted (basis-match)'', ke_bits = 2048, ke_illustrative = True\<rparr>,
     \<lparr>ke_from = ''Sifted (basis-match)'', ke_to = ''Reconciled (QBER ok)'', ke_bits = 1024, ke_illustrative = True\<rparr>,
     \<lparr>ke_from = ''Reconciled (QBER ok)'', ke_to = ''QKD key (256 b)'', ke_bits = FLOW_KEY_BITS, ke_illustrative = True\<rparr>,
     \<lparr>ke_from = ''PQC-HPKE MLKEM1024-P384'', ke_to = ''PQC key (256 b)'', ke_bits = FLOW_KEY_BITS, ke_illustrative = False\<rparr>,
     \<lparr>ke_from = ''QKD key (256 b)'', ke_to = ''HKDF-SHA3-256'', ke_bits = FLOW_KEY_BITS, ke_illustrative = False\<rparr>,
     \<lparr>ke_from = ''PQC key (256 b)'', ke_to = ''HKDF-SHA3-256'', ke_bits = FLOW_KEY_BITS, ke_illustrative = False\<rparr>,
     \<lparr>ke_from = ''HKDF-SHA3-256'', ke_to = ''wg0 PSK (256 b)'', ke_bits = FLOW_KEY_BITS, ke_illustrative = False\<rparr>,
     \<lparr>ke_from = ''Rosenpass McEliece+Kyber512'', ke_to = ''wg1 PSK (256 b)'', ke_bits = FLOW_KEY_BITS, ke_illustrative = False\<rparr>]"

fun index_of :: "string \<Rightarrow> string list \<Rightarrow> nat option" where
  "index_of s [] = None"
| "index_of s (x # xs) = (if x = s then Some 0 else map_option Suc (index_of s xs))"

fun map_some :: "('a \<Rightarrow> 'b option) \<Rightarrow> 'a list \<Rightarrow> 'b list option" where
  "map_some f [] = Some []"
| "map_some f (x # xs) = (case f x of None \<Rightarrow> None | Some y \<Rightarrow> map_option (\<lambda>ys. y # ys) (map_some f xs))"

text \<open>The sources, the targets and the widths; \<open>None\<close> for an unknown node.\<close>

definition toSankeyLinks :: "key_flow_edge list \<Rightarrow> (nat list \<times> nat list \<times> nat list) option" where
  "toSankeyLinks edges =
     (case (map_some (\<lambda>e. index_of (ke_from e) KEY_FLOW_NODES) edges, map_some (\<lambda>e. index_of (ke_to e) KEY_FLOW_NODES) edges) of
        (Some s, Some t) \<Rightarrow> Some (s, t, map ke_bits edges)
      | _ \<Rightarrow> None)"

definition KEY_FLOW_LABELS :: "(string \<times> string) list" where
  "KEY_FLOW_LABELS = [(''BB84 raw bits'', ''BB84 raw bits''),
     (''Sifted (basis-match)'', ''Sifted (basis-match)''),
     (''Reconciled (QBER ok)'', ''Reconciled (QBER ok)''),
     (''QKD key (256 b)'', ''QKD key (256 b)''),
     (''PQC-HPKE MLKEM1024-P384'', ''PQC-HPKE''),
     (''PQC key (256 b)'', ''PQC key (256 b)''),
     (''HKDF-SHA3-256'', ''HKDF''),
     (''wg0 PSK (256 b)'', ''wg0 PSK''),
     (''Rosenpass McEliece+Kyber512'', ''Rosenpass McEliece+Kyber512''),
     (''wg1 PSK (256 b)'', ''wg1 PSK'')]"

definition KEY_FLOW_COLORS :: "(string \<times> string) list" where
  "KEY_FLOW_COLORS = [(''BB84 raw bits'', ''#3ddc84''),
     (''Sifted (basis-match)'', ''#3ddc84''),
     (''Reconciled (QBER ok)'', ''#3ddc84''),
     (''QKD key (256 b)'', ''#3ddc84''),
     (''PQC-HPKE MLKEM1024-P384'', ''#7c5cff''),
     (''PQC key (256 b)'', ''#7c5cff''),
     (''HKDF-SHA3-256'', ''#ff9442''),
     (''wg0 PSK (256 b)'', ''#5b8def''),
     (''Rosenpass McEliece+Kyber512'', ''#e05cc8''),
     (''wg1 PSK (256 b)'', ''#5b8def'')]"

section \<open>Focus in the menu\<close>

definition isDismissKey :: "string \<Rightarrow> bool" where
  "isDismissKey key \<longleftrightarrow> key = ''Escape''"

text \<open>A container is what it contains, \<open>None\<close> where it is not mounted.\<close>

definition isOutside :: "('n \<Rightarrow> bool) option \<Rightarrow> 'n option \<Rightarrow> bool" where
  "isOutside container tgt = (case (container, tgt) of (Some c, Some t) \<Rightarrow> \<not> c t | _ \<Rightarrow> False)"

definition focusFallsFromPanel :: "bool \<Rightarrow> ('n \<Rightarrow> bool) option \<Rightarrow> 'n option \<Rightarrow> bool" where
  "focusFallsFromPanel menuOpen panel active =
     (if menuOpen then False else (case (panel, active) of (Some c, Some t) \<Rightarrow> c t | _ \<Rightarrow> False))"

definition focusLeftShell :: "('n \<Rightarrow> bool) option \<Rightarrow> bool \<Rightarrow> 'n option \<Rightarrow> bool" where
  "focusLeftShell container isConnected relatedTarget =
     (case relatedTarget of None \<Rightarrow> isConnected | Some t \<Rightarrow> isOutside container (Some t))"

definition focusWentWithLayout :: "bool option \<Rightarrow> bool \<Rightarrow> bool" where
  "focusWentWithLayout held focusIsLost = (case held of None \<Rightarrow> False | Some conn \<Rightarrow> \<not> conn \<and> focusIsLost)"

datatype focus_target = Menu_button | Link_index int

fun index_of_option :: "string \<Rightarrow> string option list \<Rightarrow> nat option" where
  "index_of_option s [] = None"
| "index_of_option s (x # xs) = (if x = Some s then Some 0 else map_option Suc (index_of_option s xs))"

definition focusAfterCrossing :: "bool \<Rightarrow> string option \<Rightarrow> string option list \<Rightarrow> focus_target" where
  "focusAfterCrossing nowNarrow heldHref sidebarHrefs =
     (if nowNarrow then Menu_button
      else (case (case heldHref of None \<Rightarrow> None | Some h \<Rightarrow> index_of_option h sidebarHrefs) of
              Some i \<Rightarrow> Link_index (int i)
            | None \<Rightarrow> Link_index (if length sidebarHrefs > 0 then 0 else -1)))"

section \<open>What the colours mean\<close>

text \<open>
  Green is never shown for what is not known. The cross-check is green only for the verdict that the two engines
  agree, and amber only for a disagreement or a one-sided zero, so that a verdict the page was not taught, a missing
  one and an agreement on no key are neither; and the WireGuard badge is green exactly when the interface is
  established and some peer's handshake is fresh, whatever the other fields are.
\<close>

theorem green_is_known:
  "(vd_ok (describeVerdict v) = Some True \<longleftrightarrow> v = Text ''agree'')
    \<and> (vd_ok (describeVerdict v) = Some False \<longleftrightarrow> v = Text ''disagree'' \<or> v = Text ''one_side_zero'')
    \<and> (bv_color (wgStatusBadge s) = BADGE_OK \<longleftrightarrow> wi_status s = ''established'' \<and> (\<exists>n > 0. wi_peers_fresh s = Some n))
    \<and> (bv_text (wgStatusBadge s) = ''established'' \<longleftrightarrow> bv_color (wgStatusBadge s) = BADGE_OK)"
proof -
  have v: "vd_ok (describeVerdict v) = (case v of Text s \<Rightarrow> (if s = ''agree'' then Some True
      else if s = ''disagree'' \<or> s = ''one_side_zero'' then Some False else None) | _ \<Rightarrow> None)"
    by (cases v) (auto simp: describeVerdict_def VERDICT_DISPLAY_def)
  have c: "statusColor t = BADGE_OK \<longleftrightarrow> t = ''established''" for t
    by (auto simp: statusColor_def BADGE_OK_def BADGE_WARN_def BADGE_FAULT_def BADGE_NEUTRAL_def)
  have n: "BADGE_WARN \<noteq> BADGE_OK" "BADGE_NEUTRAL \<noteq> BADGE_OK" by (simp_all add: BADGE_OK_def BADGE_WARN_def BADGE_NEUTRAL_def)
  have w: "bv_color (wgStatusBadge s) = BADGE_OK \<longleftrightarrow> wi_status s = ''established'' \<and> (\<exists>n > 0. wi_peers_fresh s = Some n)"
    by (auto simp: wgStatusBadge_def c n split: option.splits)
  have t: "bv_text (wgStatusBadge s) = ''established'' \<longleftrightarrow> wi_status s = ''established'' \<and> (\<exists>n > 0. wi_peers_fresh s = Some n)"
    by (auto simp: wgStatusBadge_def split: option.splits)
  show ?thesis unfolding v w t by (auto split: unknown.splits)
qed

lemma length_appendRound: "length (appendRound h r) \<le> ROUND_HISTORY_LIMIT"
  by (simp add: appendRound_def)

lemma focusAfterCrossing_valid:
  "focusAfterCrossing False h hrefs = Link_index i \<Longrightarrow> hrefs \<noteq> [] \<Longrightarrow> 0 \<le> i \<and> i < int (length hrefs)"
proof -
  have "index_of_option x xs = Some k \<Longrightarrow> k < length xs" for x xs k by (induction xs arbitrary: k) (auto split: if_splits)
  then show "focusAfterCrossing False h hrefs = Link_index i \<Longrightarrow> hrefs \<noteq> [] \<Longrightarrow> 0 \<le> i \<and> i < int (length hrefs)"
    by (auto simp: focusAfterCrossing_def split: option.splits if_splits)
qed

section \<open>The key flow, read back\<close>

lemma index_of_Some: "index_of s xs = Some i \<Longrightarrow> i < length xs \<and> xs ! i = s"
  by (induction xs arbitrary: i) (auto split: if_splits)

lemma map_some_Some: "map_some f xs = Some ys \<longleftrightarrow> list_all2 (\<lambda>x y. f x = Some y) xs ys"
  by (induction xs arbitrary: ys) (auto simp: list_all2_Cons1 split: option.splits)

lemma toSankeyLinks_edges:
  assumes "toSankeyLinks edges = Some (s, t, v)"
  shows "map (\<lambda>(a, b, w). (KEY_FLOW_NODES ! a, KEY_FLOW_NODES ! b, w)) (zip s (zip t v)) = map (\<lambda>e. (ke_from e, ke_to e, ke_bits e)) edges"
proof -
  have l: "list_all2 (\<lambda>e i. index_of (ke_from e) KEY_FLOW_NODES = Some i) edges s" "list_all2 (\<lambda>e i. index_of (ke_to e) KEY_FLOW_NODES = Some i) edges t"
    "v = map ke_bits edges"
    using assms by (auto simp: toSankeyLinks_def map_some_Some split: option.splits)
  show ?thesis
    using l index_of_Some by (intro nth_equalityI) (auto simp: list_all2_conv_all_nth)
qed

definition flow_step :: "string \<Rightarrow> string \<Rightarrow> bool" where
  "flow_step a b \<longleftrightarrow> (\<exists>e \<in> set KEY_FLOW_EDGES. ke_from e = a \<and> ke_to e = b)"

text \<open>
  The two tunnels have separate keys. The figure's arrays give its edges back, source, target and width; every
  node is on an edge; and from Rosenpass the flow leads to the key of the data tunnel and to nothing else: never into the
  derivation of the hop tunnel's key, which comes from the quantum and the post-quantum key, 256 bits each.
\<close>

theorem key_flow_lanes:
  "(\<exists>s t v. toSankeyLinks KEY_FLOW_EDGES = Some (s, t, v)
      \<and> map (\<lambda>(a, b, w). (KEY_FLOW_NODES ! a, KEY_FLOW_NODES ! b, w)) (zip s (zip t v)) = map (\<lambda>e. (ke_from e, ke_to e, ke_bits e)) KEY_FLOW_EDGES
      \<and> set s \<union> set t = {0..<length KEY_FLOW_NODES})
    \<and> {n. flow_step\<^sup>+\<^sup>+ ''Rosenpass McEliece+Kyber512'' n} = {''wg1 PSK (256 b)''}
    \<and> {n. flow_step n ''HKDF-SHA3-256''} = {''QKD key (256 b)'', ''PQC key (256 b)''}
    \<and> {n. flow_step n ''wg0 PSK (256 b)''} = {''HKDF-SHA3-256''}"
proof -
  have l: "toSankeyLinks KEY_FLOW_EDGES = Some ([0, 1, 2, 4, 3, 5, 6, 8], [1, 2, 3, 5, 6, 6, 7, 9], [2048, 1024, 256, 256, 256, 256, 256, 256])"
    by code_simp
  have c: "set [0, 1, 2, 4, 3, 5, 6, 8] \<union> set [1, 2, 3, 5, 6, 6, 7, 9] = {0..<length KEY_FLOW_NODES}"
    by (simp add: KEY_FLOW_NODES_def atLeastLessThan_nat_numeral) (auto simp: atLeastLessThan_nat_numeral)
  have r: "flow_step ''Rosenpass McEliece+Kyber512'' n \<longleftrightarrow> n = ''wg1 PSK (256 b)''" "\<not> flow_step ''wg1 PSK (256 b)'' n" for n
    by (auto simp: flow_step_def KEY_FLOW_EDGES_def)
  have s: "flow_step\<^sup>*\<^sup>* ''wg1 PSK (256 b)'' n \<Longrightarrow> n = ''wg1 PSK (256 b)''" for n
    by (erule converse_rtranclpE) (simp_all add: r)
  have "flow_step\<^sup>+\<^sup>+ ''Rosenpass McEliece+Kyber512'' n \<longleftrightarrow> n = ''wg1 PSK (256 b)''" for n
  proof
    assume "flow_step\<^sup>+\<^sup>+ ''Rosenpass McEliece+Kyber512'' n"
    then obtain z where "flow_step ''Rosenpass McEliece+Kyber512'' z" "flow_step\<^sup>*\<^sup>* z n" by (blast dest: tranclpD)
    then show "n = ''wg1 PSK (256 b)''" using s r(1) by simp
  qed (auto simp: r)
  moreover have "{n. flow_step n ''HKDF-SHA3-256''} = {''QKD key (256 b)'', ''PQC key (256 b)''}" "{n. flow_step n ''wg0 PSK (256 b)''} = {''HKDF-SHA3-256''}"
    by (auto simp: flow_step_def KEY_FLOW_EDGES_def)
  ultimately show ?thesis using l c toSankeyLinks_edges [OF l] by blast
qed

section \<open>A legible rate\<close>

lemma digit_chars: "list_all (\<lambda>k. is_digit (''0123456789'' ! k) \<and> of_char (''0123456789'' ! k) = 48 + k) [0..<10]"
  by code_simp

lemma digit_char: "k < 10 \<Longrightarrow> is_digit (''0123456789'' ! k)" "k < 10 \<Longrightarrow> of_char (''0123456789'' ! k) = 48 + k"
  using digit_chars by (simp_all only: list_all_iff set_upt atLeastLessThan_iff) simp_all

lemma digits_value_snoc: "digits_value (s @ [c]) = 10 * digits_value s + (of_char c - 48)"
  by (simp add: digits_value_def)

lemma show_nat_digits: "list_all is_digit (show_nat n) \<and> digits_value (show_nat n) = n"
proof (induction n rule: show_nat.induct)
  case (1 n)
  show ?case
  proof (cases "n < 10")
    case True
    then have "show_nat n = [''0123456789'' ! n]" by (subst show_nat.simps) (simp only: if_True)
    then show ?thesis using digit_char [OF True] by (simp add: digits_value_def)
  next
    case False
    then have s: "show_nat n = show_nat (n div 10) @ [''0123456789'' ! (n mod 10)]" by (subst show_nat.simps) (simp only: if_False)
    have m: "n mod 10 < 10" by simp
    have "digits_value (show_nat n) = 10 * (n div 10) + n mod 10"
      unfolding s digits_value_snoc using 1 [OF False] digit_char [OF m] by simp
    then show ?thesis using 1 [OF False] digit_char [OF m] by (simp add: s)
  qed
qed

lemma length_show_nat: "n < 10 ^ d \<Longrightarrow> 0 < d \<Longrightarrow> length (show_nat n) \<le> d"
proof (induction n arbitrary: d rule: show_nat.induct)
  case (1 n)
  show ?case
  proof (cases "n < 10")
    case True
    then show ?thesis using 1(3) by (subst show_nat.simps) simp
  next
    case False
    then obtain e where d: "d = Suc e" "0 < e" using 1(2,3) by (cases d; cases "d - 1") auto
    then have "n div 10 < 10 ^ e" using 1(2) by (simp add: less_mult_imp_div_less)
    then show ?thesis using 1(1) [OF False _ d(2)] False d(1) by (subst show_nat.simps) simp
  qed
qed

lemma zeros_value: "digits_value (replicate k (CHR ''0'') @ s) = digits_value s"
proof -
  have "foldl (\<lambda>n c. 10 * n + (of_char c - 48)) 0 (replicate k (CHR ''0'')) = (0 :: nat)" by (induction k) simp_all
  then show ?thesis by (simp add: digits_value_def)
qed

lemma all_digits: "list_all is_digit s \<Longrightarrow> takeWhile is_digit s = s" "list_all is_digit s \<Longrightarrow> dropWhile is_digit s = []"
  by (simp_all add: list_all_iff)

text \<open>Read as a number, a text of \<open>toFixed\<close> is the rounded number.\<close>

lemma fixed_digits_number: "js_Number (fixed_digits d n) = Some (of_nat n / 10 ^ d)"
proof -
  let ?i = "show_nat (n div 10 ^ d)"
  have i: "list_all is_digit ?i" "digits_value ?i = n div 10 ^ d" "?i \<noteq> []" using show_nat_digits [of "n div 10 ^ d"] by simp_all
  then have "hd ?i \<noteq> CHR ''-''" by (cases ?i) (auto simp: is_digit_def)
  then have minus: "take 1 (?i @ r) \<noteq> ''-''" for r using i(3) by (cases ?i) auto
  have w: "takeWhile is_digit (?i @ CHR ''.'' # r) = ?i" "dropWhile is_digit (?i @ CHR ''.'' # r) = CHR ''.'' # r" for r
    using i(1) by (simp_all add: list_all_iff takeWhile_append dropWhile_append is_digit_def)
  show ?thesis
  proof (cases "d = 0")
    case True
    have "plain_decimal (fixed_digits d n) = Some (False, ?i, [])"
      using True minus [of "[]"] i(1,3) by (simp add: plain_decimal_def fixed_digits_def Let_def all_digits)
    then show ?thesis using True i(2) by (simp add: js_Number_def digits_value_def)
  next
    case False
    define r where "r = show_nat (n mod 10 ^ d)"
    define f where "f = replicate (d - length r) (CHR ''0'') @ r"
    have "length r \<le> d" using length_show_nat [of "n mod 10 ^ d" d] False by (simp add: r_def)
    then have l: "length f = d" by (simp add: f_def)
    have "list_all is_digit r" "is_digit (CHR ''0'')" using show_nat_digits [of "n mod 10 ^ d"] by (simp_all add: r_def is_digit_def)
    then have dig: "list_all is_digit f" by (auto simp: f_def list_all_iff)
    have val: "digits_value f = n mod 10 ^ d" using show_nat_digits [of "n mod 10 ^ d"] by (simp add: f_def r_def zeros_value)
    have fx: "fixed_digits d n = ?i @ CHR ''.'' # f" using False by (simp add: fixed_digits_def Let_def f_def r_def)
    have "f \<noteq> []" using l False by auto
    then have "plain_decimal (fixed_digits d n) = Some (False, ?i, f)"
      unfolding fx using minus [of "CHR ''.'' # f"] w i(3) dig by (simp add: plain_decimal_def Let_def)
    moreover have "of_nat (n div 10 ^ d) + of_nat (n mod 10 ^ d) / 10 ^ d = (of_nat n / 10 ^ d :: rat)"
    proof -
      have "(of_nat n :: rat) = of_nat (10 ^ d * (n div 10 ^ d) + n mod 10 ^ d)" by (simp only: mult_div_mod_eq)
      then have "(of_nat n :: rat) = 10 ^ d * of_nat (n div 10 ^ d) + of_nat (n mod 10 ^ d)" by (simp only: of_nat_add of_nat_mult of_nat_power of_nat_numeral)
      then show ?thesis by (simp add: field_simps)
    qed
    ultimately show ?thesis using i(2) val l by (simp add: js_Number_def)
  qed
qed

lemma toFixed_number: "0 \<le> x \<Longrightarrow> js_Number (toFixed d x) = Some (of_int \<lfloor>x * 10 ^ d + 1 / 2\<rfloor> / 10 ^ d)"
proof -
  assume x: "0 \<le> x"
  then have "0 \<le> x * 10 ^ d + 1 / 2" by simp
  then have "0 \<le> \<lfloor>x * 10 ^ d + 1 / 2\<rfloor>" by simp
  then have "(of_nat (nat \<lfloor>x * 10 ^ d + 1 / 2\<rfloor>) :: rat) = of_int \<lfloor>x * 10 ^ d + 1 / 2\<rfloor>" by simp
  then show ?thesis using x by (simp add: toFixed_def fixed_digits_number)
qed

definition unit_scale :: "string \<Rightarrow> rat" where
  "unit_scale u = (if u = ''Gbps'' then 10 ^ 9 else if u = ''Mbps'' then 10 ^ 6 else if u = ''kbps'' then 10 ^ 3 else 1)"

lemma scaled_digits:
  fixes b s :: rat
  assumes "0 < s" "0 \<le> b"
  shows "\<bar>of_int \<lfloor>b / s * 10 ^ d + 1 / 2\<rfloor> / 10 ^ d * s - b\<bar> \<le> s / (2 * 10 ^ d)"
    and "of_int \<lfloor>b / s * 10 ^ d + 1 / 2\<rfloor> / 10 ^ d < (1000 :: rat) \<longleftrightarrow> b / s * 10 ^ d + 1 / 2 < 1000 * 10 ^ d"
    and "1 \<le> of_int \<lfloor>b / s * 10 ^ d + 1 / 2\<rfloor> / (10 ^ d :: rat) \<longleftrightarrow> 10 ^ d \<le> b / s * 10 ^ d + 1 / 2"
proof -
  let ?y = "b / s * 10 ^ d" let ?n = "\<lfloor>?y + 1 / 2\<rfloor>"
  have "\<bar>of_int ?n - ?y\<bar> \<le> 1 / 2" by linarith
  then have "\<bar>of_int ?n - ?y\<bar> * (s / 10 ^ d) \<le> 1 / 2 * (s / 10 ^ d)" using assms(1) by (intro mult_right_mono) simp_all
  moreover have "\<bar>of_int ?n - ?y\<bar> * (s / 10 ^ d) = \<bar>of_int ?n / 10 ^ d * s - b\<bar>"
  proof -
    have "\<bar>of_int ?n - ?y\<bar> * (s / 10 ^ d) = \<bar>(of_int ?n - ?y) * (s / 10 ^ d)\<bar>" using assms(1) by (simp add: abs_mult)
    also have "(of_int ?n - ?y) * (s / 10 ^ d) = of_int ?n / 10 ^ d * s - b" using assms(1) by (simp add: field_simps)
    finally show ?thesis .
  qed
  ultimately show "\<bar>of_int ?n / 10 ^ d * s - b\<bar> \<le> s / (2 * 10 ^ d)" by simp
  have "of_int ?n / 10 ^ d < (1000 :: rat) \<longleftrightarrow> (of_int ?n :: rat) < of_int (1000 * 10 ^ d)" by (simp add: field_simps)
  also have "\<dots> \<longleftrightarrow> ?y + 1 / 2 < of_int (1000 * 10 ^ d)" by (simp only: of_int_less_iff floor_less_iff)
  finally show "of_int ?n / 10 ^ d < (1000 :: rat) \<longleftrightarrow> ?y + 1 / 2 < 1000 * 10 ^ d" by simp
  have "1 \<le> of_int ?n / (10 ^ d :: rat) \<longleftrightarrow> (of_int (10 ^ d) :: rat) \<le> of_int ?n" by (simp add: field_simps)
  also have "\<dots> \<longleftrightarrow> of_int (10 ^ d) \<le> ?y + 1 / 2" by (simp only: of_int_le_iff le_floor_iff)
  finally show "1 \<le> of_int ?n / (10 ^ d :: rat) \<longleftrightarrow> 10 ^ d \<le> ?y + 1 / 2" by simp
qed

text \<open>
  C39. A rate is legible. A rate below a thousand of the largest unit is printed with a text that, read as a number in the
  unit beside it, is within half of its last digit of the rate; it is at least 1 as soon as the rate is not below
  999.5 bit/s; and it is below 1000 except in one gap: from 999 995 000 to 999 999 500 bit/s the text is 1000.00 Mbps,
  the four digits in the wrong unit that the thresholds are there to prevent.
\<close>

theorem rate_is_legible:
  assumes "0 \<le> b" "b < 999995000000"
  shows "\<exists>x. let (s, u) = formatRate (Some b) in js_Number s = Some x
    \<and> \<bar>x * unit_scale u - b\<bar> \<le> unit_scale u / (if u = ''bps'' then 2 else 200)
    \<and> (if 9995 / 10 \<le> b then 1 \<le> x else u = ''bps'')
    \<and> (x < 1000 \<longleftrightarrow> \<not> (999995000 \<le> b \<and> b < 999999500))"
proof -
  consider (g) "999999500 \<le> b" | (m) "999995 \<le> b" "b < 999999500" | (k) "9995 / 10 \<le> b" "b < 999995" | (b) "b < 9995 / 10" by linarith
  then show ?thesis
  proof cases
    case g
    have "formatRate (Some b) = (toFixed 2 (b / 10 ^ 9), ''Gbps'')" using g by (simp add: formatRate_def)
    then show ?thesis using g assms toFixed_number [of "b / 10 ^ 9" 2] scaled_digits [of "10 ^ 9" b 2]
      by (intro exI [of _ "of_int \<lfloor>b / 10 ^ 9 * 10 ^ 2 + 1 / 2\<rfloor> / 10 ^ 2"]) (simp add: unit_scale_def)
  next
    case m
    have "formatRate (Some b) = (toFixed 2 (b / 10 ^ 6), ''Mbps'')" using m by (simp add: formatRate_def)
    then show ?thesis using m assms toFixed_number [of "b / 10 ^ 6" 2] scaled_digits [of "10 ^ 6" b 2]
      by (intro exI [of _ "of_int \<lfloor>b / 10 ^ 6 * 10 ^ 2 + 1 / 2\<rfloor> / 10 ^ 2"]) (auto simp: unit_scale_def)
  next
    case k
    have "formatRate (Some b) = (toFixed 2 (b / 10 ^ 3), ''kbps'')" using k by (simp add: formatRate_def)
    then show ?thesis using k assms toFixed_number [of "b / 10 ^ 3" 2] scaled_digits [of "10 ^ 3" b 2]
      by (intro exI [of _ "of_int \<lfloor>b / 10 ^ 3 * 10 ^ 2 + 1 / 2\<rfloor> / 10 ^ 2"]) (simp add: unit_scale_def)
  next
    case b
    have "formatRate (Some b) = (toFixed 0 b, ''bps'')" using b by (simp add: formatRate_def)
    then show ?thesis using b assms toFixed_number [of b 0] scaled_digits [of 1 b 0]
      by (intro exI [of _ "of_int \<lfloor>b + 1 / 2\<rfloor>"]) (simp add: unit_scale_def)
  qed
qed

theorem rate_is_legible_witness:
  "\<exists>x. js_Number (fst (formatRate (Some 17900))) = Some x \<and> x < 1000"
  using rate_is_legible [of 17900] by (auto simp: Let_def case_prod_beta)

lemma rate_of_four_digits: "formatRate (Some 999999000) = (''1000.00'', ''Mbps'')"
proof -
  have "\<lfloor>999999000 / 10 ^ 6 * 10 ^ 2 + 1 / 2 :: rat\<rfloor> = 100000" by (rule floor_unique) simp_all
  then have "toFixed 2 (999999000 / 10 ^ 6) = fixed_digits 2 100000" by (simp only: toFixed_def) simp
  moreover have "fixed_digits 2 100000 = ''1000.00''"
    by (simp add: fixed_digits_def Let_def show_nat.simps [of 1000] show_nat.simps [of 100] show_nat.simps [of 10] show_nat.simps [of "Suc 0"] show_nat.simps [of 0])
  ultimately show ?thesis by (simp add: formatRate_def)
qed

end
