(* ===== verification/Model_Rates.thy ===== *)
theory Model_Rates
  imports Keyrate Networks
begin

text \<open>
  This project's model beside the published links, \<^verbatim>\<open>lib/sim/protocolLab/rates.ts\<close>: the rate the key-rate model gives
  for a link of a published network, and what QBER and loss it tolerates there, found by bisection. It joins
  \<open>Keyrate\<close>, over the reals, and \<open>Networks\<close>, whose numbers are the rationals the sources print. The outer \<open>None\<close> is
  a quantity that is not a number, which throws.
\<close>

definition MAX_MISALIGNMENT :: real where "MAX_MISALIGNMENT = 0.5"

definition MODEL_LABEL :: string where
  "MODEL_LABEL = ''model (this project): this repository'' @ [CHR 0x27] @ ''s decoy-BB84 finite-key rate, with config/qkd_params.yaml source ''
     @ ''and detector parameters, applied to the reported loss''"

datatype model_rate = Model_bps real string | No_rate string

definition protocol_name :: "protocol \<Rightarrow> string" where
  "protocol_name p = (case p of P_decoy_bb84 \<Rightarrow> ''decoy-bb84'' | P_sarg04 \<Rightarrow> ''sarg04'' | P_bb84_or_sarg04 \<Rightarrow> ''bb84-or-sarg04'' | P_cow \<Rightarrow> ''cow''
     | P_dps \<Rightarrow> ''dps'' | P_bbm92 \<Rightarrow> ''bbm92'' | P_entanglement \<Rightarrow> ''entanglement'' | P_cv_qkd \<Rightarrow> ''cv-qkd''
     | P_multiple_systems \<Rightarrow> ''multiple-systems'' | P_none \<Rightarrow> ''none'')"

text \<open>A loss as printed, with its qualifier before it.\<close>

definition loss_shown :: "quantity \<Rightarrow> string" where
  "loss_shown q =
     (let qual = (case qualifier q of Some s \<Rightarrow> s | None \<Rightarrow> '''');
          sep = (if qual \<noteq> '''' \<and> qual \<notin> {''~'', ''>'', ''<''} then '' '' else '''')
      in qual @ sep @ printed q @ '' dB'')"

definition modelRateFor :: "preset_link \<Rightarrow> model_rate option" where
  "modelRateFor l =
     (if l_kind l \<noteq> Qkd then Some (No_rate ''keystore hop (not live QKD): no key-rate model applies'')
      else if l_protocol l \<notin> set MODEL_ELIGIBLE then Some (No_rate (protocol_name (l_protocol l) @ '': the model describes decoy-state BB84 only''))
      else if l_medium l \<noteq> Some Fibre then Some (No_rate ''not a fibre link'')
      else (case l_loss l of
              None \<Rightarrow> Some (No_rate ''no reported loss'')
            | Some q \<Rightarrow> map_option (\<lambda>x. Model_bps (skrBpsForLink BUNDLED_PARAMS (Span_loss_db (of_rat x))) (loss_shown q)) (quantityValue q)))"

section \<open>Searches\<close>

definition BISECTION_STEPS :: nat where "BISECTION_STEPS = 60"
definition LOSS_SEARCH_MAX_DB :: real where "LOSS_SEARCH_MAX_DB = 100"
definition LARGE_BLOCK_N :: real where "LARGE_BLOCK_N = 10 ^ 18"

fun edge_loop :: "nat \<Rightarrow> (real \<Rightarrow> bool) \<Rightarrow> real \<Rightarrow> real \<Rightarrow> real" where
  "edge_loop 0 ok lo hi = lo"
| "edge_loop (Suc n) ok lo hi = (let mid = (lo + hi) / 2 in if ok mid then edge_loop n ok mid hi else edge_loop n ok lo mid)"

definition edge :: "(real \<Rightarrow> bool) \<Rightarrow> real \<Rightarrow> real \<Rightarrow> real" where
  "edge ok lo hi = edge_loop BISECTION_STEPS ok lo hi"

datatype mean_vs_tolerance = Above | Level | Below

definition against :: "real \<Rightarrow> real \<Rightarrow> real option \<Rightarrow> mean_vs_tolerance" where
  "against measured halfStep tol =
     (case tol of
        None \<Rightarrow> Above
      | Some t \<Rightarrow> if measured - halfStep > t then Above else if measured + halfStep < t then Below else Level)"

record field_comparison =
  fc_lossShown :: string
  fc_lossIsLowerBound :: bool
  fc_atShippedMisalignment :: real
  fc_qberTolerance :: "real option"
  fc_toleranceMisalignment :: "real option"
  fc_qberToleranceLargeBlock :: "real option"
  fc_largeBlockN :: real
  fc_lossCutoffDb :: real
  fc_blockSizeN :: real
  fc_pastLossCutoff :: bool
  fc_meanVsTolerance :: mean_vs_tolerance
  fc_meanVsLargeBlockTolerance :: mean_vs_tolerance

text \<open>Whether the model distils key, with this block size and misalignment and the shipped rest.\<close>

definition key_at :: "real \<Rightarrow> real \<Rightarrow> real \<Rightarrow> bool" where
  "key_at lossDb n eD \<longleftrightarrow> skrBpsForLink (BUNDLED_PARAMS\<lparr>blockSizeN := n, misalignmentErrorEd := eD\<rparr>) (Span_loss_db lossDb) > 0"

definition toleranceAt :: "real \<Rightarrow> real \<Rightarrow> real option" where
  "toleranceAt lossDb n = (if key_at lossDb n 0 then Some (edge (key_at lossDb n) 0 MAX_MISALIGNMENT) else None)"

definition shippedKeyAt :: "real \<Rightarrow> bool" where
  "shippedKeyAt loss \<longleftrightarrow> skrBpsForLink BUNDLED_PARAMS (Span_loss_db loss) > 0"

definition model_qber :: "real \<Rightarrow> real \<Rightarrow> real" where
  "model_qber lossDb eD =
     (let p = BUNDLED_PARAMS; etaTotal = detectorEfficiency p * transmittanceFromLossDb lossDb; Y0 = darkCountRateHz p / max (pulseRateHz p) 1
      in qberEmu Y0 etaTotal eD (intensitySignalMu p))"

definition compare_at :: "quantity \<Rightarrow> real \<Rightarrow> real \<Rightarrow> real \<Rightarrow> field_comparison" where
  "compare_at loss lossDb measured halfStep =
     (let p = BUNDLED_PARAMS;
          toleranceMisalignment = toleranceAt lossDb (blockSizeN p);
          largeBlockMisalignment = toleranceAt lossDb LARGE_BLOCK_N;
          cutoff = edge shippedKeyAt 0 LOSS_SEARCH_MAX_DB;
          tol = map_option (model_qber lossDb) toleranceMisalignment;
          tolLarge = map_option (model_qber lossDb) largeBlockMisalignment
      in \<lparr>fc_lossShown = loss_shown loss, fc_lossIsLowerBound = (qualifier loss = Some ''>''),
          fc_atShippedMisalignment = skrBpsForLink p (Span_loss_db lossDb),
          fc_qberTolerance = tol, fc_toleranceMisalignment = toleranceMisalignment, fc_qberToleranceLargeBlock = tolLarge,
          fc_largeBlockN = LARGE_BLOCK_N, fc_lossCutoffDb = cutoff, fc_blockSizeN = blockSizeN p,
          fc_pastLossCutoff = (lossDb \<ge> cutoff), fc_meanVsTolerance = against measured halfStep tol,
          fc_meanVsLargeBlockTolerance = against measured halfStep tolLarge\<rparr>)"

definition fieldComparison :: "preset_link \<Rightarrow> field_comparison option option" where
  "fieldComparison l =
     (case (l_loss l, l_qber l) of
        (Some loss, Some qber) \<Rightarrow>
          (case (quantityValue loss, quantityValue qber, quantityHalfStep qber) of
             (Some x, Some m, Some h) \<Rightarrow> Some (Some (compare_at loss (of_rat x) (of_rat m) (of_rat h)))
           | _ \<Rightarrow> None)
      | _ \<Rightarrow> Some None)"

section \<open>What the searches find\<close>

lemma edge_loop_sound:
  "lo \<le> hi \<Longrightarrow> ok lo \<Longrightarrow> ok (edge_loop n ok lo hi) \<and> lo \<le> edge_loop n ok lo hi \<and> edge_loop n ok lo hi \<le> hi
    \<and> (hi - edge_loop n ok lo hi \<le> (hi - lo) / 2 ^ n \<or> (\<exists>x. \<not> ok x \<and> edge_loop n ok lo hi \<le> x \<and> x \<le> edge_loop n ok lo hi + (hi - lo) / 2 ^ n))"
proof (induction n arbitrary: lo hi)
  case (Suc n)
  let ?m = "(lo + hi) / 2"
  have m: "lo \<le> ?m" "?m \<le> hi" using Suc.prems(1) by simp_all
  have h: "(hi - ?m) / 2 ^ n = (hi - lo) / 2 ^ Suc n" "(?m - lo) / 2 ^ n = (hi - lo) / 2 ^ Suc n" by (simp_all add: field_simps)
  show ?case
  proof (cases "ok ?m")
    case True
    then show ?thesis using Suc.IH [OF m(2) True] m unfolding h by (auto simp: Let_def)
  next
    case False
    let ?e = "edge_loop n ok lo ?m"
    have ih: "ok ?e" "lo \<le> ?e" "?e \<le> ?m"
      "?m - ?e \<le> (hi - lo) / 2 ^ Suc n \<or> (\<exists>x. \<not> ok x \<and> ?e \<le> x \<and> x \<le> ?e + (hi - lo) / 2 ^ Suc n)"
      using Suc.IH [OF m(1) Suc.prems(2)] unfolding h by blast+
    have "\<exists>x. \<not> ok x \<and> ?e \<le> x \<and> x \<le> ?e + (hi - lo) / 2 ^ Suc n"
      using ih(4)
    proof
      assume "?m - ?e \<le> (hi - lo) / 2 ^ Suc n"
      then show ?thesis using False ih(3) by (intro exI [of _ ?m]) linarith
    qed
    moreover have "edge_loop (Suc n) ok lo hi = ?e" using False by (simp add: Let_def)
    moreover have "?e \<le> hi" using ih(3) m(2) by linarith
    ultimately show ?thesis using ih(1,2) by simp
  qed
qed simp

lemma toleranceAt_Some:
  assumes "toleranceAt lossDb n = Some e"
  shows "0 \<le> e \<and> e \<le> 1 / 2 \<and> key_at lossDb n e \<and> (1 / 2 - e \<le> 1 / 2 ^ 61 \<or> (\<exists>x. \<not> key_at lossDb n x \<and> e \<le> x \<and> x \<le> e + 1 / 2 ^ 61))"
proof -
  have k: "key_at lossDb n 0" "e = edge_loop 60 (key_at lossDb n) 0 (1 / 2)"
    using assms by (simp_all add: toleranceAt_def edge_def BISECTION_STEPS_def MAX_MISALIGNMENT_def split: if_splits)
  have h: "(1 / 2 - 0) / 2 ^ 60 = (1 / 2 ^ 61 :: real)" by simp
  show ?thesis using edge_loop_sound [of 0 "1 / 2" "key_at lossDb n" 60] k unfolding h by simp
qed

text \<open>
  What the field panel says of a link. When the comparison gives a misalignment tolerance, the model distils key at it,
  and either no key is left within 2^-61 above it or it is at the end of the search; when it gives none, there is no key
  even without misalignment, and the measured mean counts as above. The mean is called above or below the tolerance only
  where every number the source's digits can stand for is.
\<close>

theorem field_comparison_sound:
  assumes "fieldComparison l = Some (Some c)"
  shows "\<exists>loss qber x m h. l_loss l = Some loss \<and> l_qber l = Some qber \<and> quantityValue loss = Some x \<and> quantityValue qber = Some m
    \<and> quantityHalfStep qber = Some h \<and> (let key = key_at (of_rat x) (fc_blockSizeN c) in
      (case fc_toleranceMisalignment c of
         None \<Rightarrow> \<not> key 0 \<and> fc_qberTolerance c = None \<and> fc_meanVsTolerance c = Above
       | Some e \<Rightarrow> 0 \<le> e \<and> e \<le> 1 / 2 \<and> key e \<and> (1 / 2 - e \<le> 1 / 2 ^ 61 \<or> (\<exists>y. \<not> key y \<and> e \<le> y \<and> y \<le> e + 1 / 2 ^ 61))
           \<and> fc_qberTolerance c = Some (model_qber (of_rat x) e)
           \<and> (fc_meanVsTolerance c = Above \<longleftrightarrow> (\<forall>r. \<bar>r - of_rat m\<bar> \<le> of_rat h \<longrightarrow> model_qber (of_rat x) e < r))
           \<and> (fc_meanVsTolerance c = Below \<longleftrightarrow> (\<forall>r. \<bar>r - of_rat m\<bar> \<le> of_rat h \<longrightarrow> r < model_qber (of_rat x) e)
                \<and> \<not> (\<forall>r. \<bar>r - of_rat m\<bar> \<le> of_rat h \<longrightarrow> model_qber (of_rat x) e < r))))"
proof -
  obtain loss qber x m h where q: "l_loss l = Some loss" "l_qber l = Some qber" "quantityValue loss = Some x" "quantityValue qber = Some m"
    "quantityHalfStep qber = Some h" "c = compare_at loss (of_rat x) (of_rat m) (of_rat h)"
    using assms by (auto simp: fieldComparison_def split: option.splits)
  have h: "0 \<le> (of_rat h :: real)"
  proof -
    have "0 \<le> to_base u" for u by (cases u) (simp_all add: MIB_BITS_def)
    then have "0 \<le> h" using q(5) by (auto simp: quantityHalfStep_def)
    then show ?thesis by simp
  qed
  have above: "m' - h' > t \<longleftrightarrow> (\<forall>r. \<bar>r - m'\<bar> \<le> h' \<longrightarrow> t < r)" if "0 \<le> h'" for m' h' t :: real
    using that by (auto simp: abs_le_iff dest!: spec [of _ "m' - h'"])
  have below: "m' + h' < t \<longleftrightarrow> (\<forall>r. \<bar>r - m'\<bar> \<le> h' \<longrightarrow> r < t)" if "0 \<le> h'" for m' h' t :: real
    using that by (auto simp: abs_le_iff dest!: spec [of _ "m' + h'"])
  define e where "e = toleranceAt (of_rat x) (blockSizeN BUNDLED_PARAMS)"
  have f: "fc_blockSizeN c = blockSizeN BUNDLED_PARAMS" "fc_toleranceMisalignment c = e" "fc_qberTolerance c = map_option (model_qber (of_rat x)) e"
    "fc_meanVsTolerance c = against (of_rat m) (of_rat h) (map_option (model_qber (of_rat x)) e)"
    by (simp_all add: q(6) compare_at_def Let_def e_def)
  show ?thesis
  proof (cases e)
    case None
    then have "\<not> key_at (of_rat x) (blockSizeN BUNDLED_PARAMS) 0" by (simp add: e_def toleranceAt_def split: if_splits)
    then show ?thesis using q(1-5) f None by (simp add: Let_def against_def)
  next
    case (Some y)
    have "against (of_rat m) (of_rat h) (Some t) = Above \<longleftrightarrow> (\<forall>r. \<bar>r - of_rat m\<bar> \<le> of_rat h \<longrightarrow> t < r)"
      "against (of_rat m) (of_rat h) (Some t) = Below \<longleftrightarrow> (\<forall>r. \<bar>r - of_rat m\<bar> \<le> of_rat h \<longrightarrow> r < t) \<and> \<not> (\<forall>r. \<bar>r - of_rat m\<bar> \<le> of_rat h \<longrightarrow> t < r)" for t
      unfolding above [OF h, symmetric] below [OF h, symmetric] by (auto simp: against_def)
    then show ?thesis using q(1-5) f Some toleranceAt_Some [of "of_rat x" "blockSizeN BUNDLED_PARAMS" y] e_def by (simp add: Let_def)
  qed
qed

text \<open>A link of 17 dB with a mean QBER of 6.1 %.\<close>

definition demo_field_link :: preset_link where
  "demo_field_link = \<lparr>l_id = ''A-B'', l_a = ''A'', l_b = ''B'', l_kind = Qkd, l_system = None, l_protocol = P_decoy_bb84, l_medium = Some Fibre,
     l_length = None, l_lengthAlt = [], l_loss = Some (qty ''17'' U_dB), l_rate = None, l_qber = Some (qty ''6.1'' U_percent),
     l_aerial = None, l_buried = None, l_campaign = None\<rparr>"

theorem field_comparison_sound_witness:
  "case fieldComparison demo_field_link of
     Some (Some c) \<Rightarrow> (case fc_toleranceMisalignment c of None \<Rightarrow> fc_meanVsTolerance c = Above | Some e \<Rightarrow> 0 \<le> e \<and> e \<le> 1 / 2)
   | _ \<Rightarrow> False"
proof -
  have d: "plain_decimal ''17'' = Some (False, ''17'', '''')" "plain_decimal ''6.1'' = Some (False, ''6'', ''1'')" by code_simp+
  obtain c where c: "fieldComparison demo_field_link = Some (Some c)"
    by (simp add: fieldComparison_def demo_field_link_def quantityValue_def quantityHalfStep_def js_Number_def qty_def d)
  show ?thesis using field_comparison_sound [OF c] c by (auto simp: Let_def split: option.splits)
qed

end
