(* ===== verification/Page_Services.thy ===== *)
theory Page_Services
  imports Prelude
begin

text \<open>
  What the pages share to reach the backend: the deployment's configuration, fetched once (\<^verbatim>\<open>lib/useConfig.ts\<close>), the
  poll of a live page (\<^verbatim>\<open>lib/usePoll.ts\<close>), the answers of the backend (\<^verbatim>\<open>api.ts\<close>), and the width of the layout
  (\<^verbatim>\<open>lib/layout.ts\<close>).

  The order of events is the browser's: a step relation says which step may come next, and the properties hold for
  every order. \<open>None\<close> for a configuration is \<^verbatim>\<open>null\<close>, whose members cannot be read.
\<close>

section \<open>Answers of the backend\<close>

text \<open>
  A response: whether it is a success, its status, its body where that is JSON, and the text of \<^verbatim>\<open>detail\<close> in it. A
  success without a body is \<^verbatim>\<open>null\<close> for \<^verbatim>\<open>okJson\<close> and an empty object for the other two.
\<close>

record 'b response =
  re_ok :: bool
  re_status :: nat
  re_body :: "'b option"
  re_detail :: "string option"

definition okJson :: "'b response \<Rightarrow> string + 'b option" where
  "okJson r =
     (if \<not> re_ok r
      then Inl (''HTTP '' @ show_nat (re_status r) @ (case re_detail r of Some d \<Rightarrow> if d \<noteq> [] then '': '' @ d else '''' | None \<Rightarrow> ''''))
      else Inr (re_body r))"

definition postStack :: "'b response \<Rightarrow> string \<Rightarrow> string \<Rightarrow> string + 'b option" where
  "postStack r action name =
     (if \<not> re_ok r
      then Inl (case re_detail r of Some d \<Rightarrow> d | None \<Rightarrow> action @ '' '' @ name @ '' failed: HTTP '' @ show_nat (re_status r))
      else Inr (re_body r))"

definition deleteExport :: "'b response \<Rightarrow> string \<Rightarrow> string + 'b option" where
  "deleteExport r name =
     (if \<not> re_ok r
      then Inl (case re_detail r of Some d \<Rightarrow> d | None \<Rightarrow> ''delete '' @ name @ '' failed: HTTP '' @ show_nat (re_status r))
      else Inr (re_body r))"

section \<open>The configuration\<close>

text \<open>A flag that the backend may omit is \<open>None\<close> where it does.\<close>

record runtime_config =
  cf_demo_mode :: bool
  cf_container_control :: "bool option"
  cf_live_param_overrides :: "bool option"
  cf_shared_export_delete :: "bool option"
  cf_rate_limit :: "(nat \<times> nat) option"
  cf_arnika_interval :: "string option"

definition RESTRICTIVE :: runtime_config where
  "RESTRICTIVE = \<lparr>cf_demo_mode = True, cf_container_control = Some False, cf_live_param_overrides = Some False,
     cf_shared_export_delete = Some False, cf_rate_limit = None, cf_arnika_interval = None\<rparr>"

text \<open>What \<^verbatim>\<open>getConfig().catch(...)\<close> resolves to: the body of a success, or the restrictive configuration.\<close>

definition config_answer :: "runtime_config response option \<Rightarrow> runtime_config option" where
  "config_answer r = (case r of
     None \<Rightarrow> Some RESTRICTIVE
   | Some r \<Rightarrow> (case okJson r of Inl _ \<Rightarrow> Some RESTRICTIVE | Inr b \<Rightarrow> b))"

datatype promise = Pending | Resolved "runtime_config option"

text \<open>A component that uses the configuration: what it shows, and whether it waits for the promise.\<close>

record config_user =
  cu_cfg :: "runtime_config option"
  cu_waits :: bool

record config_module =
  cm_cached :: "runtime_config option"
  cm_inflight :: "promise option"
  cm_fetches :: nat
  cm_users :: "config_user list"

definition cm_new :: config_module where
  "cm_new = \<lparr>cm_cached = None, cm_inflight = None, cm_fetches = 0, cm_users = []\<rparr>"

text \<open>A component mounts: its first render and its effect.\<close>

definition cm_mount :: "config_module \<Rightarrow> config_module" where
  "cm_mount s =
     (let shown = (case cm_cached s of Some c \<Rightarrow> Some c | None \<Rightarrow> Some RESTRICTIVE)
      in case cm_cached s of
           Some c \<Rightarrow> s\<lparr>cm_users := cm_users s @ [\<lparr>cu_cfg = shown, cu_waits = False\<rparr>]\<rparr>
         | None \<Rightarrow>
             let s = (case cm_inflight s of None \<Rightarrow> s\<lparr>cm_inflight := Some Pending, cm_fetches := Suc (cm_fetches s)\<rparr> | Some _ \<Rightarrow> s)
             in s\<lparr>cm_users := cm_users s @ [\<lparr>cu_cfg = shown, cu_waits = True\<rparr>]\<rparr>)"

text \<open>The continuation of a component that waited.\<close>

definition cm_deliver :: "nat \<Rightarrow> runtime_config option \<Rightarrow> config_module \<Rightarrow> config_module" where
  "cm_deliver i c s = s\<lparr>cm_cached := c, cm_users := (cm_users s)[i := \<lparr>cu_cfg = c, cu_waits = False\<rparr>]\<rparr>"

text \<open>Reading a flag; \<open>None\<close> is the error of reading a member of \<^verbatim>\<open>null\<close>.\<close>

definition useDemoMode :: "config_user \<Rightarrow> bool option" where
  "useDemoMode u = map_option cf_demo_mode (cu_cfg u)"

definition useContainerControl :: "config_user \<Rightarrow> bool option" where
  "useContainerControl u = map_option (\<lambda>c. cf_container_control c = Some True) (cu_cfg u)"

definition useLiveParamOverrides :: "config_user \<Rightarrow> bool option" where
  "useLiveParamOverrides u = map_option (\<lambda>c. cf_live_param_overrides c = Some True) (cu_cfg u)"

definition useSharedExportDelete :: "config_user \<Rightarrow> bool option" where
  "useSharedExportDelete u = map_option (\<lambda>c. cf_shared_export_delete c = Some True) (cu_cfg u)"

inductive cm_step :: "config_module \<Rightarrow> config_module \<Rightarrow> bool" where
  mount: "cm_step s (cm_mount s)"
| settle: "cm_inflight s = Some Pending \<Longrightarrow> cm_step s (s\<lparr>cm_inflight := Some (Resolved (config_answer r))\<rparr>)"
| deliver: "cm_inflight s = Some (Resolved c) \<Longrightarrow> i < length (cm_users s) \<Longrightarrow> cu_waits (cm_users s ! i) \<Longrightarrow> cm_step s (cm_deliver i c s)"

inductive_cases cm_stepE: "cm_step s t"

abbreviation cm_reaches :: "config_module \<Rightarrow> config_module \<Rightarrow> bool" where
  "cm_reaches \<equiv> cm_step\<^sup>*\<^sup>*"

text \<open>
  The invariant: at most one request, and a component or the cache holds a configuration other than the restrictive one
  only when it is what the one request was answered with.
\<close>

definition cm_answered :: "config_module \<Rightarrow> runtime_config option \<Rightarrow> bool" where
  "cm_answered s c \<longleftrightarrow> cm_inflight s = Some (Resolved c)"

definition cm_wf :: "config_module \<Rightarrow> bool" where
  "cm_wf s \<longleftrightarrow> cm_fetches s = (if cm_inflight s = None then 0 else 1)
     \<and> (cm_cached s = None \<or> cm_answered s (cm_cached s))
     \<and> list_all (\<lambda>u. cu_cfg u = Some RESTRICTIVE \<or> cm_answered s (cu_cfg u)) (cm_users s)"

lemma cm_mount_wf: "cm_wf s \<Longrightarrow> cm_wf (cm_mount s)"
  by (auto simp: cm_wf_def cm_mount_def cm_answered_def Let_def list_all_iff split: option.splits)

lemma cm_step_wf: "cm_step s t \<Longrightarrow> cm_wf s \<Longrightarrow> cm_wf t"
proof (induction rule: cm_step.induct)
  case (mount s)
  then show ?case by (rule cm_mount_wf)
next
  case (settle s r)
  then show ?case by (auto simp: cm_wf_def cm_answered_def list_all_iff)
next
  case (deliver s c i)
  then show ?case by (auto simp: cm_wf_def cm_answered_def cm_deliver_def list_all_iff dest!: set_update_subset_insert [THEN subsetD])
qed

lemma cm_reaches_wf: "cm_reaches cm_new s \<Longrightarrow> cm_wf s"
proof (induction rule: rtranclp_induct)
  case base
  show ?case by (simp add: cm_wf_def cm_new_def)
next
  case (step s t)
  then show ?case by (blast intro: cm_step_wf)
qed

text \<open>
  A page offers only what the backend said it may. In whatever order pages mount and the answer arrives, the
  configuration is requested at most once; a component shows container control, live parameters or the deletion of
  shared files, or leaves the demo mode, only when the request was answered with a configuration that says so; and
  it fails to render only when the backend answered a success without a body.
\<close>

theorem config_fails_closed:
  assumes "cm_reaches cm_new s" "u \<in> set (cm_users s)"
  shows "cm_fetches s = 1
    \<and> (if useContainerControl u = Some True \<or> useLiveParamOverrides u = Some True \<or> useSharedExportDelete u = Some True \<or> useDemoMode u = Some False
       then \<exists>c. cm_answered s (Some c) \<and> cu_cfg u = Some c
         \<and> (useContainerControl u = Some True \<longleftrightarrow> cf_container_control c = Some True)
         \<and> (useLiveParamOverrides u = Some True \<longleftrightarrow> cf_live_param_overrides c = Some True)
         \<and> (useSharedExportDelete u = Some True \<longleftrightarrow> cf_shared_export_delete c = Some True)
         \<and> (useDemoMode u = Some False \<longleftrightarrow> \<not> cf_demo_mode c)
       else True)
    \<and> (if useDemoMode u = None then cm_answered s None else True)"
proof -
  have wf: "cm_wf s" using assms(1) by (rule cm_reaches_wf)
  have req: "cm_users t \<noteq> [] \<longrightarrow> cm_inflight t \<noteq> None" if "cm_reaches cm_new t" for t
    using that
  proof (induction rule: rtranclp_induct)
    case (step t t')
    have "cm_cached t \<noteq> None \<longrightarrow> cm_inflight t \<noteq> None" using cm_reaches_wf [OF step.hyps(1)] by (auto simp: cm_wf_def cm_answered_def)
    with step.hyps(2) step.IH show ?case by (auto elim!: cm_stepE simp: cm_mount_def cm_deliver_def Let_def split: option.splits)
  qed (simp add: cm_new_def)
  then have f: "cm_fetches s = 1" using wf assms by (fastforce simp: cm_wf_def)
  have u: "cu_cfg u = Some RESTRICTIVE \<or> cm_answered s (cu_cfg u)" using wf assms(2) by (auto simp: cm_wf_def list_all_iff)
  then show ?thesis using f
    by (cases "cu_cfg u") (auto simp: useContainerControl_def useLiveParamOverrides_def useSharedExportDelete_def useDemoMode_def RESTRICTIVE_def)
qed

text \<open>Two components mount, and the backend, a demonstration that allows nothing, answers to the first of them.\<close>

definition demo_config :: runtime_config where
  "demo_config = RESTRICTIVE\<lparr>cf_demo_mode := False, cf_container_control := None\<rparr>"

definition demo_answer :: "runtime_config option \<Rightarrow> runtime_config response" where
  "demo_answer c = \<lparr>re_ok = True, re_status = 200, re_body = c, re_detail = None\<rparr>"

definition demo_module :: "runtime_config option \<Rightarrow> config_module" where
  "demo_module c = cm_deliver 0 c ((cm_mount (cm_mount cm_new))\<lparr>cm_inflight := Some (Resolved c)\<rparr>)"

lemma demo_module_reached: "cm_reaches cm_new (demo_module c)"
proof -
  let ?s = "cm_mount (cm_mount cm_new)"
  have a: "cm_inflight ?s = Some Pending" "length (cm_users ?s) = 2" "cu_waits (cm_users ?s ! 0)"
    by (simp_all add: cm_mount_def cm_new_def)
  have r: "config_answer (Some (demo_answer c)) = c" by (simp add: config_answer_def okJson_def demo_answer_def)
  have "cm_step cm_new (cm_mount cm_new)" "cm_step (cm_mount cm_new) ?s" by (rule cm_step.mount)+
  moreover have "cm_step ?s (?s\<lparr>cm_inflight := Some (Resolved c)\<rparr>)" using cm_step.settle [OF a(1), of "Some (demo_answer c)"] by (simp only: r)
  moreover have "cm_step (?s\<lparr>cm_inflight := Some (Resolved c)\<rparr>) (demo_module c)" unfolding demo_module_def
    by (rule cm_step.deliver) (use a in simp_all)
  ultimately show ?thesis by (meson rtranclp.rtrancl_refl rtranclp.rtrancl_into_rtrancl)
qed

theorem config_fails_closed_witness:
  "cm_fetches (demo_module (Some demo_config)) = 1 \<and> useDemoMode (cm_users (demo_module (Some demo_config)) ! 0) = Some False
    \<and> useContainerControl (cm_users (demo_module (Some demo_config)) ! 0) = Some False"
proof -
  have m: "cm_users (demo_module (Some demo_config)) = [\<lparr>cu_cfg = Some demo_config, cu_waits = False\<rparr>, \<lparr>cu_cfg = Some RESTRICTIVE, cu_waits = True\<rparr>]"
    by (simp add: demo_module_def cm_deliver_def cm_mount_def cm_new_def)
  have "cm_fetches (demo_module (Some demo_config)) = 1" using config_fails_closed [OF demo_module_reached, of "hd (cm_users (demo_module (Some demo_config)))"] by (simp add: m)
  moreover have "\<not> cf_demo_mode demo_config" "cf_container_control demo_config = None" by (simp_all add: demo_config_def)
  ultimately show ?thesis by (simp add: m useDemoMode_def useContainerControl_def)
qed

text \<open>
  A success whose body is not JSON, as from a server that answers every path with the page itself, is \<^verbatim>\<open>null\<close>: the
  component that waited for it then reads a member of \<^verbatim>\<open>null\<close>.
\<close>

lemma null_config_throws: "\<exists>s. cm_reaches cm_new s \<and> (\<exists>u \<in> set (cm_users s). useDemoMode u = None)"
proof -
  have "cm_users (demo_module None) = [\<lparr>cu_cfg = None, cu_waits = False\<rparr>, \<lparr>cu_cfg = Some RESTRICTIVE, cu_waits = True\<rparr>]"
    by (simp add: demo_module_def cm_deliver_def cm_mount_def cm_new_def)
  then show ?thesis using demo_module_reached [of None] by (intro exI [of _ "demo_module None"]) (simp add: useDemoMode_def)
qed

section \<open>The poll\<close>

datatype poll_event = Interval | Shown | Hidden | Stop

record poller =
  po_visible :: bool
  po_active :: bool
  po_calls :: nat

definition startPoll :: "bool \<Rightarrow> poller" where
  "startPoll visible = \<lparr>po_visible = visible, po_active = True, po_calls = 1\<rparr>"

fun poll_step :: "poll_event \<Rightarrow> poller \<Rightarrow> poller" where
  "poll_step Interval s = (if po_active s \<and> po_visible s then s\<lparr>po_calls := Suc (po_calls s)\<rparr> else s)"
| "poll_step Shown s = (let s = s\<lparr>po_visible := True\<rparr> in if po_active s then s\<lparr>po_calls := Suc (po_calls s)\<rparr> else s)"
| "poll_step Hidden s = s\<lparr>po_visible := False\<rparr>"
| "poll_step Stop s = s\<lparr>po_active := False\<rparr>"

lemma poll_stopped: "po_calls (fold poll_step es (poll_step Stop s)) = po_calls s"
proof -
  have "\<not> po_active s \<Longrightarrow> po_calls (fold poll_step es s) = po_calls s" for s
  proof (induction es arbitrary: s)
    case (Cons e es)
    then show ?case by (cases e) (simp_all add: Let_def)
  qed simp
  then show ?thesis by simp
qed

lemma poll_hidden: "Shown \<notin> set es \<Longrightarrow> po_calls (fold poll_step es (startPoll False)) = 1"
proof -
  have "\<not> po_visible s \<Longrightarrow> Shown \<notin> set es \<Longrightarrow> po_calls (fold poll_step es s) = po_calls s" for s
  proof (induction es arbitrary: s)
    case (Cons e es)
    then show ?case by (cases e) simp_all
  qed simp
  then show "Shown \<notin> set es \<Longrightarrow> po_calls (fold poll_step es (startPoll False)) = 1" by (simp add: startPoll_def)
qed

section \<open>The width of the layout\<close>

definition NARROW_LAYOUT_MAX_PX :: nat where "NARROW_LAYOUT_MAX_PX = 767"
definition NARROW_LAYOUT_QUERY :: string where "NARROW_LAYOUT_QUERY = ''(max-width: '' @ show_nat NARROW_LAYOUT_MAX_PX @ ''px)''"
definition NARROW_MAIN_PADDING :: string where "NARROW_MAIN_PADDING = ''1rem''"
definition NARROW_COLUMN :: string where "NARROW_COLUMN = ''minmax(0, 1fr)''"

definition narrowColumns :: "bool \<Rightarrow> string \<Rightarrow> string" where
  "narrowColumns narrow wide = (if narrow then NARROW_COLUMN else wide)"

text \<open>
  The store of a media query: the list, once created, the listeners added to it, and the lists created so far. A list
  is the number of its creation; whether it matches is the browser's.
\<close>

record 'l media_store =
  ms_list :: "nat option"
  ms_created :: nat
  ms_listeners :: "(nat \<times> 'l) list"

definition media_new :: "'l media_store" where
  "media_new = \<lparr>ms_list = None, ms_created = 0, ms_listeners = []\<rparr>"

definition shared_list :: "'l media_store \<Rightarrow> nat \<times> 'l media_store" where
  "shared_list s = (case ms_list s of
     Some l \<Rightarrow> (l, s)
   | None \<Rightarrow> (ms_created s, s\<lparr>ms_list := Some (ms_created s), ms_created := Suc (ms_created s)\<rparr>))"

definition getSnapshot :: "(nat \<Rightarrow> bool) \<Rightarrow> 'l media_store \<Rightarrow> bool \<times> 'l media_store" where
  "getSnapshot matches s = (let (l, s) = shared_list s in (matches l, s))"

definition media_subscribe :: "'l \<Rightarrow> 'l media_store \<Rightarrow> (nat \<times> 'l) \<times> 'l media_store" where
  "media_subscribe cb s = (let (l, s) = shared_list s in ((l, cb), s\<lparr>ms_listeners := ms_listeners s @ [(l, cb)]\<rparr>))"

definition media_unsubscribe :: "nat \<times> 'l \<Rightarrow> 'l media_store \<Rightarrow> 'l media_store" where
  "media_unsubscribe h s = s\<lparr>ms_listeners := remove1 h (ms_listeners s)\<rparr>"

definition media_wf :: "'l media_store \<Rightarrow> bool" where
  "media_wf s \<longleftrightarrow> ms_created s = (if ms_list s = None then 0 else 1) \<and> list_all (\<lambda>(l, cb). ms_list s = Some l) (ms_listeners s)"

lemma media_store_wf:
  "media_wf media_new"
  "media_wf s \<Longrightarrow> media_wf (snd (getSnapshot m s))"
  "media_wf s \<Longrightarrow> media_wf (snd (media_subscribe cb s))"
  "media_wf s \<Longrightarrow> media_wf (media_unsubscribe h s)"
  by (auto simp: media_wf_def media_new_def getSnapshot_def media_subscribe_def media_unsubscribe_def shared_list_def Let_def list_all_iff
      dest: set_remove1_subset [THEN subsetD] split: option.splits)

lemma media_unsubscribe_undoes: "media_wf s \<Longrightarrow> h \<notin> set (ms_listeners s) \<Longrightarrow> media_subscribe cb s = (h, t) \<Longrightarrow> ms_listeners (media_unsubscribe h t) = ms_listeners s"
  by (auto simp: media_subscribe_def media_unsubscribe_def shared_list_def Let_def remove1_append split: option.splits)

end
