(* ===== verification/Page_Physics.thy ===== *)
theory Page_Physics
  imports Prelude Keyrate
begin

text \<open>
  The parameter editor, \<^verbatim>\<open>pages/PhysicsParams.tsx\<close>: what it loads, the drafts a visitor types, where Apply and Reset put
  them, the switch of the simulator, the answer of the two key managers, and the search for the best intensities.

  The page is a state and the events that reach it: an answer of the backend, a key, a button. A button that is
  disabled does nothing. Whether the host accepts live overrides is the hook's and may change while the page is
  open. A number is a real.
\<close>

section \<open>The parameters\<close>

definition BOUNDS :: "(string \<times> real option \<times> real option) list" where
  "BOUNDS = [
     (''physical.link_length_km'', Some 0, None),
     (''physical.fiber_attenuation_db_per_km'', Some 0, None),
     (''physical.detector_efficiency'', Some 0, Some 1),
     (''physical.dark_count_rate_hz'', Some 0, None),
     (''physical.misalignment_error_ed'', Some 0, Some 0.5),
     (''source.pulse_rate_hz'', Some 1, None),
     (''source.intensity_signal_mu'', Some 0, None),
     (''source.intensity_decoy_1_nu1'', Some 0, None),
     (''source.intensity_decoy_2_nu2'', Some 0, None),
     (''source.basis_bias_pz'', Some 0, Some 1),
     (''protocol.ec_efficiency_f'', Some 1, None),
     (''protocol.qber_threshold_abort'', Some 0, Some 0.5),
     (''simulator.bb84_batch_size'', Some 1, None),
     (''eve.intercept_prob'', Some 0, Some 1)]"

definition field_bounds :: "string \<Rightarrow> real option \<times> real option" where
  "field_bounds path = (case map_of BOUNDS path of Some b \<Rightarrow> b | None \<Rightarrow> (None, None))"

definition in_bounds :: "string \<Rightarrow> real \<Rightarrow> bool" where
  "in_bounds path n = (case field_bounds path of (lo, hi) \<Rightarrow>
     (case lo of Some l \<Rightarrow> \<not> n < l | None \<Rightarrow> True) \<and> (case hi of Some h \<Rightarrow> \<not> n > h | None \<Rightarrow> True))"

definition CLIENT_SIDE_INPUTS :: "string list" where
  "CLIENT_SIDE_INPUTS = [
     ''physical.detector_efficiency'', ''physical.fiber_attenuation_db_per_km'',
     ''physical.link_length_km'', ''physical.dark_count_rate_hz'',
     ''physical.misalignment_error_ed'', ''source.pulse_rate_hz'',
     ''source.intensity_signal_mu'', ''source.intensity_decoy_1_nu1'',
     ''source.intensity_decoy_2_nu2'', ''protocol.ec_efficiency_f'']"

definition GROUPS :: "(string \<times> string) list" where
  "GROUPS = [
     (''Channel (fiber + detector)'', ''physical.''),
     (''Source (WCP intensities)'', ''source.''),
     (''Protocol'', ''protocol.''),
     (''Simulator'', ''simulator.''),
     (''Adversary (Eve)'', ''eve.'')]"

definition BACKENDS :: "string list" where
  "BACKENDS = [''qutip'', ''simqn'', ''sequence'', ''cvqkd'', ''tno'', ''composite_sim_to_net'', ''qkdnetsim_proxy'']"

definition QKDNETSIM_DEPENDENT :: "string list" where
  "QKDNETSIM_DEPENDENT = [''composite_sim_to_net'', ''qkdnetsim_proxy'']"

definition QKDNETSIM_SERVICE :: string where "QKDNETSIM_SERVICE = ''qkdnetsim-kme''"

section \<open>The answer of the two key managers\<close>

text \<open>A member that the backend may leave out is \<open>None\<close>; \<open>fo_ok\<close> is whether \<^verbatim>\<open>ok\<close> is \<^verbatim>\<open>true\<close>.\<close>

record fanout_node =
  fn_ok :: bool
  fn_status :: "nat option"
  fn_error :: "string option"

record fanout_body =
  fo_ok :: bool
  fo_nodes :: "(string \<times> fanout_node) list"
  fo_reached :: "nat option"
  fo_of :: "nat option"
  fo_detail :: "string option"

definition reported :: "nat option \<Rightarrow> string" where
  "reported n = (case n of Some k \<Rightarrow> show_nat k | None \<Rightarrow> ''(not reported)'')"

definition failed_node :: "string \<times> fanout_node \<Rightarrow> string" where
  "failed_node = (\<lambda>(name, n). name @ '' ('' @ (case fn_status n of Some k \<Rightarrow> ''HTTP '' @ show_nat k @ '': '' | None \<Rightarrow> '''')
     @ (case fn_error n of Some e \<Rightarrow> e | None \<Rightarrow> ''no response'') @ '')'')"

definition fanoutFailure :: "bool \<Rightarrow> nat \<Rightarrow> fanout_body option \<Rightarrow> string option" where
  "fanoutFailure ok status body =
     (if ok \<and> map_option fo_ok body = Some True then None
      else let nodes = (case body of Some b \<Rightarrow> fo_nodes b | None \<Rightarrow> []);
               failed = map failed_node (filter (\<lambda>(_, n). \<not> fn_ok n) nodes)
           in Some (if failed \<noteq> []
             then ''reached '' @ reported (Option.bind body fo_reached) @ '' of '' @ reported (Option.bind body fo_of)
                  @ '' KMEs; not applied on '' @ js_join '', '' failed
             else let detail = (case Option.bind body fo_detail of Some d \<Rightarrow> '' -- '' @ d | None \<Rightarrow> '''')
                  in if ok then ''not confirmed by the backend'' else ''HTTP '' @ show_nat status @ detail))"

datatype kme_answer = Threw string | Answered bool nat "fanout_body option"

section \<open>The page\<close>

text \<open>The requests that change the key managers, in the order they are sent; and the one whose answer is awaited.\<close>

type_synonym draft = "(string \<times> field_value) list"

datatype kme_request = PatchParams draft | ResetParams | SwitchBackend string

datatype flight = F_apply nat | F_reset | F_switch string

record optimum =
  op_mu :: real
  op_nu1 :: real
  op_nu2 :: real
  op_skr :: real
  op_bps :: real

record physics_page =
  ph_live :: bool
  ph_fields :: "editable_field list option"
  ph_bundled :: bool
  ph_backend :: string
  ph_edits :: draft
  ph_local :: draft
  ph_opt :: "optimum option"
  ph_busy :: bool
  ph_note :: string
  ph_qkdnetsim :: "string option"
  ph_flight :: "flight option"
  ph_sent :: "kme_request list"

definition physics_new :: physics_page where
  "physics_new = \<lparr>ph_live = False, ph_fields = None, ph_bundled = False, ph_backend = '''', ph_edits = [], ph_local = [],
     ph_opt = None, ph_busy = False, ph_note = '''', ph_qkdnetsim = None, ph_flight = None, ph_sent = []\<rparr>"

subsection \<open>Loading\<close>

text \<open>
  One \<^verbatim>\<open>load\<close> asks for the fields, then the running backend, then the configured one. \<open>had\<close> is whether the page
  had fields when this call of \<^verbatim>\<open>load\<close> was made: the call reads the fields of its render, not those of the moment.
\<close>

definition load_catch :: "bool \<Rightarrow> physics_page \<Rightarrow> physics_page" where
  "load_catch had s = (if \<not> had then s\<lparr>ph_fields := Some bundledEditableFields\<rparr> else s)\<lparr>ph_bundled := True\<rparr>"

definition load_fields :: "bool \<Rightarrow> editable_field list option \<Rightarrow> physics_page \<Rightarrow> physics_page" where
  "load_fields had ans s = (case ans of
     Some fs \<Rightarrow> s\<lparr>ph_fields := Some fs, ph_bundled := False\<rparr>
   | None \<Rightarrow> load_catch had s)"

definition load_stats :: "string option \<Rightarrow> string option \<Rightarrow> physics_page \<Rightarrow> physics_page" where
  "load_stats alice bob s = (case (case alice of Some a \<Rightarrow> Some a | None \<Rightarrow> bob) of
     Some rt \<Rightarrow> if rt \<noteq> [] then s\<lparr>ph_backend := rt\<rparr> else s
   | None \<Rightarrow> s)"

definition load_params :: "bool \<Rightarrow> string option option \<Rightarrow> physics_page \<Rightarrow> physics_page" where
  "load_params had ans s = (case ans of
     Some b \<Rightarrow> s\<lparr>ph_backend := (case b of Some x \<Rightarrow> x | None \<Rightarrow> ''''), ph_bundled := False\<rparr>
   | None \<Rightarrow> load_catch had s)"

definition loadStack :: "(string \<times> string) list option \<Rightarrow> physics_page \<Rightarrow> physics_page" where
  "loadStack ans s = s\<lparr>ph_qkdnetsim := (case ans of
     Some rows \<Rightarrow> Some (case map_of rows QKDNETSIM_SERVICE of Some st \<Rightarrow> st | None \<Rightarrow> ''absent'')
   | None \<Rightarrow> None)\<rparr>"

subsection \<open>Drafts\<close>

definition setEdit :: "string \<Rightarrow> field_value \<Rightarrow> physics_page \<Rightarrow> physics_page" where
  "setEdit path v s = s\<lparr>ph_edits := AList.update path v (ph_edits s)\<rparr>"

definition spread :: "draft \<Rightarrow> draft \<Rightarrow> draft" where
  "spread a b = fold (\<lambda>(k, v). AList.update k v) b a"

definition loaded_value :: "physics_page \<Rightarrow> editable_field list" where
  "loaded_value s = (case ph_fields s of Some fs \<Rightarrow> fs | None \<Rightarrow> [])"

definition shown_field :: "physics_page \<Rightarrow> editable_field \<Rightarrow> bool" where
  "shown_field s f \<longleftrightarrow> f \<in> set (loaded_value s) \<and> list_ex (\<lambda>(_, pre). take (length pre) (ef_path f) = pre) GROUPS"

text \<open>The input of a field: \<open>None\<close> is a text that is not a number.\<close>

definition type_number :: "editable_field \<Rightarrow> real option \<Rightarrow> physics_page \<Rightarrow> physics_page" where
  "type_number f n s =
     (if \<not> shown_field s f \<or> ef_type f = FT_bool then s
      else case n of
        None \<Rightarrow> s
      | Some n \<Rightarrow> if in_bounds (ef_path f) n then setEdit (ef_path f) (FV_number n) s else s)"

definition tick_box :: "editable_field \<Rightarrow> bool \<Rightarrow> physics_page \<Rightarrow> physics_page" where
  "tick_box f b s = (if \<not> shown_field s f \<or> ef_type f \<noteq> FT_bool then s else setEdit (ef_path f) (FV_bool b) s)"

definition overlay :: "physics_page \<Rightarrow> draft" where
  "overlay s = (if ph_live s then [] else ph_local s)"

definition dirty :: "physics_page \<Rightarrow> nat" where
  "dirty s = length (ph_edits s)"

definition anyOverridden :: "physics_page \<Rightarrow> bool" where
  "anyOverridden s = (if ph_live s then list_ex ef_overridden (loaded_value s) else overlay s \<noteq> [])"

definition canReset :: "physics_page \<Rightarrow> bool" where
  "canReset s = (if ph_live s then anyOverridden s else anyOverridden s \<or> dirty s > 0)"

definition cur_value :: "physics_page \<Rightarrow> string \<Rightarrow> field_value option" where
  "cur_value s path =
     (case map_of (ph_edits s) path of
        Some v \<Rightarrow> Some v
      | None \<Rightarrow> (case map_of (overlay s) path of
          Some v \<Rightarrow> Some v
        | None \<Rightarrow> map_option ef_value (List.find (\<lambda>f. ef_path f = path) (loaded_value s))))"

subsection \<open>Apply, Reset and the switch\<close>

definition launch :: "kme_request \<Rightarrow> flight \<Rightarrow> physics_page \<Rightarrow> physics_page" where
  "launch r fl s = s\<lparr>ph_busy := True, ph_flight := Some fl, ph_sent := ph_sent s @ [r]\<rparr>"

definition applyEdits :: "physics_page \<Rightarrow> physics_page" where
  "applyEdits s =
     (if ph_busy s \<or> dirty s = 0 then s
      else if \<not> ph_live s
      then s\<lparr>ph_local := spread (ph_local s) (ph_edits s), ph_edits := [],
             ph_note := ''Applied '' @ show_nat (dirty s) @ '' edit(s) to the in-browser model only; the KMEs were not changed.''\<rparr>
      else launch (PatchParams (ph_edits s)) (F_apply (dirty s)) (s\<lparr>ph_note := ''''\<rparr>))"

definition resetParams :: "physics_page \<Rightarrow> physics_page" where
  "resetParams s =
     (if ph_busy s \<or> \<not> canReset s then s
      else if \<not> ph_live s
      then s\<lparr>ph_local := [], ph_edits := [],
             ph_note := ''Reverted the in-browser model to the values this page loaded; the KMEs were not changed.''\<rparr>
      else launch ResetParams F_reset (s\<lparr>ph_note := ''''\<rparr>))"

definition switch_off :: "physics_page \<Rightarrow> string \<Rightarrow> bool" where
  "switch_off s b \<longleftrightarrow> ph_busy s \<or> \<not> ph_live s \<or> (b \<in> set QKDNETSIM_DEPENDENT \<and> ph_qkdnetsim s \<noteq> Some ''running'')"

definition switchBackend :: "string \<Rightarrow> physics_page \<Rightarrow> physics_page" where
  "switchBackend name s =
     (if name \<notin> set BACKENDS \<or> switch_off s name then s else launch (SwitchBackend name) (F_switch name) s)"

definition answered :: "flight \<Rightarrow> kme_answer \<Rightarrow> physics_page \<Rightarrow> physics_page" where
  "answered fl a s = (case (fl, a) of
     (F_apply n, Answered ok st body) \<Rightarrow> (case fanoutFailure ok st body of
        Some failure \<Rightarrow> s\<lparr>ph_note := ''Apply not confirmed: '' @ failure @ ''.''\<rparr>
      | None \<Rightarrow> s\<lparr>ph_note := ''Applied '' @ show_nat n @ '' override(s) on both KMEs.'', ph_edits := []\<rparr>)
   | (F_apply n, Threw e) \<Rightarrow> s\<lparr>ph_note := ''Apply failed: '' @ e @ ''.''\<rparr>
   | (F_reset, Answered ok st body) \<Rightarrow> s\<lparr>ph_edits := [], ph_note := (case fanoutFailure ok st body of
        Some failure \<Rightarrow> ''Reset not confirmed: '' @ failure @ ''.''
      | None \<Rightarrow> ''Reverted to config/qkd_params.yaml defaults.'')\<rparr>
   | (F_reset, Threw e) \<Rightarrow> s\<lparr>ph_note := ''Reset failed: '' @ e @ ''.''\<rparr>
   | (F_switch name, Answered ok st body) \<Rightarrow> s\<lparr>ph_note := (case fanoutFailure ok st body of
        Some failure \<Rightarrow> ''Backend switch to '' @ name @ '' not applied: '' @ failure @ ''.''
      | None \<Rightarrow> ''Backend switched to '' @ name @ '' on both KMEs.'')\<rparr>
   | (F_switch name, Threw e) \<Rightarrow> s\<lparr>ph_note := ''Backend switch to '' @ name @ '' failed: '' @ e @ ''.''\<rparr>)"

definition land :: "kme_answer \<Rightarrow> physics_page \<Rightarrow> physics_page" where
  "land a s = (case ph_flight s of None \<Rightarrow> s | Some fl \<Rightarrow> (answered fl a s)\<lparr>ph_busy := False, ph_flight := None\<rparr>)"

section \<open>The rate and the search\<close>

record rate_model =
  rm_etaTotal :: real
  rm_Y0 :: real
  rm_eD :: real
  rm_mu :: real
  rm_nu1 :: real
  rm_nu2 :: real
  rm_fEC :: real
  rm_pulseRateHz :: real
  rm_skrPerPulse :: real
  rm_qber :: real
  rm_skrBps :: real

definition missingInputs :: "physics_page \<Rightarrow> string list" where
  "missingInputs s = filter (\<lambda>p. cur_value s p = None) CLIENT_SIDE_INPUTS"

text \<open>\<^verbatim>\<open>Number(...)\<close> of a parameter that is there.\<close>

definition pv :: "physics_page \<Rightarrow> string \<Rightarrow> real" where
  "pv s path = (case cur_value s path of Some (FV_number x) \<Rightarrow> x | Some (FV_bool b) \<Rightarrow> (if b then 1 else 0) | None \<Rightarrow> 0)"

definition rate_model_of :: "physics_page \<Rightarrow> rate_model option" where
  "rate_model_of s =
     (if missingInputs s \<noteq> [] then None
      else let etaTotal = totalTransmittance (pv s ''physical.detector_efficiency'') (pv s ''physical.fiber_attenuation_db_per_km'')
                 (pv s ''physical.link_length_km'');
               Y0 = pv s ''physical.dark_count_rate_hz'' / max (pv s ''source.pulse_rate_hz'') 1;
               eD = pv s ''physical.misalignment_error_ed''; mu = pv s ''source.intensity_signal_mu'';
               nu1 = pv s ''source.intensity_decoy_1_nu1''; nu2 = pv s ''source.intensity_decoy_2_nu2'';
               fEC = pv s ''protocol.ec_efficiency_f''; pulseRateHz = pv s ''source.pulse_rate_hz'';
               skr = asymptoticSkrPerPulse \<lparr>dp_Y0 = Y0, dp_etaTotal = etaTotal, dp_eD = eD, dp_mu = mu, dp_nu1 = nu1, dp_nu2 = nu2, dp_fEC = fEC\<rparr>
           in Some \<lparr>rm_etaTotal = etaTotal, rm_Y0 = Y0, rm_eD = eD, rm_mu = mu, rm_nu1 = nu1, rm_nu2 = nu2, rm_fEC = fEC,
                    rm_pulseRateHz = pulseRateHz, rm_skrPerPulse = skr, rm_qber = qberEmu Y0 etaTotal eD mu, rm_skrBps = skr * pulseRateHz\<rparr>)"

definition rate_at :: "rate_model \<Rightarrow> real \<Rightarrow> real \<Rightarrow> real" where
  "rate_at M m n = asymptoticSkrPerPulse
     \<lparr>dp_Y0 = rm_Y0 M, dp_etaTotal = rm_etaTotal M, dp_eD = rm_eD M, dp_mu = m, dp_nu1 = n, dp_nu2 = rm_nu2 M, dp_fEC = rm_fEC M\<rparr>"

text \<open>The grid, and the two loops over it. The best so far is the pair of intensities and its rate.\<close>

definition muFrom :: real where "muFrom = 20 / 100"
definition muTo :: real where "muTo = 90 / 100"
definition nuFrom :: real where "nuFrom = 2 / 100"
definition nuBelowMu :: real where "nuBelowMu = 1 / 100"
definition opt_step :: real where "opt_step = 2 / 100"

lemmas grid_defs = muFrom_def muTo_def nuFrom_def nuBelowMu_def opt_step_def

record best =
  be_mu :: real
  be_nu1 :: real
  be_skr :: real

definition better :: "(real \<Rightarrow> real \<Rightarrow> real) \<Rightarrow> real \<Rightarrow> real \<Rightarrow> best \<Rightarrow> best" where
  "better rate m n b = (let r = rate m n in if r > be_skr b then \<lparr>be_mu = m, be_nu1 = n, be_skr = r\<rparr> else b)"

function nu_loop :: "(real \<Rightarrow> real \<Rightarrow> real) \<Rightarrow> real \<Rightarrow> real \<Rightarrow> best \<Rightarrow> best" where
  "nu_loop rate m n b = (if n < m - nuBelowMu then nu_loop rate m (n + opt_step) (better rate m n b) else b)"
  by pat_completeness auto

termination nu_loop
proof (relation "measure (\<lambda>(rate, m, n, b). nat \<lceil>(m - n) * 50\<rceil>)", goal_cases)
  case (2 rate m n b)
  have "(m - (n + opt_step)) * 50 = (m - n) * 50 - 1" by (simp add: opt_step_def algebra_simps)
  then have "\<lceil>(m - (n + opt_step)) * 50\<rceil> = \<lceil>(m - n) * 50\<rceil> - 1" by (simp only: ceiling_diff_one)
  moreover have "0 < \<lceil>(m - n) * 50\<rceil>" using 2 by (simp add: nuBelowMu_def)
  ultimately show ?case by simp
qed simp

function mu_loop :: "(real \<Rightarrow> real \<Rightarrow> real) \<Rightarrow> real \<Rightarrow> best \<Rightarrow> best" where
  "mu_loop rate m b = (if m \<le> muTo then mu_loop rate (m + opt_step) (nu_loop rate m nuFrom b) else b)"
  by pat_completeness auto

termination mu_loop
proof (relation "measure (\<lambda>(rate, m, b). nat (\<lceil>(muTo - m) * 50\<rceil> + 1))", goal_cases)
  case (2 rate m b)
  have "(muTo - (m + opt_step)) * 50 = (muTo - m) * 50 - 1" by (simp add: opt_step_def algebra_simps)
  then have "\<lceil>(muTo - (m + opt_step)) * 50\<rceil> = \<lceil>(muTo - m) * 50\<rceil> - 1" by (simp only: ceiling_diff_one)
  moreover have "0 \<le> \<lceil>(muTo - m) * 50\<rceil>" using 2 by simp
  ultimately show ?case by simp
qed simp

declare nu_loop.simps [simp del] mu_loop.simps [simp del]

text \<open>\<^verbatim>\<open>+x.toFixed(3)\<close>.\<close>

definition fixed3 :: "real \<Rightarrow> real" where
  "fixed3 x = (if x < 0 then - (of_int \<lfloor>- x * 1000 + 1 / 2\<rfloor> / 1000) else of_int \<lfloor>x * 1000 + 1 / 2\<rfloor> / 1000)"

definition search :: "rate_model \<Rightarrow> best" where
  "search M = mu_loop (rate_at M) muFrom \<lparr>be_mu = rm_mu M, be_nu1 = rm_nu1 M, be_skr = rm_skrPerPulse M\<rparr>"

definition runOptimize :: "physics_page \<Rightarrow> physics_page" where
  "runOptimize s =
     (if ph_busy s then s
      else case rate_model_of s of
        None \<Rightarrow> s
      | Some M \<Rightarrow>
          (let best = search M
           in s\<lparr>ph_opt := Some \<lparr>op_mu = fixed3 (be_mu best), op_nu1 = fixed3 (be_nu1 best), op_nu2 = rm_nu2 M,
                   op_skr = be_skr best, op_bps = be_skr best * rm_pulseRateHz M\<rparr>,
                ph_edits := AList.update ''source.intensity_decoy_1_nu1'' (FV_number (fixed3 (be_nu1 best)))
                  (AList.update ''source.intensity_signal_mu'' (FV_number (fixed3 (be_mu best))) (ph_edits s)),
                ph_busy := False\<rparr>))"

subsection \<open>What the search finds\<close>

lemma better_ge: "be_skr b \<le> be_skr (better rate m n b)" "rate m n \<le> be_skr (better rate m n b)"
  by (auto simp: better_def Let_def)

definition be_attained :: "(real \<Rightarrow> real \<Rightarrow> real) \<Rightarrow> best \<Rightarrow> bool" where
  "be_attained rate b \<longleftrightarrow> be_skr b = rate (be_mu b) (be_nu1 b)"

lemma better_attained: "be_attained rate b \<Longrightarrow> be_attained rate (better rate m n b)"
  by (auto simp: better_def be_attained_def Let_def)

lemma nu_loop_ge: "be_skr b \<le> be_skr (nu_loop rate m n b)"
proof (induction rate m n b rule: nu_loop.induct)
  case (1 rate m n b)
  show ?case
  proof (cases "n < m - nuBelowMu")
    case True
    show ?thesis using order_trans [OF better_ge(1) 1 [OF True]] True by (subst nu_loop.simps) simp
  qed (simp add: nu_loop.simps)
qed

lemma mu_loop_ge: "be_skr b \<le> be_skr (mu_loop rate m b)"
proof (induction rate m b rule: mu_loop.induct)
  case (1 rate m b)
  show ?case
  proof (cases "m \<le> muTo")
    case True
    show ?thesis using order_trans [OF nu_loop_ge 1 [OF True]] True by (subst mu_loop.simps) simp
  qed (simp add: mu_loop.simps)
qed

lemma nu_loop_attained: "be_attained rate b \<Longrightarrow> be_attained rate (nu_loop rate m n b)"
proof (induction rate m n b rule: nu_loop.induct)
  case (1 rate m n b)
  then show ?case by (subst nu_loop.simps) (simp add: better_attained)
qed

lemma mu_loop_attained: "be_attained rate b \<Longrightarrow> be_attained rate (mu_loop rate m b)"
proof (induction rate m b rule: mu_loop.induct)
  case (1 rate m b)
  then show ?case by (subst mu_loop.simps) (simp add: nu_loop_attained)
qed

lemma nu_loop_covers: "n + of_nat j * opt_step < m - nuBelowMu \<Longrightarrow> rate m (n + of_nat j * opt_step) \<le> be_skr (nu_loop rate m n b)"
proof (induction j arbitrary: n b)
  case 0
  then show ?case by (subst nu_loop.simps) (auto intro: order_trans [OF better_ge(2) nu_loop_ge])
next
  case (Suc j)
  have "n \<le> n + of_nat (Suc j) * opt_step" by (simp add: opt_step_def)
  with Suc.prems have "n < m - nuBelowMu" by linarith
  with Suc.IH [of "n + opt_step"] Suc.prems show ?case by (subst nu_loop.simps) (simp add: algebra_simps)
qed

lemma mu_loop_covers:
  "m + of_nat i * opt_step \<le> muTo \<Longrightarrow> nuFrom + of_nat j * opt_step < m + of_nat i * opt_step - nuBelowMu
    \<Longrightarrow> rate (m + of_nat i * opt_step) (nuFrom + of_nat j * opt_step) \<le> be_skr (mu_loop rate m b)"
proof (induction i arbitrary: m b)
  case 0
  then show ?case by (subst mu_loop.simps) (auto intro: order_trans [OF nu_loop_covers mu_loop_ge])
next
  case (Suc i)
  have "m \<le> m + of_nat (Suc i) * opt_step" by (simp add: opt_step_def)
  with Suc.prems have "m \<le> muTo" by linarith
  with Suc.IH [of "m + opt_step"] Suc.prems show ?case by (subst mu_loop.simps) (simp add: algebra_simps)
qed

lemma search_attained: "rate_model_of s = Some M \<Longrightarrow> be_attained (rate_at M) (search M)"
  unfolding search_def by (rule mu_loop_attained) (auto simp: be_attained_def rate_model_of_def rate_at_def Let_def split: if_splits)

text \<open>
  Optimize finds the best rate it looks at. The two loops end, and the pair of intensities they return is one
  whose rate in the page's own model is the rate reported; no point of the grid, and not the pair the page had
  before, gives a higher one. The page then holds that pair, rounded to three digits, as drafts that the visitor has
  not applied, and sends nothing.
\<close>

theorem optimize_is_best:
  assumes "\<not> ph_busy s" "rate_model_of s = Some M"
  shows "op_skr (the (ph_opt (runOptimize s))) = rate_at M (be_mu (search M)) (be_nu1 (search M))
    \<and> rm_skrPerPulse M \<le> op_skr (the (ph_opt (runOptimize s)))
    \<and> (\<forall>i j. muFrom + of_nat i * opt_step \<le> muTo \<and> nuFrom + of_nat j * opt_step < muFrom + of_nat i * opt_step - nuBelowMu
        \<longrightarrow> rate_at M (muFrom + of_nat i * opt_step) (nuFrom + of_nat j * opt_step) \<le> op_skr (the (ph_opt (runOptimize s))))
    \<and> cur_value (runOptimize s) ''source.intensity_signal_mu'' = Some (FV_number (fixed3 (be_mu (search M))))
    \<and> cur_value (runOptimize s) ''source.intensity_decoy_1_nu1'' = Some (FV_number (fixed3 (be_nu1 (search M))))
    \<and> ph_sent (runOptimize s) = ph_sent s \<and> ph_local (runOptimize s) = ph_local s"
proof -
  have skr: "op_skr (the (ph_opt (runOptimize s))) = be_skr (search M)" using assms by (simp add: runOptimize_def Let_def)
  have att: "be_skr (search M) = rate_at M (be_mu (search M)) (be_nu1 (search M))"
    using search_attained [OF assms(2)] by (simp add: be_attained_def)
  have ge: "rm_skrPerPulse M \<le> be_skr (search M)"
    using mu_loop_ge [of "\<lparr>be_mu = rm_mu M, be_nu1 = rm_nu1 M, be_skr = rm_skrPerPulse M\<rparr>" "rate_at M" muFrom] by (simp add: search_def)
  have grid: "\<forall>i j. muFrom + of_nat i * opt_step \<le> muTo \<and> nuFrom + of_nat j * opt_step < muFrom + of_nat i * opt_step - nuBelowMu
      \<longrightarrow> rate_at M (muFrom + of_nat i * opt_step) (nuFrom + of_nat j * opt_step) \<le> be_skr (search M)"
    unfolding search_def by (blast intro: mu_loop_covers)
  have drafts: "cur_value (runOptimize s) ''source.intensity_signal_mu'' = Some (FV_number (fixed3 (be_mu (search M))))"
    "cur_value (runOptimize s) ''source.intensity_decoy_1_nu1'' = Some (FV_number (fixed3 (be_nu1 (search M))))"
    "ph_sent (runOptimize s) = ph_sent s" "ph_local (runOptimize s) = ph_local s"
    using assms by (simp_all add: runOptimize_def cur_value_def Let_def map_of_update_iff)
  show ?thesis unfolding skr using att ge grid drafts by blast
qed

definition bundled_page :: physics_page where
  "bundled_page = load_fields False None physics_new"

lemma bundled_page_model: "\<exists>M. rate_model_of bundled_page = Some M"
proof -
  have "cur_value bundled_page p \<noteq> None" if "p \<in> set CLIENT_SIDE_INPUTS" for p
    using that by (auto simp: CLIENT_SIDE_INPUTS_def cur_value_def bundled_page_def load_fields_def load_catch_def physics_new_def loaded_value_def
        overlay_def bundledEditableFields_def number_field_def Let_def)
  then have "missingInputs bundled_page = []" by (auto simp: missingInputs_def filter_empty_conv)
  then show ?thesis by (simp add: rate_model_of_def Let_def)
qed

theorem optimize_is_best_witness:
  "\<exists>M. rate_model_of bundled_page = Some M \<and> rm_skrPerPulse M \<le> op_skr (the (ph_opt (runOptimize bundled_page)))
    \<and> rate_at M muFrom nuFrom \<le> op_skr (the (ph_opt (runOptimize bundled_page)))"
proof -
  obtain M where M: "rate_model_of bundled_page = Some M" using bundled_page_model by blast
  have b: "\<not> ph_busy bundled_page" by (simp add: bundled_page_def load_fields_def load_catch_def physics_new_def)
  have z: "muFrom + of_nat 0 * opt_step \<le> muTo \<and> nuFrom + of_nat 0 * opt_step < muFrom + of_nat 0 * opt_step - nuBelowMu"
    by (simp add: grid_defs)
  note t = optimize_is_best [OF b M]
  from t have "rm_skrPerPulse M \<le> op_skr (the (ph_opt (runOptimize bundled_page)))" by (rule conjE) (erule conjE)
  moreover have "rate_at M (muFrom + of_nat 0 * opt_step) (nuFrom + of_nat 0 * opt_step) \<le> op_skr (the (ph_opt (runOptimize bundled_page)))"
    using t z by blast
  ultimately show ?thesis using M by (intro exI [of _ M]) simp
qed

section \<open>Any order of events\<close>

datatype page_event =
    Live bool
  | Fields_answer bool "editable_field list option"
  | Stats_answer "string option" "string option"
  | Params_answer bool "string option option"
  | Stack_answer "(string \<times> string) list option"
  | Type editable_field "real option"
  | Tick_box editable_field bool
  | Press_apply
  | Press_reset
  | Press_backend string
  | Press_optimize
  | Landed kme_answer

fun page_event_step :: "page_event \<Rightarrow> physics_page \<Rightarrow> physics_page" where
  "page_event_step (Live b) s = s\<lparr>ph_live := b\<rparr>"
| "page_event_step (Fields_answer had ans) s = load_fields had ans s"
| "page_event_step (Stats_answer a b) s = load_stats a b s"
| "page_event_step (Params_answer had ans) s = load_params had ans s"
| "page_event_step (Stack_answer ans) s = loadStack ans s"
| "page_event_step (Type f n) s = type_number f n s"
| "page_event_step (Tick_box f b) s = tick_box f b s"
| "page_event_step Press_apply s = applyEdits s"
| "page_event_step Press_reset s = resetParams s"
| "page_event_step (Press_backend b) s = switchBackend b s"
| "page_event_step Press_optimize s = runOptimize s"
| "page_event_step (Landed a) s = land a s"

lemmas page_ops = load_fields_def load_catch_def load_stats_def load_params_def loadStack_def type_number_def tick_box_def
  setEdit_def applyEdits_def resetParams_def switchBackend_def launch_def land_def runOptimize_def Let_def

lemma answered_keeps [simp]:
  "ph_live (answered fl a s) = ph_live s" "ph_local (answered fl a s) = ph_local s" "ph_sent (answered fl a s) = ph_sent s"
  "ph_fields (answered fl a s) = ph_fields s"
  by (auto simp: answered_def split: flight.splits kme_answer.splits option.splits)

text \<open>A draft holds nothing that its parameter cannot be.\<close>

definition value_ok :: "string \<Rightarrow> field_value \<Rightarrow> bool" where
  "value_ok path v = (case v of FV_number n \<Rightarrow> in_bounds path n | FV_bool _ \<Rightarrow> True)"

definition draft_ok :: "draft \<Rightarrow> bool" where
  "draft_ok d = list_all (\<lambda>(k, v). value_ok k v) d"

definition fields_ok :: "editable_field list \<Rightarrow> bool" where
  "fields_ok fs = list_all (\<lambda>f. value_ok (ef_path f) (ef_value f)) fs"

definition sent_ok :: "kme_request \<Rightarrow> bool" where
  "sent_ok r = (case r of PatchParams d \<Rightarrow> d \<noteq> [] \<and> draft_ok d | ResetParams \<Rightarrow> True | SwitchBackend b \<Rightarrow> b \<in> set BACKENDS)"

definition page_wf :: "physics_page \<Rightarrow> bool" where
  "page_wf s \<longleftrightarrow> (ph_busy s \<longleftrightarrow> ph_flight s \<noteq> None) \<and> draft_ok (ph_edits s) \<and> draft_ok (ph_local s) \<and> fields_ok (loaded_value s)
     \<and> list_all sent_ok (ph_sent s)"

lemma draft_ok_update [simp]: "draft_ok d \<Longrightarrow> value_ok k v \<Longrightarrow> draft_ok (AList.update k v d)"
  by (induction d) (auto simp: draft_ok_def)

lemma draft_ok_spread: "draft_ok b \<Longrightarrow> draft_ok a \<Longrightarrow> draft_ok (spread a b)"
  unfolding spread_def by (induction b arbitrary: a) (auto simp: draft_ok_def [of "_ # _"] simp flip: draft_ok_def)

lemma draft_ok_map_of: "draft_ok d \<Longrightarrow> map_of d k = Some v \<Longrightarrow> value_ok k v"
  by (auto simp: draft_ok_def list_all_iff dest: map_of_SomeD)

lemma draft_ok_Nil [simp]: "draft_ok []"
  by (simp add: draft_ok_def)

lemma answered_draft: "draft_ok (ph_edits s) \<Longrightarrow> draft_ok (ph_edits (answered fl a s))"
  by (auto simp: answered_def split: flight.splits kme_answer.splits option.splits)

lemma fields_ok_bundled: "fields_ok bundledEditableFields"
  by (simp add: fields_ok_def bundledEditableFields_def number_field_def Let_def value_ok_def in_bounds_def field_bounds_def BOUNDS_def BUNDLED_PARAMS_def)

lemma cur_value_ok: "page_wf s \<Longrightarrow> cur_value s path = Some v \<Longrightarrow> value_ok path v"
proof -
  assume wf: "page_wf s" and v: "cur_value s path = Some v"
  have o: "draft_ok (overlay s)" using wf by (simp add: overlay_def page_wf_def)
  show ?thesis using v wf draft_ok_map_of [OF o] draft_ok_map_of [of "ph_edits s"]
    by (auto simp: cur_value_def page_wf_def fields_ok_def list_all_iff find_Some_iff split: option.splits)
qed

lemma intensity_nonneg:
  "page_wf s \<Longrightarrow> path \<in> {''source.intensity_signal_mu'', ''source.intensity_decoy_1_nu1''} \<Longrightarrow> 0 \<le> pv s path"
  using cur_value_ok [of s path]
  by (cases "cur_value s path") (auto simp: pv_def value_ok_def in_bounds_def field_bounds_def BOUNDS_def split: field_value.splits)

definition be_nonneg :: "best \<Rightarrow> bool" where
  "be_nonneg b \<longleftrightarrow> 0 \<le> be_mu b \<and> 0 \<le> be_nu1 b"

lemma nu_loop_nonneg: "be_nonneg b \<Longrightarrow> 0 \<le> m \<Longrightarrow> 0 \<le> n \<Longrightarrow> be_nonneg (nu_loop rate m n b)"
proof (induction rate m n b rule: nu_loop.induct)
  case (1 rate m n b)
  moreover have "be_nonneg (better rate m n b)" using 1 by (auto simp: better_def be_nonneg_def Let_def)
  ultimately show ?case by (subst nu_loop.simps) (simp add: opt_step_def)
qed

lemma mu_loop_nonneg: "be_nonneg b \<Longrightarrow> 0 \<le> m \<Longrightarrow> be_nonneg (mu_loop rate m b)"
proof (induction rate m b rule: mu_loop.induct)
  case (1 rate m b)
  moreover have "be_nonneg (nu_loop rate m nuFrom b)" using 1 by (intro nu_loop_nonneg) (simp_all add: nuFrom_def)
  ultimately show ?case by (subst mu_loop.simps) (simp add: opt_step_def)
qed

lemma fixed3_nonneg: "0 \<le> x \<Longrightarrow> 0 \<le> fixed3 x"
  by (simp add: fixed3_def)

lemma search_nonneg: "page_wf s \<Longrightarrow> rate_model_of s = Some M \<Longrightarrow> be_nonneg (search M)"
  unfolding search_def
  by (rule mu_loop_nonneg) (auto simp: be_nonneg_def muFrom_def rate_model_of_def Let_def intensity_nonneg split: if_splits)

lemma intensity_ok: "0 \<le> x \<Longrightarrow> value_ok ''source.intensity_signal_mu'' (FV_number x)"
  "0 \<le> x \<Longrightarrow> value_ok ''source.intensity_decoy_1_nu1'' (FV_number x)"
  by (simp_all add: value_ok_def in_bounds_def field_bounds_def BOUNDS_def)

definition event_ok :: "page_event \<Rightarrow> bool" where
  "event_ok e = (case e of Fields_answer _ (Some fs) \<Rightarrow> fields_ok fs | _ \<Rightarrow> True)"

lemma runOptimize_wf: "page_wf s \<Longrightarrow> page_wf (runOptimize s)"
proof (cases "ph_busy s \<or> rate_model_of s = None")
  case False
  assume wf: "page_wf s"
  from False obtain M where M: "rate_model_of s = Some M" and b: "\<not> ph_busy s" by blast
  have "be_nonneg (search M)" using wf M by (rule search_nonneg)
  then show ?thesis using wf b M
    by (auto simp: page_wf_def runOptimize_def Let_def loaded_value_def be_nonneg_def intro!: draft_ok_update intensity_ok fixed3_nonneg)
qed (auto simp: runOptimize_def)

lemma land_wf: "page_wf s \<Longrightarrow> page_wf (land a s)"
  by (auto simp: page_wf_def land_def loaded_value_def answered_draft split: option.splits)

lemma page_step_wf: "event_ok e \<Longrightarrow> page_wf s \<Longrightarrow> page_wf (page_event_step e s)"
proof (cases e)
  case Press_optimize
  then show "page_wf s \<Longrightarrow> ?thesis" by (simp add: runOptimize_wf)
next
  case (Landed a)
  then show "page_wf s \<Longrightarrow> ?thesis" by (simp add: land_wf)
qed (auto simp: page_wf_def page_ops loaded_value_def event_ok_def fields_ok_bundled draft_ok_spread value_ok_def sent_ok_def dirty_def
    split: option.splits)

definition is_landed :: "page_event \<Rightarrow> bool" where
  "is_landed e = (case e of Landed _ \<Rightarrow> True | _ \<Rightarrow> False)"

lemma page_step_sent:
  "page_wf s \<Longrightarrow> length (ph_sent (page_event_step e s)) + (if ph_busy s then 1 else 0)
     \<le> length (ph_sent s) + (if ph_busy (page_event_step e s) then 1 else 0) + (if is_landed e then 1 else 0)"
  by (cases e) (auto simp: page_wf_def page_ops switch_off_def is_landed_def split: option.splits)

lemma page_step_live: "ph_sent (page_event_step e s) = ph_sent s \<or> ph_live s"
  by (cases e) (auto simp: page_ops switch_off_def split: option.splits)

lemma page_step_keeps_live: "ph_live (page_event_step e s) = (case e of Live b \<Rightarrow> b | _ \<Rightarrow> ph_live s)"
  by (cases e) (auto simp: page_ops split: option.splits)

abbreviation page_after :: "page_event list \<Rightarrow> physics_page" where
  "page_after es \<equiv> fold page_event_step es physics_new"

lemma page_after_facts:
  "list_all event_ok es \<Longrightarrow> page_wf (page_after es)
    \<and> length (ph_sent (page_after es)) \<le> length (filter is_landed es) + (if ph_busy (page_after es) then 1 else 0)
    \<and> (Live True \<in> set es \<or> ph_sent (page_after es) = [] \<and> \<not> ph_live (page_after es))"
proof (induction es rule: rev_induct)
  case Nil
  show ?case by (simp add: page_wf_def physics_new_def loaded_value_def fields_ok_def)
next
  case (snoc e es)
  let ?s = "page_after es"
  have ok: "event_ok e" and wf: "page_wf ?s" using snoc by simp_all
  have "page_wf (page_event_step e ?s)" using ok wf by (rule page_step_wf)
  moreover have "length (ph_sent (page_event_step e ?s))
      \<le> length (filter is_landed (es @ [e])) + (if ph_busy (page_event_step e ?s) then 1 else 0)"
    using page_step_sent [OF wf, of e] snoc by (simp split: if_splits)
  moreover have "Live True \<in> set (es @ [e]) \<or> ph_sent (page_event_step e ?s) = [] \<and> \<not> ph_live (page_event_step e ?s)"
    using snoc page_step_live [of e ?s] page_step_keeps_live [of e ?s] by (auto split: page_event.splits)
  ultimately show ?case by simp
qed


text \<open>A host that takes no overrides: the fields arrive, a length that has a meaning is kept and applied, a negative one is refused.\<close>

definition length_field :: editable_field where
  "length_field = number_field ''physical.link_length_km'' 10 FT_float"

definition sample_events :: "page_event list" where
  "sample_events = [Fields_answer False (Some [length_field]), Type length_field (Some 25), Type length_field (Some (-3)), Press_apply]"

lemma sample_page:
  "ph_sent (page_after sample_events) = []" "ph_local (page_after sample_events) = [(''physical.link_length_km'', FV_number 25)]"
  by (simp_all add: sample_events_def page_ops physics_new_def length_field_def number_field_def shown_field_def loaded_value_def GROUPS_def
      in_bounds_def field_bounds_def BOUNDS_def dirty_def spread_def)


subsection \<open>What the page gets wrong\<close>

text \<open>
  A refresh that fails after one that succeeded keeps the fields of the running stack and puts up the banner that says
  the values are the ones compiled into the bundle.
\<close>

lemma banner_over_live_fields:
  "let s = load_fields True None (load_fields False (Some fs) s0) in ph_fields s = Some fs \<and> ph_bundled s"
  by (simp add: load_fields_def load_catch_def)

text \<open>
  A draft typed while an Apply is under way is not in the request, and the answer that confirms the request drops it:
  the page shows the old value and says that the edit was applied.
\<close>

definition loss_field :: editable_field where
  "loss_field = number_field ''physical.fiber_attenuation_db_per_km'' (2 / 10) FT_float"

definition all_applied :: fanout_body where
  "all_applied = \<lparr>fo_ok = True, fo_nodes = [], fo_reached = Some 2, fo_of = Some 2, fo_detail = None\<rparr>"

definition late_edit :: "page_event list" where
  "late_edit = [Live True, Fields_answer False (Some [length_field, loss_field]), Type length_field (Some 25), Press_apply,
     Type loss_field (Some 1), Landed (Answered True 200 (Some all_applied))]"

lemma late_edit_lost:
  "ph_sent (page_after late_edit) = [PatchParams [(''physical.link_length_km'', FV_number 25)]]
    \<and> ph_edits (page_after late_edit) = [] \<and> cur_value (page_after late_edit) ''physical.fiber_attenuation_db_per_km'' = Some (FV_number (2 / 10))"
  by (simp add: late_edit_def page_ops physics_new_def length_field_def loss_field_def number_field_def shown_field_def loaded_value_def GROUPS_def
      in_bounds_def field_bounds_def BOUNDS_def dirty_def cur_value_def overlay_def answered_def fanoutFailure_def all_applied_def)

section \<open>What the page exports\<close>

record physics_snapshot =
  sn_backend :: string
  sn_kme_scope :: bool
  sn_overridden :: "string list"
  sn_pending :: "string list"
  sn_parameters :: draft
  sn_derived :: "rate_model option"
  sn_missing :: "string list"
  sn_optimizer :: "optimum option"

definition effective :: "physics_page \<Rightarrow> editable_field \<Rightarrow> field_value" where
  "effective s f = (case map_of (ph_edits s) (ef_path f) of
     Some v \<Rightarrow> v
   | None \<Rightarrow> (case map_of (overlay s) (ef_path f) of Some v \<Rightarrow> v | None \<Rightarrow> ef_value f))"

definition page_snapshot :: "physics_page \<Rightarrow> physics_snapshot" where
  "page_snapshot s =
     \<lparr>sn_backend = ph_backend s, sn_kme_scope = ph_live s,
      sn_overridden = (if ph_live s then map ef_path (filter ef_overridden (loaded_value s)) else map fst (overlay s)),
      sn_pending = map fst (ph_edits s),
      sn_parameters = fold (\<lambda>f. AList.update (ef_path f) (effective s f)) (loaded_value s) [],
      sn_derived = rate_model_of s, sn_missing = missingInputs s, sn_optimizer = ph_opt s\<rparr>"

text \<open>The value of each parameter in the export is the one the rate beside it was computed from.\<close>

lemma fold_update_map_of:
  "map_of (fold (\<lambda>f. AList.update (ef_path f) (g f)) fs al) k = (case map_of (rev (map (\<lambda>f. (ef_path f, g f)) fs)) k of Some v \<Rightarrow> Some v | None \<Rightarrow> map_of al k)"
  by (induction fs arbitrary: al) (auto simp: map_of_update_iff split: option.splits)

lemma find_distinct: "distinct (map ef_path fs) \<Longrightarrow> f \<in> set fs \<Longrightarrow> List.find (\<lambda>g. ef_path g = ef_path f) fs = Some f"
  by (induction fs) force+

lemma snapshot_agrees:
  assumes "distinct (map ef_path (loaded_value s))" "f \<in> set (loaded_value s)"
  shows "map_of (sn_parameters (page_snapshot s)) (ef_path f) = cur_value s (ef_path f)"
proof -
  have d: "distinct (map fst (rev (map (\<lambda>f. (ef_path f, effective s f)) (loaded_value s))))" using assms(1) by (simp add: rev_map [symmetric] comp_def)
  have "(ef_path f, effective s f) \<in> set (rev (map (\<lambda>f. (ef_path f, effective s f)) (loaded_value s)))" using assms(2) by auto
  with d have "map_of (rev (map (\<lambda>f. (ef_path f, effective s f)) (loaded_value s))) (ef_path f) = Some (effective s f)" by (rule map_of_is_SomeI)
  then show ?thesis using find_distinct [OF assms]
    by (simp add: page_snapshot_def fold_update_map_of cur_value_def effective_def split: option.splits)
qed

end
