(* ===== verification/Spec2Isabelle.thy ===== *)
theory Spec2Isabelle
  imports Etsi004 Routing Key_Stream Lab_Claims E2E_Claims Paper_Claims Pqc_Claims Keyrate_Finite Bb84_Engine_Claims Protocol_Rates_Claims Qkd_Rounds Exports_Claims View_Claims Playback Status_Views
    Model_Rates Page_Services Page_Physics
begin

text \<open>
  A verification library for the browser side of the PQC/QKD hybrid network demonstrator: the TypeScript of
  \<^verbatim>\<open>services/webui-frontend/src\<close>. It models what the front end computes by itself, on data and states of its own,
  and proves what makes each part right. Every path below is relative to that directory.

  \<^bold>\<open>The program.\<close> Pages drive four simulators, each a class with a timer, a status and the buttons run, pause,
  resume and step: the Protocol Lab (\<^verbatim>\<open>lib/sim/protocolLabSim.ts\<close>), the end-to-end key exchange
  (\<^verbatim>\<open>lib/sim/e2eSim.ts\<close>), the paper's data exchange (\<^verbatim>\<open>lib/sim/paperSim.ts\<close>) and the BB84 engine
  (\<^verbatim>\<open>lib/sim/bb84Sim.ts\<close>). The Protocol Lab runs keys over published networks, chooses routes, relays a key hop by
  hop under one-time pads, and delivers through a pair of ETSI GS QKD 004 key managers. The other two pass
  keys of the quantum and the post-quantum plane through HKDF into a tunnel, with layers knocked out on request. The
  BB84 engine simulates rounds on a CPU worker and moves to the accelerator that measures fastest. Beside the
  simulators stand closed-form key rates, post-quantum round trips and their comparison with a server, the
  walk-through of a single round, and the exports every page offers.

  \<^bold>\<open>The theories.\<close>
  \<^item> \<open>Prelude\<close>: the pieces of the JavaScript library the sources use. \<open>Ordering\<close>: \<^verbatim>\<open>sort\<close> with a comparator.
  \<^item> \<open>Etsi004\<close>: \<^verbatim>\<open>lib/sim/protocolLab/etsi004.ts\<close>. The key manager pair, one definition per method; its invariant;
    its refinement of an abstract stream that only appends; what a read at the next index returns.
  \<^item> \<open>Routing\<close>, \<open>Networks\<close>: \<^verbatim>\<open>routing.ts\<close> and \<^verbatim>\<open>publishedNetworks.ts\<close> beside it. The walk of the simple paths
    against a reference enumeration, soundness and optimality of the route chosen, the published tables.
  \<^item> \<open>Key_Stream\<close>: the locale the relay needs from the key managers, and its interpretation.
  \<^item> \<open>Seeds\<close>: \<^verbatim>\<open>runSeed.ts\<close>. \<open>Pacing\<close>: \<^verbatim>\<open>pacing.ts\<close>. \<open>Crypto\<close>: \<^verbatim>\<open>crypto.ts\<close>. \<open>Base64\<close>: \<^verbatim>\<open>btoa\<close> and \<^verbatim>\<open>atob\<close>.
    \<open>Browser\<close>: what the simulators read from the platform. \<open>Sim_Controls\<close>: the buttons, as a locale that
    each simulator interprets.
  \<^item> \<open>Lab_State\<close>, \<open>Lab_Tick\<close>, \<open>Lab_Control\<close>: \<^verbatim>\<open>protocolLabSim.ts\<close>, its state, one tick, and the controls.
    \<open>Lab_Inv\<close>, \<open>Lab_Props\<close>, \<open>Lab_Reach\<close>, \<open>Lab_Ledger\<close>, \<open>Lab_Claims\<close>: its invariant, the states a run reaches,
    where every key of a tick goes, link by link, and its properties.
  \<^item> \<open>E2E\<close>, \<open>E2E_Inv\<close>, \<open>E2E_Claims\<close>: \<^verbatim>\<open>e2eSim.ts\<close>. \<open>Paper\<close>, \<open>Paper_Inv\<close>, \<open>Paper_Laws\<close>, \<open>Paper_Claims\<close>: \<^verbatim>\<open>paperSim.ts\<close>,
    whose counters refine a tally over the published budgets.
  \<^item> \<open>Pqc\<close>, \<open>Agility\<close>, \<open>Pqc_Claims\<close>: \<^verbatim>\<open>pqc.ts\<close> and \<^verbatim>\<open>agilityCrossCheck.ts\<close>. A verdict of success
    means that every algorithm did what its name promises, on both sides.
  \<^item> \<open>Keyrate\<close>, \<open>Keyrate_Bounds\<close>, \<open>Keyrate_Finite\<close>: \<^verbatim>\<open>keyrate.ts\<close>. The decoy bounds are sound for the channel they
    are applied to, and the finite key is never longer than its single-photon and vacuum events allow.
  \<^item> \<open>Doubles\<close>: numbers with rounding, overflow, the infinities and \<^verbatim>\<open>NaN\<close>. \<open>Protocol_Rates\<close>, \<open>Protocol_Rates_Claims\<close>:
    \<^verbatim>\<open>protocolRates.ts\<close>. Where the Bessel series ends on doubles and where it never does, the rate of BBM92 from its
    photon pairs, the searches. \<open>Model_Rates\<close>: \<^verbatim>\<open>protocolLab/rates.ts\<close>, the comparison with measured links.
  \<^item> \<open>Bb84_Channel\<close>, \<open>Bb84_Worker\<close>, \<open>Bb84_Claims\<close>: \<^verbatim>\<open>bb84Channel.ts\<close>, \<^verbatim>\<open>bb84.worker.ts\<close>, \<^verbatim>\<open>bb84Wasm.ts\<close>.
    \<open>Bb84_Engine\<close>, \<open>Bb84_Engine_Inv\<close>, \<open>Bb84_Engine_Claims\<close>: \<^verbatim>\<open>bb84Sim.ts\<close>, with every \<^verbatim>\<open>await\<close> a task of its own.
  \<^item> \<open>Qkd_Rounds\<close>: \<^verbatim>\<open>qkdRounds.ts\<close>. \<open>Exports\<close>, \<open>Exports_Claims\<close>: \<^verbatim>\<open>lib/exporters.ts\<close>: the file is delivered first,
    a CSV text can be read back, a GIF holds every frame captured, in order, and plays for as long as it was recorded.
  \<^item> \<open>View\<close>, \<open>View_Claims\<close>, \<open>Playback\<close>: \<^verbatim>\<open>view.ts\<close> and \<^verbatim>\<open>playback.ts\<close> of the Protocol Lab. The clip of a segment is
    exact, captions do not collide, the key moves along the link it crosses and is shown in the clear only at a trusted node.
  \<^item> \<open>Status_Views\<close>: verdicts, badges, rates, the key-flow figure and the focus rules of the menu
    (\<^verbatim>\<open>pages/crosscheckVerdict.ts\<close>, \<^verbatim>\<open>pages/wgStatusBadge.ts\<close>, \<^verbatim>\<open>lib/formatRate.ts\<close> and others).
  \<^item> \<open>Page_Services\<close>: \<^verbatim>\<open>api.ts\<close>, \<^verbatim>\<open>lib/useConfig.ts\<close>, \<^verbatim>\<open>lib/usePoll.ts\<close>, \<^verbatim>\<open>lib/layout.ts\<close>: what a page shows of the one
    request for the configuration, in any order of events. \<open>Page_Physics\<close>: \<^verbatim>\<open>pages/PhysicsParams.tsx\<close>, the parameter
    editor as a state and the events that reach it; no edit leaves the browser unless the host takes it.

  \<^bold>\<open>How the code is read.\<close> A class is a record with a field per member and a method is a function to the new record.
  \<^verbatim>\<open>emit\<close>, which publishes a copy, changes nothing. \<^verbatim>\<open>null\<close> and \<^verbatim>\<open>undefined\<close> are \<open>None\<close>; a thrown error is \<open>None\<close>,
  \<open>Inl\<close> or a flag beside the state. A number is an \<open>int\<close> or \<open>nat\<close> where it counts, a \<open>rat\<close> where it divides, a
  32-bit word where the code forces it to 32 bits, a rational rounded as a double or a float where that matters (\<open>Seeds\<close>,
  \<open>Bb84_Channel\<close>), a \<open>js_number\<close> where a loop depends on rounding and overflow (\<open>Doubles\<close>, for the Bessel series), and a
  \<open>real\<close> in the key rates, which are then not executable; no other rounding is modelled.

  \<^bold>\<open>Parameters.\<close> Random bytes, clocks, UUIDs and the outcome of a task are read in order from sequences by counters of
  the state. The noble libraries are records of functions. What the code relies on is stated as a hypothesis
  (\<open>tape_ok\<close>, \<open>noble_ok\<close>, \<open>browser_ok\<close>, \<open>platform_ok\<close>): lengths, and the refusal of a wrong key; each has an instance,
  which the witnesses use.

  \<^bold>\<open>Bounds.\<close> The loop of \<^verbatim>\<open>refillStream\<close> has \<open>LOW_WM\<close> passes of fuel, and \<open>refill_loop_exit\<close> shows that it has stopped by
  then. The enumeration of paths is cut at 64 by the code itself. Every other loop is total, or a partial function with a
  theorem on where it returns (\<open>besselI0_returns\<close>, which also shows where it does not, and \<open>gif_recording\<close>).

  \<^bold>\<open>Not modelled.\<close> The other React pages, components and styles: they render the states modelled here. The shaders of the
  GPU and WebGL tiers and the set-up of a device, the Rust kernel and its generated wrapper: not TypeScript, and parameters
  of the engine. The recording of WebM video and the rasterising of an SVG: calls of the browser's media interfaces.
  The Python, Go and shell services, reached over HTTP: other languages, their answers are parameters.
\<close>

lemma load_status: "load p pid sid fd s = Some s' \<Longrightarrow> lab_status s' = lab_status s"
proof -
  assume l: "load p pid sid fd s = Some s'"
  then obtain pr where e1: "presetById pid = Some pr" by (cases "presetById pid") (simp_all add: load_def)
  with l obtain sc where e2: "after_load p (loaded pr sc fd s) = s'"
    by (cases "scenario_to_load sid pid") (simp_all add: load_def)
  show ?thesis
    unfolding e2 [symmetric] by (simp add: after_load_def loaded_def Let_def clearKeyMaterial_def)
qed

lemma lab_new_idle: "lab_new p sd pid pace = Some s \<Longrightarrow> lab_status s = Idle"
  unfolding lab_new_def by (drule load_status) simp

text \<open>
  C22. The three simulators run in exactly the same cases. After any sequence of Run, Pause, Resume and Step from
  a fresh page, the badge of the protocol lab, of the end-to-end simulator and of the paper's simulator reads
  running if and only if the last of Run, Resume and Pause pressed was not Pause (and one was pressed), and in each of
  them the loop's timer is set exactly then. What a page that is not running shows (idle, stepped, paused) may differ
  from one simulator to another, as the paper's Step does.
\<close>

theorem simulators_buttons_agree:
  assumes "browser_ok env" "platform_ok p" "lab_new p sd presetId pace = Some l"
    and "e = e2e_run env (map e2e_button bs)" "q = paper_run env (map paper_button bs)"
    and "m = foldl (\<lambda>s b. lab_button p t now b s) l bs"
  shows "(es_status e = Running \<longleftrightarrow> shown bs False) \<and> (pp_status q = Running \<longleftrightarrow> shown bs False) \<and> (lab_status m = Running \<longleftrightarrow> shown bs False)
    \<and> (e_timer e \<longleftrightarrow> shown bs False) \<and> (pp_timer q \<longleftrightarrow> shown bs False) \<and> (lab_timer m \<longleftrightarrow> shown bs False)"
proof -
  have wf: "platform_ok p \<and> lab_wf l" using lab_reach_wf [OF reach_new [OF assms(3)] assms(2)] assms(2) by blast
  have idle: "lab_status l \<noteq> Running" using lab_new_idle [OF assms(3)] by simp
  then have ag: "lab_ui.agrees l" using wf by (auto simp: lab_ui.agrees_def lab_wf_def loop_ok_def)
  show ?thesis
    using lab_ui.presses_agree [OF wf ag, where t = t and now = now and bs = bs] lab_ui.presses_running [OF wf, where t = t and now = now and bs = bs]
      e2e_buttons_agree [OF assms(1), of bs] paper_buttons_agree [OF assms(1), of bs] idle
    by (simp add: assms(4,5,6) lab_presses lab_ui.agrees_def)
qed

theorem simulators_buttons_agree_witness:
  "pp_status (paper_run demo_browser (map paper_button [B_start, B_step, B_pause, B_step])) \<noteq> Running"
  using simulators_buttons_agree [OF demo_browser_ok demo_platform_ok demo_new refl refl refl, of "[B_start, B_step, B_pause, B_step]"]
  by simp

end
